(* ===== verification/Prelude.thy ===== *)
theory Prelude
  imports Complex_Main "HOL-Library.AList" "HOL-Library.Multiset" "HOL-Library.Sublist"
begin

text \<open>
  The part of Python that the modelled code relies on, and the lemmas the components share:
  \<^item> exceptions as values (\<open>py_exn\<close>), computations that may raise as \<open>'a res\<close>, and
    their sequencing \<open>rbind\<close>;
  \<^item> dynamically typed values \<open>pyval\<close> (event payloads, YAML documents);
  \<^item> dictionaries as association lists in insertion order, indexing, slicing, \<open>min\<close>/\<open>max\<close>
    with a key, true division, truncation and rounding of floats;
  \<^item> string operations: decimal printing and parsing of integers, \<open>split\<close>, \<open>join\<close>,
    \<open>strip\<close>, \<open>lower\<close>.

  Python's unbounded integers are \<open>int\<close>. Floats are \<open>real\<close>: rounding of IEEE
  arithmetic is not modelled, every other effect of the float operations used (the exception on
  a zero divisor, truncation towards zero, infinite bounds) is written out.
  Strings are \<open>char list\<close> over the 8-bit characters of HOL.
\<close>

section \<open>Collections of facts\<close>

named_theorems res_simps \<open>equations that decompose a successful or a failing computation\<close>
named_theorems frame_simps \<open>fields an operation leaves alone\<close>

section \<open>Exceptions and computations that may raise\<close>

datatype py_exn =
    ValueError string
  | KeyError string
  | IndexError string
  | AttributeError string
  | TypeError string
  | ZeroDivisionError
  | AssertionError string
  | RuntimeError string
  | FileNotFoundError string
  | HTTPException int string
  | IntegrityError string
  | OtherException string

type_synonym 'a res = "py_exn + 'a"
type_synonym pyfloat = real

definition rbind :: "'a res \<Rightarrow> ('a \<Rightarrow> 'b res) \<Rightarrow> 'b res" where
  "rbind m f = (case m of Inl e \<Rightarrow> Inl e | Inr x \<Rightarrow> f x)"

lemma rbind_Inl [simp]: "rbind (Inl e) f = Inl e"
  by (simp add: rbind_def)

lemma rbind_Inr [simp]: "rbind (Inr x) f = f x"
  by (simp add: rbind_def)

lemma rbind_assoc: "rbind (rbind m f) g = rbind m (\<lambda>x. rbind (f x) g)"
  by (cases m) simp_all

lemma rbind_eq_Inr [res_simps]: "rbind m f = Inr y \<longleftrightarrow> (\<exists>x. m = Inr x \<and> f x = Inr y)"
  by (cases m) simp_all

lemma rbind_eq_Inl [res_simps]:
  "rbind m f = Inl e \<longleftrightarrow> m = Inl e \<or> (\<exists>x. m = Inr x \<and> f x = Inl e)"
  by (cases m) auto

lemma rbind_cong [fundef_cong]:
  "m = m' \<Longrightarrow> (\<And>x. m' = Inr x \<Longrightarrow> f x = f' x) \<Longrightarrow> rbind m f = rbind m' f'"
  by (cases m') simp_all

text \<open>\<open>assert c, msg\<close>\<close>

definition py_assert :: "bool \<Rightarrow> string \<Rightarrow> unit res" where
  "py_assert c msg = (if c then Inr () else Inl (AssertionError msg))"

lemma py_assert_eq [res_simps]:
  "py_assert c msg = Inr u \<longleftrightarrow> c"
  "py_assert c msg = Inl e \<longleftrightarrow> \<not> c \<and> e = AssertionError msg"
  by (auto simp: py_assert_def)

text \<open>\<open>try: m  except Exception: h\<close>; every exception of the model is an \<open>Exception\<close>.\<close>

definition py_try :: "'a res \<Rightarrow> 'a res \<Rightarrow> 'a res" where
  "py_try m h = (case m of Inl e \<Rightarrow> h | Inr x \<Rightarrow> Inr x)"

lemma py_try_simps [simp]: "py_try (Inl e) h = h" "py_try (Inr x) h = Inr x"
  by (simp_all add: py_try_def)

text \<open>A loop \<open>for x in xs\<close> whose body updates a state and may raise.\<close>

fun for_res :: "('a \<Rightarrow> 's \<Rightarrow> 's res) \<Rightarrow> 'a list \<Rightarrow> 's \<Rightarrow> 's res" where
  "for_res body [] s = Inr s"
| "for_res body (x # xs) s = rbind (body x s) (for_res body xs)"

lemma for_res_append: "for_res body (xs @ ys) s = rbind (for_res body xs s) (for_res body ys)"
proof (induction xs arbitrary: s)
  case (Cons x xs)
  then show ?case by (cases "body x s") simp_all
qed simp

lemma for_res_invariant:
  assumes "for_res body xs s = Inr t" and "P s"
    and "\<And>x s s'. x \<in> set xs \<Longrightarrow> P s \<Longrightarrow> body x s = Inr s' \<Longrightarrow> P s'"
  shows "P t"
  using assms
proof (induction xs arbitrary: s)
  case Nil
  then show ?case by simp
next
  case (Cons x xs)
  from Cons.prems(1) obtain s' where s': "body x s = Inr s'" "for_res body xs s' = Inr t"
    by (auto simp: res_simps)
  have "P s'" using Cons.prems(2,3) s'(1) by auto
  with s'(2) show ?case using Cons.IH Cons.prems(3) by auto
qed

lemma for_res_total:
  assumes "P s" and "\<And>x s. x \<in> set xs \<Longrightarrow> P s \<Longrightarrow> \<exists>s'. body x s = Inr s' \<and> P s'"
  shows "\<exists>t. for_res body xs s = Inr t \<and> P t"
  using assms
proof (induction xs arbitrary: s)
  case Nil
  then show ?case by simp
next
  case (Cons x xs)
  then obtain s' where "body x s = Inr s'" "P s'" by fastforce
  then show ?case using Cons by simp
qed

text \<open>A list comprehension whose element expression may raise.\<close>

fun map_res :: "('a \<Rightarrow> 'b res) \<Rightarrow> 'a list \<Rightarrow> 'b list res" where
  "map_res f [] = Inr []"
| "map_res f (x # xs) = rbind (f x) (\<lambda>y. rbind (map_res f xs) (\<lambda>ys. Inr (y # ys)))"

lemma map_res_Inr: "map_res f xs = Inr ys \<longleftrightarrow> list_all2 (\<lambda>x y. f x = Inr y) xs ys"
  by (induction xs arbitrary: ys) (auto simp: res_simps list_all2_Cons1)

section \<open>Dynamically typed values\<close>

datatype pyval =
    PNone
  | PBool bool
  | PInt int
  | PFloat real
  | PStr string
  | PList "pyval list"
  | PDict "(string \<times> pyval) list"

section \<open>Dictionaries in insertion order\<close>

type_synonym 'v pydict = "(string \<times> 'v) list"

text \<open>\<open>d[k]\<close> raises \<open>KeyError\<close>; \<open>d.get(k, x)\<close> does not.\<close>

definition dict_get :: "'v pydict \<Rightarrow> string \<Rightarrow> 'v res" where
  "dict_get d k = (case map_of d k of None \<Rightarrow> Inl (KeyError k) | Some v \<Rightarrow> Inr v)"

definition dict_get_default :: "'v pydict \<Rightarrow> string \<Rightarrow> 'v \<Rightarrow> 'v" where
  "dict_get_default d k x = (case map_of d k of None \<Rightarrow> x | Some v \<Rightarrow> v)"

abbreviation dict_set :: "string \<Rightarrow> 'v \<Rightarrow> 'v pydict \<Rightarrow> 'v pydict" where
  "dict_set k v d \<equiv> AList.update k v d"

abbreviation dict_del :: "string \<Rightarrow> 'v pydict \<Rightarrow> 'v pydict" where
  "dict_del k d \<equiv> AList.delete k d"

abbreviation dict_has :: "'v pydict \<Rightarrow> string \<Rightarrow> bool" where
  "dict_has d k \<equiv> map_of d k \<noteq> None"

lemma dict_get_eq [res_simps]:
  "dict_get d k = Inr v \<longleftrightarrow> map_of d k = Some v"
  "dict_get d k = Inl e \<longleftrightarrow> map_of d k = None \<and> e = KeyError k"
  by (auto simp: dict_get_def split: option.splits)

text \<open>Counting in a dictionary, \<open>d[k] = d.get(k, 0) + 1\<close>.\<close>

definition dict_bump :: "string \<Rightarrow> nat pydict \<Rightarrow> nat pydict" where
  "dict_bump k d = dict_set k (dict_get_default d k 0 + 1) d"

lemma sum_list_update_dict:
  fixes d :: "(string \<times> 'v::ab_group_add) list"
  assumes "distinct (map fst d)"
  shows "sum_list (map snd (AList.update k v d)) =
    sum_list (map snd d) + v - (case map_of d k of None \<Rightarrow> 0 | Some w \<Rightarrow> w)"
  using assms
  by (induction d) (auto simp: algebra_simps split: option.splits dest: map_of_SomeD)

lemma sum_list_delete_dict:
  fixes d :: "(string \<times> 'v::ab_group_add) list"
  assumes "distinct (map fst d)"
  shows "sum_list (map snd (AList.delete k d)) =
    sum_list (map snd d) - (case map_of d k of None \<Rightarrow> 0 | Some w \<Rightarrow> w)"
  using assms
proof (induction d)
  case Nil
  then show ?case by (simp add: AList.delete_eq)
next
  case (Cons p d)
  obtain k' w where p: "p = (k', w)" by (cases p)
  show ?case
  proof (cases "k = k'")
    case True
    with Cons.prems p have "k \<notin> fst ` set d" by auto
    then have "AList.delete k d = d" and "map_of d k = None"
      by (auto simp: delete_id map_of_eq_None_iff)
    with True p show ?thesis by (simp add: AList.delete_eq)
  next
    case False
    with Cons p show ?thesis by (simp add: AList.delete_eq split: option.splits)
  qed
qed

lemma set_dict_set: "set (AList.update k v d) \<subseteq> insert (k, v) (set d)"
  by (induction d) auto

lemma dict_set_fresh: "k \<notin> fst ` set d \<Longrightarrow> AList.update k v d = d @ [(k, v)]"
  by (induction d) auto

lemma set_dict_del: "set (AList.delete k d) \<subseteq> set d"
  by (auto simp: AList.delete_eq)

lemma sum_list_dict_bump:
  assumes "distinct (map fst d)"
  shows "sum_list (map snd (dict_bump k d)) = Suc (sum_list (map snd d))"
  using assms
proof (induction d)
  case Nil
  then show ?case by (simp add: dict_bump_def dict_get_default_def)
next
  case (Cons p d)
  obtain k' w where p: "p = (k', w)" by (cases p)
  show ?case
    using Cons p by (cases "k = k'") (auto simp: dict_bump_def dict_get_default_def split: option.splits)
qed

lemma distinct_dict_bump [intro]:
  "distinct (map fst d) \<Longrightarrow> distinct (map fst (dict_bump k d))"
  by (simp add: dict_bump_def distinct_update)

section \<open>Sequences\<close>

text \<open>\<open>xs[i]\<close>, negative indices counting from the end; \<open>xs[:k]\<close>.\<close>

definition py_nth :: "'a list \<Rightarrow> int \<Rightarrow> 'a res" where
  "py_nth xs i =
     (if i < - int (length xs) \<or> int (length xs) \<le> i
      then Inl (IndexError ''list index out of range'')
      else Inr (xs ! nat (if i < 0 then i + int (length xs) else i)))"

definition py_take :: "'a list \<Rightarrow> int \<Rightarrow> 'a list" where
  "py_take xs k = take (nat (if k < 0 then int (length xs) + k else k)) xs"

lemma py_nth_nonneg: "0 \<le> i \<Longrightarrow> i < int (length xs) \<Longrightarrow> py_nth xs i = Inr (xs ! nat i)"
  by (simp add: py_nth_def)

lemma py_take_nonneg [simp]: "0 \<le> k \<Longrightarrow> py_take xs k = take (nat k) xs"
  by (simp add: py_take_def)

text \<open>
  \<open>min(xs, key=f)\<close> and \<open>max(xs, key=f)\<close>: the first element whose key is not beaten by an
  earlier one; both raise \<open>ValueError\<close> on an empty sequence.
\<close>

fun min_by_acc :: "('a \<Rightarrow> 'k::linorder) \<Rightarrow> 'a \<Rightarrow> 'a list \<Rightarrow> 'a" where
  "min_by_acc f b [] = b"
| "min_by_acc f b (x # xs) = min_by_acc f (if f x < f b then x else b) xs"

definition py_min_by :: "('a \<Rightarrow> 'k::linorder) \<Rightarrow> 'a list \<Rightarrow> 'a res" where
  "py_min_by f xs = (case xs of [] \<Rightarrow> Inl (ValueError ''min() arg is an empty sequence'')
     | x # ys \<Rightarrow> Inr (min_by_acc f x ys))"

fun max_by_acc :: "('a \<Rightarrow> 'k::linorder) \<Rightarrow> 'a \<Rightarrow> 'a list \<Rightarrow> 'a" where
  "max_by_acc f b [] = b"
| "max_by_acc f b (x # xs) = max_by_acc f (if f b < f x then x else b) xs"

definition py_max_by :: "('a \<Rightarrow> 'k::linorder) \<Rightarrow> 'a list \<Rightarrow> 'a res" where
  "py_max_by f xs = (case xs of [] \<Rightarrow> Inl (ValueError ''max() arg is an empty sequence'')
     | x # ys \<Rightarrow> Inr (max_by_acc f x ys))"

lemma min_by_acc_mem: "min_by_acc f b xs \<in> insert b (set xs)"
proof (induction xs arbitrary: b)
  case (Cons x xs)
  show ?case using Cons.IH [of "if f x < f b then x else b"] by (auto split: if_splits)
qed simp

lemma min_by_acc_le: "x \<in> insert b (set xs) \<Longrightarrow> f (min_by_acc f b xs) \<le> f x"
proof (induction xs arbitrary: b x)
  case Nil
  then show ?case by simp
next
  case (Cons y ys)
  let ?b = "if f y < f b then y else b"
  have le: "f (min_by_acc f ?b ys) \<le> f ?b" by (rule Cons.IH) simp
  have "f ?b \<le> f y" and "f ?b \<le> f b" by auto
  with le have "f (min_by_acc f ?b ys) \<le> f y" and "f (min_by_acc f ?b ys) \<le> f b"
    by (blast intro: order_trans)+
  moreover have "z \<in> set ys \<Longrightarrow> f (min_by_acc f ?b ys) \<le> f z" for z
    by (rule Cons.IH) simp
  ultimately show ?case using Cons.prems by auto
qed

lemma max_by_acc_mem: "max_by_acc f b xs \<in> insert b (set xs)"
proof (induction xs arbitrary: b)
  case (Cons x xs)
  show ?case using Cons.IH [of "if f b < f x then x else b"] by (auto split: if_splits)
qed simp

lemma max_by_acc_ge: "x \<in> insert b (set xs) \<Longrightarrow> f x \<le> f (max_by_acc f b xs)"
proof (induction xs arbitrary: b x)
  case Nil
  then show ?case by simp
next
  case (Cons y ys)
  let ?b = "if f b < f y then y else b"
  have le: "f ?b \<le> f (max_by_acc f ?b ys)" by (rule Cons.IH) simp
  have "f y \<le> f ?b" and "f b \<le> f ?b" by auto
  with le have "f y \<le> f (max_by_acc f ?b ys)" and "f b \<le> f (max_by_acc f ?b ys)"
    by (blast intro: order_trans)+
  moreover have "z \<in> set ys \<Longrightarrow> f z \<le> f (max_by_acc f ?b ys)" for z
    by (rule Cons.IH) simp
  ultimately show ?case using Cons.prems by auto
qed

lemma py_min_by_Inr:
  assumes "py_min_by f xs = Inr y"
  shows "y \<in> set xs" and "\<And>x. x \<in> set xs \<Longrightarrow> f y \<le> f x"
  using assms min_by_acc_mem [of f] min_by_acc_le [of _ _ _ f]
  by (auto simp: py_min_by_def split: list.splits)

lemma py_max_by_Inr:
  assumes "py_max_by f xs = Inr y"
  shows "y \<in> set xs" and "\<And>x. x \<in> set xs \<Longrightarrow> f x \<le> f y"
  using assms max_by_acc_mem [of f] max_by_acc_ge [of _ _ _ f]
  by (auto simp: py_max_by_def split: list.splits)

lemma py_min_by_total: "xs \<noteq> [] \<Longrightarrow> \<exists>y. py_min_by f xs = Inr y"
  by (auto simp: py_min_by_def split: list.splits)

lemma py_max_by_total: "xs \<noteq> [] \<Longrightarrow> \<exists>y. py_max_by f xs = Inr y"
  by (auto simp: py_max_by_def split: list.splits)

section \<open>Floats\<close>

text \<open>\<open>a / b\<close> raises on a zero divisor; \<open>int(x)\<close> truncates; \<open>a // b\<close> on integers.\<close>

definition py_div :: "real \<Rightarrow> real \<Rightarrow> real res" where
  "py_div a b = (if b = 0 then Inl ZeroDivisionError else Inr (a / b))"

definition py_floordiv :: "int \<Rightarrow> int \<Rightarrow> int res" where
  "py_floordiv a b = (if b = 0 then Inl ZeroDivisionError else Inr (a div b))"

definition py_int :: "real \<Rightarrow> int" where
  "py_int x = (if 0 \<le> x then \<lfloor>x\<rfloor> else \<lceil>x\<rceil>)"

text \<open>\<open>round(x, 6)\<close>: to the nearest multiple of \<open>10^-6\<close>, ties to the even one.\<close>

definition round_half_even :: "real \<Rightarrow> int" where
  "round_half_even x =
     (let f = \<lfloor>x\<rfloor>; d = x - of_int f
      in if d < 1/2 then f else if d > 1/2 then f + 1 else if even f then f else f + 1)"

definition py_round6 :: "real \<Rightarrow> real" where
  "py_round6 x = of_int (round_half_even (x * 1000000)) / 1000000"

definition py_round2 :: "real \<Rightarrow> real" where
  "py_round2 x = of_int (round_half_even (x * 100)) / 100"

lemma py_div_eq [res_simps]:
  "py_div a b = Inr c \<longleftrightarrow> b \<noteq> 0 \<and> c = a / b"
  "py_div a b = Inl e \<longleftrightarrow> b = 0 \<and> e = ZeroDivisionError"
  by (auto simp: py_div_def)

lemma py_floordiv_eq [res_simps]:
  "py_floordiv a b = Inr c \<longleftrightarrow> b \<noteq> 0 \<and> c = a div b"
  "py_floordiv a b = Inl e \<longleftrightarrow> b = 0 \<and> e = ZeroDivisionError"
  by (auto simp: py_floordiv_def)

lemma py_div_nonzero [simp]: "b \<noteq> 0 \<Longrightarrow> py_div a b = Inr (a / b)"
  by (simp add: py_div_def)

lemma py_int_nonneg: "0 \<le> x \<Longrightarrow> 0 \<le> py_int x"
  by (simp add: py_int_def)

lemma py_int_le: "0 \<le> x \<Longrightarrow> of_int (py_int x) \<le> x"
  by (simp add: py_int_def)

section \<open>Strings\<close>

definition digit_char :: "nat \<Rightarrow> char" where
  "digit_char d = char_of (48 + d)"

fun str_nat :: "nat \<Rightarrow> string" where
  "str_nat n = (if n < 10 then [digit_char n] else str_nat (n div 10) @ [digit_char (n mod 10)])"

declare str_nat.simps [simp del]

definition str_int :: "int \<Rightarrow> string" where
  "str_int i = (if i < 0 then ''-'' @ str_nat (nat (- i)) else str_nat (nat i))"

definition is_digit :: "char \<Rightarrow> bool" where
  "is_digit c \<longleftrightarrow> 48 \<le> (of_char c :: nat) \<and> (of_char c :: nat) \<le> 57"

definition digit_val :: "char \<Rightarrow> nat" where
  "digit_val c = of_char c - 48"

definition nat_of_digits :: "string \<Rightarrow> nat" where
  "nat_of_digits s = fold (\<lambda>c n. 10 * n + digit_val c) s 0"

lemma digit_val_char [simp]: "d < 10 \<Longrightarrow> digit_val (digit_char d) = d"
  by (simp add: digit_val_def digit_char_def)

lemma is_digit_char [simp]: "d < 10 \<Longrightarrow> is_digit (digit_char d)"
  by (simp add: is_digit_def digit_char_def)

lemma nat_of_digits_snoc: "nat_of_digits (s @ [c]) = 10 * nat_of_digits s + digit_val c"
  by (simp add: nat_of_digits_def)

lemma nat_of_digits_str_nat [simp]: "nat_of_digits (str_nat n) = n"
proof (induction n rule: str_nat.induct)
  case (1 n)
  show ?case
  proof (cases "n < 10")
    case True
    then show ?thesis by (simp add: str_nat.simps [of n] nat_of_digits_def)
  next
    case False
    with 1 show ?thesis by (simp add: str_nat.simps [of n] nat_of_digits_snoc)
  qed
qed

lemma str_nat_inject [simp]: "str_nat m = str_nat n \<longleftrightarrow> m = n"
  by (metis nat_of_digits_str_nat)

lemma str_nat_digits: "c \<in> set (str_nat n) \<Longrightarrow> is_digit c"
proof (induction n rule: str_nat.induct)
  case (1 n)
  then show ?case
    by (cases "n < 10") (auto simp: str_nat.simps [of n])
qed

lemma str_nat_nonempty [simp]: "str_nat n \<noteq> []"
  by (simp add: str_nat.simps [of n])

text \<open>\<open>s.split(c)\<close> for a one-character separator, \<open>sep.join(xs)\<close>.\<close>

fun split_on :: "char \<Rightarrow> string \<Rightarrow> string list" where
  "split_on c [] = [[]]"
| "split_on c (x # xs) =
     (if x = c then [] # split_on c xs
      else case split_on c xs of [] \<Rightarrow> [[x]] | y # ys \<Rightarrow> (x # y) # ys)"

fun join_with :: "string \<Rightarrow> string list \<Rightarrow> string" where
  "join_with sep [] = []"
| "join_with sep [x] = x"
| "join_with sep (x # y # zs) = x @ sep @ join_with sep (y # zs)"

lemma split_on_nonempty [simp]: "split_on c xs \<noteq> []"
  by (cases xs) (auto split: list.splits)

lemma split_on_no_sep: "c \<notin> set xs \<Longrightarrow> split_on c xs = [xs]"
  by (induction xs) auto

lemma split_on_append: "c \<notin> set xs \<Longrightarrow> split_on c (xs @ c # ys) = xs # split_on c ys"
  by (induction xs) auto

lemma join_split: "join_with [c] (split_on c xs) = xs"
proof (induction xs)
  case Nil
  then show ?case by simp
next
  case (Cons x xs)
  then show ?case
    by (cases "split_on c xs") (auto elim: join_with.elims split: list.splits,
        (cases "tl (split_on c xs)"; auto)+)
qed

lemma split_on_chars: "p \<in> set (split_on c xs) \<Longrightarrow> set p \<subseteq> set xs - {c}"
proof (induction xs arbitrary: p)
  case Nil
  then show ?case by simp
next
  case (Cons x xs)
  then show ?case by (cases "split_on c xs") (fastforce split: if_splits)+
qed

definition is_space :: "char \<Rightarrow> bool" where
  "is_space c \<longleftrightarrow> (let n = (of_char c :: nat) in 9 \<le> n \<and> n \<le> 13 \<or> 28 \<le> n \<and> n \<le> 32)"

definition strip_by :: "(char \<Rightarrow> bool) \<Rightarrow> string \<Rightarrow> string" where
  "strip_by p s = rev (dropWhile p (rev (dropWhile p s)))"

definition py_strip :: "string \<Rightarrow> string" where
  "py_strip s = strip_by is_space s"

text \<open>\<open>s.split()\<close>: the words between white space.\<close>

definition py_words :: "string \<Rightarrow> string list" where
  "py_words s = filter (\<lambda>w. w \<noteq> []) (split_on CHR '' '' (map (\<lambda>c. if is_space c then CHR '' '' else c) s))"

definition lower_char :: "char \<Rightarrow> char" where
  "lower_char c = (let n = (of_char c :: nat) in if 65 \<le> n \<and> n \<le> 90 then char_of (n + 32) else c)"

definition py_lower :: "string \<Rightarrow> string" where
  "py_lower s = map lower_char s"

text \<open>\<open>sub in s\<close> and \<open>s.startswith(p)\<close>.\<close>

abbreviation py_in :: "string \<Rightarrow> string \<Rightarrow> bool" where
  "py_in sub s \<equiv> sublist sub s"

abbreviation py_startswith :: "string \<Rightarrow> string \<Rightarrow> bool" where
  "py_startswith s p \<equiv> prefix p s"

text \<open>
  \<open>int(s)\<close> on a string: surrounding white space and a sign are allowed, single underscores may
  separate digits, anything else is a \<open>ValueError\<close>. The white space is that of C, without the
  separators \<open>FS\<close> to \<open>US\<close> that \<open>strip\<close> removes. The interpreter's limit on the
  number of digits is not modelled.
\<close>

definition is_c_space :: "char \<Rightarrow> bool" where
  "is_c_space c \<longleftrightarrow> (let n = (of_char c :: nat) in 9 \<le> n \<and> n \<le> 13 \<or> n = 32)"

fun digits_ok :: "string \<Rightarrow> bool" where
  "digits_ok [] = False"
| "digits_ok [c] = is_digit c"
| "digits_ok (c # d # cs) =
     (is_digit c \<and> (if d = CHR ''_'' then digits_ok cs else digits_ok (d # cs)))"

definition py_int_str :: "string \<Rightarrow> int res" where
  "py_int_str s =
     (let t = strip_by is_c_space s;
          neg = (t \<noteq> [] \<and> hd t = CHR ''-'');
          ds = (if t \<noteq> [] \<and> (hd t = CHR ''-'' \<or> hd t = CHR ''+'') then tl t else t)
      in if digits_ok ds
         then Inr ((if neg then -1 else 1) * int (nat_of_digits (filter (\<lambda>c. c \<noteq> CHR ''_'') ds)))
         else Inl (ValueError ''invalid literal for int()''))"

lemma is_digit_not_space: "is_digit c \<Longrightarrow> \<not> is_c_space c"
  by (auto simp: is_digit_def is_c_space_def Let_def)

lemma not_digit_punctuation [simp]:
  "\<not> is_digit CHR ''_''" "\<not> is_digit CHR ''-''" "\<not> is_digit CHR ''+''" "\<not> is_digit CHR '':''"
  by (simp_all add: is_digit_def)

lemma digits_ok_all: "s \<noteq> [] \<Longrightarrow> (\<forall>c \<in> set s. is_digit c) \<Longrightarrow> digits_ok s"
  by (induction s rule: digits_ok.induct) auto

lemma strip_by_none: "(\<And>c. c \<in> set s \<Longrightarrow> \<not> p c) \<Longrightarrow> strip_by p s = s"
proof -
  assume d: "\<And>c. c \<in> set s \<Longrightarrow> \<not> p c"
  have "dropWhile p xs = xs" if "set xs \<subseteq> set s" for xs
    using that d by (cases xs) auto
  then show ?thesis by (simp add: strip_by_def)
qed

lemma strip_digits: "(\<And>c. c \<in> set s \<Longrightarrow> is_digit c) \<Longrightarrow> strip_by is_c_space s = s"
  by (rule strip_by_none) (blast dest: is_digit_not_space)

lemma py_int_str_str_nat: "py_int_str (str_nat n) = Inr (int n)"
proof -
  have d: "\<And>c. c \<in> set (str_nat n) \<Longrightarrow> is_digit c" by (rule str_nat_digits)
  have h: "is_digit (hd (str_nat n))" by (rule d) simp
  have "hd (str_nat n) \<noteq> CHR ''-''" "hd (str_nat n) \<noteq> CHR ''+''"
    using h by (metis not_digit_punctuation)+
  moreover have "filter (\<lambda>c. c \<noteq> CHR ''_'') (str_nat n) = str_nat n"
    by (rule filter_True) (metis d not_digit_punctuation(1))
  moreover have "digits_ok (str_nat n)" by (rule digits_ok_all) (auto intro: d)
  ultimately show ?thesis by (simp add: py_int_str_def strip_digits [OF d] Let_def)
qed

definition pow10 :: "int \<Rightarrow> real" where
  "pow10 e = (if e < 0 then 1 / 10 ^ nat (- e) else 10 ^ nat e)"

text \<open>
  \<open>float(s)\<close> on a string: white space around it, a sign, a mantissa with a fraction and an exponent
  are allowed. The words for infinities and non-numbers, which have no value in the model, give
  \<open>OtherException\<close>.
\<close>

definition split_sign :: "string \<Rightarrow> bool \<times> string" where
  "split_sign t =
     (t \<noteq> [] \<and> hd t = CHR ''-'',
      if t \<noteq> [] \<and> (hd t = CHR ''-'' \<or> hd t = CHR ''+'') then tl t else t)"

definition digits_of :: "string \<Rightarrow> string" where
  "digits_of s = filter (\<lambda>c. c \<noteq> CHR ''_'') s"

definition py_float_str :: "string \<Rightarrow> real res" where
  "py_float_str s =
     (let (neg, u) = split_sign (strip_by is_c_space s);
          is_e = (\<lambda>c. c = CHR ''e'' \<or> c = CHR ''E'');
          mant = takeWhile (\<lambda>c. \<not> is_e c) u;
          expo = dropWhile (\<lambda>c. \<not> is_e c) u;
          ip = takeWhile (\<lambda>c. c \<noteq> CHR ''.'') mant;
          fp = tl (dropWhile (\<lambda>c. c \<noteq> CHR ''.'') mant);
          (eneg, ed) = split_sign (tl expo)
      in if py_lower u \<in> {''inf'', ''infinity'', ''nan''} then Inl (OtherException ''not a finite number'')
         else if (ip = [] \<or> digits_ok ip) \<and> (fp = [] \<or> digits_ok fp) \<and> (ip \<noteq> [] \<or> fp \<noteq> [])
              \<and> (expo = [] \<or> digits_ok ed)
         then Inr ((if neg then -1 else 1)
                   * (of_nat (nat_of_digits (digits_of ip @ digits_of fp)) / 10 ^ length (digits_of fp))
                   * pow10 (if expo = [] then 0
                            else (if eneg then -1 else 1) * int (nat_of_digits (digits_of ed))))
         else Inl (ValueError ''could not convert string to float''))"

text \<open>\<open>int(v)\<close> on a dynamically typed value.\<close>

definition py_int_val :: "pyval \<Rightarrow> int res" where
  "py_int_val v =
     (case v of
        PInt i \<Rightarrow> Inr i
      | PBool b \<Rightarrow> Inr (if b then 1 else 0)
      | PFloat x \<Rightarrow> Inr (py_int x)
      | PStr s \<Rightarrow> py_int_str s
      | _ \<Rightarrow> Inl (TypeError ''int() argument''))"

text \<open>Truth value of a dynamically typed value.\<close>

definition py_truthy :: "pyval \<Rightarrow> bool" where
  "py_truthy v =
     (case v of
        PNone \<Rightarrow> False
      | PBool b \<Rightarrow> b
      | PInt i \<Rightarrow> i \<noteq> 0
      | PFloat x \<Rightarrow> x \<noteq> 0
      | PStr s \<Rightarrow> s \<noteq> []
      | PList xs \<Rightarrow> xs \<noteq> []
      | PDict d \<Rightarrow> d \<noteq> [])"

text \<open>\<open>float(v)\<close>\<close>

definition py_float_val :: "pyval \<Rightarrow> pyfloat res" where
  "py_float_val v =
     (case v of
        PInt i \<Rightarrow> Inr (of_int i)
      | PBool b \<Rightarrow> Inr (if b then 1 else 0)
      | PFloat x \<Rightarrow> Inr x
      | PStr s \<Rightarrow> py_float_str s
      | _ \<Rightarrow> Inl (TypeError ''float() argument''))"

text \<open>The number of a value in arithmetic and comparisons, where a string is a type error.\<close>

definition py_num :: "pyval \<Rightarrow> pyfloat res" where
  "py_num v = (case v of PInt i \<Rightarrow> Inr (of_int i) | PFloat x \<Rightarrow> Inr x | PBool b \<Rightarrow> Inr (if b then 1 else 0)
     | _ \<Rightarrow> Inl (TypeError ''not supported between instances''))"

text \<open>\<open>str(v)\<close>; the text of floats, lists and dictionaries is an argument.\<close>

definition py_str_val :: "(pyval \<Rightarrow> string) \<Rightarrow> pyval \<Rightarrow> string" where
  "py_str_val other v =
     (case v of PStr s \<Rightarrow> s | PInt i \<Rightarrow> str_int i | PBool b \<Rightarrow> (if b then ''True'' else ''False'')
      | PNone \<Rightarrow> ''None'' | _ \<Rightarrow> other v)"

text \<open>\<open>a or b\<close>\<close>

definition py_or :: "pyval \<Rightarrow> pyval \<Rightarrow> pyval" where
  "py_or a b = (if py_truthy a then a else b)"

text \<open>Dictionaries and lists cannot be put into a set.\<close>

definition hashable :: "pyval \<Rightarrow> bool" where
  "hashable v = (case v of PList _ \<Rightarrow> False | PDict _ \<Rightarrow> False | _ \<Rightarrow> True)"

section \<open>Access to values of unknown type\<close>

text \<open>\<open>k in v\<close>, \<open>v[k]\<close>, \<open>v.get(k, x)\<close>, \<open>list(v)\<close> and \<open>v.items()\<close> on a value of unknown type.\<close>

definition py_contains :: "string \<Rightarrow> pyval \<Rightarrow> bool res" where
  "py_contains k v =
     (case v of
        PDict d \<Rightarrow> Inr (dict_has d k)
      | PList xs \<Rightarrow> Inr (PStr k \<in> set xs)
      | PStr s \<Rightarrow> Inr (py_in k s)
      | _ \<Rightarrow> Inl (TypeError ''argument is not iterable''))"

definition py_item :: "pyval \<Rightarrow> string \<Rightarrow> pyval res" where
  "py_item v k =
     (case v of
        PDict d \<Rightarrow> dict_get d k
      | _ \<Rightarrow> Inl (TypeError ''value cannot be indexed by a string''))"

definition py_get :: "pyval \<Rightarrow> string \<Rightarrow> pyval \<Rightarrow> pyval res" where
  "py_get v k x =
     (case v of
        PDict d \<Rightarrow> Inr (dict_get_default d k x)
      | _ \<Rightarrow> Inl (AttributeError ''get''))"

definition py_list_val :: "pyval \<Rightarrow> pyval list res" where
  "py_list_val v =
     (case v of
        PList xs \<Rightarrow> Inr xs
      | PStr s \<Rightarrow> Inr (map (\<lambda>c. PStr [c]) s)
      | PDict d \<Rightarrow> Inr (map (\<lambda>(k, _). PStr k) d)
      | _ \<Rightarrow> Inl (TypeError ''value is not iterable''))"

text \<open>\<open>v[0]\<close>\<close>

definition py_first :: "pyval \<Rightarrow> pyval res" where
  "py_first v =
     (case v of
        PList (x # _) \<Rightarrow> Inr x
      | PList [] \<Rightarrow> Inl (IndexError ''list index out of range'')
      | PStr (c # _) \<Rightarrow> Inr (PStr [c])
      | PStr [] \<Rightarrow> Inl (IndexError ''string index out of range'')
      | PDict _ \<Rightarrow> Inl (KeyError ''0'')
      | _ \<Rightarrow> Inl (TypeError ''value is not subscriptable''))"

definition py_items :: "pyval \<Rightarrow> (string \<times> pyval) list res" where
  "py_items v = (case v of PDict d \<Rightarrow> Inr d | _ \<Rightarrow> Inl (AttributeError ''items''))"

lemma py_get_dict [simp]: "py_get (PDict d) k x = Inr (dict_get_default d k x)"
  by (simp add: py_get_def)

lemma py_item_dict [simp]: "py_item (PDict d) k = dict_get d k"
  by (simp add: py_item_def)

lemma py_contains_dict [simp]: "py_contains k (PDict d) = Inr (dict_has d k)"
  by (simp add: py_contains_def)

end
