(* ===== verification/Sim_Trace.thy ===== *)
theory Sim_Trace
  imports Prelude
begin

text \<open>
  Chrome trace events, \<open>simulator/core/trace.py\<close>. The MD5 digest is the argument \<open>md5\<close>
  (the integer read from the hexadecimal digest); the order in which Python iterates over a set is
  the argument \<open>iter\<close>, applied to the distinct elements in insertion order. Writing the JSON
  file is left out: \<open>export_chrome_trace\<close> returns the document it dumps.
\<close>

section \<open>Events\<close>

record trace_event =
  te_name :: string
  te_cat :: string
  te_ph :: string
  te_pid :: pyval
  te_tid :: pyval
  te_ts :: int
  te_args :: "pyval pydict option"
  te_dur :: "int option"
  te_cname :: "string option"

definition trace_to_dict :: "trace_event \<Rightarrow> pyval pydict" where
  "trace_to_dict e =
     [(''name'', PStr (te_name e)), (''cat'', PStr (te_cat e)), (''ph'', PStr (te_ph e)),
      (''pid'', te_pid e), (''tid'', te_tid e), (''ts'', PInt (te_ts e))] @
     (case te_args e of None \<Rightarrow> [] | Some d \<Rightarrow> [(''args'', PDict d)]) @
     (case te_dur e of None \<Rightarrow> [] | Some d \<Rightarrow> [(''dur'', PInt d)]) @
     (case te_cname e of None \<Rightarrow> [] | Some c \<Rightarrow> [(''cname'', PStr c)])"

definition trace_colors :: "string list" where
  "trace_colors = [''generic_work'', ''good'', ''rail_response'', ''rail_animation'', ''rail_load'',
     ''startup'', ''cq_build_running'', ''cq_build_passed'', ''thread_state_running'',
     ''thread_state_iowait'']"

definition get_request_color :: "(string \<Rightarrow> nat) \<Rightarrow> string \<Rightarrow> string" where
  "get_request_color md5 request_id = trace_colors ! (md5 request_id mod length trace_colors)"

lemma get_request_color_known: "get_request_color md5 rid \<in> set trace_colors"
  unfolding get_request_color_def by (rule nth_mem) (simp add: trace_colors_def)

section \<open>Export\<close>

text \<open>Name and sort index of a process. \<open>f"\{pid\}"\<close> prints a string as it is and an integer in
  decimal; other values do not occur as process ids.\<close>

definition pid_text :: "pyval \<Rightarrow> string" where
  "pid_text v = (case v of PStr s \<Rightarrow> s | PInt i \<Rightarrow> str_int i | _ \<Rightarrow> [])"

definition process_meta :: "pyval \<Rightarrow> (string \<times> int) res" where
  "process_meta pid =
     (if pid = PStr ''request_tracker'' then Inr (''Request Lifecycle Tracker'', -1)
      else if pid = PStr ''cluster'' then Inr (''Cluster Manager'', 0)
      else case pid of
          PStr s \<Rightarrow>
            if py_startswith s ''node_''
            then rbind (if py_in ''_'' s
                        then rbind (py_nth (split_on CHR ''_'' s) 1) py_int_str
                        else Inr 1) (\<lambda>i. Inr (''Engine: '' @ s, i))
            else Inr (''Process: '' @ s, 2)
        | _ \<Rightarrow> Inr (''Process: '' @ pid_text pid, 2))"

definition process_events :: "pyval \<times> string \<times> int \<Rightarrow> pyval list" where
  "process_events p = (case p of (pid, name, idx) \<Rightarrow>
     [PDict [(''name'', PStr ''process_name''), (''ph'', PStr ''M''), (''pid'', pid),
        (''args'', PDict [(''name'', PStr name)])],
      PDict [(''name'', PStr ''process_sort_index''), (''ph'', PStr ''M''), (''pid'', pid),
        (''args'', PDict [(''sort_index'', PInt idx)])]])"

definition export_chrome_trace :: "(pyval list \<Rightarrow> pyval list) \<Rightarrow> trace_event list \<Rightarrow> pyval res" where
  "export_chrome_trace iter events =
     rbind (map_res (\<lambda>pid. rbind (process_meta pid) (\<lambda>m. Inr (pid, m)))
       (iter (rev (remdups (rev (map te_pid events)))))) (\<lambda>metas.
     Inr (PDict
       [(''traceEvents'', PList (concat (map process_events metas) @ map (\<lambda>e. PDict (trace_to_dict e)) events)),
        (''displayTimeUnit'', PStr ''ms'')]))"

text \<open>\<open>results["trace_events"]\<close> or a \<open>ValueError\<close>.\<close>

definition export_chrome_trace_from_results ::
  "(pyval list \<Rightarrow> pyval list) \<Rightarrow> trace_event list option \<Rightarrow> pyval res" where
  "export_chrome_trace_from_results iter results =
     (case results of
        None \<Rightarrow> Inl (ValueError ''No trace_events found in results dictionary'')
      | Some events \<Rightarrow> export_chrome_trace iter events)"

lemma node_pid_split: "split_on CHR ''_'' (''node_'' @ s) = ''node'' # split_on CHR ''_'' s"
  by simp

lemma process_meta_node:
  assumes "CHR ''_'' \<notin> set s"
  shows "process_meta (PStr (''node_'' @ s)) = rbind (py_int_str s) (\<lambda>i. Inr (''Engine: node_'' @ s, i))"
proof -
  have "py_in ''_'' (''node_'' @ s)"
    by (metis append.assoc append_Cons append_Nil sublist_appendI)
  moreover have "py_nth (split_on CHR ''_'' (''node_'' @ s)) 1 = Inr s"
    unfolding node_pid_split using split_on_no_sep [OF assms] by (simp add: py_nth_def)
  ultimately show ?thesis by (simp add: process_meta_def)
qed

lemma distinct_singleton: "set xs = {a} \<Longrightarrow> distinct xs \<Longrightarrow> xs = [a]"
proof -
  assume a: "set xs = {a}" "distinct xs"
  then have "length xs = 1" using distinct_card by fastforce
  then obtain x where "xs = [x]" by (metis One_nat_def length_0_conv length_Suc_conv)
  with a show ?thesis by simp
qed



end
