(* ===== verification/Json.thy ===== *)
theory Json
  imports Prelude
begin

text \<open>
  The part of Python's module \<open>json\<close> that the benchmarks use: \<open>dumps\<close> with its two
  separators and \<open>loads\<close>, on dynamically typed values. Characters are the code points up to
  \<open>U+00FF\<close>; a \<open>\u\<close> escape above them has no character in the model and gives
  \<open>OtherException\<close>, as do the non-numbers \<open>NaN\<close> and \<open>Infinity\<close>. The decimal text of a
  float is an argument of the printer. The depth of recursion is bounded by twice the length of the
  input, which is enough for every text (\<open>json_loads_fuel\<close>).
\<close>

section \<open>Printing\<close>

definition hex_char :: "nat \<Rightarrow> char" where
  "hex_char d = (if d < 10 then char_of (48 + d) else char_of (87 + d))"

definition json_escape :: "char \<Rightarrow> string" where
  "json_escape c =
     (let n = (of_char c :: nat) in
      if c = CHR 0x22 \<or> c = CHR 0x5C then [CHR 0x5C, c]
      else if n = 10 then [CHR 0x5C, CHR ''n'']
      else if n = 13 then [CHR 0x5C, CHR ''r'']
      else if n = 9 then [CHR 0x5C, CHR ''t'']
      else if n = 8 then [CHR 0x5C, CHR ''b'']
      else if n = 12 then [CHR 0x5C, CHR ''f'']
      else if 32 \<le> n \<and> n \<le> 126 then [c]
      else [CHR 0x5C, CHR ''u'', CHR ''0'', CHR ''0'', hex_char (n div 16), hex_char (n mod 16)])"

definition json_string :: "string \<Rightarrow> string" where
  "json_string s = CHR 0x22 # concat (map json_escape s) @ [CHR 0x22]"

lemma size_in_list: "x \<in> set xs \<Longrightarrow> size (x :: pyval) < Suc (size_list size xs)"
  by (induction xs) auto

lemma size_in_dict:
  "kv \<in> set d \<Longrightarrow> size (snd kv :: pyval) < Suc (size_list (size_prod (\<lambda>_. 0) size) d)"
  by (induction d) (auto split: prod.splits)

function (sequential) json_dumps :: "(real \<Rightarrow> string) \<Rightarrow> string \<Rightarrow> string \<Rightarrow> pyval \<Rightarrow> string" where
  "json_dumps fl isep ksep PNone = ''null''"
| "json_dumps fl isep ksep (PBool b) = (if b then ''true'' else ''false'')"
| "json_dumps fl isep ksep (PInt i) = str_int i"
| "json_dumps fl isep ksep (PFloat x) = fl x"
| "json_dumps fl isep ksep (PStr s) = json_string s"
| "json_dumps fl isep ksep (PList xs) = ''['' @ join_with isep (map (json_dumps fl isep ksep) xs) @ '']''"
| "json_dumps fl isep ksep (PDict d) =
     ''{'' @ join_with isep (map (\<lambda>kv. json_string (fst kv) @ ksep @ json_dumps fl isep ksep (snd kv)) d) @ ''}''"
  by pat_completeness auto
termination
  by (relation "measure (\<lambda>(_, _, _, v). size v)") (auto simp: size_in_list size_in_dict)

section \<open>Parsing\<close>

definition json_error :: py_exn where
  "json_error = ValueError ''JSONDecodeError''"

definition json_space :: "char \<Rightarrow> bool" where
  "json_space c \<longleftrightarrow> c \<in> {CHR 0x20, CHR 0x09, CHR 0x0A, CHR 0x0D}"

definition skip_ws :: "string \<Rightarrow> string" where
  "skip_ws s = dropWhile json_space s"

definition hex_val :: "char \<Rightarrow> nat option" where
  "hex_val c =
     (let n = (of_char c :: nat) in
      if 48 \<le> n \<and> n \<le> 57 then Some (n - 48)
      else if 97 \<le> n \<and> n \<le> 102 then Some (n - 87)
      else if 65 \<le> n \<and> n \<le> 70 then Some (n - 55)
      else None)"

definition hex4 :: "char \<Rightarrow> char \<Rightarrow> char \<Rightarrow> char \<Rightarrow> nat res" where
  "hex4 a b c d =
     (case (hex_val a, hex_val b, hex_val c, hex_val d) of
        (Some i, Some j, Some k, Some l) \<Rightarrow> Inr (((i * 16 + j) * 16 + k) * 16 + l)
      | _ \<Rightarrow> Inl json_error)"

definition simple_escape :: "char \<Rightarrow> char res" where
  "simple_escape c =
     (if c = CHR 0x22 \<or> c = CHR 0x5C \<or> c = CHR ''/'' then Inr c
      else if c = CHR ''n'' then Inr (CHR 0x0A)
      else if c = CHR ''r'' then Inr (CHR 0x0D)
      else if c = CHR ''t'' then Inr (CHR 0x09)
      else if c = CHR ''b'' then Inr (CHR 0x08)
      else if c = CHR ''f'' then Inr (CHR 0x0C)
      else Inl json_error)"

text \<open>The rest of a string after its opening quote.\<close>

fun scan_string :: "string \<Rightarrow> (string \<times> string) res" where
  "scan_string [] = Inl json_error"
| "scan_string (c # cs) =
     (if c = CHR 0x22 then Inr ([], cs)
      else if c = CHR 0x5C then
        (case cs of
           [] \<Rightarrow> Inl json_error
         | e # es \<Rightarrow>
             if e = CHR ''u'' then
               (case es of
                  h1 # h2 # h3 # h4 # rest \<Rightarrow>
                    rbind (hex4 h1 h2 h3 h4) (\<lambda>n.
                      if n < 256
                      then rbind (scan_string rest) (\<lambda>(s, r). Inr (char_of n # s, r))
                      else Inl (OtherException ''character above U+00FF''))
                | _ \<Rightarrow> Inl json_error)
             else rbind (simple_escape e) (\<lambda>x. rbind (scan_string es) (\<lambda>(s, r). Inr (x # s, r))))
      else if (of_char c :: nat) < 32 then Inl json_error
      else rbind (scan_string cs) (\<lambda>(s, r). Inr (c # s, r)))"

text \<open>The fraction and the exponent of a number; absent parts are empty.\<close>

definition scan_frac :: "string \<Rightarrow> string \<times> string" where
  "scan_frac s =
     (case s of
        c # cs \<Rightarrow> if c = CHR ''.'' \<and> takeWhile is_digit cs \<noteq> []
                  then (takeWhile is_digit cs, dropWhile is_digit cs) else ([], s)
      | [] \<Rightarrow> ([], s))"

definition scan_exp :: "string \<Rightarrow> int option \<times> string" where
  "scan_exp s =
     (case s of
        c # cs \<Rightarrow>
          if c \<in> {CHR ''e'', CHR ''E''} then
            (let neg = (cs \<noteq> [] \<and> hd cs = CHR ''-'');
                 ds = (if cs \<noteq> [] \<and> hd cs \<in> {CHR ''-'', CHR ''+''} then tl cs else cs)
             in if takeWhile is_digit ds \<noteq> []
                then (Some ((if neg then -1 else 1) * int (nat_of_digits (takeWhile is_digit ds))), dropWhile is_digit ds)
                else (None, s))
          else (None, s)
      | [] \<Rightarrow> (None, s))"

definition scan_number :: "string \<Rightarrow> (pyval \<times> string) res" where
  "scan_number s =
     (let neg = (s \<noteq> [] \<and> hd s = CHR ''-'');
          t = (if neg then tl s else s);
          ds = (if t \<noteq> [] \<and> hd t = CHR ''0'' then ''0'' else takeWhile is_digit t)
      in if ds = [] then Inl json_error
         else
           let sg = (if neg then -1 else 1 :: int);
               r0 = drop (length ds) t;
               (frac, r1) = scan_frac r0;
               (e, r2) = scan_exp r1
           in if frac = [] \<and> e = None then Inr (PInt (sg * int (nat_of_digits ds)), r0)
              else Inr (PFloat (of_int sg * (of_nat (nat_of_digits (ds @ frac)) / 10 ^ length frac)
                        * pow10 (case e of Some i \<Rightarrow> i | None \<Rightarrow> 0)), r2))"

definition expect :: "string \<Rightarrow> pyval \<Rightarrow> string \<Rightarrow> (pyval \<times> string) res" where
  "expect w v s = (if prefix w s then Inr (v, drop (length w) s) else Inl json_error)"

abbreviation out_of_fuel :: py_exn where
  "out_of_fuel \<equiv> OtherException ''RecursionError''"

fun scan_value :: "nat \<Rightarrow> string \<Rightarrow> (pyval \<times> string) res"
  and scan_items :: "nat \<Rightarrow> string \<Rightarrow> (pyval list \<times> string) res"
  and scan_members :: "nat \<Rightarrow> string \<Rightarrow> ((string \<times> pyval) list \<times> string) res" where
  "scan_value 0 s = Inl out_of_fuel"
| "scan_value (Suc n) [] = Inl json_error"
| "scan_value (Suc n) (c # cs) =
     (if c = CHR 0x22 then rbind (scan_string cs) (\<lambda>(s, r). Inr (PStr s, r))
      else if c = CHR ''{'' then
        (case skip_ws cs of
           [] \<Rightarrow> Inl json_error
         | d # ds \<Rightarrow> if d = CHR ''}'' then Inr (PDict [], ds)
                     else rbind (scan_members n (d # ds)) (\<lambda>(kvs, r).
                       Inr (PDict (foldl (\<lambda>m (k, v). dict_set k v m) [] kvs), r)))
      else if c = CHR ''['' then
        (case skip_ws cs of
           [] \<Rightarrow> Inl json_error
         | d # ds \<Rightarrow> if d = CHR '']'' then Inr (PList [], ds)
                     else rbind (scan_items n (d # ds)) (\<lambda>(xs, r). Inr (PList xs, r)))
      else if c = CHR ''n'' then expect ''null'' PNone (c # cs)
      else if c = CHR ''t'' then expect ''true'' (PBool True) (c # cs)
      else if c = CHR ''f'' then expect ''false'' (PBool False) (c # cs)
      else if prefix ''NaN'' (c # cs) \<or> prefix ''Infinity'' (c # cs) \<or> prefix ''-Infinity'' (c # cs)
      then Inl (OtherException ''not a finite number'')
      else scan_number (c # cs))"
| "scan_items 0 s = Inl out_of_fuel"
| "scan_items (Suc n) s =
     rbind (scan_value n s) (\<lambda>(x, r).
       case skip_ws r of
         [] \<Rightarrow> Inl json_error
       | d # ds \<Rightarrow>
           if d = CHR '']'' then Inr ([x], ds)
           else if d = CHR '','' then rbind (scan_items n (skip_ws ds)) (\<lambda>(xs, r'). Inr (x # xs, r'))
           else Inl json_error)"
| "scan_members 0 s = Inl out_of_fuel"
| "scan_members (Suc n) s =
     (case s of
        [] \<Rightarrow> Inl json_error
      | q # qs \<Rightarrow>
          if q \<noteq> CHR 0x22 then Inl json_error
          else
            rbind (scan_string qs) (\<lambda>(k, r).
              case skip_ws r of
                [] \<Rightarrow> Inl json_error
              | d # ds \<Rightarrow>
                  if d \<noteq> CHR '':'' then Inl json_error
                  else
                    rbind (scan_value n (skip_ws ds)) (\<lambda>(v, r').
                      case skip_ws r' of
                        [] \<Rightarrow> Inl json_error
                      | e # es \<Rightarrow>
                          if e = CHR ''}'' then Inr ([(k, v)], es)
                          else if e = CHR '','' then rbind (scan_members n (skip_ws es)) (\<lambda>(kvs, r''). Inr ((k, v) # kvs, r''))
                          else Inl json_error)))"

definition json_loads :: "string \<Rightarrow> pyval res" where
  "json_loads s =
     rbind (scan_value (Suc (2 * length s)) (skip_ws s)) (\<lambda>(v, r).
       if skip_ws r = [] then Inr v else Inl json_error)"

section \<open>The bound on the recursion\<close>

text \<open>Every scanner consumes its input, and a bound of twice the length of the text is never reached.\<close>

definition scans :: "string \<Rightarrow> ('a \<times> string) res \<Rightarrow> bool" where
  "scans s res \<longleftrightarrow> res \<noteq> Inl out_of_fuel \<and> (\<forall>x r. res = Inr (x, r) \<longrightarrow> length r \<le> length s)"

lemma skip_ws_length: "length (skip_ws s) \<le> length s"
  by (simp add: skip_ws_def length_dropWhile_le)

lemma skip_ws_Cons: "skip_ws s = c # cs \<Longrightarrow> length cs < length s"
  using skip_ws_length [of s] by simp

lemma scans_simps [simp]:
  "scans s (Inl e) \<longleftrightarrow> e \<noteq> out_of_fuel" "scans s (Inr (x, r)) \<longleftrightarrow> length r \<le> length s"
  by (auto simp: scans_def)

lemma scans_rbind:
  "scans t m \<Longrightarrow> (\<And>x r. m = Inr (x, r) \<Longrightarrow> length r \<le> length t \<Longrightarrow> scans s (f (x, r))) \<Longrightarrow> scans s (rbind m f)"
  by (cases m) auto

lemma scans_mono: "scans t m \<Longrightarrow> length t \<le> length s \<Longrightarrow> scans s m"
  by (auto simp: scans_def)

lemma scans_error: "scans s (Inl json_error)"
  by (simp add: json_error_def)

lemma scans_prefixed:
  assumes "scans t (scan_string t)" and "length t \<le> length s"
  shows "scans s (rbind (scan_string t) (\<lambda>(x, r). Inr (a # x, r)))"
  using assms by (intro scans_rbind [of t]) simp_all

lemma scans_bind_other:
  "m \<noteq> Inl out_of_fuel \<Longrightarrow> (\<And>x. scans s (f x)) \<Longrightarrow> scans s (rbind m f)"
  by (cases m) auto

lemma hex4_error: "hex4 a b c d \<noteq> Inl out_of_fuel"
  by (simp add: hex4_def json_error_def split: option.split)

lemma simple_escape_error: "simple_escape c \<noteq> Inl out_of_fuel"
  by (simp add: simple_escape_def json_error_def)

text \<open>One rule per construct the scanners are built from.\<close>

lemma scans_if: "(b \<Longrightarrow> scans s x) \<Longrightarrow> (\<not> b \<Longrightarrow> scans s y) \<Longrightarrow> scans s (if b then x else y)"
  by simp

lemma scans_list:
  "(xs = [] \<Longrightarrow> scans s x) \<Longrightarrow> (\<And>y ys. xs = y # ys \<Longrightarrow> scans s (f y ys)) \<Longrightarrow>
   scans s (case xs of [] \<Rightarrow> x | y # ys \<Rightarrow> f y ys)"
  by (cases xs) simp_all

lemma scans_Inr: "length r \<le> length s \<Longrightarrow> scans s (Inr (x, r))"
  by simp

lemma scans_Other: "e \<noteq> ''RecursionError'' \<Longrightarrow> scans s (Inl (OtherException e))"
  by simp

lemmas scans_rules = scans_if scans_list scans_error

lemma scan_string_scans: "scans s (scan_string s)"
proof (induction "length s" arbitrary: s rule: less_induct)
  case less
  show ?case
  proof (cases s)
    case (Cons c cs)
    have rec: "scans s (rbind (scan_string t) (\<lambda>(x, r). Inr (a # x, r)))" if "length t \<le> length cs" for t a
      by (rule scans_prefixed) (use less that Cons in auto)
    show ?thesis unfolding Cons scan_string.simps unfolding Cons [symmetric]
      by (intro scans_rules scans_Inr scans_bind_other simple_escape_error hex4_error rec scans_Other) (simp_all add: Cons)
  qed (simp add: json_error_def)
qed

lemma scan_frac_length: "length (snd (scan_frac t)) \<le> length t"
proof (cases t)
  case (Cons c cs)
  then show ?thesis using length_dropWhile_le [of is_digit cs] by (simp add: scan_frac_def)
qed (simp add: scan_frac_def)

lemma scan_exp_length: "length (snd (scan_exp t)) \<le> length t"
proof (cases t)
  case (Cons c cs)
  have "length (dropWhile is_digit cs) \<le> length cs" "length (dropWhile is_digit (tl cs)) \<le> length cs"
    using length_dropWhile_le [of is_digit cs] length_dropWhile_le [of is_digit "tl cs"] by auto
  then show ?thesis using Cons by (simp add: scan_exp_def Let_def)
qed (simp add: scan_exp_def)

lemma scan_number_scans: "scans s (scan_number s)"
proof -
  define t where "t = (if s \<noteq> [] \<and> hd s = CHR ''-'' then tl s else s)"
  define ds where "ds = (if t \<noteq> [] \<and> hd t = CHR ''0'' then ''0'' else takeWhile is_digit t)"
  obtain frac r1 where f: "scan_frac (drop (length ds) t) = (frac, r1)" by (cases "scan_frac (drop (length ds) t)")
  obtain e r2 where e: "scan_exp r1 = (e, r2)" by (cases "scan_exp r1")
  have "length t \<le> length s" by (simp add: t_def)
  moreover have "length r1 \<le> length t" using scan_frac_length [of "drop (length ds) t"] by (simp add: f)
  moreover have "length r2 \<le> length r1" using scan_exp_length [of r1] by (simp add: e)
  ultimately show ?thesis
    unfolding scan_number_def Let_def t_def [symmetric] ds_def [symmetric] f prod.case e
    by (intro scans_rules scans_Inr) simp_all
qed

lemma scan_value_scans:
  assumes items: "\<And>t. 2 * length t + 1 < n \<Longrightarrow> scans t (scan_items n t)"
    and members: "\<And>t. 2 * length t + 1 < n \<Longrightarrow> scans t (scan_members n t)"
    and n: "2 * length s < Suc n"
  shows "scans s (scan_value (Suc n) s)"
proof (cases s)
  case (Cons c cs)
  have lit: "scans s (expect w v s)" for w v by (simp add: expect_def json_error_def)
  have m: "scans (d # ds) (scan_members n (d # ds))" and i: "scans (d # ds) (scan_items n (d # ds))"
    and l: "length (d # ds) \<le> length s" if "skip_ws cs = d # ds" for d ds
    using skip_ws_length [of cs] n that by (auto intro!: members items simp: Cons)
  show ?thesis unfolding Cons scan_value.simps unfolding Cons [symmetric]
    by (intro scans_rules scans_Inr scans_Other scan_number_scans lit scans_rbind [OF scan_string_scans]
          scans_rbind [OF m] scans_rbind [OF i])
       (use l in \<open>force simp: Cons intro: scans_Inr\<close>)+
qed (simp add: json_error_def)

lemma scan_items_scans:
  assumes val: "\<And>t. 2 * length t < n \<Longrightarrow> scans t (scan_value n t)"
    and items: "\<And>t. 2 * length t + 1 < n \<Longrightarrow> scans t (scan_items n t)"
    and n: "2 * length s + 1 < Suc n"
  shows "scans s (scan_items (Suc n) s)"
proof -
  have more: "scans s (rbind (scan_items n (skip_ws ds)) (\<lambda>(xs, r'). Inr (x # xs, r')))"
    if "length ds < length s" for x ds
    using that n skip_ws_length [of ds] by (intro scans_rbind [OF items]) auto
  show ?thesis unfolding scan_items.simps
  proof (rule scans_rbind [OF val])
    fix x and r :: string assume "length r \<le> length s"
    then have l: "length ds < length s" if "skip_ws r = d # ds" for d ds using skip_ws_Cons [OF that] by simp
    show "scans s (case (x, r) of (x, r) \<Rightarrow> case skip_ws r of [] \<Rightarrow> Inl json_error
       | d # ds \<Rightarrow> if d = CHR '']'' then Inr ([x], ds)
                   else if d = CHR '','' then rbind (scan_items n (skip_ws ds)) (\<lambda>(xs, r'). Inr (x # xs, r'))
                   else Inl json_error)"
      unfolding prod.case by (intro scans_rules scans_Inr more) (auto dest!: l)
  qed (use n in simp)
qed

lemma scan_members_scans:
  assumes val: "\<And>t. 2 * length t < n \<Longrightarrow> scans t (scan_value n t)"
    and members: "\<And>t. 2 * length t + 1 < n \<Longrightarrow> scans t (scan_members n t)"
    and n: "2 * length s + 1 < Suc n"
  shows "scans s (scan_members (Suc n) s)"
proof -
  have more: "scans s (rbind (scan_members n (skip_ws es)) (\<lambda>(kvs, r''). Inr ((k, v) # kvs, r'')))"
    if "length es < length s" for k v es
    using that n skip_ws_length [of es] by (intro scans_rbind [OF members]) auto
  have tail: "scans s (rbind (scan_value n (skip_ws ds)) (\<lambda>(v, r').
      case skip_ws r' of [] \<Rightarrow> Inl json_error
      | e # es \<Rightarrow> if e = CHR ''}'' then Inr ([(k, v)], es)
                  else if e = CHR '','' then rbind (scan_members n (skip_ws es)) (\<lambda>(kvs, r''). Inr ((k, v) # kvs, r''))
                  else Inl json_error))"
    if ds: "length ds < length s" for k ds
  proof (rule scans_rbind [OF val])
    fix v and r' :: string assume "length r' \<le> length (skip_ws ds)"
    then have l: "length es < length s" if "skip_ws r' = e # es" for e es
      using skip_ws_Cons [OF that] skip_ws_length [of ds] ds by simp
    show "scans s (case (v, r') of (v, r') \<Rightarrow> case skip_ws r' of [] \<Rightarrow> Inl json_error
      | e # es \<Rightarrow> if e = CHR ''}'' then Inr ([(k, v)], es)
                  else if e = CHR '','' then rbind (scan_members n (skip_ws es)) (\<lambda>(kvs, r''). Inr ((k, v) # kvs, r''))
                  else Inl json_error)"
      unfolding prod.case by (intro scans_rules scans_Inr more) (auto dest!: l)
  qed (use n skip_ws_length [of ds] ds in simp)
  show ?thesis unfolding scan_members.simps
  proof (intro scans_rules scans_rbind [OF scan_string_scans])
    fix q qs k and r :: string assume s: "s = q # qs" and "length r \<le> length qs"
    then have l: "length ds < length s" if "skip_ws r = d # ds" for d ds using skip_ws_Cons [OF that] by simp
    show "scans s (case (k, r) of (k, r) \<Rightarrow> case skip_ws r of [] \<Rightarrow> Inl json_error
      | d # ds \<Rightarrow> if d \<noteq> CHR '':'' then Inl json_error
          else rbind (scan_value n (skip_ws ds)) (\<lambda>(v, r').
            case skip_ws r' of [] \<Rightarrow> Inl json_error
            | e # es \<Rightarrow> if e = CHR ''}'' then Inr ([(k, v)], es)
                        else if e = CHR '','' then rbind (scan_members n (skip_ws es)) (\<lambda>(kvs, r''). Inr ((k, v) # kvs, r''))
                        else Inl json_error))"
      unfolding prod.case by (intro scans_rules tail) (auto dest!: l)
  qed
qed

lemma scanners_scan:
  "(2 * length s < n \<longrightarrow> scans s (scan_value n s))
   \<and> (2 * length s + 1 < n \<longrightarrow> scans s (scan_items n s))
   \<and> (2 * length s + 1 < n \<longrightarrow> scans s (scan_members n s))"
proof (induction n arbitrary: s)
  case (Suc n)
  then show ?case by (intro conjI impI scan_value_scans scan_items_scans scan_members_scans) auto
qed simp

lemma json_loads_fuel: "json_loads s \<noteq> Inl out_of_fuel"
proof -
  have "scans (skip_ws s) (scan_value (Suc (2 * length s)) (skip_ws s))"
    using skip_ws_length [of s] scanners_scan [of "skip_ws s" "Suc (2 * length s)"] by simp
  then show ?thesis by (auto simp: json_loads_def scans_def rbind_eq_Inl json_error_def split: if_splits)
qed

section \<open>Round trip\<close>

text \<open>Values that JSON carries exactly: no floats, and mappings with distinct keys.\<close>

function (sequential) jsonable :: "pyval \<Rightarrow> bool" where
  "jsonable (PFloat x) = False"
| "jsonable (PList xs) = (\<forall>x \<in> set xs. jsonable x)"
| "jsonable (PDict d) = (distinct (map fst d) \<and> (\<forall>kv \<in> set d. jsonable (snd kv)))"
| "jsonable v = True"
  by pat_completeness auto
termination
  by (relation "measure size") (auto simp: size_in_list size_in_dict)

lemma hex_val_char: "d < 16 \<Longrightarrow> hex_val (hex_char d) = Some d"
  by (auto simp: hex_val_def hex_char_def Let_def)

lemma hex4_code:
  assumes "n < 256"
  shows "hex4 (CHR ''0'') (CHR ''0'') (hex_char (n div 16)) (hex_char (n mod 16)) = Inr n"
proof -
  have "n div 16 < 16" "n mod 16 < 16" using assms by auto
  moreover have "hex_val (CHR ''0'') = Some 0" by (simp add: hex_val_def)
  ultimately show ?thesis by (simp add: hex4_def hex_val_char)
qed

lemma control_chars:
  "char_of (8::nat) = CHR 0x08" "char_of (9::nat) = CHR 0x09" "char_of (10::nat) = CHR 0x0A"
  "char_of (12::nat) = CHR 0x0C" "char_of (13::nat) = CHR 0x0D"
  by (simp_all add: char_of_def bit_iff_odd)

lemma scan_string_escape:
  "scan_string (json_escape c @ cs) = rbind (scan_string cs) (\<lambda>(s, r). Inr (c # s, r))"
proof -
  define n where "n = (of_char c :: nat)"
  have n: "n < 256" "char_of n = c" by (simp_all add: n_def)
  consider "c = CHR 0x22 \<or> c = CHR 0x5C" | "n \<in> {8, 9, 10, 12, 13}" "c \<noteq> CHR 0x22" "c \<noteq> CHR 0x5C"
    | "32 \<le> n" "n \<le> 126" "c \<noteq> CHR 0x22" "c \<noteq> CHR 0x5C"
    | "n \<notin> {8, 9, 10, 12, 13}" "\<not> (32 \<le> n \<and> n \<le> 126)" "c \<noteq> CHR 0x22" "c \<noteq> CHR 0x5C" by blast
  then show ?thesis
  proof cases
    case 1
    then show ?thesis by (auto simp: json_escape_def simple_escape_def Let_def)
  next
    case 2
    then have "c = char_of (8::nat) \<or> c = char_of (9::nat) \<or> c = char_of (10::nat)
        \<or> c = char_of (12::nat) \<or> c = char_of (13::nat)"
      using n(2) by blast
    then show ?thesis
      unfolding control_chars by (elim disjE) (simp_all add: json_escape_def simple_escape_def)
  next
    case 3
    then show ?thesis by (simp add: json_escape_def n_def [symmetric] Let_def)
  next
    case 4
    then have "json_escape c = [CHR 0x5C, CHR ''u'', CHR ''0'', CHR ''0'', hex_char (n div 16), hex_char (n mod 16)]"
      by (simp add: json_escape_def n_def [symmetric] Let_def)
    then show ?thesis using hex4_code [OF n(1)] n by simp
  qed
qed

lemma scan_json_string: "scan_string (concat (map json_escape s) @ CHR 0x22 # r) = Inr (s, r)"
  by (induction s) (simp_all add: scan_string_escape)

text \<open>Text that may follow a value.\<close>

definition follows :: "string \<Rightarrow> bool" where
  "follows r \<longleftrightarrow> r = [] \<or> hd r \<in> {CHR '','', CHR '']'', CHR ''}''}"

lemma followsD: "follows r \<Longrightarrow> takeWhile is_digit r = [] \<and> scan_frac r = ([], r) \<and> scan_exp r = (None, r)"
  unfolding follows_def insert_iff empty_iff
  by (cases r; elim disjE) (simp_all add: is_digit_def scan_frac_def scan_exp_def)

lemma str_nat_zero [simp]: "str_nat 0 = ''0''"
  by (subst str_nat.simps) (simp add: digit_char_def char_of_def bit_iff_odd)

lemma digits_prefix:
  "(\<And>c. c \<in> set ds \<Longrightarrow> is_digit c) \<Longrightarrow> takeWhile is_digit r = [] \<Longrightarrow> takeWhile is_digit (ds @ r) = ds"
  by (induction ds) auto

lemma hd_str_nat: "n \<noteq> 0 \<Longrightarrow> hd (str_nat n) \<noteq> CHR ''0''"
proof (induction n rule: str_nat.induct)
  case (1 n)
  show ?case
  proof (cases "n < 10")
    case True
    have "digit_val (hd (str_nat n)) = n" using True by (subst str_nat.simps) simp
    moreover have "digit_val CHR ''0'' = 0" by (simp add: digit_val_def)
    ultimately show ?thesis using "1.prems" by metis
  next
    case False
    then have "hd (str_nat n) = hd (str_nat (n div 10))" by (subst str_nat.simps) (simp add: hd_append)
    then show ?thesis using "1.IH" False by simp
  qed
qed

lemma hd_str_nat_digit: "is_digit (hd (str_nat n))"
  by (rule str_nat_digits [of _ n]) simp

lemma not_minus_digit: "is_digit c \<Longrightarrow> c \<noteq> CHR ''-''"
  by auto

text \<open>The digits at the front of a printed natural number, as \<open>scan_number\<close> takes them.\<close>

lemma leading_digits:
  assumes "follows r"
  shows "(if str_nat n @ r \<noteq> [] \<and> hd (str_nat n @ r) = CHR ''0'' then ''0'' else takeWhile is_digit (str_nat n @ r)) = str_nat n"
proof (cases "n = 0")
  case False
  have "takeWhile is_digit (str_nat n @ r) = str_nat n"
    using followsD [OF assms] by (intro digits_prefix) (auto intro: str_nat_digits)
  then show ?thesis using hd_str_nat [OF False] by simp
qed simp

lemma scan_number_nat:
  assumes "follows r"
  shows "scan_number (str_nat n @ r) = Inr (PInt (int n), r)"
    and "scan_number (CHR ''-'' # str_nat n @ r) = Inr (PInt (- int n), r)"
proof -
  define s where "s = str_nat n @ r"
  have nm: "s \<noteq> [] \<and> hd s = CHR ''-'' \<longleftrightarrow> False" "s \<noteq> []"
    using not_minus_digit [OF hd_str_nat_digit [of n]] by (simp_all add: s_def)
  have ds: "(if s \<noteq> [] \<and> hd s = CHR ''0'' then ''0'' else takeWhile is_digit s) = str_nat n"
    unfolding s_def by (rule leading_digits [OF assms])
  have r: "drop (length (str_nat n)) s = r" by (simp add: s_def)
  note f = followsD [OF assms]
  have "scan_number s = Inr (PInt (int n), r)"
    unfolding scan_number_def nm(1) Let_def if_False ds r by (simp add: f)
  then show "scan_number (str_nat n @ r) = Inr (PInt (int n), r)" by (simp add: s_def)
  have m: "(CHR ''-'' # s \<noteq> [] \<and> hd (CHR ''-'' # s) = CHR ''-'') = True" by simp
  have "scan_number (CHR ''-'' # s) = Inr (PInt (- int n), r)"
    unfolding scan_number_def m Let_def if_True list.sel(3) ds r by (simp add: f)
  then show "scan_number (CHR ''-'' # str_nat n @ r) = Inr (PInt (- int n), r)" by (simp add: s_def)
qed

lemma scan_number_int: "follows r \<Longrightarrow> scan_number (str_int i @ r) = Inr (PInt i, r)"
  using scan_number_nat [of r "nat i"] scan_number_nat [of r "nat (- i)"] by (simp add: str_int_def)

text \<open>The first character of a printed value.\<close>

lemma str_int_hd: "\<exists>c cs. str_int i = c # cs \<and> (is_digit c \<or> c = CHR ''-'')"
proof -
  have "\<exists>c cs. str_nat n = c # cs \<and> is_digit c" for n
    using hd_str_nat_digit [of n] str_nat_nonempty [of n] by (cases "str_nat n") auto
  from this [of "nat i"] this [of "nat (- i)"] show ?thesis by (auto simp: str_int_def)
qed

lemma digit_not_structural:
  assumes "is_digit c"
  shows "c \<noteq> CHR '']''" "c \<noteq> CHR ''}''" "c \<noteq> CHR ''[''" "c \<noteq> CHR ''{''" "c \<noteq> CHR ''n''" "c \<noteq> CHR ''t''"
    "c \<noteq> CHR ''f''" "c \<noteq> CHR ''N''" "c \<noteq> CHR ''I''" "c \<noteq> CHR 0x22" "\<not> json_space c"
proof -
  show "\<not> json_space c" using assms unfolding json_space_def insert_iff empty_iff
    by (intro notI, elim disjE) (simp_all add: is_digit_def)
qed ((use assms in \<open>safe; simp add: is_digit_def\<close>)+)

lemma dumps_hd:
  assumes "jsonable v"
  shows "\<exists>c cs. json_dumps fl isep ksep v = c # cs \<and> \<not> json_space c \<and> c \<noteq> CHR '']'' \<and> c \<noteq> CHR ''}''"
proof (cases v)
  case (PInt i)
  obtain c cs where c: "str_int i = c # cs" "is_digit c \<or> c = CHR ''-''" using str_int_hd [of i] by blast
  from c(2) have "\<not> json_space c \<and> c \<noteq> CHR '']'' \<and> c \<noteq> CHR ''}''"
    by (elim disjE) (simp_all add: digit_not_structural, simp add: json_space_def)
  then show ?thesis using PInt c(1) by simp
qed (use assms in \<open>auto simp: json_space_def json_string_def\<close>)

lemma skip_ws_id [simp]: "\<not> json_space c \<Longrightarrow> skip_ws (c # cs) = c # cs"
  by (simp add: skip_ws_def)

lemma skip_ws_append: "list_all json_space ws \<Longrightarrow> skip_ws (ws @ s) = skip_ws s"
  by (induction ws) (auto simp: skip_ws_def)

lemma scan_value_int:
  assumes "follows r"
  shows "scan_value (Suc n) (str_int i @ r) = Inr (PInt i, r)"
proof -
  obtain c cs where c: "str_int i = c # cs" "is_digit c \<or> c = CHR ''-''" using str_int_hd [of i] by blast
  from c(2) have k: "c \<noteq> CHR 0x22 \<and> c \<noteq> CHR ''{'' \<and> c \<noteq> CHR ''['' \<and> c \<noteq> CHR ''n'' \<and> c \<noteq> CHR ''t''
      \<and> c \<noteq> CHR ''f'' \<and> c \<noteq> CHR ''N'' \<and> c \<noteq> CHR ''I''"
    by (elim disjE) (simp_all add: digit_not_structural)
  then have s: "\<not> prefix ''NaN'' (c # cs @ r)" "\<not> prefix ''Infinity'' (c # cs @ r)"
    unfolding prefix_code by blast+
  have m: "\<not> prefix ''-Infinity'' (c # cs @ r)"
  proof (cases "is_digit c")
    case True
    then show ?thesis using not_minus_digit by auto
  next
    case False
    then have "i < 0" using c(1) hd_str_nat_digit [of "nat i"] by (auto simp: str_int_def split: if_splits)
    then have "cs = str_nat (nat (- i))" using c(1) by (simp add: str_int_def)
    then have "cs \<noteq> []" "hd cs \<noteq> CHR ''I''"
      using hd_str_nat_digit [of "nat (- i)"] digit_not_structural(9) by auto
    then show ?thesis by (cases cs) simp_all
  qed
  have "scan_value (Suc n) (c # cs @ r) = scan_number (c # cs @ r)"
    using k s m by (simp del: prefix_code)
  then show ?thesis using scan_number_int [OF assms, of i] c(1) by simp
qed

lemma foldl_dict_set:
  "distinct (map fst (acc @ kvs)) \<Longrightarrow> foldl (\<lambda>m (k, v). dict_set k v m) acc kvs = acc @ kvs"
proof (induction kvs arbitrary: acc)
  case (Cons kv kvs)
  then have "dict_set (fst kv) (snd kv) acc = acc @ [kv]" by (simp add: dict_set_fresh)
  then show ?case using Cons.IH [of "acc @ [kv]"] Cons.prems by (simp add: case_prod_unfold)
qed simp

lemma follows_simps [simp]:
  "follows (CHR '','' # r)" "follows (CHR '']'' # r)" "follows (CHR ''}'' # r)" "follows []"
  by (simp_all add: follows_def)

lemma not_json_space [simp]:
  "\<not> json_space CHR '',''" "\<not> json_space CHR '']''" "\<not> json_space CHR ''}''" "\<not> json_space CHR '':''"
  "\<not> json_space CHR 0x22"
  by (simp_all add: json_space_def)

text \<open>A value, once printed, is read back from any text that starts with it.\<close>

definition reads_back :: "(pyval \<Rightarrow> string) \<Rightarrow> pyval \<Rightarrow> bool" where
  "reads_back dumps v \<longleftrightarrow>
     (\<forall>n r. length (dumps v) \<le> n \<longrightarrow> follows r \<longrightarrow> scan_value n (dumps v @ r) = Inr (v, r))"

lemma reads_backD:
  "reads_back dumps v \<Longrightarrow> length (dumps v) \<le> n \<Longrightarrow> follows r \<Longrightarrow> scan_value n (dumps v @ r) = Inr (v, r)"
  by (simp add: reads_back_def)

lemma scan_items_dumps:
  fixes dumps :: "pyval \<Rightarrow> string"
  assumes "xs \<noteq> []" and "\<And>x. x \<in> set xs \<Longrightarrow> reads_back dumps x"
    and "\<And>x. x \<in> set xs \<Longrightarrow> \<exists>c cs. dumps x = c # cs \<and> \<not> json_space c"
    and "list_all json_space w" and "length (join_with (CHR '','' # w) (map dumps xs)) < n"
  shows "scan_items n (join_with (CHR '','' # w) (map dumps xs) @ CHR '']'' # r) = Inr (xs, r)"
  using assms
proof (induction xs arbitrary: n)
  case (Cons x xs)
  obtain m where n: "n = Suc m" using Cons.prems(5) by (cases n) auto
  have x: "reads_back dumps x" using Cons.prems(2) by simp
  show ?case
  proof (cases xs)
    case Nil
    have "scan_value m (dumps x @ CHR '']'' # r) = Inr (x, CHR '']'' # r)"
      using Cons.prems(5) Nil n by (intro reads_backD [OF x]) simp_all
    then show ?thesis using Nil n by simp
  next
    case (Cons y ys)
    let ?rest = "join_with (CHR '','' # w) (map dumps xs)"
    have j: "join_with (CHR '','' # w) (map dumps (x # xs)) = dumps x @ CHR '','' # w @ ?rest"
      using Cons by simp
    obtain c cs where c: "dumps y = c # cs" "\<not> json_space c" using Cons.prems(3) Cons by fastforce
    then have "\<exists>cs'. ?rest = c # cs'" using Cons by (cases ys) simp_all
    then have ws: "skip_ws (w @ ?rest @ CHR '']'' # r) = ?rest @ CHR '']'' # r"
      using c(2) skip_ws_append [OF Cons.prems(4)] by auto
    have v: "scan_value m (dumps x @ CHR '','' # w @ ?rest @ CHR '']'' # r) = Inr (x, CHR '','' # w @ ?rest @ CHR '']'' # r)"
      using Cons.prems(5) n unfolding j by (intro reads_backD [OF x]) simp_all
    have "scan_items m (?rest @ CHR '']'' # r) = Inr (xs, r)"
      using Cons.prems n Cons unfolding j by (intro Cons.IH) simp_all
    then show ?thesis unfolding j n by (simp add: v ws)
  qed
qed simp

lemma scan_members_dumps:
  fixes dumps :: "pyval \<Rightarrow> string" and w' :: string
  defines "member \<equiv> \<lambda>kv :: string \<times> pyval. json_string (fst kv) @ CHR '':'' # w' @ dumps (snd kv)"
  assumes "d \<noteq> []" and "\<And>kv. kv \<in> set d \<Longrightarrow> reads_back dumps (snd kv)"
    and "\<And>kv. kv \<in> set d \<Longrightarrow> \<exists>c cs. dumps (snd kv) = c # cs \<and> \<not> json_space c"
    and "list_all json_space w" and "list_all json_space w'"
    and "length (join_with (CHR '','' # w) (map member d)) < n"
  shows "scan_members n (join_with (CHR '','' # w) (map member d) @ CHR ''}'' # r) = Inr (d, r)"
  using assms(2-)
proof (induction d arbitrary: n)
  case (Cons kv d)
  obtain m where n: "n = Suc m" using Cons.prems(6) by (cases n) auto
  obtain k v where kv: "kv = (k, v)" by (cases kv)
  have v: "reads_back dumps v" using Cons.prems(2) [of kv] kv by simp
  obtain c cs where c: "dumps v = c # cs" "\<not> json_space c" using Cons.prems(3) [of kv] kv by auto
  have ws: "skip_ws (w' @ dumps v @ t) = dumps v @ t" for t
    using c skip_ws_append [OF Cons.prems(5)] by simp
  have key: "member kv @ t = CHR 0x22 # concat (map json_escape k) @ CHR 0x22 # CHR '':'' # w' @ dumps v @ t" for t
    by (simp add: member_def kv json_string_def)
  show ?case
  proof (cases d)
    case Nil
    have "scan_value m (dumps v @ CHR ''}'' # r) = Inr (v, CHR ''}'' # r)"
      using Cons.prems(6) Nil n by (intro reads_backD [OF v]) (simp_all add: member_def kv)
    then show ?thesis using Nil n key [of "CHR ''}'' # r"] by (simp add: scan_json_string ws kv)
  next
    case (Cons y ys)
    let ?rest = "join_with (CHR '','' # w) (map member d)"
    have j: "join_with (CHR '','' # w) (map member (kv # d)) = member kv @ CHR '','' # w @ ?rest"
      using Cons by simp
    have "\<exists>cs'. ?rest = CHR 0x22 # cs'" using Cons by (cases ys) (simp_all add: member_def json_string_def)
    then have ws': "skip_ws (w @ ?rest @ CHR ''}'' # r) = ?rest @ CHR ''}'' # r"
      using skip_ws_append [OF Cons.prems(4)] by auto
    have "scan_value m (dumps v @ CHR '','' # w @ ?rest @ CHR ''}'' # r) = Inr (v, CHR '','' # w @ ?rest @ CHR ''}'' # r)"
      using Cons.prems(6) n unfolding j by (intro reads_backD [OF v]) (simp_all add: member_def kv)
    moreover have "scan_members m (?rest @ CHR ''}'' # r) = Inr (d, r)"
      using Cons.prems n Cons unfolding j by (intro Cons.IH) simp_all
    ultimately show ?thesis unfolding j n append.assoc key by (simp add: scan_json_string ws ws' kv)
  qed
qed simp

lemma scan_value_dumps:
  assumes "jsonable v" and "list_all json_space w" and "list_all json_space w'"
  shows "reads_back (json_dumps fl (CHR '','' # w) (CHR '':'' # w')) v"
    (is "reads_back ?dumps v")
  using assms(1)
proof (induction v rule: jsonable.induct [case_names Float List Dict None_ Bool_ Int_ Str_])
  case (List xs)
  have hd: "\<exists>c cs. ?dumps x = c # cs \<and> \<not> json_space c \<and> c \<noteq> CHR '']''" if "x \<in> set xs" for x
    using dumps_hd [of x] List.prems that by fastforce
  show ?case unfolding reads_back_def
  proof (intro allI impI)
    fix n r assume n: "length (?dumps (PList xs)) \<le> n" "follows r"
    then obtain m where m: "n = Suc m" by (cases n) auto
    show "scan_value n (?dumps (PList xs) @ r) = Inr (PList xs, r)"
    proof (cases "xs = []")
      case False
      let ?t = "join_with (CHR '','' # w) (map ?dumps xs)"
      have i: "scan_items m (?t @ CHR '']'' # r) = Inr (xs, r)"
        using n(1) m False assms(2) List.IH List.prems hd by (intro scan_items_dumps) (auto; blast)+
      obtain c cs where "?t = c # cs" "\<not> json_space c" "c \<noteq> CHR '']''"
        using hd False by (cases xs; cases "tl xs") fastforce+
      then show ?thesis using i m by simp
    qed (simp add: m)
  qed
next
  case (Dict d)
  let ?member = "\<lambda>kv. json_string (fst kv) @ CHR '':'' # w' @ ?dumps (snd kv)"
  have hd: "\<exists>c cs. ?dumps (snd kv) = c # cs \<and> \<not> json_space c" if "kv \<in> set d" for kv
    using dumps_hd [of "snd kv"] Dict.prems that by fastforce
  show ?case unfolding reads_back_def
  proof (intro allI impI)
    fix n r assume n: "length (?dumps (PDict d)) \<le> n" "follows r"
    then obtain m where m: "n = Suc m" by (cases n) auto
    show "scan_value n (?dumps (PDict d) @ r) = Inr (PDict d, r)"
    proof (cases "d = []")
      case False
      let ?t = "join_with (CHR '','' # w) (map ?member d)"
      have i: "scan_members m (?t @ CHR ''}'' # r) = Inr (d, r)"
        using n(1) m False assms(2,3) Dict.IH Dict.prems hd by (intro scan_members_dumps) (auto; blast)+
      obtain cs where "?t = CHR 0x22 # cs"
        using False by (cases d; cases "tl d") (auto simp: json_string_def)
      then show ?thesis using i m Dict.prems foldl_dict_set [of "[]" d] by simp
    qed (simp add: m)
  qed
next
  case (Int_ i)
  then show ?case unfolding reads_back_def
  proof (intro allI impI)
    fix n r assume n: "length (?dumps (PInt i)) \<le> n" "follows r"
    then obtain m where "n = Suc m" using str_int_hd [of i] by (cases n) auto
    then show "scan_value n (?dumps (PInt i) @ r) = Inr (PInt i, r)"
      using scan_value_int [OF n(2)] by simp
  qed
qed (auto simp: reads_back_def json_string_def expect_def scan_json_string Suc_le_eq dest!: less_imp_Suc_add)

theorem json_roundtrip:
  assumes "jsonable v" and "list_all json_space w" and "list_all json_space w'"
  shows "json_loads (json_dumps fl (CHR '','' # w) (CHR '':'' # w') v) = Inr v"
proof -
  let ?s = "json_dumps fl (CHR '','' # w) (CHR '':'' # w') v"
  have "scan_value (Suc (2 * length ?s)) (?s @ []) = Inr (v, [])"
    by (rule reads_backD [OF scan_value_dumps [OF assms]]) simp_all
  moreover obtain c cs where "?s = c # cs" "\<not> json_space c" using dumps_hd [OF assms(1)] by metis
  then have "skip_ws ?s = ?s" by (simp add: skip_ws_def)
  ultimately show ?thesis unfolding json_loads_def by (simp add: skip_ws_def)
qed

end
