(* ===== verification/Trace_Reduce.thy ===== *)
theory Trace_Reduce
  imports Sim_Trace Json "HOL-Library.Product_Lexorder" "HOL-Library.List_Lexorder" "HOL-Library.Char_ord"
begin

text \<open>
  Reduction of an exported trace, \<open>tools/reduce_trace.py\<close>: consecutive decode events of a request on
  an engine become one event, and repeated readings of the cache usage are dropped. Events are the
  dictionaries of the JSON document. Reading and writing the files and the messages on the terminal
  are left out; \<open>sys.exit(1)\<close> is an exception.

  A time stamp must be a number and a process id and a name of a decode event strings, as the exporter
  writes them: on other values the model raises \<open>TypeError\<close> when it sorts.
\<close>

section \<open>Numbers and equality of values of unknown type\<close>

definition py_text :: "pyval \<Rightarrow> string res" where
  "py_text v = (case v of PStr s \<Rightarrow> Inr s | _ \<Rightarrow> Inl (TypeError ''string''))"

definition py_dict_val :: "pyval \<Rightarrow> pyval pydict res" where
  "py_dict_val v = (case v of PDict d \<Rightarrow> Inr d | _ \<Rightarrow> Inl (AttributeError ''get''))"

text \<open>\<open>a + b\<close> and \<open>a - b\<close>: integers stay integers.\<close>

definition py_arith :: "(int \<Rightarrow> int \<Rightarrow> int) \<Rightarrow> (real \<Rightarrow> real \<Rightarrow> real) \<Rightarrow> pyval \<Rightarrow> pyval \<Rightarrow> pyval res" where
  "py_arith fi fr a b =
     (case (a, b) of
        (PInt i, PInt j) \<Rightarrow> Inr (PInt (fi i j))
      | _ \<Rightarrow> rbind (py_num a) (\<lambda>x. rbind (py_num b) (\<lambda>y. Inr (PFloat (fr x y)))))"

definition py_plus :: "pyval \<Rightarrow> pyval \<Rightarrow> pyval res" where
  "py_plus = py_arith (+) (+)"

definition py_minus :: "pyval \<Rightarrow> pyval \<Rightarrow> pyval res" where
  "py_minus = py_arith (-) (-)"

text \<open>\<open>a == b\<close>: numbers by value, dictionaries regardless of the order of their keys.\<close>

function (sequential) py_eq :: "pyval \<Rightarrow> pyval \<Rightarrow> bool" where
  "py_eq (PStr a) (PStr b) = (a = b)"
| "py_eq PNone PNone = True"
| "py_eq (PList xs) (PList ys) = (length xs = length ys \<and> (\<forall>(x, y) \<in> set (zip xs ys). py_eq x y))"
| "py_eq (PDict d) (PDict e) =
     (length d = length e \<and> (\<forall>kv \<in> set d. \<exists>kw \<in> set e. fst kw = fst kv \<and> py_eq (snd kv) (snd kw)))"
| "py_eq a b = (case (py_num a, py_num b) of (Inr x, Inr y) \<Rightarrow> x = y | _ \<Rightarrow> False)"
  by pat_completeness auto
termination
  by (relation "measure (\<lambda>(a, b). size a)") (auto dest!: set_zip_leftD simp: size_in_list size_in_dict)

text \<open>\<open>xs.sort(key=f)\<close>, stable.\<close>

definition py_sort :: "('a \<Rightarrow> 'k::linorder res) \<Rightarrow> 'a list \<Rightarrow> 'a list res" where
  "py_sort f xs = rbind (map_res (\<lambda>x. rbind (f x) (\<lambda>k. Inr (k, x))) xs) (\<lambda>kxs. Inr (map snd (sort_key fst kxs)))"

section \<open>Classes of events\<close>

type_synonym event_dict = "pyval pydict"

abbreviation ev_get :: "event_dict \<Rightarrow> string \<Rightarrow> pyval" where
  "ev_get e k \<equiv> dict_get_default e k PNone"

definition decode_event :: "event_dict \<Rightarrow> bool" where
  "decode_event e \<longleftrightarrow> py_eq (ev_get e ''cat'') (PStr ''request.decode'') \<and> py_eq (ev_get e ''ph'') (PStr ''X'')"

definition usage_event :: "event_dict \<Rightarrow> bool" where
  "usage_event e \<longleftrightarrow> \<not> decode_event e \<and> py_eq (ev_get e ''name'') (PStr ''BlockUsage'')
     \<and> py_eq (ev_get e ''cat'') (PStr ''memory'') \<and> py_eq (ev_get e ''ph'') (PStr ''C'')"

definition ts_key :: "event_dict \<Rightarrow> real res" where
  "ts_key e = py_num (dict_get_default e ''ts'' (PInt 0))"

definition context_key :: "event_dict \<Rightarrow> (string \<times> string \<times> real) res" where
  "context_key e =
     rbind (py_text (dict_get_default e ''pid'' (PStr []))) (\<lambda>pid.
     rbind (py_text (dict_get_default e ''name'' (PStr []))) (\<lambda>name.
     rbind (ts_key e) (\<lambda>ts. Inr (pid, name, ts))))"

section \<open>Cache usage\<close>

fun drop_repeated :: "event_dict \<Rightarrow> event_dict list \<Rightarrow> event_dict list" where
  "drop_repeated prev [] = []"
| "drop_repeated prev (e # es) =
     (if py_eq (ev_get e ''args'') (ev_get prev ''args'') then drop_repeated prev es else e # drop_repeated e es)"

definition reduce_usage :: "event_dict list \<Rightarrow> event_dict list" where
  "reduce_usage es = (case es of [] \<Rightarrow> [] | e # es' \<Rightarrow> e # drop_repeated e es')"

section \<open>Decode events\<close>

definition start_merge :: "event_dict \<Rightarrow> event_dict res" where
  "start_merge e =
     rbind (py_dict_val (dict_get_default e ''args'' (PDict []))) (\<lambda>args.
       Inr (dict_set ''args'' (PDict (dict_set ''merged_steps'' (PInt 1) args)) e))"

definition event_end :: "event_dict \<Rightarrow> pyval res" where
  "event_end e = rbind (dict_get e ''ts'') (\<lambda>ts. rbind (dict_get e ''dur'') (\<lambda>dur. py_plus ts dur))"

definition joins :: "event_dict \<Rightarrow> event_dict \<Rightarrow> bool res" where
  "joins cur e =
     rbind (event_end cur) (\<lambda>prev_end.
     rbind (dict_get e ''ts'') (\<lambda>curr_start.
     rbind (rbind (py_minus curr_start prev_end) py_num) (\<lambda>gap.
       Inr (py_eq (ev_get e ''pid'') (ev_get cur ''pid'') \<and> py_eq (ev_get e ''name'') (ev_get cur ''name'')
            \<and> gap \<le> 5000))))"

definition copy_key :: "string \<Rightarrow> pyval pydict \<Rightarrow> pyval pydict \<Rightarrow> pyval pydict" where
  "copy_key k source d = (case map_of source k of None \<Rightarrow> d | Some v \<Rightarrow> dict_set k v d)"

definition merge_args :: "pyval pydict \<Rightarrow> pyval pydict \<Rightarrow> pyval pydict res" where
  "merge_args merged step_args =
     rbind (rbind (dict_get merged ''merged_steps'') (\<lambda>n. py_plus n (PInt 1))) (\<lambda>steps.
     rbind (py_plus (dict_get_default merged ''tokens_emitted_this_step'' (PInt 0))
                    (dict_get_default step_args ''tokens_emitted_this_step'' (PInt 0))) (\<lambda>tokens.
       Inr (copy_key ''end_time_s'' step_args (copy_key ''generated_tokens_total'' step_args
              (dict_set ''tokens_emitted_this_step'' tokens (dict_set ''merged_steps'' steps merged))))))"

definition merge_event :: "event_dict \<Rightarrow> event_dict \<Rightarrow> event_dict res" where
  "merge_event cur e =
     rbind (event_end e) (\<lambda>new_end.
     rbind (rbind (dict_get cur ''ts'') (py_minus new_end)) (\<lambda>dur.
     rbind (py_dict_val (dict_get_default e ''args'' (PDict []))) (\<lambda>curr_args.
     rbind (py_dict_val (dict_get_default cur ''args'' (PDict []))) (\<lambda>merged_args.
     rbind (merge_args merged_args curr_args) (\<lambda>args.
       Inr (dict_set ''args'' (PDict args) (dict_set ''dur'' dur cur)))))))"

fun merge_loop :: "event_dict \<Rightarrow> event_dict list \<Rightarrow> event_dict list res" where
  "merge_loop cur [] = Inr [cur]"
| "merge_loop cur (e # es) =
     rbind (joins cur e) (\<lambda>j.
       if j then rbind (merge_event cur e) (\<lambda>cur'. merge_loop cur' es)
       else rbind (start_merge e) (\<lambda>cur'. rbind (merge_loop cur' es) (\<lambda>out. Inr (cur # out))))"

definition merge_decode :: "event_dict list \<Rightarrow> event_dict list res" where
  "merge_decode es = (case es of [] \<Rightarrow> Inr [] | e # es' \<Rightarrow> rbind (start_merge e) (\<lambda>cur. merge_loop cur es'))"

section \<open>The tool\<close>

definition reduce_events :: "event_dict list \<Rightarrow> event_dict list res" where
  "reduce_events events =
     rbind (py_sort ts_key (filter usage_event events)) (\<lambda>usage.
     rbind (rbind (py_sort context_key (filter decode_event events)) merge_decode) (\<lambda>merged.
       py_sort ts_key (filter (\<lambda>e. \<not> decode_event e \<and> \<not> usage_event e) events @ merged @ reduce_usage usage)))"

definition reduce_trace :: "pyval \<Rightarrow> pyval res" where
  "reduce_trace doc =
     rbind (py_contains ''traceEvents'' doc) (\<lambda>has.
       if \<not> has then Inl (OtherException ''SystemExit 1'')
       else
         rbind (py_dict_val doc) (\<lambda>d.
         rbind (dict_get d ''traceEvents'') (\<lambda>v.
         rbind (py_list_val v) (\<lambda>vs.
         rbind (map_res py_dict_val vs) (\<lambda>events.
         rbind (reduce_events events) (\<lambda>out.
           Inr (PDict (dict_set ''traceEvents'' (PList (map PDict out)) d))))))))"

section \<open>What the reduction keeps\<close>

definition numeric :: "pyval \<Rightarrow> bool" where
  "numeric v \<longleftrightarrow> (\<exists>x. py_num v = Inr x)"

definition num_val :: "pyval \<Rightarrow> real" where
  "num_val v = (case py_num v of Inr x \<Rightarrow> x | Inl _ \<Rightarrow> 0)"

lemma py_dict_val_PDict [simp]: "py_dict_val (PDict d) = Inr d"
  by (simp add: py_dict_val_def)

lemma numeric_PInt [simp]: "numeric (PInt i)" "num_val (PInt i) = of_int i"
  by (simp_all add: numeric_def num_val_def py_num_def)

lemma py_num_eq: "numeric v \<Longrightarrow> py_num v = Inr (num_val v)"
  by (auto simp: numeric_def num_val_def)

lemma py_arith_num:
  assumes "numeric a" "numeric b" "\<And>i j. of_int (fi i j) = fr (of_int i) (of_int j)"
  shows "\<exists>c. py_arith fi fr a b = Inr c \<and> numeric c \<and> num_val c = fr (num_val a) (num_val b)"
  using assms by (cases a; cases b) (auto simp: py_arith_def numeric_def num_val_def py_num_def)

lemma py_plus_num: "numeric a \<Longrightarrow> numeric b \<Longrightarrow> \<exists>c. py_plus a b = Inr c \<and> numeric c \<and> num_val c = num_val a + num_val b"
  unfolding py_plus_def by (rule py_arith_num) simp_all

lemma py_minus_num: "numeric a \<Longrightarrow> numeric b \<Longrightarrow> \<exists>c. py_minus a b = Inr c \<and> numeric c \<and> num_val c = num_val a - num_val b"
  unfolding py_minus_def by (rule py_arith_num) simp_all

lemma get_default_update [simp]:
  "dict_get_default (AList.update k v d) k' x = (if k' = k then v else dict_get_default d k' x)"
  by (simp add: dict_get_default_def update_conv')

lemma get_update [simp]: "dict_get (AList.update k v d) k' = (if k' = k then Inr v else dict_get d k')"
  by (simp add: dict_get_def update_conv')

definition args_of :: "event_dict \<Rightarrow> pyval pydict" where
  "args_of e = (case dict_get_default e ''args'' (PDict []) of PDict d \<Rightarrow> d | _ \<Rightarrow> [])"

definition ctx :: "event_dict \<Rightarrow> pyval \<times> pyval" where
  "ctx e = (ev_get e ''pid'', ev_get e ''name'')"

definition tokens :: "event_dict \<Rightarrow> real" where
  "tokens e = num_val (dict_get_default (args_of e) ''tokens_emitted_this_step'' (PInt 0))"

definition steps :: "event_dict \<Rightarrow> real" where
  "steps e = num_val (dict_get_default (args_of e) ''merged_steps'' (PInt 0))"

definition start_ts :: "event_dict \<Rightarrow> real" where
  "start_ts e = num_val (dict_get_default e ''ts'' (PInt 0))"

definition end_ts :: "event_dict \<Rightarrow> real" where
  "end_ts e = start_ts e + num_val (dict_get_default e ''dur'' (PInt 0))"

text \<open>Events as the exporter writes them.\<close>

definition decode_ok :: "event_dict \<Rightarrow> bool" where
  "decode_ok e \<longleftrightarrow>
     (\<exists>p n. map_of e ''pid'' = Some (PStr p) \<and> map_of e ''name'' = Some (PStr n))
     \<and> (\<exists>t d. map_of e ''ts'' = Some t \<and> numeric t \<and> map_of e ''dur'' = Some d \<and> numeric d \<and> 0 \<le> num_val d)
     \<and> (\<exists>a. dict_get_default e ''args'' (PDict []) = PDict a
            \<and> numeric (dict_get_default a ''tokens_emitted_this_step'' (PInt 0)))"

definition event_ok :: "event_dict \<Rightarrow> bool" where
  "event_ok e \<longleftrightarrow> numeric (dict_get_default e ''ts'' (PInt 0)) \<and> (decode_event e \<longrightarrow> decode_ok e)"

definition running :: "event_dict \<Rightarrow> bool" where
  "running e \<longleftrightarrow> decode_ok e \<and> (\<exists>n. map_of (args_of e) ''merged_steps'' = Some n \<and> numeric n)"

lemma decode_ts: "decode_ok e \<Longrightarrow> \<exists>t d. dict_get e ''ts'' = Inr t \<and> numeric t \<and> dict_get e ''dur'' = Inr d \<and> numeric d
    \<and> start_ts e = num_val t \<and> end_ts e = num_val t + num_val d \<and> start_ts e \<le> end_ts e"
  by (auto simp: decode_ok_def dict_get_def dict_get_default_def start_ts_def end_ts_def)

lemma decode_args: "decode_ok e \<Longrightarrow> py_dict_val (dict_get_default e ''args'' (PDict [])) = Inr (args_of e)
    \<and> dict_get_default e ''args'' (PDict []) = PDict (args_of e)
    \<and> numeric (dict_get_default (args_of e) ''tokens_emitted_this_step'' (PInt 0))"
  by (auto simp: decode_ok_def args_of_def py_dict_val_def)

lemma event_end_ok: "decode_ok e \<Longrightarrow> \<exists>v. event_end e = Inr v \<and> numeric v \<and> num_val v = end_ts e"
  using decode_ts [of e] py_plus_num by (fastforce simp: event_end_def)

text \<open>One step of the merge.\<close>

lemma py_eq_ctx: "decode_ok a \<Longrightarrow> decode_ok b \<Longrightarrow>
    (py_eq (ev_get a ''pid'') (ev_get b ''pid'') \<and> py_eq (ev_get a ''name'') (ev_get b ''name'')) \<longleftrightarrow> ctx a = ctx b"
  by (auto simp: decode_ok_def ctx_def dict_get_default_def)

lemma start_merge_ok:
  assumes "decode_ok e"
  shows "\<exists>e'. start_merge e = Inr e' \<and> running e' \<and> ctx e' = ctx e \<and> tokens e' = tokens e \<and> steps e' = 1
    \<and> start_ts e' = start_ts e \<and> end_ts e' = end_ts e \<and> decode_event e' = decode_event e"
proof -
  let ?a = "AList.update ''merged_steps'' (PInt 1) (args_of e)"
  let ?e = "AList.update ''args'' (PDict ?a) e"
  have args: "args_of ?e = ?a" by (simp add: args_of_def)
  have "decode_ok ?e" using assms decode_args [OF assms] by (auto simp: decode_ok_def update_conv')
  then have "running ?e" by (simp add: running_def args update_conv')
  moreover have "start_merge e = Inr ?e" using decode_args [OF assms] by (simp add: start_merge_def)
  ultimately show ?thesis
    by (simp add: ctx_def tokens_def steps_def start_ts_def end_ts_def decode_event_def args)
qed

lemma joins_ok:
  assumes "decode_ok cur" "decode_ok e"
  shows "joins cur e = Inr (ctx e = ctx cur \<and> start_ts e - end_ts cur \<le> 5000)"
proof -
  obtain v where v: "event_end cur = Inr v" "numeric v" "num_val v = end_ts cur" using event_end_ok [OF assms(1)] by blast
  obtain t where t: "dict_get e ''ts'' = Inr t" "numeric t" "start_ts e = num_val t" using decode_ts [OF assms(2)] by blast
  obtain g where g: "py_minus t v = Inr g" "numeric g" "num_val g = num_val t - num_val v"
    using py_minus_num [OF t(2) v(2)] by blast
  show ?thesis using v t g by (simp add: joins_def py_num_eq py_eq_ctx [OF assms(2,1)] flip: conj_assoc)
qed

lemma copy_key_get: "dict_get_default (copy_key k src d) k' x = (if k' = k then dict_get_default src k (dict_get_default d k x) else dict_get_default d k' x)"
  by (simp add: copy_key_def dict_get_default_def update_conv' split: option.split)

lemma merge_args_ok:
  assumes "map_of a ''merged_steps'' = Some n" "numeric n"
    and "numeric (dict_get_default a ''tokens_emitted_this_step'' (PInt 0))"
    and "numeric (dict_get_default b ''tokens_emitted_this_step'' (PInt 0))"
  shows "\<exists>c m. merge_args a b = Inr c \<and> map_of c ''merged_steps'' = Some m \<and> numeric m \<and> num_val m = num_val n + 1
    \<and> numeric (dict_get_default c ''tokens_emitted_this_step'' (PInt 0))
    \<and> num_val (dict_get_default c ''tokens_emitted_this_step'' (PInt 0)) =
        num_val (dict_get_default a ''tokens_emitted_this_step'' (PInt 0))
          + num_val (dict_get_default b ''tokens_emitted_this_step'' (PInt 0))"
proof -
  obtain m where m: "py_plus n (PInt 1) = Inr m" "numeric m" "num_val m = num_val n + 1"
    using py_plus_num [OF assms(2), of "PInt 1"] by auto
  obtain t where t: "py_plus (dict_get_default a ''tokens_emitted_this_step'' (PInt 0))
        (dict_get_default b ''tokens_emitted_this_step'' (PInt 0)) = Inr t" "numeric t"
      "num_val t = num_val (dict_get_default a ''tokens_emitted_this_step'' (PInt 0))
        + num_val (dict_get_default b ''tokens_emitted_this_step'' (PInt 0))"
    using py_plus_num [OF assms(3,4)] by blast
  let ?c = "copy_key ''end_time_s'' b (copy_key ''generated_tokens_total'' b
     (AList.update ''tokens_emitted_this_step'' t (AList.update ''merged_steps'' m a)))"
  have "merge_args a b = Inr ?c" by (simp add: merge_args_def dict_get_def assms(1) m(1) t(1))
  moreover have "map_of ?c ''merged_steps'' = Some m" by (simp add: copy_key_def update_conv' split: option.split)
  ultimately show ?thesis using m t by (simp add: copy_key_get)
qed

lemma merge_event_ok:
  assumes "running cur" "decode_ok e" "start_ts cur \<le> end_ts e"
  shows "\<exists>c. merge_event cur e = Inr c \<and> running c \<and> ctx c = ctx cur \<and> tokens c = tokens cur + tokens e
    \<and> steps c = steps cur + 1 \<and> start_ts c = start_ts cur \<and> end_ts c = end_ts e \<and> decode_event c = decode_event cur"
proof -
  have cur: "decode_ok cur" using assms(1) by (simp add: running_def)
  obtain n where n: "map_of (args_of cur) ''merged_steps'' = Some n" "numeric n" using assms(1) by (auto simp: running_def)
  obtain v where v: "event_end e = Inr v" "numeric v" "num_val v = end_ts e" using event_end_ok [OF assms(2)] by blast
  obtain t where t: "dict_get cur ''ts'' = Inr t" "numeric t" "start_ts cur = num_val t" using decode_ts [OF cur] by blast
  obtain d where d: "py_minus v t = Inr d" "numeric d" "num_val d = num_val v - num_val t"
    using py_minus_num [OF v(2) t(2)] by blast
  obtain a m where a: "merge_args (args_of cur) (args_of e) = Inr a" "map_of a ''merged_steps'' = Some m" "numeric m"
      "num_val m = num_val n + 1" "numeric (dict_get_default a ''tokens_emitted_this_step'' (PInt 0))"
      "num_val (dict_get_default a ''tokens_emitted_this_step'' (PInt 0)) = tokens cur + tokens e"
    using merge_args_ok [OF n] decode_args [OF cur] decode_args [OF assms(2)] unfolding tokens_def by blast
  let ?c = "AList.update ''args'' (PDict a) (AList.update ''dur'' d cur)"
  have args: "args_of ?c = a" by (simp add: args_of_def)
  have "merge_event cur e = Inr ?c"
    using v t d a(1) decode_args [OF cur] decode_args [OF assms(2)] by (simp add: merge_event_def)
  moreover have "decode_ok ?c"
    using cur d v t a(5) assms(3) by (auto simp: decode_ok_def update_conv')
  then have "running ?c" using a by (simp add: running_def args)
  moreover have "steps ?c = steps cur + 1" using a n by (simp add: steps_def args dict_get_default_def)
  moreover have "start_ts ?c = start_ts cur" by (simp add: start_ts_def)
  then have "end_ts ?c = end_ts e" using d v t by (simp add: end_ts_def)
  ultimately show ?thesis using a(6)
    by (simp add: ctx_def tokens_def start_ts_def decode_event_def args)
qed

text \<open>The whole merge, of events sorted by process, name and time.\<close>

definition text_of :: "pyval \<Rightarrow> string" where
  "text_of v = (case v of PStr s \<Rightarrow> s | _ \<Rightarrow> [])"

definition ckey :: "event_dict \<Rightarrow> string \<times> string \<times> real" where
  "ckey e = (text_of (ev_get e ''pid''), text_of (ev_get e ''name''), start_ts e)"

definition sum_of :: "pyval \<times> pyval \<Rightarrow> (event_dict \<Rightarrow> real) \<Rightarrow> event_dict list \<Rightarrow> real" where
  "sum_of c f es = sum_list (map f (filter (\<lambda>e. ctx e = c) es))"

definition separated :: "event_dict \<Rightarrow> event_dict \<Rightarrow> bool" where
  "separated a b \<longleftrightarrow> (ctx a = ctx b \<longrightarrow> end_ts a + 5000 < start_ts b)"

definition merged_from :: "event_dict \<Rightarrow> event_dict list \<Rightarrow> event_dict list \<Rightarrow> bool" where
  "merged_from cur es out \<longleftrightarrow>
     (\<forall>x \<in> set out. running x \<and> decode_event x \<and> ckey cur \<le> ckey x) \<and> sorted_wrt separated out
     \<and> (\<forall>c. sum_of c tokens out = sum_of c tokens (cur # es)
          \<and> sum_of c steps out = sum_of c steps [cur] + of_nat (length (filter (\<lambda>e. ctx e = c) es)))"

lemma sum_of_simps [simp]: "sum_of c f [] = 0" "sum_of c f (e # es) = (if ctx e = c then f e else 0) + sum_of c f es"
  by (simp_all add: sum_of_def)

lemma sum_of_append: "sum_of c f (xs @ ys) = sum_of c f xs + sum_of c f ys"
  by (simp add: sum_of_def)

lemma ckey_decode:
  assumes "decode_ok e"
  obtains p n where "ctx e = (PStr p, PStr n)" "ckey e = (p, n, start_ts e)"
  using assms by (auto simp: decode_ok_def ctx_def ckey_def text_of_def dict_get_default_def)

lemma ckey_cong: "ctx a = ctx b \<Longrightarrow> start_ts a = start_ts b \<Longrightarrow> ckey a = ckey b"
  by (simp add: ckey_def ctx_def)

lemma context_key_ok: "decode_ok e \<Longrightarrow> context_key e = Inr (ckey e)"
  by (auto simp: decode_ok_def ctx_def ckey_def text_of_def dict_get_default_def context_key_def py_text_def ts_key_def start_ts_def
      py_num_eq)

text \<open>Between two events of one context, all events have that context and start in between.\<close>

lemma ckey_between:
  assumes "decode_ok a" "decode_ok b" "decode_ok c" "ckey a \<le> ckey b" "ckey b \<le> ckey c" "ctx a = ctx c"
  shows "ctx b = ctx a \<and> start_ts b \<le> start_ts c"
proof -
  obtain p n where a: "ctx a = (PStr p, PStr n)" "ckey a = (p, n, start_ts a)" using ckey_decode [OF assms(1)] .
  obtain p' n' where b: "ctx b = (PStr p', PStr n')" "ckey b = (p', n', start_ts b)" using ckey_decode [OF assms(2)] .
  have c: "ckey c = (p, n, start_ts c)" using ckey_decode [OF assms(3)] a(1) assms(6) by (metis pyval.inject(4) prod.inject)
  have "p' = p" using assms(4,5) by (auto simp: a(2) b(2) c less_eq_prod_def)
  moreover have "n' = n" using assms(4,5) calculation by (auto simp: a(2) b(2) c less_eq_prod_def)
  ultimately show ?thesis using assms(5) by (simp add: a(1) b c less_eq_prod_def)
qed

lemma ckey_start: "decode_ok a \<Longrightarrow> decode_ok b \<Longrightarrow> ckey a \<le> ckey b \<Longrightarrow> ctx a = ctx b \<Longrightarrow> start_ts a \<le> start_ts b"
  using ckey_between [of a a b] by simp

lemma merge_loop_ok:
  assumes "running cur" "decode_event cur" "\<forall>e \<in> set es. decode_ok e \<and> decode_event e" "sorted (map ckey (cur # es))"
  shows "\<exists>out. merge_loop cur es = Inr out \<and> merged_from cur es out"
  using assms
proof (induction es arbitrary: cur)
  case Nil
  then show ?case by (simp add: merged_from_def)
next
  case (Cons e es)
  have cur: "decode_ok cur" using Cons.prems(1) by (simp add: running_def)
  have e: "decode_ok e" "decode_event e" and ce: "ckey cur \<le> ckey e" using Cons.prems(3,4) by simp_all
  have j: "joins cur e = Inr (ctx e = ctx cur \<and> start_ts e - end_ts cur \<le> 5000)" using joins_ok [OF cur e(1)] .
  show ?case
  proof (cases "ctx e = ctx cur \<and> start_ts e - end_ts cur \<le> 5000")
    case True
    have "start_ts cur \<le> end_ts e" using ckey_start [OF cur e(1) ce] True decode_ts [OF e(1)] by fastforce
    then obtain c where c: "merge_event cur e = Inr c" "running c" "ctx c = ctx cur" "tokens c = tokens cur + tokens e"
        "steps c = steps cur + 1" "start_ts c = start_ts cur" "decode_event c = decode_event cur"
      using merge_event_ok [OF Cons.prems(1) e(1)] by blast
    have k: "ckey c = ckey cur" by (rule ckey_cong [OF c(3,6)])
    have "sorted (map ckey (c # es))" using Cons.prems(4) k by simp
    then obtain out where out: "merge_loop c es = Inr out" "merged_from c es out"
      using Cons.IH [of c] Cons.prems(2,3) c(2,7) by auto
    have eq: "ctx e = ctx cur" using True by simp
    have "merged_from cur (e # es) out"
      using out(2) unfolding merged_from_def by (simp add: c(3-5) k eq)
    then show ?thesis using j True c(1) out(1) by simp
  next
    case False
    obtain c where c: "start_merge e = Inr c" "running c" "ctx c = ctx e" "tokens c = tokens e" "steps c = 1"
        "start_ts c = start_ts e" "decode_event c = decode_event e"
      using start_merge_ok [OF e(1)] by blast
    have k: "ckey c = ckey e" by (rule ckey_cong [OF c(3,6)])
    have "sorted (map ckey (c # es))" using Cons.prems(4) k by simp
    then obtain out where out: "merge_loop c es = Inr out" "merged_from c es out"
      using Cons.IH [of c] Cons.prems(3) c(2,7) e(2) by auto
    have "separated cur x" if "x \<in> set out" for x
      unfolding separated_def
    proof
      assume eq: "ctx cur = ctx x"
      have o: "decode_ok x" "ckey e \<le> ckey x" using out(2) that k by (auto simp: merged_from_def running_def)
      show "end_ts cur + 5000 < start_ts x" using ckey_between [OF cur e(1) o(1) ce o(2) eq] False by force
    qed
    moreover have "ckey cur \<le> ckey x" if "x \<in> set out" for x
      using that out(2) k ce by (fastforce simp: merged_from_def)
    ultimately have "merged_from cur (e # es) (cur # out)"
      using out(2) Cons.prems(1,2) unfolding merged_from_def by (simp add: c(3-5))
    then show ?thesis using j False c(1) out(1) by simp
  qed
qed

text \<open>Sorting with a key that is always defined.\<close>

lemma sort_key_pairs: "sort_key fst (map (\<lambda>x. (g x, x)) xs) = map (\<lambda>x. (g x, x)) (sort_key g xs)"
proof -
  have ins: "insort_key fst (g y, y) (map (\<lambda>x. (g x, x)) zs) = map (\<lambda>x. (g x, x)) (insort_key g y zs)" for y zs
    by (induction zs) simp_all
  show ?thesis by (induction xs) (simp_all add: ins)
qed

lemma py_sort_eq: "(\<And>x. x \<in> set xs \<Longrightarrow> f x = Inr (g x)) \<Longrightarrow> py_sort f xs = Inr (sort_key g xs)"
proof -
  assume f: "\<And>x. x \<in> set xs \<Longrightarrow> f x = Inr (g x)"
  have "map_res (\<lambda>x. rbind (f x) (\<lambda>k. Inr (k, x))) xs = Inr (map (\<lambda>x. (g x, x)) xs)"
    unfolding map_res_Inr using f by (induction xs) simp_all
  then show ?thesis by (simp add: py_sort_def sort_key_pairs o_def)
qed

lemma ts_sorted: "(\<And>e. e \<in> set es \<Longrightarrow> numeric (dict_get_default e ''ts'' (PInt 0))) \<Longrightarrow> py_sort ts_key es = Inr (sort_key start_ts es)"
  by (rule py_sort_eq) (simp add: ts_key_def start_ts_def py_num_eq)

lemma sum_of_mset: "mset xs = mset ys \<Longrightarrow> sum_of c f xs = sum_of c f ys"
proof -
  assume "mset xs = mset ys"
  then have "mset (map f (filter (\<lambda>e. ctx e = c) xs)) = mset (map f (filter (\<lambda>e. ctx e = c) ys))" by simp
  then show ?thesis unfolding sum_of_def by (metis sum_mset_sum_list)
qed

lemma merge_decode_ok:
  assumes "\<forall>e \<in> set es. decode_ok e \<and> decode_event e" "sorted (map ckey es)"
  shows "\<exists>out. merge_decode es = Inr out \<and> (\<forall>x \<in> set out. running x \<and> decode_event x) \<and> sorted_wrt separated out
    \<and> (\<forall>c. sum_of c tokens out = sum_of c tokens es \<and> sum_of c steps out = of_nat (length (filter (\<lambda>e. ctx e = c) es)))"
proof (cases es)
  case (Cons e es')
  then have e: "decode_ok e" "decode_event e" using assms(1) by simp_all
  obtain c where c: "start_merge e = Inr c" "running c" "ctx c = ctx e" "tokens c = tokens e" "steps c = 1"
      "start_ts c = start_ts e" "decode_event c = decode_event e"
    using start_merge_ok [OF e(1)] by blast
  have k: "ckey c = ckey e" by (rule ckey_cong [OF c(3,6)])
  have "sorted (map ckey (c # es'))" using assms(2) Cons k by simp
  then obtain out where out: "merge_loop c es' = Inr out" "merged_from c es' out"
    using merge_loop_ok [of c es'] c(2,7) e(2) assms(1) Cons by auto
  show ?thesis using out c(1) unfolding merged_from_def by (simp add: merge_decode_def Cons c(3-5))
qed (simp add: merge_decode_def)

text \<open>Readings of the cache usage.\<close>

lemma drop_repeated_mset: "mset (drop_repeated p es) \<subseteq># mset es"
  by (induction p es rule: drop_repeated.induct) (auto intro: subset_mset.order_trans)

lemma reduce_usage_mset: "mset (reduce_usage es) \<subseteq># mset es"
proof (cases es)
  case (Cons e es')
  show ?thesis using drop_repeated_mset [of e es'] by (simp add: Cons reduce_usage_def)
qed (simp add: reduce_usage_def)

lemma separated_pair:
  "sorted_wrt separated xs \<Longrightarrow> a \<in> set xs \<Longrightarrow> b \<in> set xs \<Longrightarrow> a \<noteq> b \<Longrightarrow> separated a b \<or> separated b a"
  by (induction xs) auto

lemma separated_distinct: "sorted_wrt separated xs \<Longrightarrow> (\<And>x. x \<in> set xs \<Longrightarrow> decode_ok x) \<Longrightarrow> distinct xs"
proof (induction xs)
  case (Cons x xs)
  have "\<not> separated x x" using decode_ts [OF Cons.prems(2) [of x]] by (auto simp: separated_def)
  then show ?case using Cons by auto
qed simp

section \<open>The reduction as a whole\<close>

abbreviation other_event :: "event_dict \<Rightarrow> bool" where
  "other_event e \<equiv> \<not> decode_event e \<and> \<not> usage_event e"

text \<open>The three parts of the result, before the last sort.\<close>

lemma reduce_events_parts:
  assumes "\<forall>e \<in> set events. event_ok e"
  shows "\<exists>m u. reduce_events events = Inr (sort_key start_ts (filter other_event events @ m @ u))
    \<and> (\<forall>x \<in> set m. decode_ok x \<and> decode_event x) \<and> sorted_wrt separated m
    \<and> (\<forall>c. sum_of c tokens m = sum_of c tokens (filter decode_event events)
         \<and> sum_of c steps m = of_nat (length (filter (\<lambda>e. ctx e = c) (filter decode_event events))))
    \<and> mset u \<subseteq># mset (filter usage_event events)"
proof -
  let ?dec = "sort_key ckey (filter decode_event events)"
  let ?use = "reduce_usage (sort_key start_ts (filter usage_event events))"
  have ts: "numeric (dict_get_default e ''ts'' (PInt 0))" if "e \<in> set events" for e
    using assms that by (simp add: event_ok_def)
  have dec: "\<forall>e \<in> set ?dec. decode_ok e \<and> decode_event e" using assms by (simp add: event_ok_def)
  obtain m where m: "merge_decode ?dec = Inr m" "\<forall>x \<in> set m. running x \<and> decode_event x" "sorted_wrt separated m"
      "\<forall>c. sum_of c tokens m = sum_of c tokens ?dec \<and> sum_of c steps m = of_nat (length (filter (\<lambda>e. ctx e = c) ?dec))"
    using merge_decode_ok [OF dec] by auto
  have m_ok: "\<forall>x \<in> set m. decode_ok x \<and> decode_event x" using m(2) by (simp add: running_def)
  have use: "mset ?use \<subseteq># mset (filter usage_event events)"
    using reduce_usage_mset [of "sort_key start_ts (filter usage_event events)"] by simp
  have use_set: "x \<in> set events" if "x \<in> set ?use" for x
    using mset_subset_eqD [OF use] that by (metis mem_Collect_eq set_filter set_mset_mset)
  let ?all = "filter other_event events @ m @ ?use"
  have num: "numeric (dict_get_default x ''ts'' (PInt 0))" if "x \<in> set ?all" for x
    using that ts use_set [of x] m_ok by (auto simp: decode_ok_def dict_get_default_def)
  have s1: "py_sort ts_key (filter usage_event events) = Inr (sort_key start_ts (filter usage_event events))"
    by (rule ts_sorted) (use ts in simp)
  have s2: "py_sort context_key (filter decode_event events) = Inr ?dec"
    by (rule py_sort_eq) (use assms in \<open>simp add: context_key_ok event_ok_def\<close>)
  have "py_sort ts_key ?all = Inr (sort_key start_ts ?all)" by (rule ts_sorted) (rule num)
  then have red: "reduce_events events = Inr (sort_key start_ts ?all)" by (simp add: reduce_events_def s1 s2 m(1))
  have len: "length (filter (\<lambda>e. ctx e = c) ?dec) = length (filter (\<lambda>e. ctx e = c) (filter decode_event events))" for c
    by (rule mset_eq_length) (simp only: mset_filter mset_sort)
  have "sum_of c f ?dec = sum_of c f (filter decode_event events)" for c f by (rule sum_of_mset) simp
  then show ?thesis using red m_ok m(3,4) use unfolding len by (intro exI [of _ m] exI [of _ ?use]) simp
qed

lemma filter_parts:
  assumes "\<forall>x \<in> set m. decode_event x" and "mset u \<subseteq># mset (filter usage_event events)"
  shows "filter decode_event (filter other_event events @ m @ u) = m"
    and "filter other_event (filter other_event events @ m @ u) = filter other_event events"
    and "filter usage_event (filter other_event events @ m @ u) = u"
proof -
  have excl: "usage_event x \<Longrightarrow> \<not> decode_event x" for x by (simp add: usage_event_def)
  have u: "usage_event x" if "x \<in> set u" for x
    using mset_subset_eqD [OF assms(2)] that by (metis mem_Collect_eq set_filter set_mset_mset)
  have fm: "filter decode_event m = m" "filter other_event m = []" "filter usage_event m = []"
    using assms(1) excl by (blast intro!: filter_True filter_False)+
  have fu: "filter decode_event u = []" "filter other_event u = []" "filter usage_event u = u"
    using u excl by (blast intro!: filter_True filter_False)+
  show "filter decode_event (filter other_event events @ m @ u) = m"
    and "filter other_event (filter other_event events @ m @ u) = filter other_event events"
    and "filter usage_event (filter other_event events @ m @ u) = u"
    unfolding filter_append fm fu by (simp_all add: filter_empty_conv) blast
qed

text \<open>C26: reducing a trace loses no decoding work. On events as the exporter writes them the tool succeeds;
  the result is in order of time; for every request on every engine the tokens of its decode events
  add up to the same number as before, and the counts of merged steps to the number of events that
  were merged; two remaining decode events of a request on an engine are more than 5 ms apart, so that
  nothing more could be merged; events of other kinds are kept unchanged; readings of the cache usage
  are dropped, never added.\<close>

theorem reduction_conserves:
  assumes "\<forall>e \<in> set events. event_ok e"
  shows "\<exists>out. reduce_events events = Inr out \<and> sorted (map start_ts out)
    \<and> (\<forall>c. sum_of c tokens (filter decode_event out) = sum_of c tokens (filter decode_event events)
         \<and> sum_of c steps (filter decode_event out) =
             of_nat (length (filter (\<lambda>e. ctx e = c) (filter decode_event events))))
    \<and> distinct (filter decode_event out)
    \<and> (\<forall>a \<in> set out. \<forall>b \<in> set out. decode_event a \<and> decode_event b \<and> ctx a = ctx b \<and> a \<noteq> b \<longrightarrow>
         end_ts a + 5000 < start_ts b \<or> end_ts b + 5000 < start_ts a)
    \<and> mset (filter other_event out) =
        mset (filter other_event events)
    \<and> mset (filter usage_event out) \<subseteq># mset (filter usage_event events)"
proof -
  obtain m u where red: "reduce_events events = Inr (sort_key start_ts (filter other_event events @ m @ u))"
      and m: "\<forall>x \<in> set m. decode_ok x \<and> decode_event x" "sorted_wrt separated m"
      and sums: "\<forall>c. sum_of c tokens m = sum_of c tokens (filter decode_event events)
         \<and> sum_of c steps m = of_nat (length (filter (\<lambda>e. ctx e = c) (filter decode_event events)))"
      and u: "mset u \<subseteq># mset (filter usage_event events)"
    using reduce_events_parts [OF assms] by (elim exE conjE)
  let ?all = "filter other_event events @ m @ u"
  let ?out = "sort_key start_ts ?all"
  have dec: "\<forall>x \<in> set m. decode_event x" and ok: "\<And>x. x \<in> set m \<Longrightarrow> decode_ok x" using m(1) by simp_all
  have mf: "mset (filter P ?out) = mset (filter P ?all)" for P unfolding mset_filter mset_sort ..
  note parts = mf [of decode_event, unfolded filter_parts(1) [OF dec u]] mf [of other_event, unfolded filter_parts(2) [OF dec u]]
    mf [of usage_event, unfolded filter_parts(3) [OF dec u]]
  have dist: "distinct (filter decode_event ?out)"
    using separated_distinct [OF m(2) ok] mset_eq_imp_distinct_iff [OF parts(1)] by blast
  have "set (filter decode_event ?out) = set m" using mset_eq_setD [OF parts(1)] .
  then have sep: "end_ts a + 5000 < start_ts b \<or> end_ts b + 5000 < start_ts a"
    if "a \<in> set ?out" "b \<in> set ?out" "decode_event a \<and> decode_event b \<and> ctx a = ctx b \<and> a \<noteq> b" for a b
    using separated_pair [OF m(2), of a b] that by (auto simp: separated_def)
  have sums': "\<forall>c. sum_of c tokens (filter decode_event ?out) = sum_of c tokens (filter decode_event events)
      \<and> sum_of c steps (filter decode_event ?out) = of_nat (length (filter (\<lambda>e. ctx e = c) (filter decode_event events)))"
    using sums unfolding sum_of_mset [OF parts(1)] .
  have "sorted (map start_ts ?out)" by (rule sorted_sort_key)
  then show ?thesis using red sums' dist sep parts(2) u [folded parts(3)]
    by (intro exI [of _ ?out] conjI ballI impI) blast+
qed

text \<open>An event of the exporter, and a trace of two decode steps and a usage reading.\<close>

definition decode_step :: "int \<Rightarrow> trace_event" where
  "decode_step t = \<lparr>te_name = ''D:r'', te_cat = ''request.decode'', te_ph = ''X'', te_pid = PStr ''node_0'', te_tid = PInt 0,
     te_ts = t, te_args = Some [(''tokens_emitted_this_step'', PInt 1)], te_dur = Some 10, te_cname = None\<rparr>"

text \<open>Decode events of \<open>create_detailed_events\<close> have a string for a process, a duration and a token count.\<close>

lemma exported_event_ok:
  assumes "te_cat e = ''request.decode'' \<Longrightarrow> (\<exists>p. te_pid e = PStr p) \<and> (\<exists>d. te_dur e = Some d \<and> 0 \<le> d)
      \<and> (\<exists>a n. te_args e = Some a \<and> map_of a ''tokens_emitted_this_step'' = Some (PInt n))"
  shows "event_ok (trace_to_dict e)"
proof -
  have "decode_event (trace_to_dict e) \<Longrightarrow> te_cat e = ''request.decode''"
    by (simp add: decode_event_def trace_to_dict_def dict_get_default_def)
  moreover have "decode_ok (trace_to_dict e)" if "te_cat e = ''request.decode''"
    using assms [OF that] by (auto simp: decode_ok_def trace_to_dict_def dict_get_default_def)
  ultimately show ?thesis by (auto simp: event_ok_def trace_to_dict_def dict_get_default_def)
qed

theorem reduction_conserves_witness:
  "\<exists>out. reduce_events [trace_to_dict (decode_step 0), trace_to_dict (decode_step 20)] = Inr out
     \<and> sum_of (PStr ''node_0'', PStr ''D:r'') tokens (filter decode_event out) = 2
     \<and> sum_of (PStr ''node_0'', PStr ''D:r'') steps (filter decode_event out) = 2"
proof -
  let ?es = "[trace_to_dict (decode_step 0), trace_to_dict (decode_step 20)]"
  have "\<forall>e \<in> set ?es. event_ok e"
    by (simp add: exported_event_ok decode_step_def)
  from reduction_conserves [OF this] obtain out where out: "reduce_events ?es = Inr out"
      "\<forall>c. sum_of c tokens (filter decode_event out) = sum_of c tokens (filter decode_event ?es)
         \<and> sum_of c steps (filter decode_event out) = of_nat (length (filter (\<lambda>e. ctx e = c) (filter decode_event ?es)))"
    by blast
  have "filter decode_event ?es = ?es" "ctx (trace_to_dict (decode_step t)) = (PStr ''node_0'', PStr ''D:r'')"
      "tokens (trace_to_dict (decode_step t)) = 1" for t
    by (simp_all add: decode_event_def ctx_def tokens_def args_of_def trace_to_dict_def decode_step_def dict_get_default_def)
  then show ?thesis using out by simp
qed

text \<open>
  Readings of different engines are compared with each other: an engine whose reading equals the
  previous one of another engine loses it.
\<close>

definition usage_reading :: "string \<Rightarrow> int \<Rightarrow> event_dict" where
  "usage_reading pid t = [(''name'', PStr ''BlockUsage''), (''cat'', PStr ''memory''), (''ph'', PStr ''C''), (''pid'', PStr pid),
     (''ts'', PInt t), (''args'', PDict [(''used_blocks'', PInt 7)])]"

lemma usage_of_engine_lost:
  "reduce_events [usage_reading ''node_0'' 0, usage_reading ''node_1'' 1] = Inr [usage_reading ''node_0'' 0]"
proof -
  let ?a = "usage_reading ''node_0'' 0" let ?b = "usage_reading ''node_1'' 1"
  have u: "usage_event (usage_reading p t)" "\<not> decode_event (usage_reading p t)" for p t
    by (simp_all add: usage_event_def decode_event_def usage_reading_def dict_get_default_def)
  have n: "numeric (dict_get_default (usage_reading p t) ''ts'' (PInt 0))" "start_ts (usage_reading p t) = of_int t" for p t
    by (simp_all add: start_ts_def usage_reading_def dict_get_default_def)
  have "py_eq (ev_get ?b ''args'') (ev_get ?a ''args'')"
    by (simp add: usage_reading_def dict_get_default_def py_num_def)
  then have r: "reduce_usage [?a, ?b] = [?a]" by (simp add: reduce_usage_def)
  have s: "py_sort ts_key [?a, ?b] = Inr [?a, ?b]" "py_sort ts_key [?a] = Inr [?a]"
    using ts_sorted [of "[?a, ?b]"] ts_sorted [of "[?a]"] n by auto
  have "py_sort context_key ([] :: event_dict list) = Inr []" by (simp add: py_sort_def)
  then show ?thesis using s by (simp add: reduce_events_def u merge_decode_def r)
qed

end
