(* ===== verification/Nb_Trim.thy ===== *)
theory Nb_Trim
  imports Json
begin

text \<open>
  Trimming the outputs of notebooks, \<open>contrib/trace_analysis/trim_output.py\<close>, on the JSON documents of
  the notebooks. The code changes the document in place; the model returns it. The search for notebooks,
  the argument parser and the messages are left out. Text has 8-bit characters.
\<close>

section \<open>Lines\<close>

text \<open>\<open>s.splitlines(keepends=True)\<close>\<close>

definition is_line_end :: "char \<Rightarrow> bool" where
  "is_line_end c \<longleftrightarrow> (let n = (of_char c :: nat) in 10 \<le> n \<and> n \<le> 13 \<or> 28 \<le> n \<and> n \<le> 30 \<or> n = 133)"

fun lines_keep :: "string \<Rightarrow> string \<Rightarrow> string list" where
  "lines_keep acc [] = (if acc = [] then [] else [rev acc])"
| "lines_keep acc (c # cs) =
     (if c = CHR 0x0D \<and> (case cs of d # _ \<Rightarrow> d = CHR 0x0A | [] \<Rightarrow> False) then lines_keep (c # acc) cs
      else if is_line_end c then rev (c # acc) # lines_keep [] cs
      else lines_keep (c # acc) cs)"

definition splitlines_keep :: "string \<Rightarrow> string list" where
  "splitlines_keep s = lines_keep [] s"

lemma concat_lines_keep: "concat (lines_keep acc s) = rev acc @ s"
  by (induction acc s rule: lines_keep.induct) (auto split: list.splits)

lemma concat_splitlines [simp]: "concat (splitlines_keep s) = s"
  by (simp add: splitlines_keep_def concat_lines_keep)

section \<open>Texts\<close>

definition trim_marker :: string where
  "trim_marker = ''... [output trimmed by contrib/trace_analysis/trim_output.sh]''"

definition image_marker :: string where
  "image_marker = ''... [embedded image/PDF output removed by contrib/trace_analysis/trim_output.sh]''"

record trim_args =
  tr_max_lines :: int
  tr_max_chars :: int
  tr_clear :: bool
  tr_drop_images :: bool
  tr_str :: "pyval \<Rightarrow> string"

text \<open>\<open>as_text\<close>; \<open>tr_str\<close> is the text of values other than strings, numbers and constants.\<close>

definition as_text :: "trim_args \<Rightarrow> pyval \<Rightarrow> string option" where
  "as_text args v =
     (case v of PList xs \<Rightarrow> Some (concat (map (py_str_val (tr_str args)) xs)) | PStr s \<Rightarrow> Some s | _ \<Rightarrow> None)"

definition restore_text :: "pyval \<Rightarrow> string \<Rightarrow> pyval" where
  "restore_text original text = (case original of PList _ \<Rightarrow> PList (map PStr (splitlines_keep text)) | _ \<Rightarrow> PStr text)"

definition rstrip_newlines :: "string \<Rightarrow> string" where
  "rstrip_newlines s = rev (dropWhile (\<lambda>c. c = CHR 0x0A) (rev s))"

definition cut_lines :: "int \<Rightarrow> string \<Rightarrow> string \<times> bool" where
  "cut_lines max_lines text =
     (let lines = splitlines_keep text in
      if 0 \<le> max_lines \<and> int (length lines) > max_lines then (concat (take (nat max_lines) lines), True) else (text, False))"

definition cut_chars :: "int \<Rightarrow> string \<Rightarrow> string \<times> bool" where
  "cut_chars max_chars text =
     (if 0 \<le> max_chars \<and> int (length text) > max_chars then (take (nat max_chars) text, True) else (text, False))"

definition trim_text :: "trim_args \<Rightarrow> pyval \<Rightarrow> pyval \<times> bool" where
  "trim_text args v =
     (case as_text args v of
        None \<Rightarrow> (v, False)
      | Some text \<Rightarrow>
          if py_in trim_marker text \<or> py_in image_marker text then (v, False)
          else
            let (t1, c1) = cut_lines (tr_max_lines args) text; (t2, c2) = cut_chars (tr_max_chars args) t1 in
            if \<not> c1 \<and> \<not> c2 then (v, False)
            else (restore_text v (rstrip_newlines t2 @ [CHR 0x0A] @ trim_marker @ [CHR 0x0A]), True))"

section \<open>Outputs\<close>

definition text_mime_types :: "string list" where
  "text_mime_types = [''application/javascript'', ''text/html'', ''text/latex'', ''text/markdown'', ''text/plain'']"

definition image_mime_types :: "string list" where
  "image_mime_types = [''application/pdf'', ''image/jpeg'', ''image/png'', ''image/svg+xml'']"

text \<open>The value of a key, trimmed.\<close>

definition trim_key :: "trim_args \<Rightarrow> string \<Rightarrow> pyval pydict \<Rightarrow> pyval pydict \<times> bool" where
  "trim_key args k d =
     (case map_of d k of
        None \<Rightarrow> (d, False)
      | Some v \<Rightarrow> (case trim_text args v of (v', ch) \<Rightarrow> (if ch then dict_set k v' d else d, ch)))"

fun trim_keys :: "trim_args \<Rightarrow> string list \<Rightarrow> pyval pydict \<Rightarrow> pyval pydict \<times> bool" where
  "trim_keys args [] d = (d, False)"
| "trim_keys args (k # ks) d =
     (case trim_key args k d of (d1, c1) \<Rightarrow> (case trim_keys args ks d1 of (d2, c2) \<Rightarrow> (d2, c1 \<or> c2)))"

definition drop_images :: "pyval pydict \<Rightarrow> pyval pydict \<times> bool" where
  "drop_images d =
     (let dropped = filter (dict_has d) image_mime_types; d1 = foldl (\<lambda>d k. dict_del k d) d dropped in
      (if dropped \<noteq> [] \<and> \<not> dict_has d1 ''text/plain'' then dict_set ''text/plain'' (PStr (image_marker @ [CHR 0x0A])) d1 else d1,
       dropped \<noteq> []))"

definition trim_mime_bundle :: "trim_args \<Rightarrow> pyval \<Rightarrow> pyval \<times> bool" where
  "trim_mime_bundle args data =
     (case data of
        PDict d \<Rightarrow>
          (case trim_keys args text_mime_types d of (d1, c1) \<Rightarrow>
             if tr_drop_images args then (case drop_images d1 of (d2, c2) \<Rightarrow> (PDict d2, c1 \<or> c2)) else (PDict d1, c1))
      | _ \<Rightarrow> (data, False))"

definition trim_output :: "trim_args \<Rightarrow> pyval \<Rightarrow> (pyval \<times> bool) res" where
  "trim_output args out =
     (case out of
        PDict d \<Rightarrow>
          (let ty = dict_get_default d ''output_type'' PNone in
           if ty = PStr ''stream'' \<and> dict_has d ''text'' then (case trim_key args ''text'' d of (d', ch) \<Rightarrow> Inr (PDict d', ch))
           else if \<not> hashable ty then Inl (TypeError ''unhashable type'')
           else if ty = PStr ''display_data'' \<or> ty = PStr ''execute_result'' then
             (case trim_mime_bundle args (dict_get_default d ''data'' PNone) of (data, ch) \<Rightarrow>
                Inr (if ch then PDict (dict_set ''data'' data d) else out, ch))
           else if ty = PStr ''error'' \<and> dict_has d ''traceback'' then
             (case trim_key args ''traceback'' d of (d', ch) \<Rightarrow> Inr (PDict d', ch))
           else Inr (out, False))
      | _ \<Rightarrow> Inl (AttributeError ''get''))"

section \<open>Cells and notebooks\<close>

definition clear_cell :: "pyval pydict \<Rightarrow> pyval pydict \<times> bool" where
  "clear_cell d =
     (let c1 = py_truthy (dict_get_default d ''outputs'' PNone); d1 = (if c1 then dict_set ''outputs'' (PList []) d else d);
          c2 = dict_get_default d ''execution_count'' PNone \<noteq> PNone
      in (if c2 then dict_set ''execution_count'' PNone d1 else d1, c1 \<or> c2))"

definition any_changed :: "('a \<times> bool) list \<Rightarrow> bool" where
  "any_changed rs \<longleftrightarrow> (\<exists>r \<in> set rs. snd r)"

definition trim_cell :: "trim_args \<Rightarrow> pyval \<Rightarrow> (pyval \<times> bool) res" where
  "trim_cell args cell =
     (case cell of
        PDict d \<Rightarrow>
          if dict_get_default d ''cell_type'' PNone \<noteq> PStr ''code'' then Inr (cell, False)
          else if tr_clear args then (case clear_cell d of (d', ch) \<Rightarrow> Inr (PDict d', ch))
          else
            rbind (rbind (py_list_val (dict_get_default d ''outputs'' (PList []))) (map_res (trim_output args))) (\<lambda>rs.
              Inr (if any_changed rs then PDict (dict_set ''outputs'' (PList (map fst rs)) d) else cell, any_changed rs))
      | _ \<Rightarrow> Inl (AttributeError ''get''))"

definition trim_notebook :: "trim_args \<Rightarrow> pyval \<Rightarrow> (pyval \<times> bool) res" where
  "trim_notebook args nb =
     (case nb of
        PDict d \<Rightarrow>
          rbind (rbind (py_list_val (dict_get_default d ''cells'' (PList []))) (map_res (trim_cell args))) (\<lambda>rs.
            Inr (if any_changed rs then PDict (dict_set ''cells'' (PList (map fst rs)) d) else nb, any_changed rs))
      | _ \<Rightarrow> Inl (AttributeError ''get''))"

text \<open>
  \<open>main\<close>: the documents written, and the exit status. A notebook is its path and its text, if it could be
  read. Errors of reading are reported, errors of trimming are not caught.
\<close>

record trim_run =
  tx_written :: "(string \<times> pyval) list"
  tx_changed :: "string list"
  tx_failed :: bool

definition trim_file :: "trim_args \<Rightarrow> bool \<Rightarrow> bool \<Rightarrow> string \<times> string res \<Rightarrow> trim_run \<Rightarrow> trim_run res" where
  "trim_file args dry_run check file st =
     (case file of (path, text) \<Rightarrow>
        (case rbind text json_loads of
           Inl e \<Rightarrow> Inr (st\<lparr>tx_failed := True\<rparr>)
         | Inr nb \<Rightarrow>
             rbind (trim_notebook args nb) (\<lambda>(nb', ch).
               if \<not> ch then Inr st
               else
                 let st1 = st\<lparr>tx_changed := tx_changed st @ [path]\<rparr> in
                 if dry_run \<or> check then Inr st1 else Inr (st1\<lparr>tx_written := tx_written st1 @ [(path, nb')]\<rparr>))))"

definition trim_main :: "trim_args \<Rightarrow> bool \<Rightarrow> bool \<Rightarrow> (string \<times> string res) list \<Rightarrow> ((string \<times> pyval) list \<times> int) res" where
  "trim_main args dry_run check files =
     (if files = [] then Inr ([], 2)
      else
        rbind (for_res (trim_file args dry_run check) files \<lparr>tx_written = [], tx_changed = [], tx_failed = False\<rparr>) (\<lambda>st.
          Inr (tx_written st, if tx_failed st then 2 else if check \<and> tx_changed st \<noteq> [] then 1 else 0)))"

section \<open>Trimming twice\<close>

lemma restored_text: "as_text args (restore_text v t) = Some t"
  by (cases v) (simp_all add: as_text_def restore_text_def comp_def py_str_val_def)

lemma trim_text_again:
  assumes "trim_text args v = (v', ch)"
  shows "trim_text args v' = (v', False)" "\<not> ch \<Longrightarrow> v' = v"
proof -
  show same: "v' = v" if "\<not> ch" using assms that by (auto simp: trim_text_def split: option.splits prod.splits if_splits)
  show "trim_text args v' = (v', False)"
  proof (cases ch)
    case False
    then show ?thesis using assms same by simp
  next
    case True
    then obtain t where v': "v' = restore_text v (t @ [CHR 0x0A] @ trim_marker @ [CHR 0x0A])"
      using assms by (auto simp: trim_text_def split: option.splits prod.splits if_splits)
    have "py_in trim_marker (t @ [CHR 0x0A] @ trim_marker @ [CHR 0x0A])"
      unfolding sublist_def by (metis append.assoc)
    then show ?thesis by (simp add: trim_text_def v' restored_text del: append_Cons append.simps append_assoc)
  qed
qed

text \<open>A key whose text is not trimmed any more.\<close>

definition quiescent :: "trim_args \<Rightarrow> pyval pydict \<Rightarrow> string \<Rightarrow> bool" where
  "quiescent args d k \<longleftrightarrow> (\<forall>v. map_of d k = Some v \<longrightarrow> trim_text args v = (v, False))"

lemma quiescent_iff: "quiescent args d k \<longleftrightarrow> trim_key args k d = (d, False)"
proof
  assume "quiescent args d k"
  then show "trim_key args k d = (d, False)" by (simp add: quiescent_def trim_key_def split: option.split)
next
  assume *: "trim_key args k d = (d, False)"
  show "quiescent args d k" unfolding quiescent_def
  proof (intro allI impI)
    fix v assume v: "map_of d k = Some v"
    obtain v' ch where t: "trim_text args v = (v', ch)" by (cases "trim_text args v")
    then have "\<not> ch" using * v by (simp add: trim_key_def)
    then show "trim_text args v = (v, False)" using t trim_text_again(2) [OF t] by simp
  qed
qed

lemma trim_key_settles:
  assumes "trim_key args k d = (d', ch)"
  shows "quiescent args d' k" "k' \<noteq> k \<Longrightarrow> map_of d' k' = map_of d k'" "\<not> ch \<Longrightarrow> d' = d"
  using assms trim_text_again
  by (auto simp: trim_key_def quiescent_def update_conv' split: option.splits prod.splits if_splits)

lemma quiescent_other: "map_of d' k = map_of d k \<Longrightarrow> quiescent args d k \<Longrightarrow> quiescent args d' k"
  by (simp add: quiescent_def)

lemma trim_keys_settle:
  assumes "distinct ks" "trim_keys args ks d = (d', ch)"
  shows "\<forall>k \<in> set ks. quiescent args d' k" "k' \<notin> set ks \<Longrightarrow> map_of d' k' = map_of d k'" "\<not> ch \<Longrightarrow> d' = d"
proof -
  have "(\<forall>k \<in> set ks. quiescent args d' k) \<and> (\<forall>k'. k' \<notin> set ks \<longrightarrow> map_of d' k' = map_of d k') \<and> (\<not> ch \<longrightarrow> d' = d)"
    using assms
  proof (induction ks arbitrary: d d' ch)
    case (Cons k ks)
    obtain d1 c1 where k: "trim_key args k d = (d1, c1)" by (cases "trim_key args k d")
    obtain c2 where ks: "trim_keys args ks d1 = (d', c2)" "ch = (c1 \<or> c2)"
      using Cons.prems(2) by (auto simp: k split: prod.splits)
    note ih = Cons.IH [OF _ ks(1)]
    note t = trim_key_settles [OF k]
    have "quiescent args d' k" using quiescent_other [OF _ t(1)] ih Cons.prems(1) by auto
    then show ?case using ih t(2,3) ks(2) Cons.prems(1) by auto
  qed simp
  then show "\<forall>k \<in> set ks. quiescent args d' k" "k' \<notin> set ks \<Longrightarrow> map_of d' k' = map_of d k'" "\<not> ch \<Longrightarrow> d' = d" by auto
qed

lemma trim_keys_settled: "\<forall>k \<in> set ks. quiescent args d k \<Longrightarrow> trim_keys args ks d = (d, False)"
  by (induction ks) (simp_all add: quiescent_iff)
lemma map_of_dels: "map_of (foldl (\<lambda>d k. dict_del k d) d ks) k' = (if k' \<in> set ks then None else map_of d k')"
  by (induction ks arbitrary: d) (auto simp: delete_conv')

lemma marker_settled: "trim_text args (PStr (image_marker @ [CHR 0x0A])) = (PStr (image_marker @ [CHR 0x0A]), False)"
proof -
  have "py_in image_marker (image_marker @ [CHR 0x0A])" by (rule prefix_imp_sublist) simp
  then show ?thesis by (simp add: trim_text_def as_text_def)
qed

lemma drop_images_settles:
  assumes "drop_images d = (d', ch)"
  shows "\<forall>k \<in> set image_mime_types. map_of d' k = None" "\<not> ch \<Longrightarrow> d' = d"
    "k \<in> set text_mime_types \<Longrightarrow> quiescent args d k \<Longrightarrow> quiescent args d' k"
proof -
  let ?dropped = "filter (dict_has d) image_mime_types"
  let ?d1 = "foldl (\<lambda>d k. dict_del k d) d ?dropped"
  note both = assms [unfolded drop_images_def Let_def prod.inject]
  have d': "d' = (if ?dropped \<noteq> [] \<and> \<not> dict_has ?d1 ''text/plain'' then dict_set ''text/plain'' (PStr (image_marker @ [CHR 0x0A])) ?d1 else ?d1)"
    by (rule both [THEN conjunct1, symmetric])
  have ch: "ch = (?dropped \<noteq> [])" by (rule both [THEN conjunct2, symmetric])
  have has: "dict_has d k \<longleftrightarrow> map_of d k \<noteq> None" for k by simp
  have plain: "''text/plain'' \<notin> set image_mime_types" by (simp add: image_mime_types_def)
  have gone: "map_of ?d1 k = None" if "k \<in> set image_mime_types" for k
    using that has by (auto simp: map_of_dels)
  show "\<forall>k \<in> set image_mime_types. map_of d' k = None" using gone plain by (auto simp: d' update_conv')
  show "d' = d" if "\<not> ch" using that by (simp add: d' ch)
  show "quiescent args d' k" if "k \<in> set text_mime_types" "quiescent args d k" for k
  proof -
    have "k \<notin> set ?dropped" using that(1) by (auto simp: text_mime_types_def image_mime_types_def)
    then have "map_of ?d1 k = map_of d k" by (simp add: map_of_dels)
    then show ?thesis using that(2) marker_settled by (auto simp: d' quiescent_def update_conv')
  qed
qed

lemma no_images: "\<forall>k \<in> set image_mime_types. map_of d k = None \<Longrightarrow> drop_images d = (d, False)"
proof -
  assume "\<forall>k \<in> set image_mime_types. map_of d k = None"
  then have "filter (dict_has d) image_mime_types = []" by (simp add: filter_empty_conv)
  then show ?thesis by (simp add: drop_images_def Let_def)
qed

lemma distinct_mime: "distinct text_mime_types"
  by (simp add: text_mime_types_def)

lemma trim_bundle_again:
  assumes "trim_mime_bundle args data = (data', ch)"
  shows "trim_mime_bundle args data' = (data', False)"
proof (cases "\<exists>d. data = PDict d")
  case False
  then show ?thesis using assms by (cases data) (auto simp: trim_mime_bundle_def)
next
  case True
  then obtain d where d: "data = PDict d" by blast
  obtain d1 c1 where k: "trim_keys args text_mime_types d = (d1, c1)" by (cases "trim_keys args text_mime_types d")
  note s1 = trim_keys_settle(1) [OF distinct_mime k]
  show ?thesis
  proof (cases "tr_drop_images args")
    case False
    then have "data' = PDict d1" using assms by (simp add: trim_mime_bundle_def d k)
    then show ?thesis using False trim_keys_settled [OF s1] by (simp add: trim_mime_bundle_def)
  next
    case True
    obtain d2 c2 where i: "drop_images d1 = (d2, c2)" by (cases "drop_images d1")
    have s2: "\<forall>k \<in> set text_mime_types. quiescent args d2 k" using drop_images_settles(3) [OF i] s1 by blast
    have "data' = PDict d2" using True assms by (simp add: trim_mime_bundle_def d k i)
    then show ?thesis using True trim_keys_settled [OF s2] no_images [OF drop_images_settles(1) [OF i]] by (simp add: trim_mime_bundle_def)
  qed
qed

lemma trim_key_keeps:
  assumes "trim_key args k d = (d', ch)"
  shows "dict_has d' k' = dict_has d k'" "k' \<noteq> k \<Longrightarrow> dict_get_default d' k' x = dict_get_default d k' x"
  using assms by (auto simp: trim_key_def dict_get_default_def update_conv' split: option.splits prod.splits if_splits)

lemma trim_output_again:
  assumes "trim_output args out = Inr (out', ch)"
  shows "trim_output args out' = Inr (out', False)"
proof -
  obtain d where d: "out = PDict d" using assms by (cases out) (auto simp: trim_output_def)
  define ty where "ty = dict_get_default d ''output_type'' PNone"
  have one: "trim_output args out' = Inr (out', False)"
    if k: "trim_key args k d = (d', c)" "out' = PDict d'" "k \<noteq> ''output_type''"
      and branch: "(ty = PStr ''stream'' \<and> k = ''text'' \<or> ty = PStr ''error'' \<and> k = ''traceback'') \<and> dict_has d k" for k d' c
  proof -
    have "dict_get_default d' ''output_type'' PNone = ty" using trim_key_keeps(2) [OF k(1)] k(3) by (simp add: ty_def)
    moreover have "dict_has d' k" using trim_key_keeps(1) [OF k(1)] branch by simp
    moreover have "trim_key args k d' = (d', False)" using trim_key_settles(1) [OF k(1)] quiescent_iff by blast
    ultimately show ?thesis using branch k(2) by (auto simp: trim_output_def hashable_def Let_def)
  qed
  show ?thesis
  proof (cases "ty = PStr ''stream'' \<and> dict_has d ''text''")
    case True
    obtain d' c where k: "trim_key args ''text'' d = (d', c)" by (cases "trim_key args ''text'' d")
    then have "out' = PDict d'" using assms True by (simp add: trim_output_def d ty_def Let_def)
    then show ?thesis using one [OF k] True by simp
  next
    case ns: False
    show ?thesis
    proof (cases "ty = PStr ''display_data'' \<or> ty = PStr ''execute_result''")
      case True
      obtain data c where b: "trim_mime_bundle args (dict_get_default d ''data'' PNone) = (data, c)"
        by (cases "trim_mime_bundle args (dict_get_default d ''data'' PNone)")
      have out': "out' = (if c then PDict (dict_set ''data'' data d) else out)"
        using assms True ns by (auto simp: trim_output_def d ty_def [symmetric] b hashable_def Let_def)
      show ?thesis
      proof (cases c)
        case False
        then show ?thesis using assms out' True ns by (auto simp: trim_output_def d ty_def [symmetric] b hashable_def Let_def)
      next
        case c: True
        have "dict_get_default (dict_set ''data'' data d) ''output_type'' PNone = ty"
            "dict_get_default (dict_set ''data'' data d) ''data'' PNone = data"
          by (simp_all add: dict_get_default_def update_conv' ty_def)
        then show ?thesis using c out' True trim_bundle_again [OF b]
          by (auto simp: trim_output_def hashable_def Let_def)
      qed
    next
      case nd: False
      show ?thesis
      proof (cases "ty = PStr ''error'' \<and> dict_has d ''traceback''")
        case True
        obtain d' c where k: "trim_key args ''traceback'' d = (d', c)" by (cases "trim_key args ''traceback'' d")
        then have "out' = PDict d'" using assms True by (simp add: trim_output_def d ty_def hashable_def Let_def)
        then show ?thesis using one [OF k] True by simp
      next
        case False
        have other: "trim_output args (PDict d) = (if \<not> hashable ty then Inl (TypeError ''unhashable type'') else Inr (PDict d, False))"
          unfolding trim_output_def pyval.case Let_def ty_def [symmetric]
          by (simp only: if_not_P [OF ns] if_not_P [OF nd] if_not_P [OF False])
        then have "out' = PDict d" using assms d by (simp split: if_splits)
        then show ?thesis using assms other d by (simp split: if_splits)
      qed
    qed
  qed
qed

lemma trim_list_again:
  assumes "map_res f xs = Inr rs" "\<And>x y c. f x = Inr (y, c) \<Longrightarrow> f y = Inr (y, False)"
  shows "map_res f (map fst rs) = Inr (map (\<lambda>r. (fst r, False)) rs)"
  using assms(1)
proof (induction xs arbitrary: rs)
  case (Cons x xs)
  then obtain y c rs' where "f x = Inr (y, c)" "map_res f xs = Inr rs'" "rs = (y, c) # rs'" by (auto simp: res_simps)
  then show ?case using Cons.IH assms(2) by auto
qed simp

lemma no_change: "\<not> any_changed (map (\<lambda>r. (fst r, False)) rs)"
  by (simp add: any_changed_def)

lemma trim_cell_again:
  assumes "trim_cell args cell = Inr (cell', ch)"
  shows "trim_cell args cell' = Inr (cell', False)"
proof -
  obtain d where d: "cell = PDict d" using assms by (cases cell) (auto simp: trim_cell_def)
  define code where "code \<longleftrightarrow> dict_get_default d ''cell_type'' PNone = PStr ''code''"
  show ?thesis
  proof (cases "code \<and> \<not> tr_clear args")
    case True
    obtain outs rs where outs: "py_list_val (dict_get_default d ''outputs'' (PList [])) = Inr outs" "map_res (trim_output args) outs = Inr rs"
        and cell': "cell' = (if any_changed rs then PDict (dict_set ''outputs'' (PList (map fst rs)) d) else cell)" "ch = any_changed rs"
      using assms True by (auto simp: trim_cell_def d code_def res_simps)
    show ?thesis
    proof (cases "any_changed rs")
      case False
      then show ?thesis using assms cell' by simp
    next
      case c: True
      have "dict_get_default (dict_set ''outputs'' (PList (map fst rs)) d) ''outputs'' (PList []) = PList (map fst rs)"
          "dict_get_default (dict_set ''outputs'' (PList (map fst rs)) d) ''cell_type'' PNone = PStr ''code''"
        using True by (simp_all add: dict_get_default_def update_conv' code_def)
      then show ?thesis using c cell' True no_change [of rs] trim_list_again [OF outs(2) trim_output_again]
        by (simp add: trim_cell_def py_list_val_def)
    qed
  next
    case other: False
    show ?thesis
    proof (cases code)
      case False
      then have "cell' = PDict d" using assms by (simp add: trim_cell_def d code_def)
      then show ?thesis using False by (simp add: trim_cell_def code_def)
    next
      case True
      then have clear: "tr_clear args" using other by simp
      obtain d' c where k: "clear_cell d = (d', c)" by (cases "clear_cell d")
      then have cell': "cell' = PDict d'" using assms True clear by (simp add: trim_cell_def d code_def)
      have "clear_cell d' = (d', False)" "dict_get_default d' ''cell_type'' PNone = PStr ''code''"
        using k True by (auto simp: clear_cell_def Let_def dict_get_default_def update_conv' code_def py_truthy_def split: if_splits)
      then show ?thesis using cell' clear by (simp add: trim_cell_def)
    qed
  qed
qed

lemma trim_again:
  assumes "trim_notebook args nb = Inr (nb', ch)"
  shows "trim_notebook args nb' = Inr (nb', False)"
proof -
  obtain d where d: "nb = PDict d" using assms by (cases nb) (auto simp: trim_notebook_def)
  obtain cells rs where cells: "py_list_val (dict_get_default d ''cells'' (PList [])) = Inr cells" "map_res (trim_cell args) cells = Inr rs"
      and nb': "nb' = (if any_changed rs then PDict (dict_set ''cells'' (PList (map fst rs)) d) else nb)" "ch = any_changed rs"
    using assms by (auto simp: trim_notebook_def d res_simps)
  show ?thesis
  proof (cases "any_changed rs")
    case False
    then show ?thesis using assms nb' by simp
  next
    case True
    have "dict_get_default (dict_set ''cells'' (PList (map fst rs)) d) ''cells'' (PList []) = PList (map fst rs)"
      by (simp add: dict_get_default_def update_conv')
    then show ?thesis using True nb' no_change [of rs] trim_list_again [OF cells(2) trim_cell_again]
      by (simp add: trim_notebook_def py_list_val_def)
  qed
qed

text \<open>What a trimmed text keeps: at most the given number of characters of the text, and the marker.\<close>

lemma trim_text_bounds:
  assumes "trim_text args v = (v', True)" "0 \<le> tr_max_chars args"
  shows "\<exists>t t'. as_text args v = Some t \<and> as_text args v' = Some t' \<and> int (length t') \<le> tr_max_chars args + int (length trim_marker) + 2
    \<and> trim_marker \<noteq> [] \<and> (\<exists>kept. prefix kept t \<and> t' = kept @ [CHR 0x0A] @ trim_marker @ [CHR 0x0A])"
proof -
  obtain t where t: "as_text args v = Some t" using assms(1) by (auto simp: trim_text_def split: option.splits)
  obtain t1 c1 where c1: "cut_lines (tr_max_lines args) t = (t1, c1)" by (cases "cut_lines (tr_max_lines args) t")
  obtain t2 c2 where c2: "cut_chars (tr_max_chars args) t1 = (t2, c2)" by (cases "cut_chars (tr_max_chars args) t1")
  have v': "v' = restore_text v (rstrip_newlines t2 @ [CHR 0x0A] @ trim_marker @ [CHR 0x0A])"
    using assms(1) by (auto simp: trim_text_def t c1 c2 split: if_splits)
  have "prefix (concat (take n (splitlines_keep t))) (concat (splitlines_keep t))" for n
    by (metis append_take_drop_id concat_append prefixI)
  then have p1: "prefix t1 t" using c1 by (auto simp: cut_lines_def Let_def split: if_splits)
  have p2: "prefix t2 t1" "int (length t2) \<le> tr_max_chars args"
    using c2 assms(2) by (auto simp: cut_chars_def take_is_prefix split: if_splits)
  have "t2 = rstrip_newlines t2 @ rev (takeWhile (\<lambda>c. c = CHR 0x0A) (rev t2))"
    unfolding rstrip_newlines_def by (metis rev_append rev_rev_ident takeWhile_dropWhile_id)
  then have p3: "prefix (rstrip_newlines t2) t2" by (metis prefixI)
  have "int (length (rstrip_newlines t2)) \<le> tr_max_chars args" using prefix_length_le [OF p3] p2(2) by simp
  moreover have "prefix (rstrip_newlines t2) t" using p1 p2(1) p3 prefix_order.trans by blast
  moreover have "trim_marker \<noteq> []" by (simp add: trim_marker_def)
  ultimately show ?thesis using t restored_text [of args v] unfolding v' by (intro exI conjI) auto
qed

section \<open>Limits\<close>

text \<open>The outputs of the code cells, and the texts that are within the limits or already marked.\<close>

definition cell_outputs :: "pyval \<Rightarrow> pyval list" where
  "cell_outputs cell =
     (case cell of
        PDict d \<Rightarrow>
          if dict_get_default d ''cell_type'' PNone = PStr ''code''
          then (case dict_get_default d ''outputs'' (PList []) of PList outs \<Rightarrow> outs | _ \<Rightarrow> []) else []
      | _ \<Rightarrow> [])"

definition notebook_cells :: "pyval \<Rightarrow> pyval list" where
  "notebook_cells nb =
     (case nb of PDict d \<Rightarrow> (case dict_get_default d ''cells'' (PList []) of PList cells \<Rightarrow> cells | _ \<Rightarrow> []) | _ \<Rightarrow> [])"

definition text_within :: "trim_args \<Rightarrow> string \<Rightarrow> bool" where
  "text_within args t \<longleftrightarrow> py_in trim_marker t \<or> py_in image_marker t
     \<or> (tr_max_lines args < 0 \<or> int (length (splitlines_keep t)) \<le> tr_max_lines args)
       \<and> (tr_max_chars args < 0 \<or> int (length t) \<le> tr_max_chars args)"

lemma untrimmed_short: "trim_text args v = (v', False) \<Longrightarrow> as_text args v = Some t \<Longrightarrow> text_within args t"
  by (auto simp: trim_text_def text_within_def cut_lines_def cut_chars_def Let_def split: if_splits)

lemma list_unchanged:
  assumes "map_res f xs = Inr rs" "\<not> any_changed rs" "x \<in> set xs"
  shows "\<exists>y. f x = Inr (y, False)"
proof -
  obtain i where i: "i < length xs" "x = xs ! i" using assms(3) by (auto simp: in_set_conv_nth)
  have r: "f x = Inr (rs ! i)" "rs ! i \<in> set rs"
    using assms(1) i unfolding map_res_Inr by (auto simp: list_all2_conv_all_nth)
  then have "\<not> snd (rs ! i)" using assms(2) by (auto simp: any_changed_def)
  then show ?thesis using r(1) by (cases "rs ! i") simp
qed

lemma all_unchanged:
  assumes "rbind (rbind (py_list_val (PList xs)) (map_res f)) (\<lambda>rs. Inr (g rs, any_changed rs)) = Inr (y, False)"
  obtains rs where "map_res f xs = Inr rs" "\<not> any_changed rs"
  using assms by (cases "map_res f xs") (simp_all add: py_list_val_def)

lemma output_unchanged:
  assumes "trim_output args (PDict d) = Inr (out, False)" "map_of d ''output_type'' = Some (PStr ''stream'')" "map_of d ''text'' = Some v"
    and "as_text args v = Some t"
  shows "text_within args t"
proof -
  obtain v' ch where t: "trim_text args v = (v', ch)" by (cases "trim_text args v")
  have "\<not> ch" using assms(1-3) t by (simp add: trim_output_def dict_get_default_def trim_key_def Let_def)
  then show ?thesis using untrimmed_short t assms(4) by simp
qed

lemma cell_unchanged:
  assumes "trim_cell args cell = Inr (cell', False)" "out \<in> set (cell_outputs cell)"
  shows "\<not> tr_clear args \<and> (\<exists>out'. trim_output args out = Inr (out', False))"
proof -
  obtain d where cell: "cell = PDict d" using assms(1) by (cases cell) (simp_all add: trim_cell_def)
  have code: "dict_get_default d ''cell_type'' PNone = PStr ''code''"
    using assms(2) by (cases "dict_get_default d ''cell_type'' PNone = PStr ''code''") (simp_all add: cell_outputs_def cell)
  obtain outs where os: "dict_get_default d ''outputs'' (PList []) = PList outs"
    using assms(2) by (cases "dict_get_default d ''outputs'' (PList [])") (simp_all add: cell_outputs_def cell code)
  have "out \<in> set outs" using assms(2) by (simp add: cell_outputs_def cell code os)
  note d = cell code os this
  have "outs \<noteq> []" using d(4) by auto
  then have m: "map_of d ''outputs'' = Some (PList outs)" using d(3) by (auto simp: dict_get_default_def split: option.splits)
  have nc: "\<not> tr_clear args"
  proof
    assume "tr_clear args"
    then show False using assms(1) d(1,2) m \<open>outs \<noteq> []\<close>
      by (auto simp: trim_cell_def clear_cell_def Let_def dict_get_default_def py_truthy_def split: if_splits)
  qed
  obtain rs where "map_res (trim_output args) outs = Inr rs" "\<not> any_changed rs"
    using assms(1) unfolding trim_cell_def cell pyval.case code os if_not_P [OF nc] by (simp only: simp_thms if_False) (elim all_unchanged)
  from list_unchanged [OF this d(4)] nc show ?thesis by simp
qed

lemma notebook_unchanged:
  assumes "trim_notebook args nb = Inr (nb', False)" "cell \<in> set (notebook_cells nb)"
  shows "\<exists>cell'. trim_cell args cell = Inr (cell', False)"
proof -
  obtain d where nb: "nb = PDict d" using assms(1) by (cases nb) (simp_all add: trim_notebook_def)
  obtain cells where c: "dict_get_default d ''cells'' (PList []) = PList cells"
    using assms(2) by (cases "dict_get_default d ''cells'' (PList [])") (simp_all add: notebook_cells_def nb)
  have cell: "cell \<in> set cells" using assms(2) by (simp add: notebook_cells_def nb c)
  obtain rs where "map_res (trim_cell args) cells = Inr rs" "\<not> any_changed rs"
    using assms(1) unfolding trim_notebook_def nb pyval.case c by (elim all_unchanged)
  from list_unchanged [OF this cell] show ?thesis .
qed

text \<open>C33: trimming notebooks does its work in one pass. Whatever the limits, a trimmed notebook is not changed when it
  is trimmed again, so checking it succeeds; with \<open>--clear\<close> its code cells have no outputs left; and every
  text that a code cell printed is within the limits on lines and characters, or carries a marker of the tool.\<close>

theorem notebook_trimmed:
  assumes "trim_notebook args nb = Inr (nb', ch)"
  shows "trim_notebook args nb' = Inr (nb', False)
    \<and> (\<forall>cell \<in> set (notebook_cells nb'). \<forall>out \<in> set (cell_outputs cell). \<not> tr_clear args
         \<and> (\<forall>d v t. out = PDict d \<and> map_of d ''output_type'' = Some (PStr ''stream'') \<and> map_of d ''text'' = Some v
                \<and> as_text args v = Some t \<longrightarrow> text_within args t))"
proof (intro conjI ballI)
  show again: "trim_notebook args nb' = Inr (nb', False)" by (rule trim_again [OF assms])
  fix cell out assume c: "cell \<in> set (notebook_cells nb')" "out \<in> set (cell_outputs cell)"
  obtain cell' where "trim_cell args cell = Inr (cell', False)" using notebook_unchanged [OF again c(1)] by blast
  note out = cell_unchanged [OF this c(2)]
  show "\<not> tr_clear args" using out by blast
  show "\<forall>d v t. out = PDict d \<and> map_of d ''output_type'' = Some (PStr ''stream'') \<and> map_of d ''text'' = Some v
      \<and> as_text args v = Some t \<longrightarrow> text_within args t"
    using out output_unchanged by blast
qed

definition sample_notebook :: pyval where
  "sample_notebook = PDict [(''cells'', PList [PDict [(''cell_type'', PStr ''code''),
     (''outputs'', PList [PDict [(''output_type'', PStr ''stream''), (''text'', PStr [CHR ''a'', CHR 0x0A, CHR ''b'', CHR 0x0A])]])]])]"

definition sample_args :: trim_args where
  "sample_args = \<lparr>tr_max_lines = 1, tr_max_chars = 100, tr_clear = False, tr_drop_images = True, tr_str = (\<lambda>_. [])\<rparr>"

theorem notebook_trimmed_witness:
  "\<exists>nb'. trim_notebook sample_args sample_notebook = Inr (nb', True) \<and> trim_notebook sample_args nb' = Inr (nb', False)"
proof -
  let ?t = "[CHR ''a'', CHR 0x0A, CHR ''b'', CHR 0x0A]"
  have no: "\<not> py_in trim_marker ?t" "\<not> py_in image_marker ?t"
    by (auto dest!: sublist_length_le simp: trim_marker_def image_marker_def)
  have "splitlines_keep ?t = [[CHR ''a'', CHR 0x0A], [CHR ''b'', CHR 0x0A]]"
    by (simp add: splitlines_keep_def is_line_end_def)
  then have cut: "cut_lines 1 ?t = ([CHR ''a'', CHR 0x0A], True)" by (simp add: cut_lines_def)
  have "\<exists>x. trim_text sample_args (PStr ?t) = (x, True)"
    using no by (simp add: trim_text_def as_text_def sample_args_def cut split: prod.split)
  then obtain x where "trim_text sample_args (PStr ?t) = (x, True)" by blast
  then have "\<exists>nb'. trim_notebook sample_args sample_notebook = Inr (nb', True)"
    by (simp add: trim_notebook_def sample_notebook_def dict_get_default_def py_list_val_def trim_cell_def trim_output_def trim_key_def
        any_changed_def sample_args_def Let_def)
  then obtain nb' where nb': "trim_notebook sample_args sample_notebook = Inr (nb', True)" by blast
  show ?thesis using nb' notebook_trimmed [OF nb'] by blast
qed

end
