(* ===== verification/Sim_Config.thy ===== *)
theory Sim_Config
  imports Prelude
begin

text \<open>
  Configuration of the serving simulator: \<open>simulator/core/config.py\<close> (parallelism and
  workloads), the table \<open>simulator/configs/hardware.py\<close> and the model description
  \<open>simulator/configs/models/llama.py\<close>.

  A model configuration object of the \<open>transformers\<close> package is known by its integer
  attributes only: \<open>model_params\<close> maps an attribute name to its value, and reading a missing
  one raises. A model description module is a record of the functions it defines, each possibly
  missing.
\<close>

section \<open>Parallelism\<close>

record parallel_config =
  tensor_parallel_size :: int
  pipeline_parallel_size :: int

definition default_parallel_config :: parallel_config where
  "default_parallel_config = \<lparr>tensor_parallel_size = 1, pipeline_parallel_size = 1\<rparr>"

definition with_defaults :: "parallel_config \<Rightarrow> parallel_config" where
  "with_defaults c = \<lparr>tensor_parallel_size = max 1 (tensor_parallel_size c),
     pipeline_parallel_size = max 1 (pipeline_parallel_size c)\<rparr>"

text \<open>The values a caller may pass; any other type is \<open>PC_Other\<close>.\<close>

datatype parallel_arg =
    PC_None
  | PC_Config parallel_config
  | PC_Int int
  | PC_Dict "pyval pydict"
  | PC_Other

definition normalize_parallel_config :: "parallel_arg \<Rightarrow> parallel_config res" where
  "normalize_parallel_config a =
     (case a of
        PC_None \<Rightarrow> Inr default_parallel_config
      | PC_Config c \<Rightarrow> Inr (with_defaults c)
      | PC_Int n \<Rightarrow> Inr (default_parallel_config\<lparr>tensor_parallel_size := max 1 n\<rparr>)
      | PC_Dict d \<Rightarrow>
          rbind (py_int_val (dict_get_default d ''tensor_parallel_size'' (PInt 1))) (\<lambda>tp.
          rbind (py_int_val (dict_get_default d ''pipeline_parallel_size'' (PInt 1))) (\<lambda>pp.
          Inr \<lparr>tensor_parallel_size = max 1 tp, pipeline_parallel_size = max 1 pp\<rparr>))
      | PC_Other \<Rightarrow> Inl (TypeError ''Unsupported parallel_config type''))"

lemma normalize_parallel_config_ge_1:
  "normalize_parallel_config a = Inr c \<Longrightarrow> 1 \<le> tensor_parallel_size c \<and> 1 \<le> pipeline_parallel_size c"
  by (cases a) (auto simp: normalize_parallel_config_def default_parallel_config_def with_defaults_def
      res_simps)

lemma with_defaults_idem: "with_defaults (with_defaults c) = with_defaults c"
  by (simp add: with_defaults_def)

section \<open>Hardware\<close>

record hardware_spec =
  hw_bandwidth :: pyfloat
  hw_FP16 :: pyfloat
  hw_INT8 :: pyfloat
  hw_onchip_buffer :: pyfloat
  hw_vmemory :: pyfloat
  hw_price_per_hour :: pyfloat

definition hardware_params :: "hardware_spec pydict" where
  "hardware_params =
    [
     (''NVDA:RTX3090'', \<lparr>hw_bandwidth = 936 * 10 ^ 9, hw_FP16 = 71 * 10 ^ 12, hw_INT8 = 71 * 10 ^ 12,
        hw_onchip_buffer = 18432 * 10 ^ 3, hw_vmemory = 24 * 10 ^ 9, hw_price_per_hour = 13 / 100\<rparr>),
     (''NVDA:A6000'', \<lparr>hw_bandwidth = 1041 * 10 ^ 9, hw_FP16 = 419892 / 1000 * 10 ^ 12 / 2, hw_INT8 = 419892 / 1000 * 10 ^ 12,
        hw_onchip_buffer = 21504 * 10 ^ 3, hw_vmemory = 48 * 10 ^ 9, hw_price_per_hour = 39 / 100\<rparr>),
     (''NVDA:A100'', \<lparr>hw_bandwidth = 1555 * 10 ^ 9, hw_FP16 = 312 * 10 ^ 12, hw_INT8 = 624 * 10 ^ 12,
        hw_onchip_buffer = 27648 * 10 ^ 3, hw_vmemory = 40 * 10 ^ 9, hw_price_per_hour = 65 / 100\<rparr>),
     (''NVDA:A100_40G:SXM'', \<lparr>hw_bandwidth = 2039 * 10 ^ 9, hw_FP16 = 312 * 10 ^ 12, hw_INT8 = 624 * 10 ^ 12,
        hw_onchip_buffer = 27648 * 10 ^ 3, hw_vmemory = 40 * 10 ^ 9, hw_price_per_hour = 68 / 100\<rparr>),
     (''NVDA:A100_80G:SXM'', \<lparr>hw_bandwidth = 2039 * 10 ^ 9, hw_FP16 = 312 * 10 ^ 12, hw_INT8 = 624 * 10 ^ 12,
        hw_onchip_buffer = 27648 * 10 ^ 3, hw_vmemory = 80 * 10 ^ 9, hw_price_per_hour = 68 / 100\<rparr>),
     (''NVDA:A800_80G:SXM'', \<lparr>hw_bandwidth = 2039 * 10 ^ 9, hw_FP16 = 312 * 10 ^ 12, hw_INT8 = 624 * 10 ^ 12,
        hw_onchip_buffer = 27648 * 10 ^ 3, hw_vmemory = 80 * 10 ^ 9, hw_price_per_hour = 68 / 100\<rparr>),
     (''NVDA:A40S'', \<lparr>hw_bandwidth = 696 * 10 ^ 9, hw_FP16 = 1497 / 10 * 10 ^ 12, hw_INT8 = 2993 / 10 * 10 ^ 12,
        hw_onchip_buffer = 21504 * 10 ^ 3, hw_vmemory = 48 * 10 ^ 9, hw_price_per_hour = 3 / 10\<rparr>),
     (''NVDA:H100:SXM'', \<lparr>hw_bandwidth = 3072 * 10 ^ 9, hw_FP16 = 1979 * 10 ^ 12 / 2, hw_INT8 = 3958 * 10 ^ 12 / 2,
        hw_onchip_buffer = 33792 * 10 ^ 3, hw_vmemory = 80 * 10 ^ 9, hw_price_per_hour = 156 / 100\<rparr>),
     (''NVDA:H100:PCIe'', \<lparr>hw_bandwidth = 2048 * 10 ^ 9, hw_FP16 = 1513 * 10 ^ 12 / 2, hw_INT8 = 3026 * 10 ^ 12 / 2,
        hw_onchip_buffer = 29184 * 10 ^ 3, hw_vmemory = 80 * 10 ^ 9, hw_price_per_hour = 12 / 10\<rparr>),
     (''NVDA:L40S'', \<lparr>hw_bandwidth = 864 * 10 ^ 9, hw_FP16 = 181 * 10 ^ 12, hw_INT8 = 362 * 10 ^ 12,
        hw_onchip_buffer = 36352 * 10 ^ 3, hw_vmemory = 48 * 10 ^ 9, hw_price_per_hour = 44 / 100\<rparr>),
     (''NVDA:GH200'', \<lparr>hw_bandwidth = 3072 * 10 ^ 9, hw_FP16 = 1979 * 10 ^ 12 / 2, hw_INT8 = 3958 * 10 ^ 12 / 2,
        hw_onchip_buffer = 33792 * 10 ^ 3, hw_vmemory = 80 * 10 ^ 9, hw_price_per_hour = 156 / 100\<rparr>)
    ]"

definition hardware_ok :: "hardware_spec \<Rightarrow> bool" where
  "hardware_ok h \<longleftrightarrow> 0 < hw_bandwidth h \<and> 0 < hw_FP16 h \<and> hw_FP16 h \<le> hw_INT8 h \<and>
     0 < hw_onchip_buffer h \<and> 0 < hw_vmemory h \<and> 0 < hw_price_per_hour h"

lemma hardware_params_ok: "dict_get hardware_params hw = Inr h \<Longrightarrow> hardware_ok h"
proof -
  assume "dict_get hardware_params hw = Inr h"
  then have "(hw, h) \<in> set hardware_params" by (auto simp: res_simps dest: map_of_SomeD)
  moreover have "\<forall>p \<in> set hardware_params. hardware_ok (snd p)"
    by (simp add: hardware_params_def hardware_ok_def)
  ultimately show ?thesis by fastforce
qed

section \<open>Model descriptions\<close>

type_synonym model_params = "string \<Rightarrow> int option"

text \<open>\<open>getattr(o, name)\<close> and \<open>getattr(o, name, default)\<close>.\<close>

definition get_attr :: "model_params \<Rightarrow> string \<Rightarrow> int res" where
  "get_attr m a = (case m a of None \<Rightarrow> Inl (AttributeError a) | Some v \<Rightarrow> Inr v)"

definition get_attr_default :: "model_params \<Rightarrow> string \<Rightarrow> int \<Rightarrow> int" where
  "get_attr_default m a d = (case m a of None \<Rightarrow> d | Some v \<Rightarrow> v)"

lemma get_attr_eq [res_simps]:
  "get_attr m a = Inr v \<longleftrightarrow> m a = Some v"
  "get_attr m a = Inl e \<longleftrightarrow> m a = None \<and> e = AttributeError a"
  by (auto simp: get_attr_def split: option.splits)

datatype stage = Prefill | Decode

record layer_info =
  li_name :: string
  li_stage :: stage
  li_OPs :: pyfloat
  li_load_weight :: pyfloat
  li_load_act :: pyfloat
  li_store_act :: pyfloat

record post_args =
  pa_batchsize :: int
  pa_a_byte :: pyfloat
  pa_w_byte :: pyfloat

record model_config =
  mc_num_attention_heads :: "(model_params \<Rightarrow> int res) option"
  mc_head_dim :: "(model_params \<Rightarrow> int res) option"
  mc_hidden_size :: "(model_params \<Rightarrow> int res) option"
  mc_num_key_value_heads :: "(model_params \<Rightarrow> int res) option"
  mc_norm_layers :: "(model_params \<Rightarrow> string list) option"
  mc_num_hidden_layers :: "(model_params \<Rightarrow> int res) option"
  mc_intermediate_size :: "(model_params \<Rightarrow> int res) option"
  mc_vocab_size :: "(model_params \<Rightarrow> int res) option"
  mc_post_process :: "(model_params \<Rightarrow> post_args \<Rightarrow> layer_info list res) option"
  mc_linear_layers :: "(model_params \<Rightarrow> int \<Rightarrow> (string \<times> int \<times> int) list res) option"

subsection \<open>Llama\<close>

definition llama_num_attention_heads :: "model_params \<Rightarrow> int res" where
  "llama_num_attention_heads m = get_attr m ''num_attention_heads''"

definition llama_hidden_size :: "model_params \<Rightarrow> int res" where
  "llama_hidden_size m = get_attr m ''hidden_size''"

definition llama_head_dim :: "model_params \<Rightarrow> int res" where
  "llama_head_dim m =
     rbind (llama_hidden_size m) (\<lambda>h. rbind (llama_num_attention_heads m) (\<lambda>n. py_floordiv h n))"

definition llama_num_key_value_heads :: "model_params \<Rightarrow> int res" where
  "llama_num_key_value_heads m = get_attr m ''num_key_value_heads''"

definition llama_norm_layers :: "model_params \<Rightarrow> string list" where
  "llama_norm_layers m = [''attn_norm'', ''mlp_norm'']"

definition llama_num_hidden_layers :: "model_params \<Rightarrow> int res" where
  "llama_num_hidden_layers m = get_attr m ''num_hidden_layers''"

definition llama_intermediate_size :: "model_params \<Rightarrow> int res" where
  "llama_intermediate_size m = get_attr m ''intermediate_size''"

definition llama_vocab_size :: "model_params \<Rightarrow> int res" where
  "llama_vocab_size m = get_attr m ''vocab_size''"

definition llama_post_process :: "model_params \<Rightarrow> post_args \<Rightarrow> layer_info list res" where
  "llama_post_process m args =
     rbind (llama_hidden_size m) (\<lambda>hiddensize.
     rbind (llama_vocab_size m) (\<lambda>vocab_size.
     Inr (map (\<lambda>st.
       \<lparr>li_name = ''lm_head'', li_stage = st,
        li_OPs = of_int (pa_batchsize args * hiddensize * vocab_size * 1),
        li_load_weight = of_int (hiddensize * vocab_size) * pa_w_byte args,
        li_load_act = of_int hiddensize * pa_a_byte args,
        li_store_act = of_int vocab_size * pa_a_byte args\<rparr>) [Prefill, Decode])))"

definition llama_linear_layers :: "model_params \<Rightarrow> int \<Rightarrow> (string \<times> int \<times> int) list res" where
  "llama_linear_layers m tp_size =
     rbind (llama_hidden_size m) (\<lambda>hidden_size.
     rbind (llama_intermediate_size m) (\<lambda>intermediate_size.
     rbind (llama_num_key_value_heads m) (\<lambda>key_value_heads.
     rbind (llama_num_attention_heads m) (\<lambda>attention_heads.
     rbind (if tp_size > 1
            then rbind (py_assert (hidden_size mod tp_size = 0) []) (\<lambda>_.
                 rbind (py_assert (intermediate_size mod tp_size = 0) []) (\<lambda>_.
                 py_assert (key_value_heads mod tp_size = 0) []))
            else Inr ()) (\<lambda>_.
     rbind (py_floordiv hidden_size tp_size) (\<lambda>h.
     rbind (py_floordiv (hidden_size * key_value_heads) attention_heads) (\<lambda>kv.
     Inr [(''q_proj'', hidden_size, h),
          (''k_proj'', hidden_size, kv div tp_size),
          (''v_proj'', hidden_size, kv div tp_size),
          (''out_proj'', h, hidden_size),
          (''gate_proj'', hidden_size, intermediate_size div tp_size),
          (''up_proj'', hidden_size, intermediate_size div tp_size),
          (''down_proj'', intermediate_size div tp_size, hidden_size)])))))))"

definition llama :: model_config where
  "llama = \<lparr>mc_num_attention_heads = Some llama_num_attention_heads,
     mc_head_dim = Some llama_head_dim, mc_hidden_size = Some llama_hidden_size,
     mc_num_key_value_heads = Some llama_num_key_value_heads,
     mc_norm_layers = Some llama_norm_layers,
     mc_num_hidden_layers = Some llama_num_hidden_layers,
     mc_intermediate_size = Some llama_intermediate_size,
     mc_vocab_size = Some llama_vocab_size,
     mc_post_process = Some llama_post_process,
     mc_linear_layers = Some llama_linear_layers\<rparr>"

definition transformer_layer_graph :: "string list pydict" where
  "transformer_layer_graph =
    [(''input'', []), (''attn_norm'', [''input'']), (''q_proj'', [''attn_norm'']),
     (''k_proj'', [''attn_norm'']), (''v_proj'', [''attn_norm'']),
     (''fused_attention'', [''q_proj'', ''k_proj'', ''v_proj'']),
     (''out_proj'', [''fused_attention'']), (''attn_add'', [''input'', ''out_proj'']),
     (''mlp_norm'', [''attn_add'']), (''gate_proj'', [''mlp_norm'']), (''up_proj'', [''mlp_norm'']),
     (''mlp_act'', [''up_proj'', ''gate_proj'']), (''down_proj'', [''mlp_act'']),
     (''mlp_add'', [''attn_add'', ''down_proj'']), (''output'', [''mlp_add''])]"

text \<open>The layer graph is listed in a topological order, so it has no cycle.\<close>

fun topo_listed :: "string list \<Rightarrow> string list pydict \<Rightarrow> bool" where
  "topo_listed seen [] = True"
| "topo_listed seen ((n, ds) # g) =
     (n \<notin> set seen \<and> (\<forall>d \<in> set ds. d \<in> set seen) \<and> topo_listed (n # seen) g)"

lemma transformer_layer_graph_topo: "topo_listed [] transformer_layer_graph"
  by (simp add: transformer_layer_graph_def)

text \<open>Parameters of a Llama model: all sizes present and positive, as the analyses need.\<close>

definition llama_params_ok :: "model_params \<Rightarrow> bool" where
  "llama_params_ok m \<longleftrightarrow>
     (\<exists>hs is kv ah nl vs.
        m ''hidden_size'' = Some hs \<and> m ''intermediate_size'' = Some is \<and>
        m ''num_key_value_heads'' = Some kv \<and> m ''num_attention_heads'' = Some ah \<and>
        m ''num_hidden_layers'' = Some nl \<and> m ''vocab_size'' = Some vs \<and>
        0 < hs \<and> 0 < is \<and> 0 < kv \<and> 0 < ah \<and> 0 < nl \<and> 0 < vs \<and> ah \<le> hs)"

text \<open>The published sizes of \<open>meta-llama/Llama-2-7b-hf\<close>, for examples.\<close>

definition llama2_7b :: model_params where
  "llama2_7b = [''hidden_size'' \<mapsto> 4096, ''intermediate_size'' \<mapsto> 11008,
     ''num_key_value_heads'' \<mapsto> 32, ''num_attention_heads'' \<mapsto> 32,
     ''num_hidden_layers'' \<mapsto> 32, ''vocab_size'' \<mapsto> 32000]"

lemma llama2_7b_ok: "llama_params_ok llama2_7b"
  by (simp add: llama_params_ok_def llama2_7b_def)

end
