(* ===== verification/Sim_Request.thy ===== *)
theory Sim_Request
  imports Prelude
begin

text \<open>
  A generation request, \<open>simulator/core/request.py\<close>: its life cycle from arrival to the last
  generated token. The object is a record; each mutating method returns the updated record, and the
  components that share the object hold a reference into a heap of requests.
\<close>

section \<open>State and methods\<close>

datatype req_status = PENDING | SCHEDULED | PREFILL | GENERATE | EXIT

record gen_request =
  req_id :: string
  req_model :: string
  input_length :: int
  output_length :: int
  arrive_at :: pyfloat
  req_status :: req_status
  prefill_time :: "pyfloat option"
  generated_tokens :: int
  prefill_finished_at :: "pyfloat option"
  generation_finished_at :: "pyfloat option"

definition new_request :: "string \<Rightarrow> string \<Rightarrow> int \<Rightarrow> int \<Rightarrow> pyfloat \<Rightarrow> gen_request" where
  "new_request rid model inp outp t = \<lparr>req_id = rid, req_model = model, input_length = inp,
     output_length = outp, arrive_at = t, req_status = PENDING, prefill_time = None,
     generated_tokens = 0, prefill_finished_at = None, generation_finished_at = None\<rparr>"

definition set_generation_finished_at :: "pyfloat \<Rightarrow> gen_request \<Rightarrow> gen_request" where
  "set_generation_finished_at t r = r\<lparr>generation_finished_at := Some t\<rparr>"

definition set_prefill_finished_at :: "pyfloat \<Rightarrow> gen_request \<Rightarrow> gen_request" where
  "set_prefill_finished_at t r = r\<lparr>prefill_finished_at := Some t, req_status := GENERATE\<rparr>"

definition req_prefill :: "gen_request \<Rightarrow> gen_request" where
  "req_prefill r = r\<lparr>req_status := PREFILL\<rparr>"

definition req_stop :: "gen_request \<Rightarrow> gen_request" where
  "req_stop r = r\<lparr>req_status := EXIT\<rparr>"

definition req_decode :: "gen_request \<Rightarrow> bool \<times> gen_request" where
  "req_decode r =
     (let r' = r\<lparr>generated_tokens := generated_tokens r + 1\<rparr>
      in if generated_tokens r' = output_length r' then (True, req_stop r') else (False, r'))"

definition pv_opt_float :: "pyfloat option \<Rightarrow> pyval" where
  "pv_opt_float x = (case x of None \<Rightarrow> PNone | Some t \<Rightarrow> PFloat t)"

definition request_to_dict :: "gen_request \<Rightarrow> pyval pydict" where
  "request_to_dict r =
    [(''req_id'', PStr (req_id r)), (''model'', PStr (req_model r)),
     (''input_length'', PInt (input_length r)), (''output_length'', PInt (output_length r)),
     (''arrive_at'', PFloat (arrive_at r)), (''prefill_time'', pv_opt_float (prefill_time r)),
     (''generated_tokens'', PInt (generated_tokens r)),
     (''prefill_finished_at'', pv_opt_float (prefill_finished_at r)),
     (''generation_finished_at'', pv_opt_float (generation_finished_at r))]"

section \<open>Facts about single methods\<close>

lemma req_decode_frame [frame_simps]:
  "req_id (snd (req_decode r)) = req_id r"
  "req_model (snd (req_decode r)) = req_model r"
  "input_length (snd (req_decode r)) = input_length r"
  "output_length (snd (req_decode r)) = output_length r"
  "arrive_at (snd (req_decode r)) = arrive_at r"
  "prefill_finished_at (snd (req_decode r)) = prefill_finished_at r"
  "generation_finished_at (snd (req_decode r)) = generation_finished_at r"
  "generated_tokens (snd (req_decode r)) = generated_tokens r + 1"
  by (simp_all add: req_decode_def req_stop_def Let_def)

lemma req_decode_complete: "fst (req_decode r) \<longleftrightarrow> generated_tokens r + 1 = output_length r"
  by (simp add: req_decode_def Let_def)

lemma req_decode_status:
  "req_status (snd (req_decode r)) = (if fst (req_decode r) then EXIT else req_status r)"
  by (simp add: req_decode_def req_stop_def Let_def)

section \<open>The decode phase\<close>

text \<open>\<open>n\<close> decode steps of one request.\<close>

fun decode_steps :: "nat \<Rightarrow> gen_request \<Rightarrow> gen_request" where
  "decode_steps 0 r = r"
| "decode_steps (Suc n) r = decode_steps n (snd (req_decode r))"

lemma decode_steps_frame [frame_simps]:
  "output_length (decode_steps n r) = output_length r"
  "generated_tokens (decode_steps n r) = generated_tokens r + int n"
  by (induction n arbitrary: r) (simp_all add: frame_simps)

lemma decode_steps_Suc: "decode_steps (Suc n) r = snd (req_decode (decode_steps n r))"
  by (induction n arbitrary: r) simp_all

lemma decode_steps_status:
  assumes "req_status r \<noteq> EXIT"
  shows "req_status (decode_steps n r) = EXIT \<longleftrightarrow>
    generated_tokens r < output_length r \<and> output_length r \<le> generated_tokens r + int n"
proof (induction n)
  case 0
  then show ?case using assms by simp
next
  case (Suc n)
  then show ?case
    by (auto simp: decode_steps_Suc req_decode_status req_decode_complete frame_simps
        simp del: decode_steps.simps(2))
qed

section \<open>Properties\<close>

text \<open>Decoding terminates exactly for requests with tokens to produce: starting from a request
  that has not exited, \<open>n\<close> decode steps leave it in status \<open>EXIT\<close> if and only if it still had
  tokens to generate and \<open>n\<close> reaches \<open>output_length\<close>; a request whose \<open>output_length\<close> is
  not above its token count (zero, for a new one) never stops, because the test is an equality.\<close>

lemma decode_exits_iff:
  assumes "req_status r \<noteq> EXIT"
  shows "(req_status (decode_steps n r) = EXIT \<longleftrightarrow>
      generated_tokens r < output_length r \<and> output_length r \<le> generated_tokens r + int n) \<and>
    (output_length r \<le> generated_tokens r \<longrightarrow> (\<forall>k. req_status (decode_steps k r) \<noteq> EXIT))"
  using decode_steps_status [OF assms] by auto

lemma decode_exits_iff_witness:
  "req_status (decode_steps 3 (new_request ''r'' ''m'' 10 3 0)) = EXIT \<and>
   (\<forall>k. req_status (decode_steps k (new_request ''r'' ''m'' 10 0 0)) \<noteq> EXIT)"
  using decode_exits_iff [of "new_request ''r'' ''m'' 10 3 0" 3]
    decode_exits_iff [of "new_request ''r'' ''m'' 10 0 0" 0]
  by (simp add: new_request_def)

end
