(* ===== verification/Sim_Memory.thy ===== *)
theory Sim_Memory
  imports Sim_Config Sim_Request
begin

text \<open>
  The KV-cache planner of \<open>simulator/core/memory.py\<close>. The planner's methods read two
  attributes, \<open>_tp_size\<close> and \<open>_block_memory_size_per_shard\<close>, that no code assigns; they
  are optional fields here (an object may be given them from outside), and reading a missing one
  raises \<open>AttributeError\<close>. Printing is not modelled.
\<close>

section \<open>State\<close>

record memory_planner =
  mp_model_params :: model_params
  mp_parallel_config :: parallel_config
  mp_hardware :: hardware_spec
  mp_gpu_utilization :: pyfloat
  mp_w_bit :: int
  mp_a_bit :: int
  mp_kv_bit :: int
  mp_block_size :: int
  mp_allocated_blocks :: int
  mp_allocation_map :: "int pydict"
  mp_config :: "model_config option"
  mp_max_num_blocks :: int
  mp_tp_size :: "int option"
  mp_block_memory_size_per_shard :: "pyfloat option"

definition mp_attr :: "string \<Rightarrow> 'a option \<Rightarrow> 'a res" where
  "mp_attr a v = (case v of None \<Rightarrow> Inl (AttributeError a) | Some x \<Rightarrow> Inr x)"

lemma mp_attr_eq [res_simps]:
  "mp_attr a v = Inr x \<longleftrightarrow> v = Some x" "mp_attr a v = Inl e \<longleftrightarrow> v = None \<and> e = AttributeError a"
  by (auto simp: mp_attr_def split: option.splits)

lemma mp_attr_Some [simp]: "mp_attr a (Some x) = Inr x"
  by (simp add: mp_attr_def)

section \<open>Model sizes\<close>

text \<open>\<open>if self._config and hasattr(self._config, f): return self._config.f(self.model_params)\<close>,
  else the fallback.\<close>

definition config_or ::
  "(model_config \<Rightarrow> (model_params \<Rightarrow> int res) option) \<Rightarrow> memory_planner \<Rightarrow> int res \<Rightarrow> int res" where
  "config_or f p fallback =
     (case mp_config p of
        None \<Rightarrow> fallback
      | Some c \<Rightarrow> (case f c of None \<Rightarrow> fallback | Some g \<Rightarrow> g (mp_model_params p)))"

definition mp_hidden_size :: "memory_planner \<Rightarrow> int res" where
  "mp_hidden_size p = config_or mc_hidden_size p (Inr (get_attr_default (mp_model_params p) ''hidden_size'' 0))"

definition mp_num_attention_heads :: "memory_planner \<Rightarrow> int res" where
  "mp_num_attention_heads p =
     config_or mc_num_attention_heads p (Inr (get_attr_default (mp_model_params p) ''num_attention_heads'' 1))"

definition mp_num_key_value_heads :: "memory_planner \<Rightarrow> int res" where
  "mp_num_key_value_heads p =
     config_or mc_num_key_value_heads p
       (rbind (mp_num_attention_heads p) (\<lambda>n.
          Inr (get_attr_default (mp_model_params p) ''num_key_value_heads'' n)))"

definition mp_head_dim :: "memory_planner \<Rightarrow> int res" where
  "mp_head_dim p =
     config_or mc_head_dim p
       (rbind (mp_num_attention_heads p) (\<lambda>n.
        rbind (mp_hidden_size p) (\<lambda>h. Inr (h div max 1 n))))"

definition mp_num_hidden_layers :: "memory_planner \<Rightarrow> int res" where
  "mp_num_hidden_layers p =
     config_or mc_num_hidden_layers p (Inr (get_attr_default (mp_model_params p) ''num_hidden_layers'' 1))"

definition mp_intermediate_size :: "memory_planner \<Rightarrow> int res" where
  "mp_intermediate_size p =
     config_or mc_intermediate_size p
       (rbind (mp_hidden_size p) (\<lambda>h.
          Inr (get_attr_default (mp_model_params p) ''intermediate_size'' (h * 4))))"

definition mp_vocab_size :: "memory_planner \<Rightarrow> int res" where
  "mp_vocab_size p = config_or mc_vocab_size p (Inr (get_attr_default (mp_model_params p) ''vocab_size'' 0))"

definition get_weights_memory :: "memory_planner \<Rightarrow> pyfloat res" where
  "get_weights_memory p =
     rbind (mp_hidden_size p) (\<lambda>h.
     rbind (mp_intermediate_size p) (\<lambda>i.
     rbind (mp_num_attention_heads p) (\<lambda>ah.
     rbind (mp_head_dim p) (\<lambda>hd.
     rbind (mp_num_key_value_heads p) (\<lambda>kv.
     rbind (mp_vocab_size p) (\<lambda>v.
     rbind (mp_num_hidden_layers p) (\<lambda>nl.
       let w = mp_w_bit p;
           mlp_weights = of_int (3 * h * i * w) / 8;
           q_weights = h * ah * hd;
           kv_weights = 2 * h * hd * kv;
           o_weights = h * ah * hd;
           self_attn_weights = of_int ((q_weights + kv_weights + o_weights) * w) / 8;
           lm_head_weights = of_int (h * v * w) / 8;
           embedding_weights = of_int (h * v * w) / 8
       in Inr ((mlp_weights + self_attn_weights) * of_int nl + lm_head_weights + embedding_weights))))))))"

definition get_weights_memory_per_shard :: "memory_planner \<Rightarrow> pyfloat res" where
  "get_weights_memory_per_shard p =
     rbind (mp_attr ''_tp_size'' (mp_tp_size p)) (\<lambda>tp.
       if tp = 0 then get_weights_memory p
       else rbind (get_weights_memory p) (\<lambda>w. Inr (w / of_int tp)))"

definition calculate_model_memory :: "memory_planner \<Rightarrow> pyfloat res" where
  "calculate_model_memory p = get_weights_memory p"

definition calculate_block_memory_size_per_shard :: "memory_planner \<Rightarrow> pyfloat res" where
  "calculate_block_memory_size_per_shard p =
     rbind (mp_num_key_value_heads p) (\<lambda>kv.
     rbind (mp_attr ''_tp_size'' (mp_tp_size p)) (\<lambda>tp.
     rbind (py_div (of_int kv) (of_int tp)) (\<lambda>q.
     rbind (mp_head_dim p) (\<lambda>hd.
     rbind (mp_num_hidden_layers p) (\<lambda>nl.
       let heads_per_shard = max 1 \<lceil>q\<rceil>;
           bytes_per_element = of_int (mp_kv_bit p) / 8;
           per_layer = of_int (2 * mp_block_size p * heads_per_shard * hd) * bytes_per_element
       in Inr (per_layer * of_int nl))))))"

text \<open>With the Llama description every size is an attribute of the model parameters.\<close>

lemmas llama_size_defs = config_or_def llama_def
  mp_hidden_size_def mp_intermediate_size_def mp_num_attention_heads_def mp_head_dim_def
  mp_num_key_value_heads_def mp_vocab_size_def mp_num_hidden_layers_def llama_hidden_size_def
  llama_intermediate_size_def llama_num_attention_heads_def llama_head_dim_def
  llama_num_key_value_heads_def llama_vocab_size_def llama_num_hidden_layers_def

lemma llama_weights_memory:
  assumes "mp_config p = Some llama" "llama_params_ok (mp_model_params p)"
  shows "\<exists>w. get_weights_memory p = Inr w"
proof -
  from assms(2) obtain hs im kv ah nl vs where
    m: "mp_model_params p ''hidden_size'' = Some hs" "mp_model_params p ''intermediate_size'' = Some im"
      "mp_model_params p ''num_key_value_heads'' = Some kv" "mp_model_params p ''num_attention_heads'' = Some ah"
      "mp_model_params p ''num_hidden_layers'' = Some nl" "mp_model_params p ''vocab_size'' = Some vs"
    and pos: "0 < ah"
    unfolding llama_params_ok_def by blast
  have "mp_hidden_size p = Inr hs" "mp_intermediate_size p = Inr im" "mp_num_key_value_heads p = Inr kv"
    "mp_num_attention_heads p = Inr ah" "mp_num_hidden_layers p = Inr nl" "mp_vocab_size p = Inr vs"
    "mp_head_dim p = Inr (hs div ah)"
    using assms(1) m pos by (simp_all add: llama_size_defs get_attr_def py_floordiv_def)
  then show ?thesis by (simp add: get_weights_memory_def Let_def)
qed

section \<open>Capacity and construction\<close>

definition get_max_num_blocks :: "memory_planner \<Rightarrow> int res" where
  "get_max_num_blocks p =
     (let per_shard_memory = hw_vmemory (mp_hardware p) in
      rbind (get_weights_memory p) (\<lambda>w_total.
      rbind (mp_attr ''_tp_size'' (mp_tp_size p)) (\<lambda>tp.
      let w = (if tp \<noteq> 0 then w_total / of_int tp else w_total) in
      if per_shard_memory \<le> w then Inr 0
      else rbind (mp_attr ''_block_memory_size_per_shard'' (mp_block_memory_size_per_shard p)) (\<lambda>bs.
        if bs \<le> 0 then Inr 0
        else let available = per_shard_memory - w
             in if available \<le> 0 then Inr 0 else Inr (max 0 \<lfloor>available / bs\<rfloor>)))))"

definition new_planner ::
  "model_params \<Rightarrow> model_config option \<Rightarrow> hardware_spec \<Rightarrow> int \<Rightarrow> int \<Rightarrow> int \<Rightarrow> pyfloat \<Rightarrow>
   parallel_arg \<Rightarrow> int \<Rightarrow> memory_planner res" where
  "new_planner params config hw w_bit a_bit kv_bit gpu_utilization pc block_size =
     rbind (normalize_parallel_config pc) (\<lambda>pc'.
       let p = \<lparr>mp_model_params = params, mp_parallel_config = pc', mp_hardware = hw,
                mp_gpu_utilization = gpu_utilization, mp_w_bit = w_bit, mp_a_bit = a_bit,
                mp_kv_bit = kv_bit, mp_block_size = block_size, mp_allocated_blocks = 0,
                mp_allocation_map = [], mp_config = config, mp_max_num_blocks = 0,
                mp_tp_size = None, mp_block_memory_size_per_shard = None\<rparr>
       in if config \<noteq> None
          then rbind (get_max_num_blocks p) (\<lambda>n. Inr (p\<lparr>mp_max_num_blocks := n\<rparr>))
          else Inl (ValueError ''Model config is required for memory planning''))"

section \<open>Allocation\<close>

definition estimate_required_blocks :: "memory_planner \<Rightarrow> gen_request \<Rightarrow> int res" where
  "estimate_required_blocks p r =
     (case map_of (mp_allocation_map p) (req_id r) of
        None \<Rightarrow> rbind (py_div (of_int (input_length r)) (of_int (mp_block_size p))) (\<lambda>q. Inr \<lceil>q\<rceil>)
      | Some blocks \<Rightarrow>
          let reserved = blocks * mp_block_size p;
              required = max 0 (generated_tokens r - reserved)
          in Inr (if required = 0 then 0 else 1))"

definition alloc_limit :: "memory_planner \<Rightarrow> int" where
  "alloc_limit p = \<lfloor>of_int (mp_max_num_blocks p) * (95 / 100 :: real)\<rfloor>"

definition can_allocate_request :: "memory_planner \<Rightarrow> gen_request \<Rightarrow> bool res" where
  "can_allocate_request p r =
     (if mp_max_num_blocks p = 0 then Inr False
      else rbind (estimate_required_blocks p r) (\<lambda>n.
        if n = 0 then Inr True
        else if alloc_limit p \<le> 0 then Inr False
        else Inr (mp_allocated_blocks p + n \<le> alloc_limit p)))"

definition allocate_blocks :: "string \<Rightarrow> int \<Rightarrow> memory_planner \<Rightarrow> memory_planner res" where
  "allocate_blocks rid n p =
     (if n = 0 then Inr p
      else let p' = p\<lparr>mp_allocated_blocks := mp_allocated_blocks p + n,
             mp_allocation_map := dict_set rid (dict_get_default (mp_allocation_map p) rid 0 + n)
               (mp_allocation_map p)\<rparr>
           in rbind (py_assert (mp_allocated_blocks p' \<le> mp_max_num_blocks p') ''Exceeding memory limit'')
                (\<lambda>_. Inr p'))"

definition mp_allocate :: "gen_request \<Rightarrow> memory_planner \<Rightarrow> memory_planner res" where
  "mp_allocate r p =
     rbind (estimate_required_blocks p r) (\<lambda>n.
       if n = 0 then Inr p else allocate_blocks (req_id r) n p)"

fun free_loop :: "string list \<Rightarrow> memory_planner \<Rightarrow> memory_planner" where
  "free_loop [] p = p"
| "free_loop (rid # rids) p =
     free_loop rids
       (p\<lparr>mp_allocation_map := dict_del rid (mp_allocation_map p),
          mp_allocated_blocks :=
            mp_allocated_blocks p - dict_get_default (mp_allocation_map p) rid 0\<rparr>)"

definition mp_free :: "string list \<Rightarrow> memory_planner \<Rightarrow> memory_planner res" where
  "mp_free rids p =
     (let p' = free_loop rids p
      in rbind (py_assert (0 \<le> mp_allocated_blocks p') ''Negative allocated blocks'') (\<lambda>_. Inr p'))"

definition mp_usage :: "memory_planner \<Rightarrow> int \<times> int" where
  "mp_usage p = (mp_allocated_blocks p, mp_max_num_blocks p)"

definition has_allocation :: "memory_planner \<Rightarrow> string \<Rightarrow> bool" where
  "has_allocation p rid \<longleftrightarrow> dict_has (mp_allocation_map p) rid"

definition get_allocated_block_count :: "memory_planner \<Rightarrow> int" where
  "get_allocated_block_count p = mp_allocated_blocks p"

definition get_max_block_count :: "memory_planner \<Rightarrow> int" where
  "get_max_block_count p = mp_max_num_blocks p"

definition get_allocated_kv_memory_per_shard :: "memory_planner \<Rightarrow> pyfloat res" where
  "get_allocated_kv_memory_per_shard p =
     rbind (mp_attr ''_block_memory_size_per_shard'' (mp_block_memory_size_per_shard p)) (\<lambda>bs.
       Inr (of_int (mp_allocated_blocks p) * bs))"

definition get_total_kv_memory_capacity_per_shard :: "memory_planner \<Rightarrow> pyfloat res" where
  "get_total_kv_memory_capacity_per_shard p =
     rbind (mp_attr ''_block_memory_size_per_shard'' (mp_block_memory_size_per_shard p)) (\<lambda>bs.
       Inr (of_int (mp_max_num_blocks p) * bs))"

definition estimate_additional_kv_memory_per_shard :: "memory_planner \<Rightarrow> gen_request \<Rightarrow> pyfloat res" where
  "estimate_additional_kv_memory_per_shard p r =
     rbind (estimate_required_blocks p r) (\<lambda>n.
     rbind (mp_attr ''_block_memory_size_per_shard'' (mp_block_memory_size_per_shard p)) (\<lambda>bs.
       Inr (of_int n * bs)))"

section \<open>The invariant of the planner\<close>

definition planner_inv :: "memory_planner \<Rightarrow> bool" where
  "planner_inv p \<longleftrightarrow>
     0 < mp_block_size p \<and> distinct (map fst (mp_allocation_map p)) \<and>
     (\<forall>x \<in> set (mp_allocation_map p). 0 < snd x) \<and>
     mp_allocated_blocks p = sum_list (map snd (mp_allocation_map p)) \<and>
     mp_allocated_blocks p \<le> mp_max_num_blocks p"

lemma planner_inv_nonneg: "planner_inv p \<Longrightarrow> 0 \<le> mp_allocated_blocks p"
  unfolding planner_inv_def by (metis (no_types, lifting) sum_list_nonneg imageE less_imp_le list.set_map)

lemma estimate_required_blocks_eq:
  assumes "0 < mp_block_size p" "0 \<le> input_length r"
  shows "\<exists>n \<ge> 0. estimate_required_blocks p r = Inr n"
proof -
  have "0 \<le> \<lceil>of_int (input_length r) / (of_int (mp_block_size p) :: real)\<rceil>"
    using assms by (simp add: zero_le_ceiling order_less_le_trans [of "- 1" 0])
  then show ?thesis
    using assms(1) by (auto simp: estimate_required_blocks_def Let_def split: option.splits)
qed

lemma set_update_snd_pos:
  "\<forall>x \<in> set d. 0 < snd x \<Longrightarrow> 0 < v \<Longrightarrow> \<forall>x \<in> set (AList.update k v d). (0::int) < snd x"
  by (induction d) auto

lemma dict_get_default_pos:
  "\<forall>x \<in> set d. 0 < snd x \<Longrightarrow> 0 \<le> dict_get_default d k (0::int)"
  by (auto simp: dict_get_default_def split: option.splits dest!: map_of_SomeD)

lemma allocate_blocks_inv:
  assumes "planner_inv p" "0 \<le> n" "allocate_blocks rid n p = Inr p'"
  shows "planner_inv p'"
proof (cases "n = 0")
  case False
  with assms have p': "p' = p\<lparr>mp_allocated_blocks := mp_allocated_blocks p + n,
       mp_allocation_map := dict_set rid (dict_get_default (mp_allocation_map p) rid 0 + n)
         (mp_allocation_map p)\<rparr>"
    and le: "mp_allocated_blocks p + n \<le> mp_max_num_blocks p"
    by (auto simp: allocate_blocks_def res_simps Let_def)
  have pos: "0 < dict_get_default (mp_allocation_map p) rid 0 + n"
    using dict_get_default_pos [of "mp_allocation_map p" rid] assms(1,2) False
    by (simp add: planner_inv_def)
  show ?thesis
    using assms(1) le pos set_update_snd_pos [OF _ pos, of "mp_allocation_map p" rid]
    unfolding p' planner_inv_def
    by (simp add: distinct_update sum_list_update_dict dict_get_default_def split: option.splits)
qed (use assms in \<open>simp add: allocate_blocks_def\<close>)

lemma mp_allocate_inv:
  assumes "planner_inv p" "0 \<le> input_length r" "mp_allocate r p = Inr p'"
  shows "planner_inv p'"
proof -
  obtain n where n: "0 \<le> n" "estimate_required_blocks p r = Inr n"
    using estimate_required_blocks_eq assms(1,2) by (metis planner_inv_def)
  with assms show ?thesis
    by (auto simp: mp_allocate_def split: if_splits intro: allocate_blocks_inv)
qed

lemma planner_frame_allocate:
  assumes "mp_allocate r p = Inr p'"
  shows "mp_block_size p' = mp_block_size p" "mp_max_num_blocks p' = mp_max_num_blocks p"
    "mp_tp_size p' = mp_tp_size p" "mp_block_memory_size_per_shard p' = mp_block_memory_size_per_shard p"
    "mp_hardware p' = mp_hardware p"
  using assms by (auto simp: mp_allocate_def allocate_blocks_def Let_def res_simps split: if_splits)

lemma free_loop_frame [frame_simps]:
  "mp_block_size (free_loop rids p) = mp_block_size p"
  "mp_max_num_blocks (free_loop rids p) = mp_max_num_blocks p"
  "mp_tp_size (free_loop rids p) = mp_tp_size p"
  "mp_block_memory_size_per_shard (free_loop rids p) = mp_block_memory_size_per_shard p"
  by (induction rids arbitrary: p) simp_all

lemma free_loop_inv: "planner_inv p \<Longrightarrow> planner_inv (free_loop rids p)"
proof (induction rids arbitrary: p)
  case (Cons rid rids)
  let ?p = "p\<lparr>mp_allocation_map := dict_del rid (mp_allocation_map p),
          mp_allocated_blocks :=
            mp_allocated_blocks p - dict_get_default (mp_allocation_map p) rid 0\<rparr>"
  have "planner_inv ?p"
    using Cons.prems sum_list_delete_dict [of "mp_allocation_map p" rid]
      dict_get_default_pos [of "mp_allocation_map p" rid] set_dict_del [of rid "mp_allocation_map p"]
    unfolding planner_inv_def
    by (auto simp: distinct_delete dict_get_default_def split: option.splits)
  then show ?case using Cons.IH by simp
qed simp

lemma free_loop_map:
  "map_of (mp_allocation_map (free_loop rids p)) k =
     (if k \<in> set rids then None else map_of (mp_allocation_map p) k)"
proof (induction rids arbitrary: p)
  case (Cons rid rids)
  then show ?case by (auto simp: delete_conv)
qed simp

lemma mp_free_total: "planner_inv p \<Longrightarrow> mp_free rids p = Inr (free_loop rids p)"
  using planner_inv_nonneg [OF free_loop_inv [of p rids]]
  by (simp add: mp_free_def Let_def py_assert_def)

lemma can_allocate_allocates:
  assumes "planner_inv p" "0 \<le> input_length r" "can_allocate_request p r = Inr True"
  shows "\<exists>p'. mp_allocate r p = Inr p' \<and>
    mp_allocated_blocks p' \<le> max (mp_allocated_blocks p) (alloc_limit p)"
proof -
  obtain n where n: "0 \<le> n" "estimate_required_blocks p r = Inr n"
    using estimate_required_blocks_eq assms(1,2) by (metis planner_inv_def)
  show ?thesis
  proof (cases "n = 0")
    case True
    with n show ?thesis by (simp add: mp_allocate_def)
  next
    case False
    with n assms(3) have lim: "0 < alloc_limit p" and le: "mp_allocated_blocks p + n \<le> alloc_limit p"
      by (auto simp: can_allocate_request_def split: if_splits)
    have "0 < mp_max_num_blocks p" using lim unfolding alloc_limit_def by linarith
    then have "alloc_limit p \<le> mp_max_num_blocks p" unfolding alloc_limit_def by linarith
    with n False le show ?thesis
      by (auto simp: mp_allocate_def allocate_blocks_def Let_def py_assert_def)
  qed
qed

section \<open>The pool of KV blocks as its clients see it\<close>

datatype pool_op = Allocate gen_request | Free "string list"

locale kv_pool =
  fixes alloc :: "gen_request \<Rightarrow> 'p \<Rightarrow> 'p res"
    and release :: "string list \<Rightarrow> 'p \<Rightarrow> 'p res"
    and admits :: "'p \<Rightarrow> gen_request \<Rightarrow> bool res"
    and used :: "'p \<Rightarrow> int"
    and capacity :: "'p \<Rightarrow> int"
    and invar :: "'p \<Rightarrow> bool"
  assumes alloc_invar: "invar p \<Longrightarrow> 0 \<le> input_length r \<Longrightarrow> alloc r p = Inr p' \<Longrightarrow> invar p'"
    and alloc_capacity: "alloc r p = Inr p' \<Longrightarrow> capacity p' = capacity p"
    and alloc_admitted: "invar p \<Longrightarrow> 0 \<le> input_length r \<Longrightarrow> admits p r = Inr True \<Longrightarrow>
      \<exists>p'. alloc r p = Inr p'"
    and release_total: "invar p \<Longrightarrow> \<exists>p'. release ids p = Inr p'"
    and release_invar: "invar p \<Longrightarrow> release ids p = Inr p' \<Longrightarrow> invar p'"
    and release_capacity: "release ids p = Inr p' \<Longrightarrow> capacity p' = capacity p"
    and within: "invar p \<Longrightarrow> 0 \<le> used p \<and> used p \<le> capacity p"
begin

fun pool_do :: "pool_op \<Rightarrow> 'p \<Rightarrow> 'p res" where
  "pool_do (Allocate r) p = alloc r p"
| "pool_do (Free ids) p = release ids p"

lemma run_invar:
  assumes "for_res pool_do ops p = Inr p'" "invar p" "\<And>r. Allocate r \<in> set ops \<Longrightarrow> 0 \<le> input_length r"
  shows "invar p' \<and> capacity p' = capacity p"
proof -
  have "(\<lambda>q. invar q \<and> capacity q = capacity p) p'"
  proof (rule for_res_invariant [where P = "\<lambda>q. invar q \<and> capacity q = capacity p", OF assms(1)])
    show "invar p \<and> capacity p = capacity p" using assms(2) by simp
    fix x s s' assume x: "x \<in> set ops" "invar s \<and> capacity s = capacity p" "pool_do x s = Inr s'"
    show "invar s' \<and> capacity s' = capacity p"
    proof (cases x)
      case (Allocate r)
      then show ?thesis using x assms(3) alloc_invar [of s r s'] alloc_capacity [of r s s'] by simp
    next
      case (Free ids)
      then show ?thesis using x release_invar [of s ids s'] release_capacity [of ids s s'] by simp
    qed
  qed
  then show ?thesis by simp
qed

lemma run_within:
  assumes "for_res pool_do ops p = Inr p'" "invar p" "\<And>r. Allocate r \<in> set ops \<Longrightarrow> 0 \<le> input_length r"
  shows "0 \<le> used p' \<and> used p' \<le> capacity p"
  using run_invar [OF assms] within by metis

end

definition planner_do :: "pool_op \<Rightarrow> memory_planner \<Rightarrow> memory_planner res" where
  "planner_do op p = (case op of Allocate r \<Rightarrow> mp_allocate r p | Free ids \<Rightarrow> mp_free ids p)"

interpretation planner_pool: kv_pool mp_allocate mp_free can_allocate_request
    get_allocated_block_count get_max_block_count planner_inv
proof
  fix p p' :: memory_planner and r ids
  show "planner_inv p \<Longrightarrow> 0 \<le> input_length r \<Longrightarrow> mp_allocate r p = Inr p' \<Longrightarrow> planner_inv p'"
    by (rule mp_allocate_inv)
  show "mp_allocate r p = Inr p' \<Longrightarrow> get_max_block_count p' = get_max_block_count p"
    by (simp add: get_max_block_count_def planner_frame_allocate)
  show "planner_inv p \<Longrightarrow> 0 \<le> input_length r \<Longrightarrow> can_allocate_request p r = Inr True \<Longrightarrow>
      \<exists>p'. mp_allocate r p = Inr p'"
    using can_allocate_allocates by blast
  show "planner_inv p \<Longrightarrow> \<exists>p'. mp_free ids p = Inr p'" by (simp add: mp_free_total)
  show "planner_inv p \<Longrightarrow> mp_free ids p = Inr p' \<Longrightarrow> planner_inv p'"
    using free_loop_inv by (auto simp: mp_free_total)
  show "mp_free ids p = Inr p' \<Longrightarrow> get_max_block_count p' = get_max_block_count p"
    by (auto simp: mp_free_def Let_def res_simps get_max_block_count_def frame_simps)
  show "planner_inv p \<Longrightarrow> 0 \<le> get_allocated_block_count p \<and>
      get_allocated_block_count p \<le> get_max_block_count p"
    using planner_inv_nonneg
    by (auto simp: get_allocated_block_count_def get_max_block_count_def planner_inv_def)
qed

lemma planner_pool_do: "planner_pool.pool_do = planner_do"
  by (intro ext, rename_tac op p, case_tac op) (simp_all add: planner_do_def)

section \<open>Properties\<close>

text \<open>A planner object with a capacity, given the attributes the constructor forgets; used by the
  examples below.\<close>

definition sample_planner :: "int \<Rightarrow> memory_planner" where
  "sample_planner n = \<lparr>mp_model_params = llama2_7b, mp_parallel_config = default_parallel_config,
     mp_hardware = \<lparr>hw_bandwidth = 1555 * 10 ^ 9, hw_FP16 = 312 * 10 ^ 12, hw_INT8 = 624 * 10 ^ 12,
       hw_onchip_buffer = 27648 * 10 ^ 3, hw_vmemory = 40 * 10 ^ 9, hw_price_per_hour = 65 / 100\<rparr>,
     mp_gpu_utilization = 9 / 10, mp_w_bit = 16, mp_a_bit = 16, mp_kv_bit = 16, mp_block_size = 16,
     mp_allocated_blocks = 0, mp_allocation_map = [], mp_config = Some llama, mp_max_num_blocks = n,
     mp_tp_size = Some 1, mp_block_memory_size_per_shard = Some (8 * 2 ^ 20)\<rparr>"

lemma sample_planner_inv: "0 \<le> n \<Longrightarrow> planner_inv (sample_planner n)"
  by (simp add: planner_inv_def sample_planner_def)

text \<open>C19: Whatever sequence of successful allocations and frees a planner goes through, the block
  count equals the sum of the blocks recorded per request, every recorded count is positive, the
  count is never negative and never above the capacity, and the capacity does not change.\<close>

theorem planner_accounting:
  assumes "planner_inv p" and "\<forall>r. Allocate r \<in> set ops \<longrightarrow> 0 \<le> input_length r"
    and "for_res planner_do ops p = Inr p'"
  shows "planner_inv p' \<and> mp_max_num_blocks p' = mp_max_num_blocks p \<and>
    mp_allocated_blocks p' = sum_list (map snd (mp_allocation_map p')) \<and>
    0 \<le> mp_allocated_blocks p' \<and> mp_allocated_blocks p' \<le> mp_max_num_blocks p"
proof -
  have run: "for_res planner_pool.pool_do ops p = Inr p'" using assms(3) by (simp add: planner_pool_do)
  from planner_pool.run_invar [OF run assms(1)] planner_pool.run_within [OF run assms(1)] assms(2)
  show ?thesis
    by (auto simp: get_allocated_block_count_def get_max_block_count_def planner_inv_def)
qed

theorem planner_accounting_witness:
  "\<exists>p'. for_res planner_do [Allocate (new_request ''a'' ''m'' 40 8 0), Allocate (new_request ''b'' ''m'' 16 8 0),
      Free [''a'']] (sample_planner 100) = Inr p' \<and> planner_inv p' \<and> mp_allocated_blocks p' = 1"
proof -
  let ?ops = "[Allocate (new_request ''a'' ''m'' 40 8 0), Allocate (new_request ''b'' ''m'' 16 8 0), Free [''a'']]"
  obtain p' where run: "for_res planner_do ?ops (sample_planner 100) = Inr p'"
    and m: "mp_allocation_map p' = [(''b'', 1)]"
    by (simp add: planner_do_def mp_allocate_def estimate_required_blocks_def sample_planner_def
        new_request_def allocate_blocks_def Let_def py_assert_def mp_free_def dict_get_default_def
        AList.delete_eq)
  have "\<forall>r. Allocate r \<in> set ?ops \<longrightarrow> 0 \<le> input_length r" by (simp add: new_request_def)
  then have "planner_inv p' \<and> mp_allocated_blocks p' = sum_list (map snd (mp_allocation_map p'))"
    using planner_accounting [OF sample_planner_inv _ run] by simp
  with run m show ?thesis by simp
qed

text \<open>Admission control is sound: when \<open>can_allocate_request\<close> answers yes, the allocation that
  follows does not raise, keeps the planner's invariant, and leaves at least five percent of the
  capacity unused unless nothing was allocated.\<close>

theorem can_allocate_request_sound:
  assumes "planner_inv p" "0 \<le> input_length r" "can_allocate_request p r = Inr True"
  shows "\<exists>p'. mp_allocate r p = Inr p' \<and> planner_inv p' \<and>
    (p' = p \<or> 100 * mp_allocated_blocks p' \<le> 95 * mp_max_num_blocks p)"
proof -
  from can_allocate_allocates [OF assms] obtain p' where p': "mp_allocate r p = Inr p'" by blast
  then have inv: "planner_inv p'" using assms mp_allocate_inv by blast
  have "100 * mp_allocated_blocks p' \<le> 95 * mp_max_num_blocks p" if "p' \<noteq> p"
  proof -
    from p' that obtain n where n: "estimate_required_blocks p r = Inr n" "n \<noteq> 0"
      and a: "mp_allocated_blocks p' = mp_allocated_blocks p + n"
      by (auto simp: mp_allocate_def allocate_blocks_def Let_def res_simps split: if_splits)
    with assms(3) have "mp_allocated_blocks p' \<le> alloc_limit p"
      by (auto simp: can_allocate_request_def split: if_splits)
    then have "real_of_int (mp_allocated_blocks p') \<le> of_int (mp_max_num_blocks p) * (95 / 100)"
      unfolding alloc_limit_def by (simp add: le_floor_iff)
    then show ?thesis by linarith
  qed
  with p' inv show ?thesis by blast
qed

theorem can_allocate_request_sound_witness:
  "\<exists>p'. mp_allocate (new_request ''a'' ''m'' 1500 8 0) (sample_planner 100) = Inr p' \<and>
    100 * mp_allocated_blocks p' \<le> 95 * 100 \<and> mp_allocated_blocks p' = 94"
proof -
  let ?r = "new_request ''a'' ''m'' 1500 8 0"
  have "can_allocate_request (sample_planner 100) ?r = Inr True"
    by (simp add: can_allocate_request_def estimate_required_blocks_def sample_planner_def
        new_request_def alloc_limit_def)
  then obtain p' where p': "mp_allocate ?r (sample_planner 100) = Inr p'"
    and c: "p' = sample_planner 100 \<or> 100 * mp_allocated_blocks p' \<le> 95 * mp_max_num_blocks (sample_planner 100)"
    using can_allocate_request_sound [of "sample_planner 100" ?r] sample_planner_inv
    by (auto simp: new_request_def)
  have "mp_allocated_blocks p' = 94"
    using p' by (auto simp: mp_allocate_def estimate_required_blocks_def sample_planner_def
        new_request_def allocate_blocks_def Let_def py_assert_def)
  with p' c show ?thesis by (auto simp: sample_planner_def)
qed

text \<open>Freeing is total and exact: on a well-formed planner \<open>free\<close> never raises, the freed
  requests hold nothing afterwards, the others keep their blocks, and the count drops by what the
  freed requests held. Allocating for a new request and freeing it again restores the planner's
  count and every request's holdings.\<close>

theorem mp_free_exact:
  assumes "planner_inv p"
  shows "\<exists>p'. mp_free rids p = Inr p' \<and> planner_inv p' \<and>
    (\<forall>k. map_of (mp_allocation_map p') k = (if k \<in> set rids then None else map_of (mp_allocation_map p) k)) \<and>
    (\<forall>r q. \<not> has_allocation p (req_id r) \<longrightarrow> 0 \<le> input_length r \<longrightarrow> mp_allocate r p = Inr q \<longrightarrow>
      (\<exists>p''. mp_free [req_id r] q = Inr p'' \<and> mp_allocated_blocks p'' = mp_allocated_blocks p \<and>
        map_of (mp_allocation_map p'') = map_of (mp_allocation_map p)))"
proof -
  have "\<exists>p''. mp_free [req_id r] q = Inr p'' \<and> mp_allocated_blocks p'' = mp_allocated_blocks p \<and>
        map_of (mp_allocation_map p'') = map_of (mp_allocation_map p)"
    if h: "\<not> has_allocation p (req_id r)" "0 \<le> input_length r" "mp_allocate r p = Inr q" for r q
  proof -
    let ?q = "free_loop [req_id r] q"
    have q: "mp_free [req_id r] q = Inr ?q" using mp_free_total mp_allocate_inv assms h by blast
    have none: "map_of (mp_allocation_map p) (req_id r) = None" using h(1) by (simp add: has_allocation_def)
    have alloc: "mp_allocated_blocks q = mp_allocated_blocks p + dict_get_default (mp_allocation_map q) (req_id r) 0 \<and>
        (\<forall>k. k \<noteq> req_id r \<longrightarrow> map_of (mp_allocation_map q) k = map_of (mp_allocation_map p) k)"
      using h(3) none
      by (auto simp: mp_allocate_def allocate_blocks_def Let_def res_simps dict_get_default_def
          update_conv split: if_splits)
    have "map_of (mp_allocation_map ?q) = map_of (mp_allocation_map p)"
      using alloc none by (auto simp: free_loop_map fun_eq_iff simp del: free_loop.simps)
    with q alloc show ?thesis by auto
  qed
  then show ?thesis
    using mp_free_total [OF assms] free_loop_inv [OF assms] free_loop_map by blast
qed

theorem mp_free_exact_witness:
  "\<exists>p'. mp_free [''a''] (sample_planner 100) = Inr p' \<and> planner_inv p'"
  using mp_free_exact [OF sample_planner_inv [of 100], of "[''a'']"] by auto

text \<open>The planner cannot be constructed: with no model description the constructor raises
  \<open>ValueError\<close>, and with one it raises before it has computed the number of blocks, because it
  reads the attribute \<open>_tp_size\<close> that is never assigned. For every description whose sizes can
  be read the exception is that \<open>AttributeError\<close>.\<close>

lemma new_planner_raises:
  "(\<exists>e. new_planner params config hw w_bit a_bit kv_bit util pc block_size = Inl e) \<and>
   (\<forall>pc'. normalize_parallel_config pc = Inr pc' \<longrightarrow>
      new_planner params None hw w_bit a_bit kv_bit util pc block_size =
        Inl (ValueError ''Model config is required for memory planning'')) \<and>
   (llama_params_ok params \<longrightarrow> (\<forall>pc'. normalize_parallel_config pc = Inr pc' \<longrightarrow>
      new_planner params (Some llama) hw w_bit a_bit kv_bit util pc block_size =
        Inl (AttributeError ''_tp_size'')))"
proof -
  have none: "\<exists>e. get_max_num_blocks p = Inl e" if "mp_tp_size p = None" for p
    using that by (cases "get_weights_memory p") (auto simp: get_max_num_blocks_def Let_def mp_attr_def)
  have llama: "get_max_num_blocks p = Inl (AttributeError ''_tp_size'')"
    if "mp_tp_size p = None" "mp_config p = Some llama" "llama_params_ok (mp_model_params p)" for p
    using that llama_weights_memory [of p] by (auto simp: get_max_num_blocks_def Let_def mp_attr_def)
  show ?thesis
  proof (cases "normalize_parallel_config pc")
    case (Inl e)
    then show ?thesis by (simp add: new_planner_def)
  next
    case (Inr pc')
    then show ?thesis
      using none llama by (cases config) (auto simp: new_planner_def Let_def res_simps)
  qed
qed

lemma new_planner_raises_witness:
  "new_planner llama2_7b (Some llama) (mp_hardware (sample_planner 0)) 16 16 16 (9 / 10) PC_None 16 =
     Inl (AttributeError ''_tp_size'')"
  using new_planner_raises [of llama2_7b None "mp_hardware (sample_planner 0)" 16 16 16 "9 / 10" PC_None 16]
    llama2_7b_ok
  by (simp add: normalize_parallel_config_def)

text \<open>The blocks of a request keep pace with the larger of its prompt and its generated tokens,
  not with their sum: while decoding allocates one token at a time, a request's reserved tokens
  stay at least \<open>max input_length generated_tokens\<close>; but a request with a prompt of 16 tokens that
  has generated 16 more holds a single block of 16 tokens and the planner asks for none.\<close>

lemma kv_blocks_cover:
  "(\<forall>p r p' blocks. planner_inv p \<longrightarrow> map_of (mp_allocation_map p) (req_id r) = Some blocks \<longrightarrow>
      input_length r \<le> blocks * mp_block_size p \<longrightarrow> generated_tokens r \<le> blocks * mp_block_size p \<longrightarrow>
      mp_allocate (snd (req_decode r)) p = Inr p' \<longrightarrow>
      (\<exists>b. map_of (mp_allocation_map p') (req_id r) = Some b \<and> input_length r \<le> b * mp_block_size p \<and>
         generated_tokens (snd (req_decode r)) \<le> b * mp_block_size p)) \<and>
   (\<exists>p r. planner_inv p \<and> map_of (mp_allocation_map p) (req_id r) = Some 1 \<and> mp_block_size p = 16 \<and>
      input_length r = 16 \<and> generated_tokens r = 16 \<and> estimate_required_blocks p r = Inr 0)"
proof (intro conjI allI impI)
  fix p p' :: memory_planner and r blocks
  let ?r = "snd (req_decode r)"
  assume inv: "planner_inv p" and m: "map_of (mp_allocation_map p) (req_id r) = Some blocks"
    and inp: "input_length r \<le> blocks * mp_block_size p"
    and gen: "generated_tokens r \<le> blocks * mp_block_size p"
    and al: "mp_allocate ?r p = Inr p'"
  have bs: "1 \<le> mp_block_size p" using inv by (simp add: planner_inv_def)
  show "\<exists>b. map_of (mp_allocation_map p') (req_id r) = Some b \<and> input_length r \<le> b * mp_block_size p \<and>
         generated_tokens ?r \<le> b * mp_block_size p"
  proof (cases "generated_tokens ?r \<le> blocks * mp_block_size p")
    case True
    then have "p' = p" using al m
      by (auto simp: mp_allocate_def estimate_required_blocks_def Let_def frame_simps)
    with True m inp show ?thesis by auto
  next
    case False
    then have "map_of (mp_allocation_map p') (req_id r) = Some (blocks + 1)" using al m
      by (auto simp: mp_allocate_def estimate_required_blocks_def allocate_blocks_def Let_def
          frame_simps res_simps dict_get_default_def update_conv split: if_splits)
    moreover have "(blocks + 1) * mp_block_size p = blocks * mp_block_size p + mp_block_size p"
      by (simp add: algebra_simps)
    ultimately show ?thesis using inp gen bs by (simp add: frame_simps)
  qed
next
  let ?p = "(sample_planner 100)\<lparr>mp_allocated_blocks := 1, mp_allocation_map := [(''a'', 1)]\<rparr>"
  let ?r = "(new_request ''a'' ''m'' 16 32 0)\<lparr>generated_tokens := 16\<rparr>"
  show "\<exists>p r. planner_inv p \<and> map_of (mp_allocation_map p) (req_id r) = Some 1 \<and> mp_block_size p = 16 \<and>
      input_length r = 16 \<and> generated_tokens r = 16 \<and> estimate_required_blocks p r = Inr 0"
    by (rule exI [of _ ?p], rule exI [of _ ?r])
      (simp add: planner_inv_def sample_planner_def new_request_def estimate_required_blocks_def)
qed

lemma kv_blocks_cover_witness:
  "\<exists>p' b. mp_allocate (snd (req_decode ((new_request ''a'' ''m'' 16 32 0)\<lparr>generated_tokens := 16\<rparr>)))
      ((sample_planner 100)\<lparr>mp_allocated_blocks := 1, mp_allocation_map := [(''a'', 1)]\<rparr>) = Inr p' \<and>
    map_of (mp_allocation_map p') ''a'' = Some b \<and> 17 \<le> b * 16"
proof -
  let ?p = "(sample_planner 100)\<lparr>mp_allocated_blocks := 1, mp_allocation_map := [(''a'', 1)]\<rparr>"
  let ?r = "(new_request ''a'' ''m'' 16 32 0)\<lparr>generated_tokens := 16\<rparr>"
  obtain p' where al: "mp_allocate (snd (req_decode ?r)) ?p = Inr p'"
    by (simp add: mp_allocate_def estimate_required_blocks_def allocate_blocks_def Let_def
        sample_planner_def new_request_def py_assert_def req_decode_def)
  have "planner_inv ?p" by (simp add: planner_inv_def sample_planner_def)
  then show ?thesis
    using kv_blocks_cover [THEN conjunct1, rule_format, of ?p ?r 1 p'] al
    by (auto simp: sample_planner_def new_request_def req_decode_def)
qed

text \<open>The capacity that \<open>get_max_num_blocks\<close> computes fits the device: when it returns,
  the result is not negative, and a positive result means that the weights of a shard and all its
  blocks together do not exceed the memory, while one more block would.\<close>

theorem get_max_num_blocks_fits:
  assumes "get_max_num_blocks p = Inr n"
  shows "0 \<le> n \<and>
    (0 < n \<longrightarrow> (\<exists>w bs. get_weights_memory_per_shard p = Inr w \<and> mp_block_memory_size_per_shard p = Some bs \<and>
       w + of_int n * bs \<le> hw_vmemory (mp_hardware p) \<and>
       hw_vmemory (mp_hardware p) < w + (of_int n + 1) * bs))"
proof (cases "0 < n")
  case True
  from assms obtain w_total tp where w: "get_weights_memory p = Inr w_total" "mp_tp_size p = Some tp"
    by (auto simp: get_max_num_blocks_def Let_def res_simps)
  obtain w where w_def: "w = (if tp \<noteq> 0 then w_total / of_int tp else w_total)" by simp
  have shard: "get_weights_memory_per_shard p = Inr w"
    using w by (simp add: get_weights_memory_per_shard_def w_def)
  from assms w have "(if hw_vmemory (mp_hardware p) \<le> w then Inr 0
      else rbind (mp_attr ''_block_memory_size_per_shard'' (mp_block_memory_size_per_shard p)) (\<lambda>bs.
        if bs \<le> 0 then Inr 0
        else if hw_vmemory (mp_hardware p) - w \<le> 0 then Inr 0
             else Inr (max 0 \<lfloor>(hw_vmemory (mp_hardware p) - w) / bs\<rfloor>))) = Inr n"
    unfolding get_max_num_blocks_def Let_def w_def by simp
  with True obtain bs where bs: "mp_block_memory_size_per_shard p = Some bs" "0 < bs"
    and n: "n = \<lfloor>(hw_vmemory (mp_hardware p) - w) / bs\<rfloor>"
    by (auto simp: res_simps max_def split: if_splits)
  have "of_int n \<le> (hw_vmemory (mp_hardware p) - w) / bs"
    and "(hw_vmemory (mp_hardware p) - w) / bs < of_int n + 1"
    unfolding n by linarith+
  then show ?thesis using True shard bs by (auto simp: field_simps)
next
  case False
  then show ?thesis using assms
    by (auto simp: get_max_num_blocks_def Let_def res_simps split: if_splits)
qed

theorem get_max_num_blocks_fits_witness:
  "\<exists>n. get_max_num_blocks (sample_planner 0) = Inr n \<and> 0 \<le> n"
proof -
  obtain n where n: "get_max_num_blocks (sample_planner 0) = Inr n"
    by (simp add: get_max_num_blocks_def get_weights_memory_def Let_def sample_planner_def
        llama_size_defs get_attr_def py_floordiv_def llama2_7b_def)
  then show ?thesis using get_max_num_blocks_fits [OF n] by blast
qed

end
