(* ===== verification/Sim_Analyzer.thy ===== *)
theory Sim_Analyzer
  imports Sim_Config
begin

text \<open>
  The cost model of the simulator: \<open>simulator/core/roofline.py\<close> and
  \<open>simulator/core/model_analyzer.py\<close>. For every layer of a transformer the analyzer counts
  operations and bytes moved, in the prefill and the decode stage, and charges the layer the time
  of the roofline model.

  \<open>AutoConfig.from_pretrained\<close> is the argument \<open>from_pretrained\<close> of the constructor.
  The attributes that \<open>analyze\<close> overwrites at each call (\<open>results\<close>, the bit widths, the
  sizes) are local to the call here: nothing reads them between calls.
\<close>

section \<open>Roofline\<close>

datatype bound = MemoryBound | ComputeBound

definition roofline_analyze ::
  "pyfloat \<Rightarrow> pyfloat \<Rightarrow> pyfloat \<Rightarrow> pyfloat \<Rightarrow> (pyfloat \<times> pyfloat \<times> bound) res" where
  "roofline_analyze bandwidth max_OPS OPs memory_access =
     rbind (py_div max_OPS bandwidth) (\<lambda>turning_point.
     rbind (py_div OPs memory_access) (\<lambda>arithmetic_intensity.
       if arithmetic_intensity < turning_point
       then Inr (arithmetic_intensity, arithmetic_intensity * bandwidth, MemoryBound)
       else Inr (arithmetic_intensity, max_OPS, ComputeBound)))"

section \<open>Results per layer\<close>

record layer_args =
  la_stage :: stage
  la_name :: string
  la_OPs :: pyfloat
  la_load_weight :: pyfloat
  la_load_act :: pyfloat
  la_store_act :: pyfloat
  la_load_kv_cache :: pyfloat
  la_store_kv_cache :: pyfloat

record layer_result =
  lr_OPs :: pyfloat
  lr_memory_access :: pyfloat
  lr_arithmetic_intensity :: pyfloat
  lr_performance :: pyfloat
  lr_bound :: bound
  lr_load_weight :: pyfloat
  lr_load_act :: pyfloat
  lr_store_act :: pyfloat
  lr_load_kv_cache :: pyfloat
  lr_store_kv_cache :: pyfloat
  lr_inference_time :: pyfloat

type_synonym stage_results = "stage \<Rightarrow> layer_result pydict"

record model_analyzer =
  ma_model_id :: string
  ma_hardware :: string
  ma_model_params :: model_params
  ma_config :: "model_config option"

definition new_analyzer ::
  "(string \<Rightarrow> model_params res) \<Rightarrow> string \<Rightarrow> model_config option \<Rightarrow> string \<Rightarrow> model_analyzer res" where
  "new_analyzer from_pretrained model_id config hardware =
     rbind (from_pretrained model_id) (\<lambda>params.
       Inr \<lparr>ma_model_id = model_id, ma_hardware = hardware, ma_model_params = params,
            ma_config = config\<rparr>)"

definition get_hardware_info ::
  "model_analyzer \<Rightarrow> int \<Rightarrow> int \<Rightarrow> int \<Rightarrow> (pyfloat \<times> pyfloat \<times> pyfloat) res" where
  "get_hardware_info a w_bit a_bit kv_bit =
     rbind (dict_get hardware_params (ma_hardware a)) (\<lambda>h.
       let max_OPS = (if w_bit \<le> 8 \<and> a_bit \<le> 8 \<and> kv_bit \<le> 8 then hw_INT8 h else hw_FP16 h)
       in Inr (hw_bandwidth h, max_OPS, hw_onchip_buffer h))"

definition layer_memory_access :: "layer_args \<Rightarrow> pyfloat" where
  "layer_memory_access c = la_load_weight c + la_load_act c + la_store_act c +
     la_load_kv_cache c + la_store_kv_cache c"

definition analyze_to_results ::
  "(pyfloat \<times> pyfloat \<times> pyfloat) res \<Rightarrow> layer_args \<Rightarrow> stage_results \<Rightarrow> stage_results res" where
  "analyze_to_results hw_info c results =
     rbind hw_info (\<lambda>(bandwidth, max_OPS, onchip_buffer).
     let memory_access = layer_memory_access c in
     rbind (roofline_analyze bandwidth max_OPS (la_OPs c) memory_access) (\<lambda>(ai, performance, bnd).
     rbind (py_div (la_OPs c) performance) (\<lambda>inference_time.
       Inr (results(la_stage c := dict_set (la_name c)
         \<lparr>lr_OPs = la_OPs c, lr_memory_access = memory_access, lr_arithmetic_intensity = ai,
          lr_performance = performance, lr_bound = bnd, lr_load_weight = la_load_weight c,
          lr_load_act = la_load_act c, lr_store_act = la_store_act c,
          lr_load_kv_cache = la_load_kv_cache c, lr_store_kv_cache = la_store_kv_cache c,
          lr_inference_time = inference_time\<rparr> (results (la_stage c)))))))"

section \<open>The layers of one analysis\<close>

text \<open>The two entries of a linear layer (lines 150 to 176 of the source).\<close>

definition linear_calls ::
  "int \<Rightarrow> int \<Rightarrow> pyfloat \<Rightarrow> pyfloat \<Rightarrow> pyfloat \<Rightarrow> string \<times> int \<times> int \<Rightarrow> layer_args list" where
  "linear_calls seqlen batchsize w_byte a_byte kv_byte l =
     (case l of (name, ic, oc) \<Rightarrow>
       let is_kv_proj = (name = ''k_proj'' \<or> name = ''v_proj'')
       in [\<lparr>la_stage = Decode, la_name = name,
             la_OPs = of_int (ic * oc * batchsize * 2),
             la_load_weight = of_int (ic * oc) * w_byte,
             la_load_act = of_int (ic * batchsize) * a_byte,
             la_store_act = (if is_kv_proj then 0 else of_int (oc * batchsize) * a_byte),
             la_load_kv_cache = 0,
             la_store_kv_cache = (if \<not> is_kv_proj then 0 else of_int (oc * batchsize) * kv_byte)\<rparr>,
           \<lparr>la_stage = Prefill, la_name = name,
             la_OPs = of_int (ic * oc * batchsize * seqlen * 2),
             la_load_weight = of_int (ic * oc) * w_byte,
             la_load_act = of_int (ic * batchsize * seqlen) * a_byte,
             la_store_act = (if is_kv_proj then 0 else of_int (oc * batchsize * seqlen) * a_byte),
             la_load_kv_cache = 0,
             la_store_kv_cache =
               (if \<not> is_kv_proj then 0 else of_int (oc * batchsize * seqlen) * kv_byte)\<rparr>])"

text \<open>The fused attention of a stage; \<open>q\<close> is the number of query positions of the stage.\<close>

definition attention_call ::
  "stage \<Rightarrow> int \<Rightarrow> int \<Rightarrow> int \<Rightarrow> int \<Rightarrow> int \<Rightarrow> int \<Rightarrow> int \<Rightarrow> pyfloat \<Rightarrow> pyfloat \<Rightarrow> layer_args" where
  "attention_call st q n_blocks_r seqlen batchsize head_size num_attention_heads num_key_value_heads
     a_byte kv_byte =
     (let qk_matmul_OPs = q * seqlen * head_size * num_attention_heads * batchsize * 2;
          sv_matmul_OPs = q * head_size * seqlen * num_attention_heads * batchsize * 2;
          softmax_OPs = batchsize * num_attention_heads * seqlen * q * 5;
          q_numel = of_int (q * head_size * batchsize * num_attention_heads) * a_byte;
          o_numel = of_int (q * seqlen * batchsize * num_attention_heads) * a_byte
      in \<lparr>la_stage = st, la_name = ''fused_attention'',
          la_OPs = of_int (qk_matmul_OPs + sv_matmul_OPs + softmax_OPs),
          la_load_weight = 0, la_load_act = q_numel, la_store_act = o_numel * 2,
          la_load_kv_cache =
            of_int (n_blocks_r * seqlen * head_size * batchsize * num_key_value_heads) * kv_byte * 2,
          la_store_kv_cache = 0\<rparr>)"

text \<open>Norms, residual additions and the activation; \<open>q\<close> as above.\<close>

definition elementwise_call ::
  "stage \<Rightarrow> int \<Rightarrow> int \<Rightarrow> int \<Rightarrow> pyfloat \<Rightarrow> string \<Rightarrow> int \<Rightarrow> pyfloat \<Rightarrow> layer_args" where
  "elementwise_call st q batchsize hidden_size a_byte name ops loads =
     \<lparr>la_stage = st, la_name = name, la_OPs = of_int (batchsize * hidden_size * q * ops),
      la_load_weight = 0, la_load_act = of_int (batchsize * hidden_size * q) * a_byte * loads,
      la_store_act = of_int (batchsize * hidden_size * q) * a_byte,
      la_load_kv_cache = 0, la_store_kv_cache = 0\<rparr>"

definition elementwise_calls ::
  "stage \<Rightarrow> int \<Rightarrow> int \<Rightarrow> int \<Rightarrow> pyfloat \<Rightarrow> string list \<Rightarrow> layer_args list" where
  "elementwise_calls st q batchsize hidden_size a_byte norms =
     map (\<lambda>n. elementwise_call st q batchsize hidden_size a_byte n 7 1) norms @
     map (\<lambda>n. elementwise_call st q batchsize hidden_size a_byte n 1 1) [''attn_add'', ''mlp_add''] @
     map (\<lambda>n. elementwise_call st q batchsize hidden_size a_byte n 2 2) [''mlp_act'']"

section \<open>Totals\<close>

text \<open>The entries of \<open>ALL_DATA_NAMES\<close> and the memory figures.\<close>

record totals =
  t_OPs :: pyfloat
  t_memory_access :: pyfloat
  t_load_weight :: pyfloat
  t_load_act :: pyfloat
  t_store_act :: pyfloat
  t_load_kv_cache :: pyfloat
  t_store_kv_cache :: pyfloat
  t_inference_time :: pyfloat

definition zero_totals :: totals where
  "zero_totals = \<lparr>t_OPs = 0, t_memory_access = 0, t_load_weight = 0, t_load_act = 0, t_store_act = 0,
     t_load_kv_cache = 0, t_store_kv_cache = 0, t_inference_time = 0\<rparr>"

definition add_result :: "pyfloat \<Rightarrow> layer_result \<Rightarrow> totals \<Rightarrow> totals" where
  "add_result k r t = \<lparr>t_OPs = t_OPs t + lr_OPs r * k,
     t_memory_access = t_memory_access t + lr_memory_access r * k,
     t_load_weight = t_load_weight t + lr_load_weight r * k,
     t_load_act = t_load_act t + lr_load_act r * k,
     t_store_act = t_store_act t + lr_store_act r * k,
     t_load_kv_cache = t_load_kv_cache t + lr_load_kv_cache r * k,
     t_store_kv_cache = t_store_kv_cache t + lr_store_kv_cache r * k,
     t_inference_time = t_inference_time t + lr_inference_time r * k\<rparr>"

definition stage_totals :: "int \<Rightarrow> layer_result pydict \<Rightarrow> totals" where
  "stage_totals num_hidden_layers rs =
     fold (\<lambda>p. add_result (of_int num_hidden_layers) (snd p)) rs zero_totals"

record memory_figures =
  mf_consumption :: pyfloat
  mf_tmp_act :: pyfloat
  mf_weight :: pyfloat
  mf_kv_cache :: pyfloat

record analysis =
  an_layers :: stage_results
  an_totals :: "stage \<Rightarrow> totals"
  an_memory :: "stage \<Rightarrow> memory_figures"

definition memory_footprint :: "totals \<Rightarrow> layer_result pydict \<Rightarrow> memory_figures" where
  "memory_footprint prefill_totals rs =
     (let weight_kv_footprint = t_load_weight prefill_totals + t_store_kv_cache prefill_totals;
          tmp_act = sum_list (map (\<lambda>p. lr_store_act (snd p)) rs)
      in \<lparr>mf_consumption = tmp_act + weight_kv_footprint, mf_tmp_act = tmp_act,
          mf_weight = t_load_weight prefill_totals, mf_kv_cache = t_store_kv_cache prefill_totals\<rparr>)"

text \<open>The final loop over the layers of \<open>post_process\<close>: each is analysed and added once.\<close>

definition post_step ::
  "(pyfloat \<times> pyfloat \<times> pyfloat) res \<Rightarrow> layer_info \<Rightarrow> stage_results \<times> (stage \<Rightarrow> totals) \<Rightarrow>
   (stage_results \<times> (stage \<Rightarrow> totals)) res" where
  "post_step hw_info li s =
     rbind (analyze_to_results hw_info
       \<lparr>la_stage = li_stage li, la_name = li_name li, la_OPs = li_OPs li,
        la_load_weight = li_load_weight li, la_load_act = li_load_act li,
        la_store_act = li_store_act li, la_load_kv_cache = 0, la_store_kv_cache = 0\<rparr> (fst s)) (\<lambda>rs.
     rbind (dict_get (rs (li_stage li)) (li_name li)) (\<lambda>r.
       Inr (rs, (snd s)(li_stage li := add_result 1 r (snd s (li_stage li))))))"

section \<open>The analysis\<close>

text \<open>\<open>self.config.f\<close>: a missing module or function is an \<open>AttributeError\<close>.\<close>

definition config_fun :: "model_analyzer \<Rightarrow> string \<Rightarrow> (model_config \<Rightarrow> 'f option) \<Rightarrow> 'f res" where
  "config_fun a name f =
     (case ma_config a of None \<Rightarrow> Inl (AttributeError name)
      | Some c \<Rightarrow> (case f c of None \<Rightarrow> Inl (AttributeError name) | Some g \<Rightarrow> Inr g))"

definition config_size :: "model_analyzer \<Rightarrow> string \<Rightarrow> (model_config \<Rightarrow> (model_params \<Rightarrow> int res) option) \<Rightarrow> int res" where
  "config_size a name f = rbind (config_fun a name f) (\<lambda>g. g (ma_model_params a))"

text \<open>Attention, norms, additions and activation of one stage, with the block count of the stage.\<close>

definition stage_calls ::
  "model_analyzer \<Rightarrow> (pyfloat \<times> pyfloat \<times> pyfloat) res \<Rightarrow> stage \<Rightarrow> int \<Rightarrow> int \<Rightarrow> int \<Rightarrow> int \<Rightarrow> int \<Rightarrow> int \<Rightarrow>
   int \<Rightarrow> pyfloat \<Rightarrow> pyfloat \<Rightarrow> stage_results \<Rightarrow> stage_results res" where
  "stage_calls a hw_info st q seqlen batchsize hidden_size head_size num_attention_heads
     num_key_value_heads a_byte kv_byte rs =
     rbind hw_info (\<lambda>(bandwidth, max_OPS, onchip_buffer).
     rbind (py_div onchip_buffer (kv_byte * of_int head_size)) (\<lambda>x.
     let block_size_r = min \<lceil>x\<rceil> head_size in
     rbind (py_div (of_int q) (of_int block_size_r)) (\<lambda>y.
     rbind (analyze_to_results hw_info (attention_call st q \<lceil>y\<rceil> seqlen batchsize head_size
       num_attention_heads num_key_value_heads a_byte kv_byte) rs) (\<lambda>rs1.
     rbind (config_fun a ''get_norm_layers'' mc_norm_layers) (\<lambda>norm_layers.
       for_res (analyze_to_results hw_info)
         (elementwise_calls st q batchsize hidden_size a_byte (norm_layers (ma_model_params a))) rs1)))))"

definition analyze ::
  "model_analyzer \<Rightarrow> int \<Rightarrow> int \<Rightarrow> int \<Rightarrow> int \<Rightarrow> int option \<Rightarrow> int \<Rightarrow> analysis res" where
  "analyze a seqlen batchsize w_bit a_bit kv_bit_arg tp_size =
     rbind (py_assert (0 < seqlen) []) (\<lambda>_.
     rbind (py_assert (0 < batchsize) []) (\<lambda>_.
     let kv_bit = (case kv_bit_arg of None \<Rightarrow> a_bit | Some k \<Rightarrow> k);
         w_byte = of_int w_bit / 8; a_byte = of_int a_bit / 8; kv_byte = of_int kv_bit / 8;
         hw_info = get_hardware_info a w_bit a_bit kv_bit in
     rbind (config_size a ''get_num_attention_heads'' mc_num_attention_heads) (\<lambda>num_attention_heads.
     rbind (config_size a ''get_hidden_size'' mc_hidden_size) (\<lambda>hidden_size.
     rbind (config_size a ''get_num_key_value_heads'' mc_num_key_value_heads) (\<lambda>num_key_value_heads.
     rbind (config_size a ''get_num_hidden_layers'' mc_num_hidden_layers) (\<lambda>num_hidden_layers.
     rbind (config_fun a ''get_linear_layers'' mc_linear_layers) (\<lambda>get_linear_layers.
     rbind (get_linear_layers (ma_model_params a) tp_size) (\<lambda>linear_layers.
     rbind (for_res (analyze_to_results hw_info)
       (concat (map (linear_calls seqlen batchsize w_byte a_byte kv_byte) linear_layers)) (\<lambda>_. [])) (\<lambda>rs1.
     rbind (py_floordiv hidden_size num_attention_heads) (\<lambda>head_size.
     rbind (stage_calls a hw_info Decode 1 seqlen batchsize hidden_size head_size num_attention_heads
       num_key_value_heads a_byte kv_byte rs1) (\<lambda>rs2.
     rbind (stage_calls a hw_info Prefill seqlen seqlen batchsize hidden_size head_size num_attention_heads
       num_key_value_heads a_byte kv_byte rs2) (\<lambda>rs.
     let totals = (\<lambda>st. stage_totals num_hidden_layers (rs st));
         memory = (\<lambda>st. memory_footprint (totals Prefill) (rs st)) in
     rbind (config_fun a ''post_process'' mc_post_process) (\<lambda>post_process.
     rbind (post_process (ma_model_params a)
       \<lparr>pa_batchsize = batchsize, pa_a_byte = a_byte, pa_w_byte = w_byte\<rparr>) (\<lambda>post_layers.
     rbind (for_res (post_step hw_info) post_layers (rs, totals)) (\<lambda>s.
       Inr \<lparr>an_layers = fst s, an_totals = snd s, an_memory = memory\<rparr>)))))))))))))))"

record generate_task =
  gt_inference_time :: pyfloat
  gt_prefill_time :: pyfloat
  gt_tpot :: pyfloat

definition analyze_generate_task ::
  "model_analyzer \<Rightarrow> int \<Rightarrow> int \<Rightarrow> int \<Rightarrow> int \<Rightarrow> int \<Rightarrow> int option \<Rightarrow> int \<Rightarrow> generate_task res" where
  "analyze_generate_task a prompt_len gen_len batchsize w_bit a_bit kv_bit tp_size =
     rbind (analyze a prompt_len batchsize w_bit a_bit kv_bit tp_size) (\<lambda>p.
     let prefill_time = t_inference_time (an_totals p Prefill) in
     rbind (for_res (\<lambda>i t. rbind (analyze a i batchsize w_bit a_bit kv_bit tp_size) (\<lambda>r.
         Inr (t + t_inference_time (an_totals r Decode)))) [prompt_len .. prompt_len + gen_len - 1] prefill_time) (\<lambda>t.
     rbind (py_div t (of_int gen_len)) (\<lambda>tpot.
       Inr \<lparr>gt_inference_time = t, gt_prefill_time = prefill_time, gt_tpot = tpot\<rparr>)))"

definition get_model_info :: "model_analyzer \<Rightarrow> bool res" where
  "get_model_info a =
     rbind (config_size a ''get_num_attention_heads'' mc_num_attention_heads) (\<lambda>n.
     rbind (config_size a ''get_num_key_value_heads'' mc_num_key_value_heads) (\<lambda>k. Inr (n \<noteq> k)))"

section \<open>The cost of a layer is its roofline time\<close>

text \<open>
  The reference cost: a layer takes as long as the slower of computing and moving its bytes. The
  source divides operations by the attainable performance instead.
\<close>

definition roofline_time :: "pyfloat \<Rightarrow> pyfloat \<Rightarrow> pyfloat \<Rightarrow> pyfloat \<Rightarrow> pyfloat" where
  "roofline_time bandwidth max_OPS OPs bytes = max (OPs / max_OPS) (bytes / bandwidth)"

definition result_of :: "pyfloat \<Rightarrow> pyfloat \<Rightarrow> layer_args \<Rightarrow> layer_result" where
  "result_of bandwidth max_OPS c =
     (let m = layer_memory_access c; ai = la_OPs c / m; mem_bound = ai < max_OPS / bandwidth in
      \<lparr>lr_OPs = la_OPs c, lr_memory_access = m, lr_arithmetic_intensity = ai,
       lr_performance = (if mem_bound then ai * bandwidth else max_OPS),
       lr_bound = (if mem_bound then MemoryBound else ComputeBound),
       lr_load_weight = la_load_weight c, lr_load_act = la_load_act c, lr_store_act = la_store_act c,
       lr_load_kv_cache = la_load_kv_cache c, lr_store_kv_cache = la_store_kv_cache c,
       lr_inference_time = roofline_time bandwidth max_OPS (la_OPs c) m\<rparr>)"

definition call_ok :: "layer_args \<Rightarrow> bool" where
  "call_ok c \<longleftrightarrow> 0 < la_OPs c \<and> 0 < layer_memory_access c"

lemma roofline_crossover:
  assumes "0 < bw" "0 < mx" "0 < ops" "(0::real) < m"
  shows "ops / m < mx / bw \<longleftrightarrow> ops / mx < m / bw"
  using assms by (simp add: field_simps)

lemma analyze_to_results_ok:
  assumes hw: "0 < bw" "0 < mx" and c: "call_ok c"
  shows "analyze_to_results (Inr (bw, mx, buf)) c rs =
    Inr (rs(la_stage c := dict_set (la_name c) (result_of bw mx c) (rs (la_stage c))))"
proof -
  let ?m = "layer_memory_access c" and ?o = "la_OPs c"
  have pos: "0 < ?o" "0 < ?m" using c by (auto simp: call_ok_def)
  note cross = roofline_crossover [OF hw pos]
  show ?thesis
  proof (cases "?o / ?m < mx / bw")
    case True
    with cross have "max (?o / mx) (?m / bw) = ?m / bw" by simp
    with True hw pos show ?thesis
      by (simp add: analyze_to_results_def roofline_analyze_def result_of_def roofline_time_def Let_def)
  next
    case False
    with cross have "max (?o / mx) (?m / bw) = ?o / mx" by simp
    with False hw pos show ?thesis
      by (simp add: analyze_to_results_def roofline_analyze_def result_of_def roofline_time_def Let_def)
  qed
qed

definition add_calls :: "pyfloat \<Rightarrow> pyfloat \<Rightarrow> layer_args list \<Rightarrow> stage_results \<Rightarrow> stage_results" where
  "add_calls bw mx cs rs = (\<lambda>st.
     fold (\<lambda>c. dict_set (la_name c) (result_of bw mx c)) (filter (\<lambda>c. la_stage c = st) cs) (rs st))"

lemma for_res_analyze:
  assumes "0 < bw" "0 < mx" and "\<And>c. c \<in> set cs \<Longrightarrow> call_ok c"
  shows "for_res (analyze_to_results (Inr (bw, mx, buf))) cs rs = Inr (add_calls bw mx cs rs)"
  using assms(3)
proof (induction cs arbitrary: rs)
  case Nil
  then show ?case by (simp add: add_calls_def)
next
  case (Cons c cs)
  then have "call_ok c" by simp
  note step = analyze_to_results_ok [OF assms(1,2) this, of buf rs]
  have "add_calls bw mx cs (rs(la_stage c := dict_set (la_name c) (result_of bw mx c) (rs (la_stage c))))
    = add_calls bw mx (c # cs) rs"
    by (rule ext) (simp add: add_calls_def)
  then show ?case using Cons step by simp
qed

lemma add_calls_append: "add_calls bw mx ds (add_calls bw mx cs rs) = add_calls bw mx (cs @ ds) rs"
  by (rule ext) (simp add: add_calls_def)

lemma linear_calls_ok:
  assumes "0 < seqlen" "0 < b" "0 < w" "0 < a" "0 < kv" "0 < ic" "0 < oc" "c \<in> set (linear_calls seqlen b w a kv (n, ic, oc))"
  shows "call_ok c"
  using assms
  by (auto simp: linear_calls_def call_ok_def layer_memory_access_def Let_def
      intro!: add_pos_nonneg mult_pos_pos)

lemma attention_call_ok:
  assumes "0 < q" "0 \<le> n" "0 < seqlen" "0 < b" "0 < hs" "0 < ah" "0 < kvh" "0 < a" "0 < kv"
  shows "call_ok (attention_call st q n seqlen b hs ah kvh a kv)"
  using assms
  by (auto simp: attention_call_def call_ok_def layer_memory_access_def Let_def
      intro!: add_pos_nonneg mult_pos_pos mult_nonneg_nonneg)

lemma elementwise_call_ok:
  assumes "0 < q" "0 < b" "0 < hs" "0 < a" "0 < ops" "0 < loads"
  shows "call_ok (elementwise_call st q b hs a n ops loads)"
proof -
  have "0 < real_of_int b * real_of_int hs * real_of_int q * a" using assms by simp
  then show ?thesis using assms
    by (simp add: elementwise_call_def call_ok_def layer_memory_access_def add_pos_pos)
qed

lemma elementwise_calls_ok:
  assumes "0 < q" "0 < b" "0 < hs" "0 < a" "c \<in> set (elementwise_calls st q b hs a norms)"
  shows "call_ok c"
  using assms
  by (auto simp: elementwise_calls_def intro!: elementwise_call_ok)

lemma get_hardware_info_ok:
  assumes "dict_get hardware_params (ma_hardware a) = Inr h"
  obtains mx where "get_hardware_info a w_bit a_bit kv_bit = Inr (hw_bandwidth h, mx, hw_onchip_buffer h)"
    "mx = (if w_bit \<le> 8 \<and> a_bit \<le> 8 \<and> kv_bit \<le> 8 then hw_INT8 h else hw_FP16 h)"
    "0 < mx" "0 < hw_bandwidth h" "0 < hw_onchip_buffer h"
  using hardware_params_ok [OF assms] assms
  by (auto simp: get_hardware_info_def hardware_ok_def)

text \<open>Attention and element-wise layers of a stage, as one list of calls.\<close>

definition stage_list ::
  "model_analyzer \<Rightarrow> stage \<Rightarrow> int \<Rightarrow> int \<Rightarrow> int \<Rightarrow> int \<Rightarrow> int \<Rightarrow> int \<Rightarrow> int \<Rightarrow> pyfloat \<Rightarrow> pyfloat \<Rightarrow> pyfloat \<Rightarrow>
   string list \<Rightarrow> layer_args list" where
  "stage_list a st q seqlen b hs head ah kvh a_byte kv_byte buf norms =
     attention_call st q \<lceil>of_int q / of_int (min \<lceil>buf / (kv_byte * of_int head)\<rceil> head) :: real\<rceil> seqlen b head ah kvh
       a_byte kv_byte # elementwise_calls st q b hs a_byte norms"

lemma stage_calls_ok:
  assumes pos: "0 < bw" "0 < mx" "0 < buf" "0 < q" "0 < seqlen" "0 < b" "0 < hs" "0 < head" "0 < ah" "0 < kvh"
      "0 < a_byte" "0 < kv_byte"
    and norms: "config_fun a ''get_norm_layers'' mc_norm_layers = Inr f"
  shows "stage_calls a (Inr (bw, mx, buf)) st q seqlen b hs head ah kvh a_byte kv_byte rs =
    Inr (add_calls bw mx (stage_list a st q seqlen b hs head ah kvh a_byte kv_byte buf (f (ma_model_params a))) rs)"
proof -
  let ?blk = "min \<lceil>buf / (kv_byte * of_int head)\<rceil> head"
  let ?n = "\<lceil>of_int q / of_int ?blk :: real\<rceil>"
  let ?att = "attention_call st q ?n seqlen b head ah kvh a_byte kv_byte"
  have blk: "0 < ?blk" using pos by (simp add: field_simps)
  have n: "0 \<le> ?n" using blk pos(4) by (metis ceiling_mono ceiling_zero divide_nonneg_pos of_int_0_le_iff of_int_0_less_iff order_less_imp_le)
  have att: "call_ok ?att" by (rule attention_call_ok) (use pos n in auto)
  have el: "\<And>c. c \<in> set (elementwise_calls st q b hs a_byte (f (ma_model_params a))) \<Longrightarrow> call_ok c"
    by (rule elementwise_calls_ok [of q b hs a_byte]) (use pos in auto)
  have "of_int ?blk \<noteq> (0::real)" using blk by linarith
  moreover have "kv_byte * of_int head \<noteq> 0" using pos by simp
  ultimately have "stage_calls a (Inr (bw, mx, buf)) st q seqlen b hs head ah kvh a_byte kv_byte rs =
    for_res (analyze_to_results (Inr (bw, mx, buf)))
      (stage_list a st q seqlen b hs head ah kvh a_byte kv_byte buf (f (ma_model_params a))) rs"
    using norms unfolding stage_calls_def stage_list_def
    by (simp add: Let_def analyze_to_results_ok [OF pos(1,2) att])
  also have "\<dots> = Inr (add_calls bw mx (stage_list a st q seqlen b hs head ah kvh a_byte kv_byte buf (f (ma_model_params a))) rs)"
    by (rule for_res_analyze) (use pos att el in \<open>auto simp: stage_list_def\<close>)
  finally show ?thesis .
qed

lemma stage_totals_time:
  "t_inference_time (stage_totals nl rs) = of_int nl * (\<Sum>p \<leftarrow> rs. lr_inference_time (snd p))"
proof -
  have "t_inference_time (fold (\<lambda>p. add_result (of_int nl) (snd p)) rs t) =
      t_inference_time t + of_int nl * (\<Sum>p \<leftarrow> rs. lr_inference_time (snd p))" for t
    by (induction rs arbitrary: t) (simp_all add: add_result_def algebra_simps)
  then show ?thesis by (simp add: stage_totals_def zero_totals_def)
qed

text \<open>The layers a Llama analysis reports, in the order of the dictionary.\<close>

definition llama_layer_names :: "string list" where
  "llama_layer_names =
    [''q_proj'', ''k_proj'', ''v_proj'', ''out_proj'', ''gate_proj'', ''up_proj'', ''down_proj'',
     ''fused_attention'', ''attn_norm'', ''mlp_norm'', ''attn_add'', ''mlp_add'', ''mlp_act'']"

definition roofline_results :: "pyfloat \<Rightarrow> pyfloat \<Rightarrow> layer_result pydict \<Rightarrow> bool" where
  "roofline_results bw mx rs \<longleftrightarrow> (\<forall>(n, r) \<in> set rs. 0 < lr_OPs r \<and> 0 < lr_memory_access r \<and>
     lr_inference_time r = roofline_time bw mx (lr_OPs r) (lr_memory_access r))"


lemma roofline_results_of_calls:
  "(\<And>c. c \<in> set cs \<Longrightarrow> call_ok c) \<Longrightarrow>
   roofline_results bw mx (map (\<lambda>c. (la_name c, result_of bw mx c)) cs)"
  by (auto simp: roofline_results_def result_of_def call_ok_def Let_def)

text \<open>Calls with fresh names append their results.\<close>

lemma add_calls_fresh:
  assumes "distinct (map fst (rs st) @ map la_name (filter (\<lambda>c. la_stage c = st) cs))"
  shows "add_calls bw mx cs rs st =
    rs st @ map (\<lambda>c. (la_name c, result_of bw mx c)) (filter (\<lambda>c. la_stage c = st) cs)"
proof -
  have "fold (\<lambda>c. dict_set (la_name c) (result_of bw mx c)) ds d =
      d @ map (\<lambda>c. (la_name c, result_of bw mx c)) ds"
    if "distinct (map fst d @ map la_name ds)" for ds and d :: "layer_result pydict"
    using that
  proof (induction ds arbitrary: d)
    case (Cons c ds)
    then have "dict_set (la_name c) (result_of bw mx c) d = d @ [(la_name c, result_of bw mx c)]"
      by (auto intro: dict_set_fresh)
    then show ?case using Cons by auto
  qed simp
  then show ?thesis using assms by (simp add: add_calls_def)
qed


text \<open>Tensor parallelism a Llama model admits: the source asserts the divisions are exact.\<close>

definition tp_admissible :: "model_params \<Rightarrow> int \<Rightarrow> bool" where
  "tp_admissible m tp \<longleftrightarrow> 1 \<le> tp \<and>
     (\<forall>n \<in> {''hidden_size'', ''intermediate_size'', ''num_key_value_heads''}.
        \<exists>v. m n = Some v \<and> v mod tp = 0)"

lemma dvd_div_pos: "0 < (x::int) \<Longrightarrow> 1 \<le> t \<Longrightarrow> x mod t = 0 \<Longrightarrow> 0 < x div t"
  by (auto simp: mod_eq_0_iff_dvd elim!: dvdE simp: zero_less_mult_iff)

lemma llama_linear_layers_ok:
  assumes "llama_params_ok m" and "tp_admissible m tp"
  obtains layers where "llama_linear_layers m tp = Inr layers"
    "map fst layers = take 7 llama_layer_names"
    "\<And>n ic oc. (n, ic, oc) \<in> set layers \<Longrightarrow> 0 < ic \<and> 0 < oc"
proof -
  obtain hs isz kv ah where m: "m ''hidden_size'' = Some hs" "m ''intermediate_size'' = Some isz"
      "m ''num_key_value_heads'' = Some kv" "m ''num_attention_heads'' = Some ah"
    and pos: "0 < hs" "0 < isz" "0 < kv" "0 < ah" "ah \<le> hs"
    using assms(1) by (auto simp: llama_params_ok_def)
  have tp: "1 \<le> tp" "hs mod tp = 0" "isz mod tp = 0" "kv mod tp = 0"
    using assms(2) m by (auto simp: tp_admissible_def)
  have h: "0 < hs div tp" "0 < isz div tp" by (intro dvd_div_pos pos tp)+
  have "tp \<le> kv" using tp pos by (auto intro: zdvd_imp_le)
  also have "kv \<le> hs * kv div ah"
  proof -
    have "ah * kv \<le> hs * kv" using pos by (simp add: mult_right_mono)
    then have "ah * kv div ah \<le> hs * kv div ah" using pos by (intro zdiv_mono1)
    then show ?thesis using pos by simp
  qed
  finally have k: "0 < hs * kv div ah div tp" using tp(1) by (simp add: pos_imp_zdiv_pos_iff)
  show ?thesis
    using m pos tp h k
    by (intro that) (auto simp: llama_linear_layers_def llama_hidden_size_def llama_intermediate_size_def
      llama_num_key_value_heads_def llama_num_attention_heads_def get_attr_def py_assert_def
      py_floordiv_def llama_layer_names_def)
qed

lemma post_step_ok:
  assumes hw: "0 < bw" "0 < mx"
    and pos: "0 < li_OPs li" "0 < li_load_weight li" "0 \<le> li_load_act li" "0 \<le> li_store_act li"
    and fresh: "li_name li \<notin> fst ` set (rs (li_stage li))"
  shows "\<exists>r. post_step (Inr (bw, mx, buf)) li (rs, tot) =
      Inr (rs(li_stage li := rs (li_stage li) @ [(li_name li, r)]),
           tot(li_stage li := add_result 1 r (tot (li_stage li)))) \<and>
    roofline_results bw mx [(li_name li, r)]"
proof -
  let ?c = "\<lparr>la_stage = li_stage li, la_name = li_name li, la_OPs = li_OPs li,
        la_load_weight = li_load_weight li, la_load_act = li_load_act li,
        la_store_act = li_store_act li, la_load_kv_cache = 0, la_store_kv_cache = 0\<rparr>"
  let ?r = "result_of bw mx ?c"
  have ok: "call_ok ?c" using pos by (simp add: call_ok_def layer_memory_access_def)
  have "map_of (rs (li_stage li) @ [(li_name li, ?r)]) (li_name li) = Some ?r"
    using fresh by (auto simp: map_add_Some_iff map_of_eq_None_iff)
  then have "post_step (Inr (bw, mx, buf)) li (rs, tot) =
      Inr (rs(li_stage li := rs (li_stage li) @ [(li_name li, ?r)]),
           tot(li_stage li := add_result 1 ?r (tot (li_stage li))))"
    using fresh by (simp add: post_step_def analyze_to_results_ok [OF hw ok] dict_set_fresh dict_get_def)
  moreover have "roofline_results bw mx [(li_name li, ?r)]"
    using roofline_results_of_calls [of "[?c]" bw mx] ok by simp
  ultimately show ?thesis by blast
qed


text \<open>The per-layer results before \<open>post_process\<close>, for a Llama model.\<close>

lemma llama_stage_results:
  assumes hw: "0 < bw" "0 < mx"
    and ok: "\<And>c. c \<in> set (lin @ dec @ pre) \<Longrightarrow> call_ok c"
    and lin: "lin = concat (map (linear_calls s b w ab kvb) layers)"
    and names: "map fst layers = take 7 llama_layer_names"
    and dec: "dec = stage_list a Decode q s b hs he ah kvh ab kvb buf (llama_norm_layers m)"
    and pre: "pre = stage_list a Prefill q' s b hs he ah kvh ab kvb buf (llama_norm_layers m)"
  shows "map fst (add_calls bw mx (lin @ dec @ pre) (\<lambda>_. []) st) = llama_layer_names"
    and "roofline_results bw mx (add_calls bw mx (lin @ dec @ pre) (\<lambda>_. []) st)"
proof -
  let ?cs = "filter (\<lambda>c. la_stage c = st) (lin @ dec @ pre)"
  have "map la_name (filter (\<lambda>c. la_stage c = st) lin) = map fst layers"
    unfolding lin by (induction layers; cases st) (auto simp: linear_calls_def Let_def)
  then have n: "map la_name ?cs = llama_layer_names"
    using names unfolding dec pre
    by (cases st) (simp_all add: stage_list_def attention_call_def elementwise_calls_def
      elementwise_call_def llama_norm_layers_def llama_layer_names_def Let_def)
  have fresh: "add_calls bw mx (lin @ dec @ pre) (\<lambda>_. []) st =
    map (\<lambda>c. (la_name c, result_of bw mx c)) ?cs"
    by (subst add_calls_fresh) (simp_all only: n list.map append.simps, simp_all add: llama_layer_names_def)
  show "map fst (add_calls bw mx (lin @ dec @ pre) (\<lambda>_. []) st) = llama_layer_names"
    unfolding fresh n [symmetric] by simp
  show "roofline_results bw mx (add_calls bw mx (lin @ dec @ pre) (\<lambda>_. []) st)"
    unfolding fresh by (rule roofline_results_of_calls) (use ok in auto)
qed

lemma roofline_results_append:
  "roofline_results bw mx (xs @ ys) \<longleftrightarrow> roofline_results bw mx xs \<and> roofline_results bw mx ys"
  by (auto simp: roofline_results_def)

text \<open>\<open>post_process\<close> of a Llama model adds the head to both stages.\<close>

lemma llama_post_ok:
  assumes hw: "0 < bw" "0 < mx" and m: "llama_params_ok m"
    and b: "0 < b" and w: "0 < w" and ab: "0 < ab"
    and keys: "\<And>st. map fst (rs st) = llama_layer_names"
  obtains post r where "llama_post_process m \<lparr>pa_batchsize = b, pa_a_byte = ab, pa_w_byte = w\<rparr> = Inr post"
    "for_res (post_step (Inr (bw, mx, buf))) post (rs, tot) =
       Inr (\<lambda>st. rs st @ [(''lm_head'', r st)], \<lambda>st. add_result 1 (r st) (tot st))"
    "\<And>st. roofline_results bw mx [(''lm_head'', r st)]"
proof -
  obtain hs vs where hv: "m ''hidden_size'' = Some hs" "m ''vocab_size'' = Some vs" "0 < hs" "0 < vs"
    using m by (auto simp: llama_params_ok_def)
  let ?li = "\<lambda>st. \<lparr>li_name = ''lm_head'', li_stage = st, li_OPs = of_int (b * hs * vs * 1),
        li_load_weight = of_int (hs * vs) * w, li_load_act = of_int hs * ab, li_store_act = of_int vs * ab\<rparr>"
  have fresh: "''lm_head'' \<notin> fst ` set (rs st)" for st
    using arg_cong [OF keys [of st], of set] by (simp add: llama_layer_names_def)
  obtain r1 where r1: "post_step (Inr (bw, mx, buf)) (?li Prefill) (rs, tot) =
      Inr (rs(Prefill := rs Prefill @ [(''lm_head'', r1)]), tot(Prefill := add_result 1 r1 (tot Prefill)))"
      "roofline_results bw mx [(''lm_head'', r1)]"
    using post_step_ok [OF hw, of "?li Prefill" rs buf tot] hv b w ab fresh [of Prefill] by auto
  let ?rs = "rs(Prefill := rs Prefill @ [(''lm_head'', r1)])"
  let ?tot = "tot(Prefill := add_result 1 r1 (tot Prefill))"
  obtain r2 where r2: "post_step (Inr (bw, mx, buf)) (?li Decode) (?rs, ?tot) =
      Inr (?rs(Decode := ?rs Decode @ [(''lm_head'', r2)]), ?tot(Decode := add_result 1 r2 (?tot Decode)))"
      "roofline_results bw mx [(''lm_head'', r2)]"
    using post_step_ok [OF hw, of "?li Decode" ?rs buf ?tot] hv b w ab fresh [of Decode] by auto
  let ?r = "\<lambda>st. case st of Prefill \<Rightarrow> r1 | Decode \<Rightarrow> r2"
  have "?rs(Decode := ?rs Decode @ [(''lm_head'', r2)]) = (\<lambda>st. rs st @ [(''lm_head'', ?r st)])"
    "?tot(Decode := add_result 1 r2 (?tot Decode)) = (\<lambda>st. add_result 1 (?r st) (tot st))"
    by (auto simp: fun_eq_iff split: stage.split intro: stage.exhaust)
  with r1(1) r2(1) have "for_res (post_step (Inr (bw, mx, buf))) [?li Prefill, ?li Decode] (rs, tot) =
       Inr (\<lambda>st. rs st @ [(''lm_head'', ?r st)], \<lambda>st. add_result 1 (?r st) (tot st))"
    by simp
  moreover have "llama_post_process m \<lparr>pa_batchsize = b, pa_a_byte = ab, pa_w_byte = w\<rparr> =
      Inr [?li Prefill, ?li Decode]"
    using hv by (simp add: llama_post_process_def llama_hidden_size_def llama_vocab_size_def get_attr_def)
  moreover have "roofline_results bw mx [(''lm_head'', ?r st)]" for st
    using r1(2) r2(2) by (cases st) simp_all
  ultimately show ?thesis using that [of "[?li Prefill, ?li Decode]" ?r] by blast
qed



text \<open>
  The analysis of a Llama model as data: its layers, the calls they make and the attributes of the
  model, with what the constructor's inputs must satisfy.
\<close>

definition llama_calls ::
  "model_analyzer \<Rightarrow> hardware_spec \<Rightarrow> (string \<times> int \<times> int) list \<Rightarrow> int \<Rightarrow> int \<Rightarrow> int \<Rightarrow> int \<Rightarrow> int \<Rightarrow>
   pyfloat \<Rightarrow> pyfloat \<Rightarrow> pyfloat \<Rightarrow> layer_args list" where
  "llama_calls a h layers seqlen b hs ah kvh w_byte a_byte kv_byte =
     concat (map (linear_calls seqlen b w_byte a_byte kv_byte) layers) @
     stage_list a Decode 1 seqlen b hs (hs div ah) ah kvh a_byte kv_byte (hw_onchip_buffer h)
       (llama_norm_layers (ma_model_params a)) @
     stage_list a Prefill seqlen seqlen b hs (hs div ah) ah kvh a_byte kv_byte (hw_onchip_buffer h)
       (llama_norm_layers (ma_model_params a))"

lemma stage_list_ok:
  assumes "0 < q" "0 < s" "0 < b" "0 < hs" "0 < he" "0 < ah" "0 < kvh" "0 < ab" "0 < kvb" "0 < buf"
    and "c \<in> set (stage_list a st q s b hs he ah kvh ab kvb buf norms)"
  shows "call_ok c"
proof -
  have "0 < min \<lceil>buf / (kvb * of_int he)\<rceil> he" using assms by (simp add: field_simps)
  then have "0 \<le> \<lceil>of_int q / of_int (min \<lceil>buf / (kvb * of_int he)\<rceil> he) :: real\<rceil>"
    using assms(1) by (metis ceiling_mono ceiling_zero divide_nonneg_pos of_int_0_le_iff
        of_int_0_less_iff order_less_imp_le)
  then have "call_ok (attention_call st q \<lceil>of_int q / of_int (min \<lceil>buf / (kvb * of_int he)\<rceil> he) :: real\<rceil> s b he
      ah kvh ab kvb)"
    by (intro attention_call_ok assms)
  moreover have "call_ok c" if "c \<in> set (elementwise_calls st q b hs ab norms)"
    by (rule elementwise_calls_ok [OF assms(1,3,4,8) that])
  ultimately show ?thesis using assms(11) unfolding stage_list_def set_simps by blast
qed

lemma llama_calls_ok:
  assumes "0 < s" "0 < b" "0 < hs" "0 < ah" "ah \<le> hs" "0 < kvh" "0 < w" "0 < ab" "0 < kvb"
    and "0 < hw_onchip_buffer h" and "\<And>n ic oc. (n, ic, oc) \<in> set layers \<Longrightarrow> 0 < ic \<and> 0 < oc"
    and "c \<in> set (llama_calls a h layers s b hs ah kvh w ab kvb)"
  shows "call_ok c"
proof -
  have he: "0 < hs div ah" using assms by (simp add: pos_imp_zdiv_pos_iff)
  note st = stage_list_ok [OF _ assms(1-3) he assms(4,6,8,9,10)]
  have lin: "call_ok c" if l: "l \<in> set layers" "c \<in> set (linear_calls s b w ab kvb l)" for l
  proof -
    obtain n ic oc where l': "l = (n, ic, oc)" by (cases l)
    then have "0 < ic" "0 < oc" using assms(11) l(1) by blast+
    then show ?thesis using linear_calls_ok [OF assms(1,2,7,8,9)] l(2) l' by blast
  qed
  have "c \<in> set (concat (map (linear_calls s b w ab kvb) layers)) \<or>
      c \<in> set (stage_list a Decode 1 s b hs (hs div ah) ah kvh ab kvb (hw_onchip_buffer h)
        (llama_norm_layers (ma_model_params a))) \<or>
      c \<in> set (stage_list a Prefill s s b hs (hs div ah) ah kvh ab kvb (hw_onchip_buffer h)
        (llama_norm_layers (ma_model_params a)))"
    using assms(12) unfolding llama_calls_def by simp
  then show ?thesis
    using lin st [OF zero_less_one, of c] st [OF assms(1), of c] unfolding set_concat set_map by blast
qed

lemma analyze_llama:
  assumes cfg: "ma_config a = Some llama"
    and sz: "ma_model_params a ''hidden_size'' = Some hs" "ma_model_params a ''num_key_value_heads'' = Some kvh"
      "ma_model_params a ''num_attention_heads'' = Some ah" "ma_model_params a ''num_hidden_layers'' = Some nl"
    and layers: "llama_linear_layers (ma_model_params a) tp = Inr layers"
    and kv: "kv = (case kv_bit of None \<Rightarrow> a_bit | Some k \<Rightarrow> k)"
    and info: "get_hardware_info a w_bit a_bit kv = Inr (hw_bandwidth h, mx, hw_onchip_buffer h)"
    and p: "0 < hw_bandwidth h" "0 < mx" "0 < hw_onchip_buffer h"
    and lin: "\<And>n ic oc. (n, ic, oc) \<in> set layers \<Longrightarrow> 0 < ic \<and> 0 < oc"
    and pos: "0 < seqlen" "0 < b" "0 < hs" "0 < ah" "ah \<le> hs" "0 < kvh" "0 < w_bit" "0 < a_bit" "0 < kv"
    and rs: "rs = add_calls (hw_bandwidth h) mx
      (llama_calls a h layers seqlen b hs ah kvh (of_int w_bit / 8) (of_int a_bit / 8) (of_int kv / 8)) (\<lambda>_. [])"
    and tot: "tot = (\<lambda>st. stage_totals nl (rs st))"
  shows "analyze a seqlen b w_bit a_bit kv_bit tp =
    rbind (llama_post_process (ma_model_params a)
      \<lparr>pa_batchsize = b, pa_a_byte = of_int a_bit / 8, pa_w_byte = of_int w_bit / 8\<rparr>) (\<lambda>post.
    rbind (for_res (post_step (Inr (hw_bandwidth h, mx, hw_onchip_buffer h))) post (rs, tot)) (\<lambda>s.
      Inr \<lparr>an_layers = fst s, an_totals = snd s, an_memory = (\<lambda>st. memory_footprint (tot Prefill) (rs st))\<rparr>))"
proof -
  have he: "0 < hs div ah" using pos by (simp add: pos_imp_zdiv_pos_iff)
  have cfgs: "config_size a n mc_num_attention_heads = Inr ah" "config_size a n mc_hidden_size = Inr hs"
      "config_size a n mc_num_key_value_heads = Inr kvh" "config_size a n mc_num_hidden_layers = Inr nl"
      "config_fun a n mc_linear_layers = Inr llama_linear_layers" "config_fun a n mc_norm_layers = Inr llama_norm_layers"
      "config_fun a n mc_post_process = Inr llama_post_process" for n
    using cfg sz by (simp_all add: config_size_def config_fun_def llama_def llama_num_attention_heads_def
      llama_hidden_size_def llama_num_key_value_heads_def llama_num_hidden_layers_def get_attr_def)
  have bytes: "0 < real_of_int w_bit / 8" "0 < real_of_int a_bit / 8" "0 < real_of_int kv / 8" using pos by simp_all
  have run: "for_res (analyze_to_results (Inr (hw_bandwidth h, mx, hw_onchip_buffer h)))
      (concat (map (linear_calls seqlen b (of_int w_bit / 8) (of_int a_bit / 8) (of_int kv / 8)) layers)) r0 =
    Inr (add_calls (hw_bandwidth h) mx
      (concat (map (linear_calls seqlen b (of_int w_bit / 8) (of_int a_bit / 8) (of_int kv / 8)) layers)) r0)" for r0
    by (rule for_res_analyze [OF p(1,2)])
      (use lin linear_calls_ok [OF pos(1,2) bytes] in force)
  note stage = stage_calls_ok [OF p _ pos(1,2,3) he pos(4,6) bytes(2,3) cfgs(6)]
  show ?thesis
    unfolding analyze_def kv [symmetric]
    using pos he
    by (simp add: py_assert_def cfgs info layers run stage py_floordiv_def add_calls_append Let_def
        rs tot llama_calls_def)
qed

lemma block_sum:
  "x \<notin> set (map fst rs) \<Longrightarrow> (\<Sum>(n, r) \<leftarrow> rs. (if n = x then 1 else k) * lr_inference_time r) =
    k * (\<Sum>p \<leftarrow> rs. lr_inference_time (snd p))"
  by (induction rs) (auto simp: algebra_simps)

text \<open>C21: On a known GPU, a Llama model with positive sizes, positive sequence length, batch and bit
  widths and a tensor-parallel size that divides the sizes, the analysis succeeds. It reports every
  layer of the model once, in both stages; every layer costs exactly its roofline time, the maximum
  of computing its operations and moving its bytes; and the time of a stage is the number of hidden
  layers times the sum over the layers of a block, plus the language-model head once.\<close>

theorem analyze_roofline:
  assumes cfg: "ma_config a = Some llama" and m: "llama_params_ok (ma_model_params a)"
    and hw: "dict_get hardware_params (ma_hardware a) = Inr h"
    and tp: "tp_admissible (ma_model_params a) tp"
    and pos: "0 < seqlen" "0 < batch" "0 < w_bit" "0 < a_bit" "\<And>k. kv_bit = Some k \<Longrightarrow> 0 < k"
    and nl: "ma_model_params a ''num_hidden_layers'' = Some nl"
  shows "\<exists>an mx. analyze a seqlen batch w_bit a_bit kv_bit tp = Inr an \<and>
    mx \<in> {hw_FP16 h, hw_INT8 h} \<and>
    (\<forall>st. map fst (an_layers an st) = llama_layer_names @ [''lm_head''] \<and>
       roofline_results (hw_bandwidth h) mx (an_layers an st) \<and>
       t_inference_time (an_totals an st) =
         (\<Sum>(n, r) \<leftarrow> an_layers an st. (if n = ''lm_head'' then 1 else of_int nl) * lr_inference_time r))"
proof -
  let ?m = "ma_model_params a" and ?kv = "case kv_bit of None \<Rightarrow> a_bit | Some k \<Rightarrow> k"
  let ?w = "of_int w_bit / 8 :: real" and ?a = "of_int a_bit / 8 :: real" and ?k = "of_int ?kv / 8 :: real"
  have bytes: "0 < ?w" "0 < ?a" "0 < ?k" using pos by (auto split: option.split)
  obtain mx where info: "get_hardware_info a w_bit a_bit ?kv = Inr (hw_bandwidth h, mx, hw_onchip_buffer h)"
      and mx: "mx \<in> {hw_FP16 h, hw_INT8 h}"
      and p: "0 < hw_bandwidth h" "0 < mx" "0 < hw_onchip_buffer h"
    using get_hardware_info_ok [OF hw, of w_bit a_bit ?kv] by (metis insertCI)
  obtain hs kvh ah where sz: "?m ''hidden_size'' = Some hs" "?m ''num_key_value_heads'' = Some kvh"
      "?m ''num_attention_heads'' = Some ah" "0 < hs" "0 < kvh" "0 < ah" "ah \<le> hs"
    using m by (auto simp: llama_params_ok_def)
  obtain layers where layers: "llama_linear_layers ?m tp = Inr layers"
      "map fst layers = take 7 llama_layer_names" "\<And>n ic oc. (n, ic, oc) \<in> set layers \<Longrightarrow> 0 < ic \<and> 0 < oc"
    using llama_linear_layers_ok [OF m tp] by blast
  let ?bw = "hw_bandwidth h"
  define rs where "rs = add_calls ?bw mx (llama_calls a h layers seqlen batch hs ah kvh ?w ?a ?k) (\<lambda>_. [])"
  note calls = llama_calls_ok [OF pos(1,2) sz(4,6,7,5) bytes p(3) layers(3)]
  have rs: "map fst (rs st) = llama_layer_names" "roofline_results ?bw mx (rs st)" for st
    unfolding rs_def llama_calls_def
    by (rule llama_stage_results [OF p(1,2) _ refl layers(2) refl refl], use calls in \<open>auto simp: llama_calls_def\<close>)+
  define tot where "tot = (\<lambda>st. stage_totals nl (rs st))"
  obtain post r where post: "llama_post_process ?m \<lparr>pa_batchsize = batch, pa_a_byte = ?a, pa_w_byte = ?w\<rparr> = Inr post"
    "for_res (post_step (Inr (?bw, mx, hw_onchip_buffer h))) post (rs, tot) =
       Inr (\<lambda>st. rs st @ [(''lm_head'', r st)], \<lambda>st. add_result 1 (r st) (tot st))"
    "\<And>st. roofline_results ?bw mx [(''lm_head'', r st)]"
    by (rule llama_post_ok [where rs = rs and buf = "hw_onchip_buffer h" and tot = tot, OF p(1,2) m pos(2) bytes(1,2) rs(1)]) (rule that)
  have kv: "0 < ?kv" using bytes(3) by simp
  have "analyze a seqlen batch w_bit a_bit kv_bit tp = Inr \<lparr>an_layers = (\<lambda>st. rs st @ [(''lm_head'', r st)]),
      an_totals = (\<lambda>st. add_result 1 (r st) (tot st)), an_memory = (\<lambda>st. memory_footprint (tot Prefill) (rs st))\<rparr>"
    using analyze_llama [OF cfg sz(1,2,3) nl layers(1) refl info p layers(3) pos(1,2) sz(4,6,7,5) pos(3,4) kv rs_def tot_def]
      post(1,2) by simp
  moreover have "t_inference_time (add_result 1 (r st) (tot st)) =
      (\<Sum>(n, r) \<leftarrow> rs st @ [(''lm_head'', r st)]. (if n = ''lm_head'' then 1 else of_int nl) * lr_inference_time r)" for st
  proof -
    have "''lm_head'' \<notin> set (map fst (rs st))" by (simp only: rs) (simp add: llama_layer_names_def)
    then have "(\<Sum>(n, r) \<leftarrow> rs st. (if n = ''lm_head'' then 1 else of_int nl) * lr_inference_time r) =
        of_int nl * (\<Sum>p \<leftarrow> rs st. lr_inference_time (snd p))"
      by (rule block_sum)
    then show ?thesis by (simp add: add_result_def tot_def stage_totals_time)
  qed
  ultimately show ?thesis
    using mx rs post(3) by (intro exI [of _ mx] exI) (auto simp: roofline_results_append)
qed

text \<open>Llama-2-7B on an A100 with two-way tensor parallelism.\<close>

theorem analyze_roofline_witness:
  "\<exists>an mx. analyze \<lparr>ma_model_id = ''llama'', ma_hardware = ''NVDA:A100'', ma_model_params = llama2_7b,
      ma_config = Some llama\<rparr> 128 4 16 16 None 2 = Inr an \<and> mx \<in> {312 * 10 ^ 12, 624 * 10 ^ 12} \<and>
    (\<forall>st. map fst (an_layers an st) = llama_layer_names @ [''lm_head''] \<and>
       roofline_results (1555 * 10 ^ 9) mx (an_layers an st) \<and>
       t_inference_time (an_totals an st) =
         (\<Sum>(n, r) \<leftarrow> an_layers an st. (if n = ''lm_head'' then 1 else of_int 32) * lr_inference_time r))"
proof -
  let ?h = "\<lparr>hw_bandwidth = 1555 * 10 ^ 9, hw_FP16 = 312 * 10 ^ 12, hw_INT8 = 624 * 10 ^ 12,
        hw_onchip_buffer = 27648 * 10 ^ 3, hw_vmemory = 40 * 10 ^ 9, hw_price_per_hour = 65 / 100\<rparr> :: hardware_spec"
  have hw: "dict_get hardware_params ''NVDA:A100'' = Inr ?h"
    by (simp add: hardware_params_def dict_get_def)
  show ?thesis
    using analyze_roofline [of "\<lparr>ma_model_id = ''llama'', ma_hardware = ''NVDA:A100'',
      ma_model_params = llama2_7b, ma_config = Some llama\<rparr>" ?h 2 128 4 16 16 None 32] hw llama2_7b_ok
    by (simp add: tp_admissible_def llama2_7b_def)
qed

end
