(* ===== verification/Heapq.thy ===== *)
theory Heapq
  imports Prelude
begin

text \<open>
  The standard library's \<open>heapq\<close> as the event loop uses it: a list kept as a binary heap by
  \<open>heappush\<close> and \<open>heappop\<close>, which compare elements with \<open>__lt__\<close> only. The
  functions follow the library's two sift loops, so that the positions of equal elements (and with
  them the order in which simultaneous events are processed) are those of the program.

  The locale \<open>strict_weak\<close> states what the comparison must satisfy, the locale
  \<open>prio_queue\<close> what a client of the queue may rely on; the sublocale shows that the list
  heap provides it.
\<close>

section \<open>The two sift loops, push and pop\<close>

abbreviation parent :: "nat \<Rightarrow> nat" where
  "parent i \<equiv> (i - 1) div 2"

text \<open>
  \<open>_siftdown(heap, 0, pos)\<close> for the item \<open>x\<close> that belongs at the hole \<open>pos\<close>: parents
  move down while \<open>x\<close> is smaller, then \<open>x\<close> fills the hole.
\<close>

function siftdown :: "('a \<Rightarrow> 'a \<Rightarrow> bool) \<Rightarrow> 'a list \<Rightarrow> nat \<Rightarrow> 'a \<Rightarrow> 'a list" where
  "siftdown lt h pos x =
     (if 0 < pos \<and> lt x (h ! parent pos)
      then siftdown lt (h[pos := h ! parent pos]) (parent pos) x
      else h[pos := x])"
  by pat_completeness auto
termination
  by (relation "measure (\<lambda>(lt, h, pos, x). pos)") auto

declare siftdown.simps [simp del]

text \<open>
  \<open>_siftup(heap, pos)\<close>: the smaller child moves up until the hole is at a leaf (of two
  children the right one unless the left one is strictly smaller), then \<open>_siftdown\<close> from there.
\<close>

definition small_child :: "('a \<Rightarrow> 'a \<Rightarrow> bool) \<Rightarrow> 'a list \<Rightarrow> nat \<Rightarrow> nat" where
  "small_child lt h pos =
     (let c = 2 * pos + 1; r = c + 1
      in if r < length h \<and> \<not> lt (h ! c) (h ! r) then r else c)"

function sift_hole :: "('a \<Rightarrow> 'a \<Rightarrow> bool) \<Rightarrow> 'a list \<Rightarrow> nat \<Rightarrow> 'a list \<times> nat" where
  "sift_hole lt h pos =
     (if 2 * pos + 1 < length h
      then sift_hole lt (h[pos := h ! small_child lt h pos]) (small_child lt h pos)
      else (h, pos))"
  by pat_completeness auto
termination
  by (relation "measure (\<lambda>(lt, h, pos). length h - pos)") (auto simp: small_child_def Let_def)

declare sift_hole.simps [simp del]

definition siftup :: "('a \<Rightarrow> 'a \<Rightarrow> bool) \<Rightarrow> 'a list \<Rightarrow> 'a \<Rightarrow> 'a list" where
  "siftup lt h x = (let p = sift_hole lt h 0 in siftdown lt (fst p) (snd p) x)"

definition heappush :: "('a \<Rightarrow> 'a \<Rightarrow> bool) \<Rightarrow> 'a list \<Rightarrow> 'a \<Rightarrow> 'a list" where
  "heappush lt h x = siftdown lt (h @ [x]) (length h) x"

definition heappop :: "('a \<Rightarrow> 'a \<Rightarrow> bool) \<Rightarrow> 'a list \<Rightarrow> ('a \<times> 'a list) res" where
  "heappop lt h =
     (if h = [] then Inl (IndexError ''pop from empty list'')
      else let l = last h; r = butlast h
           in if r = [] then Inr (l, []) else Inr (r ! 0, siftup lt r l))"

section \<open>Permutation and length\<close>

lemma mset_hole_move:
  assumes "i < length h" "j < length h"
  shows "mset ((h[i := h ! j])[j := x]) = mset (h[i := x])"
proof (cases "i = j")
  case False
  have "mset ((h[i := h ! j])[j := x]) = add_mset x (mset (h[i := h ! j]) - {# h ! j #})"
    using assms False by (simp add: mset_update)
  also have "mset (h[i := h ! j]) = add_mset (h ! j) (mset h - {# h ! i #})"
    using assms by (simp add: mset_update)
  finally show ?thesis using assms by (simp add: mset_update)
qed simp

lemma length_siftdown [simp]: "length (siftdown lt h pos x) = length h"
  by (induction lt h pos x rule: siftdown.induct) (auto simp: siftdown.simps)

lemma mset_siftdown: "pos < length h \<Longrightarrow> mset (siftdown lt h pos x) = mset (h[pos := x])"
proof (induction lt h pos x rule: siftdown.induct)
  case (1 lt h pos x)
  show ?case
  proof (cases "0 < pos \<and> lt x (h ! parent pos)")
    case True
    then have "mset (siftdown lt h pos x) = mset ((h[pos := h ! parent pos])[parent pos := x])"
      using "1.IH" "1.prems" by (simp add: siftdown.simps [of lt h pos x])
    with "1.prems" show ?thesis by (simp add: mset_hole_move)
  next
    case False
    then have "siftdown lt h pos x = h[pos := x]" by (subst siftdown.simps) (simp only: if_False)
    then show ?thesis by simp
  qed
qed

lemma small_child_bounds:
  "2 * pos + 1 < length h \<Longrightarrow> small_child lt h pos < length h"
  "pos < small_child lt h pos" "parent (small_child lt h pos) = pos"
  by (auto simp: small_child_def Let_def)

lemma sift_hole_result:
  assumes "pos < length h"
  shows "length (fst (sift_hole lt h pos)) = length h"
    and "snd (sift_hole lt h pos) < length h"
    and "length h \<le> 2 * snd (sift_hole lt h pos) + 1"
    and "mset ((fst (sift_hole lt h pos))[snd (sift_hole lt h pos) := x]) = mset (h[pos := x])"
  using assms
proof (induction lt h pos rule: sift_hole.induct)
  case (1 lt h pos)
  let ?c = "small_child lt h pos"
  {
    case 1
    then show ?case using "1.IH"(1) small_child_bounds(1) [of pos h lt]
      by (simp add: sift_hole.simps [of lt h pos])
  next
    case 2
    then show ?case using "1.IH"(2) small_child_bounds(1) [of pos h lt]
      by (simp add: sift_hole.simps [of lt h pos])
  next
    case 3
    then show ?case using "1.IH"(3) small_child_bounds(1) [of pos h lt]
      by (simp add: sift_hole.simps [of lt h pos])
  next
    case 4
    show ?case
    proof (cases "2 * pos + 1 < length h")
      case True
      then have "mset ((h[pos := h ! ?c])[?c := x]) = mset (h[pos := x])"
        using 4 small_child_bounds(1) [of pos h lt] by (simp add: mset_hole_move)
      then show ?thesis using True "1.IH"(4) small_child_bounds(1) [of pos h lt]
        by (simp add: sift_hole.simps [of lt h pos])
    next
      case False
      then show ?thesis by (simp add: sift_hole.simps [of lt h pos])
    qed
  }
qed

lemma mset_siftup: "h \<noteq> [] \<Longrightarrow> mset (siftup lt h x) = mset (h[0 := x])"
  using sift_hole_result [of 0 h lt] by (simp add: siftup_def Let_def mset_siftdown)

lemma mset_heappush [simp]: "mset (heappush lt h x) = add_mset x (mset h)"
  by (simp add: heappush_def mset_siftdown)

lemma length_heappush [simp]: "length (heappush lt h x) = Suc (length h)"
  by (simp add: heappush_def)

lemma set_heappush [simp]: "set (heappush lt h x) = insert x (set h)"
  by (simp flip: set_mset_mset)

lemma heappop_mset:
  assumes "heappop lt h = Inr (x, h')"
  shows "mset h = add_mset x (mset h')"
proof (cases "butlast h = []")
  case True
  with assms have "h = [x]" and "h' = []"
    by (auto simp: heappop_def Let_def split: if_splits) (metis append_butlast_last_id append_Nil)
  then show ?thesis by simp
next
  case False
  then have ne: "h \<noteq> []" by auto
  let ?r = "butlast h"
  from assms False ne have x: "x = ?r ! 0" and h': "h' = siftup lt ?r (last h)"
    by (auto simp: heappop_def Let_def)
  have "mset h' = add_mset (last h) (mset ?r - {# ?r ! 0 #})"
    unfolding h' mset_siftup [OF False]
    by (rule mset_update) (rule length_greater_0_conv [THEN iffD2, OF False])
  moreover have "?r ! 0 \<in># mset ?r"
    unfolding set_mset_mset by (rule nth_mem) (rule length_greater_0_conv [THEN iffD2, OF False])
  moreover have "mset h = add_mset (last h) (mset ?r)"
    using ne by (metis append_butlast_last_id mset_append union_mset_add_mset_right
        mset.simps(1) mset.simps(2) add.right_neutral)
  ultimately show ?thesis by (simp add: x)
qed

lemma heappop_length: "heappop lt h = Inr (x, h') \<Longrightarrow> length h = Suc (length h')"
  by (drule heappop_mset) (metis size_add_mset size_mset)

lemma heappop_total: "h \<noteq> [] \<Longrightarrow> \<exists>x h'. heappop lt h = Inr (x, h')"
  by (auto simp: heappop_def Let_def)

lemma heappop_set: "heappop lt h = Inr (x, h') \<Longrightarrow> set h = insert x (set h')"
  by (drule heappop_mset) (metis set_mset_add_mset_insert set_mset_mset)

section \<open>The interface of a priority queue\<close>

text \<open>
  What the event loop relies on: pushing and popping keep the queue well formed, pushing adds one
  element, popping a non-empty queue removes one, and no remaining element comes before it.
\<close>

locale prio_queue =
  fixes push :: "'a list \<Rightarrow> 'a \<Rightarrow> 'a list"
    and pop :: "'a list \<Rightarrow> ('a \<times> 'a list) res"
    and before :: "'a \<Rightarrow> 'a \<Rightarrow> bool"
    and invar :: "'a list \<Rightarrow> bool"
  assumes invar_Nil: "invar []"
    and invar_push: "invar q \<Longrightarrow> invar (push q x)"
    and mset_push: "mset (push q x) = add_mset x (mset q)"
    and pop_total: "q \<noteq> [] \<Longrightarrow> \<exists>x q'. pop q = Inr (x, q')"
    and mset_pop: "pop q = Inr (x, q') \<Longrightarrow> mset q = add_mset x (mset q')"
    and invar_pop: "invar q \<Longrightarrow> pop q = Inr (x, q') \<Longrightarrow> invar q'"
    and pop_least: "invar q \<Longrightarrow> pop q = Inr (x, q') \<Longrightarrow> y \<in> set q' \<Longrightarrow> \<not> before y x"
begin

text \<open>Popping everything yields the elements in an order in which none comes before an earlier one.\<close>

fun drain :: "nat \<Rightarrow> 'a list \<Rightarrow> 'a list" where
  "drain 0 q = []"
| "drain (Suc n) q = (case pop q of Inl e \<Rightarrow> [] | Inr (x, q') \<Rightarrow> x # drain n q')"

lemma mset_drain: "length q = n \<Longrightarrow> mset (drain n q) = mset q"
proof (induction n arbitrary: q)
  case (Suc n)
  then have "q \<noteq> []" by auto
  then obtain x q' where p: "pop q = Inr (x, q')" using pop_total by blast
  then have "mset q = add_mset x (mset q')" by (rule mset_pop)
  moreover from this have "length q' = n" using Suc.prems by (metis size_mset size_add_mset nat.inject)
  ultimately show ?case using Suc.IH p by simp
qed simp

lemma sorted_drain: "invar q \<Longrightarrow> length q = n \<Longrightarrow> sorted_wrt (\<lambda>x y. \<not> before y x) (drain n q)"
proof (induction n arbitrary: q)
  case (Suc n)
  then have "q \<noteq> []" by auto
  then obtain x q' where p: "pop q = Inr (x, q')" using pop_total by blast
  have q: "mset q = add_mset x (mset q')" using p by (rule mset_pop)
  then have len: "length q' = n" using Suc.prems by (metis size_mset size_add_mset nat.inject)
  have "set (drain n q') = set q'" using mset_drain [OF len] by (metis set_mset_mset)
  then have "\<forall>y \<in> set (drain n q'). \<not> before y x" using pop_least [OF Suc.prems(1) p] by blast
  moreover have "sorted_wrt (\<lambda>x y. \<not> before y x) (drain n q')"
    using Suc.IH [OF invar_pop [OF Suc.prems(1) p] len] .
  ultimately show ?case by (simp add: p)
qed simp

end

section \<open>List heaps provide it\<close>

definition heap_list :: "('a \<Rightarrow> 'a \<Rightarrow> bool) \<Rightarrow> 'a list \<Rightarrow> bool" where
  "heap_list lt h \<longleftrightarrow> (\<forall>i < length h. 0 < i \<longrightarrow> \<not> lt (h ! i) (h ! parent i))"

text \<open>A heap with a hole: the order holds around the hole, and across it from its parent to its
  children; the element at the hole does not matter.\<close>

definition holed :: "('a \<Rightarrow> 'a \<Rightarrow> bool) \<Rightarrow> 'a list \<Rightarrow> nat \<Rightarrow> bool" where
  "holed lt h pos \<longleftrightarrow>
     (\<forall>i < length h. 0 < i \<longrightarrow> i \<noteq> pos \<longrightarrow> parent i \<noteq> pos \<longrightarrow> \<not> lt (h ! i) (h ! parent i)) \<and>
     (\<forall>i < length h. 0 < i \<longrightarrow> parent i = pos \<longrightarrow> 0 < pos \<longrightarrow> \<not> lt (h ! i) (h ! parent pos))"

definition fits_hole :: "('a \<Rightarrow> 'a \<Rightarrow> bool) \<Rightarrow> 'a list \<Rightarrow> nat \<Rightarrow> 'a \<Rightarrow> bool" where
  "fits_hole lt h pos x \<longleftrightarrow> (\<forall>i < length h. 0 < i \<longrightarrow> parent i = pos \<longrightarrow> \<not> lt (h ! i) x)"

locale strict_weak =
  fixes lt :: "'a \<Rightarrow> 'a \<Rightarrow> bool"
  assumes irrefl: "\<not> lt x x"
    and trans: "lt x y \<Longrightarrow> lt y z \<Longrightarrow> lt x z"
    and cotrans: "lt x z \<Longrightarrow> lt x y \<or> lt y z"
begin

lemma nlt_trans: "\<not> lt y x \<Longrightarrow> \<not> lt z y \<Longrightarrow> \<not> lt z x"
  using cotrans by blast

lemma lt_asym: "lt x y \<Longrightarrow> \<not> lt y x"
  using irrefl trans by blast

lemma heap_siftdown:
  assumes "pos < length h" "holed lt h pos" "fits_hole lt h pos x"
  shows "heap_list lt (siftdown lt h pos x)"
  using assms
proof (induction pos arbitrary: h rule: less_induct)
  case (less pos)
  let ?p = "parent pos" and ?h = "h[pos := h ! parent pos]"
  show ?case
  proof (cases "0 < pos \<and> lt x (h ! ?p)")
    case True
    then have lt: "lt x (h ! ?p)" and p: "?p < pos" "?p < length h" using less.prems(1) by auto
    have hp: "\<not> lt (h ! ?p) (h ! parent ?p)" if "0 < ?p"
      using that less.prems(2) p True by (auto simp: holed_def)
    have sib: "\<not> lt (h ! i) (h ! ?p)" if "i < length h" "0 < i" "parent i = ?p" "i \<noteq> pos" for i
      using that less.prems(2) p unfolding holed_def by (metis less_irrefl)
    have "holed lt ?h ?p" unfolding holed_def
    proof (intro conjI allI impI)
      fix i assume i: "i < length ?h" "0 < i" "i \<noteq> ?p" "parent i \<noteq> ?p"
      then have "?h ! i = h ! i" by auto
      moreover have "\<not> lt (h ! i) (?h ! parent i)"
        using less.prems(1,2) i True by (cases "parent i = pos") (auto simp: holed_def)
      ultimately show "\<not> lt (?h ! i) (?h ! parent i)" by simp
    next
      fix i assume i: "i < length ?h" "0 < i" "parent i = ?p" "0 < ?p"
      have pp: "?h ! parent ?p = h ! parent ?p" using p by auto
      show "\<not> lt (?h ! i) (?h ! parent ?p)"
      proof (cases "i = pos")
        case True
        then show ?thesis using hp i(4) less.prems(1) pp by simp
      next
        case False
        then have "?h ! i = h ! i" by simp
        then show ?thesis using nlt_trans [OF hp sib] False i pp by simp
      qed
    qed
    moreover have "fits_hole lt ?h ?p x" unfolding fits_hole_def
    proof (intro allI impI)
      fix i assume i: "i < length ?h" "0 < i" "parent i = ?p"
      show "\<not> lt (?h ! i) x"
      proof (cases "i = pos")
        case True
        then show ?thesis using lt_asym [OF lt] less.prems(1) by simp
      next
        case False
        then have "?h ! i = h ! i" by simp
        then show ?thesis using nlt_trans [OF lt_asym [OF lt] sib] False i by simp
      qed
    qed
    ultimately show ?thesis using less.IH [OF p(1), of ?h] p True
      by (simp add: siftdown.simps [of lt h pos x])
  next
    case False
    then have eq: "siftdown lt h pos x = h[pos := x]"
      by (subst siftdown.simps) (simp only: if_False)
    show ?thesis using False less.prems
      unfolding eq heap_list_def holed_def fits_hole_def by (auto simp: nth_list_update)
  qed
qed

lemma holed_sift_hole:
  assumes "pos < length h" "holed lt h pos"
  shows "holed lt (fst (sift_hole lt h pos)) (snd (sift_hole lt h pos))"
  using assms
proof (induction "length h - pos" arbitrary: h pos rule: less_induct)
  case less
  let ?c = "small_child lt h pos" and ?h = "h[pos := h ! small_child lt h pos]"
  show ?case
  proof (cases "2 * pos + 1 < length h")
    case True
    note c = small_child_bounds(1) [OF True, of lt] small_child_bounds(2,3) [where h = h and lt = lt and pos = pos]
    have min: "\<not> lt (h ! i) (h ! ?c)" if "i < length h" "0 < i" "parent i = pos" for i
    proof -
      have "i = 2 * pos + 1 \<or> i = 2 * pos + 2" using that by auto
      with that show ?thesis
        by (auto simp: small_child_def Let_def irrefl dest: lt_asym)
    qed
    have "holed lt ?h ?c" unfolding holed_def
    proof (intro conjI allI impI)
      fix i assume i: "i < length ?h" "0 < i" "i \<noteq> ?c" "parent i \<noteq> ?c"
      show "\<not> lt (?h ! i) (?h ! parent i)"
      proof (cases "i = pos")
        case True
        then have "\<not> lt (h ! ?c) (h ! parent pos)" using less.prems(2) c i by (auto simp: holed_def)
        moreover have "parent i \<noteq> pos" using True i(2) by auto
        ultimately show ?thesis using True i(1) by simp
      next
        case False
        then show ?thesis using less.prems min i c
          by (cases "parent i = pos") (auto simp: holed_def)
      qed
    next
      fix i assume i: "i < length ?h" "0 < i" "parent i = ?c" "0 < ?c"
      have "i \<noteq> pos" "parent i \<noteq> pos" using i c by auto
      then have "\<not> lt (h ! i) (h ! parent i)" using less.prems(2) i by (auto simp: holed_def)
      then show "\<not> lt (?h ! i) (?h ! parent ?c)" using i c \<open>i \<noteq> pos\<close> less.prems(1) by simp
    qed
    with c less.hyps [of ?h ?c] show ?thesis
      using True less.prems(1) by (simp add: sift_hole.simps [of lt h pos])
  next
    case False
    with less.prems show ?thesis by (simp add: sift_hole.simps [of lt h pos])
  qed
qed

lemma heap_push: "heap_list lt h \<Longrightarrow> heap_list lt (heappush lt h x)"
  unfolding heappush_def
  by (rule heap_siftdown) (auto simp: heap_list_def holed_def fits_hole_def nth_append)

lemma heap_siftup:
  assumes "heap_list lt h" "h \<noteq> []"
  shows "heap_list lt (siftup lt h x)"
proof -
  have "holed lt h 0" using assms(1) by (auto simp: heap_list_def holed_def)
  then have "holed lt (fst (sift_hole lt h 0)) (snd (sift_hole lt h 0))"
    using assms(2) by (auto intro: holed_sift_hole)
  moreover have "fits_hole lt (fst (sift_hole lt h 0)) (snd (sift_hole lt h 0)) x"
    using sift_hole_result(1,3) [of 0 h lt] assms(2) by (auto simp: fits_hole_def)
  ultimately show ?thesis using sift_hole_result(1,2) [of 0 h lt] assms(2)
    by (auto simp: siftup_def Let_def intro: heap_siftdown)
qed

lemma heap_butlast: "heap_list lt h \<Longrightarrow> heap_list lt (butlast h)"
  by (auto simp: heap_list_def nth_butlast)

lemma heap_pop: "heap_list lt h \<Longrightarrow> heappop lt h = Inr (x, h') \<Longrightarrow> heap_list lt h'"
  by (auto simp: heappop_def Let_def heap_list_def [of lt "[]"] intro: heap_siftup heap_butlast
      split: if_splits)

lemma heap_root_least: "heap_list lt h \<Longrightarrow> i < length h \<Longrightarrow> \<not> lt (h ! i) (h ! 0)"
proof (induction i rule: less_induct)
  case (less i)
  show ?case
  proof (cases "i = 0")
    case False
    then have "\<not> lt (h ! parent i) (h ! 0)" using less by auto
    moreover have "\<not> lt (h ! i) (h ! parent i)" using less.prems False by (auto simp: heap_list_def)
    ultimately show ?thesis by (rule nlt_trans)
  qed (simp add: irrefl)
qed

lemma heappop_head: "heappop lt h = Inr (x, h') \<Longrightarrow> x = h ! 0"
  by (cases h rule: rev_cases) (auto simp: heappop_def Let_def nth_append split: if_splits)

lemma heappop_least:
  assumes "heap_list lt h" "heappop lt h = Inr (x, h')" "y \<in> set h'"
  shows "\<not> lt y x"
proof -
  have "y \<in> set h" using heappop_set [OF assms(2)] assms(3) by simp
  then obtain i where "i < length h" "y = h ! i" by (auto simp: in_set_conv_nth)
  then show ?thesis using heap_root_least [OF assms(1)] heappop_head [OF assms(2)] by simp
qed

end

sublocale strict_weak \<subseteq> heap_queue: prio_queue "heappush lt" "heappop lt" lt "heap_list lt"
  by unfold_locales
    (auto simp: heap_list_def [of lt "[]"] intro: heap_push heappop_total heappop_mset heap_pop
      dest: heappop_least)

end
