(* ===== verification/Sim_Events.thy ===== *)
theory Sim_Events
  imports Heapq
begin

text \<open>
  The discrete event simulation of \<open>simulator/core/events.py\<close>: events, their order, and the
  event loop. The loop's queue is the list heap of \<open>Heapq\<close>; handlers are named by a type
  \<open>'h\<close> and called through an argument, because a handler is a bound method of the object that
  owns the loop: the owner's state \<open>'w\<close> holds the loop, read by \<open>get\<close> and written by
  \<open>put\<close>. The random \<open>event_id\<close> of an event is never read and is left out.

  The locale \<open>loop_host\<close> states what the loop relies on (the owner stores the loop
  faithfully, its handlers change it only by scheduling events that are not in the past, or by
  stopping it) and proves once that the clock never runs backwards and the queue stays a heap.
\<close>

section \<open>Events\<close>

datatype event_type =
    REQUEST_ARRIVAL | NODE_ONLINE | NODE_OFFLINE | PLACEMENT_DECISION | LOAD_BALANCE
  | PREFILL_START | PREFILL_COMPLETE | DECODE_STEP | BATCH_FORM | MEMORY_CHECK
  | MODEL_LOAD | MODEL_UNLOAD | REQUEST_COMPLETE

fun event_type_value :: "event_type \<Rightarrow> string" where
  "event_type_value REQUEST_ARRIVAL = ''request_arrival''"
| "event_type_value NODE_ONLINE = ''node_online''"
| "event_type_value NODE_OFFLINE = ''node_offline''"
| "event_type_value PLACEMENT_DECISION = ''placement_decision''"
| "event_type_value LOAD_BALANCE = ''load_balance''"
| "event_type_value PREFILL_START = ''prefill_start''"
| "event_type_value PREFILL_COMPLETE = ''prefill_complete''"
| "event_type_value DECODE_STEP = ''decode_step''"
| "event_type_value BATCH_FORM = ''batch_form''"
| "event_type_value MEMORY_CHECK = ''memory_check''"
| "event_type_value MODEL_LOAD = ''model_load''"
| "event_type_value MODEL_UNLOAD = ''model_unload''"
| "event_type_value REQUEST_COMPLETE = ''request_complete''"

datatype event_priority = HIGHEST | HIGH | MEDIUM | LOW

fun priority_value :: "event_priority \<Rightarrow> int" where
  "priority_value HIGHEST = 1"
| "priority_value HIGH = 2"
| "priority_value MEDIUM = 3"
| "priority_value LOW = 4"

lemma priority_value_inject [simp]: "priority_value p = priority_value q \<longleftrightarrow> p = q"
  by (cases p; cases q) simp_all

instantiation event_priority :: linorder
begin

definition less_eq_event_priority :: "event_priority \<Rightarrow> event_priority \<Rightarrow> bool" where
  "less_eq_event_priority p q \<longleftrightarrow> priority_value p \<le> priority_value q"

definition less_event_priority :: "event_priority \<Rightarrow> event_priority \<Rightarrow> bool" where
  "less_event_priority p q \<longleftrightarrow> priority_value p < priority_value q"

instance
  by standard (auto simp: less_eq_event_priority_def less_event_priority_def)

end

record event =
  ev_timestamp :: pyfloat
  ev_type :: event_type
  ev_target :: string
  ev_data :: "pyval pydict"
  ev_priority :: event_priority

text \<open>\<open>Event.__lt__\<close>\<close>

definition event_lt :: "event \<Rightarrow> event \<Rightarrow> bool" where
  "event_lt e f =
     (if ev_timestamp e \<noteq> ev_timestamp f then ev_timestamp e < ev_timestamp f
      else ev_priority e < ev_priority f)"

interpretation event_order: strict_weak event_lt
proof
  fix x y z :: event
  show "\<not> event_lt x x" by (simp add: event_lt_def)
  show "event_lt x y \<Longrightarrow> event_lt y z \<Longrightarrow> event_lt x z"
    by (auto simp: event_lt_def split: if_splits)
  show "event_lt x z \<Longrightarrow> event_lt x y \<or> event_lt y z"
    by (auto simp: event_lt_def split: if_splits)
qed

lemma not_event_lt_timestamp: "\<not> event_lt y x \<Longrightarrow> ev_timestamp x \<le> ev_timestamp y"
  by (auto simp: event_lt_def split: if_splits)

abbreviation event_heap :: "event list \<Rightarrow> bool" where
  "event_heap \<equiv> heap_list event_lt"

section \<open>The event loop\<close>

record 'h event_loop =
  el_queue :: "event list"
  el_time :: pyfloat
  el_running :: bool
  el_handlers :: "event_type \<Rightarrow> 'h option"
  el_processed :: nat
  el_total_time :: pyfloat
  el_by_type :: "nat pydict"

definition loop_init :: "'h event_loop" where
  "loop_init = \<lparr>el_queue = [], el_time = 0, el_running = False, el_handlers = (\<lambda>_. None),
     el_processed = 0, el_total_time = 0, el_by_type = []\<rparr>"

definition schedule_event :: "event \<Rightarrow> 'h event_loop \<Rightarrow> 'h event_loop res" where
  "schedule_event ev l =
     (if ev_timestamp ev < el_time l then Inl (ValueError ''Cannot schedule event in the past'')
      else Inr (l\<lparr>el_queue := heappush event_lt (el_queue l) ev\<rparr>))"

definition register_handler :: "event_type \<Rightarrow> 'h \<Rightarrow> 'h event_loop \<Rightarrow> 'h event_loop" where
  "register_handler ty h l = l\<lparr>el_handlers := (el_handlers l)(ty := Some h)\<rparr>"

text \<open>The first half of \<open>step\<close>: pop the next event, advance the clock, count it.\<close>

definition loop_pop :: "'h event_loop \<Rightarrow> (event \<times> 'h event_loop) res" where
  "loop_pop l =
     rbind (heappop event_lt (el_queue l)) (\<lambda>(ev, q).
       Inr (ev, l\<lparr>el_queue := q, el_time := ev_timestamp ev, el_processed := el_processed l + 1,
         el_by_type := dict_bump (event_type_value (ev_type ev)) (el_by_type l)\<rparr>))"

definition loop_step ::
  "('w \<Rightarrow> 'h event_loop) \<Rightarrow> ('h event_loop \<Rightarrow> 'w \<Rightarrow> 'w) \<Rightarrow> ('h \<Rightarrow> event \<Rightarrow> 'w \<Rightarrow> 'w res) \<Rightarrow>
   'w \<Rightarrow> (bool \<times> 'w) res" where
  "loop_step get put call w =
     (if el_queue (get w) = [] then Inr (False, w)
      else rbind (loop_pop (get w)) (\<lambda>(ev, l).
        case el_handlers l (ev_type ev) of
          None \<Rightarrow> Inr (True, put l w)
        | Some h \<Rightarrow> rbind (call h ev (put l w)) (\<lambda>w'. Inr (True, w'))))"

text \<open>
  \<open>run\<close>: the limits are tested before each step. \<open>max_time = None\<close> stands for the default
  \<open>inf\<close>; the test of \<open>max_events\<close> is skipped for \<open>None\<close> and for \<open>0\<close>, which is
  falsy.
\<close>

definition over_time :: "pyfloat option \<Rightarrow> 'h event_loop \<Rightarrow> bool" where
  "over_time max_time l \<longleftrightarrow> (case max_time of None \<Rightarrow> False | Some t \<Rightarrow> t < el_time l)"

definition over_events :: "int option \<Rightarrow> nat \<Rightarrow> bool" where
  "over_events max_events n \<longleftrightarrow>
     (case max_events of None \<Rightarrow> False | Some m \<Rightarrow> m \<noteq> 0 \<and> m \<le> int n)"

partial_function (option) loop_while ::
  "('w \<Rightarrow> 'h event_loop) \<Rightarrow> ('h event_loop \<Rightarrow> 'w \<Rightarrow> 'w) \<Rightarrow> ('h \<Rightarrow> event \<Rightarrow> 'w \<Rightarrow> 'w res) \<Rightarrow>
   pyfloat option \<Rightarrow> int option \<Rightarrow> nat \<Rightarrow> 'w \<Rightarrow> 'w res option" where
  "loop_while get put call max_time max_events n w =
     (if el_running (get w) \<and> el_queue (get w) \<noteq> [] \<and> \<not> over_time max_time (get w) \<and>
         \<not> over_events max_events n
      then (case loop_step get put call w of
              Inl e \<Rightarrow> Some (Inl e)
            | Inr r \<Rightarrow> (if fst r then loop_while get put call max_time max_events (Suc n) (snd r)
                       else Some (Inr (snd r))))
      else Some (Inr w))"

definition loop_run ::
  "('w \<Rightarrow> 'h event_loop) \<Rightarrow> ('h event_loop \<Rightarrow> 'w \<Rightarrow> 'w) \<Rightarrow> ('h \<Rightarrow> event \<Rightarrow> 'w \<Rightarrow> 'w res) \<Rightarrow>
   pyfloat option \<Rightarrow> int option \<Rightarrow> 'w \<Rightarrow> 'w res option" where
  "loop_run get put call max_time max_events w =
     map_option (\<lambda>r. rbind r (\<lambda>w'.
         Inr (put ((get w')\<lparr>el_running := False, el_total_time := el_time (get w')\<rparr>) w')))
       (loop_while get put call max_time max_events 0 (put ((get w)\<lparr>el_running := True\<rparr>) w))"

definition loop_stop :: "'h event_loop \<Rightarrow> 'h event_loop" where
  "loop_stop l = l\<lparr>el_running := False\<rparr>"

definition get_next_event_time :: "'h event_loop \<Rightarrow> pyfloat option" where
  "get_next_event_time l = (case el_queue l of [] \<Rightarrow> None | e # _ \<Rightarrow> Some (ev_timestamp e))"

definition peek_next_events :: "int \<Rightarrow> 'h event_loop \<Rightarrow> event list" where
  "peek_next_events k l = py_take (el_queue l) k"

definition clear_future_events :: "string option \<Rightarrow> 'h event_loop \<Rightarrow> nat \<times> 'h event_loop" where
  "clear_future_events target l =
     (case target of
        None \<Rightarrow> (length (el_queue l), l\<lparr>el_queue := []\<rparr>)
      | Some t \<Rightarrow>
          let q = filter (\<lambda>e. ev_target e \<noteq> t) (el_queue l)
          in (length (el_queue l) - length q, l\<lparr>el_queue := q\<rparr>))"

record loop_statistics =
  ls_processed :: nat
  ls_total_time :: pyfloat
  ls_by_type :: "nat pydict"
  ls_time :: pyfloat
  ls_pending :: nat
  ls_running :: bool

definition loop_get_statistics :: "'h event_loop \<Rightarrow> loop_statistics" where
  "loop_get_statistics l = \<lparr>ls_processed = el_processed l, ls_total_time = el_total_time l,
     ls_by_type = el_by_type l, ls_time = el_time l, ls_pending = length (el_queue l),
     ls_running = el_running l\<rparr>"

definition loop_reset :: "'h event_loop \<Rightarrow> 'h event_loop" where
  "loop_reset l = l\<lparr>el_queue := [], el_time := 0, el_running := False, el_processed := 0,
     el_total_time := 0, el_by_type := []\<rparr>"

section \<open>The invariant of the loop\<close>

text \<open>The queue is a heap, no event lies in the past, and the counters agree.\<close>

definition loop_inv :: "'h event_loop \<Rightarrow> bool" where
  "loop_inv l \<longleftrightarrow> event_heap (el_queue l) \<and> (\<forall>e \<in> set (el_queue l). el_time l \<le> ev_timestamp e) \<and>
     distinct (map fst (el_by_type l)) \<and> sum_list (map snd (el_by_type l)) = el_processed l"

text \<open>What code outside the loop may do to it: nothing to the clock, the handlers and the counters,
  and to the queue only add events that are not in the past.\<close>

definition loop_evolves :: "'h event_loop \<Rightarrow> 'h event_loop \<Rightarrow> bool" where
  "loop_evolves l m \<longleftrightarrow>
     el_time m = el_time l \<and> el_handlers m = el_handlers l \<and> el_processed m = el_processed l \<and>
     el_by_type m = el_by_type l \<and> (event_heap (el_queue l) \<longrightarrow> event_heap (el_queue m)) \<and>
     mset (el_queue l) \<subseteq># mset (el_queue m) \<and>
     (\<forall>e \<in> set (el_queue m). e \<in> set (el_queue l) \<or> el_time l \<le> ev_timestamp e)"

lemma loop_evolves_refl [simp, intro]: "loop_evolves l l"
  by (simp add: loop_evolves_def)

lemma loop_evolves_trans [trans]:
  "loop_evolves l m \<Longrightarrow> loop_evolves m n \<Longrightarrow> loop_evolves l n"
  by (auto simp: loop_evolves_def intro: subset_mset.order_trans)

lemma loop_evolves_inv: "loop_evolves l m \<Longrightarrow> loop_inv l \<Longrightarrow> loop_inv m"
  by (auto simp: loop_evolves_def loop_inv_def)

lemma loop_evolves_stop [intro]: "loop_evolves l (loop_stop l)"
  by (simp add: loop_evolves_def loop_stop_def)

lemma schedule_event_eq [res_simps]:
  "schedule_event ev l = Inr m \<longleftrightarrow>
     el_time l \<le> ev_timestamp ev \<and> m = l\<lparr>el_queue := heappush event_lt (el_queue l) ev\<rparr>"
  "schedule_event ev l = Inl e \<longleftrightarrow>
     ev_timestamp ev < el_time l \<and> e = ValueError ''Cannot schedule event in the past''"
  by (auto simp: schedule_event_def)

lemma loop_evolves_schedule:
  assumes "schedule_event ev l = Inr m"
  shows "loop_evolves l m"
  using assms
  by (auto simp: res_simps loop_evolves_def intro: event_order.heap_push)

lemma schedule_event_now:
  "el_time l \<le> ev_timestamp ev \<Longrightarrow>
     schedule_event ev l = Inr (l\<lparr>el_queue := heappush event_lt (el_queue l) ev\<rparr>)"
  by (simp add: schedule_event_def)

lemma loop_inv_init [simp]: "loop_inv loop_init"
  by (simp add: loop_inv_def loop_init_def heap_list_def)

lemma loop_inv_reset [simp]: "loop_inv (loop_reset l)"
  by (simp add: loop_inv_def loop_reset_def heap_list_def)

lemma loop_inv_register [simp]: "loop_inv (register_handler ty h l) = loop_inv l"
  by (simp add: loop_inv_def register_handler_def)

lemma loop_inv_flags [simp]:
  "loop_inv (l\<lparr>el_running := b\<rparr>) = loop_inv l"
  "loop_inv (l\<lparr>el_running := b, el_total_time := t\<rparr>) = loop_inv l"
  by (simp_all add: loop_inv_def)

text \<open>One pop: the earliest event, the clock moves to it, and the invariant stays.\<close>

lemma loop_pop_total: "el_queue l \<noteq> [] \<Longrightarrow> \<exists>ev m. loop_pop l = Inr (ev, m)"
  using heappop_total [of "el_queue l" event_lt] by (auto simp: loop_pop_def)

lemma loop_pop_spec:
  assumes "loop_inv l" and "loop_pop l = Inr (ev, m)"
  shows "loop_inv m" and "el_time m = ev_timestamp ev" and "el_time l \<le> el_time m"
    and "mset (el_queue l) = add_mset ev (mset (el_queue m))"
    and "\<And>e. e \<in> set (el_queue m) \<Longrightarrow> \<not> event_lt e ev"
    and "el_processed m = Suc (el_processed l)" and "el_handlers m = el_handlers l"
    and "el_running m = el_running l"
proof -
  from assms(2) obtain q where q: "heappop event_lt (el_queue l) = Inr (ev, q)"
    and m: "m = l\<lparr>el_queue := q, el_time := ev_timestamp ev, el_processed := el_processed l + 1,
         el_by_type := dict_bump (event_type_value (ev_type ev)) (el_by_type l)\<rparr>"
    by (auto simp: loop_pop_def res_simps)
  have heap: "event_heap (el_queue l)" using assms(1) by (simp add: loop_inv_def)
  have least: "\<not> event_lt e ev" if "e \<in> set q" for e
    using event_order.heappop_least [OF heap q that] .
  have "ev \<in> set (el_queue l)" using heappop_set [OF q] by simp
  then show "el_time l \<le> el_time m" using assms(1) by (auto simp: loop_inv_def m)
  show "loop_inv m"
    using assms(1) least event_order.heap_pop [OF heap q]
    by (auto simp: loop_inv_def m sum_list_dict_bump dest: not_event_lt_timestamp)
  show "el_time m = ev_timestamp ev" "el_processed m = Suc (el_processed l)"
    "el_handlers m = el_handlers l" "el_running m = el_running l" by (simp_all add: m)
  show "mset (el_queue l) = add_mset ev (mset (el_queue m))" using heappop_mset [OF q] by (simp add: m)
  show "\<And>e. e \<in> set (el_queue m) \<Longrightarrow> \<not> event_lt e ev" using least by (simp add: m)
qed

section \<open>A loop inside its owner\<close>

locale loop_host =
  fixes get :: "'w \<Rightarrow> 'h event_loop"
    and put :: "'h event_loop \<Rightarrow> 'w \<Rightarrow> 'w"
    and call :: "'h \<Rightarrow> event \<Rightarrow> 'w \<Rightarrow> 'w res"
  assumes get_put: "get (put l w) = l"
    and call_evolves: "call h ev w = Inr w' \<Longrightarrow> loop_evolves (get w) (get w')"
begin

lemma step_inv:
  assumes "loop_inv (get w)" and "loop_step get put call w = Inr (b, w')"
  shows "loop_inv (get w')" and "el_time (get w) \<le> el_time (get w')"
    and "el_handlers (get w') = el_handlers (get w)"
    and "el_processed (get w') = (if b then Suc (el_processed (get w)) else el_processed (get w))"
    and "b \<longleftrightarrow> el_queue (get w) \<noteq> []"
proof -
  have "loop_inv (get w') \<and> el_time (get w) \<le> el_time (get w') \<and>
      el_handlers (get w') = el_handlers (get w) \<and>
      el_processed (get w') = (if b then Suc (el_processed (get w)) else el_processed (get w)) \<and>
      (b \<longleftrightarrow> el_queue (get w) \<noteq> [])"
  proof (cases "el_queue (get w) = []")
    case True
    with assms show ?thesis by (auto simp: loop_step_def)
  next
    case False
    with assms(2) obtain ev l where pop: "loop_pop (get w) = Inr (ev, l)"
      and rest: "(case el_handlers l (ev_type ev) of None \<Rightarrow> Inr (True, put l w)
        | Some h \<Rightarrow> rbind (call h ev (put l w)) (\<lambda>w'. Inr (True, w'))) = Inr (b, w')"
      by (auto simp: loop_step_def res_simps)
    note spec = loop_pop_spec [OF assms(1) pop]
    from rest have "b" and "loop_evolves l (get w')"
      using call_evolves [of _ ev "put l w" w'] by (auto simp: res_simps get_put split: option.splits)
    with spec False show ?thesis
      by (auto simp: loop_evolves_inv) (auto simp: loop_evolves_def)
  qed
  then show "loop_inv (get w')" and "el_time (get w) \<le> el_time (get w')"
    and "el_handlers (get w') = el_handlers (get w)"
    and "el_processed (get w') = (if b then Suc (el_processed (get w)) else el_processed (get w))"
    and "b \<longleftrightarrow> el_queue (get w) \<noteq> []" by auto
qed

text \<open>The postcondition of the loop \<open>while\<close>, by induction on its unfolding.\<close>

definition while_post :: "pyfloat option \<Rightarrow> int option \<Rightarrow> nat \<Rightarrow> 'w \<Rightarrow> 'w \<Rightarrow> bool" where
  "while_post max_time max_events n w w' \<longleftrightarrow>
     loop_inv (get w') \<and> el_time (get w) \<le> el_time (get w') \<and>
     el_processed (get w) \<le> el_processed (get w') \<and>
     (\<forall>m. max_events = Some m \<longrightarrow> 0 < m \<longrightarrow> int n \<le> m \<longrightarrow>
        int (el_processed (get w')) \<le> int (el_processed (get w)) + (m - int n)) \<and>
     (el_running (get w') \<longrightarrow> el_queue (get w') = [] \<or> over_time max_time (get w') \<or>
        max_events \<noteq> None \<and> max_events \<noteq> Some 0)"

lemma while_spec:
  assumes "loop_while get put call max_time max_events n w = Some r"
  shows "\<forall>w'. r = Inr w' \<longrightarrow> loop_inv (get w) \<longrightarrow> while_post max_time max_events n w w'"
proof -
  let ?P = "\<lambda>gt pt cl mt me n w r. gt = get \<longrightarrow> pt = put \<longrightarrow> cl = call \<longrightarrow>
      (\<forall>w'. r = Inr w' \<longrightarrow> loop_inv (get w) \<longrightarrow> while_post mt me n w w')"
  have "?P get put call max_time max_events n w r"
  proof (rule loop_while.raw_induct [where P = ?P, OF _ assms], intro impI allI)
    fix lw gt pt cl mt me n w r w'
    assume IH: "\<And>gt pt cl mt me n w r. lw gt pt cl mt me n w = Some r \<Longrightarrow> ?P gt pt cl mt me n w r"
      and [simp]: "gt = get" "pt = put" "cl = call" "r = Inr w'" and inv: "loop_inv (get w)"
      and eq: "(if el_running (gt w) \<and> el_queue (gt w) \<noteq> [] \<and> \<not> over_time mt (gt w) \<and> \<not> over_events me n
        then (case loop_step gt pt cl w of Inl e \<Rightarrow> Some (Inl e)
              | Inr r \<Rightarrow> (if fst r then lw gt pt cl mt me (Suc n) (snd r) else Some (Inr (snd r))))
        else Some (Inr w)) = Some r"
    show "while_post mt me n w w'"
    proof (cases "el_running (get w) \<and> el_queue (get w) \<noteq> [] \<and> \<not> over_time mt (get w) \<and> \<not> over_events me n")
      case False
      with eq inv show ?thesis
        by (auto simp: while_post_def over_events_def split: option.splits if_splits)
    next
      case True
      with eq obtain b w1 where st: "loop_step get put call w = Inr (b, w1)"
        by (auto split: sum.splits)
      note sp = step_inv [OF inv st]
      have b: "b" using sp(5) True by simp
      with eq True st have "lw get put call mt me (Suc n) w1 = Some (Inr w')" by simp
      from IH [OF this] sp(1) have post: "while_post mt me (Suc n) w1 w'" by simp
      have "int n < m" if "me = Some m" "0 < m" "int n \<le> m" for m
        using that True by (simp add: over_events_def)
      with post sp b show ?thesis
        unfolding while_post_def by fastforce
    qed
  qed
  then show ?thesis by simp
qed

lemma run_spec:
  assumes "loop_run get put call max_time max_events w = Some (Inr w')" and "loop_inv (get w)"
  shows "loop_inv (get w')" and "el_time (get w) \<le> el_time (get w')"
    and "el_total_time (get w') = el_time (get w')" and "\<not> el_running (get w')"
    and "max_events = Some m \<Longrightarrow> 0 < m \<Longrightarrow>
      int (el_processed (get w')) \<le> int (el_processed (get w)) + m"
proof -
  let ?w = "put ((get w)\<lparr>el_running := True\<rparr>) w"
  from assms(1) obtain w1 where
    wh: "loop_while get put call max_time max_events 0 ?w = Some (Inr w1)"
    and w': "w' = put ((get w1)\<lparr>el_running := False, el_total_time := el_time (get w1)\<rparr>) w1"
    by (auto simp: loop_run_def res_simps)
  have "while_post max_time max_events 0 ?w w1"
    using while_spec [OF wh] assms(2) by (simp add: get_put)
  then show "loop_inv (get w')" and "el_time (get w) \<le> el_time (get w')"
    and "el_total_time (get w') = el_time (get w')" and "\<not> el_running (get w')"
    and "max_events = Some m \<Longrightarrow> 0 < m \<Longrightarrow>
      int (el_processed (get w')) \<le> int (el_processed (get w)) + m"
    by (auto simp: while_post_def w' get_put)
qed

text \<open>A property of the owner that every step keeps holds at the end of a run.\<close>

lemma while_keeps:
  assumes "loop_while get put call max_time max_events n w = Some r"
    and "\<And>w b w'. I w \<Longrightarrow> loop_step get put call w = Inr (b, w') \<Longrightarrow> I w'"
  shows "\<forall>w'. r = Inr w' \<longrightarrow> I w \<longrightarrow> I w'"
proof -
  let ?P = "\<lambda>gt pt cl mt me n w r. gt = get \<longrightarrow> pt = put \<longrightarrow> cl = call \<longrightarrow> (\<forall>w'. r = Inr w' \<longrightarrow> I w \<longrightarrow> I w')"
  have "?P get put call max_time max_events n w r"
  proof (rule loop_while.raw_induct [where P = ?P, OF _ assms(1)], intro impI allI)
    fix lw gt pt cl mt me n w r w'
    assume IH: "\<And>gt pt cl mt me n w r. lw gt pt cl mt me n w = Some r \<Longrightarrow> ?P gt pt cl mt me n w r"
      and [simp]: "gt = get" "pt = put" "cl = call" "r = Inr w'" and inv: "I w"
      and eq: "(if el_running (gt w) \<and> el_queue (gt w) \<noteq> [] \<and> \<not> over_time mt (gt w) \<and> \<not> over_events me n
        then (case loop_step gt pt cl w of Inl e \<Rightarrow> Some (Inl e)
              | Inr r \<Rightarrow> (if fst r then lw gt pt cl mt me (Suc n) (snd r) else Some (Inr (snd r))))
        else Some (Inr w)) = Some r"
    show "I w'"
    proof (cases "el_running (get w) \<and> el_queue (get w) \<noteq> [] \<and> \<not> over_time mt (get w) \<and> \<not> over_events me n")
      case False
      then have "w' = w" using eq by (auto split: if_splits)
      with inv show ?thesis by simp
    next
      case True
      then obtain b w1 where st: "loop_step get put call w = Inr (b, w1)"
        and l: "if b then lw get put call mt me (Suc n) w1 = Some (Inr w') else w1 = w'"
        using eq by (auto split: sum.splits if_splits)
      have "I w1" using assms(2) [OF inv st] .
      with l IH [of get put call mt me "Suc n" w1 "Inr w'"] show ?thesis by (auto split: if_splits)
    qed
  qed
  then show ?thesis by simp
qed

lemma run_keeps:
  assumes "loop_run get put call max_time max_events w = Some (Inr w')" and "I w"
    and "\<And>w b w'. I w \<Longrightarrow> loop_step get put call w = Inr (b, w') \<Longrightarrow> I w'"
    and "\<And>w b t. I w \<Longrightarrow> I (put ((get w)\<lparr>el_running := b, el_total_time := t\<rparr>) w)"
  shows "I w'"
proof -
  let ?w = "put ((get w)\<lparr>el_running := True\<rparr>) w"

  obtain w1 where wh: "loop_while get put call max_time max_events 0 ?w = Some (Inr w1)"
    and w': "w' = put ((get w1)\<lparr>el_running := False, el_total_time := el_time (get w1)\<rparr>) w1"
    using assms(1) by (auto simp: loop_run_def rbind_eq_Inr)
  have "I ?w" using assms(4) [OF assms(2), where b = True and t = "el_total_time (get w)"] by simp
  then have "I w1" using while_keeps [where I = I, OF wh assms(3)] by simp
  then show ?thesis using assms(4) w' by blast
qed

end

text \<open>With a limit on the number of events the loop returns, whatever the handlers do.\<close>

lemma loop_while_returns:
  assumes "m \<noteq> 0"
  shows "\<exists>r. loop_while get put call max_time (Some m) n w = Some r"
proof (induction "nat (m - int n)" arbitrary: n w rule: less_induct)
  case less
  show ?case
  proof (cases "int n < m")
    case True
    then have "\<exists>r. loop_while get put call max_time (Some m) (Suc n) v = Some r" for v
      using less [of "Suc n" v] by simp
    then show ?thesis
      by (subst loop_while.simps) (auto split: sum.splits)
  next
    case False
    with assms show ?thesis
      by (subst loop_while.simps) (simp add: over_events_def)
  qed
qed

section \<open>Properties\<close>

text \<open>C5: \<open>EventLoop.run\<close> with a limit on the number of events returns (a final state or the
  exception of a handler), whatever the handlers schedule and for every time limit.\<close>

theorem loop_run_returns:
  fixes get :: "'w \<Rightarrow> 'h event_loop"
  assumes "m \<noteq> 0"
  shows "\<exists>r. loop_run get put call max_time (Some m) w = Some r"
  using loop_while_returns [OF assms, of get put call max_time 0]
  by (auto simp: loop_run_def)

text \<open>The limit is not vacuous: this handler reschedules its event for ever, and the run stops.\<close>

theorem loop_run_returns_witness:
  "\<exists>r. loop_run (\<lambda>w. w) (\<lambda>l w. l)
     (\<lambda>h ev w. schedule_event ev w) None (Some 3)
     (loop_init\<lparr>el_queue := [\<lparr>ev_timestamp = 0, ev_type = LOAD_BALANCE, ev_target = ''c'', ev_data = [],
        ev_priority = LOW\<rparr>], el_handlers := (\<lambda>_. Some ())\<rparr>) = Some r"
  by (rule loop_run_returns) simp

text \<open>C6: The event loop processes events chronologically: from a well-formed loop a pop yields an
  event that no queued event precedes in the order of timestamp and then priority, the clock
  moves to its timestamp and not backwards, exactly that event leaves the queue, and the loop
  stays well formed.\<close>

theorem loop_pop_chronological:
  assumes "loop_inv l" and "loop_pop l = Inr (ev, m)"
  shows "loop_inv m \<and> el_time l \<le> el_time m \<and> el_time m = ev_timestamp ev \<and>
    mset (el_queue l) = add_mset ev (mset (el_queue m)) \<and>
    (\<forall>e \<in> set (el_queue m). ev_timestamp ev < ev_timestamp e \<or>
       ev_timestamp ev = ev_timestamp e \<and> ev_priority ev \<le> ev_priority e)"
proof -
  have "ev_timestamp ev < ev_timestamp e \<or>
      ev_timestamp ev = ev_timestamp e \<and> ev_priority ev \<le> ev_priority e"
    if "e \<in> set (el_queue m)" for e
    using loop_pop_spec(5) [OF assms that] by (auto simp: event_lt_def split: if_splits)
  then show ?thesis using loop_pop_spec(1-4) [OF assms] by blast
qed

definition sample_event :: "real \<Rightarrow> event_priority \<Rightarrow> string \<Rightarrow> event" where
  "sample_event t p n = \<lparr>ev_timestamp = t, ev_type = LOAD_BALANCE, ev_target = n, ev_data = [],
     ev_priority = p\<rparr>"

theorem loop_pop_chronological_witness:
  fixes l :: "unit event_loop"
  defines "l \<equiv> loop_init\<lparr>el_queue :=
    [sample_event 1 HIGH ''a'', sample_event 5 LOW ''b'', sample_event 1 LOW ''c'']\<rparr>"
  shows "\<exists>m. loop_pop l = Inr (sample_event 1 HIGH ''a'', m) \<and> loop_inv m \<and> el_time m = 1"
proof -
  have inv: "loop_inv l"
    by (auto simp: l_def loop_inv_def loop_init_def heap_list_def sample_event_def event_lt_def
        less_Suc_eq less_event_priority_def numeral_eq_Suc)
  obtain ev m where pop: "loop_pop l = Inr (ev, m)"
    using loop_pop_total [of l] by (auto simp: l_def)
  moreover have "ev = sample_event 1 HIGH ''a''"
    using pop by (auto simp: l_def loop_pop_def res_simps loop_init_def heappop_def Let_def)
  ultimately show ?thesis using loop_pop_chronological [OF inv pop] by (auto simp: sample_event_def)
qed

text \<open>\<open>clear_future_events(target)\<close> filters the heap's list without restoring the heap, and
  the order of simulation is lost: from a well-formed loop, after such a call, the loop pops an
  event and then one with an earlier timestamp, so that the clock runs backwards. Clearing
  everything does keep the loop well formed.\<close>

lemma clear_future_events_breaks_order:
  "(\<exists>(l :: unit event_loop) t ev m ev' m'. loop_inv l \<and>
      loop_pop (snd (clear_future_events (Some t) l)) = Inr (ev, m) \<and>
      loop_pop m = Inr (ev', m') \<and> el_time m' < el_time m) \<and>
   (\<forall>l :: unit event_loop. loop_inv (snd (clear_future_events None l)) = loop_inv (l\<lparr>el_queue := []\<rparr>))"
proof
  let ?l = "loop_init\<lparr>el_queue :=
    [sample_event 1 LOW ''x'', sample_event 5 LOW ''a'', sample_event 2 LOW ''a'']\<rparr> :: unit event_loop"
  have "loop_inv ?l"
    by (auto simp: loop_inv_def loop_init_def heap_list_def sample_event_def event_lt_def
        less_Suc_eq numeral_eq_Suc)
  moreover have
    "\<exists>m. loop_pop (snd (clear_future_events (Some ''x'') ?l)) = Inr (sample_event 5 LOW ''a'', m) \<and>
       (\<exists>m'. loop_pop m = Inr (sample_event 2 LOW ''a'', m') \<and> el_time m' < el_time m)"
    by (simp add: clear_future_events_def loop_pop_def loop_init_def heappop_def Let_def siftup_def
        sift_hole.simps siftdown.simps sample_event_def)
  ultimately show "\<exists>(l :: unit event_loop) t ev m ev' m'. loop_inv l \<and>
      loop_pop (snd (clear_future_events (Some t) l)) = Inr (ev, m) \<and>
      loop_pop m = Inr (ev', m') \<and> el_time m' < el_time m" by blast
qed (simp add: clear_future_events_def)

text \<open>\<open>peek_next_events(count)\<close> returns a prefix of the heap's list. On a well-formed loop its
  first element is the event that a pop yields and agrees with \<open>get_next_event_time\<close>; already
  the second element need not be the event processed second.\<close>

lemma peek_next_events_prefix:
  "(\<forall>(l :: 'h event_loop) ev m. loop_inv l \<longrightarrow> loop_pop l = Inr (ev, m) \<longrightarrow>
      peek_next_events 1 l = [ev] \<and> get_next_event_time l = Some (ev_timestamp ev)) \<and>
   (\<exists>(l :: 'h event_loop) ev m ev' m'. loop_inv l \<and> loop_pop l = Inr (ev, m) \<and>
      loop_pop m = Inr (ev', m') \<and> peek_next_events 2 l \<noteq> [ev, ev'])"
proof (intro conjI allI impI)
  fix l :: "'h event_loop" and ev m
  assume "loop_inv l" and pop: "loop_pop l = Inr (ev, m)"
  then obtain q where q: "heappop event_lt (el_queue l) = Inr (ev, q)"
    by (auto simp: loop_pop_def res_simps)
  then have "ev = el_queue l ! 0" "el_queue l \<noteq> []"
    using event_order.heappop_head by (auto simp: heappop_def split: if_splits)
  then show "peek_next_events 1 l = [ev]" "get_next_event_time l = Some (ev_timestamp ev)"
    by (auto simp: peek_next_events_def get_next_event_time_def take_Suc hd_conv_nth split: list.splits)
next
  let ?l = "loop_init\<lparr>el_queue :=
    [sample_event 1 LOW ''a'', sample_event 5 LOW ''a'', sample_event 2 LOW ''a'']\<rparr> :: 'h event_loop"
  have "loop_inv ?l"
    by (auto simp: loop_inv_def loop_init_def heap_list_def sample_event_def event_lt_def
        less_Suc_eq numeral_eq_Suc)
  moreover have
    "\<exists>m. loop_pop ?l = Inr (sample_event 1 LOW ''a'', m) \<and>
       (\<exists>m'. loop_pop m = Inr (sample_event 2 LOW ''a'', m') \<and>
         peek_next_events 2 ?l \<noteq> [sample_event 1 LOW ''a'', sample_event 2 LOW ''a''])"
    by (simp add: loop_pop_def loop_init_def heappop_def Let_def siftup_def small_child_def
        sift_hole.simps siftdown.simps sample_event_def event_lt_def peek_next_events_def)
  ultimately show "\<exists>(l :: 'h event_loop) ev m ev' m'. loop_inv l \<and> loop_pop l = Inr (ev, m) \<and>
      loop_pop m = Inr (ev', m') \<and> peek_next_events 2 l \<noteq> [ev, ev']" by blast
qed

lemma peek_next_events_prefix_witness:
  "\<exists>m. loop_pop (loop_init\<lparr>el_queue := [sample_event 1 LOW ''a'']\<rparr> :: unit event_loop) =
      Inr (sample_event 1 LOW ''a'', m) \<and>
    peek_next_events 1 (loop_init\<lparr>el_queue := [sample_event 1 LOW ''a'']\<rparr> :: unit event_loop) =
      [sample_event 1 LOW ''a'']"
proof -
  let ?l = "loop_init\<lparr>el_queue := [sample_event 1 LOW ''a'']\<rparr> :: unit event_loop"
  have inv: "loop_inv ?l"
    by (simp add: loop_inv_def loop_init_def heap_list_def sample_event_def)
  obtain m where pop: "loop_pop ?l = Inr (sample_event 1 LOW ''a'', m)"
    by (simp add: loop_pop_def loop_init_def heappop_def Let_def)
  then show ?thesis using peek_next_events_prefix [where 'h = unit] inv by blast
qed

end
