(* ===== verification/Sim_Engine.thy ===== *)
theory Sim_Engine
  imports Sim_Memory Sim_Analyzer Sim_Events Sim_Trace
begin

text \<open>
  The serving engine of one node, \<open>simulator/core/engine.py\<close>: admission against the KV-cache
  planner, a queue of requests waiting for prefill, one prefill at a time, and continuous batching
  in the decode phase.

  Request objects are shared between the engine and the cluster manager, so they live in a heap
  \<open>req_heap\<close> and the engine holds references. A Python set of requests is the list of its elements
  in insertion order; the order in which \<open>list(s)\<close> enumerates it is the argument \<open>iter\<close>.
  The events an engine emits through its callback are appended to \<open>se_outbox\<close> in order; the
  cluster manager's callback stamps and schedules them. The callback reads nothing of the engine, so
  delivering them when the engine's method returns is the same. \<open>AutoConfig.from_pretrained\<close> is
  an argument of the constructor; printing is left out.
\<close>

section \<open>Batches\<close>

type_synonym req_ref = nat
type_synonym req_heap = "req_ref \<Rightarrow> gen_request"

datatype batch_status = BForming | BDecode | BCompleted

record batch =
  b_id :: string
  b_requests :: "req_ref list"
  b_created_at :: pyfloat
  b_status :: batch_status
  b_memory_usage :: pyfloat

definition new_batch :: "string \<Rightarrow> req_ref list \<Rightarrow> batch" where
  "new_batch bid rs = \<lparr>b_id = bid, b_requests = rs, b_created_at = 0, b_status = BForming,
     b_memory_usage = 0\<rparr>"

definition batch_add_request :: "req_ref \<Rightarrow> batch \<Rightarrow> batch" where
  "batch_add_request r b =
     (if r \<in> set (b_requests b) then b else b\<lparr>b_requests := b_requests b @ [r]\<rparr>)"

definition batch_remove_request :: "req_ref \<Rightarrow> batch \<Rightarrow> batch" where
  "batch_remove_request r b =
     (let b' = b\<lparr>b_requests := remove1 r (b_requests b)\<rparr>
      in if b_requests b' = [] then b'\<lparr>b_status := BCompleted\<rparr> else b')"

definition batch_is_empty :: "batch \<Rightarrow> bool" where
  "batch_is_empty b \<longleftrightarrow> b_requests b = []"

definition get_batch_size :: "batch \<Rightarrow> nat" where
  "get_batch_size b = length (b_requests b)"

text \<open>Sets of references: \<open>add\<close> and \<open>remove\<close>, which raises \<open>KeyError\<close>.\<close>

definition set_add :: "'a \<Rightarrow> 'a list \<Rightarrow> 'a list" where
  "set_add x xs = (if x \<in> set xs then xs else xs @ [x])"

definition set_remove :: "'a \<Rightarrow> 'a list \<Rightarrow> 'a list res" where
  "set_remove x xs = (if x \<in> set xs then Inr (remove1 x xs) else Inl (KeyError []))"

section \<open>The engine\<close>

record engine_stats =
  st_requests_processed :: nat
  st_total_tokens_generated :: nat
  st_total_prefill_time :: pyfloat
  st_total_decode_time :: pyfloat
  st_memory_peak :: pyfloat
  st_batch_sizes :: "nat list"

record serving_engine =
  se_id :: string
  se_model_id :: string
  se_model_params :: model_params
  se_model_instance :: "model_config option"
  se_hardware :: string
  se_parallel_config :: parallel_arg
  se_max_batch_size :: int
  se_spec :: hardware_spec
  se_planner :: memory_planner
  se_request_queue :: "req_ref list"
  se_active :: "req_ref list"
  se_completed :: "req_ref list"
  se_prefill_queue :: "req_ref list"
  se_decode_ready :: "req_ref list"
  se_batch :: "batch option"
  se_batch_counter :: nat
  se_current_prefill :: "req_ref option"
  se_trace :: "trace_event list"
  se_current_time :: pyfloat
  se_time_cursor :: pyfloat
  se_analyzer :: model_analyzer
  se_model_loaded :: bool
  se_model_memory :: pyfloat
  se_kv_memory :: pyfloat
  se_kv_capacity :: pyfloat
  se_stats :: engine_stats
  se_callback :: bool
  se_outbox :: "event list"

definition gpu_memory_capacity :: "serving_engine \<Rightarrow> pyfloat" where
  "gpu_memory_capacity e = hw_vmemory (se_spec e)"

definition compute_throughput :: "serving_engine \<Rightarrow> pyfloat" where
  "compute_throughput e = hw_FP16 (se_spec e)"

definition new_engine ::
  "(bool \<Rightarrow> string \<Rightarrow> model_params res) \<Rightarrow> string \<Rightarrow> string \<Rightarrow> model_config option \<Rightarrow> string \<Rightarrow>
   parallel_arg \<Rightarrow> int \<Rightarrow> serving_engine res" where
  "new_engine from_pretrained engine_id model_id model_instance hardware pc max_batch =
     rbind (from_pretrained False model_id) (\<lambda>params.
     rbind (dict_get hardware_params hardware) (\<lambda>spec.
     rbind (new_planner params model_instance spec 16 16 16 (9 / 10) pc 16) (\<lambda>planner.
     let config = (case model_instance of
         Some c \<Rightarrow> Some c
       | None \<Rightarrow> if py_in ''llama'' (py_lower model_id) \<or> py_in ''Llama-2'' model_id then Some llama else None) in
     rbind (new_analyzer (from_pretrained True) model_id config hardware) (\<lambda>analyzer.
       Inr \<lparr>se_id = engine_id, se_model_id = model_id, se_model_params = params,
         se_model_instance = model_instance, se_hardware = hardware, se_parallel_config = pc,
         se_max_batch_size = max_batch, se_spec = spec, se_planner = planner, se_request_queue = [],
         se_active = [], se_completed = [], se_prefill_queue = [], se_decode_ready = [],
         se_batch = None, se_batch_counter = 0, se_current_prefill = None, se_trace = [],
         se_current_time = 0, se_time_cursor = 0, se_analyzer = analyzer, se_model_loaded = False,
         se_model_memory = 0, se_kv_memory = 0, se_kv_capacity = 0,
         se_stats = \<lparr>st_requests_processed = 0, st_total_tokens_generated = 0, st_total_prefill_time = 0,
           st_total_decode_time = 0, st_memory_peak = 0, st_batch_sizes = []\<rparr>,
         se_callback = False, se_outbox = []\<rparr>))))"

definition set_event_callback :: "serving_engine \<Rightarrow> serving_engine" where
  "set_event_callback e = e\<lparr>se_callback := True\<rparr>"

definition call_back :: "event \<Rightarrow> serving_engine \<Rightarrow> serving_engine" where
  "call_back ev e = (if se_callback e then e\<lparr>se_outbox := se_outbox e @ [ev]\<rparr> else e)"

definition emit_event :: "event_type \<Rightarrow> pyval pydict \<Rightarrow> event_priority \<Rightarrow> serving_engine \<Rightarrow> serving_engine" where
  "emit_event ty data prio e =
     call_back \<lparr>ev_timestamp = 0, ev_type = ty, ev_target = se_id e, ev_data = data, ev_priority = prio\<rparr> e"

subsection \<open>Memory\<close>

definition refresh_memory_usage :: "serving_engine \<Rightarrow> serving_engine" where
  "refresh_memory_usage e =
     (let usage = rbind (get_allocated_kv_memory_per_shard (se_planner e)) (\<lambda>k.
                  rbind (get_total_kv_memory_capacity_per_shard (se_planner e)) (\<lambda>c. Inr (k, c)));
          (kv, cap) = (case usage of Inl _ \<Rightarrow> (0, 0) | Inr p \<Rightarrow> p);
          st = se_stats e
      in e\<lparr>se_kv_memory := kv, se_kv_capacity := cap,
           se_stats := st\<lparr>st_memory_peak := max (st_memory_peak st) (se_model_memory e + kv)\<rparr>\<rparr>)"

record memory_info =
  mi_total :: pyfloat
  mi_model_weights :: pyfloat
  mi_kv_cache :: pyfloat
  mi_kv_cache_capacity :: pyfloat
  mi_kv_blocks_used :: int
  mi_kv_blocks_capacity :: int
  mi_available :: pyfloat
  mi_used :: pyfloat
  mi_utilization :: pyfloat

definition get_memory_info :: "serving_engine \<Rightarrow> memory_info \<times> serving_engine" where
  "get_memory_info e0 =
     (let e = refresh_memory_usage e0;
          total_used = se_model_memory e + se_kv_memory e
      in (\<lparr>mi_total = gpu_memory_capacity e, mi_model_weights = se_model_memory e,
           mi_kv_cache = se_kv_memory e, mi_kv_cache_capacity = se_kv_capacity e,
           mi_kv_blocks_used = get_allocated_block_count (se_planner e),
           mi_kv_blocks_capacity = get_max_block_count (se_planner e),
           mi_available = max (gpu_memory_capacity e - total_used) 0, mi_used = total_used,
           mi_utilization = (if gpu_memory_capacity e = 0 then 0 else total_used / gpu_memory_capacity e)\<rparr>, e))"

definition get_memory_snapshot :: "serving_engine \<Rightarrow> pyval pydict \<times> serving_engine" where
  "get_memory_snapshot e0 =
     (let (info, e) = get_memory_info e0;
          used = mi_kv_blocks_used info; cap = mi_kv_blocks_capacity info
      in ([(''memory_total_bytes'', PInt (py_int (mi_total info))),
           (''memory_used_bytes'', PInt (py_int (mi_used info))),
           (''memory_available_bytes'', PInt (py_int (mi_available info))),
           (''memory_utilization'', PFloat (py_round6 (mi_utilization info))),
           (''model_weights_bytes'', PInt (py_int (mi_model_weights info))),
           (''kv_cache_bytes'', PInt (py_int (mi_kv_cache info))),
           (''kv_cache_capacity_bytes'', PInt (py_int (mi_kv_cache_capacity info))),
           (''kv_blocks_in_use_total'', PInt used),
           (''kv_blocks_remaining'', PInt (max (cap - used) 0)),
           (''kv_blocks_capacity'', PInt cap)], e))"

definition fallback_model_memory :: "serving_engine \<Rightarrow> pyfloat" where
  "fallback_model_memory e =
     (let hidden_size = get_attr_default (se_model_params e) ''hidden_size'' 4096;
          num_layers = get_attr_default (se_model_params e) ''num_hidden_layers'' 32;
          vocab_size = get_attr_default (se_model_params e) ''vocab_size'' 50257
      in of_int ((hidden_size * hidden_size * 4 * num_layers + hidden_size * hidden_size * 3 * num_layers +
           hidden_size * vocab_size * 2) * 2))"

definition load_model :: "serving_engine \<Rightarrow> bool \<times> serving_engine" where
  "load_model e =
     (if se_model_loaded e then (True, e)
      else let model_memory = (case get_weights_memory_per_shard (se_planner e) of
                 Inr w \<Rightarrow> w | Inl _ \<Rightarrow> fallback_model_memory e)
           in if gpu_memory_capacity e < model_memory then (False, e)
              else (True, emit_event MODEL_LOAD
                [(''model_id'', PStr (se_model_id e)), (''memory_usage'', PFloat model_memory)] HIGH
                (refresh_memory_usage (e\<lparr>se_model_memory := model_memory, se_model_loaded := True\<rparr>))))"

definition unload_model :: "serving_engine \<Rightarrow> serving_engine" where
  "unload_model e =
     (if se_model_loaded e
      then emit_event MODEL_UNLOAD [(''model_id'', PStr (se_model_id e))] HIGH
        (e\<lparr>se_model_loaded := False, se_model_memory := 0, se_kv_memory := 0, se_kv_capacity := 0\<rparr>)
      else e)"

definition can_accommodate_request :: "pyfloat \<Rightarrow> gen_request \<Rightarrow> serving_engine \<Rightarrow> (bool \<times> serving_engine) res" where
  "can_accommodate_request safety_margin r e0 =
     (let (loaded, e) = load_model e0 in
      if \<not> loaded then Inr (False, e)
      else rbind (can_allocate_request (se_planner e) r) (\<lambda>ok.
        if \<not> ok then Inr (False, e)
        else rbind (get_allocated_kv_memory_per_shard (se_planner e)) (\<lambda>current_kv.
             rbind (estimate_additional_kv_memory_per_shard (se_planner e) r) (\<lambda>additional_kv.
               Inr (se_model_memory e + current_kv + additional_kv
                      \<le> gpu_memory_capacity e * (1 - safety_margin), e)))))"

definition default_margin :: pyfloat where
  "default_margin = 1 / 10"

definition add_request :: "req_ref \<Rightarrow> req_heap \<Rightarrow> serving_engine \<Rightarrow> (bool \<times> req_heap \<times> serving_engine) res" where
  "add_request r h e0 =
     rbind (can_accommodate_request default_margin (h r) e0) (\<lambda>(ok, e).
       if \<not> ok then Inr (False, h, e)
       else rbind (mp_allocate (h r) (se_planner e)) (\<lambda>p.
         let e1 = refresh_memory_usage (e\<lparr>se_planner := p\<rparr>)
         in Inr (True, h(r := (h r)\<lparr>req_status := SCHEDULED\<rparr>),
              e1\<lparr>se_prefill_queue := se_prefill_queue e1 @ [r]\<rparr>)))"

definition get_current_load :: "serving_engine \<Rightarrow> nat" where
  "get_current_load e = length (se_active e) + length (se_decode_ready e) +
     (if se_current_prefill e = None then 0 else 1)"

definition has_model_loaded :: "string \<Rightarrow> serving_engine \<Rightarrow> bool" where
  "has_model_loaded model_id e \<longleftrightarrow> se_model_loaded e \<and> se_model_id e = model_id"


subsection \<open>Durations and traces\<close>

definition get_prefill_time :: "serving_engine \<Rightarrow> int \<Rightarrow> int \<Rightarrow> pyfloat res" where
  "get_prefill_time e sequence_length batch_size =
     py_try (rbind (analyze (se_analyzer e) sequence_length batch_size 16 16 (Some 16) 1)
        (\<lambda>an. Inr (t_inference_time (an_totals an Prefill))))
       (py_div (of_int (sequence_length * sequence_length * batch_size)) (compute_throughput e))"

definition get_decode_time :: "serving_engine \<Rightarrow> int \<Rightarrow> int \<Rightarrow> pyfloat res" where
  "get_decode_time e sequence_length batch_size =
     py_try (rbind (analyze (se_analyzer e) sequence_length batch_size 16 16 (Some 16) 1)
        (\<lambda>an. Inr (t_inference_time (an_totals an Decode))))
       (py_div (of_int (1024 * batch_size)) (compute_throughput e))"

text \<open>Durations of at least a millisecond: a non-positive one is replaced.\<close>

definition visible_duration :: "pyfloat \<Rightarrow> pyfloat" where
  "visible_duration d = (if d \<le> 0 then 1 / 1000 else d)"

definition set_current_time :: "pyfloat \<Rightarrow> serving_engine \<Rightarrow> serving_engine" where
  "set_current_time t e = e\<lparr>se_current_time := t,
     se_time_cursor := (if se_time_cursor e < t then t else se_time_cursor e)\<rparr>"

definition add_trace_event ::
  "string \<Rightarrow> string \<Rightarrow> string \<Rightarrow> pyfloat \<Rightarrow> pyfloat option \<Rightarrow> pyval pydict option \<Rightarrow> serving_engine \<Rightarrow> serving_engine" where
  "add_trace_event name category phase timestamp duration args e =
     e\<lparr>se_trace := se_trace e @
       [\<lparr>te_name = name, te_cat = category, te_ph = phase, te_pid = PStr (se_id e), te_tid = PStr ''engine'',
         te_ts = py_int (timestamp * 1000000), te_args = Some (case args of None \<Rightarrow> [] | Some a \<Rightarrow> a),
         te_dur = map_option (\<lambda>d. py_int (d * 1000000)) duration, te_cname = None\<rparr>]\<rparr>"

definition phase_name :: "stage \<Rightarrow> string" where
  "phase_name st = (case st of Prefill \<Rightarrow> ''prefill'' | Decode \<Rightarrow> ''decode'')"

text \<open>\<open>phase.upper()[0]\<close>\<close>

definition phase_letter :: "stage \<Rightarrow> string" where
  "phase_letter st = (case st of Prefill \<Rightarrow> ''P'' | Decode \<Rightarrow> ''D'')"

definition event_args :: "stage \<Rightarrow> serving_engine \<Rightarrow> pyfloat \<Rightarrow> pyfloat \<Rightarrow> pyval pydict \<Rightarrow> gen_request \<Rightarrow> pyval pydict" where
  "event_args phase e start_at end_at memory_info r =
     AList.updates (map fst memory_info) (map snd memory_info)
      ([(''request_id'', PStr (req_id r)), (''requested_model'', PStr (req_model r)),
       (''engine_id'', PStr (se_id e)), (''engine_model'', PStr (se_model_id e)),
       (''hardware'', PStr (se_hardware e)), (''phase'', PStr (phase_name phase)),
       (''start_time_s'', PFloat (py_round6 start_at)), (''end_time_s'', PFloat (py_round6 end_at)),
       (''duration_s'', PFloat (py_round6 (max (end_at - start_at) 0)))] @
      (case phase of
         Prefill \<Rightarrow> [(''prompt_tokens'', PInt (input_length r)),
                     (''target_output_tokens'', PInt (output_length r))]
       | Decode \<Rightarrow> [(''target_output_tokens'', PInt (output_length r)),
                    (''generated_tokens_total'', PInt (generated_tokens r)),
                    (''tokens_emitted_this_step'', PInt 1)]))"

definition create_detailed_events ::
  "stage \<Rightarrow> gen_request list \<Rightarrow> pyfloat \<Rightarrow> pyfloat \<Rightarrow> pyval pydict \<Rightarrow> serving_engine \<Rightarrow> trace_event list" where
  "create_detailed_events phase handled start_at end_at memory_info e =
     (let start_us = py_int (max start_at 0 * 1000000);
          duration_us = max (py_int (max (end_at - start_at) 0 * 1000000)) 1
      in map (\<lambda>r. \<lparr>te_name = phase_letter phase @ '':'' @ req_id r, te_cat = ''request.'' @ phase_name phase,
           te_ph = ''X'', te_pid = PStr (se_id e), te_tid = PInt 0, te_ts = start_us,
           te_args = Some (event_args phase e start_at end_at memory_info r), te_dur = Some duration_us,
           te_cname = None\<rparr>) handled)"

subsection \<open>Prefill\<close>

definition start_next_prefill :: "req_heap \<Rightarrow> serving_engine \<Rightarrow> (req_heap \<times> serving_engine) res" where
  "start_next_prefill h e =
     (case se_prefill_queue e of
        [] \<Rightarrow> Inr (h, e)
      | r # rest \<Rightarrow>
          let e0 = e\<lparr>se_prefill_queue := rest\<rparr> in
          rbind (if has_allocation (se_planner e0) (req_id (h r)) then Inr (True, e0)
                 else rbind (can_accommodate_request default_margin (h r) e0) (\<lambda>(ok, e1).
                   if \<not> ok then Inr (False, e1\<lparr>se_prefill_queue := r # se_prefill_queue e1\<rparr>)
                   else rbind (mp_allocate (h r) (se_planner e1)) (\<lambda>p.
                     Inr (True, refresh_memory_usage (e1\<lparr>se_planner := p\<rparr>))))) (\<lambda>(go, e2).
          if \<not> go then Inr (h, e2)
          else let e3 = e2\<lparr>se_current_prefill := Some r, se_active := set_add r (se_active e2)\<rparr>
               in Inr (h(r := req_prefill (h r)),
                 call_back \<lparr>ev_timestamp = max (se_time_cursor e3) (se_current_time e3),
                   ev_type = PREFILL_START, ev_target = se_id e3,
                   ev_data = [(''request_id'', PStr (req_id (h r)))], ev_priority = HIGH\<rparr> e3)))"

definition process_individual_prefill ::
  "req_heap \<Rightarrow> serving_engine \<Rightarrow> (bool \<times> req_heap \<times> serving_engine) res" where
  "process_individual_prefill h e =
     (case se_current_prefill e of
        None \<Rightarrow> Inr (False, h, e)
      | Some r \<Rightarrow>
          rbind (get_prefill_time e (input_length (h r)) 1) (\<lambda>d.
          let duration = visible_duration d;
              start = max (se_time_cursor e) (se_current_time e);
              fin = start + duration;
              e1 = e\<lparr>se_time_cursor := fin,
                se_stats := (se_stats e)\<lparr>st_total_prefill_time := st_total_prefill_time (se_stats e) + duration\<rparr>\<rparr>;
              (snapshot, e2) = get_memory_snapshot e1;
              e3 = e2\<lparr>se_trace := se_trace e2 @ create_detailed_events Prefill [h r] start fin snapshot e2\<rparr>
          in Inr (True, h(r := set_prefill_finished_at fin (h r)),
               call_back \<lparr>ev_timestamp = fin, ev_type = PREFILL_COMPLETE, ev_target = se_id e3,
                 ev_data = [(''request_id'', PStr (req_id (h r))), (''prefill_time'', PFloat duration)],
                 ev_priority = HIGH\<rparr> e3)))"

subsection \<open>Decode\<close>

definition form_decode_batch :: "(req_ref list \<Rightarrow> req_ref list) \<Rightarrow> serving_engine \<Rightarrow> serving_engine res" where
  "form_decode_batch iter e =
     (if se_decode_ready e = [] \<or> se_batch e \<noteq> None then Inr e
      else let chosen = py_take (iter (se_decode_ready e)) (se_max_batch_size e) in
        rbind (for_res set_remove chosen (se_decode_ready e)) (\<lambda>ready.
          let n = se_batch_counter e + 1 in
          Inr (e\<lparr>se_decode_ready := ready, se_batch_counter := n,
            se_batch := Some ((new_batch (''decode_batch_'' @ str_nat n) chosen)\<lparr>b_status := BDecode\<rparr>),
            se_stats := (se_stats e)\<lparr>st_batch_sizes := st_batch_sizes (se_stats e) @ [length chosen]\<rparr>\<rparr>)))"

definition add_to_decode_batch :: "(req_ref list \<Rightarrow> req_ref list) \<Rightarrow> serving_engine \<Rightarrow> serving_engine res" where
  "add_to_decode_batch iter e =
     (case se_batch e of
        None \<Rightarrow> Inr e
      | Some b \<Rightarrow>
          if se_decode_ready e = [] then Inr e
          else let slots = se_max_batch_size e - int (get_batch_size b) in
            if slots \<le> 0 then Inr e
            else let chosen = py_take (iter (se_decode_ready e)) slots in
              rbind (for_res (\<lambda>r (ready, b). rbind (set_remove r ready) (\<lambda>ready'.
                  Inr (ready', batch_add_request r b))) chosen (se_decode_ready e, b)) (\<lambda>(ready, b').
                Inr (e\<lparr>se_decode_ready := ready, se_batch := Some b',
                  se_stats := (se_stats e)\<lparr>st_batch_sizes :=
                    st_batch_sizes (se_stats e) @ [get_batch_size b']\<rparr>\<rparr>)))"

text \<open>\<open>max(...)\<close> over the requests of a batch, and the decode of each of them.\<close>

definition current_seq_length :: "req_heap \<Rightarrow> req_ref list \<Rightarrow> int res" where
  "current_seq_length h rs =
     (if rs = [] then Inr 1024
      else rbind (py_max_by (\<lambda>r. input_length (h r) + generated_tokens (h r)) rs) (\<lambda>r.
        Inr (input_length (h r) + generated_tokens (h r))))"

definition decode_one ::
  "req_ref \<Rightarrow> req_heap \<times> memory_planner \<times> req_ref list \<Rightarrow> (req_heap \<times> memory_planner \<times> req_ref list) res" where
  "decode_one r s = (case s of (h, p, completed) \<Rightarrow>
     (let (is_complete, q) = req_decode (h r); h' = h(r := q) in
      rbind (mp_allocate q p) (\<lambda>p'.
        Inr (h', p', if is_complete then completed @ [r] else completed))))"

definition completion_event :: "serving_engine \<Rightarrow> pyfloat \<Rightarrow> gen_request \<Rightarrow> event" where
  "completion_event e t q = \<lparr>ev_timestamp = t, ev_type = REQUEST_COMPLETE, ev_target = se_id e,
     ev_data = [(''request_id'', PStr (req_id q)), (''total_tokens'', PInt (generated_tokens q)),
       (''completion_time'', PFloat t)], ev_priority = HIGH\<rparr>"

definition complete_one :: "req_ref \<Rightarrow> serving_engine \<Rightarrow> serving_engine res" where
  "complete_one r e =
     rbind (set_remove r (se_active e)) (\<lambda>active.
       Inr (e\<lparr>se_active := active, se_completed := se_completed e @ [r],
         se_batch := map_option (batch_remove_request r) (se_batch e),
         se_stats := (se_stats e)\<lparr>st_requests_processed := st_requests_processed (se_stats e) + 1\<rparr>\<rparr>))"

definition process_decode_batch ::
  "req_heap \<Rightarrow> serving_engine \<Rightarrow> (event list \<times> req_heap \<times> serving_engine) res" where
  "process_decode_batch h e =
     (case se_batch e of
        None \<Rightarrow> Inr ([], h, e)
      | Some b \<Rightarrow>
          let rs = b_requests b; batch_size = length rs in
          rbind (current_seq_length h rs) (\<lambda>seqlen.
          rbind (get_decode_time e seqlen (int batch_size)) (\<lambda>d.
          let duration = visible_duration d;
              start = max (se_time_cursor e) (se_current_time e);
              fin = start + duration;
              handled = filter (\<lambda>r. req_status (h r) \<noteq> EXIT) rs in
          rbind (for_res decode_one rs (h, se_planner e, [])) (\<lambda>(h', p, completed).
          let st = se_stats e;
              e1 = refresh_memory_usage (e\<lparr>se_time_cursor := fin, se_planner := p,
                se_stats := st\<lparr>st_total_decode_time := st_total_decode_time st + duration,
                  st_total_tokens_generated := st_total_tokens_generated st + batch_size\<rparr>\<rparr>) in
          rbind (for_res complete_one completed e1) (\<lambda>e2.
          rbind (if completed = [] then Inr e2
                 else rbind (mp_free (map (\<lambda>r. req_id (h' r)) completed) (se_planner e2)) (\<lambda>p'.
                   Inr (refresh_memory_usage (e2\<lparr>se_planner := p'\<rparr>)))) (\<lambda>e3.
          let e4 = (if handled = [] then e3
                    else let (snapshot, e') = get_memory_snapshot e3
                         in e'\<lparr>se_trace := se_trace e' @
                              create_detailed_events Decode (map h' handled) start fin snapshot e'\<rparr>)
          in Inr (map (\<lambda>r. completion_event e fin (h' r)) completed, h', e4)))))))"

subsection \<open>One step\<close>

definition prefill_phase :: "req_heap \<Rightarrow> serving_engine \<Rightarrow> (req_heap \<times> serving_engine) res" where
  "prefill_phase h e =
     rbind (if se_current_prefill e = None \<and> se_prefill_queue e \<noteq> [] then start_next_prefill h e
            else Inr (h, e)) (\<lambda>(h1, e1).
       case se_current_prefill e1 of
         None \<Rightarrow> Inr (h1, e1)
       | Some r \<Rightarrow>
           rbind (process_individual_prefill h1 e1) (\<lambda>(complete, h2, e2).
             if complete
             then Inr (h2, e2\<lparr>se_decode_ready := set_add r (se_decode_ready e2), se_current_prefill := None\<rparr>)
             else Inr (h2, e2)))"

definition batch_phase :: "(req_ref list \<Rightarrow> req_ref list) \<Rightarrow> serving_engine \<Rightarrow> serving_engine res" where
  "batch_phase iter e =
     (if se_batch e = None \<and> se_decode_ready e \<noteq> [] then form_decode_batch iter e
      else if se_batch e \<noteq> None \<and> se_decode_ready e \<noteq> [] then add_to_decode_batch iter e
      else Inr e)"

definition drop_empty_batch :: "serving_engine \<Rightarrow> serving_engine" where
  "drop_empty_batch e =
     (case se_batch e of None \<Rightarrow> e | Some b \<Rightarrow> if batch_is_empty b then e\<lparr>se_batch := None\<rparr> else e)"

definition decode_phase :: "req_heap \<Rightarrow> serving_engine \<Rightarrow> (event list \<times> req_heap \<times> serving_engine) res" where
  "decode_phase h e =
     rbind (case se_batch e of
              None \<Rightarrow> Inr ([], h, e)
            | Some b \<Rightarrow> if batch_is_empty b then Inr ([], h, e) else process_decode_batch h e)
       (\<lambda>(evs, h', e'). Inr (evs, h', drop_empty_batch e'))"

definition engine_step ::
  "(req_ref list \<Rightarrow> req_ref list) \<Rightarrow> pyfloat option \<Rightarrow> req_heap \<Rightarrow> serving_engine \<Rightarrow>
   (event list \<times> req_heap \<times> serving_engine) res" where
  "engine_step iter current_time h e =
     rbind (prefill_phase h (case current_time of None \<Rightarrow> e | Some t \<Rightarrow> set_current_time t e)) (\<lambda>(h1, e1).
     rbind (batch_phase iter e1) (\<lambda>e2. decode_phase h1 e2))"

definition has_pending_work :: "serving_engine \<Rightarrow> bool" where
  "has_pending_work e \<longleftrightarrow> se_prefill_queue e \<noteq> [] \<or> se_current_prefill e \<noteq> None \<or> se_decode_ready e \<noteq> [] \<or>
     (case se_batch e of None \<Rightarrow> False | Some b \<Rightarrow> \<not> batch_is_empty b)"

subsection \<open>Statistics\<close>

record engine_report =
  er_stats :: engine_stats
  er_engine_id :: string
  er_model_id :: string
  er_hardware :: string
  er_current_load :: nat
  er_queue_length :: nat
  er_decode_ready_count :: nat
  er_current_prefill :: bool
  er_batch_size :: nat
  er_avg_batch_size :: pyfloat
  er_memory_info :: memory_info
  er_model_loaded :: bool
  er_trace :: "trace_event list"

text \<open>\<open>**self.statistics\<close> is evaluated before \<open>get_memory_info\<close> updates the memory peak.\<close>

definition np_mean :: "nat list \<Rightarrow> pyfloat" where
  "np_mean xs = (if xs = [] then 0 else of_nat (sum_list xs) / of_nat (length xs))"

definition engine_get_statistics :: "serving_engine \<Rightarrow> engine_report \<times> serving_engine" where
  "engine_get_statistics e =
     (let (info, e') = get_memory_info e
      in (\<lparr>er_stats = se_stats e, er_engine_id = se_id e, er_model_id = se_model_id e,
           er_hardware = se_hardware e, er_current_load = get_current_load e,
           er_queue_length = length (se_prefill_queue e), er_decode_ready_count = length (se_decode_ready e),
           er_current_prefill = (se_current_prefill e \<noteq> None),
           er_batch_size = (case se_batch e of None \<Rightarrow> 0 | Some b \<Rightarrow> length (b_requests b)),
           er_avg_batch_size = np_mean (st_batch_sizes (se_stats e)),
           er_memory_info = info, er_model_loaded = se_model_loaded e, er_trace = se_trace e\<rparr>, e'))"


section \<open>Fields the bookkeeping leaves alone\<close>

lemma refresh_frame [simp, frame_simps]:
  "se_id (refresh_memory_usage e) = se_id e"
  "se_model_id (refresh_memory_usage e) = se_model_id e"
  "se_hardware (refresh_memory_usage e) = se_hardware e"
  "se_max_batch_size (refresh_memory_usage e) = se_max_batch_size e"
  "se_spec (refresh_memory_usage e) = se_spec e"
  "se_planner (refresh_memory_usage e) = se_planner e"
  "se_request_queue (refresh_memory_usage e) = se_request_queue e"
  "se_active (refresh_memory_usage e) = se_active e"
  "se_completed (refresh_memory_usage e) = se_completed e"
  "se_prefill_queue (refresh_memory_usage e) = se_prefill_queue e"
  "se_decode_ready (refresh_memory_usage e) = se_decode_ready e"
  "se_batch (refresh_memory_usage e) = se_batch e"
  "se_batch_counter (refresh_memory_usage e) = se_batch_counter e"
  "se_current_prefill (refresh_memory_usage e) = se_current_prefill e"
  "se_current_time (refresh_memory_usage e) = se_current_time e"
  "se_time_cursor (refresh_memory_usage e) = se_time_cursor e"
  "se_analyzer (refresh_memory_usage e) = se_analyzer e"
  "se_callback (refresh_memory_usage e) = se_callback e"
  "se_model_loaded (refresh_memory_usage e) = se_model_loaded e"
  "se_model_memory (refresh_memory_usage e) = se_model_memory e"
  "se_trace (refresh_memory_usage e) = se_trace e"
  "se_outbox (refresh_memory_usage e) = se_outbox e"
  by (simp_all add: refresh_memory_usage_def Let_def split: prod.splits)

lemma memory_info_frame [simp, frame_simps]:
  "se_id (snd (get_memory_info e)) = se_id e"
  "se_model_id (snd (get_memory_info e)) = se_model_id e"
  "se_hardware (snd (get_memory_info e)) = se_hardware e"
  "se_max_batch_size (snd (get_memory_info e)) = se_max_batch_size e"
  "se_spec (snd (get_memory_info e)) = se_spec e"
  "se_planner (snd (get_memory_info e)) = se_planner e"
  "se_request_queue (snd (get_memory_info e)) = se_request_queue e"
  "se_active (snd (get_memory_info e)) = se_active e"
  "se_completed (snd (get_memory_info e)) = se_completed e"
  "se_prefill_queue (snd (get_memory_info e)) = se_prefill_queue e"
  "se_decode_ready (snd (get_memory_info e)) = se_decode_ready e"
  "se_batch (snd (get_memory_info e)) = se_batch e"
  "se_batch_counter (snd (get_memory_info e)) = se_batch_counter e"
  "se_current_prefill (snd (get_memory_info e)) = se_current_prefill e"
  "se_current_time (snd (get_memory_info e)) = se_current_time e"
  "se_time_cursor (snd (get_memory_info e)) = se_time_cursor e"
  "se_analyzer (snd (get_memory_info e)) = se_analyzer e"
  "se_callback (snd (get_memory_info e)) = se_callback e"
  "se_model_loaded (snd (get_memory_info e)) = se_model_loaded e"
  "se_model_memory (snd (get_memory_info e)) = se_model_memory e"
  "se_trace (snd (get_memory_info e)) = se_trace e"
  "se_outbox (snd (get_memory_info e)) = se_outbox e"
  by (simp_all add: get_memory_info_def Let_def)

lemma snapshot_frame [simp, frame_simps]:
  "se_id (snd (get_memory_snapshot e)) = se_id e"
  "se_model_id (snd (get_memory_snapshot e)) = se_model_id e"
  "se_hardware (snd (get_memory_snapshot e)) = se_hardware e"
  "se_max_batch_size (snd (get_memory_snapshot e)) = se_max_batch_size e"
  "se_spec (snd (get_memory_snapshot e)) = se_spec e"
  "se_planner (snd (get_memory_snapshot e)) = se_planner e"
  "se_request_queue (snd (get_memory_snapshot e)) = se_request_queue e"
  "se_active (snd (get_memory_snapshot e)) = se_active e"
  "se_completed (snd (get_memory_snapshot e)) = se_completed e"
  "se_prefill_queue (snd (get_memory_snapshot e)) = se_prefill_queue e"
  "se_decode_ready (snd (get_memory_snapshot e)) = se_decode_ready e"
  "se_batch (snd (get_memory_snapshot e)) = se_batch e"
  "se_batch_counter (snd (get_memory_snapshot e)) = se_batch_counter e"
  "se_current_prefill (snd (get_memory_snapshot e)) = se_current_prefill e"
  "se_current_time (snd (get_memory_snapshot e)) = se_current_time e"
  "se_time_cursor (snd (get_memory_snapshot e)) = se_time_cursor e"
  "se_analyzer (snd (get_memory_snapshot e)) = se_analyzer e"
  "se_callback (snd (get_memory_snapshot e)) = se_callback e"
  "se_model_loaded (snd (get_memory_snapshot e)) = se_model_loaded e"
  "se_model_memory (snd (get_memory_snapshot e)) = se_model_memory e"
  "se_trace (snd (get_memory_snapshot e)) = se_trace e"
  "se_outbox (snd (get_memory_snapshot e)) = se_outbox e"
  by (simp_all add: get_memory_snapshot_def Let_def split: prod.splits) (metis memory_info_frame snd_conv)+

lemma call_back_frame [simp, frame_simps]:
  "se_id (call_back ev e) = se_id e"
  "se_model_id (call_back ev e) = se_model_id e"
  "se_hardware (call_back ev e) = se_hardware e"
  "se_max_batch_size (call_back ev e) = se_max_batch_size e"
  "se_spec (call_back ev e) = se_spec e"
  "se_planner (call_back ev e) = se_planner e"
  "se_request_queue (call_back ev e) = se_request_queue e"
  "se_active (call_back ev e) = se_active e"
  "se_completed (call_back ev e) = se_completed e"
  "se_prefill_queue (call_back ev e) = se_prefill_queue e"
  "se_decode_ready (call_back ev e) = se_decode_ready e"
  "se_batch (call_back ev e) = se_batch e"
  "se_batch_counter (call_back ev e) = se_batch_counter e"
  "se_current_prefill (call_back ev e) = se_current_prefill e"
  "se_current_time (call_back ev e) = se_current_time e"
  "se_time_cursor (call_back ev e) = se_time_cursor e"
  "se_analyzer (call_back ev e) = se_analyzer e"
  "se_callback (call_back ev e) = se_callback e"
  "se_model_loaded (call_back ev e) = se_model_loaded e"
  "se_model_memory (call_back ev e) = se_model_memory e"
  "se_trace (call_back ev e) = se_trace e"
  "se_stats (call_back ev e) = se_stats e"
  by (simp_all add: call_back_def)

lemma emit_event_frame [simp, frame_simps]:
  "se_id (emit_event ty d pr e) = se_id e"
  "se_model_id (emit_event ty d pr e) = se_model_id e"
  "se_hardware (emit_event ty d pr e) = se_hardware e"
  "se_max_batch_size (emit_event ty d pr e) = se_max_batch_size e"
  "se_spec (emit_event ty d pr e) = se_spec e"
  "se_planner (emit_event ty d pr e) = se_planner e"
  "se_request_queue (emit_event ty d pr e) = se_request_queue e"
  "se_active (emit_event ty d pr e) = se_active e"
  "se_completed (emit_event ty d pr e) = se_completed e"
  "se_prefill_queue (emit_event ty d pr e) = se_prefill_queue e"
  "se_decode_ready (emit_event ty d pr e) = se_decode_ready e"
  "se_batch (emit_event ty d pr e) = se_batch e"
  "se_batch_counter (emit_event ty d pr e) = se_batch_counter e"
  "se_current_prefill (emit_event ty d pr e) = se_current_prefill e"
  "se_current_time (emit_event ty d pr e) = se_current_time e"
  "se_time_cursor (emit_event ty d pr e) = se_time_cursor e"
  "se_analyzer (emit_event ty d pr e) = se_analyzer e"
  "se_callback (emit_event ty d pr e) = se_callback e"
  "se_model_loaded (emit_event ty d pr e) = se_model_loaded e"
  "se_model_memory (emit_event ty d pr e) = se_model_memory e"
  "se_trace (emit_event ty d pr e) = se_trace e"
  "se_stats (emit_event ty d pr e) = se_stats e"
  by (simp_all add: emit_event_def)

lemma load_model_frame [simp, frame_simps]:
  "se_id (snd (load_model e)) = se_id e"
  "se_model_id (snd (load_model e)) = se_model_id e"
  "se_hardware (snd (load_model e)) = se_hardware e"
  "se_max_batch_size (snd (load_model e)) = se_max_batch_size e"
  "se_spec (snd (load_model e)) = se_spec e"
  "se_planner (snd (load_model e)) = se_planner e"
  "se_request_queue (snd (load_model e)) = se_request_queue e"
  "se_active (snd (load_model e)) = se_active e"
  "se_completed (snd (load_model e)) = se_completed e"
  "se_prefill_queue (snd (load_model e)) = se_prefill_queue e"
  "se_decode_ready (snd (load_model e)) = se_decode_ready e"
  "se_batch (snd (load_model e)) = se_batch e"
  "se_batch_counter (snd (load_model e)) = se_batch_counter e"
  "se_current_prefill (snd (load_model e)) = se_current_prefill e"
  "se_current_time (snd (load_model e)) = se_current_time e"
  "se_time_cursor (snd (load_model e)) = se_time_cursor e"
  "se_analyzer (snd (load_model e)) = se_analyzer e"
  "se_callback (snd (load_model e)) = se_callback e"
  by (simp_all add: load_model_def Let_def)

lemma set_current_time_frame [simp, frame_simps]:
  "se_id (set_current_time t e) = se_id e"
  "se_model_id (set_current_time t e) = se_model_id e"
  "se_hardware (set_current_time t e) = se_hardware e"
  "se_max_batch_size (set_current_time t e) = se_max_batch_size e"
  "se_spec (set_current_time t e) = se_spec e"
  "se_planner (set_current_time t e) = se_planner e"
  "se_request_queue (set_current_time t e) = se_request_queue e"
  "se_active (set_current_time t e) = se_active e"
  "se_completed (set_current_time t e) = se_completed e"
  "se_prefill_queue (set_current_time t e) = se_prefill_queue e"
  "se_decode_ready (set_current_time t e) = se_decode_ready e"
  "se_batch (set_current_time t e) = se_batch e"
  "se_batch_counter (set_current_time t e) = se_batch_counter e"
  "se_current_prefill (set_current_time t e) = se_current_prefill e"
  "se_analyzer (set_current_time t e) = se_analyzer e"
  "se_callback (set_current_time t e) = se_callback e"
  "se_model_loaded (set_current_time t e) = se_model_loaded e"
  "se_model_memory (set_current_time t e) = se_model_memory e"
  "se_trace (set_current_time t e) = se_trace e"
  "se_outbox (set_current_time t e) = se_outbox e"
  "se_stats (set_current_time t e) = se_stats e"
  by (simp_all add: set_current_time_def)

lemma drop_empty_batch_frame [simp, frame_simps]:
  "se_id (drop_empty_batch e) = se_id e"
  "se_model_id (drop_empty_batch e) = se_model_id e"
  "se_hardware (drop_empty_batch e) = se_hardware e"
  "se_max_batch_size (drop_empty_batch e) = se_max_batch_size e"
  "se_spec (drop_empty_batch e) = se_spec e"
  "se_planner (drop_empty_batch e) = se_planner e"
  "se_request_queue (drop_empty_batch e) = se_request_queue e"
  "se_active (drop_empty_batch e) = se_active e"
  "se_completed (drop_empty_batch e) = se_completed e"
  "se_prefill_queue (drop_empty_batch e) = se_prefill_queue e"
  "se_decode_ready (drop_empty_batch e) = se_decode_ready e"
  "se_batch_counter (drop_empty_batch e) = se_batch_counter e"
  "se_current_prefill (drop_empty_batch e) = se_current_prefill e"
  "se_current_time (drop_empty_batch e) = se_current_time e"
  "se_time_cursor (drop_empty_batch e) = se_time_cursor e"
  "se_analyzer (drop_empty_batch e) = se_analyzer e"
  "se_callback (drop_empty_batch e) = se_callback e"
  "se_model_loaded (drop_empty_batch e) = se_model_loaded e"
  "se_model_memory (drop_empty_batch e) = se_model_memory e"
  "se_trace (drop_empty_batch e) = se_trace e"
  "se_outbox (drop_empty_batch e) = se_outbox e"
  "se_stats (drop_empty_batch e) = se_stats e"
  by (simp_all add: drop_empty_batch_def split: option.splits)

end
