(* ===== verification/Sim_Engine_Inv.thy ===== *)
theory Sim_Engine_Inv
  imports Sim_Engine
begin

text \<open>
  Invariants of the serving engine. A request an engine has accepted is in exactly one of four
  places: waiting for prefill, ready to decode, in the decode batch, or completed; the KV-cache
  planner holds blocks for exactly the requests that are not completed. Every step keeps this,
  never loses a request, never moves the GPU clock back, and, as long as the cache is large enough
  for the accepted requests, does some work until all of them have completed.
\<close>

section \<open>The invariant\<close>

definition batch_refs :: "serving_engine \<Rightarrow> req_ref list" where
  "batch_refs e = (case se_batch e of None \<Rightarrow> [] | Some b \<Rightarrow> b_requests b)"

definition live_refs :: "serving_engine \<Rightarrow> req_ref list" where
  "live_refs e = se_prefill_queue e @ se_decode_ready e @ batch_refs e"

definition kv_keys :: "memory_planner \<Rightarrow> string set" where
  "kv_keys p = fst ` set (mp_allocation_map p)"

definition req_live :: "gen_request \<Rightarrow> bool" where
  "req_live q \<longleftrightarrow> 1 \<le> input_length q \<and> 0 \<le> generated_tokens q \<and> generated_tokens q < output_length q \<and>
     req_status q \<noteq> EXIT"

definition engine_inv :: "req_heap \<Rightarrow> serving_engine \<Rightarrow> bool" where
  "engine_inv h e \<longleftrightarrow>
     planner_inv (se_planner e) \<and> 0 < hw_FP16 (se_spec e) \<and> 1 \<le> se_max_batch_size e \<and>
     se_current_prefill e = None \<and>
     distinct (live_refs e @ se_completed e) \<and>
     distinct (se_active e) \<and> set (se_active e) = set (se_decode_ready e) \<union> set (batch_refs e) \<and>
     (\<forall>b. se_batch e = Some b \<longrightarrow> b_requests b \<noteq> []) \<and>
     int (length (batch_refs e)) \<le> se_max_batch_size e \<and>
     inj_on (\<lambda>r. req_id (h r)) (set (live_refs e)) \<and>
     kv_keys (se_planner e) = (\<lambda>r. req_id (h r)) ` set (live_refs e) \<and>
     (\<forall>r \<in> set (live_refs e). req_live (h r))"

lemma engine_inv_FP16: "engine_inv h e \<Longrightarrow> 0 < hw_FP16 (se_spec e)"
  by (simp add: engine_inv_def)

lemma has_allocation_keys: "has_allocation p rid \<longleftrightarrow> rid \<in> kv_keys p"
  by (simp add: has_allocation_def kv_keys_def map_of_eq_None_iff)

lemma set_remove_eq [res_simps]:
  "set_remove x xs = Inr ys \<longleftrightarrow> x \<in> set xs \<and> ys = remove1 x xs"
  by (auto simp: set_remove_def)

lemma set_remove_distinct:
  "distinct xs \<Longrightarrow> x \<in> set xs \<Longrightarrow> set_remove x xs = Inr (filter (\<lambda>y. y \<noteq> x) xs)"
  by (simp add: set_remove_def distinct_remove1_removeAll removeAll_filter_not_eq eq_commute)

lemma for_set_remove:
  assumes "distinct xs" "distinct cs" "set cs \<subseteq> set xs"
  shows "for_res set_remove cs xs = Inr (filter (\<lambda>x. x \<notin> set cs) xs)"
  using assms
proof (induction cs arbitrary: xs)
  case (Cons c cs)
  then have "for_res set_remove cs (filter (\<lambda>y. y \<noteq> c) xs) = Inr (filter (\<lambda>x. x \<notin> set cs) (filter (\<lambda>y. y \<noteq> c) xs))"
    by (intro Cons.IH) auto
  then show ?case using Cons.prems by (simp add: set_remove_distinct filter_filter conj_commute)
qed simp

section \<open>Admission\<close>

lemma get_prefill_time_total: "0 < hw_FP16 (se_spec e) \<Longrightarrow> \<exists>d. get_prefill_time e n k = Inr d"
  unfolding get_prefill_time_def
  by (cases "analyze (se_analyzer e) n k 16 16 (Some 16) 1") (auto simp: compute_throughput_def)

lemma get_decode_time_total: "0 < hw_FP16 (se_spec e) \<Longrightarrow> \<exists>d. get_decode_time e n k = Inr d"
  unfolding get_decode_time_def
  by (cases "analyze (se_analyzer e) n k 16 16 (Some 16) 1") (auto simp: compute_throughput_def)

lemma visible_duration_pos [simp]: "0 < visible_duration d"
  by (simp add: visible_duration_def)

lemma can_accommodate_frame:
  assumes "can_accommodate_request m q e = Inr (ok, e')"
  shows "e' = snd (load_model e)" and "ok \<Longrightarrow> can_allocate_request (se_planner e) q = Inr True"
proof -
  obtain b e1 where l: "load_model e = (b, e1)" by force
  have "se_planner e1 = se_planner e" using load_model_frame(6) [of e] by (simp add: l)
  with assms show "e' = snd (load_model e)" and "ok \<Longrightarrow> can_allocate_request (se_planner e) q = Inr True"
    by (auto simp: can_accommodate_request_def l res_simps split: if_splits)
qed

text \<open>What \<open>allocate\<close> does to the keys: a request without blocks that needs some gets an entry.\<close>

lemma mp_allocate_keys:
  assumes "mp_allocate q p = Inr p'" "planner_inv p"
    and "req_id q \<in> kv_keys p \<or> 1 \<le> input_length q"
  shows "kv_keys p' = insert (req_id q) (kv_keys p)"
proof -
  obtain n where n: "estimate_required_blocks p q = Inr n"
    and p': "if n = 0 then p' = p else allocate_blocks (req_id q) n p = Inr p'"
    using assms(1) by (auto simp: mp_allocate_def res_simps split: if_splits)
  show ?thesis
  proof (cases "n = 0")
    case True
    have "req_id q \<in> kv_keys p"
    proof (rule ccontr)
      assume "req_id q \<notin> kv_keys p"
      then have "map_of (mp_allocation_map p) (req_id q) = None" "1 \<le> input_length q"
        using assms(3) by (auto simp: kv_keys_def map_of_eq_None_iff)
      with n have "0 < n" using assms(2)
        by (auto simp: estimate_required_blocks_def res_simps planner_inv_def)
      with True show False by simp
    qed
    with True p' show ?thesis by auto
  next
    case False
    then have "mp_allocation_map p' = dict_set (req_id q) (dict_get_default (mp_allocation_map p) (req_id q) 0 + n)
        (mp_allocation_map p)"
      using p' by (auto simp: allocate_blocks_def Let_def res_simps)
    then show ?thesis by (simp add: kv_keys_def dom_update)
  qed
qed

lemma add_request_inv:
  assumes inv: "engine_inv h e" and q: "req_live (h r)"
    and fresh: "r \<notin> set (live_refs e @ se_completed e)" "req_id (h r) \<notin> kv_keys (se_planner e)"
    and run: "add_request r h e = Inr (ok, h', e')"
  shows "engine_inv h' e'" and "live_refs e' = (if ok then se_prefill_queue e @ r # se_decode_ready e @ batch_refs e
      else live_refs e)"
    and "se_completed e' = se_completed e"
proof -
  obtain e1 where e1: "can_accommodate_request default_margin (h r) e = Inr (ok, e1)"
    using run by (auto simp: add_request_def res_simps Let_def split: prod.splits if_splits)
  have e1': "e1 = snd (load_model e)" using can_accommodate_frame(1) [OF e1] .
  have rest: "batch_refs (snd (load_model e)) = batch_refs e" "live_refs (snd (load_model e)) = live_refs e"
    by (simp_all add: batch_refs_def live_refs_def)
  show "live_refs e' = (if ok then se_prefill_queue e @ r # se_decode_ready e @ batch_refs e else live_refs e)"
    and "se_completed e' = se_completed e"
    using run e1 by (auto simp: add_request_def res_simps Let_def e1' batch_refs_def live_refs_def split: if_splits)
  show "engine_inv h' e'"
  proof (cases ok)
    case False
    then show ?thesis using run e1 inv by (auto simp: add_request_def e1' engine_inv_def rest)
  next
    case True
    with run e1 obtain p where p: "mp_allocate (h r) (se_planner e) = Inr p"
      and h': "h' = h(r := (h r)\<lparr>req_status := SCHEDULED\<rparr>)"
      and e': "e' = (let e2 = refresh_memory_usage (e1\<lparr>se_planner := p\<rparr>) in e2\<lparr>se_prefill_queue := se_prefill_queue e2 @ [r]\<rparr>)"
      by (auto simp: add_request_def e1' res_simps Let_def)
    have pinv: "planner_inv (se_planner e)" and ge: "1 \<le> input_length (h r)"
      using inv q by (auto simp: engine_inv_def req_live_def)
    have "kv_keys p = insert (req_id (h r)) (kv_keys (se_planner e))"
      using mp_allocate_keys [OF p pinv] ge by simp
    moreover have "planner_inv p" using mp_allocate_inv [OF pinv _ p] ge by simp
    moreover have b: "batch_refs e' = batch_refs e" by (simp add: e' Let_def e1' batch_refs_def)
    moreover have "r \<notin> set (live_refs e)" using fresh by simp
    then have ids: "(\<lambda>x. req_id (h' x)) = (\<lambda>x. req_id (h x))" by (auto simp: h')
    ultimately show ?thesis
      using inv q fresh unfolding engine_inv_def ids
      by (auto simp: e' Let_def e1' live_refs_def h' req_live_def)
  qed
qed


section \<open>The prefill phase\<close>

text \<open>The request a prefill phase handles, and what the phase changes.\<close>

definition after_prefill :: "pyfloat \<Rightarrow> req_heap \<Rightarrow> serving_engine \<Rightarrow> req_heap \<Rightarrow> serving_engine \<Rightarrow> bool" where
  "after_prefill t h e h' e' \<longleftrightarrow>
     se_planner e' = se_planner e \<and> se_spec e' = se_spec e \<and> se_max_batch_size e' = se_max_batch_size e \<and>
     se_batch e' = se_batch e \<and> se_completed e' = se_completed e \<and> se_id e' = se_id e \<and>
     se_current_prefill e' = None \<and> se_current_time e' = se_current_time e \<and> t \<le> se_time_cursor e' \<and>
     (case se_prefill_queue e of
        [] \<Rightarrow> h' = h \<and> se_prefill_queue e' = [] \<and> se_decode_ready e' = se_decode_ready e \<and> se_active e' = se_active e
      | r # rest \<Rightarrow> h' = h(r := set_prefill_finished_at (se_time_cursor e') (req_prefill (h r))) \<and>
          se_prefill_queue e' = rest \<and> se_decode_ready e' = set_add r (se_decode_ready e) \<and>
          se_active e' = set_add r (se_active e) \<and> max t (se_current_time e) < se_time_cursor e')"

lemma process_individual_prefill_spec:
  assumes "se_current_prefill e = Some r" "0 < hw_FP16 (se_spec e)"
  shows "\<exists>h' e'. process_individual_prefill h e = Inr (True, h', e') \<and>
    h' = h(r := set_prefill_finished_at (se_time_cursor e') (h r)) \<and>
    max (se_time_cursor e) (se_current_time e) < se_time_cursor e' \<and>
    se_planner e' = se_planner e \<and> se_spec e' = se_spec e \<and> se_max_batch_size e' = se_max_batch_size e \<and>
    se_batch e' = se_batch e \<and> se_completed e' = se_completed e \<and> se_id e' = se_id e \<and>
    se_current_time e' = se_current_time e \<and> se_prefill_queue e' = se_prefill_queue e \<and>
    se_decode_ready e' = se_decode_ready e \<and> se_active e' = se_active e"
proof -
  obtain d where d: "get_prefill_time e (input_length (h r)) 1 = Inr d"
    using get_prefill_time_total assms(2) by blast
  let ?start = "max (se_time_cursor e) (se_current_time e)"
  let ?fin = "?start + visible_duration d"
  define e1 where "e1 = e\<lparr>se_time_cursor := ?fin, se_stats := (se_stats e)\<lparr>st_total_prefill_time :=
      st_total_prefill_time (se_stats e) + visible_duration d\<rparr>\<rparr>"
  obtain sn e2 where s: "get_memory_snapshot e1 = (sn, e2)" by force
  then have e2: "e2 = snd (get_memory_snapshot e1)" by simp
  show ?thesis
    using assms(1) d s
    by (simp add: process_individual_prefill_def Let_def e1_def [symmetric] del: max_less_iff_conj)
      (simp add: e2 e1_def)
qed

lemma prefill_phase_spec:
  assumes inv: "engine_inv h e"
  shows "\<exists>h' e'. prefill_phase h e = Inr (h', e') \<and> after_prefill (se_time_cursor e) h e h' e'"
proof (cases "se_prefill_queue e")
  case Nil
  then show ?thesis using inv by (simp add: prefill_phase_def after_prefill_def engine_inv_def)
next
  case (Cons r rest)
  have has: "has_allocation (se_planner e) (req_id (h r))"
    using inv Cons by (simp add: has_allocation_keys engine_inv_def live_refs_def)
  define e1 where "e1 = call_back \<lparr>ev_timestamp = max (se_time_cursor e) (se_current_time e),
      ev_type = PREFILL_START, ev_target = se_id e, ev_data = [(''request_id'', PStr (req_id (h r)))],
      ev_priority = HIGH\<rparr>
     (e\<lparr>se_prefill_queue := rest, se_current_prefill := Some r, se_active := set_add r (se_active e)\<rparr>)"
  have start: "start_next_prefill h e = Inr (h(r := req_prefill (h r)), e1)"
    using has Cons by (simp add: start_next_prefill_def e1_def)
  have cur: "se_current_prefill e = None" "0 < hw_FP16 (se_spec e)" using inv by (simp_all add: engine_inv_def)
  have e1: "se_current_prefill e1 = Some r" "0 < hw_FP16 (se_spec e1)" using cur by (simp_all add: e1_def)
  from process_individual_prefill_spec [OF e1, of "h(r := req_prefill (h r))"]
  show ?thesis
    using start cur(1) Cons e1(1)
    by (auto simp: prefill_phase_def after_prefill_def e1_def)
qed


lemma after_prefill_inv:
  assumes inv: "engine_inv h e" and a: "after_prefill t h e h' e'"
  shows "engine_inv h' e'" and "mset (live_refs e') = mset (live_refs e)"
    and "\<And>r. req_id (h' r) = req_id (h r) \<and> input_length (h' r) = input_length (h r) \<and>
      output_length (h' r) = output_length (h r) \<and> generated_tokens (h' r) = generated_tokens (h r)"
proof -
  have b: "batch_refs e' = batch_refs e" using a by (simp add: after_prefill_def batch_refs_def)
  show same: "\<And>r. req_id (h' r) = req_id (h r) \<and> input_length (h' r) = input_length (h r) \<and>
      output_length (h' r) = output_length (h r) \<and> generated_tokens (h' r) = generated_tokens (h r)"
    using a by (cases "se_prefill_queue e") (auto simp: after_prefill_def set_prefill_finished_at_def req_prefill_def)
  show m: "mset (live_refs e') = mset (live_refs e)"
    using a inv b by (cases "se_prefill_queue e")
      (auto simp: after_prefill_def live_refs_def set_add_def engine_inv_def)
  then have ls: "set (live_refs e') = set (live_refs e)" by (metis set_mset_mset)
  have "distinct (live_refs e' @ se_completed e')"
    using inv a mset_eq_imp_distinct_iff [of "live_refs e' @ se_completed e'" "live_refs e @ se_completed e"] m
    by (simp add: engine_inv_def after_prefill_def)
  moreover have "distinct (se_active e') \<and> set (se_active e') = set (se_decode_ready e') \<union> set (batch_refs e')"
    using a inv b by (cases "se_prefill_queue e") (auto simp: after_prefill_def set_add_def engine_inv_def)
  moreover have "\<forall>r \<in> set (live_refs e'). req_live (h' r)"
    unfolding ls using a inv
    by (cases "se_prefill_queue e")
      (auto simp: after_prefill_def engine_inv_def req_live_def set_prefill_finished_at_def req_prefill_def)
  moreover have ids: "(\<lambda>r. req_id (h' r)) = (\<lambda>r. req_id (h r))" using same by auto
  moreover have "inj_on (\<lambda>r. req_id (h' r)) (set (live_refs e'))" "kv_keys (se_planner e') = (\<lambda>r. req_id (h' r)) ` set (live_refs e')"
    unfolding ids ls using inv a by (auto simp: engine_inv_def after_prefill_def)
  moreover have "planner_inv (se_planner e')" "0 < hw_FP16 (se_spec e')" "1 \<le> se_max_batch_size e'"
    "se_current_prefill e' = None" "\<forall>b. se_batch e' = Some b \<longrightarrow> b_requests b \<noteq> []"
    "int (length (batch_refs e')) \<le> se_max_batch_size e'"
    using a inv unfolding b by (auto simp: engine_inv_def after_prefill_def)
  ultimately show "engine_inv h' e'" unfolding engine_inv_def by blast
qed

section \<open>Batching\<close>

definition iter_ok :: "(req_ref list \<Rightarrow> req_ref list) \<Rightarrow> bool" where
  "iter_ok iter \<longleftrightarrow> (\<forall>xs. mset (iter xs) = mset xs)"

text \<open>Moving the chosen requests from the ready set to a batch.\<close>

lemma chosen_facts:
  assumes "iter_ok iter" "distinct ready" "0 < k"
  shows "distinct (py_take (iter ready) k)" and "set (py_take (iter ready) k) \<subseteq> set ready"
    and "int (length (py_take (iter ready) k)) \<le> k" and "ready \<noteq> [] \<Longrightarrow> py_take (iter ready) k \<noteq> []"
proof -
  have m: "mset (iter ready) = mset ready" using assms(1) by (simp add: iter_ok_def)
  then have s: "set (iter ready) = set ready" by (metis set_mset_mset)
  have d: "distinct (iter ready)" using assms(2) m mset_eq_imp_distinct_iff by blast
  show "distinct (py_take (iter ready) k)" "int (length (py_take (iter ready) k)) \<le> k"
    using d assms(3) by (simp_all add: distinct_take)
  show "set (py_take (iter ready) k) \<subseteq> set ready"
    using s assms(3) by (auto dest: in_set_takeD)
  show "ready \<noteq> [] \<Longrightarrow> py_take (iter ready) k \<noteq> []"
    using s assms(3) by auto
qed

lemma filter_out_mset:
  assumes "distinct xs" "distinct cs" "set cs \<subseteq> set xs"
  shows "mset (filter (\<lambda>x. x \<notin> set cs) xs) + mset cs = mset xs"
proof -
  have "mset cs = mset (filter (\<lambda>x. x \<in> set cs) xs)"
    by (rule set_eq_iff_mset_eq_distinct [THEN iffD1]) (use assms in auto)
  then show ?thesis using multiset_partition [of "mset xs" "\<lambda>x. x \<notin> set cs"] by (simp add: add.commute)
qed

lemma add_chosen:
  assumes "distinct ready" "distinct cs" "set cs \<subseteq> set ready" "set cs \<inter> set (b_requests b) = {}"
  shows "for_res (\<lambda>r (ready, b). rbind (set_remove r ready) (\<lambda>ready'. Inr (ready', batch_add_request r b))) cs (ready, b) =
    Inr (filter (\<lambda>x. x \<notin> set cs) ready, b\<lparr>b_requests := b_requests b @ cs\<rparr>)"
  using assms
proof (induction cs arbitrary: ready b)
  case (Cons c cs)
  let ?ready = "filter (\<lambda>y. y \<noteq> c) ready" and ?b = "b\<lparr>b_requests := b_requests b @ [c]\<rparr>"
  have "batch_add_request c b = ?b" using Cons.prems by (simp add: batch_add_request_def)
  moreover have "for_res (\<lambda>r (ready, b). rbind (set_remove r ready) (\<lambda>ready'. Inr (ready', batch_add_request r b))) cs (?ready, ?b) =
    Inr (filter (\<lambda>x. x \<notin> set cs) ?ready, ?b\<lparr>b_requests := b_requests ?b @ cs\<rparr>)"
    by (rule Cons.IH) (use Cons.prems in auto)
  ultimately show ?case
    using Cons.prems by (simp add: set_remove_distinct filter_filter conj_commute)
qed simp

text \<open>The effect of the batching phase on the fields the invariant speaks about.\<close>

definition after_batching :: "serving_engine \<Rightarrow> serving_engine \<Rightarrow> bool" where
  "after_batching e e' \<longleftrightarrow>
     se_planner e' = se_planner e \<and> se_spec e' = se_spec e \<and> se_max_batch_size e' = se_max_batch_size e \<and>
     se_prefill_queue e' = se_prefill_queue e \<and> se_completed e' = se_completed e \<and> se_id e' = se_id e \<and>
     se_current_prefill e' = se_current_prefill e \<and> se_current_time e' = se_current_time e \<and>
     se_time_cursor e' = se_time_cursor e \<and> se_active e' = se_active e \<and>
     mset (se_decode_ready e' @ batch_refs e') = mset (se_decode_ready e @ batch_refs e) \<and>
     set (batch_refs e) \<subseteq> set (batch_refs e') \<and>
     int (length (batch_refs e')) \<le> se_max_batch_size e' \<and>
     (\<forall>b. se_batch e' = Some b \<longrightarrow> b_requests b \<noteq> []) \<and>
     (se_decode_ready e @ batch_refs e \<noteq> [] \<longrightarrow> se_batch e' \<noteq> None)"

lemma form_decode_batch_spec:
  assumes inv: "engine_inv h e" and it: "iter_ok iter" and c: "se_batch e = None" "se_decode_ready e \<noteq> []"
  shows "\<exists>e'. form_decode_batch iter e = Inr e' \<and> after_batching e e'"
proof -
  let ?cs = "py_take (iter (se_decode_ready e)) (se_max_batch_size e)"
  have d: "distinct (se_decode_ready e)" and k: "0 < se_max_batch_size e"
    using inv by (auto simp: engine_inv_def live_refs_def)
  note cs = chosen_facts [OF it d k]
  have "for_res set_remove ?cs (se_decode_ready e) = Inr (filter (\<lambda>x. x \<notin> set ?cs) (se_decode_ready e))"
    by (rule for_set_remove [OF d cs(1,2)])
  then show ?thesis
    using c cs(3,4) filter_out_mset [OF d cs(1,2)]
    by (simp add: form_decode_batch_def after_batching_def batch_refs_def new_batch_def Let_def)
qed

lemma add_to_decode_batch_spec:
  assumes inv: "engine_inv h e" and it: "iter_ok iter" and c: "se_batch e = Some b" "se_decode_ready e \<noteq> []"
  shows "\<exists>e'. add_to_decode_batch iter e = Inr e' \<and> after_batching e e'"
proof (cases "se_max_batch_size e - int (get_batch_size b) \<le> 0")
  case True
  then show ?thesis
    using c inv by (simp add: add_to_decode_batch_def after_batching_def engine_inv_def)
next
  case False
  let ?k = "se_max_batch_size e - int (get_batch_size b)"
  define cs where "cs = py_take (iter (se_decode_ready e)) ?k"
  have d: "distinct (se_decode_ready e)" and disj: "set (se_decode_ready e) \<inter> set (b_requests b) = {}"
    using inv c by (auto simp: engine_inv_def live_refs_def batch_refs_def)
  have k: "0 < ?k" using False by simp
  have cs_take: "take (nat ?k) (iter (se_decode_ready e)) = cs" using k by (simp add: cs_def)
  note facts = chosen_facts [OF it d k, folded cs_def]
  let ?ready = "filter (\<lambda>x. x \<notin> set cs) (se_decode_ready e)" and ?b = "b\<lparr>b_requests := b_requests b @ cs\<rparr>"
  have run: "for_res (\<lambda>r (ready, b). rbind (set_remove r ready) (\<lambda>ready'. Inr (ready', batch_add_request r b))) cs
      (se_decode_ready e, b) = Inr (?ready, ?b)"
    by (rule add_chosen [OF d facts(1,2)]) (use disj facts(2) in blast)
  have len: "int (length (b_requests b @ cs)) \<le> se_max_batch_size e"
    using facts(3) by (simp add: get_batch_size_def)
  have ne: "b_requests b \<noteq> []" using inv c by (simp add: engine_inv_def)
  have m: "mset ?ready + (mset (b_requests b) + mset cs) = mset (se_decode_ready e) + mset (b_requests b)"
    using filter_out_mset [OF d facts(1,2)] by (metis add.assoc add.commute)
  let ?e = "e\<lparr>se_decode_ready := ?ready, se_batch := Some ?b,
    se_stats := (se_stats e)\<lparr>st_batch_sizes := st_batch_sizes (se_stats e) @ [get_batch_size ?b]\<rparr>\<rparr>"
  have "add_to_decode_batch iter e = Inr ?e"
    using c False run cs_take by (simp add: add_to_decode_batch_def)
  moreover have "after_batching e ?e"
    using c len ne m by (simp add: after_batching_def batch_refs_def)
  ultimately show ?thesis by blast
qed

lemma batch_phase_spec:
  assumes "engine_inv h e" "iter_ok iter"
  shows "\<exists>e'. batch_phase iter e = Inr e' \<and> after_batching e e'"
proof (cases "se_batch e")
  case None
  then show ?thesis
    using form_decode_batch_spec [OF assms] assms(1)
    by (auto simp: batch_phase_def after_batching_def batch_refs_def engine_inv_def)
next
  case (Some b)
  then show ?thesis
    using add_to_decode_batch_spec [OF assms] assms(1)
    by (auto simp: batch_phase_def after_batching_def batch_refs_def engine_inv_def)
qed

lemma after_batching_inv:
  assumes inv: "engine_inv h e" and a: "after_batching e e'"
  shows "engine_inv h e'" and "mset (live_refs e') = mset (live_refs e)"
proof -
  show m: "mset (live_refs e') = mset (live_refs e)"
    using a by (simp add: after_batching_def live_refs_def)
  then have ls: "set (live_refs e') = set (live_refs e)" by (metis set_mset_mset)
  have "distinct (live_refs e' @ se_completed e')"
    using inv a mset_eq_imp_distinct_iff [of "live_refs e' @ se_completed e'" "live_refs e @ se_completed e"] m
    by (simp add: engine_inv_def after_batching_def)
  moreover have "set (se_decode_ready e') \<union> set (batch_refs e') = set (se_decode_ready e) \<union> set (batch_refs e)"
    using a unfolding after_batching_def by (metis set_append set_mset_mset)
  moreover have eqs: "se_planner e' = se_planner e" "se_spec e' = se_spec e" "se_max_batch_size e' = se_max_batch_size e"
    "se_current_prefill e' = se_current_prefill e" "se_active e' = se_active e"
    and "int (length (batch_refs e')) \<le> se_max_batch_size e'" "\<forall>b. se_batch e' = Some b \<longrightarrow> b_requests b \<noteq> []"
    using a by (simp_all add: after_batching_def)
  ultimately show "engine_inv h e'" using inv unfolding engine_inv_def ls eqs by presburger
qed


section \<open>Decoding a batch\<close>

definition decode_heap :: "req_ref list \<Rightarrow> req_heap \<Rightarrow> req_heap" where
  "decode_heap rs h = (\<lambda>r. if r \<in> set rs then snd (req_decode (h r)) else h r)"

definition finishing :: "req_heap \<Rightarrow> req_ref list \<Rightarrow> req_ref list" where
  "finishing h rs = filter (\<lambda>r. fst (req_decode (h r))) rs"

lemma decode_heap_frame [simp, frame_simps]:
  "req_id (decode_heap rs h r) = req_id (h r)"
  "input_length (decode_heap rs h r) = input_length (h r)"
  "output_length (decode_heap rs h r) = output_length (h r)"
  by (simp_all add: decode_heap_def frame_simps)

lemma decode_one_eq:
  "decode_one r (h, p, c) = rbind (mp_allocate (snd (req_decode (h r))) p) (\<lambda>p'.
     Inr (h(r := snd (req_decode (h r))), p', if fst (req_decode (h r)) then c @ [r] else c))"
  by (simp add: decode_one_def Let_def split: prod.splits)

lemma decode_loop:
  assumes "for_res decode_one rs (h, p, c) = Inr (h', p', c')" "distinct rs" "planner_inv p"
    and "\<forall>r \<in> set rs. 1 \<le> input_length (h r) \<and> req_id (h r) \<in> kv_keys p"
  shows "h' = decode_heap rs h \<and> c' = c @ finishing h rs \<and> planner_inv p' \<and> kv_keys p' = kv_keys p"
  using assms
proof (induction rs arbitrary: h p c)
  case Nil
  then show ?case by (auto simp: decode_heap_def finishing_def)
next
  case (Cons r rs)
  let ?q = "snd (req_decode (h r))" and ?b = "fst (req_decode (h r))"
  obtain p1 where p1: "mp_allocate ?q p = Inr p1"
    and rest: "for_res decode_one rs (h(r := ?q), p1, if ?b then c @ [r] else c) = Inr (h', p', c')"
    using Cons.prems(1) by (auto simp: decode_one_eq res_simps)
  have r: "1 \<le> input_length (h r)" "req_id (h r) \<in> kv_keys p" using Cons.prems(4) by auto
  have "kv_keys p1 = kv_keys p"
    using mp_allocate_keys [OF p1 Cons.prems(3)] r by (auto simp: frame_simps)
  moreover have "planner_inv p1" using mp_allocate_inv [OF Cons.prems(3) _ p1] r by (simp add: frame_simps)
  moreover have "\<forall>x \<in> set rs. 1 \<le> input_length ((h(r := ?q)) x) \<and> req_id ((h(r := ?q)) x) \<in> kv_keys p"
    using Cons.prems(2,4) by auto
  ultimately have "h' = decode_heap rs (h(r := ?q)) \<and> c' = (if ?b then c @ [r] else c) @ finishing (h(r := ?q)) rs \<and>
      planner_inv p' \<and> kv_keys p' = kv_keys p"
    using Cons.IH [OF rest] Cons.prems(2) by (simp del: fun_upd_apply)
  moreover have "decode_heap rs (h(r := ?q)) = decode_heap (r # rs) h"
    using Cons.prems(2) by (auto simp: decode_heap_def)
  moreover have "finishing (h(r := ?q)) rs = finishing h rs"
    unfolding finishing_def by (rule filter_cong) (use Cons.prems(2) in auto)
  ultimately show ?case by (auto simp: finishing_def)
qed

lemma complete_loop:
  assumes "distinct cs" "set cs \<subseteq> set (se_active e)" "distinct (se_active e)" "se_batch e = Some b"
    "distinct (b_requests b)"
  shows "\<exists>st b'. for_res complete_one cs e = Inr (e\<lparr>se_active := filter (\<lambda>x. x \<notin> set cs) (se_active e),
      se_completed := se_completed e @ cs, se_batch := Some b', se_stats := st\<rparr>) \<and>
    b_requests b' = filter (\<lambda>x. x \<notin> set cs) (b_requests b) \<and>
    st_requests_processed st = st_requests_processed (se_stats e) + length cs \<and>
    st_total_tokens_generated st = st_total_tokens_generated (se_stats e)"
  using assms
proof (induction cs arbitrary: e b)
  case Nil
  then show ?case by (intro exI [of _ "se_stats e"] exI [of _ b]) simp
next
  case (Cons c cs)
  let ?b = "batch_remove_request c b"
  let ?e = "e\<lparr>se_active := filter (\<lambda>x. x \<noteq> c) (se_active e), se_completed := se_completed e @ [c],
    se_batch := Some ?b,
    se_stats := (se_stats e)\<lparr>st_requests_processed := st_requests_processed (se_stats e) + 1\<rparr>\<rparr>"
  have b: "b_requests ?b = filter (\<lambda>x. x \<noteq> c) (b_requests b)"
    using Cons.prems(5) by (simp add: batch_remove_request_def Let_def distinct_remove1_removeAll
        removeAll_filter_not_eq eq_commute)
  have one: "complete_one c e = Inr ?e"
    using Cons.prems by (simp add: complete_one_def set_remove_distinct)
  have "distinct cs" "set cs \<subseteq> set (se_active ?e)" "distinct (se_active ?e)" "se_batch ?e = Some ?b"
    "distinct (b_requests ?b)"
    using Cons.prems by (auto simp: b)
  from Cons.IH [OF this] show ?case
    using one by (auto simp: b filter_filter conj_commute)
qed

lemma mp_free_keys:
  assumes "planner_inv p"
  shows "\<exists>p'. mp_free ids p = Inr p' \<and> planner_inv p' \<and> kv_keys p' = kv_keys p - set ids \<and>
    mp_max_num_blocks p' = mp_max_num_blocks p \<and> mp_block_size p' = mp_block_size p \<and>
    (\<forall>k. k \<notin> set ids \<longrightarrow> map_of (mp_allocation_map p') k = map_of (mp_allocation_map p) k)"
proof -
  obtain p' where p': "mp_free ids p = Inr p'" "planner_inv p'"
    using assms free_loop_inv by (auto simp: mp_free_total)
  have eq: "p' = free_loop ids p" using p'(1) by (auto simp: mp_free_def Let_def res_simps)
  have m: "map_of (mp_allocation_map p') k = (if k \<in> set ids then None else map_of (mp_allocation_map p) k)" for k
    unfolding eq by (simp add: free_loop_map)
  have dom: "k \<in> kv_keys q \<longleftrightarrow> map_of (mp_allocation_map q) k \<noteq> None" for q k
    by (simp add: kv_keys_def map_of_eq_None_iff)
  have "kv_keys p' = kv_keys p - set ids" by (rule set_eqI) (simp add: dom m)
  then show ?thesis using p' m by (auto simp: eq frame_simps)
qed


text \<open>What a decode phase does: every request of the batch emits a token, the finished ones leave.\<close>

definition after_decode :: "req_heap \<Rightarrow> serving_engine \<Rightarrow> event list \<Rightarrow> req_heap \<Rightarrow> serving_engine \<Rightarrow> bool" where
  "after_decode h e evs h' e' \<longleftrightarrow>
     (let rs = batch_refs e; fin = finishing h rs in
      h' = decode_heap rs h \<and> planner_inv (se_planner e') \<and>
      kv_keys (se_planner e') = kv_keys (se_planner e) - (\<lambda>r. req_id (h r)) ` set fin \<and>
      se_spec e' = se_spec e \<and> se_max_batch_size e' = se_max_batch_size e \<and> se_id e' = se_id e \<and>
      se_prefill_queue e' = se_prefill_queue e \<and> se_decode_ready e' = se_decode_ready e \<and>
      se_current_prefill e' = se_current_prefill e \<and>
      se_active e' = filter (\<lambda>x. x \<notin> set fin) (se_active e) \<and>
      batch_refs e' = filter (\<lambda>x. x \<notin> set fin) rs \<and> (\<forall>b. se_batch e' = Some b \<longrightarrow> b_requests b \<noteq> []) \<and>
      se_completed e' = se_completed e @ fin \<and>
      (if rs = [] then se_time_cursor e' = se_time_cursor e
       else max (se_time_cursor e) (se_current_time e) < se_time_cursor e') \<and>
      evs = map (\<lambda>r. completion_event e (se_time_cursor e') (h' r)) fin)"

lemma batch_refs_drop [simp]: "batch_refs (drop_empty_batch e) = batch_refs e"
  by (auto simp: batch_refs_def drop_empty_batch_def batch_is_empty_def split: option.splits)

lemma drop_empty_batch_nonempty: "se_batch (drop_empty_batch e) = Some b \<Longrightarrow> b_requests b \<noteq> []"
  by (auto simp: drop_empty_batch_def batch_is_empty_def split: option.splits if_splits)

lemma current_seq_length_total: "\<exists>n. current_seq_length h rs = Inr n"
  using py_max_by_total [of rs "\<lambda>r. input_length (h r) + generated_tokens (h r)"]
  by (cases "rs = []") (auto simp: current_seq_length_def)

lemma completion_event_id: "se_id e = se_id e' \<Longrightarrow> completion_event e = completion_event e'"
  by (intro ext) (simp add: completion_event_def)

text \<open>The tail of \<open>_process_decode_batch\<close> after the decode loop.\<close>

lemma decode_tail:
  assumes inv: "engine_inv h e" and b: "se_batch e = Some b"
    and d: "get_decode_time e n (int (length (b_requests b))) = Inr d" "current_seq_length h (b_requests b) = Inr n"
    and loop: "for_res decode_one (b_requests b) (h, se_planner e, []) = Inr (h', p, fin)"
    and p: "planner_inv p" "kv_keys p = kv_keys (se_planner e)"
    and fin: "h' = decode_heap (b_requests b) h" "fin = finishing h (b_requests b)"
  shows "\<exists>evs e'. process_decode_batch h e = Inr (evs, h', e') \<and> after_decode h e evs h' (drop_empty_batch e') \<and>
    (\<exists>p'. mp_free (map (\<lambda>r. req_id (h' r)) fin) p = Inr p' \<and> (fin \<noteq> [] \<longrightarrow> se_planner e' = p')) \<and>
    (fin = [] \<longrightarrow> se_planner e' = p)"
proof -
  let ?rs = "b_requests b" and ?dur = "visible_duration d"
  let ?start = "max (se_time_cursor e) (se_current_time e)"
  let ?t = "?start + ?dur" and ?ids = "map (\<lambda>r. req_id (h' r)) fin"
  have br: "batch_refs e = ?rs" by (simp add: batch_refs_def b)
  have dist: "distinct ?rs" "distinct (se_active e)" "set ?rs \<subseteq> set (se_active e)" "?rs \<noteq> []"
    using inv b by (auto simp: engine_inv_def live_refs_def br)
  define e1 where "e1 = refresh_memory_usage (e\<lparr>se_time_cursor := ?t, se_planner := p,
      se_stats := (se_stats e)\<lparr>st_total_decode_time := st_total_decode_time (se_stats e) + ?dur,
        st_total_tokens_generated := st_total_tokens_generated (se_stats e) + length ?rs\<rparr>\<rparr>)"
  have "distinct fin" "set fin \<subseteq> set (se_active e1)" "distinct (se_active e1)" "se_batch e1 = Some b"
    using dist b by (auto simp: e1_def fin(2) finishing_def)
  from complete_loop [OF this dist(1)] obtain st b' where
    e2: "for_res complete_one fin e1 = Inr (e1\<lparr>se_active := filter (\<lambda>x. x \<notin> set fin) (se_active e1),
      se_completed := se_completed e1 @ fin, se_batch := Some b', se_stats := st\<rparr>)"
    and b': "b_requests b' = filter (\<lambda>x. x \<notin> set fin) ?rs" by blast
  let ?e2 = "e1\<lparr>se_active := filter (\<lambda>x. x \<notin> set fin) (se_active e1),
      se_completed := se_completed e1 @ fin, se_batch := Some b', se_stats := st\<rparr>"
  obtain p' where p': "mp_free ?ids p = Inr p'" "planner_inv p'" "kv_keys p' = kv_keys p - set ?ids"
    using mp_free_keys [OF p(1), of ?ids] by auto
  define e3 where "e3 = (if fin = [] then ?e2 else refresh_memory_usage (?e2\<lparr>se_planner := p'\<rparr>))"
  have step3: "(if fin = [] then Inr ?e2 else rbind (mp_free ?ids (se_planner ?e2)) (\<lambda>p'.
      Inr (refresh_memory_usage (?e2\<lparr>se_planner := p'\<rparr>)))) = Inr e3"
    using p'(1) by (simp add: e3_def e1_def)
  let ?handled = "filter (\<lambda>r. req_status (h r) \<noteq> EXIT) ?rs"
  define e4 where "e4 = (if ?handled = [] then e3
                    else let (snapshot, e') = get_memory_snapshot e3
                         in e'\<lparr>se_trace := se_trace e' @
                              create_detailed_events Decode (map h' ?handled) ?start ?t snapshot e'\<rparr>)"
  let ?evs = "map (\<lambda>r. completion_event e ?t (h' r)) fin"
  have run: "process_decode_batch h e = Inr (?evs, h', e4)"
    using b d loop e2 step3
    by (simp add: process_decode_batch_def Let_def e1_def [symmetric] e4_def)
  have snap: "\<exists>sn tr. e4 = (snd (get_memory_snapshot e3))\<lparr>se_trace := tr\<rparr> \<or> e4 = e3"
    by (auto simp: e4_def Let_def split: prod.splits)
  have e3': "se_planner e3 = (if fin = [] then p else p')" "se_spec e3 = se_spec e" "se_id e3 = se_id e"
    "se_max_batch_size e3 = se_max_batch_size e" "se_prefill_queue e3 = se_prefill_queue e"
    "se_decode_ready e3 = se_decode_ready e" "se_current_prefill e3 = se_current_prefill e"
    "se_active e3 = filter (\<lambda>x. x \<notin> set fin) (se_active e)" "se_batch e3 = Some b'"
    "se_completed e3 = se_completed e @ fin" "se_time_cursor e3 = ?t"
    by (auto simp: e3_def e1_def)
  have e4': "se_planner e4 = se_planner e3" "se_spec e4 = se_spec e3" "se_id e4 = se_id e3"
    "se_max_batch_size e4 = se_max_batch_size e3" "se_prefill_queue e4 = se_prefill_queue e3"
    "se_decode_ready e4 = se_decode_ready e3" "se_current_prefill e4 = se_current_prefill e3"
    "se_active e4 = se_active e3" "se_batch e4 = se_batch e3"
    "se_completed e4 = se_completed e3" "se_time_cursor e4 = se_time_cursor e3"
    using snap by auto
  have br4: "batch_refs e4 = filter (\<lambda>x. x \<notin> set fin) ?rs" by (simp add: batch_refs_def e4' e3' b')
  have ids: "set ?ids = (\<lambda>r. req_id (h r)) ` set fin" by (auto simp: fin(1))
  have "after_decode h e ?evs h' (drop_empty_batch e4)"
    unfolding after_decode_def Let_def br
    using dist(4) p p' b' ids drop_empty_batch_nonempty [of e4] fin br4
    by (auto simp: e4' e3')
  then show ?thesis using run p'(1) e3'(1) e4'(1) by auto
qed


lemma finishing_iff:
  "r \<in> set (finishing h rs) \<longleftrightarrow> r \<in> set rs \<and> generated_tokens (h r) + 1 = output_length (h r)"
  by (simp add: finishing_def req_decode_complete)

lemma req_live_decode:
  "req_live q \<Longrightarrow> generated_tokens q + 1 \<noteq> output_length q \<Longrightarrow> req_live (snd (req_decode q))"
  by (auto simp: req_live_def frame_simps req_decode_status req_decode_complete)

lemma after_decode_inv:
  assumes inv: "engine_inv h e" and a: "after_decode h e evs h' e'"
  shows "engine_inv h' e'" and "mset (live_refs e' @ se_completed e') = mset (live_refs e @ se_completed e)"
    and "set (live_refs e') = set (live_refs e) - set (finishing h (batch_refs e))"
proof -
  let ?rs = "batch_refs e" and ?fin = "finishing h (batch_refs e)"
  have eqs: "h' = decode_heap ?rs h" "se_spec e' = se_spec e" "se_max_batch_size e' = se_max_batch_size e"
      "se_prefill_queue e' = se_prefill_queue e" "se_decode_ready e' = se_decode_ready e"
      "se_current_prefill e' = se_current_prefill e" "batch_refs e' = filter (\<lambda>x. x \<notin> set ?fin) ?rs"
      "se_completed e' = se_completed e @ ?fin" "se_active e' = filter (\<lambda>x. x \<notin> set ?fin) (se_active e)"
      "kv_keys (se_planner e') = kv_keys (se_planner e) - (\<lambda>r. req_id (h r)) ` set ?fin"
    and pb: "planner_inv (se_planner e')" "\<forall>b. se_batch e' = Some b \<longrightarrow> b_requests b \<noteq> []"
    using a by (simp_all add: after_decode_def Let_def)
  have d: "distinct (live_refs e @ se_completed e)" using inv by (simp add: engine_inv_def)
  then have drs: "distinct ?rs" by (simp add: live_refs_def)
  have fs: "set ?fin \<subseteq> set ?rs" "distinct ?fin" using drs by (auto simp: finishing_def)
  have disj: "set ?fin \<inter> (set (se_prefill_queue e) \<union> set (se_decode_ready e)) = {}"
    using d fs(1) by (auto simp: live_refs_def)
  show m: "mset (live_refs e' @ se_completed e') = mset (live_refs e @ se_completed e)"
    using filter_out_mset [OF drs fs(2,1)] by (simp add: live_refs_def eqs)
  show ls: "set (live_refs e') = set (live_refs e) - set ?fin"
    using disj by (auto simp: live_refs_def eqs)
  have ids: "(\<lambda>r. req_id (h' r)) = (\<lambda>r. req_id (h r))" by (simp add: eqs)
  have inj: "inj_on (\<lambda>r. req_id (h r)) (set (live_refs e))" using inv by (simp add: engine_inv_def)
  have "kv_keys (se_planner e') = (\<lambda>r. req_id (h' r)) ` set (live_refs e')"
    unfolding ids ls eqs using inv fs(1) inj_on_image_set_diff [OF inj, of "set (live_refs e)" "set ?fin"]
    by (auto simp: engine_inv_def live_refs_def)
  moreover have "inj_on (\<lambda>r. req_id (h' r)) (set (live_refs e'))"
    unfolding ids ls using inj by (rule inj_on_subset) simp
  moreover have "distinct (live_refs e' @ se_completed e')" using d m mset_eq_imp_distinct_iff by blast
  moreover have "set (se_active e') = set (se_decode_ready e') \<union> set (batch_refs e')" "distinct (se_active e')"
    using inv disj by (auto simp: eqs engine_inv_def)
  moreover have "req_live (h' r)" if "r \<in> set (live_refs e')" for r
  proof -
    have r: "req_live (h r)" "r \<notin> set ?fin" using that inv ls by (auto simp: engine_inv_def)
    then show ?thesis
      by (cases "r \<in> set ?rs") (auto simp: eqs(1) decode_heap_def finishing_iff req_live_decode)
  qed
  moreover have "int (length (batch_refs e')) \<le> se_max_batch_size e'"
  proof -
    have "int (length ?rs) \<le> se_max_batch_size e" using inv by (simp add: engine_inv_def)
    then show ?thesis using length_filter_le [of "\<lambda>x. x \<notin> set ?fin" ?rs] unfolding eqs by linarith
  qed
  moreover have "0 < hw_FP16 (se_spec e')" "1 \<le> se_max_batch_size e'" "se_current_prefill e' = None"
    using inv by (simp_all add: eqs engine_inv_def)
  ultimately show "engine_inv h' e'" using pb unfolding engine_inv_def by blast
qed

section \<open>A cache that is large enough\<close>

text \<open>The blocks a request holds and the most it will ever hold.\<close>

definition kv_blocks :: "memory_planner \<Rightarrow> string \<Rightarrow> int" where
  "kv_blocks p k = dict_get_default (mp_allocation_map p) k 0"

definition kv_demand :: "int \<Rightarrow> gen_request \<Rightarrow> int" where
  "kv_demand bs q = max \<lceil>of_int (input_length q) / (of_int bs :: real)\<rceil> \<lceil>of_int (output_length q) / (of_int bs :: real)\<rceil>"

definition kv_budget :: "req_heap \<Rightarrow> req_ref set \<Rightarrow> memory_planner \<Rightarrow> bool" where
  "kv_budget h L p \<longleftrightarrow>
     (\<forall>r \<in> L. kv_blocks p (req_id (h r)) \<le> kv_demand (mp_block_size p) (h r)) \<and>
     (\<Sum>r \<in> L. kv_demand (mp_block_size p) (h r)) \<le> mp_max_num_blocks p"

lemma sum_list_dict_keys:
  fixes d :: "int pydict"
  assumes "distinct (map fst d)"
  shows "sum_list (map snd d) = (\<Sum>k \<in> fst ` set d. dict_get_default d k 0)"
  using assms
proof (induction d)
  case (Cons x d)
  obtain k v where x: "x = (k, v)" by force
  have k: "k \<notin> fst ` set d" using Cons.prems x by auto
  have "(\<Sum>j \<in> fst ` set d. dict_get_default (x # d) j 0) = (\<Sum>j \<in> fst ` set d. dict_get_default d j 0)"
    by (rule sum.cong) (use k x in \<open>auto simp: dict_get_default_def\<close>)
  then show ?case using Cons k x by (simp add: dict_get_default_def)
qed simp

lemma allocated_sum:
  assumes "planner_inv p" "kv_keys p = (\<lambda>r. req_id (h r)) ` L" "inj_on (\<lambda>r. req_id (h r)) L"
  shows "mp_allocated_blocks p = (\<Sum>r \<in> L. kv_blocks p (req_id (h r)))"
proof -
  have "mp_allocated_blocks p = (\<Sum>k \<in> kv_keys p. kv_blocks p k)"
    using assms(1) sum_list_dict_keys [of "mp_allocation_map p"]
    by (simp add: planner_inv_def kv_keys_def kv_blocks_def)
  then show ?thesis using assms(2,3) by (simp add: sum.reindex)
qed

text \<open>Within the budget, growing the allocation of a live request by a decoded token succeeds.\<close>

lemma mp_allocate_within:
  assumes p: "planner_inv p" "kv_keys p = (\<lambda>r. req_id (h r)) ` L" "inj_on (\<lambda>r. req_id (h r)) L"
    and L: "finite L" "r \<in> L" and bud: "kv_budget h L p"
    and q: "req_id q = req_id (h r)" "generated_tokens q \<le> output_length (h r)"
  shows "\<exists>p'. mp_allocate q p = Inr p' \<and> kv_budget h L p' \<and> mp_block_size p' = mp_block_size p \<and>
    mp_max_num_blocks p' = mp_max_num_blocks p"
proof -
  let ?bs = "mp_block_size p" and ?k = "req_id (h r)" and ?d = "\<lambda>r. kv_demand (mp_block_size p) (h r)"
  have bs: "0 < ?bs" using p(1) by (simp add: planner_inv_def)
  have "?k \<in> kv_keys p" using p(2) L(2) by auto
  then obtain n where n: "map_of (mp_allocation_map p) ?k = Some n"
    by (metis has_allocation_keys has_allocation_def not_None_eq)
  then have kb: "kv_blocks p ?k = n" by (simp add: kv_blocks_def dict_get_default_def)
  show ?thesis
  proof (cases "generated_tokens q \<le> n * ?bs")
    case True
    then show ?thesis using n q(1) bud by (simp add: mp_allocate_def estimate_required_blocks_def)
  next
    case False
    then have "real_of_int n * real_of_int ?bs < real_of_int (output_length (h r))"
      using q(2) by (metis linorder_not_less of_int_less_iff of_int_mult order_less_le_trans)
    then have "real_of_int n < real_of_int (output_length (h r)) / real_of_int ?bs"
      using bs by (simp add: pos_less_divide_eq)
    then have grow: "n + 1 \<le> ?d r" unfolding kv_demand_def by (simp add: le_max_iff_disj) linarith
    have "mp_allocated_blocks p + 1 \<le> (\<Sum>x \<in> L. ?d x)"
    proof -
      have "(\<Sum>x \<in> L. kv_blocks p (req_id (h x))) = n + (\<Sum>x \<in> L - {r}. kv_blocks p (req_id (h x)))"
        using L kb by (simp add: sum.remove)
      moreover have "(\<Sum>x \<in> L - {r}. kv_blocks p (req_id (h x))) \<le> (\<Sum>x \<in> L - {r}. ?d x)"
        using bud by (intro sum_mono) (simp add: kv_budget_def)
      moreover have "(\<Sum>x \<in> L. ?d x) = ?d r + (\<Sum>x \<in> L - {r}. ?d x)" using L by (simp add: sum.remove)
      ultimately show ?thesis using allocated_sum [OF p] grow by linarith
    qed
    also have "\<dots> \<le> mp_max_num_blocks p" using bud by (simp add: kv_budget_def)
    finally have le: "mp_allocated_blocks p + 1 \<le> mp_max_num_blocks p" .
    let ?p = "p\<lparr>mp_allocated_blocks := mp_allocated_blocks p + 1,
      mp_allocation_map := dict_set ?k (n + 1) (mp_allocation_map p)\<rparr>"
    have "mp_allocate q p = Inr ?p"
      using n q(1) False le
      by (simp add: mp_allocate_def estimate_required_blocks_def allocate_blocks_def Let_def
          py_assert_def dict_get_default_def max_def)
    moreover have "kv_blocks ?p (req_id (h x)) \<le> ?d x" if "x \<in> L" for x
      using bud that grow p(3) L(2)
      by (cases "x = r") (auto simp: kv_blocks_def dict_get_default_def update_conv' kv_budget_def dest: inj_onD)
    ultimately show ?thesis using bud by (auto simp: kv_budget_def)
  qed
qed


lemma decode_loop_total:
  assumes "planner_inv p" "kv_keys p = (\<lambda>r. req_id (h r)) ` L" "inj_on (\<lambda>r. req_id (h r)) L"
    and "finite L" "set rs \<subseteq> L" "distinct rs" "kv_budget h L p"
    and "\<forall>r \<in> set rs. 1 \<le> input_length (h r) \<and> generated_tokens (h r) < output_length (h r)"
  shows "\<exists>h' p' c'. for_res decode_one rs (h, p, c) = Inr (h', p', c') \<and> kv_budget h' L p' \<and>
    mp_block_size p' = mp_block_size p \<and> mp_max_num_blocks p' = mp_max_num_blocks p"
  using assms
proof (induction rs arbitrary: h p c)
  case Nil
  then show ?case by simp
next
  case (Cons r rs)
  let ?q = "snd (req_decode (h r))"
  have r: "r \<in> L" "1 \<le> input_length (h r)" "generated_tokens (h r) < output_length (h r)"
    using Cons.prems(5,8) by auto
  obtain p1 where p1: "mp_allocate ?q p = Inr p1" "kv_budget h L p1" "mp_block_size p1 = mp_block_size p"
      "mp_max_num_blocks p1 = mp_max_num_blocks p"
    using mp_allocate_within [OF Cons.prems(1-4) r(1) Cons.prems(7), of ?q] r(3) by (auto simp: frame_simps)
  have same: "(\<lambda>x. req_id ((h(r := ?q)) x)) = (\<lambda>x. req_id (h x))" by (auto simp: frame_simps)
  have keys: "kv_keys p1 = kv_keys p"
    using mp_allocate_keys [OF p1(1) Cons.prems(1)] r Cons.prems(2) by (auto simp: frame_simps)
  have "kv_demand bs ((h(r := ?q)) x) = kv_demand bs (h x)" for bs x
    by (simp add: kv_demand_def frame_simps)
  then have "kv_budget (h(r := ?q)) L p1"
    using p1(2) by (simp add: kv_budget_def fun_cong [OF same] del: fun_upd_apply)
  moreover have "planner_inv p1" using mp_allocate_inv [OF Cons.prems(1) _ p1(1)] r by (simp add: frame_simps)
  moreover have "set rs \<subseteq> L" "distinct rs" using Cons.prems(5,6) by auto
  moreover have "\<forall>x \<in> set rs. 1 \<le> input_length ((h(r := ?q)) x) \<and> generated_tokens ((h(r := ?q)) x) < output_length ((h(r := ?q)) x)"
    using Cons.prems(6,8) by auto
  ultimately have "\<exists>h' p' c'. for_res decode_one rs (h(r := ?q), p1, if fst (req_decode (h r)) then c @ [r] else c) =
      Inr (h', p', c') \<and> kv_budget h' L p' \<and> mp_block_size p' = mp_block_size p1 \<and>
      mp_max_num_blocks p' = mp_max_num_blocks p1"
    using Cons.prems(2,3,4) keys by (intro Cons.IH) (simp_all only: same)
  then show ?case using p1 by (simp add: decode_one_eq)
qed

lemma kv_budget_free:
  assumes "kv_budget h L p" "inj_on (\<lambda>r. req_id (h r)) L" "finite L" "F \<subseteq> L"
    and "planner_inv p" "mp_free ids p = Inr p'" "set ids = (\<lambda>r. req_id (h r)) ` F" "\<And>r. 0 \<le> kv_demand (mp_block_size p) (h r) \<or> r \<notin> L"
  shows "kv_budget h (L - F) p'"
proof -
  obtain q where q: "mp_free ids p = Inr q" "mp_max_num_blocks q = mp_max_num_blocks p" "mp_block_size q = mp_block_size p"
    "\<forall>k. k \<notin> set ids \<longrightarrow> map_of (mp_allocation_map q) k = map_of (mp_allocation_map p) k"
    using mp_free_keys [OF assms(5), of ids] by blast
  with assms(6) have q': "q = p'" by simp
  have "kv_blocks p' (req_id (h r)) = kv_blocks p (req_id (h r))" if "r \<in> L - F" for r
  proof -
    have "req_id (h r) \<notin> set ids" using that assms(2,4,7) by (auto dest: inj_onD)
    then show ?thesis using q(4) unfolding q' by (simp add: kv_blocks_def dict_get_default_def)
  qed
  moreover have "(\<Sum>r \<in> L - F. kv_demand (mp_block_size p) (h r)) \<le> (\<Sum>r \<in> L. kv_demand (mp_block_size p) (h r))"
    by (rule sum_mono2) (use assms(3,8) in auto)
  ultimately show ?thesis using assms(1) q unfolding q' by (auto simp: kv_budget_def)
qed


section \<open>A whole step\<close>

lemma decode_phase_sound:
  assumes inv: "engine_inv h e" and run: "decode_phase h e = Inr (evs, h', e')"
  shows "after_decode h e evs h' e'"
proof (cases "se_batch e")
  case None
  with run inv show ?thesis
    by (auto simp: decode_phase_def after_decode_def batch_refs_def drop_empty_batch_def finishing_def
        decode_heap_def engine_inv_def)
next
  case (Some b)
  then have br: "batch_refs e = b_requests b" and ne: "b_requests b \<noteq> []"
    using inv by (auto simp: batch_refs_def engine_inv_def)
  with run Some obtain e1 where p: "process_decode_batch h e = Inr (evs, h', e1)" and e': "e' = drop_empty_batch e1"
    by (auto simp: decode_phase_def batch_is_empty_def res_simps)
  obtain n where n: "current_seq_length h (b_requests b) = Inr n" using current_seq_length_total by blast
  obtain d where d: "get_decode_time e n (int (length (b_requests b))) = Inr d"
    using get_decode_time_total [OF engine_inv_FP16 [OF inv]] by blast
  from p Some n d obtain h2 p2 fin where loop: "for_res decode_one (b_requests b) (h, se_planner e, []) = Inr (h2, p2, fin)"
    by (auto simp: process_decode_batch_def Let_def res_simps)
  have "distinct (b_requests b)" "planner_inv (se_planner e)"
    "\<forall>r \<in> set (b_requests b). 1 \<le> input_length (h r) \<and> req_id (h r) \<in> kv_keys (se_planner e)"
    using inv by (auto simp: engine_inv_def live_refs_def br req_live_def)
  from decode_loop [OF loop this] have l: "h2 = decode_heap (b_requests b) h" "fin = finishing h (b_requests b)"
    "planner_inv p2" "kv_keys p2 = kv_keys (se_planner e)" by auto
  from decode_tail [OF inv Some d n loop l(3,4,1,2)] p e' show ?thesis by auto
qed

lemma decode_phase_total:
  assumes inv: "engine_inv h e" and bud: "kv_budget h (set (live_refs e)) (se_planner e)"
  shows "\<exists>evs h' e'. decode_phase h e = Inr (evs, h', e') \<and> kv_budget h' (set (live_refs e')) (se_planner e')"
proof (cases "se_batch e")
  case None
  then show ?thesis using bud
    by (simp add: decode_phase_def drop_empty_batch_def)
next
  case (Some b)
  then have br: "batch_refs e = b_requests b" and ne: "b_requests b \<noteq> []"
    using inv by (auto simp: batch_refs_def engine_inv_def)
  obtain n where n: "current_seq_length h (b_requests b) = Inr n" using current_seq_length_total by blast
  obtain d where d: "get_decode_time e n (int (length (b_requests b))) = Inr d"
    using get_decode_time_total [OF engine_inv_FP16 [OF inv]] by blast
  let ?L = "set (live_refs e)" and ?ids = "\<lambda>fin. map (\<lambda>r. req_id (decode_heap (b_requests b) h r)) fin"
  have k: "planner_inv (se_planner e)" "kv_keys (se_planner e) = (\<lambda>r. req_id (h r)) ` ?L"
    "inj_on (\<lambda>r. req_id (h r)) ?L" "finite ?L" "set (b_requests b) \<subseteq> ?L" "distinct (b_requests b)"
    "\<forall>r \<in> ?L. 1 \<le> input_length (h r) \<and> generated_tokens (h r) < output_length (h r)"
    using inv by (auto simp: engine_inv_def live_refs_def br req_live_def)
  obtain h2 p2 fin where loop: "for_res decode_one (b_requests b) (h, se_planner e, []) = Inr (h2, p2, fin)"
    and b2: "kv_budget h2 ?L p2"
    using decode_loop_total [OF k(1-6) bud, of "[]"] k(5,7) by blast
  have "\<forall>r \<in> set (b_requests b). 1 \<le> input_length (h r) \<and> req_id (h r) \<in> kv_keys (se_planner e)"
    using k(2,5,7) by auto
  from decode_loop [OF loop k(6,1) this] have l: "h2 = decode_heap (b_requests b) h" "fin = finishing h (b_requests b)"
    "planner_inv p2" "kv_keys p2 = kv_keys (se_planner e)" by auto
  obtain evs e' p' where run: "process_decode_batch h e = Inr (evs, h2, e')" and a: "after_decode h e evs h2 (drop_empty_batch e')"
    and p': "mp_free (?ids fin) p2 = Inr p'" "fin \<noteq> [] \<longrightarrow> se_planner e' = p'" "fin = [] \<longrightarrow> se_planner e' = p2"
    using decode_tail [OF inv Some d n loop l(3,4,1,2)] unfolding l(1) by auto
  have ls: "set (live_refs (drop_empty_batch e')) = ?L - set fin"
    using after_decode_inv(3) [OF inv a] by (simp add: br l(2))
  have dem: "0 \<le> kv_demand (mp_block_size p2) (h2 r) \<or> r \<notin> ?L" for r
  proof (cases "r \<in> ?L")
    case True
    have "0 < mp_block_size p2" using l(3) by (simp add: planner_inv_def)
    moreover have "1 \<le> input_length (h2 r)" using k(7) True by (simp add: l(1))
    ultimately have "0 \<le> real_of_int (input_length (h2 r)) / real_of_int (mp_block_size p2)" by simp
    then have "0 \<le> \<lceil>of_int (input_length (h2 r)) / (of_int (mp_block_size p2) :: real)\<rceil>" by linarith
    then show ?thesis by (simp add: kv_demand_def le_max_iff_disj)
  qed simp
  have "kv_budget h2 (?L - set fin) (se_planner e')"
  proof (cases "fin = []")
    case True
    then show ?thesis using p' b2 by simp
  next
    case False
    have "kv_budget h2 (?L - set fin) p'"
      by (rule kv_budget_free [OF b2 _ k(4) _ l(3) p'(1) _ dem])
        (use k(3,5) in \<open>auto simp: l finishing_def\<close>)
    then show ?thesis using False p'(2) by simp
  qed
  then show ?thesis using run ne ls Some
    by (simp add: decode_phase_def batch_is_empty_def)
qed

definition at_time :: "pyfloat option \<Rightarrow> serving_engine \<Rightarrow> serving_engine" where
  "at_time t e = (case t of None \<Rightarrow> e | Some x \<Rightarrow> set_current_time x e)"

lemma at_time_frame [simp]:
  "engine_inv h (at_time t e) = engine_inv h e" "live_refs (at_time t e) = live_refs e"
  "batch_refs (at_time t e) = batch_refs e" "se_decode_ready (at_time t e) = se_decode_ready e"
  "se_completed (at_time t e) = se_completed e" "se_planner (at_time t e) = se_planner e"
  "se_prefill_queue (at_time t e) = se_prefill_queue e" "se_id (at_time t e) = se_id e"
  by (simp_all add: at_time_def engine_inv_def live_refs_def batch_refs_def split: option.split)

lemma time_cursor_mono: "se_time_cursor e \<le> se_time_cursor (at_time t e)"
  by (simp add: at_time_def set_current_time_def split: option.split)

text \<open>A step is its decode phase, started from an engine in the invariant whose batch is not empty
  if there is any work.\<close>

definition before_decode :: "req_heap \<Rightarrow> serving_engine \<Rightarrow> req_heap \<Rightarrow> serving_engine \<Rightarrow> bool" where
  "before_decode h e h1 e2 \<longleftrightarrow> engine_inv h1 e2 \<and> mset (live_refs e2) = mset (live_refs e) \<and>
     se_planner e2 = se_planner e \<and> se_completed e2 = se_completed e \<and> se_id e2 = se_id e \<and>
     length (se_prefill_queue e2) \<le> length (se_prefill_queue e) \<and>
     se_time_cursor e \<le> se_time_cursor e2 \<and> (live_refs e \<noteq> [] \<longrightarrow> batch_refs e2 \<noteq> []) \<and>
     (\<forall>r. req_id (h1 r) = req_id (h r) \<and> input_length (h1 r) = input_length (h r) \<and>
        output_length (h1 r) = output_length (h r) \<and> generated_tokens (h1 r) = generated_tokens (h r))"

lemma after_prefill_ready:
  assumes "engine_inv h e" "after_prefill t h e h1 e1" "live_refs e \<noteq> []"
  shows "se_decode_ready e1 @ batch_refs e1 \<noteq> []"
proof (cases "se_prefill_queue e")
  case Nil
  then have "se_decode_ready e1 @ batch_refs e1 = live_refs e"
    using assms(2) by (simp add: live_refs_def after_prefill_def batch_refs_def)
  then show ?thesis using assms(3) by simp
next
  case (Cons r rest)
  then show ?thesis using assms(2) by (auto simp: after_prefill_def set_add_def)
qed

lemma engine_step_decode:
  assumes "engine_inv h e" "iter_ok iter"
  shows "\<exists>h1 e2. before_decode h e h1 e2 \<and> engine_step iter t h e = decode_phase h1 e2"
proof -
  let ?e = "at_time t e"
  have inv: "engine_inv h ?e" using assms(1) by simp
  obtain h1 e1 where p: "prefill_phase h ?e = Inr (h1, e1)" "after_prefill (se_time_cursor ?e) h ?e h1 e1"
    using prefill_phase_spec [OF inv] by blast
  note i1 = after_prefill_inv [OF inv p(2)]
  obtain e2 where b: "batch_phase iter e1 = Inr e2" "after_batching e1 e2"
    using batch_phase_spec [OF i1(1) assms(2)] by blast
  note i2 = after_batching_inv [OF i1(1) b(2)]
  have eqs: "se_planner e2 = se_planner e" "se_completed e2 = se_completed e" "se_id e2 = se_id e"
      "length (se_prefill_queue e2) \<le> length (se_prefill_queue e)" "se_time_cursor ?e \<le> se_time_cursor e2"
    using p(2) b(2) by (auto simp: after_batching_def after_prefill_def split: list.splits)
  have "batch_refs e2 \<noteq> []" if "live_refs e \<noteq> []"
  proof -
    have "se_decode_ready e1 @ batch_refs e1 \<noteq> []" using after_prefill_ready [OF inv p(2)] that by simp
    then have "se_batch e2 \<noteq> None" using b(2) unfolding after_batching_def by blast
    then show ?thesis using i2(1) by (auto simp: engine_inv_def batch_refs_def)
  qed
  then have "before_decode h e h1 e2"
    using i1 i2 eqs time_cursor_mono [of e t] by (auto simp: before_decode_def)
  moreover have "engine_step iter t h e = decode_phase h1 e2"
    using p(1) b(1) by (simp add: engine_step_def at_time_def)
  ultimately show ?thesis by blast
qed

section \<open>Work left\<close>

text \<open>Tokens still to be generated, plus one for every prefill still to be done.\<close>

definition tokens_left :: "gen_request \<Rightarrow> nat" where
  "tokens_left q = nat (output_length q - generated_tokens q)"

definition engine_work :: "req_heap \<Rightarrow> serving_engine \<Rightarrow> nat" where
  "engine_work h e = (\<Sum>r \<in> set (live_refs e). tokens_left (h r)) + length (se_prefill_queue e)"

lemma tokens_left_decode: "req_live q \<Longrightarrow> tokens_left (snd (req_decode q)) < tokens_left q"
  by (auto simp: tokens_left_def frame_simps req_live_def)

lemma before_decode_facts:
  assumes "before_decode h e h1 e2" "after_decode h1 e2 evs h' e'"
  shows "set (live_refs e2) = set (live_refs e)" and "set (live_refs e') \<subseteq> set (live_refs e)"
    and "\<And>r. r \<in> set (live_refs e) \<Longrightarrow> tokens_left (h' r) \<le> tokens_left (h r)"
    and "\<And>r. r \<in> set (batch_refs e2) \<Longrightarrow> tokens_left (h' r) < tokens_left (h r)"
proof -
  have b: "engine_inv h1 e2" "mset (live_refs e2) = mset (live_refs e)" "\<And>r. tokens_left (h1 r) = tokens_left (h r)"
    using assms(1) by (simp_all add: before_decode_def tokens_left_def)
  show ls: "set (live_refs e2) = set (live_refs e)" using b(2) by (metis set_mset_mset)
  show "set (live_refs e') \<subseteq> set (live_refs e)" using after_decode_inv(3) [OF b(1) assms(2)] ls by auto
  have h': "h' = decode_heap (batch_refs e2) h1" using assms(2) by (simp add: after_decode_def Let_def)
  have lt: "tokens_left (snd (req_decode (h1 r))) < tokens_left (h r)" if "r \<in> set (live_refs e)" for r
    using tokens_left_decode [of "h1 r"] b(1,3) that ls by (simp add: engine_inv_def)
  show "tokens_left (h' r) \<le> tokens_left (h r)" if "r \<in> set (live_refs e)" for r
    using lt [OF that] b(3) by (simp add: h' decode_heap_def)
  show "tokens_left (h' r) < tokens_left (h r)" if "r \<in> set (batch_refs e2)" for r
  proof -
    have "r \<in> set (live_refs e)" using that ls by (auto simp: live_refs_def)
    then show ?thesis using lt that by (simp add: h' decode_heap_def)
  qed
qed

lemma step_work_decreases:
  assumes inv: "engine_inv h e" and it: "iter_ok iter" and ne: "live_refs e \<noteq> []"
    and run: "engine_step iter t h e = Inr (evs, h', e')"
  shows "engine_work h' e' < engine_work h e"
proof -
  obtain h1 e2 where s: "before_decode h e h1 e2" "engine_step iter t h e = decode_phase h1 e2"
    using engine_step_decode [OF inv it] by blast
  then have i2: "engine_inv h1 e2" by (simp add: before_decode_def)
  have d: "after_decode h1 e2 evs h' e'" using decode_phase_sound [OF i2] run s(2) by simp
  note f = before_decode_facts [OF s(1) d]
  have q: "length (se_prefill_queue e') \<le> length (se_prefill_queue e)"
    using d s(1) by (simp add: after_decode_def before_decode_def Let_def)
  obtain r where r: "r \<in> set (batch_refs e2)"
    using s(1) ne unfolding before_decode_def by (metis list.set_sel(1))
  then have "r \<in> set (live_refs e)" using f(1) by (auto simp: live_refs_def)
  then have "(\<Sum>r \<in> set (live_refs e). tokens_left (h' r)) < (\<Sum>r \<in> set (live_refs e). tokens_left (h r))"
    using f(3) f(4) [OF r] by (intro sum_strict_mono_ex1) auto
  moreover have "(\<Sum>r \<in> set (live_refs e'). tokens_left (h' r)) \<le> (\<Sum>r \<in> set (live_refs e). tokens_left (h' r))"
    using f(2) by (intro sum_mono2) auto
  ultimately show ?thesis using q by (simp add: engine_work_def)
qed

lemma step_keeps:
  assumes inv: "engine_inv h e" and it: "iter_ok iter" and run: "engine_step iter t h e = Inr (evs, h', e')"
  shows "engine_inv h' e'" and "mset (live_refs e' @ se_completed e') = mset (live_refs e @ se_completed e)"
    and "se_time_cursor e \<le> se_time_cursor e'"
    and "\<exists>fin. se_completed e' = se_completed e @ fin \<and>
      evs = map (\<lambda>r. completion_event e (se_time_cursor e') (h' r)) fin \<and>
      (\<forall>r \<in> set fin. generated_tokens (h' r) = output_length (h' r) \<and> req_status (h' r) = EXIT)"
proof -
  obtain h1 e2 where s: "before_decode h e h1 e2" "engine_step iter t h e = decode_phase h1 e2"
    using engine_step_decode [OF inv it] by blast
  then have i2: "engine_inv h1 e2" and c2: "se_completed e2 = se_completed e" "se_id e2 = se_id e"
    and m: "mset (live_refs e2) = mset (live_refs e)" and t2: "se_time_cursor e \<le> se_time_cursor e2"
    by (simp_all add: before_decode_def)
  have d: "after_decode h1 e2 evs h' e'" using decode_phase_sound [OF i2] run s(2) by simp
  note i = after_decode_inv [OF i2 d]
  show "engine_inv h' e'" by (rule i(1))
  show "mset (live_refs e' @ se_completed e') = mset (live_refs e @ se_completed e)"
    using i(2) m c2(1) by simp
  have "se_time_cursor e2 \<le> se_time_cursor e'" using d by (auto simp: after_decode_def Let_def split: if_splits)
  then show "se_time_cursor e \<le> se_time_cursor e'" using t2 by linarith
  let ?fin = "finishing h1 (batch_refs e2)"
  have "\<forall>r \<in> set ?fin. generated_tokens (h' r) = output_length (h' r) \<and> req_status (h' r) = EXIT"
    using d by (auto simp: after_decode_def Let_def decode_heap_def finishing_iff frame_simps req_decode_status
        req_decode_complete)
  moreover have "se_completed e' = se_completed e @ ?fin"
    "evs = map (\<lambda>r. completion_event e (se_time_cursor e') (h' r)) ?fin"
    using d c2 completion_event_id [of e2 e] by (simp_all add: after_decode_def Let_def)
  ultimately show "\<exists>fin. se_completed e' = se_completed e @ fin \<and>
      evs = map (\<lambda>r. completion_event e (se_time_cursor e') (h' r)) fin \<and>
      (\<forall>r \<in> set fin. generated_tokens (h' r) = output_length (h' r) \<and> req_status (h' r) = EXIT)"
    by blast
qed

lemma step_total:
  assumes inv: "engine_inv h e" and it: "iter_ok iter" and bud: "kv_budget h (set (live_refs e)) (se_planner e)"
  shows "\<exists>evs h' e'. engine_step iter t h e = Inr (evs, h', e') \<and> kv_budget h' (set (live_refs e')) (se_planner e')"
proof -
  obtain h1 e2 where s: "before_decode h e h1 e2" "engine_step iter t h e = decode_phase h1 e2"
    using engine_step_decode [OF inv it] by blast
  then have i2: "engine_inv h1 e2" and p: "se_planner e2 = se_planner e"
    and ls: "set (live_refs e2) = set (live_refs e)"
    and d: "\<And>r. req_id (h1 r) = req_id (h r)" "\<And>r n. kv_demand n (h1 r) = kv_demand n (h r)"
    unfolding before_decode_def kv_demand_def by (blast, blast, metis set_mset_mset, simp, simp)
  have "kv_budget h1 (set (live_refs e2)) (se_planner e2)" using bud by (simp add: ls p d kv_budget_def)
  then show ?thesis using decode_phase_total [OF i2] s(2) by simp
qed


lemma prefill_phase_other:
  assumes "after_prefill t h e h1 e1" "r \<notin> set (se_prefill_queue e)"
  shows "h1 r = h r"
  using assms by (cases "se_prefill_queue e") (auto simp: after_prefill_def)

lemma step_other:
  assumes inv: "engine_inv h e" and it: "iter_ok iter" and run: "engine_step iter t h e = Inr (evs, h', e')"
    and r: "r \<notin> set (live_refs e)"
  shows "h' r = h r"
proof -
  let ?e = "at_time t e"
  have inv': "engine_inv h ?e" using inv by simp
  obtain h1 e1 where p: "prefill_phase h ?e = Inr (h1, e1)" "after_prefill (se_time_cursor ?e) h ?e h1 e1"
    using prefill_phase_spec [OF inv'] by blast
  note i1 = after_prefill_inv [OF inv' p(2)]
  obtain e2 where b: "batch_phase iter e1 = Inr e2" "after_batching e1 e2"
    using batch_phase_spec [OF i1(1) it] by blast
  note i2 = after_batching_inv [OF i1(1) b(2)]
  have "decode_phase h1 e2 = Inr (evs, h', e')" using run p(1) b(1) by (simp add: engine_step_def at_time_def)
  from decode_phase_sound [OF i2(1) this] have "h' = decode_heap (batch_refs e2) h1"
    by (simp add: after_decode_def Let_def)
  moreover have "mset (live_refs e2) = mset (live_refs e)" using i1(2) i2(2) by simp
  then have "r \<notin> set (live_refs e2)" using r by (metis set_mset_mset)
  then have "r \<notin> set (batch_refs e2)" by (simp add: live_refs_def)
  moreover have "h1 r = h r" using prefill_phase_other [OF p(2)] r by (simp add: live_refs_def)
  ultimately show ?thesis by (simp add: decode_heap_def)
qed

section \<open>Runs\<close>

text \<open>A sequence of steps, at the times the cluster manager passes.\<close>

definition engine_run ::
  "(req_ref list \<Rightarrow> req_ref list) \<Rightarrow> pyfloat option list \<Rightarrow> req_heap \<times> serving_engine \<Rightarrow> (req_heap \<times> serving_engine) res" where
  "engine_run iter = for_res (\<lambda>t (h, e). rbind (engine_step iter t h e) (\<lambda>(evs, h', e'). Inr (h', e')))"

definition all_done :: "req_heap \<Rightarrow> req_ref list \<Rightarrow> bool" where
  "all_done h rs \<longleftrightarrow> (\<forall>r \<in> set rs. generated_tokens (h r) = output_length (h r) \<and> req_status (h r) = EXIT)"

lemma step_all_done:
  assumes inv: "engine_inv h e" and it: "iter_ok iter" and run: "engine_step iter t h e = Inr (evs, h', e')"
    and dn: "all_done h (se_completed e)"
  shows "all_done h' (se_completed e')"
proof -
  obtain fin where f: "se_completed e' = se_completed e @ fin"
      "\<forall>r \<in> set fin. generated_tokens (h' r) = output_length (h' r) \<and> req_status (h' r) = EXIT"
    using step_keeps(4) [OF inv it run] by blast
  have "h' r = h r" if "r \<in> set (se_completed e)" for r
    using step_other [OF inv it run] that inv by (auto simp: engine_inv_def)
  then show ?thesis using dn f by (auto simp: all_done_def)
qed

lemma engine_run_drains:
  assumes "engine_inv h e" "iter_ok iter" "kv_budget h (set (live_refs e)) (se_planner e)"
    "engine_work h e \<le> length ts" "all_done h (se_completed e)"
  shows "\<exists>h' e'. engine_run iter ts (h, e) = Inr (h', e') \<and> engine_inv h' e' \<and> live_refs e' = [] \<and>
    mset (se_completed e') = mset (live_refs e @ se_completed e) \<and> all_done h' (se_completed e')"
  using assms
proof (induction ts arbitrary: h e)
  case Nil
  then have "engine_work h e = 0" by simp
  moreover have "tokens_left (h r) > 0" if "r \<in> set (live_refs e)" for r
    using Nil(1) that by (auto simp: engine_inv_def req_live_def tokens_left_def)
  ultimately have "live_refs e = []" by (fastforce simp: engine_work_def)
  then show ?case using Nil by (simp add: engine_run_def)
next
  case (Cons t ts)
  obtain evs h1 e1 where s: "engine_step iter t h e = Inr (evs, h1, e1)"
    and b: "kv_budget h1 (set (live_refs e1)) (se_planner e1)"
    using step_total [OF Cons.prems(1-3)] by blast
  note k = step_keeps [OF Cons.prems(1,2) s]
  have "engine_work h1 e1 \<le> length ts"
  proof (cases "live_refs e = []")
    case True
    then have "live_refs e1 = []"
      using k(2,4) by auto
    then show ?thesis by (simp add: engine_work_def live_refs_def)
  next
    case False
    then show ?thesis using step_work_decreases [OF Cons.prems(1,2) False s] Cons.prems(4) by simp
  qed
  then obtain h' e' where "engine_run iter ts (h1, e1) = Inr (h', e')" "engine_inv h' e'" "live_refs e' = []"
      "mset (se_completed e') = mset (live_refs e1 @ se_completed e1)" "all_done h' (se_completed e')"
    using Cons.IH [OF k(1) Cons.prems(2) b] step_all_done [OF Cons.prems(1,2) s Cons.prems(5)] by blast
  then show ?case using s k(2) by (simp add: engine_run_def)
qed

lemma drained_planner_empty:
  assumes "engine_inv h e" "live_refs e = []"
  shows "mp_allocated_blocks (se_planner e) = 0" and "mp_allocation_map (se_planner e) = []"
  using assms by (simp_all add: engine_inv_def planner_inv_def kv_keys_def)


section \<open>Examples\<close>

text \<open>An engine on an A100 with a cache of \<open>n\<close> blocks of 16 tokens, one request of \<open>inp\<close> prompt and
  \<open>outp\<close> output tokens waiting for its prefill.\<close>

definition sample_heap :: "int \<Rightarrow> int \<Rightarrow> req_heap" where
  "sample_heap inp outp = (\<lambda>_. new_request ''r0'' ''llama'' inp outp 0)"

definition idle_engine :: "int \<Rightarrow> serving_engine" where
  "idle_engine n = \<lparr>se_id = ''node_0'', se_model_id = ''llama'', se_model_params = llama2_7b,
     se_model_instance = Some llama, se_hardware = ''NVDA:A100'', se_parallel_config = PC_None,
     se_max_batch_size = 8, se_spec = mp_hardware (sample_planner n), se_planner = sample_planner n,
     se_request_queue = [], se_active = [], se_completed = [], se_prefill_queue = [], se_decode_ready = [],
     se_batch = None, se_batch_counter = 0, se_current_prefill = None, se_trace = [], se_current_time = 0,
     se_time_cursor = 0, se_analyzer = \<lparr>ma_model_id = ''llama'', ma_hardware = ''NVDA:A100'',
       ma_model_params = llama2_7b, ma_config = Some llama\<rparr>, se_model_loaded = True, se_model_memory = 10 ^ 10,
     se_kv_memory = 0, se_kv_capacity = 0,
     se_stats = \<lparr>st_requests_processed = 0, st_total_tokens_generated = 0, st_total_prefill_time = 0,
           st_total_decode_time = 0, st_memory_peak = 0, st_batch_sizes = []\<rparr>,
     se_callback = True, se_outbox = []\<rparr>"

definition sample_engine :: "int \<Rightarrow> int \<Rightarrow> serving_engine" where
  "sample_engine n blocks = (idle_engine n)\<lparr>se_prefill_queue := [0], se_planner := (sample_planner n)\<lparr>
     mp_allocated_blocks := blocks, mp_allocation_map := [(''r0'', blocks)]\<rparr>\<rparr>"

lemma idle_engine_inv: "0 \<le> n \<Longrightarrow> engine_inv h (idle_engine n)"
  using sample_planner_inv [of n]
  by (simp add: engine_inv_def idle_engine_def live_refs_def batch_refs_def kv_keys_def sample_planner_def)

lemma sample_engine_inv:
  assumes "0 < blocks" "blocks \<le> n" "1 \<le> inp" "1 \<le> outp"
  shows "engine_inv (sample_heap inp outp) (sample_engine n blocks)"
  using assms
  by (simp add: engine_inv_def sample_engine_def idle_engine_def live_refs_def batch_refs_def kv_keys_def
      sample_planner_def planner_inv_def req_live_def sample_heap_def new_request_def)

lemma sample_engine_budget: "kv_budget (sample_heap 10 2) (set (live_refs (sample_engine 10 1))) (se_planner (sample_engine 10 1))"
  by (simp add: kv_budget_def sample_engine_def idle_engine_def live_refs_def batch_refs_def sample_planner_def
      kv_blocks_def dict_get_default_def kv_demand_def sample_heap_def new_request_def)

lemma iter_ok_id: "iter_ok (\<lambda>xs. xs)"
  by (simp add: iter_ok_def)

section \<open>Properties\<close>

text \<open>C4: A step of the engine is safe. From a well-formed engine, whatever order Python's sets are
  enumerated in, a step that returns keeps the engine well-formed: every accepted request is in
  exactly one place (waiting, ready, batch, completed), the batch never exceeds its size limit, the
  cache holds blocks for exactly the unfinished requests. No request is lost or duplicated, the GPU
  clock does not go back, and the events returned are the completions of exactly the requests that
  have produced their last token in this step, at the end of the step.\<close>

theorem engine_step_safe:
  assumes "engine_inv h e" and "iter_ok iter" and "engine_step iter t h e = Inr (evs, h', e')"
  shows "engine_inv h' e' \<and>
    mset (live_refs e' @ se_completed e') = mset (live_refs e @ se_completed e) \<and>
    int (length (batch_refs e')) \<le> se_max_batch_size e' \<and>
    kv_keys (se_planner e') = (\<lambda>r. req_id (h' r)) ` set (live_refs e') \<and>
    se_time_cursor e \<le> se_time_cursor e' \<and>
    (\<exists>fin. se_completed e' = se_completed e @ fin \<and>
      evs = map (\<lambda>r. completion_event e (se_time_cursor e') (h' r)) fin \<and>
      (\<forall>r \<in> set fin. generated_tokens (h' r) = output_length (h' r) \<and> req_status (h' r) = EXIT))"
  using step_keeps [OF assms] unfolding engine_inv_def by blast

theorem engine_step_safe_witness:
  "\<exists>evs h' e'. engine_step (\<lambda>xs. xs) (Some 5) (sample_heap 10 2) (sample_engine 10 1) = Inr (evs, h', e') \<and>
    engine_inv h' e' \<and> mset (live_refs e' @ se_completed e') = {#0#}"
proof -
  have inv: "engine_inv (sample_heap 10 2) (sample_engine 10 1)" by (rule sample_engine_inv) simp_all
  obtain evs h' e' where run: "engine_step (\<lambda>xs. xs) (Some 5) (sample_heap 10 2) (sample_engine 10 1) = Inr (evs, h', e')"
    using step_total [OF inv iter_ok_id sample_engine_budget] by blast
  show ?thesis
    using engine_step_safe [OF inv iter_ok_id run] run
    by (auto simp: live_refs_def batch_refs_def sample_engine_def idle_engine_def)
qed

text \<open>C3: An engine whose cache is large enough serves every accepted request. If the cache can hold the
  largest demand of all unfinished requests at once, then any sequence of steps as long as the work
  left (tokens plus pending prefills) runs without an exception, whatever times are passed and
  whatever order the sets are enumerated in; at its end every accepted request is completed with
  exactly its requested number of tokens, and the cache is empty.\<close>

theorem engine_serves_all:
  assumes "engine_inv h e" and "iter_ok iter" and "kv_budget h (set (live_refs e)) (se_planner e)"
    and "all_done h (se_completed e)" and "engine_work h e \<le> length ts"
  shows "\<exists>h' e'. engine_run iter ts (h, e) = Inr (h', e') \<and> live_refs e' = [] \<and>
    mset (se_completed e') = mset (live_refs e @ se_completed e) \<and> all_done h' (se_completed e') \<and>
    mp_allocated_blocks (se_planner e') = 0"
proof -
  obtain h' e' where run: "engine_run iter ts (h, e) = Inr (h', e')" "engine_inv h' e'" "live_refs e' = []"
    "mset (se_completed e') = mset (live_refs e @ se_completed e)" "all_done h' (se_completed e')"
    using engine_run_drains [OF assms(1-3,5,4)] by blast
  then show ?thesis using drained_planner_empty by blast
qed

theorem engine_serves_all_witness:
  "\<exists>h' e'. engine_run (\<lambda>xs. xs) [Some 1, None, Some 7] (sample_heap 10 2, sample_engine 10 1) = Inr (h', e') \<and>
    se_completed e' = [0] \<and> all_done h' [0] \<and> mp_allocated_blocks (se_planner e') = 0"
proof -
  let ?h = "sample_heap 10 2" and ?e = "sample_engine 10 1"
  have inv: "engine_inv ?h ?e" by (rule sample_engine_inv) simp_all
  have live: "live_refs ?e = [0]" "se_completed ?e = []"
    by (simp_all add: live_refs_def batch_refs_def sample_engine_def idle_engine_def)
  have "engine_work ?h ?e \<le> 3"
    by (simp add: engine_work_def live) (simp add: tokens_left_def sample_heap_def new_request_def sample_engine_def)
  then obtain h' e' where r: "engine_run (\<lambda>xs. xs) [Some 1, None, Some 7] (?h, ?e) = Inr (h', e')"
      "mset (se_completed e') = {#0#}" "all_done h' (se_completed e')" "mp_allocated_blocks (se_planner e') = 0"
    using engine_serves_all [OF inv iter_ok_id sample_engine_budget, of "[Some 1, None, Some 7]"]
    by (auto simp: live all_done_def)
  have "se_completed e' = [0]" using r(2) by simp
  with r show ?thesis by simp
qed



text \<open>Decoding takes blocks without asking. When the cache is full and the next token of the only
  request of the batch needs a new block, the step raises \<open>AssertionError\<close>: there is no preemption, and
  the admission test reserved blocks for the prompt only.\<close>

lemma decode_overflow_raises:
  assumes inv: "engine_inv h e" and it: "iter_ok iter" and b: "batch_refs e = [r]"
    and idle: "se_prefill_queue e = []" "se_decode_ready e = []"
    and full: "mp_allocated_blocks (se_planner e) = mp_max_num_blocks (se_planner e)"
    and boundary: "generated_tokens (h r) = kv_blocks (se_planner e) (req_id (h r)) * mp_block_size (se_planner e)"
  shows "engine_step iter t h e = Inl (AssertionError ''Exceeding memory limit'')"
proof -
  obtain bt where bt: "se_batch e = Some bt" "b_requests bt = [r]" using b by (auto simp: batch_refs_def split: option.splits)
  have cur: "se_current_prefill e = None" using inv by (simp add: engine_inv_def)
  let ?e = "at_time t e"
  have e: "se_batch ?e = Some bt" "se_current_prefill ?e = None"
    using bt cur by (simp_all add: at_time_def split: option.split)
  have ie: "engine_inv h ?e" using inv by simp
  have phases: "engine_step iter t h e = rbind (process_decode_batch h ?e) (\<lambda>(evs, h', e'). Inr (evs, h', drop_empty_batch e'))"
    using idle e(1,2) bt(2) by (simp add: engine_step_def at_time_def [symmetric] prefill_phase_def batch_phase_def
        decode_phase_def batch_is_empty_def)
  have "req_id (h r) \<in> kv_keys (se_planner e)" using inv b by (simp add: engine_inv_def live_refs_def)
  then obtain n where n: "map_of (mp_allocation_map (se_planner e)) (req_id (h r)) = Some n"
    by (metis has_allocation_keys has_allocation_def not_None_eq)
  then have "mp_allocate (snd (req_decode (h r))) (se_planner e) = Inl (AssertionError ''Exceeding memory limit'')"
    using boundary full
    by (simp add: kv_blocks_def dict_get_default_def mp_allocate_def estimate_required_blocks_def frame_simps
        allocate_blocks_def Let_def py_assert_def max_def)
  then have loop: "for_res decode_one [r] (h, se_planner e, []) = Inl (AssertionError ''Exceeding memory limit'')"
    by (simp add: decode_one_eq)
  obtain k where k: "current_seq_length h [r] = Inr k" using current_seq_length_total by blast
  obtain d where d: "get_decode_time ?e k 1 = Inr d" using get_decode_time_total [OF engine_inv_FP16 [OF ie]] by blast
  show ?thesis unfolding phases using e(1) bt(2) k d loop by (simp add: process_decode_batch_def)
qed

lemma decode_overflow_raises_witness:
  "engine_step (\<lambda>xs. xs) None ((sample_heap 10 40)(0 := (sample_heap 10 40 0)\<lparr>generated_tokens := 16, req_status := GENERATE\<rparr>))
     ((sample_engine 1 1)\<lparr>se_prefill_queue := [], se_active := [0],
        se_batch := Some (new_batch ''decode_batch_1'' [0])\<rparr>) = Inl (AssertionError ''Exceeding memory limit'')"
  by (rule decode_overflow_raises [where r = 0])
    (simp_all add: iter_ok_id engine_inv_def sample_engine_def idle_engine_def live_refs_def batch_refs_def
      kv_keys_def sample_planner_def planner_inv_def req_live_def sample_heap_def new_request_def new_batch_def
      kv_blocks_def dict_get_default_def)

text \<open>The load of an engine counts requests that are ready to decode twice: for a well-formed engine
  \<open>get_current_load\<close> is the number of requests in the decode stage plus, once more, those not yet in the
  batch, while requests waiting for prefill are not counted at all.\<close>

lemma current_load_double_counts:
  assumes "engine_inv h e"
  shows "get_current_load e = length (batch_refs e) + 2 * length (se_decode_ready e)"
proof -
  have "distinct (se_decode_ready e @ batch_refs e)" "distinct (se_active e)"
    "set (se_active e) = set (se_decode_ready e @ batch_refs e)" "se_current_prefill e = None"
    using assms by (auto simp: engine_inv_def live_refs_def)
  then have "length (se_active e) = length (se_decode_ready e @ batch_refs e)" by (metis distinct_card)
  then show ?thesis using \<open>se_current_prefill e = None\<close> by (simp add: get_current_load_def)
qed

lemma current_load_double_counts_witness:
  "get_current_load ((sample_engine 10 1)\<lparr>se_prefill_queue := [], se_active := [0], se_decode_ready := [0]\<rparr>) = 2"
proof -
  let ?e = "(sample_engine 10 1)\<lparr>se_prefill_queue := [], se_active := [0], se_decode_ready := [0]\<rparr>"
  have "engine_inv (sample_heap 10 2) ?e"
    by (simp add: engine_inv_def sample_engine_def idle_engine_def live_refs_def batch_refs_def kv_keys_def
      sample_planner_def planner_inv_def req_live_def sample_heap_def new_request_def)
  from current_load_double_counts [OF this] show ?thesis
    by (simp add: batch_refs_def sample_engine_def idle_engine_def)
qed

end
