(* ===== verification/Sim_Scheduler.thy ===== *)
theory Sim_Scheduler
  imports Sim_Engine
begin

text \<open>
  The placement algorithms of \<open>simulator/core/scheduler.py\<close>. A scheduler object is its kind with
  the constructor's parameters and its statistics; a decision names the target engine by its id.
  \<open>random.choice\<close> is the argument \<open>rnd\<close>: the index drawn for the \<open>k\<close>-th decision among
  \<open>n\<close> engines. The risk-aware scheduler calls \<open>engine._estimate_kv_cache_memory\<close>, a method no
  class defines: it is the argument \<open>estimate\<close>, and \<open>missing_estimate\<close> is what Python does.
\<close>

section \<open>Decisions and statistics\<close>

record placement_decision =
  pd_target :: "string option"
  pd_reason :: string
  pd_confidence :: pyfloat
  pd_estimated_completion_time :: "pyfloat option"

record sched_stats =
  ss_total_decisions :: nat
  ss_rejections :: nat
  ss_reasons :: "nat pydict"

datatype sched_kind =
    RandomScheduler
  | RoundRobinScheduler nat
  | OracleScheduler
  | FLOPsScheduler
  | BandwidthScheduler
  | RooflineScheduler
  | AdaptiveRoofline
  | AdaptiveThreshold pyval pyval
  | RiskAware pyval pyval

record scheduler =
  sc_kind :: sched_kind
  sc_stats :: sched_stats

definition new_scheduler :: "sched_kind \<Rightarrow> scheduler" where
  "new_scheduler k = \<lparr>sc_kind = k, sc_stats = \<lparr>ss_total_decisions = 0, ss_rejections = 0, ss_reasons = []\<rparr>\<rparr>"

definition update_statistics :: "placement_decision option \<Rightarrow> scheduler \<Rightarrow> scheduler" where
  "update_statistics d s =
     (let st = (sc_stats s)\<lparr>ss_total_decisions := ss_total_decisions (sc_stats s) + 1\<rparr>
      in s\<lparr>sc_stats := (case d of
             None \<Rightarrow> st\<lparr>ss_rejections := ss_rejections st + 1\<rparr>
           | Some p \<Rightarrow> st\<lparr>ss_reasons := dict_bump (pd_reason p) (ss_reasons st)\<rparr>)\<rparr>)"

definition sched_get_statistics :: "scheduler \<Rightarrow> sched_stats" where
  "sched_get_statistics s = sc_stats s"

definition decide :: "serving_engine option \<Rightarrow> string \<Rightarrow> pyfloat \<Rightarrow> placement_decision" where
  "decide e reason confidence = \<lparr>pd_target = map_option se_id e, pd_reason = reason,
     pd_confidence = confidence, pd_estimated_completion_time = None\<rparr>"

definition memory_bandwidth :: "serving_engine \<Rightarrow> pyfloat" where
  "memory_bandwidth e = hw_bandwidth (se_spec e)"

section \<open>Selection loops\<close>

text \<open>The loop of the score-based schedulers: a higher score wins, an equal one with less load too.
  The best load starts at infinity, \<open>None\<close>.\<close>

definition load_lt :: "nat \<Rightarrow> nat option \<Rightarrow> bool" where
  "load_lt n b \<longleftrightarrow> (case b of None \<Rightarrow> True | Some m \<Rightarrow> n < m)"

fun pick_loop ::
  "(serving_engine \<Rightarrow> pyfloat res) \<Rightarrow> serving_engine list \<Rightarrow> pyfloat \<Rightarrow> nat option \<Rightarrow> serving_engine option \<Rightarrow>
   serving_engine option res" where
  "pick_loop score [] best_score best_load best = Inr best"
| "pick_loop score (e # es) best_score best_load best =
     rbind (score e) (\<lambda>s.
       let load = get_current_load e in
       if best_score < s \<or> (s = best_score \<and> load_lt load best_load)
       then pick_loop score es s (Some load) (Some e)
       else pick_loop score es best_score best_load best)"

definition pick_best :: "(serving_engine \<Rightarrow> pyfloat res) \<Rightarrow> serving_engine list \<Rightarrow> serving_engine option res" where
  "pick_best score es = pick_loop score es (-1) None None"

text \<open>The oracle's loop minimises; its best time starts at infinity.\<close>

fun oracle_loop ::
  "(serving_engine \<Rightarrow> pyfloat res) \<Rightarrow> serving_engine list \<Rightarrow> pyfloat option \<Rightarrow> nat option \<Rightarrow> serving_engine option \<Rightarrow>
   (serving_engine option \<times> pyfloat option) res" where
  "oracle_loop time [] best_time best_load best = Inr (best, best_time)"
| "oracle_loop time (e # es) best_time best_load best =
     rbind (time e) (\<lambda>t.
       let load = get_current_load e in
       if (case best_time of None \<Rightarrow> True | Some b \<Rightarrow> t < b) \<or> (best_time = Some t \<and> load_lt load best_load)
       then oracle_loop time es (Some t) (Some load) (Some e)
       else oracle_loop time es best_time best_load best)"

section \<open>Scores\<close>

text \<open>\<open>x ** 1.5\<close> of a negative integer is a complex number, and comparing it raises.\<close>

definition oracle_time :: "gen_request \<Rightarrow> serving_engine \<Rightarrow> pyfloat res" where
  "oracle_time r e =
     rbind (py_div (of_int (input_length r) powr (3 / 2)) (compute_throughput e / 10 ^ 12)) (\<lambda>prefill_time.
     rbind (py_div (of_int (output_length r * input_length r)) (memory_bandwidth e / 10 ^ 9)) (\<lambda>decode_time.
       if input_length r < 0 then Inl (TypeError ''complex comparison'')
       else Inr (prefill_time + decode_time)))"

definition bound_score :: "pyfloat \<Rightarrow> serving_engine \<Rightarrow> (pyfloat \<times> bound) res" where
  "bound_score intensity e =
     rbind (py_div (compute_throughput e) (memory_bandwidth e)) (\<lambda>turning_point.
       if intensity < turning_point then Inr (memory_bandwidth e, MemoryBound)
       else Inr (compute_throughput e, ComputeBound))"

definition ratio_or_zero :: "pyfloat \<Rightarrow> pyfloat \<Rightarrow> pyfloat" where
  "ratio_or_zero ops mem = (if 0 < mem then ops / mem else 0)"

definition request_intensity :: "gen_request \<Rightarrow> pyfloat" where
  "request_intensity r =
     (let i = of_int (input_length r); ot = of_int (output_length r)
      in ratio_or_zero (i ^ 2 * 10 ^ 6 + i * ot * 10 ^ 6) (i * 10 ^ 6 + i * ot * 10 ^ 6))"

definition roofline_score :: "gen_request \<Rightarrow> serving_engine \<Rightarrow> pyfloat res" where
  "roofline_score r e = rbind (bound_score (request_intensity r) e) (\<lambda>(s, b). Inr s)"

definition adaptive_roofline_score :: "gen_request \<Rightarrow> serving_engine \<Rightarrow> pyfloat res" where
  "adaptive_roofline_score r e =
     (let i = of_int (input_length r); ot = of_int (output_length r); total_work = i + ot;
          prefill_intensity = ratio_or_zero (i ^ 2 * 10 ^ 6) (i * 10 ^ 6);
          decode_intensity = ratio_or_zero (i * ot * 10 ^ 6) (i * ot * 10 ^ 6);
          prefill_weight = (if 0 < total_work then i / total_work else 1 / 2);
          decode_weight = (if 0 < total_work then ot / total_work else 1 / 2)
      in rbind (bound_score prefill_intensity e) (\<lambda>(prefill_score, b1).
         rbind (bound_score decode_intensity e) (\<lambda>(decode_score, b2).
           Inr (prefill_weight * prefill_score + decode_weight * decode_score))))"

text \<open>Comparing an integer with a constructor argument.\<close>

definition exceeds :: "int \<Rightarrow> pyval \<Rightarrow> bool res" where
  "exceeds n v = rbind (py_num v) (\<lambda>t. Inr (t < of_int n))"

definition threshold_score :: "bool \<Rightarrow> bool \<Rightarrow> serving_engine \<Rightarrow> pyfloat res" where
  "threshold_score long_input long_output e =
     (let compute_weight = (if long_input then 1 else 3 / 10);
          bandwidth_weight = (if long_output then 1 else 3 / 10)
      in Inr ((compute_weight * compute_throughput e + bandwidth_weight * memory_bandwidth e) /
           (compute_weight + bandwidth_weight)))"

definition threshold_reason :: "bool \<Rightarrow> bool \<Rightarrow> string" where
  "threshold_reason long_input long_output =
     (let reason = (if long_input then [''long_input''] else []) @ (if long_output then [''long_output''] else [])
      in ''threshold_adaptive_'' @ (if reason = [] then ''short_request'' else join_with ''_'' reason))"

section \<open>The risk-aware scheduler\<close>

type_synonym kv_estimate = "serving_engine \<Rightarrow> gen_request \<Rightarrow> pyfloat res"

definition missing_estimate :: kv_estimate where
  "missing_estimate e r = Inl (AttributeError ''_estimate_kv_cache_memory'')"

definition get_tier :: "serving_engine \<Rightarrow> nat" where
  "get_tier e =
     (let hw = py_lower (se_hardware e)
      in if py_in ''h100'' hw then 1 else if py_in ''a100'' hw then 2
         else if py_in ''3090'' hw \<or> py_in ''rtx'' hw then 3 else 2)"

text \<open>\<open>get_memory_info\<close> updates the engine, so the loops return the engines they saw. The candidate
  filter returns the engines with a mark for those that stay.\<close>

fun risk_filter ::
  "kv_estimate \<Rightarrow> pyval \<Rightarrow> gen_request \<Rightarrow> serving_engine list \<Rightarrow> (serving_engine \<times> bool) list res" where
  "risk_filter estimate buffer r [] = Inr []"
| "risk_filter estimate buffer r (e # es) =
     rbind (if get_tier e = 3
            then rbind (estimate e r) (\<lambda>est_mem_init.
                 let (info, e') = get_memory_info e;
                     kv_safe = (mi_total info - mi_model_weights info) * (8 / 10) in
                 rbind (py_num buffer) (\<lambda>b. Inr (e', \<not> (kv_safe * b < est_mem_init))))
            else Inr (e, True)) (\<lambda>x.
     rbind (risk_filter estimate buffer r es) (\<lambda>xs. Inr (x # xs)))"

text \<open>The load-balancing loop over the final candidates; \<open>final\<close> says whether an engine is one.\<close>

fun risk_loop ::
  "kv_estimate \<Rightarrow> gen_request \<Rightarrow> (serving_engine \<Rightarrow> bool) \<Rightarrow> (serving_engine \<times> bool) list \<Rightarrow>
   pyfloat option \<Rightarrow> serving_engine option \<Rightarrow> (serving_engine option \<times> serving_engine list) res" where
  "risk_loop estimate r final [] best_score best = Inr (best, [])"
| "risk_loop estimate r final ((e, ok) # xs) best_score best =
     (if \<not> (ok \<and> final e)
      then rbind (risk_loop estimate r final xs best_score best) (\<lambda>(b, es). Inr (b, e # es))
      else let (info, e') = get_memory_info e;
               cap = mi_total info - mi_model_weights info in
        rbind (if cap \<le> 0 then Inr (best_score, best)
               else rbind (estimate e' r) (\<lambda>new_kv.
                 let score = (mi_kv_cache info + new_kv) / cap in
                 if (case best_score of None \<Rightarrow> True | Some b \<Rightarrow> score < b) then Inr (Some score, Some e')
                 else if best_score = Some score \<and>
                     (case best of None \<Rightarrow> False | Some b \<Rightarrow> get_current_load e' < get_current_load b)
                 then Inr (best_score, Some e') else Inr (best_score, best))) (\<lambda>(best_score', best').
        rbind (risk_loop estimate r final xs best_score' best') (\<lambda>(b, es). Inr (b, e' # es))))"

definition risk_place ::
  "kv_estimate \<Rightarrow> pyval \<Rightarrow> pyval \<Rightarrow> gen_request \<Rightarrow> serving_engine list \<Rightarrow>
   (placement_decision option \<times> serving_engine list) res" where
  "risk_place estimate high buffer r es =
     rbind (risk_filter estimate buffer r es) (\<lambda>xs.
       if \<not> (\<exists>x \<in> set xs. snd x) then Inr (None, map fst xs)
       else rbind (exceeds (input_length r) high) (\<lambda>is_high.
         let tier1 = (\<exists>x \<in> set xs. snd x \<and> get_tier (fst x) = 1);
             final = (\<lambda>e. if is_high \<and> tier1 then get_tier e = 1 else True) in
         rbind (risk_loop estimate r final xs None None) (\<lambda>(best, es').
           case best of
             None \<Rightarrow> Inr (None, es')
           | Some e \<Rightarrow> Inr (Some (decide (Some e) (''risk_aware_tier'' @ str_nat (get_tier e)) (9 / 10)), es'))))"

section \<open>Placing a request\<close>

definition bound_name :: "bound \<Rightarrow> string" where
  "bound_name b = (case b of MemoryBound \<Rightarrow> ''memory'' | ComputeBound \<Rightarrow> ''compute'')"

text \<open>\<open>-e.get_current_load()\<close> as the second component of a key.\<close>

definition flops_key :: "serving_engine \<Rightarrow> pyfloat \<times> int" where
  "flops_key e = (compute_throughput e, - int (get_current_load e))"

definition bandwidth_key :: "serving_engine \<Rightarrow> pyfloat \<times> int" where
  "bandwidth_key e = (memory_bandwidth e, - int (get_current_load e))"

text \<open>\<open>max(xs, key=f)\<close> for a pair of keys, compared lexicographically.\<close>

fun max_pair_acc :: "('a \<Rightarrow> pyfloat \<times> int) \<Rightarrow> 'a \<Rightarrow> 'a list \<Rightarrow> 'a" where
  "max_pair_acc f b [] = b"
| "max_pair_acc f b (x # xs) =
     max_pair_acc f (if fst (f b) < fst (f x) \<or> fst (f b) = fst (f x) \<and> snd (f b) < snd (f x) then x else b) xs"

text \<open>The body of \<open>place_request\<close> of each class, for a non-empty list of engines.\<close>

definition random_place :: "(nat \<Rightarrow> nat \<Rightarrow> nat) \<Rightarrow> nat \<Rightarrow> serving_engine list \<Rightarrow> placement_decision res" where
  "random_place rnd k es =
     rbind (py_nth es (int (rnd k (length es)))) (\<lambda>e. Inr (decide (Some e) ''random_selection'' (1 / 10)))"

definition round_robin_place :: "nat \<Rightarrow> serving_engine list \<Rightarrow> (placement_decision \<times> nat) res" where
  "round_robin_place current_index es =
     rbind (py_nth es (int (current_index mod length es))) (\<lambda>e.
       Inr (decide (Some e) ''round_robin'' (2 / 10), current_index + 1))"

definition oracle_place :: "gen_request \<Rightarrow> serving_engine list \<Rightarrow> placement_decision res" where
  "oracle_place r es =
     rbind (oracle_loop (oracle_time r) es None None None) (\<lambda>(e, t).
       Inr ((decide e ''oracle_minimum_completion_time'' 1)\<lparr>pd_estimated_completion_time := t\<rparr>))"

definition flops_place :: "serving_engine list \<Rightarrow> placement_decision" where
  "flops_place es = decide (Some (max_pair_acc flops_key (hd es) (tl es))) ''max_compute_throughput'' (6 / 10)"

definition bandwidth_place :: "serving_engine list \<Rightarrow> placement_decision" where
  "bandwidth_place es = decide (Some (max_pair_acc bandwidth_key (hd es) (tl es))) ''max_memory_bandwidth'' (6 / 10)"

text \<open>The variable \<open>bound_type\<close> keeps the value of the loop's last round.\<close>

definition roofline_place :: "gen_request \<Rightarrow> serving_engine list \<Rightarrow> placement_decision res" where
  "roofline_place r es =
     rbind (pick_best (roofline_score r) es) (\<lambda>e.
     rbind (bound_score (request_intensity r) (last es)) (\<lambda>(s, bound_type).
       Inr (decide e (''roofline_'' @ bound_name bound_type @ ''_bound'') (8 / 10))))"

definition adaptive_roofline_place :: "gen_request \<Rightarrow> serving_engine list \<Rightarrow> placement_decision res" where
  "adaptive_roofline_place r es =
     rbind (pick_best (adaptive_roofline_score r) es) (\<lambda>e. Inr (decide e ''input_output_adaptive_roofline'' (9 / 10)))"

definition adaptive_threshold_place ::
  "pyval \<Rightarrow> pyval \<Rightarrow> gen_request \<Rightarrow> serving_engine list \<Rightarrow> placement_decision res" where
  "adaptive_threshold_place input_threshold output_threshold r es =
     rbind (exceeds (input_length r) input_threshold) (\<lambda>long_input.
     rbind (exceeds (output_length r) output_threshold) (\<lambda>long_output.
     rbind (pick_best (threshold_score long_input long_output) es) (\<lambda>e.
       Inr (decide e (threshold_reason long_input long_output) (85 / 100)))))"

text \<open>The dispatch on the class, with the attributes the call changes.\<close>

definition choose_place ::
  "(nat \<Rightarrow> nat \<Rightarrow> nat) \<Rightarrow> kv_estimate \<Rightarrow> scheduler \<Rightarrow> gen_request \<Rightarrow> serving_engine list \<Rightarrow>
   (placement_decision option \<times> sched_kind \<times> serving_engine list) res" where
  "choose_place rnd estimate s r es =
     (let kind = sc_kind s; keep = (\<lambda>d. Inr (Some d, kind, es)) in
      case kind of
        RandomScheduler \<Rightarrow> rbind (random_place rnd (ss_total_decisions (sc_stats s)) es) keep
      | RoundRobinScheduler i \<Rightarrow> rbind (round_robin_place i es) (\<lambda>(d, j). Inr (Some d, RoundRobinScheduler j, es))
      | OracleScheduler \<Rightarrow> rbind (oracle_place r es) keep
      | FLOPsScheduler \<Rightarrow> keep (flops_place es)
      | BandwidthScheduler \<Rightarrow> keep (bandwidth_place es)
      | RooflineScheduler \<Rightarrow> rbind (roofline_place r es) keep
      | AdaptiveRoofline \<Rightarrow> rbind (adaptive_roofline_place r es) keep
      | AdaptiveThreshold a b \<Rightarrow> rbind (adaptive_threshold_place a b r es) keep
      | RiskAware high buffer \<Rightarrow>
          rbind (risk_place estimate high buffer r es) (\<lambda>(d, es'). Inr (d, kind, es')))"

lemmas place_defs = choose_place_def random_place_def round_robin_place_def oracle_place_def flops_place_def
  bandwidth_place_def roofline_place_def adaptive_roofline_place_def adaptive_threshold_place_def

definition place_request ::
  "(nat \<Rightarrow> nat \<Rightarrow> nat) \<Rightarrow> kv_estimate \<Rightarrow> scheduler \<Rightarrow> gen_request \<Rightarrow> serving_engine list \<Rightarrow>
   (placement_decision option \<times> scheduler \<times> serving_engine list) res" where
  "place_request rnd estimate s r es =
     (if es = [] then Inr (None, update_statistics None s, es)
      else rbind (choose_place rnd estimate s r es) (\<lambda>(d, kind, es').
        Inr (d, update_statistics d (s\<lparr>sc_kind := kind\<rparr>), es')))"

text \<open>\<open>get_scheduler\<close>: a class without parameters refuses keyword arguments.\<close>

definition no_kwargs :: "pyval pydict \<Rightarrow> sched_kind \<Rightarrow> scheduler res" where
  "no_kwargs kwargs k = (if kwargs = [] then Inr (new_scheduler k)
     else Inl (TypeError ''unexpected keyword argument''))"

definition two_kwargs ::
  "pyval pydict \<Rightarrow> string \<Rightarrow> pyval \<Rightarrow> string \<Rightarrow> pyval \<Rightarrow> (pyval \<Rightarrow> pyval \<Rightarrow> sched_kind) \<Rightarrow> scheduler res" where
  "two_kwargs kwargs a da b db k =
     (if set (map fst kwargs) \<subseteq> {a, b}
      then Inr (new_scheduler (k (dict_get_default kwargs a da) (dict_get_default kwargs b db)))
      else Inl (TypeError ''unexpected keyword argument''))"

definition get_scheduler :: "string \<Rightarrow> pyval pydict \<Rightarrow> scheduler res" where
  "get_scheduler name kwargs =
     (let n = py_lower name in
      if n = ''random'' then no_kwargs kwargs RandomScheduler
      else if n = ''round_robin'' then no_kwargs kwargs (RoundRobinScheduler 0)
      else if n = ''oracle'' then no_kwargs kwargs OracleScheduler
      else if n = ''flops'' then no_kwargs kwargs FLOPsScheduler
      else if n = ''bandwidth'' then no_kwargs kwargs BandwidthScheduler
      else if n = ''roofline'' then no_kwargs kwargs RooflineScheduler
      else if n = ''inputoutput_roofline'' then no_kwargs kwargs AdaptiveRoofline
      else if n = ''inputoutput_threshold'' then
        two_kwargs kwargs ''input_threshold'' (PInt 1024) ''output_threshold'' (PInt 512) AdaptiveThreshold
      else if n = ''heterogeneous_risk_aware'' then
        two_kwargs kwargs ''high_intensity_threshold'' (PInt 2048) ''tier3_kv_safe_buffer'' (PFloat (1 / 2)) RiskAware
      else Inl (ValueError ''Unknown scheduler''))"


section \<open>What the loops select\<close>

text \<open>\<open>beats\<close>: a strictly better score, or the same score with less load.\<close>

definition beats :: "(serving_engine \<Rightarrow> pyfloat) \<Rightarrow> serving_engine \<Rightarrow> serving_engine \<Rightarrow> bool" where
  "beats f x y \<longleftrightarrow> f y < f x \<or> f x = f y \<and> get_current_load x < get_current_load y"

lemma beats_irrefl [simp]: "\<not> beats f x x"
  by (simp add: beats_def)

lemma beats_trans_not: "\<not> beats f x y \<Longrightarrow> \<not> beats f y z \<Longrightarrow> \<not> beats f x z"
  by (auto simp: beats_def)

lemma beats_asym: "beats f x y \<Longrightarrow> \<not> beats f y x"
  by (auto simp: beats_def)

lemma pick_loop_step:
  assumes "\<And>e. e \<in> set es \<Longrightarrow> score e = Inr (f e)"
  shows "pick_loop score es (f b) (Some (get_current_load b)) (Some b) =
    Inr (Some (fold (\<lambda>e b. if beats f e b then e else b) es b))"
  using assms
proof (induction es arbitrary: b)
  case (Cons e es)
  have "score e = Inr (f e)" using Cons.prems by simp
  moreover have "\<And>x. x \<in> set es \<Longrightarrow> score x = Inr (f x)" using Cons.prems by simp
  ultimately show ?case
    using Cons.IH [of e] Cons.IH [of b] by (auto simp: beats_def load_lt_def Let_def)
qed simp

lemma fold_beats:
  "fold (\<lambda>e b. if beats f e b then e else b) es b \<in> insert b (set es) \<and>
   (\<forall>x \<in> insert b (set es). \<not> beats f x (fold (\<lambda>e b. if beats f e b then e else b) es b))"
proof (induction es arbitrary: b)
  case (Cons e es)
  let ?b = "if beats f e b then e else b"
  let ?r = "fold (\<lambda>e b. if beats f e b then e else b) es ?b"
  have IH: "?r \<in> insert ?b (set es)" "\<forall>x \<in> insert ?b (set es). \<not> beats f x ?r" using Cons.IH [of ?b] by auto
  have "\<not> beats f e ?b" "\<not> beats f b ?b" using beats_asym by auto
  then have "\<not> beats f e ?r" "\<not> beats f b ?r" using IH(2) beats_trans_not by blast+
  then show ?case using IH by (auto split: if_splits)
qed simp

text \<open>With scores above the initial \<open>-1\<close>, the loop returns an engine no other engine beats.\<close>

lemma pick_best_spec:
  assumes "es \<noteq> []" "\<And>e. e \<in> set es \<Longrightarrow> score e = Inr (f e) \<and> -1 < f e"
  shows "\<exists>b \<in> set es. pick_best score es = Inr (Some b) \<and> (\<forall>x \<in> set es. \<not> beats f x b)"
proof -
  obtain e es' where es: "es = e # es'" using assms(1) by (cases es) auto
  have "pick_best score es = pick_loop score es' (f e) (Some (get_current_load e)) (Some e)"
    using assms(2) [of e] es by (simp add: pick_best_def Let_def)
  also have "\<dots> = Inr (Some (fold (\<lambda>e b. if beats f e b then e else b) es' e))"
    by (rule pick_loop_step) (use assms(2) es in auto)
  finally show ?thesis using fold_beats [of f es' e] es by auto
qed

lemma max_pair_acc_fold:
  assumes "\<And>e. key e = (f e, - int (get_current_load e))"
  shows "max_pair_acc key b es = fold (\<lambda>e b. if beats f e b then e else b) es b"
  by (induction es arbitrary: b) (auto simp: assms beats_def)

lemma oracle_loop_step:
  assumes "\<And>e. e \<in> set es \<Longrightarrow> time e = Inr (f e)"
  shows "oracle_loop time es (Some (f b)) (Some (get_current_load b)) (Some b) =
    (let r = fold (\<lambda>e b. if beats (\<lambda>x. - f x) e b then e else b) es b in Inr (Some r, Some (f r)))"
  using assms
proof (induction es arbitrary: b)
  case (Cons e es)
  have "time e = Inr (f e)" using Cons.prems by simp
  moreover have "\<And>x. x \<in> set es \<Longrightarrow> time x = Inr (f x)" using Cons.prems by simp
  ultimately show ?case
    using Cons.IH [of e] Cons.IH [of b] by (auto simp: beats_def load_lt_def Let_def)
qed simp

lemma oracle_loop_spec:
  assumes "es \<noteq> []" "\<And>e. e \<in> set es \<Longrightarrow> time e = Inr (f e)"
  shows "\<exists>b \<in> set es. oracle_loop time es None None None = Inr (Some b, Some (f b)) \<and>
    (\<forall>x \<in> set es. \<not> beats (\<lambda>x. - f x) x b)"
proof -
  obtain e es' where es: "es = e # es'" using assms(1) by (cases es) auto
  have "oracle_loop time es None None None = oracle_loop time es' (Some (f e)) (Some (get_current_load e)) (Some e)"
    using assms(2) [of e] es by (simp add: Let_def)
  also have "\<dots> = (let r = fold (\<lambda>e b. if beats (\<lambda>x. - f x) e b then e else b) es' e in Inr (Some r, Some (f r)))"
    by (rule oracle_loop_step) (use assms(2) es in auto)
  finally show ?thesis using fold_beats [of "\<lambda>x. - f x" es' e] es by (auto simp: Let_def)
qed

section \<open>Scores on known hardware\<close>

definition engine_hw_ok :: "serving_engine \<Rightarrow> bool" where
  "engine_hw_ok e \<longleftrightarrow> hardware_ok (se_spec e)"

lemma engine_hw_pos: "engine_hw_ok e \<Longrightarrow> 0 < compute_throughput e \<and> 0 < memory_bandwidth e"
  by (simp add: engine_hw_ok_def hardware_ok_def compute_throughput_def memory_bandwidth_def)

text \<open>The objective each score-based scheduler maximises, written without the error cases.\<close>

definition bound_value :: "pyfloat \<Rightarrow> serving_engine \<Rightarrow> pyfloat" where
  "bound_value intensity e =
     (if intensity < compute_throughput e / memory_bandwidth e then memory_bandwidth e else compute_throughput e)"

definition objective :: "sched_kind \<Rightarrow> gen_request \<Rightarrow> serving_engine \<Rightarrow> pyfloat" where
  "objective k r e =
     (case k of
        OracleScheduler \<Rightarrow> - (of_int (input_length r) powr (3 / 2) / (compute_throughput e / 10 ^ 12) +
            of_int (output_length r * input_length r) / (memory_bandwidth e / 10 ^ 9))
      | FLOPsScheduler \<Rightarrow> compute_throughput e
      | BandwidthScheduler \<Rightarrow> memory_bandwidth e
      | RooflineScheduler \<Rightarrow> bound_value (request_intensity r) e
      | AdaptiveRoofline \<Rightarrow>
          (let i = of_int (input_length r); ot = of_int (output_length r) in
           i / (i + ot) * bound_value (ratio_or_zero (i ^ 2 * 10 ^ 6) (i * 10 ^ 6)) e +
           ot / (i + ot) * bound_value (ratio_or_zero (i * ot * 10 ^ 6) (i * ot * 10 ^ 6)) e)
      | AdaptiveThreshold (PInt a) (PInt b) \<Rightarrow>
          (let cw = (if a < input_length r then 1 else 3 / 10); bw = (if b < output_length r then 1 else 3 / 10)
           in (cw * compute_throughput e + bw * memory_bandwidth e) / (cw + bw))
      | _ \<Rightarrow> 0)"

lemma bound_score_ok:
  "engine_hw_ok e \<Longrightarrow> \<exists>b. bound_score i e = Inr (bound_value i e, b) \<and> 0 < bound_value i e"
  using engine_hw_pos [of e] by (auto simp: bound_score_def bound_value_def)


definition score_based :: "sched_kind \<Rightarrow> bool" where
  "score_based k \<longleftrightarrow> k \<in> {OracleScheduler, FLOPsScheduler, BandwidthScheduler, RooflineScheduler, AdaptiveRoofline} \<or>
     (\<exists>a b. k = AdaptiveThreshold (PInt a) (PInt b))"

definition chosen_best :: "sched_kind \<Rightarrow> gen_request \<Rightarrow> serving_engine list \<Rightarrow> placement_decision \<Rightarrow> bool" where
  "chosen_best k r es d \<longleftrightarrow>
     (\<exists>b \<in> set es. pd_target d = Some (se_id b) \<and> (\<forall>x \<in> set es. \<not> beats (objective k r) x b))"

lemma chosen_by_pick:
  assumes "es \<noteq> []" "\<And>e. e \<in> set es \<Longrightarrow> score e = Inr (objective k r e) \<and> -1 < objective k r e"
  shows "\<exists>b. pick_best score es = Inr (Some b) \<and> chosen_best k r es (decide (Some b) reason c)"
  using pick_best_spec [where score = score and f = "objective k r", OF assms(1) assms(2)]
  by (auto simp: chosen_best_def decide_def)

lemma chosen_by_max:
  assumes "es \<noteq> []" "\<And>e. key e = (objective k r e, - int (get_current_load e))"
  shows "chosen_best k r es (decide (Some (max_pair_acc key (hd es) (tl es))) reason c)"
  unfolding max_pair_acc_fold [OF assms(2)]
  using fold_beats [of "objective k r" "tl es" "hd es"] assms(1)
  by (cases es) (auto simp: chosen_best_def decide_def)

lemma adaptive_score_ok:
  assumes hw: "engine_hw_ok e" and pos: "0 < input_length r" "0 < output_length r"
  shows "adaptive_roofline_score r e = Inr (objective AdaptiveRoofline r e) \<and> -1 < objective AdaptiveRoofline r e"
proof -
  let ?i = "real_of_int (input_length r)" and ?o = "real_of_int (output_length r)"
  obtain b1 where b1: "bound_score (ratio_or_zero (?i ^ 2 * 10 ^ 6) (?i * 10 ^ 6)) e =
      Inr (bound_value (ratio_or_zero (?i ^ 2 * 10 ^ 6) (?i * 10 ^ 6)) e, b1)"
      "0 < bound_value (ratio_or_zero (?i ^ 2 * 10 ^ 6) (?i * 10 ^ 6)) e"
    using bound_score_ok [OF hw] by blast
  obtain b2 where b2: "bound_score (ratio_or_zero (?i * ?o * 10 ^ 6) (?i * ?o * 10 ^ 6)) e =
      Inr (bound_value (ratio_or_zero (?i * ?o * 10 ^ 6) (?i * ?o * 10 ^ 6)) e, b2)"
      "0 < bound_value (ratio_or_zero (?i * ?o * 10 ^ 6) (?i * ?o * 10 ^ 6)) e"
    using bound_score_ok [OF hw] by blast
  have w: "0 < ?i / (?i + ?o)" "0 < ?o / (?i + ?o)" "0 < ?i + ?o" using pos by simp_all
  have "adaptive_roofline_score r e = Inr (objective AdaptiveRoofline r e)"
    unfolding adaptive_roofline_score_def Let_def using b1(1) b2(1) w(3) by (simp add: objective_def Let_def)
  moreover have "0 < objective AdaptiveRoofline r e"
    unfolding objective_def Let_def sched_kind.case by (intro add_pos_pos mult_pos_pos w b1(2) b2(2))
  ultimately show ?thesis by simp
qed

lemma choose_best:
  assumes es: "es \<noteq> []" and hw: "\<forall>e \<in> set es. engine_hw_ok e"
    and pos: "0 < input_length r" "0 < output_length r" and k: "score_based (sc_kind s)"
  shows "\<exists>d. choose_place rnd estimate s r es = Inr (Some d, sc_kind s, es) \<and> chosen_best (sc_kind s) r es d"
proof -
  have hp: "0 < compute_throughput e" "0 < memory_bandwidth e" if "e \<in> set es" for e
    using hw that engine_hw_pos by blast+
  from k consider "sc_kind s = OracleScheduler" | "sc_kind s = FLOPsScheduler" | "sc_kind s = BandwidthScheduler"
    | "sc_kind s = RooflineScheduler" | "sc_kind s = AdaptiveRoofline" | a b where "sc_kind s = AdaptiveThreshold (PInt a) (PInt b)"
    unfolding score_based_def by blast
  then show ?thesis
  proof cases
    case 1
    have "oracle_time r e = Inr (- objective OracleScheduler r e)" if "e \<in> set es" for e
      using hp [OF that] pos by (simp add: oracle_time_def objective_def)
    from oracle_loop_spec [where time = "oracle_time r" and f = "\<lambda>e. - objective OracleScheduler r e", OF es this]
    show ?thesis using 1 by (auto simp: place_defs chosen_best_def decide_def)
  next
    case 2
    show ?thesis using chosen_by_max [OF es, of flops_key FLOPsScheduler r] 2
      by (simp add: place_defs flops_key_def objective_def)
  next
    case 3
    show ?thesis using chosen_by_max [OF es, of bandwidth_key BandwidthScheduler r] 3
      by (simp add: place_defs bandwidth_key_def objective_def)
  next
    case 4
    have "roofline_score r e = Inr (objective RooflineScheduler r e) \<and> -1 < objective RooflineScheduler r e" if "e \<in> set es" for e
      using bound_score_ok [of e "request_intensity r"] hw that by (auto simp: roofline_score_def objective_def)
    from chosen_by_pick [where score = "roofline_score r", OF es this] obtain b where "pick_best (roofline_score r) es = Inr (Some b)"
      "\<And>reason c. chosen_best RooflineScheduler r es (decide (Some b) reason c)" by (auto simp: chosen_best_def decide_def)
    moreover obtain v bt where "bound_score (request_intensity r) (last es) = Inr (v, bt)"
      using bound_score_ok [of "last es" "request_intensity r"] hw es by auto
    ultimately show ?thesis using 4 by (simp add: place_defs)
  next
    case 5
    have "adaptive_roofline_score r e = Inr (objective AdaptiveRoofline r e) \<and> -1 < objective AdaptiveRoofline r e" if "e \<in> set es" for e
      using adaptive_score_ok hw that pos by blast
    from chosen_by_pick [where score = "adaptive_roofline_score r", OF es this] show ?thesis using 5 by (fastforce simp: place_defs)
  next
    case 6
    let ?k = "AdaptiveThreshold (PInt a) (PInt b)"
    have "threshold_score (a < input_length r) (b < output_length r) e = Inr (objective ?k r e) \<and> -1 < objective ?k r e"
      if "e \<in> set es" for e
    proof -
      have "0 < objective ?k r e" using hp [OF that] by (simp add: objective_def Let_def add_pos_pos)
      then show ?thesis by (simp add: threshold_score_def objective_def Let_def)
    qed
    from chosen_by_pick [where score = "threshold_score (a < input_length r) (b < output_length r)", OF es this]
    show ?thesis using 6
      by (fastforce simp: place_defs exceeds_def py_num_def)
  qed
qed

text \<open>Round robin over a fixed list of engines.\<close>

fun place_many ::
  "(nat \<Rightarrow> nat \<Rightarrow> nat) \<Rightarrow> kv_estimate \<Rightarrow> scheduler \<Rightarrow> gen_request list \<Rightarrow> serving_engine list \<Rightarrow>
   placement_decision option list res" where
  "place_many rnd estimate s [] es = Inr []"
| "place_many rnd estimate s (r # rs) es =
     rbind (place_request rnd estimate s r es) (\<lambda>(d, s', es').
     rbind (place_many rnd estimate s' rs es') (\<lambda>ds. Inr (d # ds)))"

lemma round_robin_run:
  assumes "es \<noteq> []" "sc_kind s = RoundRobinScheduler i"
  shows "\<exists>ds. place_many rnd estimate s rs es = Inr (map Some ds) \<and>
    map pd_target ds = map (\<lambda>j. Some (se_id (es ! ((i + j) mod length es)))) [0 ..< length rs]"
  using assms(2)
proof (induction rs arbitrary: s i)
  case (Cons r rs)
  let ?d = "decide (Some (es ! (i mod length es))) ''round_robin'' (2 / 10)"
  have one: "place_request rnd estimate s r es =
      Inr (Some ?d, update_statistics (Some ?d) (s\<lparr>sc_kind := RoundRobinScheduler (i + 1)\<rparr>), es)"
    using assms(1) Cons.prems by (simp add: place_request_def place_defs py_nth_nonneg)
  have "sc_kind (update_statistics (Some ?d) (s\<lparr>sc_kind := RoundRobinScheduler (i + 1)\<rparr>)) = RoundRobinScheduler (Suc i)"
    by (simp add: update_statistics_def Let_def)
  from Cons.IH [OF this] obtain ds where
    ds: "place_many rnd estimate (update_statistics (Some ?d) (s\<lparr>sc_kind := RoundRobinScheduler (i + 1)\<rparr>)) rs es = Inr (map Some ds)"
    "map pd_target ds = map (\<lambda>j. Some (se_id (es ! ((Suc i + j) mod length es)))) [0 ..< length rs]" by blast
  have "map (\<lambda>j. Some (se_id (es ! ((i + j) mod length es)))) [0 ..< Suc (length rs)] =
      Some (se_id (es ! (i mod length es))) # map (\<lambda>j. Some (se_id (es ! ((Suc i + j) mod length es)))) [0 ..< length rs]"
    by (simp add: upt_conv_Cons map_Suc_upt [symmetric] o_def del: upt_Suc)
  then show ?case using one ds by (intro exI [of _ "?d # ds"]) (simp add: decide_def del: upt_Suc)
qed simp

lemma mset_cyclic:
  fixes xs :: "'a list"
  assumes "xs \<noteq> []"
  shows "mset (map (\<lambda>j. xs ! ((i + j) mod length xs)) [0 ..< k * length xs]) = repeat_mset k (mset xs)"
proof (induction k)
  case (Suc k)
  let ?n = "length xs"
  have "[0 ..< Suc k * ?n] = [0 ..< k * ?n] @ map (\<lambda>j. j + k * ?n) [0 ..< ?n]"
    using map_add_upt [of "k * ?n" ?n] upt_add_eq_append [of 0 "k * ?n" ?n] by (simp add: add.commute)
  moreover have "map (\<lambda>j. xs ! ((i + (j + k * ?n)) mod ?n)) [0 ..< ?n] = rotate i xs"
  proof (rule nth_equalityI)
    fix j assume j: "j < length (map (\<lambda>j. xs ! ((i + (j + k * ?n)) mod ?n)) [0 ..< ?n])"
    have "(i + (j + k * ?n)) mod ?n = (i + j) mod ?n" by (metis add.assoc mod_mult_self1)
    then show "map (\<lambda>j. xs ! ((i + (j + k * ?n)) mod ?n)) [0 ..< ?n] ! j = rotate i xs ! j"
      using j by (simp add: nth_rotate)
  qed simp
  then have "mset (map (\<lambda>j. xs ! ((i + (j + k * ?n)) mod ?n)) [0 ..< ?n]) = mset xs"
    using mset_append [of "take (i mod ?n) xs" "drop (i mod ?n) xs"]
    by (simp add: rotate_drop_take add.commute)
  ultimately show ?case using Suc by (simp add: o_def)
qed simp

section \<open>Statistics\<close>

definition sched_inv :: "scheduler \<Rightarrow> bool" where
  "sched_inv s \<longleftrightarrow> distinct (map fst (ss_reasons (sc_stats s))) \<and>
     ss_total_decisions (sc_stats s) = ss_rejections (sc_stats s) + sum_list (map snd (ss_reasons (sc_stats s)))"

lemma update_statistics_inv: "sched_inv s \<Longrightarrow> sched_inv (update_statistics d s)"
  by (auto simp: sched_inv_def update_statistics_def Let_def sum_list_dict_bump split: option.splits)

lemma update_statistics_counts:
  "ss_total_decisions (sc_stats (update_statistics d s)) = ss_total_decisions (sc_stats s) + 1"
  "ss_rejections (sc_stats (update_statistics d s)) = ss_rejections (sc_stats s) + (if d = None then 1 else 0)"
  by (auto simp: update_statistics_def Let_def split: option.splits)


section \<open>Properties\<close>

text \<open>Engines for the examples: known GPUs, idle.\<close>

definition gpu_engine :: "string \<Rightarrow> hardware_spec \<Rightarrow> serving_engine" where
  "gpu_engine hw spec = \<lparr>se_id = hw, se_model_id = ''llama'', se_model_params = llama2_7b,
     se_model_instance = Some llama, se_hardware = hw, se_parallel_config = PC_None,
     se_max_batch_size = 8, se_spec = spec, se_planner = sample_planner 100,
     se_request_queue = [], se_active = [], se_completed = [], se_prefill_queue = [], se_decode_ready = [],
     se_batch = None, se_batch_counter = 0, se_current_prefill = None, se_trace = [], se_current_time = 0,
     se_time_cursor = 0, se_analyzer = \<lparr>ma_model_id = ''llama'', ma_hardware = hw,
       ma_model_params = llama2_7b, ma_config = Some llama\<rparr>, se_model_loaded = False, se_model_memory = 0,
     se_kv_memory = 0, se_kv_capacity = 0,
     se_stats = \<lparr>st_requests_processed = 0, st_total_tokens_generated = 0, st_total_prefill_time = 0,
           st_total_decode_time = 0, st_memory_peak = 0, st_batch_sizes = []\<rparr>,
     se_callback = True, se_outbox = []\<rparr>"

definition rtx3090 :: hardware_spec where
  "rtx3090 = \<lparr>hw_bandwidth = 936 * 10 ^ 9, hw_FP16 = 71 * 10 ^ 12, hw_INT8 = 71 * 10 ^ 12,
        hw_onchip_buffer = 18432 * 10 ^ 3, hw_vmemory = 24 * 10 ^ 9, hw_price_per_hour = 13 / 100\<rparr>"

definition a100 :: hardware_spec where
  "a100 = \<lparr>hw_bandwidth = 1555 * 10 ^ 9, hw_FP16 = 312 * 10 ^ 12, hw_INT8 = 624 * 10 ^ 12,
        hw_onchip_buffer = 27648 * 10 ^ 3, hw_vmemory = 40 * 10 ^ 9, hw_price_per_hour = 65 / 100\<rparr>"

abbreviation engine_3090 :: serving_engine where
  "engine_3090 \<equiv> gpu_engine ''NVDA:RTX3090'' rtx3090"

abbreviation engine_a100 :: serving_engine where
  "engine_a100 \<equiv> gpu_engine ''NVDA:A100'' a100"

lemma sample_gpus_ok: "engine_hw_ok engine_3090" "engine_hw_ok engine_a100"
  by (simp_all add: engine_hw_ok_def gpu_engine_def hardware_ok_def rtx3090_def a100_def)

lemma sample_gpus_known: "dict_get hardware_params ''NVDA:RTX3090'' = Inr rtx3090"
  "dict_get hardware_params ''NVDA:A100'' = Inr a100"
  by (simp_all add: dict_get_def hardware_params_def rtx3090_def a100_def)

text \<open>C23: Every score-based scheduler places the request on a best engine. For engines on known hardware and a
  request with positive lengths, the oracle, FLOPs, bandwidth, roofline and both adaptive schedulers
  return a decision, for one of the available engines, such that no available engine has a better
  value of the scheduler's objective, nor the same value with a lower load; engines are not changed.\<close>

theorem scheduler_picks_best:
  assumes "es \<noteq> []" and "\<forall>e \<in> set es. engine_hw_ok e" and "0 < input_length r" and "0 < output_length r"
    and "score_based (sc_kind s)"
  shows "\<exists>d b s'. place_request rnd estimate s r es = Inr (Some d, s', es) \<and> sc_kind s' = sc_kind s \<and>
    b \<in> set es \<and> pd_target d = Some (se_id b) \<and> (\<forall>x \<in> set es. \<not> beats (objective (sc_kind s) r) x b)"
proof -
  obtain d where d: "choose_place rnd estimate s r es = Inr (Some d, sc_kind s, es)" "chosen_best (sc_kind s) r es d"
    using choose_best [OF assms] by blast
  have "sc_kind (update_statistics (Some d) s) = sc_kind s" by (simp add: update_statistics_def Let_def)
  then show ?thesis using d assms(1) by (auto simp: place_request_def chosen_best_def)
qed

theorem scheduler_picks_best_witness:
  "\<exists>d s'. place_request (\<lambda>_ _. 0) missing_estimate (new_scheduler FLOPsScheduler) (new_request ''r'' ''m'' 100 50 0)
      [engine_3090, engine_a100] = Inr (Some d, s', [engine_3090, engine_a100]) \<and> pd_target d = Some ''NVDA:A100''"
proof -
  let ?es = "[engine_3090, engine_a100]"
  obtain d b s' where run: "place_request (\<lambda>_ _. 0) missing_estimate (new_scheduler FLOPsScheduler)
      (new_request ''r'' ''m'' 100 50 0) ?es = Inr (Some d, s', ?es)"
    and b: "b \<in> set ?es" "pd_target d = Some (se_id b)"
      "\<forall>x \<in> set ?es. \<not> beats (objective FLOPsScheduler (new_request ''r'' ''m'' 100 50 0)) x b"
    using scheduler_picks_best [of ?es "new_request ''r'' ''m'' 100 50 0" "new_scheduler FLOPsScheduler" "\<lambda>_ _. 0" missing_estimate]
      sample_gpus_ok by (auto simp: new_request_def new_scheduler_def score_based_def)
  have "b = engine_a100"
    using b(1,3) by (auto simp: beats_def objective_def compute_throughput_def gpu_engine_def rtx3090_def a100_def)
  then have "se_id b = ''NVDA:A100''" by (simp add: gpu_engine_def)
  with run b(2) show ?thesis by auto
qed

text \<open>Round robin is fair: over a fixed non-empty list of engines, any \<open>k * n\<close> consecutive placements
  for \<open>n\<close> engines succeed and choose every engine exactly \<open>k\<close> times, whatever the requests are and
  wherever the rotation starts.\<close>

lemma round_robin_fair:
  assumes "es \<noteq> []" and "sc_kind s = RoundRobinScheduler i" and "length rs = k * length es"
  shows "\<exists>ds. place_many rnd estimate s rs es = Inr (map Some ds) \<and>
    mset (map pd_target ds) = repeat_mset k (mset (map (\<lambda>e. Some (se_id e)) es))"
proof -
  obtain ds where ds: "place_many rnd estimate s rs es = Inr (map Some ds)"
    "map pd_target ds = map (\<lambda>j. Some (se_id (es ! ((i + j) mod length es)))) [0 ..< length rs]"
    using round_robin_run [OF assms(1,2)] by blast
  let ?xs = "map (\<lambda>e. Some (se_id e)) es"
  have "map pd_target ds = map (\<lambda>j. ?xs ! ((i + j) mod length ?xs)) [0 ..< k * length ?xs]"
    unfolding ds(2) assms(3) using assms(1) by (intro map_cong) auto
  then have "mset (map pd_target ds) = repeat_mset k (mset ?xs)"
    using mset_cyclic [of ?xs i k] assms(1) by simp
  with ds(1) show ?thesis by blast
qed

lemma round_robin_fair_witness:
  "\<exists>ds. place_many (\<lambda>_ _. 0) missing_estimate (new_scheduler (RoundRobinScheduler 5))
      (replicate 4 (new_request ''r'' ''m'' 1 1 0)) [engine_3090, engine_a100] = Inr (map Some ds) \<and>
    mset (map pd_target ds) = replicate_mset 2 (Some ''NVDA:RTX3090'') + replicate_mset 2 (Some ''NVDA:A100'')"
    using round_robin_fair [of "[engine_3090, engine_a100]" "new_scheduler (RoundRobinScheduler 5)" 5
        "replicate 4 (new_request ''r'' ''m'' 1 1 0)" 2 "\<lambda>_ _. 0" missing_estimate]
    by (simp add: new_scheduler_def gpu_engine_def)

text \<open>The statistics of a scheduler add up: after any placement that returns, the number of decisions has
  grown by one, it equals the rejections plus the sum over the recorded reasons, and a rejection is
  counted exactly when there is no decision, in particular when no engine is available.\<close>

theorem scheduler_statistics_exact:
  assumes "sched_inv s" and "place_request rnd estimate s r es = Inr (d, s', es')"
  shows "sched_inv s' \<and> ss_total_decisions (sc_stats s') = ss_total_decisions (sc_stats s) + 1 \<and>
    ss_rejections (sc_stats s') = ss_rejections (sc_stats s) + (if d = None then 1 else 0) \<and>
    (es = [] \<longrightarrow> d = None)"
proof (cases "es = []")
  case True
  then show ?thesis using assms update_statistics_inv update_statistics_counts
    by (auto simp: place_request_def)
next
  case False
  then obtain kind where s': "s' = update_statistics d (s\<lparr>sc_kind := kind\<rparr>)"
    using assms(2) by (auto simp: place_request_def res_simps)
  have "sched_inv (s\<lparr>sc_kind := kind\<rparr>)" using assms(1) by (simp add: sched_inv_def)
  then show ?thesis using False update_statistics_inv update_statistics_counts by (auto simp: s')
qed

theorem scheduler_statistics_exact_witness:
  "\<exists>s'. place_request (\<lambda>_ _. 0) missing_estimate (new_scheduler OracleScheduler) (new_request ''r'' ''m'' 1 1 0) [] =
      Inr (None, s', []) \<and> ss_rejections (sc_stats s') = 1 \<and> ss_total_decisions (sc_stats s') = 1"
proof -
  have run: "place_request (\<lambda>_ _. 0) missing_estimate (new_scheduler OracleScheduler) (new_request ''r'' ''m'' 1 1 0) [] =
      Inr (None, update_statistics None (new_scheduler OracleScheduler), [])"
    by (simp add: place_request_def)
  have "sched_inv (new_scheduler OracleScheduler)" by (simp add: sched_inv_def new_scheduler_def)
  from scheduler_statistics_exact [OF this run] run show ?thesis by (simp add: new_scheduler_def)
qed

text \<open>The risk-aware scheduler cannot place anything: with at least one available engine that has room
  beside its model weights, and numeric parameters, it raises \<open>AttributeError\<close>, because the method it
  calls on the engine, \<open>_estimate_kv_cache_memory\<close>, does not exist.\<close>

lemma risk_aware_raises:
  assumes "sc_kind s = RiskAware (PInt high) (PFloat buffer)" and "es \<noteq> []"
    and "\<forall>e \<in> set es. se_model_memory e < gpu_memory_capacity e"
  shows "place_request rnd missing_estimate s r es = Inl (AttributeError ''_estimate_kv_cache_memory'')"
proof -
  let ?err = "Inl (AttributeError ''_estimate_kv_cache_memory'')"
  have cap: "\<not> mi_total (fst (get_memory_info e)) - mi_model_weights (fst (get_memory_info e)) \<le> 0"
    if "e \<in> set es" for e
    using assms(3) that by (fastforce simp: get_memory_info_def Let_def gpu_memory_capacity_def)
  have filt: "risk_filter missing_estimate (PFloat buffer) r xs =
      (if \<exists>e \<in> set xs. get_tier e = 3 then ?err else Inr (map (\<lambda>e. (e, True)) xs))" for xs
    by (induction xs) (auto simp: missing_estimate_def)
  have loop: "risk_loop missing_estimate r final (map (\<lambda>e. (e, True)) xs) None None = ?err"
    if "set xs \<subseteq> set es" "\<exists>e \<in> set xs. final e" for xs final
    using that
  proof (induction xs)
    case (Cons e xs)
    show ?case
    proof (cases "final e")
      case True
      have "\<not> mi_total (fst (get_memory_info e)) - mi_model_weights (fst (get_memory_info e)) \<le> 0"
        using cap Cons.prems(1) by simp
      then show ?thesis using True by (auto simp: missing_estimate_def Let_def split: prod.splits)
    next
      case False
      then show ?thesis using Cons by auto
    qed
  qed simp
  have "risk_place missing_estimate (PInt high) (PFloat buffer) r es = ?err"
  proof (cases "\<exists>e \<in> set es. get_tier e = 3")
    case True
    then show ?thesis by (simp add: risk_place_def filt)
  next
    case False
    let ?final = "\<lambda>e. if high < input_length r \<and> (\<exists>x \<in> set es. get_tier x = 1) then get_tier e = 1 else True"
    have "\<exists>e \<in> set es. ?final e" using assms(2) by (cases es) auto
    from loop [OF subset_refl this] show ?thesis
      using False assms(2) by (auto simp: risk_place_def filt exceeds_def py_num_def image_iff Let_def cong: if_cong)
  qed
  then show ?thesis using assms(1,2) by (simp add: place_request_def place_defs)
qed

lemma risk_aware_raises_witness:
  "place_request (\<lambda>_ _. 0) missing_estimate (new_scheduler (RiskAware (PInt 2048) (PFloat (1 / 2))))
      (new_request ''r'' ''m'' 100 50 0) [engine_a100] = Inl (AttributeError ''_estimate_kv_cache_memory'')"
  by (rule risk_aware_raises [of _ 2048 "1 / 2"]) (simp_all add: new_scheduler_def gpu_engine_def gpu_memory_capacity_def a100_def)

text \<open>The reason the roofline scheduler reports is that of the last engine it looked at, not of the one
  it chose: a request that is compute bound on the chosen RTX 3090 is reported as memory bound because
  the A100 comes last.\<close>

lemma roofline_reason_of_last_engine:
  "\<exists>d s'. place_request (\<lambda>_ _. 0) missing_estimate (new_scheduler RooflineScheduler) (new_request ''r'' ''m'' 200 1 0)
      [engine_3090, engine_a100] = Inr (Some d, s', [engine_3090, engine_a100]) \<and>
    pd_target d = Some (se_id engine_3090) \<and>
    bound_score (request_intensity (new_request ''r'' ''m'' 200 1 0)) engine_3090 = Inr (compute_throughput engine_3090, ComputeBound) \<and>
    pd_reason d = ''roofline_memory_bound''"
  by (simp add: place_request_def place_defs new_scheduler_def pick_best_def roofline_score_def bound_score_def
      request_intensity_def ratio_or_zero_def new_request_def compute_throughput_def memory_bandwidth_def gpu_engine_def
      rtx3090_def a100_def get_current_load_def load_lt_def Let_def decide_def bound_name_def update_statistics_def)

end
