(* ===== verification/Sim_Arrival.thy ===== *)
theory Sim_Arrival
  imports Prelude
begin

text \<open>
  Arrival processes, \<open>simulator/core/arrival.py\<close>. The random generator of numpy is the
  argument \<open>draw\<close>: after \<open>np.random.seed(seed)\<close> the \<open>k\<close>-th call of
  \<open>np.random.gamma(shape, scale, size=n)\<close> returns \<open>draw seed shape scale n k i\<close> at index
  \<open>i\<close>. The loop of the gamma process ends only if the gaps eventually reach the end of the
  interval, so it is a partial function.
\<close>

section \<open>Processes\<close>

record gamma_process =
  gp_rate :: pyfloat
  gp_cv :: pyfloat
  gp_shape :: pyfloat
  gp_scale :: pyfloat

datatype arrival_process = Deterministic pyfloat | Gamma gamma_process

type_synonym gamma_draw = "int \<Rightarrow> pyfloat \<Rightarrow> pyfloat \<Rightarrow> nat \<Rightarrow> nat \<Rightarrow> nat \<Rightarrow> pyfloat"

definition new_gamma :: "pyfloat \<Rightarrow> pyfloat \<Rightarrow> gamma_process res" where
  "new_gamma rate cv =
     rbind (py_div 1 (cv * cv)) (\<lambda>shape.
     rbind (py_div (cv * cv) rate) (\<lambda>scale.
       Inr \<lparr>gp_rate = rate, gp_cv = cv, gp_shape = shape, gp_scale = scale\<rparr>))"

definition new_poisson :: "pyfloat \<Rightarrow> gamma_process res" where
  "new_poisson rate = new_gamma rate 1"

definition arrival_rate :: "arrival_process \<Rightarrow> pyfloat" where
  "arrival_rate p = (case p of Deterministic r \<Rightarrow> r | Gamma g \<Rightarrow> gp_rate g)"

definition arrival_cv :: "arrival_process \<Rightarrow> pyfloat" where
  "arrival_cv p = (case p of Deterministic r \<Rightarrow> 0 | Gamma g \<Rightarrow> gp_cv g)"

definition arrival_params :: "arrival_process \<Rightarrow> pyfloat \<times> pyfloat" where
  "arrival_params p = (arrival_rate p, arrival_cv p)"

section \<open>Arrivals\<close>

definition deterministic_arrivals :: "pyfloat \<Rightarrow> pyfloat \<Rightarrow> pyfloat \<Rightarrow> pyfloat list res" where
  "deterministic_arrivals rate start duration =
     (let n_requests = py_int (duration * rate) in
      rbind (py_div 1 rate) (\<lambda>interval.
        Inr (map (\<lambda>i. start + of_nat i * interval) [0 ..< nat n_requests])))"

text \<open>The \<open>while\<close> loop: \<open>k\<close> counts the batches drawn after the first, \<open>pt\<close> is the position
  in the batch.\<close>

partial_function (option) gamma_loop ::
  "(nat \<Rightarrow> nat \<Rightarrow> pyfloat) \<Rightarrow> nat \<Rightarrow> pyfloat \<Rightarrow> nat \<Rightarrow> nat \<Rightarrow> pyfloat \<Rightarrow> pyfloat list \<Rightarrow> pyfloat list option" where
  "gamma_loop gap batch_size end_time k pt cur ticks =
     (if cur < end_time
      then (if batch_size \<le> pt + 1
            then gamma_loop gap batch_size end_time (k + 1) 0 (cur + gap (k + 1) 0) (ticks @ [cur])
            else gamma_loop gap batch_size end_time k (pt + 1) (cur + gap k (pt + 1)) (ticks @ [cur]))
      else Some ticks)"

definition gamma_batch_size :: "pyfloat \<Rightarrow> pyfloat \<Rightarrow> nat" where
  "gamma_batch_size rate duration = nat (max (py_int (rate * duration * (12 / 10))) 1)"

definition gamma_arrivals :: "gamma_draw \<Rightarrow> gamma_process \<Rightarrow> pyfloat \<Rightarrow> pyfloat \<Rightarrow> int \<Rightarrow> pyfloat list option" where
  "gamma_arrivals draw g start duration seed =
     (let batch_size = gamma_batch_size (gp_rate g) duration;
          gap = draw seed (gp_shape g) (gp_scale g) batch_size
      in gamma_loop gap batch_size (start + duration) 0 0 (start + gap 0 0) [])"

definition generate_arrivals :: "gamma_draw \<Rightarrow> arrival_process \<Rightarrow> pyfloat \<Rightarrow> pyfloat \<Rightarrow> int \<Rightarrow> pyfloat list res option" where
  "generate_arrivals draw p start duration seed =
     (case p of
        Deterministic rate \<Rightarrow> Some (deterministic_arrivals rate start duration)
      | Gamma g \<Rightarrow> map_option Inr (gamma_arrivals draw g start duration seed))"

definition generate_workload :: "gamma_draw \<Rightarrow> arrival_process \<Rightarrow> pyfloat \<Rightarrow> pyfloat \<Rightarrow> int \<Rightarrow> pyfloat list res option" where
  "generate_workload draw p start duration seed = generate_arrivals draw p start duration seed"

section \<open>The gaps as one sequence\<close>

text \<open>\<open>gap_seq b g j\<close>: the gap consumed by the \<open>j\<close>-th arrival; \<open>arrival_at\<close> the time of that
  arrival. The batches are consumed one after the other without skipping a draw.\<close>

definition gap_seq :: "nat \<Rightarrow> (nat \<Rightarrow> nat \<Rightarrow> pyfloat) \<Rightarrow> nat \<Rightarrow> pyfloat" where
  "gap_seq b g j = g (j div b) (j mod b)"

definition arrival_at :: "pyfloat \<Rightarrow> nat \<Rightarrow> (nat \<Rightarrow> nat \<Rightarrow> pyfloat) \<Rightarrow> nat \<Rightarrow> pyfloat" where
  "arrival_at start b g n = start + (\<Sum>j \<le> n. gap_seq b g j)"

lemma gamma_loop_step:
  assumes b: "0 < b" and "cur = arrival_at start b g j" and "cur < fin"
  shows "gamma_loop g b fin (j div b) (j mod b) cur ticks =
    gamma_loop g b fin (Suc j div b) (Suc j mod b) (arrival_at start b g (Suc j)) (ticks @ [cur])"
proof (cases "b \<le> Suc (j mod b)")
  case True
  then have "Suc (j mod b) = b" using b by (simp add: Suc_leI antisym)
  then have "Suc j div b = Suc (j div b)" "Suc j mod b = 0"
    by (simp_all add: div_Suc mod_Suc)
  with True assms show ?thesis
    by (subst gamma_loop.simps) (simp add: arrival_at_def gap_seq_def add.assoc)
next
  case False
  then have "Suc j div b = j div b" "Suc j mod b = Suc (j mod b)"
    by (simp_all add: div_Suc mod_Suc)
  with False assms show ?thesis
    by (subst gamma_loop.simps) (simp add: arrival_at_def gap_seq_def add.assoc)
qed

lemma gamma_loop_run:
  assumes "0 < b" and "j \<le> n" and "\<And>i. j \<le> i \<Longrightarrow> i < n \<Longrightarrow> arrival_at start b g i < fin"
    and "fin \<le> arrival_at start b g n"
  shows "gamma_loop g b fin (j div b) (j mod b) (arrival_at start b g j) ticks =
    Some (ticks @ map (arrival_at start b g) [j ..< n])"
  using assms(2,3)
proof (induction "n - j" arbitrary: j ticks)
  case 0
  then have "j = n" by simp
  then show ?case using assms(4) by (subst gamma_loop.simps) simp
next
  case (Suc d)
  then have "j < n" by simp
  then have lt: "arrival_at start b g j < fin" using Suc.prems(2) by simp
  have "gamma_loop g b fin (Suc j div b) (Suc j mod b) (arrival_at start b g (Suc j))
      (ticks @ [arrival_at start b g j]) =
    Some ((ticks @ [arrival_at start b g j]) @ map (arrival_at start b g) [Suc j ..< n])"
    by (rule Suc.hyps(1)) (use Suc.hyps(2) \<open>j < n\<close> Suc.prems(2) in auto)
  then show ?case
    using gamma_loop_step [OF assms(1) refl lt] \<open>j < n\<close> by (simp add: upt_conv_Cons)
qed

section \<open>Properties\<close>

text \<open>Deterministic arrivals are evenly spaced and inside the interval: for a positive rate there are
  \<open>floor (duration * rate)\<close> of them, starting at \<open>start\<close>, each \<open>1 / rate\<close> after the previous
  one, and all before \<open>start + duration\<close>. A zero rate raises.\<close>

lemma deterministic_arrivals_spec:
  assumes "0 < rate" and "0 \<le> duration"
  shows "\<exists>ts. deterministic_arrivals rate start duration = Inr ts \<and>
    length ts = nat \<lfloor>duration * rate\<rfloor> \<and> sorted ts \<and> distinct ts \<and>
    (\<forall>t \<in> set ts. start \<le> t \<and> t < start + duration) \<and>
    (\<forall>i. Suc i < length ts \<longrightarrow> ts ! Suc i - ts ! i = 1 / rate) \<and>
    deterministic_arrivals 0 start duration = Inl ZeroDivisionError"
proof -
  let ?n = "nat \<lfloor>duration * rate\<rfloor>" and ?f = "\<lambda>i::nat. start + of_nat i * (1 / rate)"
  have eq: "deterministic_arrivals rate start duration = Inr (map ?f [0 ..< ?n])"
    using assms by (simp add: deterministic_arrivals_def py_int_def)
  have inj: "?f i < ?f j" if "i < j" for i j using that assms(1) by (simp add: divide_strict_right_mono)
  have "sorted (map ?f [0 ..< ?n])"
    using assms(1) by (auto simp: sorted_iff_nth_mono divide_right_mono)
  moreover have "distinct (map ?f [0 ..< ?n])"
    unfolding distinct_map by (auto intro!: inj_onI dest: inj simp: assms(1) order_less_imp_not_eq2)
  moreover have "start \<le> ?f i \<and> ?f i < start + duration" if "i < ?n" for i
  proof -
    have "real i < duration * rate" using that by linarith
    then show ?thesis using assms by (simp add: field_simps)
  qed
  moreover have "?f (Suc i) - ?f i = 1 / rate" for i by (simp add: add_divide_distrib)
  ultimately show ?thesis using eq by (auto simp: deterministic_arrivals_def py_div_def Let_def)
qed

lemma deterministic_arrivals_spec_witness:
  "\<exists>ts. deterministic_arrivals 2 10 3 = Inr ts \<and> length ts = 6 \<and> sorted ts"
  using deterministic_arrivals_spec [of 2 3 10] by auto

text \<open>Gamma arrivals terminate and are exact: if the draws are positive and their running sum
  eventually reaches the duration, the loop ends and returns exactly the running sums below
  \<open>start + duration\<close>, in order: strictly increasing, inside the interval, using every draw of every
  batch once.\<close>

theorem gamma_arrivals_exact:
  fixes draw :: gamma_draw and g duration seed
  defines "b \<equiv> gamma_batch_size (gp_rate g) duration"
    and "gap \<equiv> draw seed (gp_shape g) (gp_scale g) (gamma_batch_size (gp_rate g) duration)"
  assumes pos: "\<forall>k i. 0 < gap k i" and reach: "\<exists>n. duration \<le> (\<Sum>j \<le> n. gap_seq b gap j)"
  shows "\<exists>n. gamma_arrivals draw g start duration seed = Some (map (arrival_at start b gap) [0 ..< n]) \<and>
    (\<forall>i < n. start < arrival_at start b gap i \<and> arrival_at start b gap i < start + duration) \<and>
    start + duration \<le> arrival_at start b gap n \<and>
    sorted (map (arrival_at start b gap) [0 ..< n]) \<and> distinct (map (arrival_at start b gap) [0 ..< n])"
proof -
  let ?a = "arrival_at start b gap"
  define n where "n = (LEAST n. start + duration \<le> ?a n)"
  have ex: "\<exists>n. start + duration \<le> ?a n" using reach by (auto simp: arrival_at_def)
  have hit: "start + duration \<le> ?a n" unfolding n_def using ex by (rule LeastI_ex)
  have below: "?a i < start + duration" if "i < n" for i
    using not_less_Least [OF that [unfolded n_def]] by simp
  have mono: "strict_mono ?a"
    unfolding strict_mono_Suc_iff by (simp add: arrival_at_def gap_seq_def pos)
  have "b \<ge> 1" by (simp add: b_def gamma_batch_size_def)
  then have b: "0 < b" by simp
  have "?a 0 = start + gap 0 0" by (simp add: arrival_at_def gap_seq_def)
  then have "gamma_arrivals draw g start duration seed = Some (map ?a [0 ..< n])"
    using gamma_loop_run [OF b, of 0 n start gap "start + duration" "[]"] below hit
    by (simp add: gamma_arrivals_def b_def gap_def Let_def)
  moreover have "start < ?a i" for i
    unfolding arrival_at_def using sum_pos [of "{..i}" "gap_seq b gap"] pos by (simp add: gap_seq_def)
  moreover have "sorted (map ?a [0 ..< n])"
    using mono by (auto simp: sorted_iff_nth_mono strict_mono_less_eq)
  moreover have "distinct (map ?a [0 ..< n])"
    using mono by (simp add: distinct_map strict_mono_imp_inj_on inj_on_subset)
  ultimately show ?thesis using below hit by blast
qed

text \<open>Constant gaps of one second over 2.5 seconds at one request per second.\<close>

theorem gamma_arrivals_exact_witness:
  "\<exists>n. gamma_arrivals (\<lambda>_ _ _ _ _ _. 1) \<lparr>gp_rate = 1, gp_cv = 1, gp_shape = 1, gp_scale = 1\<rparr> 0 (5 / 2) 0 =
    Some (map (arrival_at 0 (gamma_batch_size 1 (5 / 2)) (\<lambda>_ _. 1)) [0 ..< n])"
proof -
  have "(5 / 2 :: real) \<le> (\<Sum>j \<le> (2::nat). gap_seq (gamma_batch_size 1 (5 / 2)) (\<lambda>_ _. 1) j)"
    by (simp add: gap_seq_def)
  then have "\<exists>n. (5 / 2 :: real) \<le> (\<Sum>j \<le> (n::nat). gap_seq (gamma_batch_size 1 (5 / 2)) (\<lambda>_ _. 1) j)" ..
  then show ?thesis
    using gamma_arrivals_exact [of "\<lambda>_ _ _ _ _ _. 1" 0 "\<lparr>gp_rate = 1, gp_cv = 1, gp_shape = 1, gp_scale = 1\<rparr>" "5 / 2" 0]
    by simp blast
qed

end
