(* ===== verification/Sim_Cluster.thy ===== *)
theory Sim_Cluster
  imports Sim_Engine_Inv Sim_Scheduler Sim_Arrival
begin

text \<open>
  The cluster manager, \<open>simulator/core/cluster_manager.py\<close>: it owns the event loop, the engines and
  the scheduler, and its methods are the handlers of the loop. The request objects it shares with
  its engines are the heap \<open>cm_heap\<close>. Handlers are named by the type \<open>handler\<close> and called through
  \<open>handle\<close>. What is not code of the repository is the record \<open>externals\<close>: the MD5 digest, the order
  of set iteration, the random generators, \<open>AutoConfig.from_pretrained\<close>, and the engine method that
  does not exist. Printing is left out.

  Payloads of events are dictionaries; the values read from them have the types the code that
  builds the events gives them, and any other value is a \<open>TypeError\<close> here.
\<close>

section \<open>State\<close>

record externals =
  x_md5 :: "string \<Rightarrow> nat"
  x_iter :: "req_ref list \<Rightarrow> req_ref list"
  x_rnd :: "nat \<Rightarrow> nat \<Rightarrow> nat"
  x_estimate :: kv_estimate
  x_draw :: gamma_draw
  x_randint :: "nat \<Rightarrow> int \<Rightarrow> int \<Rightarrow> int"
  x_from_pretrained :: "bool \<Rightarrow> string \<Rightarrow> model_params res"

record node_config =
  nc_node_id :: string
  nc_model_id :: string
  nc_hardware :: string
  nc_max_batch_size :: int
  nc_parallel_config :: parallel_arg

record cluster_config =
  cc_cluster_id :: string
  cc_nodes :: "node_config list"
  cc_scheduler_algorithm :: string
  cc_scheduler_config :: "pyval pydict"

datatype handler =
    H_request_arrival | H_placement_decision | H_node_online | H_node_offline | H_request_complete
  | H_load_balance | H_prefill_start | H_prefill_complete | H_decode_step | H_batch_form
  | H_memory_check | H_model_load | H_model_unload

record metrics =
  mt_total_requests :: nat
  mt_completed_requests :: nat
  mt_rejected_requests :: nat
  mt_cluster_utilization :: pyfloat
  mt_average_latency :: pyfloat
  mt_throughput :: pyfloat
  mt_scheduler_decisions :: "nat pydict"
  mt_node_failures :: nat
  mt_node_recoveries :: nat

record cluster =
  cm_config :: cluster_config
  cm_arrival :: arrival_process
  cm_loop :: "handler event_loop"
  cm_engines :: "serving_engine pydict"
  cm_online :: "string list"
  cm_offline :: "string list"
  cm_scheduler :: scheduler
  cm_active :: "req_ref pydict"
  cm_completed :: "req_ref list"
  cm_counter :: nat
  cm_metrics :: metrics
  cm_start_time :: pyfloat
  cm_current_time :: pyfloat
  cm_last_metrics_update :: pyfloat
  cm_metrics_interval :: pyfloat
  cm_trace :: "trace_event list"
  cm_heap :: req_heap
  cm_next_ref :: req_ref

section \<open>Construction\<close>

definition register_event_handlers :: "handler event_loop \<Rightarrow> handler event_loop" where
  "register_event_handlers l = fold (\<lambda>(ty, h). register_handler ty h)
     [(REQUEST_ARRIVAL, H_request_arrival), (PLACEMENT_DECISION, H_placement_decision),
      (NODE_ONLINE, H_node_online), (NODE_OFFLINE, H_node_offline),
      (REQUEST_COMPLETE, H_request_complete), (LOAD_BALANCE, H_load_balance),
      (PREFILL_START, H_prefill_start), (PREFILL_COMPLETE, H_prefill_complete),
      (DECODE_STEP, H_decode_step), (BATCH_FORM, H_batch_form), (MEMORY_CHECK, H_memory_check),
      (MODEL_LOAD, H_model_load), (MODEL_UNLOAD, H_model_unload)] l"

definition add_node :: "externals \<Rightarrow> node_config \<Rightarrow> cluster \<Rightarrow> cluster res" where
  "add_node x n c =
     rbind (new_engine (x_from_pretrained x) (nc_node_id n) (nc_model_id n) None (nc_hardware n)
       (nc_parallel_config n) (nc_max_batch_size n)) (\<lambda>e.
     Inr (c\<lparr>cm_engines := dict_set (nc_node_id n) (set_event_callback e) (cm_engines c),
            cm_online := set_add (nc_node_id n) (cm_online c)\<rparr>))"

definition initialize_cluster :: "externals \<Rightarrow> cluster \<Rightarrow> cluster res" where
  "initialize_cluster x c =
     rbind (for_res (add_node x) (cc_nodes (cm_config c)) c) (\<lambda>c'.
       Inr (c'\<lparr>cm_loop := register_event_handlers (cm_loop c')\<rparr>))"

definition zero_metrics :: metrics where
  "zero_metrics = \<lparr>mt_total_requests = 0, mt_completed_requests = 0, mt_rejected_requests = 0,
     mt_cluster_utilization = 0, mt_average_latency = 0, mt_throughput = 0, mt_scheduler_decisions = [],
     mt_node_failures = 0, mt_node_recoveries = 0\<rparr>"

definition empty_cluster :: "cluster_config \<Rightarrow> arrival_process \<Rightarrow> scheduler \<Rightarrow> cluster" where
  "empty_cluster cfg arrival s = \<lparr>cm_config = cfg, cm_arrival = arrival, cm_loop = loop_init,
     cm_engines = [], cm_online = [], cm_offline = [], cm_scheduler = s, cm_active = [], cm_completed = [],
     cm_counter = 0, cm_metrics = zero_metrics, cm_start_time = 0, cm_current_time = 0,
     cm_last_metrics_update = 0, cm_metrics_interval = 1, cm_trace = [],
     cm_heap = (\<lambda>_. new_request [] [] 0 0 0), cm_next_ref = 0\<rparr>"

definition new_cluster :: "externals \<Rightarrow> cluster_config \<Rightarrow> arrival_process \<Rightarrow> cluster res" where
  "new_cluster x cfg arrival =
     rbind (get_scheduler (cc_scheduler_algorithm cfg) (cc_scheduler_config cfg)) (\<lambda>s.
       initialize_cluster x (empty_cluster cfg arrival s))"

section \<open>Events and traces\<close>

definition schedule :: "event \<Rightarrow> cluster \<Rightarrow> cluster res" where
  "schedule ev c = rbind (schedule_event ev (cm_loop c)) (\<lambda>l. Inr (c\<lparr>cm_loop := l\<rparr>))"

text \<open>The callback of the engines: it stamps the event with the current time.\<close>

definition handle_engine_event :: "event \<Rightarrow> cluster \<Rightarrow> cluster res" where
  "handle_engine_event ev c = schedule (ev\<lparr>ev_timestamp := el_time (cm_loop c)\<rparr>) c"

text \<open>Store an engine after a call, delivering what it emitted.\<close>

definition store_engine :: "string \<Rightarrow> serving_engine \<Rightarrow> cluster \<Rightarrow> cluster res" where
  "store_engine eid e c =
     for_res handle_engine_event (se_outbox e)
       (c\<lparr>cm_engines := dict_set eid (e\<lparr>se_outbox := []\<rparr>) (cm_engines c)\<rparr>)"

definition lifecycle_event :: "externals \<Rightarrow> string \<Rightarrow> string \<Rightarrow> pyfloat \<Rightarrow> string \<Rightarrow> pyval pydict \<Rightarrow> trace_event" where
  "lifecycle_event x name ph t rid args = \<lparr>te_name = name, te_cat = ''request_lifecycle'', te_ph = ph,
     te_pid = PStr ''request_tracker'', te_tid = PStr ''lifecycle'', te_ts = py_int (t * 1000000),
     te_args = Some args, te_dur = None, te_cname = Some (get_request_color (x_md5 x) rid)\<rparr>"

definition add_trace :: "trace_event \<Rightarrow> cluster \<Rightarrow> cluster" where
  "add_trace te c = c\<lparr>cm_trace := cm_trace c @ [te]\<rparr>"

definition data_str :: "event \<Rightarrow> string \<Rightarrow> string res" where
  "data_str ev k = rbind (dict_get (ev_data ev) k) (\<lambda>v.
     case v of PStr s \<Rightarrow> Inr s | _ \<Rightarrow> Inl (TypeError k))"

definition data_int :: "event \<Rightarrow> string \<Rightarrow> int res" where
  "data_int ev k = rbind (dict_get (ev_data ev) k) (\<lambda>v.
     case v of PInt i \<Rightarrow> Inr i | _ \<Rightarrow> Inl (TypeError k))"

definition placement_event :: "pyfloat \<Rightarrow> string \<Rightarrow> event" where
  "placement_event t rid = \<lparr>ev_timestamp = t, ev_type = PLACEMENT_DECISION, ev_target = ''cluster_manager'',
     ev_data = [(''request_id'', PStr rid)], ev_priority = MEDIUM\<rparr>"

definition step_event :: "pyfloat \<Rightarrow> string \<Rightarrow> event" where
  "step_event t eid = \<lparr>ev_timestamp = t, ev_type = BATCH_FORM, ev_target = eid, ev_data = [],
     ev_priority = HIGH\<rparr>"

definition schedule_engine_step :: "string \<Rightarrow> cluster \<Rightarrow> cluster res" where
  "schedule_engine_step eid c = schedule (step_event (el_time (cm_loop c)) eid) c"

section \<open>Handlers\<close>

definition handle_request_arrival :: "externals \<Rightarrow> event \<Rightarrow> cluster \<Rightarrow> cluster res" where
  "handle_request_arrival x ev c =
     rbind (data_str ev ''request_id'') (\<lambda>rid.
     rbind (data_str ev ''model'') (\<lambda>model.
     rbind (data_int ev ''input_length'') (\<lambda>inp.
     rbind (data_int ev ''output_length'') (\<lambda>outp.
     let r = cm_next_ref c; m = cm_metrics c;
         c1 = c\<lparr>cm_heap := (cm_heap c)(r := new_request rid model inp outp (ev_timestamp ev)),
           cm_next_ref := r + 1, cm_active := dict_set rid r (cm_active c),
           cm_metrics := m\<lparr>mt_total_requests := mt_total_requests m + 1\<rparr>\<rparr>;
         c2 = add_trace (lifecycle_event x ''RequestArrival'' ''B'' (ev_timestamp ev) rid
           [(''request_id'', PStr rid), (''model'', PStr model), (''input_length'', PInt inp),
            (''output_length'', PInt outp)]) c1
     in schedule (placement_event (ev_timestamp ev) rid) c2))))"

definition reject_request :: "externals \<Rightarrow> req_ref \<Rightarrow> string \<Rightarrow> cluster \<Rightarrow> cluster res" where
  "reject_request x r reason c =
     (let rid = req_id (cm_heap c r); m = cm_metrics c in
      rbind (dict_get (cm_active c) rid) (\<lambda>_.
        Inr (add_trace (lifecycle_event x ''RequestRejected'' ''E'' (el_time (cm_loop c)) rid [(''reason'', PStr reason)])
          (c\<lparr>cm_active := dict_del rid (cm_active c),
             cm_metrics := m\<lparr>mt_rejected_requests := mt_rejected_requests m + 1\<rparr>\<rparr>))))"

definition record_placement_decision :: "placement_decision \<Rightarrow> cluster \<Rightarrow> cluster" where
  "record_placement_decision d c =
     (let m = cm_metrics c
      in c\<lparr>cm_metrics := m\<lparr>mt_scheduler_decisions := dict_bump (pd_reason d) (mt_scheduler_decisions m)\<rparr>\<rparr>)"

definition available_engines :: "cluster \<Rightarrow> serving_engine list" where
  "available_engines c = map snd (filter (\<lambda>p. fst p \<in> set (cm_online c)) (cm_engines c))"

definition place_on :: "externals \<Rightarrow> req_ref \<Rightarrow> string \<Rightarrow> placement_decision \<Rightarrow> string \<Rightarrow> cluster \<Rightarrow> cluster res" where
  "place_on x r rid d eid c =
     rbind (dict_get (cm_engines c) eid) (\<lambda>e.
     rbind (add_request r (cm_heap c) e) (\<lambda>(ok, h, e').
     rbind (store_engine eid e' (c\<lparr>cm_heap := h\<rparr>)) (\<lambda>c1.
       if \<not> ok then reject_request x r ''engine_rejection'' c1
       else schedule_engine_step eid
         (add_trace (lifecycle_event x ''RequestScheduled'' ''I'' (el_time (cm_loop c1)) rid
            [(''request_id'', PStr rid), (''target_engine'', PStr eid), (''placement_reason'', PStr (pd_reason d)),
             (''estimated_latency'', PNone)]) (record_placement_decision d c1)))))"

definition handle_placement_decision :: "externals \<Rightarrow> event \<Rightarrow> cluster \<Rightarrow> cluster res" where
  "handle_placement_decision x ev c =
     rbind (data_str ev ''request_id'') (\<lambda>rid.
       case map_of (cm_active c) rid of
         None \<Rightarrow> Inr c
       | Some r \<Rightarrow>
           rbind (place_request (x_rnd x) (x_estimate x) (cm_scheduler c) (cm_heap c r) (available_engines c))
             (\<lambda>(d, s, es).
             let c1 = c\<lparr>cm_scheduler := s, cm_engines := fold (\<lambda>e. dict_set (se_id e) e) es (cm_engines c)\<rparr> in
             case d of
               None \<Rightarrow> reject_request x r ''no_suitable_engine'' c1
             | Some p \<Rightarrow>
                 (case pd_target p of
                    None \<Rightarrow> Inl (AttributeError ''add_request'')
                  | Some eid \<Rightarrow> place_on x r rid p eid c1)))"

definition handle_request_complete :: "externals \<Rightarrow> event \<Rightarrow> cluster \<Rightarrow> cluster res" where
  "handle_request_complete x ev c =
     rbind (data_str ev ''request_id'') (\<lambda>rid.
       case map_of (cm_active c) rid of
         None \<Rightarrow> Inr c
       | Some r \<Rightarrow>
           let q = set_generation_finished_at (ev_timestamp ev) (cm_heap c r); m = cm_metrics c
           in Inr (add_trace (lifecycle_event x ''RequestComplete'' ''E'' (ev_timestamp ev) rid
                [(''request_id'', PStr rid), (''total_time'', PFloat (ev_timestamp ev - arrive_at q)),
                 (''tokens_generated'', PInt (generated_tokens q))])
              (c\<lparr>cm_heap := (cm_heap c)(r := q), cm_completed := cm_completed c @ [r],
                 cm_active := dict_del rid (cm_active c),
                 cm_metrics := m\<lparr>mt_completed_requests := mt_completed_requests m + 1\<rparr>\<rparr>)))"

definition handle_node_online :: "event \<Rightarrow> cluster \<Rightarrow> cluster res" where
  "handle_node_online ev c =
     rbind (data_str ev ''node_id'') (\<lambda>nid.
       if nid \<in> set (cm_offline c)
       then let m = cm_metrics c
            in Inr (c\<lparr>cm_offline := removeAll nid (cm_offline c), cm_online := set_add nid (cm_online c),
                 cm_metrics := m\<lparr>mt_node_recoveries := mt_node_recoveries m + 1\<rparr>\<rparr>)
       else Inr c)"

definition rebalance_requests :: "string option \<Rightarrow> cluster \<Rightarrow> cluster res" where
  "rebalance_requests failed c =
     (case failed of
        None \<Rightarrow> Inr c
      | Some nid \<Rightarrow>
          if nid = [] then Inr c
          else case map_of (cm_engines c) nid of
            None \<Rightarrow> Inr c
          | Some e \<Rightarrow>
              for_res (\<lambda>r c. schedule (placement_event (el_time (cm_loop c)) (req_id (cm_heap c r))) c)
                (se_request_queue e) (c\<lparr>cm_engines := dict_set nid (e\<lparr>se_request_queue := []\<rparr>) (cm_engines c)\<rparr>))"

definition handle_node_offline :: "event \<Rightarrow> cluster \<Rightarrow> cluster res" where
  "handle_node_offline ev c =
     rbind (data_str ev ''node_id'') (\<lambda>nid.
       if nid \<in> set (cm_online c)
       then let m = cm_metrics c
            in rebalance_requests (Some nid)
                 (c\<lparr>cm_online := removeAll nid (cm_online c), cm_offline := set_add nid (cm_offline c),
                    cm_metrics := m\<lparr>mt_node_failures := mt_node_failures m + 1\<rparr>\<rparr>)
       else Inr c)"

definition handle_load_balance :: "event \<Rightarrow> cluster \<Rightarrow> cluster res" where
  "handle_load_balance ev c = rebalance_requests None c"

text \<open>An event of an engine is not scheduled in the past.\<close>

definition schedule_absolute :: "event \<Rightarrow> cluster \<Rightarrow> cluster res" where
  "schedule_absolute ev c =
     schedule (if ev_timestamp ev < el_time (cm_loop c) then ev\<lparr>ev_timestamp := el_time (cm_loop c)\<rparr> else ev) c"

definition handle_batch_form :: "externals \<Rightarrow> event \<Rightarrow> cluster \<Rightarrow> cluster res" where
  "handle_batch_form x ev c =
     (let eid = ev_target ev in
      case map_of (cm_engines c) eid of
        None \<Rightarrow> Inr c
      | Some e \<Rightarrow>
          rbind (engine_step (x_iter x) (Some (el_time (cm_loop c))) (cm_heap c) e) (\<lambda>(evs, h, e').
          rbind (store_engine eid e' (c\<lparr>cm_heap := h\<rparr>)) (\<lambda>c1.
          rbind (for_res schedule_absolute evs c1) (\<lambda>c2.
            if \<not> has_pending_work e' then Inr c2
            else let now = el_time (cm_loop c2);
                     t = max (se_time_cursor e') now;
                     next_step_time = (if t \<le> now then now + 1 / 1000000 else t)
                 in schedule (step_event next_step_time eid) c2))))"

definition handle :: "externals \<Rightarrow> handler \<Rightarrow> event \<Rightarrow> cluster \<Rightarrow> cluster res" where
  "handle x h ev c =
     (case h of
        H_request_arrival \<Rightarrow> handle_request_arrival x ev c
      | H_placement_decision \<Rightarrow> handle_placement_decision x ev c
      | H_node_online \<Rightarrow> handle_node_online ev c
      | H_node_offline \<Rightarrow> handle_node_offline ev c
      | H_request_complete \<Rightarrow> handle_request_complete x ev c
      | H_load_balance \<Rightarrow> handle_load_balance ev c
      | H_batch_form \<Rightarrow> handle_batch_form x ev c
      | H_prefill_start \<Rightarrow> Inr c
      | H_prefill_complete \<Rightarrow> Inr c
      | H_decode_step \<Rightarrow> Inr c
      | H_memory_check \<Rightarrow> Inr c
      | H_model_load \<Rightarrow> Inr c
      | H_model_unload \<Rightarrow> Inr c)"

section \<open>Metrics\<close>

text \<open>\<open>get_memory_info\<close> refreshes each engine it is asked of.\<close>

definition cluster_utilization :: "cluster \<Rightarrow> pyfloat" where
  "cluster_utilization c =
     (let total_gpu_memory = sum_list (map (\<lambda>p. hw_vmemory (se_spec (snd p))) (cm_engines c));
          used_memory = sum_list (map (\<lambda>p. mi_used (fst (get_memory_info (snd p)))) (cm_engines c))
      in if 0 < total_gpu_memory then used_memory / total_gpu_memory else 0)"

definition latencies :: "cluster \<Rightarrow> pyfloat list" where
  "latencies c = [t - arrive_at q. q \<leftarrow> map (cm_heap c) (cm_completed c),
     t \<leftarrow> (case generation_finished_at q of None \<Rightarrow> [] | Some t \<Rightarrow> [t])]"

definition average_latency :: "cluster \<Rightarrow> pyfloat" where
  "average_latency c =
     (if cm_completed c = [] then mt_average_latency (cm_metrics c)
      else if latencies c = [] then 0 else sum_list (latencies c) / of_nat (length (latencies c)))"

definition cluster_throughput :: "cluster \<Rightarrow> pyfloat" where
  "cluster_throughput c =
     (let elapsed_time = el_time (cm_loop c) - cm_start_time c
      in if 0 < elapsed_time then of_nat (length (cm_completed c)) / elapsed_time
         else mt_throughput (cm_metrics c))"

definition update_metrics :: "cluster \<Rightarrow> cluster" where
  "update_metrics c =
     (let now = el_time (cm_loop c); m = cm_metrics c in
      if now - cm_last_metrics_update c < cm_metrics_interval c then c
      else c\<lparr>cm_engines := map (\<lambda>p. (fst p, snd (get_memory_info (snd p)))) (cm_engines c),
             cm_metrics := m\<lparr>mt_cluster_utilization := cluster_utilization c,
               mt_average_latency := average_latency c, mt_throughput := cluster_throughput c\<rparr>,
             cm_last_metrics_update := now\<rparr>)"

section \<open>Running a simulation\<close>

text \<open>\<open>x_randint x k low high\<close> is the \<open>k\<close>-th draw of \<open>np.random.randint\<close>.\<close>

definition arrival_event :: "pyfloat \<Rightarrow> string \<Rightarrow> string \<Rightarrow> int \<Rightarrow> int \<Rightarrow> event" where
  "arrival_event t rid model inp outp = \<lparr>ev_timestamp = t, ev_type = REQUEST_ARRIVAL,
     ev_target = ''cluster_manager'',
     ev_data = [(''request_id'', PStr rid), (''model'', PStr model), (''input_length'', PInt inp),
       (''output_length'', PInt outp)],
     ev_priority = MEDIUM\<rparr>"

definition request_name :: "nat \<Rightarrow> string" where
  "request_name n = ''req_'' @ str_nat n"

definition schedule_arrival :: "externals \<Rightarrow> pyfloat \<Rightarrow> pyfloat \<times> cluster \<Rightarrow> (pyfloat \<times> cluster) res" where
  "schedule_arrival x t s = (case s of (max_arrival_time, c) \<Rightarrow>
     (let n = cm_counter c + 1; c1 = c\<lparr>cm_counter := n\<rparr>;
          inp = x_randint x (2 * cm_counter c) 128 2048; outp = x_randint x (2 * cm_counter c + 1) 32 512 in
      rbind (py_nth (cc_nodes (cm_config c)) 0) (\<lambda>node.
      rbind (schedule (arrival_event t (request_name n) (nc_model_id node) inp outp) c1) (\<lambda>c2.
        Inr (max max_arrival_time t, c2)))))"

text \<open>Subclasses override this method; its result may be \<open>None\<close> there.\<close>

type_synonym arrival_scheduler = "pyfloat option \<Rightarrow> cluster \<Rightarrow> (pyfloat option \<times> cluster) res option"

definition schedule_request_arrivals :: "externals \<Rightarrow> arrival_scheduler" where
  "schedule_request_arrivals x duration c =
     (case duration of
        None \<Rightarrow> Some (Inl (ValueError ''Duration must be provided for base ClusterManager''))
      | Some d \<Rightarrow>
          map_option (\<lambda>arrival_times.
            rbind arrival_times (\<lambda>ts.
            rbind (for_res (schedule_arrival x) ts (0, c)) (\<lambda>(max_arrival_time, c').
              Inr (Some (max d max_arrival_time), c'))))
            (generate_arrivals (x_draw x) (cm_arrival c) (cm_start_time c) d 0))"

definition node_event :: "event_type \<Rightarrow> pyfloat \<Rightarrow> string \<Rightarrow> event" where
  "node_event ty t nid = \<lparr>ev_timestamp = t, ev_type = ty, ev_target = ''cluster_manager'',
     ev_data = [(''node_id'', PStr nid)], ev_priority = HIGHEST\<rparr>"

definition simulate_node_failure :: "string \<Rightarrow> pyfloat \<Rightarrow> pyfloat \<Rightarrow> cluster \<Rightarrow> cluster res" where
  "simulate_node_failure nid failure_time recovery_time c =
     rbind (schedule (node_event NODE_OFFLINE failure_time nid) c)
       (schedule (node_event NODE_ONLINE recovery_time nid))"

definition balance_event :: "pyfloat \<Rightarrow> event" where
  "balance_event t = \<lparr>ev_timestamp = t, ev_type = LOAD_BALANCE, ev_target = ''cluster_manager'',
     ev_data = [], ev_priority = LOW\<rparr>"

function schedule_balancing :: "pyfloat \<Rightarrow> pyfloat \<Rightarrow> cluster \<Rightarrow> cluster res" where
  "schedule_balancing current_balance_time sim_duration c =
     (if current_balance_time < sim_duration
      then rbind (schedule (balance_event current_balance_time) c)
        (schedule_balancing (current_balance_time + 10) sim_duration)
      else Inr c)"
  by pat_completeness auto
termination
proof (relation "measure (\<lambda>(t, d, c). nat \<lceil>(d - t) / 10\<rceil>)")
  fix t d :: pyfloat and c x :: cluster
  assume "t < d"
  have "\<lceil>(d - (t + 10)) / 10\<rceil> = \<lceil>(d - t) / 10\<rceil> - 1" by (simp add: field_simps ceiling_diff_one [symmetric])
  moreover have "0 < \<lceil>(d - t) / 10\<rceil>" using \<open>t < d\<close> by simp
  ultimately show "((t + 10, d, x), (t, d, c)) \<in> measure (\<lambda>(t, d, c). nat \<lceil>(d - t) / 10\<rceil>)" by simp
qed simp

declare schedule_balancing.simps [simp del]

definition run_loop :: "externals \<Rightarrow> pyfloat option \<Rightarrow> int option \<Rightarrow> cluster \<Rightarrow> cluster res option" where
  "run_loop x = loop_run cm_loop (\<lambda>l c. c\<lparr>cm_loop := l\<rparr>) (handle x)"

text \<open>The method is called through \<open>self\<close>, so it is an argument. Formatting a duration that is
  \<open>None\<close> raises.\<close>

definition effective_duration :: "pyfloat option \<Rightarrow> pyfloat option \<Rightarrow> pyfloat res" where
  "effective_duration duration max_arrival_time =
     (case duration of
        Some d \<Rightarrow> Inr d
      | None \<Rightarrow> (case max_arrival_time of Some t \<Rightarrow> Inr t
                  | None \<Rightarrow> Inl (TypeError ''unsupported format string passed to NoneType.__format__'')))"

definition prepare_run :: "arrival_scheduler \<Rightarrow> pyfloat option \<Rightarrow> bool \<Rightarrow> cluster \<Rightarrow> (pyfloat \<times> cluster) res option" where
  "prepare_run arrivals duration enable_failures c =
     map_option (\<lambda>r. rbind r (\<lambda>(max_arrival_time, c1).
         rbind (effective_duration duration max_arrival_time) (\<lambda>sim_duration.
         rbind (schedule_balancing 10 sim_duration c1) (\<lambda>c2.
         rbind (if enable_failures \<and> 1 < length (cc_nodes (cm_config c2))
                then rbind (py_nth (cc_nodes (cm_config c2)) 0) (\<lambda>node.
                  simulate_node_failure (nc_node_id node) (sim_duration * (3 / 10)) (sim_duration * (5 / 10)) c2)
                else Inr c2) (\<lambda>c3.
           Inr (if sim_duration * 10 = 0 then 3600 else sim_duration * 10, c3))))))
       (arrivals duration (c\<lparr>cm_start_time := 0, cm_current_time := 0\<rparr>))"

definition run_with :: "arrival_scheduler \<Rightarrow> externals \<Rightarrow> pyfloat option \<Rightarrow> bool \<Rightarrow> cluster \<Rightarrow> cluster res option" where
  "run_with arrivals x duration enable_failures c =
     Option.bind (prepare_run arrivals duration enable_failures c) (\<lambda>r.
       case r of
         Inl e \<Rightarrow> Some (Inl e)
       | Inr (extended_time, c1) \<Rightarrow>
           map_option (\<lambda>r. rbind r (\<lambda>c2.
               Inr (update_metrics (c2\<lparr>cm_current_time := el_time (cm_loop c2)\<rparr>))))
             (run_loop x (Some extended_time) (Some 10000000) c1))"

definition run_simulation :: "externals \<Rightarrow> pyfloat option \<Rightarrow> bool \<Rightarrow> cluster \<Rightarrow> cluster res option" where
  "run_simulation x = run_with (schedule_request_arrivals x) x"

section \<open>Results\<close>

record cluster_results =
  cr_cluster_id :: string
  cr_scheduler :: string
  cr_num_nodes :: nat
  cr_metrics :: metrics
  cr_engines :: "engine_report pydict"
  cr_completed :: "pyval pydict list"
  cr_trace :: "trace_event list"
  cr_loop_stats :: loop_statistics
  cr_scheduler_stats :: sched_stats

definition update_engine_timing :: "pyfloat \<Rightarrow> cluster \<Rightarrow> cluster" where
  "update_engine_timing t c = c\<lparr>cm_engines := map (\<lambda>p. (fst p, set_current_time t (snd p))) (cm_engines c)\<rparr>"

definition get_results :: "cluster \<Rightarrow> cluster_results \<times> cluster" where
  "get_results c0 =
     (let c = update_engine_timing (el_time (cm_loop c0)) c0;
          stats = map (\<lambda>p. (fst p, engine_get_statistics (snd p))) (cm_engines c);
          reports = map (\<lambda>p. (fst p, fst (snd p))) stats
      in (\<lparr>cr_cluster_id = cc_cluster_id (cm_config c), cr_scheduler = cc_scheduler_algorithm (cm_config c),
           cr_num_nodes = length (cc_nodes (cm_config c)), cr_metrics = cm_metrics c, cr_engines = reports,
           cr_completed = map (\<lambda>r. request_to_dict (cm_heap c r)) (cm_completed c),
           cr_trace = cm_trace c @ concat (map (\<lambda>p. er_trace (snd p)) reports),
           cr_loop_stats = loop_get_statistics (cm_loop c),
           cr_scheduler_stats = sched_get_statistics (cm_scheduler c)\<rparr>,
          c\<lparr>cm_engines := map (\<lambda>p. (fst p, snd (snd p))) stats\<rparr>))"

end
