(* ===== verification/Sim_Cluster_Inv.thy ===== *)
theory Sim_Cluster_Inv
  imports Sim_Cluster
begin

text \<open>
  Correctness of the cluster manager. The first part collects what an engine call leaves alone and
  which events it emits; the second interprets the interface \<open>loop_host\<close> of the event loop on the
  cluster; the third relates the cluster to an abstract ledger of requests.
\<close>

section \<open>What an engine call emits\<close>

text \<open>The attributes a call keeps, and the types of the events it emits.\<close>

definition emitted :: "event_type \<Rightarrow> bool" where
  "emitted ty \<longleftrightarrow> ty \<in> {MODEL_LOAD, MODEL_UNLOAD, PREFILL_START, PREFILL_COMPLETE}"

definition quiet :: "serving_engine \<Rightarrow> serving_engine \<Rightarrow> bool" where
  "quiet e e' \<longleftrightarrow> se_id e' = se_id e \<and> se_request_queue e' = se_request_queue e \<and>
     (\<forall>ev \<in> set (se_outbox e'). ev \<in> set (se_outbox e) \<or> emitted (ev_type ev))"

lemma quiet_refl [simp, intro]: "quiet e e"
  by (simp add: quiet_def)

lemma quiet_trans [trans]: "quiet e e' \<Longrightarrow> quiet e' e'' \<Longrightarrow> quiet e e''"
  by (auto simp: quiet_def)

lemma quiet_same: "se_id e' = se_id e \<Longrightarrow> se_request_queue e' = se_request_queue e \<Longrightarrow>
    se_outbox e' = se_outbox e \<Longrightarrow> quiet e e'"
  by (simp add: quiet_def)

lemma quiet_call_back: "emitted (ev_type ev) \<Longrightarrow> quiet e (call_back ev e)"
  by (auto simp: quiet_def call_back_def)

lemma refresh_quiet [simp]: "quiet e (refresh_memory_usage e')  = quiet e e'"
  by (simp add: quiet_def refresh_memory_usage_def Let_def split: prod.splits)

lemma load_model_quiet: "quiet e (snd (load_model e))"
proof -
  have "quiet (e\<lparr>se_model_memory := m, se_model_loaded := True\<rparr>) e'" if "quiet e e'" for m e'
    using that by (simp add: quiet_def)
  moreover have "quiet e (e\<lparr>se_model_memory := m, se_model_loaded := True\<rparr>)" for m
    by (simp add: quiet_def)
  ultimately show ?thesis
    unfolding load_model_def Let_def emit_event_def
    by (auto intro!: quiet_trans [OF _ quiet_call_back] simp: emitted_def)
qed

lemma can_accommodate_quiet: "can_accommodate_request m q e = Inr (ok, e') \<Longrightarrow> quiet e e'"
  using can_accommodate_frame(1) load_model_quiet by metis

lemma add_request_quiet:
  assumes "add_request r h e = Inr (ok, h', e')"
  shows "quiet e e'" and "\<And>k. req_id (h' k) = req_id (h k)"
proof -
  obtain e1 where e1: "can_accommodate_request default_margin (h r) e = Inr (ok, e1)"
    using assms by (auto simp: add_request_def res_simps Let_def split: prod.splits if_splits)
  have q: "quiet e e1" using can_accommodate_quiet [OF e1] .
  have "quiet e1 e'" if acc: ok
  proof -
    obtain p where "e' = (refresh_memory_usage (e1\<lparr>se_planner := p\<rparr>))\<lparr>se_prefill_queue := se_prefill_queue e1 @ [r]\<rparr>"
      using assms e1 acc by (auto simp: add_request_def res_simps Let_def)
    then show ?thesis by (auto simp: quiet_def)
  qed
  moreover have "e' = e1" if "\<not> ok" using assms e1 that by (simp add: add_request_def)
  ultimately show "quiet e e'" using q quiet_trans by blast
  show "req_id (h' k) = req_id (h k)" for k
    using assms e1 by (auto simp: add_request_def res_simps Let_def split: if_splits)
qed


lemma quiet_fields [simp]:
  "quiet e (e'\<lparr>se_planner := p\<rparr>) = quiet e e'" "quiet e (e'\<lparr>se_active := as\<rparr>) = quiet e e'"
  "quiet e (e'\<lparr>se_prefill_queue := ps\<rparr>) = quiet e e'" "quiet e (e'\<lparr>se_current_prefill := cp\<rparr>) = quiet e e'"
  "quiet e (e'\<lparr>se_decode_ready := dr\<rparr>) = quiet e e'" "quiet e (e'\<lparr>se_batch := b\<rparr>) = quiet e e'"
  "quiet e (e'\<lparr>se_stats := st\<rparr>) = quiet e e'" "quiet e (e'\<lparr>se_trace := tr\<rparr>) = quiet e e'"
  "quiet e (e'\<lparr>se_time_cursor := tc\<rparr>) = quiet e e'" "quiet e (e'\<lparr>se_current_time := ct\<rparr>) = quiet e e'"
  "quiet e (e'\<lparr>se_completed := cs\<rparr>) = quiet e e'" "quiet e (e'\<lparr>se_batch_counter := bc\<rparr>) = quiet e e'"
  "quiet (e\<lparr>se_prefill_queue := ps\<rparr>) e' = quiet e e'"
  by (simp_all add: quiet_def)

lemma snapshot_quiet [simp]: "quiet e (snd (get_memory_snapshot e')) = quiet e e'"
  by (simp add: quiet_def)

lemma call_back_quiet: "quiet e (call_back ev e')" if "quiet e e'" "emitted (ev_type ev)"
  using that quiet_call_back quiet_trans by blast

lemma start_next_prefill_quiet:
  assumes "start_next_prefill h e = Inr (h', e')"
  shows "quiet e e'" and "\<And>k. req_id (h' k) = req_id (h k)"
  using assms
  by (auto simp: start_next_prefill_def res_simps Let_def req_prefill_def emitted_def
      dest!: can_accommodate_quiet intro!: call_back_quiet split: list.splits if_splits)

lemma process_prefill_quiet:
  assumes "process_individual_prefill h e = Inr (b, h', e')"
  shows "quiet e e'" and "\<And>k. req_id (h' k) = req_id (h k)"
  using assms
  by (auto simp: process_individual_prefill_def res_simps Let_def set_prefill_finished_at_def emitted_def
      case_prod_beta intro!: call_back_quiet split: option.splits)

lemma prefill_phase_quiet:
  assumes "prefill_phase h e = Inr (h', e')"
  shows "quiet e e'" and "\<And>k. req_id (h' k) = req_id (h k)"
proof -
  obtain h1 e1 where a: "(if se_current_prefill e = None \<and> se_prefill_queue e \<noteq> [] then start_next_prefill h e
            else Inr (h, e)) = Inr (h1, e1)"
    and b: "(case se_current_prefill e1 of
         None \<Rightarrow> Inr (h1, e1)
       | Some r \<Rightarrow>
           rbind (process_individual_prefill h1 e1) (\<lambda>(complete, h2, e2).
             if complete
             then Inr (h2, e2\<lparr>se_decode_ready := set_add r (se_decode_ready e2), se_current_prefill := None\<rparr>)
             else Inr (h2, e2))) = Inr (h', e')"
    using assms by (auto simp: prefill_phase_def res_simps)
  have "quiet e e1" and i: "\<And>k. req_id (h1 k) = req_id (h k)"
    using a start_next_prefill_quiet by (auto split: if_splits)
  moreover have "quiet e1 e'" and "\<And>k. req_id (h' k) = req_id (h1 k)"
    using b process_prefill_quiet by (auto simp: res_simps split: option.splits if_splits)
  ultimately show "quiet e e'" and "\<And>k. req_id (h' k) = req_id (h k)" using quiet_trans by (blast, simp)
qed

lemma batch_phase_quiet: "batch_phase iter e = Inr e' \<Longrightarrow> quiet e e'"
  by (auto simp: batch_phase_def form_decode_batch_def add_to_decode_batch_def res_simps Let_def
      split: if_splits option.splits)

lemma decode_ids:
  assumes "for_res decode_one rs (h, p, cs) = Inr (h', p', cs')"
  shows "req_id (h' k) = req_id (h k)"
  using assms
proof (induction rs arbitrary: h p cs)
  case (Cons r rs)
  then obtain h1 p1 cs1 where one: "decode_one r (h, p, cs) = Inr (h1, p1, cs1)"
    and rest: "for_res decode_one rs (h1, p1, cs1) = Inr (h', p', cs')"
    by (auto simp: res_simps)
  have "h1 = h(r := snd (req_decode (h r)))"
    using one by (auto simp: decode_one_def res_simps Let_def case_prod_beta)
  then have "req_id (h1 k) = req_id (h k)" using req_decode_frame(1) [of "h r"] by simp
  with Cons.IH [OF rest] show ?case by simp
qed simp

lemma complete_one_quiet: "for_res complete_one cs e = Inr e' \<Longrightarrow> quiet e e'"
  by (rule for_res_invariant [of complete_one cs e e' "quiet e"]) (auto simp: complete_one_def res_simps)

lemma decode_batch_quiet:
  assumes "process_decode_batch h e = Inr (evs, h', e')"
  shows "quiet e e'" and "\<And>k. req_id (h' k) = req_id (h k)"
    and "\<And>ev. ev \<in> set evs \<Longrightarrow> ev_type ev = REQUEST_COMPLETE"
proof -
  show "\<And>ev. ev \<in> set evs \<Longrightarrow> ev_type ev = REQUEST_COMPLETE" and "\<And>k. req_id (h' k) = req_id (h k)"
    using assms decode_ids
    by (auto simp: process_decode_batch_def res_simps Let_def completion_event_def split: option.splits)
  show "quiet e e'"
    using assms
    by (auto simp: process_decode_batch_def res_simps Let_def case_prod_beta split: option.splits if_splits
        dest!: complete_one_quiet intro: quiet_trans [rotated])
qed

lemma decode_phase_quiet:
  assumes "decode_phase h e = Inr (evs, h', e')"
  shows "quiet e e'" and "\<And>k. req_id (h' k) = req_id (h k)"
    and "\<And>ev. ev \<in> set evs \<Longrightarrow> ev_type ev = REQUEST_COMPLETE"
proof -
  obtain e1 where one: "(case se_batch e of
              None \<Rightarrow> Inr ([], h, e)
            | Some b \<Rightarrow> if batch_is_empty b then Inr ([], h, e) else process_decode_batch h e) = Inr (evs, h', e1)"
    and e': "e' = drop_empty_batch e1"
    using assms by (auto simp: decode_phase_def rbind_eq_Inr)
  have "(evs, h', e1) = ([], h, e) \<or> process_decode_batch h e = Inr (evs, h', e1)"
    using one by (auto split: option.splits if_splits)
  then have "quiet e e1 \<and> (\<forall>k. req_id (h' k) = req_id (h k)) \<and> (\<forall>ev \<in> set evs. ev_type ev = REQUEST_COMPLETE)"
    using decode_batch_quiet [of h e evs h' e1] by auto
  moreover have "quiet e e1 \<Longrightarrow> quiet e e'"
    by (auto simp: e' drop_empty_batch_def split: option.split)
  ultimately show "quiet e e'" and "\<And>k. req_id (h' k) = req_id (h k)"
    and "\<And>ev. ev \<in> set evs \<Longrightarrow> ev_type ev = REQUEST_COMPLETE" by blast+
qed

lemma engine_step_quiet:
  assumes "engine_step iter t h e = Inr (evs, h', e')"
  shows "quiet e e'" and "\<And>k. req_id (h' k) = req_id (h k)"
    and "\<And>ev. ev \<in> set evs \<Longrightarrow> ev_type ev = REQUEST_COMPLETE"
proof -
  let ?e = "case t of None \<Rightarrow> e | Some t \<Rightarrow> set_current_time t e"
  obtain h1 e1 e2 where p: "prefill_phase h ?e = Inr (h1, e1)" and b: "batch_phase iter e1 = Inr e2"
    and d: "decode_phase h1 e2 = Inr (evs, h', e')"
    using assms by (auto simp: engine_step_def res_simps)
  have "quiet e ?e" by (auto simp: quiet_def split: option.splits)
  also have "quiet ?e e1" by (rule prefill_phase_quiet(1) [OF p])
  also have "quiet e1 e2" by (rule batch_phase_quiet [OF b])
  also have "quiet e2 e'" by (rule decode_phase_quiet(1) [OF d])
  finally show "quiet e e'" .
  show "req_id (h' k) = req_id (h k)" for k
    using decode_phase_quiet(2) [OF d] prefill_phase_quiet(2) [OF p] by simp
  show "ev_type ev = REQUEST_COMPLETE" if "ev \<in> set evs" for ev
    using decode_phase_quiet(3) [OF d that] .
qed

section \<open>What a placement decision touches\<close>

text \<open>Scheduling only reads the engines, but reading the memory refreshes it.\<close>

definition still :: "serving_engine \<Rightarrow> serving_engine \<Rightarrow> bool" where
  "still e e' \<longleftrightarrow> se_id e' = se_id e \<and> se_request_queue e' = se_request_queue e \<and> se_outbox e' = se_outbox e"

lemma still_refl [simp, intro]: "still e e"
  by (simp add: still_def)

lemma still_trans [trans]: "still e e' \<Longrightarrow> still e' e'' \<Longrightarrow> still e e''"
  by (simp add: still_def)

lemma memory_info_still [simp]: "still e (snd (get_memory_info e')) = still e e'"
  by (simp add: still_def)

lemma pick_loop_mem:
  "pick_loop score es bs bl b = Inr (Some e) \<Longrightarrow> b = Some e \<or> e \<in> set es"
  by (induction score es bs bl b rule: pick_loop.induct) (auto simp: res_simps Let_def split: if_splits)

lemma pick_best_mem: "pick_best score es = Inr (Some e) \<Longrightarrow> e \<in> set es"
  using pick_loop_mem by (fastforce simp: pick_best_def)

lemma oracle_loop_mem:
  "oracle_loop time es bt bl b = Inr (Some e, t) \<Longrightarrow> b = Some e \<or> e \<in> set es"
proof (induction es arbitrary: bt bl b)
  case (Cons x es)
  then obtain tx where "time x = Inr tx"
    and "oracle_loop time es (Some tx) (Some (get_current_load x)) (Some x) = Inr (Some e, t) \<or>
      oracle_loop time es bt bl b = Inr (Some e, t)"
    by (auto simp: res_simps Let_def split: if_splits)
  then show ?case using Cons.IH by fastforce
qed simp

lemma oracle_start_mem: "oracle_loop time es None None None = Inr (Some e, t) \<Longrightarrow> e \<in> set es"
  using oracle_loop_mem by fastforce

lemma max_pair_acc_mem: "max_pair_acc key b es \<in> insert b (set es)"
  by (induction es arbitrary: b) (auto split: if_splits)

lemma py_nth_mem: "py_nth xs i = Inr x \<Longrightarrow> x \<in> set xs"
  by (auto simp: py_nth_def split: if_splits)

lemma risk_filter_still:
  "risk_filter estimate b r es = Inr xs \<Longrightarrow> list_all2 still es (map fst xs)"
proof (induction es arbitrary: xs)
  case (Cons e es)
  then show ?case
    by (auto simp: res_simps Let_def case_prod_beta split: if_splits)
qed simp

lemma risk_loop_still:
  assumes "risk_loop estimate r final xs bs b = Inr (best, es')"
  shows "list_all2 still (map fst xs) es'"
    and "\<And>t. best = Some t \<Longrightarrow> b = Some t \<or> se_id t \<in> se_id ` fst ` set xs"
proof -
  have "list_all2 still (map fst xs) es' \<and>
      (\<forall>t. best = Some t \<longrightarrow> b = Some t \<or> se_id t \<in> se_id ` fst ` set xs)"
    using assms
  proof (induction xs arbitrary: bs b es')
    case (Cons p xs)
    obtain e ok where p: "p = (e, ok)" by force
    obtain bs1 b1 es1 e1 where "risk_loop estimate r final xs bs1 b1 = Inr (best, es1)" "es' = e1 # es1"
      "still e e1" "b1 = b \<or> b1 = Some e1"
      using Cons.prems
      by (auto simp: p res_simps Let_def case_prod_beta split: if_splits)
    then show ?case using Cons.IH [of bs1 b1 es1] by (auto simp: p still_def)
  qed simp
  then show "list_all2 still (map fst xs) es'"
    and "\<And>t. best = Some t \<Longrightarrow> b = Some t \<or> se_id t \<in> se_id ` fst ` set xs" by blast+
qed

lemma list_all2_still_trans:
  "list_all2 still es fs \<Longrightarrow> list_all2 still fs gs \<Longrightarrow> list_all2 still es gs"
  by (erule (1) list_all2_trans [rotated]) (rule still_trans)

lemma list_all2_still_ids: "list_all2 still es fs \<Longrightarrow> map se_id fs = map se_id es"
  by (induction rule: list_all2_induct) (simp_all add: still_def)

lemma risk_place_still:
  assumes "risk_place estimate hi b r es = Inr (d, es')"
  shows "list_all2 still es es'"
    and "\<And>p t. d = Some p \<Longrightarrow> pd_target p = Some t \<Longrightarrow> t \<in> se_id ` set es"
proof -
  obtain xs where xs: "risk_filter estimate b r es = Inr xs" using assms by (auto simp: risk_place_def res_simps)
  note q = risk_filter_still [OF xs]
  have ids: "se_id ` fst ` set xs = se_id ` set es"
    using list_all2_still_ids [OF q] by (metis (no_types) image_set)
  have "list_all2 still es es' \<and> (\<forall>p t. d = Some p \<longrightarrow> pd_target p = Some t \<longrightarrow> t \<in> se_id ` set es)"
  proof (cases "\<exists>x \<in> set xs. snd x")
    case True
    then obtain fin best where l: "risk_loop estimate r fin xs None None = Inr (best, es')"
      and d: "case best of None \<Rightarrow> d = None
        | Some e \<Rightarrow> d = Some (decide (Some e) (''risk_aware_tier'' @ str_nat (get_tier e)) (9 / 10))"
      using assms unfolding risk_place_def xs rbind_Inr Let_def rbind_eq_Inr
      by (auto simp: rbind_eq_Inr simp del: append_Cons append.simps split: option.splits)
    have "list_all2 still es es'" using risk_loop_still(1) [OF l] list_all2_still_trans [OF q] by blast
    moreover have "t \<in> se_id ` set es" if "d = Some p" "pd_target p = Some t" for p t
      using risk_loop_still(2) [OF l] d that ids by (auto simp: decide_def split: option.splits)
    ultimately show ?thesis by blast
  next
    case False
    then show ?thesis using assms q by (auto simp: risk_place_def xs)
  qed
  then show "list_all2 still es es'" and "\<And>p t. d = Some p \<Longrightarrow> pd_target p = Some t \<Longrightarrow> t \<in> se_id ` set es"
    by blast+
qed

lemma place_request_still:
  assumes "place_request rnd estimate s r es = Inr (d, s', es')"
  shows "list_all2 still es es'"
    and "\<And>p t. d = Some p \<Longrightarrow> pd_target p = Some t \<Longrightarrow> t \<in> se_id ` set es"
proof -
  have refl: "list_all2 still es es" by (simp add: list_all2_refl)
  have "list_all2 still es es' \<and> (\<forall>p t. d = Some p \<longrightarrow> pd_target p = Some t \<longrightarrow> t \<in> se_id ` set es)"
  proof (cases "es = []")
    case True
    then show ?thesis using assms by (auto simp: place_request_def)
  next
    case False
    then obtain k where c: "choose_place rnd estimate s r es = Inr (d, k, es')"
      using assms by (auto simp: place_request_def res_simps)
    have mx: "max_pair_acc key (hd es) (tl es) \<in> set es" for key
      using max_pair_acc_mem [of key "hd es" "tl es"] False by (cases es) auto
    show ?thesis
      using c refl mx
      by (cases "sc_kind s")
        (auto simp: place_defs res_simps Let_def decide_def
          dest: py_nth_mem risk_place_still dest!: pick_best_mem oracle_start_mem)
  qed
  then show "list_all2 still es es'" and "\<And>p t. d = Some p \<Longrightarrow> pd_target p = Some t \<Longrightarrow> t \<in> se_id ` set es"
    by blast+
qed

section \<open>Scheduling\<close>

text \<open>\<open>sends P c c'\<close>: the cluster only schedules events that satisfy \<open>P\<close>.\<close>

definition sends :: "(event \<Rightarrow> bool) \<Rightarrow> cluster \<Rightarrow> cluster \<Rightarrow> bool" where
  "sends P c c' \<longleftrightarrow> c' = c\<lparr>cm_loop := cm_loop c'\<rparr> \<and> loop_evolves (cm_loop c) (cm_loop c') \<and>
     (\<exists>new. mset (el_queue (cm_loop c')) = mset (el_queue (cm_loop c)) + mset new \<and> (\<forall>ev \<in> set new. P ev))"

lemma sends_refl [simp, intro]: "sends P c c"
  by (auto simp: sends_def intro!: exI [of _ "[]"])

lemma sends_trans [trans]:
  assumes "sends P c d" and "sends P d e"
  shows "sends P c e"
proof -
  obtain xs ys where new: "mset (el_queue (cm_loop d)) = mset (el_queue (cm_loop c)) + mset xs"
      "mset (el_queue (cm_loop e)) = mset (el_queue (cm_loop d)) + mset ys"
      "\<forall>ev \<in> set xs. P ev" "\<forall>ev \<in> set ys. P ev"
    using assms unfolding sends_def by blast
  have "e = c\<lparr>cm_loop := cm_loop e\<rparr>" using assms unfolding sends_def by (metis cluster.update_convs(3) cluster.surjective)
  moreover have "loop_evolves (cm_loop c) (cm_loop e)"
    using assms loop_evolves_trans unfolding sends_def by blast
  ultimately show ?thesis
    unfolding sends_def using new by (auto intro!: exI [of _ "xs @ ys"])
qed

lemma sends_evolves: "sends P c c' \<Longrightarrow> loop_evolves (cm_loop c) (cm_loop c')"
  by (simp add: sends_def)

lemma schedule_sends: "schedule ev c = Inr c' \<Longrightarrow> P ev \<Longrightarrow> sends P c c'"
  by (auto simp: schedule_def sends_def res_simps loop_evolves_def event_order.heap_push
      intro!: exI [of _ "[ev]"])

lemma for_sends:
  assumes "for_res body xs c = Inr c'" and "\<And>x c c'. x \<in> set xs \<Longrightarrow> body x c = Inr c' \<Longrightarrow> sends P c c'"
  shows "sends P c c'"
  by (rule for_res_invariant [OF assms(1), of "sends P c"]) (auto intro: sends_trans assms(2))

lemma store_engine_sends_any:
  assumes "store_engine eid e c = Inr c'"
  shows "sends (\<lambda>_. True) (c\<lparr>cm_engines := dict_set eid (e\<lparr>se_outbox := []\<rparr>) (cm_engines c)\<rparr>) c'"
proof -
  have "for_res handle_engine_event (se_outbox e) (c\<lparr>cm_engines := dict_set eid (e\<lparr>se_outbox := []\<rparr>) (cm_engines c)\<rparr>) = Inr c'"
    using assms by (simp add: store_engine_def)
  then show ?thesis by (rule for_sends) (auto simp: handle_engine_event_def intro: schedule_sends)
qed

lemma store_engine_sends:
  assumes "store_engine eid e c = Inr c'" and "\<And>ev. ev \<in> set (se_outbox e) \<Longrightarrow> emitted (ev_type ev)"
  shows "sends (\<lambda>ev. emitted (ev_type ev)) (c\<lparr>cm_engines := dict_set eid (e\<lparr>se_outbox := []\<rparr>) (cm_engines c)\<rparr>) c'"
proof -
  have "for_res handle_engine_event (se_outbox e) (c\<lparr>cm_engines := dict_set eid (e\<lparr>se_outbox := []\<rparr>) (cm_engines c)\<rparr>) = Inr c'"
    using assms(1) by (simp add: store_engine_def)
  then show ?thesis
    by (rule for_sends) (auto simp: handle_engine_event_def assms(2) intro: schedule_sends)
qed

lemma store_engine_evolves:
  "store_engine eid e c = Inr c' \<Longrightarrow> loop_evolves (cm_loop c) (cm_loop c')"
  using sends_evolves [OF store_engine_sends_any] by fastforce

lemma schedule_evolves: "schedule ev c = Inr c' \<Longrightarrow> loop_evolves (cm_loop c) (cm_loop c')"
  using schedule_sends [of ev c c' "\<lambda>_. True"] sends_evolves by blast

lemma reject_loop: "reject_request x r reason c = Inr c' \<Longrightarrow> cm_loop c' = cm_loop c"
  by (auto simp: reject_request_def res_simps Let_def add_trace_def)

lemma place_on_evolves:
  assumes "place_on x r rid d eid c = Inr c'"
  shows "loop_evolves (cm_loop c) (cm_loop c')"
proof -
  obtain ok h e' c1 where s: "store_engine eid e' (c\<lparr>cm_heap := h\<rparr>) = Inr c1"
    and rest: "(if \<not> ok then reject_request x r ''engine_rejection'' c1
       else schedule_engine_step eid
         (add_trace (lifecycle_event x ''RequestScheduled'' ''I'' (el_time (cm_loop c1)) rid
            [(''request_id'', PStr rid), (''target_engine'', PStr eid), (''placement_reason'', PStr (pd_reason d)),
             (''estimated_latency'', PNone)]) (record_placement_decision d c1))) = Inr c'"
    using assms unfolding place_on_def by (auto simp: rbind_eq_Inr)
  have "loop_evolves (cm_loop c1) (cm_loop c')"
    using rest by (auto simp: schedule_engine_step_def add_trace_def record_placement_decision_def Let_def
        dest: reject_loop dest!: schedule_evolves split: if_splits)
  then show ?thesis using store_engine_evolves [OF s] loop_evolves_trans by fastforce
qed

lemma handle_batch_evolves:
  assumes "handle_batch_form x ev c = Inr c'"
  shows "loop_evolves (cm_loop c) (cm_loop c')"
proof (cases "map_of (cm_engines c) (ev_target ev)")
  case None
  then show ?thesis using assms by (simp add: handle_batch_form_def)
next
  case (Some e)
  with assms obtain evs h e' c1 c2 where
      s: "store_engine (ev_target ev) e' (c\<lparr>cm_heap := h\<rparr>) = Inr c1"
    and f: "for_res schedule_absolute evs c1 = Inr c2"
    and rest: "(if \<not> has_pending_work e' then Inr c2
            else let now = el_time (cm_loop c2);
                     t = max (se_time_cursor e') now;
                     next_step_time = (if t \<le> now then now + 1 / 1000000 else t)
                 in schedule (step_event next_step_time (ev_target ev)) c2) = Inr c'"
    by (auto simp: handle_batch_form_def rbind_eq_Inr Let_def [of "ev_target ev"])
  have l: "c' = c2 \<or> (\<exists>ev. schedule ev c2 = Inr c')" using rest by (auto simp: Let_def split: if_splits)
  have "sends (\<lambda>_. True) c1 c2"
    by (rule for_sends [OF f]) (auto simp: schedule_absolute_def intro: schedule_sends)
  then have "loop_evolves (cm_loop c1) (cm_loop c2)" by (rule sends_evolves)
  moreover have "loop_evolves (cm_loop c2) (cm_loop c')" using l schedule_evolves by auto
  moreover have "loop_evolves (cm_loop c) (cm_loop c1)" using store_engine_evolves [OF s] by simp
  ultimately show ?thesis using loop_evolves_trans by blast
qed

lemma rebalance_evolves:
  assumes "rebalance_requests n c = Inr c'"
  shows "loop_evolves (cm_loop c) (cm_loop c')"
proof -
  have "loop_evolves (cm_loop d) (cm_loop c')"
    if "for_res (\<lambda>r c. schedule (placement_event (el_time (cm_loop c)) (req_id (cm_heap c r))) c) rs d = Inr c'" for rs d
    by (rule sends_evolves [OF for_sends [OF that, of "\<lambda>_. True"]]) (auto intro: schedule_sends)
  with assms show ?thesis
    by (fastforce simp: rebalance_requests_def split: option.splits if_splits)
qed

text \<open>The branches of a placement decision.\<close>

abbreviation with_engines :: "scheduler \<Rightarrow> serving_engine list \<Rightarrow> cluster \<Rightarrow> cluster" where
  "with_engines s es c \<equiv> c\<lparr>cm_scheduler := s, cm_engines := fold (\<lambda>e. dict_set (se_id e) e) es (cm_engines c)\<rparr>"

lemma handle_placement_cases:
  assumes "handle_placement_decision x ev c = Inr c'"
  obtains (gone) "c' = c"
  | (none) rid r s es where "map_of (cm_active c) rid = Some r"
      "place_request (x_rnd x) (x_estimate x) (cm_scheduler c) (cm_heap c r) (available_engines c) = Inr (None, s, es)"
      "reject_request x r ''no_suitable_engine'' (with_engines s es c) = Inr c'"
  | (placed) rid r s es p eid where "map_of (cm_active c) rid = Some r"
      "place_request (x_rnd x) (x_estimate x) (cm_scheduler c) (cm_heap c r) (available_engines c) = Inr (Some p, s, es)"
      "pd_target p = Some eid" "place_on x r rid p eid (with_engines s es c) = Inr c'"
proof -
  obtain rid where rid: "data_str ev ''request_id'' = Inr rid"
    using assms by (auto simp: handle_placement_decision_def rbind_eq_Inr)
  show ?thesis
  proof (cases "map_of (cm_active c) rid")
    case None
    then show ?thesis using assms gone by (simp add: handle_placement_decision_def rid)
  next
    case (Some r)
    then obtain d s es where p: "place_request (x_rnd x) (x_estimate x) (cm_scheduler c) (cm_heap c r) (available_engines c) = Inr (d, s, es)"
      and rest: "(case d of
               None \<Rightarrow> reject_request x r ''no_suitable_engine'' (with_engines s es c)
             | Some p \<Rightarrow>
                 (case pd_target p of
                    None \<Rightarrow> Inl (AttributeError ''add_request'')
                  | Some eid \<Rightarrow> place_on x r rid p eid (with_engines s es c))) = Inr c'"
      using assms by (auto simp: handle_placement_decision_def rid rbind_eq_Inr Let_def)
    show ?thesis
    proof (cases d)
      case None
      then show ?thesis using none Some p rest by simp
    next
      case (Some q)
      then show ?thesis using placed \<open>map_of (cm_active c) rid = Some r\<close> p rest by (simp split: option.splits)
    qed
  qed
qed

lemma handle_placement_evolves:
  assumes "handle_placement_decision x ev c = Inr c'"
  shows "loop_evolves (cm_loop c) (cm_loop c')"
  using assms
  by (rule handle_placement_cases) (auto dest!: place_on_evolves reject_loop)

lemma handle_evolves:
  assumes "handle x h ev c = Inr c'"
  shows "loop_evolves (cm_loop c) (cm_loop c')"
proof (cases h)
  case H_request_arrival
  with assms show ?thesis
    by (auto simp: handle_def handle_request_arrival_def rbind_eq_Inr Let_def add_trace_def dest!: schedule_evolves)
next
  case H_request_complete
  with assms show ?thesis
    by (auto simp: handle_def handle_request_complete_def rbind_eq_Inr Let_def add_trace_def split: option.splits)
next
  case H_node_online
  with assms show ?thesis
    by (auto simp: handle_def handle_node_online_def rbind_eq_Inr Let_def split: if_splits)
next
  case H_node_offline
  with assms show ?thesis
    by (auto simp: handle_def handle_node_offline_def rbind_eq_Inr Let_def dest!: rebalance_evolves split: if_splits)
qed (use assms in \<open>auto simp: handle_def handle_load_balance_def
      dest!: rebalance_evolves handle_placement_evolves handle_batch_evolves\<close>)

text \<open>The cluster is an owner of its loop: the laws of \<open>loop_host\<close> hold for its handlers.\<close>

abbreviation set_loop :: "handler event_loop \<Rightarrow> cluster \<Rightarrow> cluster" where
  "set_loop l c \<equiv> c\<lparr>cm_loop := l\<rparr>"

interpretation cluster_loop: loop_host cm_loop set_loop "handle x" for x
  by unfold_locales (auto dest: handle_evolves)

section \<open>The ledger of requests\<close>

text \<open>
  The abstract specification: which requests are active, which have completed, in order, and how many
  have arrived and been rejected. A request enters the ledger once, and leaves the active ones once,
  by completing or by being rejected.
\<close>

record ledger =
  lg_active :: "string set"
  lg_completed :: "string list"
  lg_rejected :: nat
  lg_total :: nat

inductive ledger_step :: "ledger \<Rightarrow> ledger \<Rightarrow> bool" where
  ledger_idle: "ledger_step l l"
| ledger_arrive: "rid \<notin> lg_active l \<Longrightarrow> rid \<notin> set (lg_completed l) \<Longrightarrow>
    ledger_step l (l\<lparr>lg_active := insert rid (lg_active l), lg_total := lg_total l + 1\<rparr>)"
| ledger_complete: "rid \<in> lg_active l \<Longrightarrow>
    ledger_step l (l\<lparr>lg_active := lg_active l - {rid}, lg_completed := lg_completed l @ [rid]\<rparr>)"
| ledger_reject: "rid \<in> lg_active l \<Longrightarrow>
    ledger_step l (l\<lparr>lg_active := lg_active l - {rid}, lg_rejected := lg_rejected l + 1\<rparr>)"

definition ledger_inv :: "ledger \<Rightarrow> bool" where
  "ledger_inv l \<longleftrightarrow> finite (lg_active l) \<and> distinct (lg_completed l) \<and> lg_active l \<inter> set (lg_completed l) = {} \<and>
     lg_total l = card (lg_active l) + length (lg_completed l) + lg_rejected l"

lemma ledger_step_inv:
  assumes "ledger_step l l'" and "ledger_inv l"
  shows "ledger_inv l'"
  using assms
proof (induction rule: ledger_step.induct)
  case (ledger_complete rid l)
  then show ?case using card_Suc_Diff1 [of "lg_active l" rid] by (auto simp: ledger_inv_def)
next
  case (ledger_reject rid l)
  then show ?case using card_Suc_Diff1 [of "lg_active l" rid] by (auto simp: ledger_inv_def)
qed (auto simp: ledger_inv_def)

lemma ledger_steps_inv: "ledger_step\<^sup>*\<^sup>* l l' \<Longrightarrow> ledger_inv l \<Longrightarrow> ledger_inv l'"
  by (induction rule: rtranclp_induct) (auto intro: ledger_step_inv)

text \<open>The ledger of a cluster.\<close>

definition completed_ids :: "cluster \<Rightarrow> string list" where
  "completed_ids c = map (\<lambda>r. req_id (cm_heap c r)) (cm_completed c)"

definition ledger_of :: "cluster \<Rightarrow> ledger" where
  "ledger_of c = \<lparr>lg_active = fst ` set (cm_active c), lg_completed = completed_ids c,
     lg_rejected = mt_rejected_requests (cm_metrics c), lg_total = mt_total_requests (cm_metrics c)\<rparr>"

text \<open>The identifiers of the arrivals still in the queue: none is known yet, none occurs twice.\<close>

definition pending :: "cluster \<Rightarrow> string res multiset" where
  "pending c = image_mset (\<lambda>ev. data_str ev ''request_id'')
     (filter_mset (\<lambda>ev. ev_type ev = REQUEST_ARRIVAL) (mset (el_queue (cm_loop c))))"

definition pending_fresh :: "cluster \<Rightarrow> bool" where
  "pending_fresh c \<longleftrightarrow> (\<forall>rid. count (pending c) (Inr rid) \<le>
     (if rid \<in> lg_active (ledger_of c) \<union> set (completed_ids c) then 0 else 1))"

definition handler_table :: "event_type \<Rightarrow> handler option" where
  "handler_table = el_handlers (register_event_handlers loop_init)"

text \<open>The books: the dictionary of active requests points to requests of that name.\<close>

definition books_ok :: "cluster \<Rightarrow> bool" where
  "books_ok c \<longleftrightarrow> distinct (map fst (cm_active c)) \<and>
     (\<forall>(rid, r) \<in> set (cm_active c). r < cm_next_ref c \<and> req_id (cm_heap c r) = rid) \<and>
     (\<forall>r \<in> set (cm_completed c). r < cm_next_ref c) \<and>
     mt_completed_requests (cm_metrics c) = length (cm_completed c)"

definition engines_ok :: "cluster \<Rightarrow> bool" where
  "engines_ok c \<longleftrightarrow> distinct (map fst (cm_engines c)) \<and>
     (\<forall>(k, e) \<in> set (cm_engines c). se_id e = k \<and> se_outbox e = [] \<and> se_request_queue e = [])"

definition nodes_ok :: "cluster \<Rightarrow> bool" where
  "nodes_ok c \<longleftrightarrow> set (cm_online c) \<union> set (cm_offline c) = fst ` set (cm_engines c) \<and>
     set (cm_online c) \<inter> set (cm_offline c) = {}"

definition cluster_inv :: "cluster \<Rightarrow> bool" where
  "cluster_inv c \<longleftrightarrow> loop_inv (cm_loop c) \<and> el_handlers (cm_loop c) = handler_table \<and> pending_fresh c \<and>
     ledger_inv (ledger_of c) \<and> books_ok c \<and> engines_ok c \<and> nodes_ok c"

lemmas cluster_parts = books_ok_def engines_ok_def nodes_ok_def ledger_of_def completed_ids_def

abbreviation not_arrival :: "event \<Rightarrow> bool" where
  "not_arrival ev \<equiv> ev_type ev \<noteq> REQUEST_ARRIVAL"

lemma sends_mono: "sends P c c' \<Longrightarrow> (\<And>ev. P ev \<Longrightarrow> Q ev) \<Longrightarrow> sends Q c c'"
  unfolding sends_def by blast


lemma sends_fields:
  assumes "sends P c c'"
  shows "cm_active c' = cm_active c" "cm_completed c' = cm_completed c" "cm_heap c' = cm_heap c"
    "cm_engines c' = cm_engines c" "cm_online c' = cm_online c" "cm_offline c' = cm_offline c"
    "cm_metrics c' = cm_metrics c" "cm_next_ref c' = cm_next_ref c"
proof -
  have "c' = c\<lparr>cm_loop := cm_loop c'\<rparr>" using assms by (simp add: sends_def)
  then obtain l where "c' = c\<lparr>cm_loop := l\<rparr>" by blast
  then show "cm_active c' = cm_active c" "cm_completed c' = cm_completed c" "cm_heap c' = cm_heap c"
    "cm_engines c' = cm_engines c" "cm_online c' = cm_online c" "cm_offline c' = cm_offline c"
    "cm_metrics c' = cm_metrics c" "cm_next_ref c' = cm_next_ref c" by simp_all
qed

lemma sends_ledger: "sends P c c' \<Longrightarrow> ledger_of c' = ledger_of c"
  by (simp add: ledger_of_def completed_ids_def sends_fields)

lemma sends_pending:
  assumes "sends not_arrival c c'"
  shows "pending c' = pending c"
proof -
  obtain new where q: "mset (el_queue (cm_loop c')) = mset (el_queue (cm_loop c)) + mset new"
    and n: "\<forall>ev \<in> set new. not_arrival ev"
    using assms by (auto simp: sends_def)
  have "filter_mset (\<lambda>ev. ev_type ev = REQUEST_ARRIVAL) (mset new) = {#}" using n by (induction new) auto
  then show ?thesis by (simp add: pending_def q)
qed

lemma sends_inv:
  assumes "sends not_arrival c c'" and "cluster_inv c"
  shows "cluster_inv c'"
proof -
  have "loop_inv (cm_loop c')" "el_handlers (cm_loop c') = handler_table"
    using assms loop_evolves_inv [OF sends_evolves [OF assms(1)]] sends_evolves [OF assms(1)]
    by (auto simp: cluster_inv_def loop_evolves_def)
  moreover have "pending_fresh c' = pending_fresh c" "books_ok c' = books_ok c" "engines_ok c' = engines_ok c"
    "nodes_ok c' = nodes_ok c" "ledger_of c' = ledger_of c"
    using sends_pending [OF assms(1)] by (simp_all add: pending_fresh_def cluster_parts sends_fields [OF assms(1)])
  ultimately show ?thesis using assms(2) by (simp add: cluster_inv_def)
qed

section \<open>The handlers keep the invariant\<close>

lemma engine_update_inv:
  assumes "cluster_inv c" and "map_of (cm_engines c) k = Some e0" and "se_id e = se_id e0"
    and "se_request_queue e = se_request_queue e0" and "se_outbox e = []"
    and "\<And>r. req_id (h r) = req_id (cm_heap c r)"
  shows "cluster_inv (c\<lparr>cm_heap := h, cm_engines := dict_set k e (cm_engines c)\<rparr>)"
    and "ledger_of (c\<lparr>cm_heap := h, cm_engines := dict_set k e (cm_engines c)\<rparr>) = ledger_of c"
proof -
  let ?c = "c\<lparr>cm_heap := h, cm_engines := dict_set k e (cm_engines c)\<rparr>"
  show led: "ledger_of ?c = ledger_of c" by (simp add: ledger_of_def completed_ids_def assms(6))
  have k: "(k, e0) \<in> set (cm_engines c)" using assms(2) by (rule map_of_SomeD)
  have keys: "map fst (cm_engines ?c) = map fst (cm_engines c)"
    using k by (auto simp: update_keys rev_image_eqI)
  have "se_id e0 = k \<and> se_request_queue e0 = []" using assms(1) k by (auto simp: cluster_inv_def engines_ok_def)
  moreover have "set (cm_engines ?c) \<subseteq> insert (k, e) (set (cm_engines c))" using set_dict_set by simp
  ultimately have "engines_ok ?c"
    using assms(1,3,4,5) keys unfolding cluster_inv_def engines_ok_def by fastforce
  moreover have "fst ` set (cm_engines ?c) = fst ` set (cm_engines c)" using keys by (metis image_set)
  then have "nodes_ok ?c" using assms(1) by (simp add: cluster_inv_def nodes_ok_def)
  moreover have "books_ok ?c" using assms(1,6) by (simp add: cluster_inv_def books_ok_def)
  moreover have "pending_fresh ?c" using assms(1,6) led
    by (simp add: cluster_inv_def pending_fresh_def pending_def completed_ids_def)
  ultimately show "cluster_inv ?c" using assms(1) led by (simp add: cluster_inv_def)
qed

lemma pending_fresh_mono:
  assumes "pending_fresh c" and "pending c' = pending c"
    and "lg_active (ledger_of c') \<union> set (completed_ids c') \<subseteq> lg_active (ledger_of c) \<union> set (completed_ids c)"
  shows "pending_fresh c'"
  unfolding pending_fresh_def assms(2)
proof
  fix k
  have "count (pending c) (Inr k) \<le> (if k \<in> lg_active (ledger_of c) \<union> set (completed_ids c) then 0 else 1)"
    using assms(1) by (simp add: pending_fresh_def)
  then show "count (pending c) (Inr k) \<le> (if k \<in> lg_active (ledger_of c') \<union> set (completed_ids c') then 0 else 1)"
    using assms(3) by (auto split: if_splits)
qed

lemma list_all2_source: "list_all2 P xs ys \<Longrightarrow> y \<in> set ys \<Longrightarrow> \<exists>x \<in> set xs. P x y"
  by (induction rule: list_all2_induct) auto

lemma dict_del_keys: "fst ` set (dict_del k d) = fst ` set d - {k}"
  using arg_cong [OF delete_keys [of k d], of set] by simp

lemma fold_dict_keys:
  assumes "\<And>e. e \<in> set es \<Longrightarrow> se_id e \<in> fst ` set d"
  shows "map fst (fold (\<lambda>e. dict_set (se_id e) e) es d) = map fst d"
  using assms
proof (induction es arbitrary: d)
  case (Cons e es)
  have k: "map fst (dict_set (se_id e) e d) = map fst d" using Cons.prems by (simp add: update_keys)
  then have "fst ` set (dict_set (se_id e) e d) = fst ` set d" by (metis image_set)
  then show ?case using Cons.IH [of "dict_set (se_id e) e d"] Cons.prems k by simp
qed simp

lemma fold_dict_set: "set (fold (\<lambda>e. dict_set (se_id e) e) es d) \<subseteq> set d \<union> (\<lambda>e. (se_id e, e)) ` set es"
proof (induction es arbitrary: d)
  case (Cons e es)
  then show ?case using set_dict_set [of "se_id e" e d] by fastforce
qed simp

lemma fold_dict_other: "k \<notin> se_id ` set es \<Longrightarrow> map_of (fold (\<lambda>e. dict_set (se_id e) e) es d) k = map_of d k"
  by (induction es arbitrary: d) (auto simp: update_conv)

lemma available_engine:
  assumes "engines_ok c" and "e \<in> set (available_engines c)"
  shows "(se_id e, e) \<in> set (cm_engines c)" and "se_id e \<in> set (cm_online c)"
    and "se_outbox e = []" and "se_request_queue e = []"
  using assms by (auto simp: available_engines_def engines_ok_def)

lemma with_engines_inv:
  assumes inv: "cluster_inv c"
    and p: "place_request rnd est s0 q (available_engines c) = Inr (d, s, es)"
  shows "cluster_inv (with_engines s es c)" and "ledger_of (with_engines s es c) = ledger_of c"
    and "se_id ` set es \<subseteq> set (cm_online c)"
proof -
  let ?c = "with_engines s es c"
  have eok: "engines_ok c" using inv by (simp add: cluster_inv_def)
  have st: "list_all2 still (available_engines c) es" by (rule place_request_still(1) [OF p])
  have es: "se_id e \<in> fst ` set (cm_engines c)" "se_id e \<in> set (cm_online c)" "se_outbox e = []" "se_request_queue e = []"
    if e: "e \<in> set es" for e
  proof -
    obtain e0 where e0: "e0 \<in> set (available_engines c)" "still e0 e"
      using list_all2_source [OF st e] by blast
    note a = available_engine [OF eok e0(1)]
    show "se_id e \<in> set (cm_online c)" "se_outbox e = []" "se_request_queue e = []"
      using a e0(2) by (simp_all add: still_def)
    show "se_id e \<in> fst ` set (cm_engines c)"
      using a(1) e0(2) by (metis fst_conv image_eqI still_def)
  qed
  then show "se_id ` set es \<subseteq> set (cm_online c)" by blast
  show led: "ledger_of ?c = ledger_of c" by (simp add: ledger_of_def completed_ids_def)
  have keys: "map fst (cm_engines ?c) = map fst (cm_engines c)" using fold_dict_keys [of es "cm_engines c"] es(1) by simp
  then have ks: "fst ` set (cm_engines ?c) = fst ` set (cm_engines c)" by (metis image_set)
  have "engines_ok ?c"
    using keys eok es fold_dict_set [of es "cm_engines c"] unfolding engines_ok_def by fastforce
  moreover have "nodes_ok ?c" using inv ks by (simp add: cluster_inv_def nodes_ok_def)
  moreover have "books_ok ?c" using inv by (simp add: cluster_inv_def books_ok_def)
  moreover have "pending_fresh ?c" using inv led
    by (simp add: cluster_inv_def pending_fresh_def pending_def completed_ids_def)
  ultimately show "cluster_inv ?c" using inv led by (simp add: cluster_inv_def)
qed

lemma reject_inv:
  assumes inv: "cluster_inv c" and a: "map_of (cm_active c) rid = Some r" and run: "reject_request x r reason c = Inr c'"
  shows "cluster_inv c' \<and> ledger_step (ledger_of c) (ledger_of c')"
proof -
  have mem: "(rid, r) \<in> set (cm_active c)" using a by (rule map_of_SomeD)
  then have rid: "req_id (cm_heap c r) = rid" using inv by (auto simp: cluster_inv_def books_ok_def)
  define m where "m = cm_metrics c"
  obtain t where c': "c' = c\<lparr>cm_active := dict_del rid (cm_active c),
      cm_metrics := m\<lparr>mt_rejected_requests := mt_rejected_requests m + 1\<rparr>, cm_trace := t\<rparr>"
    using run by (auto simp: reject_request_def rid Let_def add_trace_def rbind_eq_Inr m_def)
  have keys: "fst ` set (dict_del rid (cm_active c)) = fst ` set (cm_active c) - {rid}"
    by (rule dict_del_keys)
  have led: "ledger_of c' = (ledger_of c)\<lparr>lg_active := lg_active (ledger_of c) - {rid},
      lg_rejected := lg_rejected (ledger_of c) + 1\<rparr>"
    by (simp add: ledger_of_def completed_ids_def c' keys m_def)
  have step: "ledger_step (ledger_of c) (ledger_of c')"
    unfolding led by (rule ledger_reject) (use mem in \<open>force simp: ledger_of_def\<close>)
  have "books_ok c'" using inv by (auto simp: cluster_inv_def books_ok_def c' m_def distinct_delete dest: set_dict_del [THEN subsetD])
  moreover have "engines_ok c'" "nodes_ok c'" using inv by (simp_all add: cluster_inv_def c' engines_ok_def nodes_ok_def)
  moreover have "pending_fresh c'"
    by (rule pending_fresh_mono [of c]) (use inv in \<open>auto simp: cluster_inv_def pending_def c' cluster_parts keys\<close>)
  ultimately show ?thesis using inv step ledger_step_inv [OF step] by (simp add: cluster_inv_def c')
qed

lemma cluster_inv_fields [simp]:
  "cluster_inv (c\<lparr>cm_trace := t\<rparr>) = cluster_inv c"
  "cluster_inv (c\<lparr>cm_scheduler := s\<rparr>) = cluster_inv c"
  "cluster_inv (c\<lparr>cm_current_time := ct\<rparr>) = cluster_inv c"
  "cluster_inv (c\<lparr>cm_start_time := st\<rparr>) = cluster_inv c"
  "cluster_inv (c\<lparr>cm_counter := n\<rparr>) = cluster_inv c"
  by (simp_all add: cluster_inv_def cluster_parts pending_fresh_def pending_def)

lemma ledger_of_fields [simp]:
  "ledger_of (c\<lparr>cm_trace := t\<rparr>) = ledger_of c" "ledger_of (c\<lparr>cm_loop := l\<rparr>) = ledger_of c"
  "ledger_of (c\<lparr>cm_current_time := ct\<rparr>) = ledger_of c"
  "ledger_of (c\<lparr>cm_start_time := st\<rparr>) = ledger_of c" "ledger_of (c\<lparr>cm_counter := n\<rparr>) = ledger_of c"
  by (simp_all add: ledger_of_def completed_ids_def)

lemma record_decision_inv [simp]:
  "cluster_inv (record_placement_decision d c) = cluster_inv c"
  "ledger_of (record_placement_decision d c) = ledger_of c"
  by (simp_all add: record_placement_decision_def Let_def cluster_inv_def cluster_parts pending_fresh_def pending_def)

lemma store_engine_inv:
  assumes "store_engine k e (c\<lparr>cm_heap := h\<rparr>) = Inr c'" and "cluster_inv c"
    and "map_of (cm_engines c) k = Some e0" and "quiet e0 e" and "\<And>r. req_id (h r) = req_id (cm_heap c r)"
  shows "cluster_inv c'" and "ledger_of c' = ledger_of c" and "cm_active c' = cm_active c"
    and "cm_heap c' = h" and "cm_engines c' = dict_set k (e\<lparr>se_outbox := []\<rparr>) (cm_engines c)"
proof -
  let ?c = "c\<lparr>cm_heap := h, cm_engines := dict_set k (e\<lparr>se_outbox := []\<rparr>) (cm_engines c)\<rparr>"
  have "se_outbox e0 = []"
    using assms(2,3) by (auto simp: cluster_inv_def engines_ok_def dest: map_of_SomeD)
  then have "emitted (ev_type ev)" if "ev \<in> set (se_outbox e)" for ev
    using assms(4) that by (auto simp: quiet_def)
  from store_engine_sends [OF assms(1) this]
  have s: "sends (\<lambda>ev. emitted (ev_type ev)) ?c c'" by simp
  note i = engine_update_inv [OF assms(2,3), of "e\<lparr>se_outbox := []\<rparr>" h]
  have "sends not_arrival ?c c'" by (rule sends_mono [OF s]) (auto simp: emitted_def)
  then show "cluster_inv c'" using sends_inv i(1) assms(4,5) by (simp add: quiet_def)
  show "ledger_of c' = ledger_of c" using sends_ledger [OF s] i(2) assms(4,5) by (simp add: quiet_def)
  show "cm_active c' = cm_active c" "cm_heap c' = h" "cm_engines c' = dict_set k (e\<lparr>se_outbox := []\<rparr>) (cm_engines c)"
    using sends_fields [OF s] by simp_all
qed

lemma place_on_inv:
  assumes inv: "cluster_inv c" and a: "map_of (cm_active c) rid = Some r"
    and run: "place_on x r rid d eid c = Inr c'"
  shows "cluster_inv c' \<and> ledger_step (ledger_of c) (ledger_of c')"
proof -
  obtain e0 ok h e' c1 where e0: "map_of (cm_engines c) eid = Some e0"
    and ad: "add_request r (cm_heap c) e0 = Inr (ok, h, e')"
    and s: "store_engine eid e' (c\<lparr>cm_heap := h\<rparr>) = Inr c1"
    and rest: "(if \<not> ok then reject_request x r ''engine_rejection'' c1
       else schedule_engine_step eid
         (add_trace (lifecycle_event x ''RequestScheduled'' ''I'' (el_time (cm_loop c1)) rid
            [(''request_id'', PStr rid), (''target_engine'', PStr eid), (''placement_reason'', PStr (pd_reason d)),
             (''estimated_latency'', PNone)]) (record_placement_decision d c1))) = Inr c'"
    using run unfolding place_on_def by (auto simp: rbind_eq_Inr dict_get_eq)
  note q = add_request_quiet [OF ad]
  note i = store_engine_inv [OF s inv e0 q]
  show ?thesis
  proof (cases ok)
    case True
    then have "sends not_arrival (add_trace (lifecycle_event x ''RequestScheduled'' ''I'' (el_time (cm_loop c1)) rid
            [(''request_id'', PStr rid), (''target_engine'', PStr eid), (''placement_reason'', PStr (pd_reason d)),
             (''estimated_latency'', PNone)]) (record_placement_decision d c1)) c'"
      using rest by (auto simp: schedule_engine_step_def step_event_def intro: schedule_sends)
    from sends_inv [OF this] sends_ledger [OF this] show ?thesis
      using i(1,2) by (auto simp: add_trace_def intro: ledger_idle)
  next
    case False
    then have "reject_request x r ''engine_rejection'' c1 = Inr c'" using rest by simp
    from reject_inv [OF i(1) _ this, of rid] show ?thesis using a i(2,3) by simp
  qed
qed

lemma placement_inv:
  assumes inv: "cluster_inv c" and run: "handle_placement_decision x ev c = Inr c'"
  shows "cluster_inv c' \<and> ledger_step (ledger_of c) (ledger_of c')"
  using run
proof (cases rule: handle_placement_cases)
  case gone
  then show ?thesis using inv by (auto intro: ledger_idle)
next
  case (none rid r s es)
  note w = with_engines_inv [OF inv none(2)]
  show ?thesis using reject_inv [OF w(1) _ none(3), of rid] none(1) w(2) by simp
next
  case (placed rid r s es p eid)
  note w = with_engines_inv [OF inv placed(2)]
  show ?thesis using place_on_inv [OF w(1) _ placed(4)] placed(1) w(2) by simp
qed

lemma batch_form_inv:
  assumes inv: "cluster_inv c" and run: "handle_batch_form x ev c = Inr c'"
  shows "cluster_inv c' \<and> ledger_of c' = ledger_of c"
proof (cases "map_of (cm_engines c) (ev_target ev)")
  case None
  then show ?thesis using run inv by (simp add: handle_batch_form_def)
next
  case (Some e)
  with run obtain evs h e' c1 c2 where
      st: "engine_step (x_iter x) (Some (el_time (cm_loop c))) (cm_heap c) e = Inr (evs, h, e')"
    and s: "store_engine (ev_target ev) e' (c\<lparr>cm_heap := h\<rparr>) = Inr c1"
    and f: "for_res schedule_absolute evs c1 = Inr c2"
    and rest: "(if \<not> has_pending_work e' then Inr c2
            else let now = el_time (cm_loop c2);
                     t = max (se_time_cursor e') now;
                     next_step_time = (if t \<le> now then now + 1 / 1000000 else t)
                 in schedule (step_event next_step_time (ev_target ev)) c2) = Inr c'"
    by (auto simp: handle_batch_form_def rbind_eq_Inr Let_def [of "ev_target ev"])
  note q = engine_step_quiet [OF st]
  note i = store_engine_inv [OF s inv Some q(1,2)]
  have "sends not_arrival c1 c2"
    by (rule for_sends [OF f]) (auto simp: schedule_absolute_def intro!: schedule_sends dest: q(3) split: if_splits)
  also have "sends not_arrival c2 c'"
    using rest by (auto simp: Let_def step_event_def intro: schedule_sends split: if_splits)
  finally have "sends not_arrival c1 c'" .
  from sends_inv [OF this i(1)] sends_ledger [OF this] i(2) show ?thesis by simp
qed

text \<open>An arrival is fresh when its request is new to the cluster and to its queue.\<close>

definition arrival_fresh :: "event \<Rightarrow> cluster \<Rightarrow> bool" where
  "arrival_fresh ev c \<longleftrightarrow> (\<forall>rid. data_str ev ''request_id'' = Inr rid \<longrightarrow>
     rid \<notin> lg_active (ledger_of c) \<union> set (completed_ids c) \<and> count (pending c) (Inr rid) = 0)"

lemma arrival_inv:
  assumes inv: "cluster_inv c" and fresh: "arrival_fresh ev c" and run: "handle_request_arrival x ev c = Inr c'"
  shows "cluster_inv c' \<and> ledger_step (ledger_of c) (ledger_of c')"
proof -
  define m where "m = cm_metrics c"
  obtain rid model inp outp t where rid: "data_str ev ''request_id'' = Inr rid"
    and run': "schedule (placement_event (ev_timestamp ev) rid)
      (c\<lparr>cm_heap := (cm_heap c)(cm_next_ref c := new_request rid model inp outp (ev_timestamp ev)),
           cm_next_ref := cm_next_ref c + 1, cm_active := dict_set rid (cm_next_ref c) (cm_active c),
           cm_metrics := m\<lparr>mt_total_requests := mt_total_requests m + 1\<rparr>, cm_trace := t\<rparr>) = Inr c'"
    using run by (auto simp: handle_request_arrival_def rbind_eq_Inr Let_def add_trace_def m_def)
  define c1 where "c1 = c\<lparr>cm_heap := (cm_heap c)(cm_next_ref c := new_request rid model inp outp (ev_timestamp ev)),
           cm_next_ref := cm_next_ref c + 1, cm_active := dict_set rid (cm_next_ref c) (cm_active c),
           cm_metrics := m\<lparr>mt_total_requests := mt_total_requests m + 1\<rparr>, cm_trace := t\<rparr>"
  have new: "rid \<notin> fst ` set (cm_active c)" "rid \<notin> set (completed_ids c)" "count (pending c) (Inr rid) = 0"
    using fresh rid by (auto simp: arrival_fresh_def ledger_of_def)
  have books: "books_ok c" using inv by (simp add: cluster_inv_def)
  have act: "cm_active c1 = cm_active c @ [(rid, cm_next_ref c)]" using new(1) by (simp add: c1_def dict_set_fresh)
  have heap: "req_id (cm_heap c1 r) = req_id (cm_heap c r)" if "r < cm_next_ref c" for r
    using that by (simp add: c1_def)
  have comp: "completed_ids c1 = completed_ids c"
    using books heap by (auto simp: completed_ids_def books_ok_def c1_def)
  have led: "ledger_of c1 = (ledger_of c)\<lparr>lg_active := insert rid (lg_active (ledger_of c)),
      lg_total := lg_total (ledger_of c) + 1\<rparr>"
    using comp act by (simp add: ledger_of_def) (simp add: c1_def m_def)
  have step: "ledger_step (ledger_of c) (ledger_of c1)"
    unfolding led by (rule ledger_arrive) (use new in \<open>simp_all add: ledger_of_def\<close>)
  have "books_ok c1"
    using books new(1) heap unfolding books_ok_def act
    by (auto simp: c1_def m_def new_request_def)
  moreover have "engines_ok c1" "nodes_ok c1" using inv by (simp_all add: cluster_inv_def c1_def engines_ok_def nodes_ok_def)
  moreover have pend: "pending c1 = pending c" by (simp add: pending_def c1_def)
  have "pending_fresh c1"
    unfolding pending_fresh_def pend
  proof
    fix k
    show "count (pending c) (Inr k) \<le> (if k \<in> lg_active (ledger_of c1) \<union> set (completed_ids c1) then 0 else 1)"
      using inv new(3) by (cases "k = rid") (simp_all add: cluster_inv_def pending_fresh_def led comp)
  qed
  moreover have "cm_loop c1 = cm_loop c" by (simp add: c1_def)
  ultimately have i: "cluster_inv c1" using inv ledger_step_inv [OF step] by (simp add: cluster_inv_def)
  have "sends not_arrival c1 c'"
    using run' by (auto simp: c1_def placement_event_def intro: schedule_sends)
  from sends_inv [OF this i] sends_ledger [OF this] step show ?thesis by simp
qed

lemma complete_inv:
  assumes inv: "cluster_inv c" and run: "handle_request_complete x ev c = Inr c'"
  shows "cluster_inv c' \<and> ledger_step (ledger_of c) (ledger_of c')"
proof -
  obtain rid where rid: "data_str ev ''request_id'' = Inr rid"
    using run by (auto simp: handle_request_complete_def rbind_eq_Inr)
  show ?thesis
  proof (cases "map_of (cm_active c) rid")
    case None
    then show ?thesis using run inv rid by (auto simp: handle_request_complete_def intro: ledger_idle)
  next
    case (Some r)
    define m where "m = cm_metrics c"
    obtain t where c': "c' = c\<lparr>cm_heap := (cm_heap c)(r := set_generation_finished_at (ev_timestamp ev) (cm_heap c r)),
        cm_completed := cm_completed c @ [r], cm_active := dict_del rid (cm_active c),
        cm_metrics := m\<lparr>mt_completed_requests := mt_completed_requests m + 1\<rparr>, cm_trace := t\<rparr>"
      using run rid Some by (auto simp: handle_request_complete_def Let_def add_trace_def m_def)
    have mem: "(rid, r) \<in> set (cm_active c)" using Some by (rule map_of_SomeD)
    have heap: "req_id (cm_heap c' k) = req_id (cm_heap c k)" for k
      by (simp add: c' set_generation_finished_at_def)
    have r: "req_id (cm_heap c r) = rid" "r < cm_next_ref c" using inv mem by (auto simp: cluster_inv_def books_ok_def)
    have keys: "fst ` set (cm_active c') = fst ` set (cm_active c) - {rid}" by (simp add: c' dict_del_keys)
    have comp: "completed_ids c' = completed_ids c @ [rid]" unfolding completed_ids_def heap by (simp add: c' r)
    have led: "ledger_of c' = (ledger_of c)\<lparr>lg_active := lg_active (ledger_of c) - {rid},
        lg_completed := lg_completed (ledger_of c) @ [rid]\<rparr>"
      using comp keys by (simp add: ledger_of_def) (simp add: c' m_def)
    have act: "rid \<in> lg_active (ledger_of c)" using mem by (force simp: ledger_of_def)
    have step: "ledger_step (ledger_of c) (ledger_of c')"
      unfolding led by (rule ledger_complete) (rule act)
    have "books_ok c'"
      using inv r heap unfolding cluster_inv_def books_ok_def
      by (auto simp: c' m_def distinct_delete set_generation_finished_at_def dest: set_dict_del [THEN subsetD])
    moreover have "engines_ok c'" "nodes_ok c'" using inv by (simp_all add: cluster_inv_def c' engines_ok_def nodes_ok_def)
    moreover have "pending_fresh c'"
    proof (rule pending_fresh_mono [of c])
      show "pending c' = pending c" by (simp add: pending_def c')
      show "lg_active (ledger_of c') \<union> set (completed_ids c') \<subseteq> lg_active (ledger_of c) \<union> set (completed_ids c)"
        using act by (auto simp: led comp)
    qed (use inv in \<open>simp add: cluster_inv_def\<close>)
    moreover have "cm_loop c' = cm_loop c" by (simp add: c')
    ultimately show ?thesis using inv step ledger_step_inv [OF step] by (simp add: cluster_inv_def)
  qed
qed

lemma rebalance_idle:
  assumes "engines_ok c"
  shows "\<exists>es. rebalance_requests n c = Inr (c\<lparr>cm_engines := es\<rparr>) \<and> map_of es = map_of (cm_engines c) \<and>
    map fst es = map fst (cm_engines c)"
proof (cases "\<exists>nid e. n = Some nid \<and> nid \<noteq> [] \<and> map_of (cm_engines c) nid = Some e")
  case True
  then obtain nid e where n: "n = Some nid" "nid \<noteq> []" "map_of (cm_engines c) nid = Some e" by blast
  have "se_request_queue e = []" using assms n(3) by (auto simp: engines_ok_def dest: map_of_SomeD)
  then have same: "e\<lparr>se_request_queue := []\<rparr> = e" by simp
  then have "rebalance_requests n c = Inr (c\<lparr>cm_engines := dict_set nid e (cm_engines c)\<rparr>)"
    using n \<open>se_request_queue e = []\<close> by (simp add: rebalance_requests_def same)
  moreover have "map_of (dict_set nid e (cm_engines c)) = map_of (cm_engines c)"
    using n(3) by (auto simp: update_conv')
  moreover have "map fst (dict_set nid e (cm_engines c)) = map fst (cm_engines c)"
    using map_of_SomeD [OF n(3)] by (auto simp: update_keys rev_image_eqI)
  ultimately show ?thesis by blast
next
  case False
  then have "rebalance_requests n c = Inr (c\<lparr>cm_engines := cm_engines c\<rparr>)"
    by (auto simp: rebalance_requests_def split: option.splits)
  then show ?thesis by blast
qed

lemma node_online_inv:
  assumes inv: "cluster_inv c" and run: "handle_node_online ev c = Inr c'"
  shows "cluster_inv c' \<and> ledger_of c' = ledger_of c"
proof -
  obtain nid where nid: "data_str ev ''node_id'' = Inr nid"
    using run by (auto simp: handle_node_online_def rbind_eq_Inr)
  show ?thesis
  proof (cases "nid \<in> set (cm_offline c)")
    case False
    then show ?thesis using run inv nid by (simp add: handle_node_online_def)
  next
    case True
    define m where "m = cm_metrics c"
    have c': "c' = c\<lparr>cm_offline := removeAll nid (cm_offline c), cm_online := set_add nid (cm_online c),
        cm_metrics := m\<lparr>mt_node_recoveries := mt_node_recoveries m + 1\<rparr>\<rparr>"
      using run nid True by (simp add: handle_node_online_def Let_def m_def)
    have "nodes_ok c'"
      using inv True unfolding cluster_inv_def nodes_ok_def by (auto simp: c' set_add_def)
    moreover have "ledger_of c' = ledger_of c" by (simp add: ledger_of_def completed_ids_def c' m_def)
    moreover have "books_ok c'" "engines_ok c'" "pending_fresh c' = pending_fresh c"
      using inv by (simp_all add: cluster_inv_def books_ok_def engines_ok_def pending_fresh_def pending_def
          ledger_of_def completed_ids_def c' m_def)
    ultimately show ?thesis using inv by (simp add: cluster_inv_def c')
  qed
qed

lemma set_of_map_of:
  "distinct (map fst xs) \<Longrightarrow> map fst ys = map fst xs \<Longrightarrow> map_of ys = map_of xs \<Longrightarrow> set ys = set xs"
  by (metis map_of_inject_set)

text \<open>What a failing node does: it changes sides, and nothing else, because the queue its requests would be
  taken from is always empty.\<close>

lemma node_offline_spec:
  assumes inv: "cluster_inv c" and run: "handle_node_offline ev c = Inr c'"
  shows "cluster_inv c' \<and> ledger_of c' = ledger_of c \<and> cm_loop c' = cm_loop c \<and>
    map_of (cm_engines c') = map_of (cm_engines c) \<and> cm_active c' = cm_active c"
proof -
  obtain nid where nid: "data_str ev ''node_id'' = Inr nid"
    using run by (auto simp: handle_node_offline_def rbind_eq_Inr)
  show ?thesis
  proof (cases "nid \<in> set (cm_online c)")
    case False
    then show ?thesis using run inv nid by (simp add: handle_node_offline_def)
  next
    case True
    define m where "m = cm_metrics c"
    define c1 where "c1 = c\<lparr>cm_online := removeAll nid (cm_online c), cm_offline := set_add nid (cm_offline c),
      cm_metrics := m\<lparr>mt_node_failures := mt_node_failures m + 1\<rparr>\<rparr>"
    have "engines_ok c1" using inv by (simp add: cluster_inv_def engines_ok_def c1_def)
    then obtain es where es: "rebalance_requests (Some nid) c1 = Inr (c1\<lparr>cm_engines := es\<rparr>)"
      "map_of es = map_of (cm_engines c1)" "map fst es = map fst (cm_engines c1)"
      using rebalance_idle by blast
    have c': "c' = c1\<lparr>cm_engines := es\<rparr>"
      using run nid True es(1) by (simp add: handle_node_offline_def Let_def c1_def m_def)
    have "distinct (map fst (cm_engines c1))" using \<open>engines_ok c1\<close> by (simp add: engines_ok_def)
    then have set: "set es = set (cm_engines c1)" using set_of_map_of es(2,3) by blast
    have "engines_ok c'" using \<open>engines_ok c1\<close> es(3) set by (simp add: engines_ok_def c')
    moreover have "nodes_ok c'"
      using inv True set unfolding cluster_inv_def nodes_ok_def by (auto simp: c' c1_def set_add_def)
    moreover have led: "ledger_of c' = ledger_of c" by (simp add: ledger_of_def completed_ids_def c' c1_def m_def)
    moreover have "books_ok c'" "pending_fresh c' = pending_fresh c"
      using inv by (simp_all add: cluster_inv_def books_ok_def pending_fresh_def pending_def ledger_of_def completed_ids_def c' c1_def m_def)
    ultimately show ?thesis using inv es(2) by (simp add: cluster_inv_def c' c1_def)
  qed
qed

lemma handler_table_arrival: "handler_table ty = Some H_request_arrival \<Longrightarrow> ty = REQUEST_ARRIVAL"
  by (cases ty) (simp_all add: handler_table_def register_event_handlers_def register_handler_def)

lemma handle_inv:
  assumes inv: "cluster_inv c" and h: "handler_table (ev_type ev) = Some h"
    and fresh: "ev_type ev = REQUEST_ARRIVAL \<Longrightarrow> arrival_fresh ev c" and run: "handle x h ev c = Inr c'"
  shows "cluster_inv c' \<and> ledger_step (ledger_of c) (ledger_of c')"
proof (cases h)
  case H_request_arrival
  then have "arrival_fresh ev c" using h handler_table_arrival fresh by blast
  then show ?thesis using arrival_inv [OF inv] run H_request_arrival by (simp add: handle_def)
next
  case H_load_balance
  then have "c' = c" using run by (simp add: handle_def handle_load_balance_def rebalance_requests_def)
  then show ?thesis using inv by (simp add: ledger_idle)
next
  case H_placement_decision
  then show ?thesis using placement_inv [OF inv] run by (simp add: handle_def)
next
  case H_request_complete
  then show ?thesis using complete_inv [OF inv] run by (simp add: handle_def)
next
  case H_batch_form
  then show ?thesis using batch_form_inv [OF inv, of x ev c'] run by (simp add: handle_def ledger_idle)
next
  case H_node_online
  then show ?thesis using node_online_inv [OF inv, of ev c'] run by (simp add: handle_def ledger_idle)
next
  case H_node_offline
  then show ?thesis using node_offline_spec [OF inv, of ev c'] run by (simp add: handle_def ledger_idle)
qed (use run inv in \<open>simp_all add: handle_def ledger_idle\<close>)

lemma pop_inv:
  assumes inv: "cluster_inv c" and pop: "loop_pop (cm_loop c) = Inr (ev, l)"
  shows "cluster_inv (set_loop l c)" and "ev_type ev = REQUEST_ARRIVAL \<Longrightarrow> arrival_fresh ev (set_loop l c)"
proof -
  have li: "loop_inv (cm_loop c)" using inv by (simp add: cluster_inv_def)
  note p = loop_pop_spec [OF li pop]
  have pend: "pending c = (if ev_type ev = REQUEST_ARRIVAL then add_mset (data_str ev ''request_id'') (pending (set_loop l c))
      else pending (set_loop l c))"
    by (simp add: pending_def p(4))
  have known: "lg_active (ledger_of (set_loop l c)) \<union> set (completed_ids (set_loop l c)) =
      lg_active (ledger_of c) \<union> set (completed_ids c)" by (simp add: completed_ids_def)
  have pf: "count (pending c) (Inr rid) \<le> (if rid \<in> lg_active (ledger_of c) \<union> set (completed_ids c) then 0 else 1)" for rid
    using inv by (simp add: cluster_inv_def pending_fresh_def)
  have "count (pending (set_loop l c)) k \<le> count (pending c) k" for k by (simp add: pend)
  then have "pending_fresh (set_loop l c)"
    unfolding pending_fresh_def known using pf le_trans by blast
  then show "cluster_inv (set_loop l c)"
    using inv p(1,7) by (simp add: cluster_inv_def books_ok_def engines_ok_def nodes_ok_def)
  show "arrival_fresh ev (set_loop l c)" if ty: "ev_type ev = REQUEST_ARRIVAL"
    unfolding arrival_fresh_def known
  proof (intro allI impI)
    fix rid
    assume "data_str ev ''request_id'' = Inr rid"
    then have "count (pending c) (Inr rid) = Suc (count (pending (set_loop l c)) (Inr rid))"
      using ty by (simp add: pend)
    with pf [of rid] show "rid \<notin> lg_active (ledger_of c) \<union> set (completed_ids c) \<and>
        count (pending (set_loop l c)) (Inr rid) = 0" by (auto split: if_splits)
  qed
qed

lemma cluster_step_inv:
  assumes inv: "cluster_inv c" and run: "loop_step cm_loop set_loop (handle x) c = Inr (b, c')"
  shows "cluster_inv c' \<and> ledger_step (ledger_of c) (ledger_of c')"
proof (cases "el_queue (cm_loop c) = []")
  case True
  then show ?thesis using run inv by (simp add: loop_step_def ledger_idle)
next
  case False
  then obtain ev l where pop: "loop_pop (cm_loop c) = Inr (ev, l)"
    and rest: "(case el_handlers l (ev_type ev) of None \<Rightarrow> Inr (True, set_loop l c)
        | Some h \<Rightarrow> rbind (handle x h ev (set_loop l c)) (\<lambda>w'. Inr (True, w'))) = Inr (b, c')"
    using run by (auto simp: loop_step_def rbind_eq_Inr)
  note p = pop_inv [OF inv pop]
  have tab: "el_handlers l = handler_table" using p(1) by (simp add: cluster_inv_def)
  show ?thesis
  proof (cases "handler_table (ev_type ev)")
    case None
    then show ?thesis using rest tab p(1) by (auto intro: ledger_idle)
  next
    case (Some h)
    then have "handle x h ev (set_loop l c) = Inr c'" using rest tab by (auto simp: rbind_eq_Inr)
    from handle_inv [OF p(1) Some p(2) this] show ?thesis by simp
  qed
qed

lemma cluster_run_inv:
  assumes "run_loop x max_time max_events c = Some (Inr c')" and "cluster_inv c"
  shows "cluster_inv c' \<and> ledger_step\<^sup>*\<^sup>* (ledger_of c) (ledger_of c')"
proof (rule cluster_loop.run_keeps [where I = "\<lambda>d. cluster_inv d \<and> ledger_step\<^sup>*\<^sup>* (ledger_of c) (ledger_of d)"])
  show "loop_run cm_loop set_loop (handle x) max_time max_events c = Some (Inr c')"
    using assms(1) by (simp add: run_loop_def)
  fix w :: cluster and b t
  assume "cluster_inv w \<and> ledger_step\<^sup>*\<^sup>* (ledger_of c) (ledger_of w)"
  then show "cluster_inv (set_loop ((cm_loop w)\<lparr>el_running := b, el_total_time := t\<rparr>) w) \<and>
      ledger_step\<^sup>*\<^sup>* (ledger_of c) (ledger_of (set_loop ((cm_loop w)\<lparr>el_running := b, el_total_time := t\<rparr>) w))"
    by (simp add: cluster_inv_def books_ok_def engines_ok_def nodes_ok_def pending_fresh_def pending_def completed_ids_def)
qed (use assms(2) cluster_step_inv in \<open>auto intro: rtranclp.rtrancl_into_rtrancl\<close>)

section \<open>A whole simulation\<close>

lemma map_engines_inv:
  assumes inv: "cluster_inv c" and st: "\<And>e. still e (f e)"
    and m: "mt_total_requests m = mt_total_requests (cm_metrics c)"
      "mt_rejected_requests m = mt_rejected_requests (cm_metrics c)"
      "mt_completed_requests m = mt_completed_requests (cm_metrics c)"
  shows "cluster_inv (c\<lparr>cm_engines := map (\<lambda>p. (fst p, f (snd p))) (cm_engines c), cm_metrics := m,
      cm_last_metrics_update := t\<rparr>)" (is "cluster_inv ?c")
    and "ledger_of (c\<lparr>cm_engines := map (\<lambda>p. (fst p, f (snd p))) (cm_engines c), cm_metrics := m,
      cm_last_metrics_update := t\<rparr>) = ledger_of c"
proof -
  show led: "ledger_of ?c = ledger_of c" by (simp add: ledger_of_def completed_ids_def m)
  have "engines_ok ?c"
    using inv st by (auto simp: cluster_inv_def engines_ok_def still_def o_def)
  moreover have "nodes_ok ?c" using inv by (simp add: cluster_inv_def nodes_ok_def image_image)
  moreover have "books_ok ?c" using inv by (simp add: cluster_inv_def books_ok_def m)
  moreover have "pending_fresh ?c" using inv led
    by (simp add: cluster_inv_def pending_fresh_def pending_def completed_ids_def)
  ultimately show "cluster_inv ?c" using inv led by (simp add: cluster_inv_def)
qed

lemma update_metrics_inv:
  assumes "cluster_inv c"
  shows "cluster_inv (update_metrics c)" and "ledger_of (update_metrics c) = ledger_of c"
  using map_engines_inv [OF assms, of "\<lambda>e. snd (get_memory_info e)"] assms
  by (simp_all add: update_metrics_def Let_def)

lemma request_name_inject [simp]: "request_name m = request_name n \<longleftrightarrow> m = n"
  by (simp add: request_name_def)

text \<open>A cluster before a run: nothing queued, nothing known.\<close>

definition arrivals_named :: "cluster \<Rightarrow> bool" where
  "arrivals_named c \<longleftrightarrow> cluster_inv c \<and> cm_active c = [] \<and> cm_completed c = [] \<and>
     (\<forall>rid. Inr rid \<in># pending c \<longrightarrow> (\<exists>k \<le> cm_counter c. rid = request_name k))"

lemma next_arrival_named:
  assumes "schedule (arrival_event t (request_name (cm_counter c + 1)) model inp outp)
      (c\<lparr>cm_counter := cm_counter c + 1\<rparr>) = Inr c'" and "arrivals_named c"
  shows "arrivals_named c' \<and> ledger_of c' = ledger_of c"
proof -
  define c1 where "c1 = c\<lparr>cm_counter := cm_counter c + 1\<rparr>"
  have s: "schedule (arrival_event t (request_name (cm_counter c + 1)) model inp outp) c1 = Inr c'"
    using assms(1) by (simp add: c1_def)
  let ?ev = "arrival_event t (request_name (cm_counter c + 1)) model inp outp"
  have snd: "sends (\<lambda>_. True) c1 c'" using s by (rule schedule_sends) simp
  note f = sends_fields [OF snd]
  have c': "c' = c1\<lparr>cm_loop := cm_loop c'\<rparr>" using snd by (simp add: sends_def)
  have cnt: "cm_counter c' = cm_counter c + 1" by (subst c') (simp add: c1_def)
  have q: "mset (el_queue (cm_loop c')) = add_mset ?ev (mset (el_queue (cm_loop c)))"
    using s by (auto simp: schedule_def res_simps c1_def)
  have pend: "pending c' = add_mset (Inr (request_name (cm_counter c + 1))) (pending c)"
    by (simp add: pending_def q) (simp add: arrival_event_def data_str_def dict_get_def)
  have i: "cluster_inv c" "cm_active c = []" "cm_completed c = []"
    and names: "\<And>rid. Inr rid \<in># pending c \<Longrightarrow> \<exists>k \<le> cm_counter c. rid = request_name k"
    using assms(2) by (auto simp: arrivals_named_def)
  have new: "Inr (request_name (cm_counter c + 1)) \<notin># pending c" using names by force
  have known: "lg_active (ledger_of c') \<union> set (completed_ids c') = {}" "lg_active (ledger_of c) \<union> set (completed_ids c) = {}"
    by (simp_all add: ledger_of_def completed_ids_def f c1_def i)
  have "pending_fresh c'"
    unfolding pending_fresh_def known
  proof
    fix rid
    have "count (pending c) (Inr rid) \<le> 1" using i(1) known(2) by (simp add: cluster_inv_def pending_fresh_def)
    then show "count (pending c') (Inr rid) \<le> (if rid \<in> {} then 0 else 1)"
      using new by (auto simp: pend not_in_iff)
  qed
  moreover have "loop_inv (cm_loop c')" "el_handlers (cm_loop c') = handler_table"
    using i(1) loop_evolves_inv [OF sends_evolves [OF snd]] sends_evolves [OF snd]
    by (auto simp: cluster_inv_def loop_evolves_def c1_def)
  moreover have "books_ok c'" "engines_ok c'" "nodes_ok c'" and led: "ledger_of c' = ledger_of c"
    using i(1) by (simp_all add: cluster_inv_def cluster_parts f c1_def)
  ultimately have "cluster_inv c'" using i(1) by (simp add: cluster_inv_def)
  moreover have "\<exists>k \<le> cm_counter c'. rid = request_name k" if "Inr rid \<in># pending c'" for rid
    using that names cnt by (fastforce simp: pend)
  ultimately show ?thesis using led i f by (simp add: arrivals_named_def c1_def)
qed

lemma schedule_arrival_named:
  "schedule_arrival x t (mx, c) = Inr (mx', c') \<Longrightarrow> arrivals_named c \<Longrightarrow> arrivals_named c' \<and> ledger_of c' = ledger_of c"
  using next_arrival_named by (fastforce simp: schedule_arrival_def rbind_eq_Inr Let_def)

lemma schedule_arrivals_named:
  assumes "for_res (schedule_arrival x) ts (mx, c) = Inr (mx', c')" and "arrivals_named c"
  shows "arrivals_named c' \<and> ledger_of c' = ledger_of c"
proof -
  have "case (mx', c') of (mx, d) \<Rightarrow> arrivals_named d \<and> ledger_of d = ledger_of c"
    by (rule for_res_invariant [OF assms(1)]) (use assms(2) schedule_arrival_named in \<open>force split: prod.splits\<close>)+
  then show ?thesis by simp
qed

lemma schedule_balancing_sends:
  "schedule_balancing t d c = Inr c' \<Longrightarrow> sends not_arrival c c'"
proof (induction t d c rule: schedule_balancing.induct)
  case (1 t d c)
  show ?case
  proof (cases "t < d")
    case True
    then obtain c1 where s: "schedule (balance_event t) c = Inr c1" "schedule_balancing (t + 10) d c1 = Inr c'"
      using "1.prems" by (subst (asm) schedule_balancing.simps) (auto simp: rbind_eq_Inr)
    have "sends not_arrival c c1" using s(1) by (rule schedule_sends) (simp add: balance_event_def)
    also have "sends not_arrival c1 c'" by (rule "1.IH" [OF True s])
    finally show ?thesis .
  next
    case False
    then show ?thesis using "1.prems" by (subst (asm) schedule_balancing.simps) simp
  qed
qed

lemma node_failure_sends:
  "simulate_node_failure n a b c = Inr c' \<Longrightarrow> sends not_arrival c c'"
  by (auto simp: simulate_node_failure_def rbind_eq_Inr node_event_def intro!: sends_trans [OF schedule_sends schedule_sends])

text \<open>What the run relies on in the method that schedules the arrivals, whichever class provides it.\<close>

locale arrival_source =
  fixes arrivals :: arrival_scheduler
  assumes arrivals_keep: "arrivals d c = Some (Inr (m, c')) \<Longrightarrow> arrivals_named c \<Longrightarrow>
    arrivals_named c' \<and> ledger_of c' = ledger_of c"
begin

lemma prepare_run_named:
  assumes "prepare_run arrivals d f c = Some (Inr (tmax, c'))" and "arrivals_named c"
  shows "cluster_inv c' \<and> ledger_of c' = ledger_of c"
proof -
  have "arrivals_named (c\<lparr>cm_start_time := 0, cm_current_time := 0\<rparr>)"
    using assms(2) by (simp add: arrivals_named_def pending_def)
  moreover obtain m c1 sd where "arrivals d (c\<lparr>cm_start_time := 0, cm_current_time := 0\<rparr>) = Some (Inr (m, c1))"
    and rest: "rbind (schedule_balancing 10 sd c1) (\<lambda>c2.
         rbind (if f \<and> 1 < length (cc_nodes (cm_config c2))
                then rbind (py_nth (cc_nodes (cm_config c2)) 0) (\<lambda>node.
                  simulate_node_failure (nc_node_id node) (sd * (3 / 10)) (sd * (5 / 10)) c2)
                else Inr c2) (\<lambda>c3. Inr (if sd * 10 = 0 then 3600 else sd * 10, c3))) = Inr (tmax, c')"
    using assms(1) unfolding prepare_run_def by (auto simp: rbind_eq_Inr)
  ultimately have i: "arrivals_named c1 \<and> ledger_of c1 = ledger_of c" using arrivals_keep by fastforce
  obtain c2 where b: "schedule_balancing 10 sd c1 = Inr c2"
    and r2: "c' = c2 \<or> (\<exists>n a b. simulate_node_failure n a b c2 = Inr c')"
    using rest by (auto simp: rbind_eq_Inr split: if_splits)
  have "sends not_arrival c1 c2" by (rule schedule_balancing_sends [OF b])
  also have "sends not_arrival c2 c'" using r2 node_failure_sends by auto
  finally have s: "sends not_arrival c1 c'" .
  then show ?thesis using sends_inv [OF s] sends_ledger [OF s] i by (simp add: arrivals_named_def)
qed

lemma run_inv:
  assumes "run_with arrivals x d f c = Some (Inr c')" and "arrivals_named c"
  shows "cluster_inv c' \<and> ledger_step\<^sup>*\<^sup>* (ledger_of c) (ledger_of c')"
proof -
  obtain tmax c1 where p: "prepare_run arrivals d f c = Some (Inr (tmax, c1))"
  proof (cases "prepare_run arrivals d f c")
    case (Some y)
    then show ?thesis using assms(1) that by (cases y) (auto simp: run_with_def)
  qed (use assms(1) in \<open>simp add: run_with_def\<close>)
  obtain c2 where r: "run_loop x (Some tmax) (Some 10000000) c1 = Some (Inr c2)"
    and c': "c' = update_metrics (c2\<lparr>cm_current_time := el_time (cm_loop c2)\<rparr>)"
    using assms(1) p by (auto simp: run_with_def rbind_eq_Inr)
  note i = prepare_run_named [OF p assms(2)]
  have "cluster_inv c2 \<and> ledger_step\<^sup>*\<^sup>* (ledger_of c1) (ledger_of c2)" using cluster_run_inv [OF r] i by simp
  then show ?thesis using i update_metrics_inv [of "c2\<lparr>cm_current_time := el_time (cm_loop c2)\<rparr>"] by (simp add: c')
qed

text \<open>The books of a finished run.\<close>

lemma run_accounts:
  assumes "run_with arrivals x d f c = Some (Inr c')" and "arrivals_named c"
  shows "mt_total_requests (cm_metrics c') =
      mt_completed_requests (cm_metrics c') + mt_rejected_requests (cm_metrics c') + length (cm_active c')"
    and "mt_completed_requests (cm_metrics c') = length (cm_completed c')" and "distinct (completed_ids c')"
    and "fst ` set (cm_active c') \<inter> set (completed_ids c') = {}"
    and "set (cm_online c') \<union> set (cm_offline c') = fst ` set (cm_engines c')"
    and "set (cm_online c') \<inter> set (cm_offline c') = {}"
proof -
  have i: "cluster_inv c'" using run_inv [OF assms] by simp
  then have l: "ledger_inv (ledger_of c')" and "books_ok c'" and n: "nodes_ok c'" by (simp_all add: cluster_inv_def)
  then have b: "distinct (map fst (cm_active c'))" "mt_completed_requests (cm_metrics c') = length (cm_completed c')"
    by (simp_all add: books_ok_def)
  have "card (fst ` set (cm_active c')) = length (cm_active c')"
    using distinct_card [OF b(1)] by simp
  then show "mt_total_requests (cm_metrics c') =
      mt_completed_requests (cm_metrics c') + mt_rejected_requests (cm_metrics c') + length (cm_active c')"
    using l b(2) by (simp add: ledger_inv_def ledger_of_def completed_ids_def)
  show "mt_completed_requests (cm_metrics c') = length (cm_completed c')" by (rule b(2))
  show "distinct (completed_ids c')" "fst ` set (cm_active c') \<inter> set (completed_ids c') = {}"
    using l by (simp_all add: ledger_inv_def ledger_of_def)
  show "set (cm_online c') \<union> set (cm_offline c') = fst ` set (cm_engines c')" "set (cm_online c') \<inter> set (cm_offline c') = {}"
    using n by (simp_all add: nodes_ok_def)
qed

end

interpretation base_arrivals: arrival_source "schedule_request_arrivals x" for x
proof
  fix d c m c'
  assume "schedule_request_arrivals x d c = Some (Inr (m, c'))" and "arrivals_named c"
  then show "arrivals_named c' \<and> ledger_of c' = ledger_of c"
    using schedule_arrivals_named
    by (fastforce simp: schedule_request_arrivals_def rbind_eq_Inr split: option.splits)
qed

lemma place_on_engines:
  assumes "place_on x r rid d eid c = Inr c'"
  shows "\<exists>e. cm_engines c' = dict_set eid e (cm_engines c)"
proof -
  obtain ok h e' c1 where s: "store_engine eid e' (c\<lparr>cm_heap := h\<rparr>) = Inr c1"
    and rest: "(if \<not> ok then reject_request x r ''engine_rejection'' c1
       else schedule_engine_step eid
         (add_trace (lifecycle_event x ''RequestScheduled'' ''I'' (el_time (cm_loop c1)) rid
            [(''request_id'', PStr rid), (''target_engine'', PStr eid), (''placement_reason'', PStr (pd_reason d)),
             (''estimated_latency'', PNone)]) (record_placement_decision d c1))) = Inr c'"
    using assms unfolding place_on_def by (auto simp: rbind_eq_Inr)
  have "sends (\<lambda>_. True) (c\<lparr>cm_heap := h, cm_engines := dict_set eid (e'\<lparr>se_outbox := []\<rparr>) (cm_engines c)\<rparr>) c1"
    using store_engine_sends_any [OF s] by simp
  from sends_fields(4) [OF this] have "cm_engines c1 = dict_set eid (e'\<lparr>se_outbox := []\<rparr>) (cm_engines c)" by simp
  moreover have "cm_engines c' = cm_engines c1"
    using rest by (auto simp: schedule_engine_step_def schedule_def add_trace_def record_placement_decision_def Let_def
        reject_request_def res_simps split: if_splits)
  ultimately show ?thesis by auto
qed

section \<open>An example cluster\<close>

text \<open>One idle engine behind a round-robin scheduler, one request every second.\<close>

definition sample_cluster :: cluster where
  "sample_cluster = (empty_cluster
     \<lparr>cc_cluster_id = ''c'', cc_nodes = [\<lparr>nc_node_id = ''node_0'', nc_model_id = ''llama'', nc_hardware = ''NVDA:A100'',
        nc_max_batch_size = 8, nc_parallel_config = PC_None\<rparr>],
      cc_scheduler_algorithm = ''round_robin'', cc_scheduler_config = []\<rparr>
     (Deterministic 1) (new_scheduler (RoundRobinScheduler 0)))
     \<lparr>cm_loop := register_event_handlers loop_init, cm_engines := [(''node_0'', idle_engine 100)],
      cm_online := [''node_0'']\<rparr>"

definition sample_externals :: externals where
  "sample_externals = \<lparr>x_md5 = (\<lambda>_. 0), x_iter = (\<lambda>xs. xs), x_rnd = (\<lambda>_ _. 0), x_estimate = missing_estimate,
     x_draw = (\<lambda>_ _ _ _ _ _. 1), x_randint = (\<lambda>_ a b. a), x_from_pretrained = (\<lambda>_ _. Inr llama2_7b)\<rparr>"

lemma loop_inv_handlers: "loop_inv (register_event_handlers l) = loop_inv l"
  by (simp add: register_event_handlers_def)

lemma registered_fields [simp]:
  "el_queue (register_event_handlers l) = el_queue l" "el_time (register_event_handlers l) = el_time l"
  "el_by_type (register_event_handlers l) = el_by_type l" "el_processed (register_event_handlers l) = el_processed l"
  by (simp_all add: register_event_handlers_def register_handler_def)

lemma sample_cluster_ok: "arrivals_named sample_cluster" "cluster_inv sample_cluster"
proof -
  show i: "cluster_inv sample_cluster"
    unfolding cluster_inv_def
    by (simp add: sample_cluster_def empty_cluster_def loop_inv_handlers handler_table_def pending_fresh_def pending_def
        ledger_inv_def ledger_of_def completed_ids_def books_ok_def engines_ok_def nodes_ok_def zero_metrics_def
        idle_engine_def loop_init_def heap_list_def loop_inv_def)
  show "arrivals_named sample_cluster"
    using i by (simp add: arrivals_named_def pending_def sample_cluster_def empty_cluster_def loop_init_def)
qed

section \<open>Properties\<close>

text \<open>C1: The cluster refines the ledger of requests. From a well-formed cluster, whatever event is next and
  whatever the randomness and the set order are, a step of the event loop that returns keeps the cluster
  well-formed and is one step of the ledger: nothing, the arrival of a new request, or the completion or
  the rejection of one active request. The clock does not go back.\<close>

theorem cluster_refines_ledger:
  assumes "cluster_inv c" and "loop_step cm_loop set_loop (handle x) c = Inr (b, c')"
  shows "cluster_inv c' \<and> ledger_step (ledger_of c) (ledger_of c') \<and> el_time (cm_loop c) \<le> el_time (cm_loop c')"
  using cluster_step_inv [OF assms] cluster_loop.step_inv(2) [OF _ assms(2)] assms(1)
  by (simp add: cluster_inv_def)

definition arrived_cluster :: cluster where
  "arrived_cluster = set_loop ((cm_loop sample_cluster)\<lparr>el_queue := [arrival_event 3 ''req_1'' ''llama'' 10 2]\<rparr>) sample_cluster"

lemma arrived_cluster_inv: "cluster_inv arrived_cluster"
  unfolding cluster_inv_def
  by (simp add: arrived_cluster_def sample_cluster_def empty_cluster_def loop_inv_handlers handler_table_def
      pending_fresh_def pending_def ledger_inv_def ledger_of_def completed_ids_def books_ok_def engines_ok_def nodes_ok_def
      zero_metrics_def idle_engine_def loop_init_def heap_list_def loop_inv_def arrival_event_def)

theorem cluster_refines_ledger_witness:
  "\<exists>c'. loop_step cm_loop set_loop (handle sample_externals) arrived_cluster = Inr (True, c') \<and> cluster_inv c' \<and>
     lg_active (ledger_of c') = {''req_1''} \<and> ledger_step (ledger_of arrived_cluster) (ledger_of c')"
proof -
  have "el_handlers (register_event_handlers l) REQUEST_ARRIVAL = Some H_request_arrival" for l
    by (simp add: register_event_handlers_def register_handler_def)
  then obtain c' where run: "loop_step cm_loop set_loop (handle sample_externals) arrived_cluster = Inr (True, c')"
    and act: "map fst (cm_active c') = [''req_1'']"
    by (auto simp: loop_step_def loop_pop_def heappop_def arrived_cluster_def sample_cluster_def empty_cluster_def
        arrival_event_def handle_def handle_request_arrival_def data_str_def data_int_def dict_get_def Let_def
        schedule_def schedule_event_def placement_event_def add_trace_def)
  have "set (map fst (cm_active c')) = {''req_1''}" by (simp add: act)
  then have "lg_active (ledger_of c') = {''req_1''}" by (simp add: ledger_of_def)
  with run cluster_refines_ledger [OF arrived_cluster_inv run] show ?thesis by blast
qed

text \<open>C2: A simulation accounts for every request. From a cluster that knows no request, a simulation that
  returns, with or without node failures, ends with as many requests arrived as completed, rejected and
  still active together; the completion counter is the length of the list of completed requests, no
  request completed twice, none is both completed and active, and every node is either online or offline.\<close>

theorem simulation_accounts:
  assumes "arrivals_named c" and "run_simulation x duration enable_failures c = Some (Inr c')"
  shows "mt_total_requests (cm_metrics c') =
      mt_completed_requests (cm_metrics c') + mt_rejected_requests (cm_metrics c') + length (cm_active c') \<and>
    mt_completed_requests (cm_metrics c') = length (cm_completed c') \<and> distinct (completed_ids c') \<and>
    fst ` set (cm_active c') \<inter> set (completed_ids c') = {} \<and>
    set (cm_online c') \<union> set (cm_offline c') = fst ` set (cm_engines c') \<and> set (cm_online c') \<inter> set (cm_offline c') = {}"
  using base_arrivals.run_accounts [OF assms(2,1) [unfolded run_simulation_def]] by blast

text \<open>The same cluster with its node down, and one request: it arrives, and is rejected.\<close>

definition down_cluster :: cluster where
  "down_cluster = sample_cluster\<lparr>cm_online := [], cm_offline := [''node_0'']\<rparr>"

lemma down_cluster_named: "arrivals_named down_cluster"
  using sample_cluster_ok
  by (simp add: arrivals_named_def cluster_inv_def down_cluster_def cluster_parts pending_fresh_def pending_def sample_cluster_def)

lemma registered_handlers:
  "el_handlers (register_event_handlers l) REQUEST_ARRIVAL = Some H_request_arrival"
  "el_handlers (register_event_handlers l) PLACEMENT_DECISION = Some H_placement_decision"
  by (simp_all add: register_event_handlers_def register_handler_def)

lemma heappush_Nil: "heappush lt [] x = [x]"
  by (simp add: heappush_def siftdown.simps)

lemma heappop_single: "heappop lt [x] = Inr (x, [])"
  by (simp add: heappop_def)

lemma request_name_1: "request_name (Suc 0) = ''req_1''"
  by code_simp

lemma down_cluster_run:
  "\<exists>c'. run_simulation sample_externals (Some 1) False down_cluster = Some (Inr c') \<and>
     mt_rejected_requests (cm_metrics c') = 1 \<and> cm_active c' = []"
proof -
  let ?c1 = "down_cluster\<lparr>cm_counter := 1,
       cm_loop := (cm_loop down_cluster)\<lparr>el_queue := [arrival_event 0 ''req_1'' ''llama'' 128 32]\<rparr>\<rparr>"
  have p: "prepare_run (schedule_request_arrivals sample_externals) (Some 1) False down_cluster = Some (Inr (10, ?c1))"
    by (simp add: prepare_run_def effective_duration_def schedule_request_arrivals_def generate_arrivals_def deterministic_arrivals_def
        down_cluster_def sample_cluster_def empty_cluster_def py_int_def schedule_balancing.simps py_div_def
        schedule_arrival_def Let_def py_nth_def schedule_def schedule_event_def arrival_event_def sample_externals_def
        heappush_Nil loop_init_def request_name_1)
  have "\<exists>c2. run_loop sample_externals (Some 10) (Some 10000000) ?c1 = Some (Inr c2) \<and>
     mt_rejected_requests (cm_metrics c2) = 1 \<and> cm_active c2 = []"
    by (simp add: run_loop_def loop_run_def loop_while.simps loop_step_def loop_pop_def heappop_single heappush_Nil
        over_time_def over_events_def registered_handlers handle_def handle_request_arrival_def
        handle_placement_decision_def placement_event_def place_request_def available_engines_def reject_request_def
        data_str_def data_int_def dict_get_def schedule_def schedule_event_def add_trace_def Let_def
        down_cluster_def sample_cluster_def empty_cluster_def arrival_event_def loop_init_def new_request_def zero_metrics_def)
  then show ?thesis using p by (auto simp: run_simulation_def run_with_def update_metrics_def Let_def)
qed

theorem simulation_accounts_witness:
  "\<exists>c'. run_simulation sample_externals (Some 1) False down_cluster = Some (Inr c') \<and>
     mt_total_requests (cm_metrics c') = 1 + length (cm_completed c')"
proof -
  obtain c' where c': "run_simulation sample_externals (Some 1) False down_cluster = Some (Inr c')"
    "mt_rejected_requests (cm_metrics c') = 1" "cm_active c' = []"
    using down_cluster_run by blast
  then show ?thesis using simulation_accounts [OF down_cluster_named c'(1)] by auto
qed

text \<open>C24: A simulation ends. Whenever the arrival process yields its arrivals, \<open>run_simulation\<close> returns or
  raises, for every cluster, because the event loop runs under a limit of ten million events; without a
  duration it raises at once.\<close>

theorem simulation_returns:
  assumes "generate_arrivals (x_draw x) (cm_arrival c) 0 d 0 \<noteq> None"
  shows "(\<exists>r. run_simulation x (Some d) enable_failures c = Some r) \<and>
    run_simulation x None enable_failures c =
      Some (Inl (ValueError ''Duration must be provided for base ClusterManager''))"
proof -
  have run: "\<exists>r. run_loop x (Some t) (Some 10000000) c1 = Some r" for t c1
    using loop_while_returns [of 10000000 cm_loop set_loop "handle x" "Some t" 0] by (auto simp: run_loop_def loop_run_def)
  obtain p where p: "prepare_run (schedule_request_arrivals x) (Some d) enable_failures c = Some p"
    using assms by (auto simp: prepare_run_def schedule_request_arrivals_def)
  have "\<exists>r. run_simulation x (Some d) enable_failures c = Some r"
    using p run by (cases p) (auto simp: run_simulation_def run_with_def)
  then show ?thesis by (simp add: run_simulation_def run_with_def prepare_run_def schedule_request_arrivals_def)
qed

theorem simulation_returns_witness:
  "\<exists>r. run_simulation sample_externals (Some 3600) True sample_cluster = Some r"
  using simulation_returns [of sample_externals sample_cluster 3600 True]
  by (simp add: generate_arrivals_def sample_cluster_def empty_cluster_def)

text \<open>C25: Placement never touches a node that is offline: a placement decision that returns leaves the
  engine of every offline node as it was, whichever scheduler is in use.\<close>

theorem placement_skips_offline:
  assumes inv: "cluster_inv c" and run: "handle_placement_decision x ev c = Inr c'" and off: "nid \<in> set (cm_offline c)"
  shows "map_of (cm_engines c') nid = map_of (cm_engines c) nid"
proof -
  have dis: "nid \<notin> set (cm_online c)" using inv off by (auto simp: cluster_inv_def nodes_ok_def)
  have eng: "map_of (cm_engines (with_engines s es c)) nid = map_of (cm_engines c) nid"
    if "place_request rnd est s0 q (available_engines c) = Inr (d, s, es)" for rnd est s0 q d s es
    using fold_dict_other [of nid es "cm_engines c"] with_engines_inv(3) [OF inv that] dis by auto
  from run show ?thesis
  proof (cases rule: handle_placement_cases)
    case (none rid r s es)
    then show ?thesis using eng [OF none(2)] by (auto simp: reject_request_def res_simps Let_def add_trace_def)
  next
    case (placed rid r s es p eid)
    have "eid \<in> se_id ` set (available_engines c)" using place_request_still(2) [OF placed(2)] placed(3) by blast
    then have "eid \<noteq> nid" using available_engine(2) inv dis by (auto simp: cluster_inv_def)
    then show ?thesis using place_on_engines [OF placed(4)] eng [OF placed(2)] by (auto simp: update_conv')
  qed simp
qed

theorem placement_skips_offline_witness:
  "\<exists>c'. handle_placement_decision sample_externals (placement_event 0 ''req_9'') down_cluster = Inr c' \<and>
     map_of (cm_engines c') ''node_0'' = Some (idle_engine 100)"
proof -
  have run: "handle_placement_decision sample_externals (placement_event 0 ''req_9'') down_cluster = Inr down_cluster"
    by (simp add: handle_placement_decision_def placement_event_def data_str_def dict_get_def down_cluster_def
        sample_cluster_def empty_cluster_def)
  have "cluster_inv down_cluster" using down_cluster_named by (simp add: arrivals_named_def)
  from placement_skips_offline [OF this run, of "''node_0''"] run show ?thesis
    by (simp add: down_cluster_def sample_cluster_def)
qed

text \<open>The failure of a node reroutes nothing. When a node goes offline its requests stay where they are:
  no event is scheduled, the engines and the active requests are unchanged, because the queue the code
  takes the requests from, \<open>request_queue\<close>, is empty in every reachable cluster. A step event of the
  offline node is still processed as before.\<close>

theorem node_failure_reroutes_nothing:
  assumes "cluster_inv c" and "handle_node_offline ev c = Inr c'"
  shows "cm_loop c' = cm_loop c \<and> map_of (cm_engines c') = map_of (cm_engines c) \<and> cm_active c' = cm_active c \<and>
    cluster_inv c'"
  using node_offline_spec [OF assms] by blast

theorem node_failure_reroutes_nothing_witness:
  "\<exists>c'. handle_node_offline (node_event NODE_OFFLINE 1 ''node_0'') sample_cluster = Inr c' \<and>
     cm_offline c' = [''node_0''] \<and> el_queue (cm_loop c') = [] \<and> cluster_inv c'"
proof -
  obtain c' where run: "handle_node_offline (node_event NODE_OFFLINE 1 ''node_0'') sample_cluster = Inr c'"
    and off: "cm_offline c' = [''node_0'']"
    by (simp add: handle_node_offline_def node_event_def data_str_def dict_get_def sample_cluster_def
        empty_cluster_def rebalance_requests_def idle_engine_def Let_def set_add_def)
  from node_failure_reroutes_nothing [OF sample_cluster_ok(2) run] run off show ?thesis
    by (simp add: sample_cluster_def loop_init_def)
qed

lemma rbind_raises: "\<exists>e. m = Inl e \<Longrightarrow> \<exists>e. rbind m f = Inl e"
  by auto

lemma rbind_raises_later: "(\<And>x. \<exists>e. f x = Inl e) \<Longrightarrow> \<exists>e. rbind m f = Inl e"
  by (cases m) simp_all

text \<open>A cluster with nodes cannot be built: whatever the externals answer, the constructor raises for every
  configuration with at least one node, because it passes no model description to the engines.\<close>

lemma new_cluster_raises:
  assumes "cc_nodes cfg \<noteq> []"
  shows "\<exists>e. new_cluster x cfg arrival = Inl e"
proof -
  have "\<exists>e. new_planner params None hw w a k u pc b = Inl e" for params hw w a k u pc b
    by (cases "normalize_parallel_config pc") (simp_all add: new_planner_def)
  then have "\<exists>e. new_engine fp n m None hw pc mb = Inl e" for fp n m hw pc mb
    unfolding new_engine_def by (intro rbind_raises_later rbind_raises)
  then have add: "\<exists>e. add_node x n c = Inl e" for n c
    unfolding add_node_def by (intro rbind_raises)
  obtain n ns where "cc_nodes cfg = n # ns" using assms by (cases "cc_nodes cfg") auto
  then have init: "\<exists>e. initialize_cluster x (empty_cluster cfg arrival s) = Inl e" for s
    using add [of n "empty_cluster cfg arrival s"] by (auto simp: initialize_cluster_def empty_cluster_def)
  show ?thesis
    unfolding new_cluster_def
    by (cases "get_scheduler (cc_scheduler_algorithm cfg) (cc_scheduler_config cfg)") (simp_all add: init)
qed

end
