(* ===== verification/Sim_Placement.thy ===== *)
theory Sim_Placement
  imports Sim_Cluster_Inv "HOL-Library.Product_Lexorder" "HOL-Library.Log_Nat"
begin

text \<open>
  Placement of model replicas on physical nodes, \<open>simulator/core/placement.py\<close>: the three strategies
  and the decision maker. \<open>from_pretrained\<close> of the \<open>transformers\<close> package and numpy's generators are
  arguments. A strategy that simulates its candidates runs the cluster of \<open>Sim_Cluster\<close>.
\<close>

section \<open>Configurations\<close>

record physical_node =
  pn_gpu_type :: string
  pn_count :: int
  pn_gpus_per_node :: int
  pn_cost :: pyfloat

type_synonym dist = "string \<times> pyfloat list"

record workload_config =
  wl_model_id :: string
  wl_arrival_process :: arrival_process
  wl_duration :: pyfloat
  wl_input_dist :: dist
  wl_output_dist :: dist
  wl_tensor_parallel_size :: "int option"

text \<open>\<open>for _ in range(count)\<close>: one entry per machine.\<close>

definition flatten_nodes :: "physical_node list \<Rightarrow> physical_node list" where
  "flatten_nodes ps = concat (map (\<lambda>p. replicate (nat (pn_count p)) (p\<lparr>pn_count := 1\<rparr>)) ps)"

text \<open>\<open>sort(key=...)\<close> computes every key first, so an unknown GPU raises; it is stable, also in reverse.\<close>

definition vmemory_key :: "physical_node \<Rightarrow> pyfloat res" where
  "vmemory_key p = rbind (dict_get hardware_params (pn_gpu_type p)) (\<lambda>h. Inr (hw_vmemory h))"

definition sort_nodes :: "bool \<Rightarrow> physical_node list \<Rightarrow> physical_node list res" where
  "sort_nodes descending ps =
     rbind (map_res vmemory_key ps) (\<lambda>ks.
       Inr (map snd (sort_key (\<lambda>q. if descending then - fst q else fst q) (zip ks ps))))"

definition replica_node :: "nat \<Rightarrow> string \<Rightarrow> string \<Rightarrow> int \<Rightarrow> node_config" where
  "replica_node i model_id gpu_type tp_size = \<lparr>nc_node_id = ''node_'' @ str_nat i, nc_model_id = model_id,
     nc_hardware = gpu_type, nc_max_batch_size = 2048,
     nc_parallel_config = PC_Config (default_parallel_config\<lparr>tensor_parallel_size := tp_size\<rparr>)\<rparr>"

definition replica_nodes :: "nat \<Rightarrow> string \<Rightarrow> string \<Rightarrow> int \<Rightarrow> int \<Rightarrow> node_config list" where
  "replica_nodes node_counter model_id gpu_type tp_size replicas =
     map (\<lambda>r. replica_node (node_counter + r) model_id gpu_type tp_size) [0 ..< nat replicas]"

section \<open>Maximise replicas\<close>

definition model_module :: "string \<Rightarrow> model_config option" where
  "model_module model_id = (if py_in ''llama'' (py_lower model_id) \<or> py_in ''Llama'' model_id then Some llama else None)"

definition prefill_memory ::
  "(string \<Rightarrow> model_params res) \<Rightarrow> string \<Rightarrow> string \<Rightarrow> model_config \<Rightarrow> int \<Rightarrow> pyfloat res" where
  "prefill_memory from_pretrained hardware model_id config tp_size =
     rbind (new_analyzer from_pretrained model_id (Some config) hardware) (\<lambda>a.
     rbind (analyze a 1 1 16 16 None tp_size) (\<lambda>r. Inr (mf_consumption (an_memory r Prefill))))"

definition estimate_model_memory :: "(string \<Rightarrow> model_params res) \<Rightarrow> string \<Rightarrow> pyfloat" where
  "estimate_model_memory from_pretrained model_id =
     (case model_module model_id of
        None \<Rightarrow> 0
      | Some config \<Rightarrow>
          (case prefill_memory from_pretrained ''NVDA:A100'' model_id config 1 of Inl _ \<Rightarrow> 0 | Inr m \<Rightarrow> m))"

definition check_fits :: "(string \<Rightarrow> model_params res) \<Rightarrow> pyfloat \<Rightarrow> string \<Rightarrow> string \<Rightarrow> int \<Rightarrow> bool" where
  "check_fits from_pretrained memory_threshold hardware model_id tp_size =
     (case model_module model_id of
        None \<Rightarrow> False
      | Some config \<Rightarrow>
          (case rbind (prefill_memory from_pretrained hardware model_id config tp_size) (\<lambda>total_mem_needed.
                  rbind (dict_get hardware_params hardware) (\<lambda>h.
                    Inr (total_mem_needed < hw_vmemory h * memory_threshold))) of
             Inl _ \<Rightarrow> False
           | Inr fits \<Rightarrow> fits))"

text \<open>\<open>[2**i for i in range(int(math.log2(max_tp)) + 1)]\<close> for a positive \<open>max_tp\<close>.\<close>

definition tp_candidates :: "int \<Rightarrow> int list" where
  "tp_candidates max_tp = map (\<lambda>i. 2 ^ i) [0 ..< floorlog 2 (nat max_tp)]"

text \<open>The logarithm of a non-positive number raises, and the handler answers 1.\<close>

definition find_min_tp_size :: "(int \<Rightarrow> bool) \<Rightarrow> int \<Rightarrow> int" where
  "find_min_tp_size fits max_tp =
     (if max_tp \<le> 0 then 1
      else case find (\<lambda>tp. max_tp < tp \<or> fits tp) (tp_candidates max_tp) of
             Some tp \<Rightarrow> if max_tp < tp then max_tp + 1 else tp
           | None \<Rightarrow> max_tp + 1)"

definition min_tp_for ::
  "(string \<Rightarrow> model_params res) \<Rightarrow> pyfloat \<Rightarrow> string \<Rightarrow> int \<Rightarrow> workload_config \<Rightarrow> int" where
  "min_tp_for from_pretrained memory_threshold gpu_type gpus_per_node wl =
     (case wl_tensor_parallel_size wl of
        Some tp \<Rightarrow> tp
      | None \<Rightarrow> find_min_tp_size (check_fits from_pretrained memory_threshold gpu_type (wl_model_id wl)) gpus_per_node)"

definition compatible_workloads ::
  "(string \<Rightarrow> model_params res) \<Rightarrow> pyfloat \<Rightarrow> physical_node \<Rightarrow> workload_config list \<Rightarrow> (workload_config \<times> int) list" where
  "compatible_workloads from_pretrained memory_threshold p workloads =
     filter (\<lambda>(wl, min_tp). min_tp \<le> pn_gpus_per_node p)
       (map (\<lambda>wl. (wl, min_tp_for from_pretrained memory_threshold (pn_gpu_type p) (pn_gpus_per_node p) wl)) workloads)"

text \<open>The loop state of both greedy strategies: the replicas so far, their number, the cost, and the
  count each strategy balances.\<close>

record place_state =
  ps_node_configs :: "node_config list"
  ps_counter :: nat
  ps_cost :: pyfloat
  ps_counts :: "int pydict"

definition count_of :: "place_state \<Rightarrow> string \<Rightarrow> int" where
  "count_of s m = dict_get_default (ps_counts s) m 0"

definition zero_counts :: "workload_config list \<Rightarrow> int pydict" where
  "zero_counts workloads = fold (\<lambda>wl. dict_set (wl_model_id wl) 0) workloads []"

definition start_state :: "workload_config list \<Rightarrow> place_state" where
  "start_state workloads = \<lparr>ps_node_configs = [], ps_counter = 0, ps_cost = 0, ps_counts = zero_counts workloads\<rparr>"

text \<open>Use one machine for a workload: \<open>amount\<close> is what is added to its count.\<close>

definition use_node :: "physical_node \<Rightarrow> string \<Rightarrow> int \<Rightarrow> (int \<Rightarrow> int) \<Rightarrow> place_state \<Rightarrow> place_state res" where
  "use_node p model_id tp_size amount s =
     rbind (py_floordiv (pn_gpus_per_node p) tp_size) (\<lambda>replicas_per_node.
       Inr \<lparr>ps_node_configs = ps_node_configs s @ replica_nodes (ps_counter s) model_id (pn_gpu_type p) tp_size replicas_per_node,
            ps_counter = ps_counter s + nat replicas_per_node, ps_cost = ps_cost s + pn_cost p,
            ps_counts = dict_set model_id (count_of s model_id + amount replicas_per_node) (ps_counts s)\<rparr>)"

definition maximize_step ::
  "(string \<Rightarrow> model_params res) \<Rightarrow> pyfloat \<Rightarrow> workload_config list \<Rightarrow> physical_node \<Rightarrow> place_state \<Rightarrow> place_state res" where
  "maximize_step from_pretrained memory_threshold sorted_workloads p s =
     (let compatible = compatible_workloads from_pretrained memory_threshold p sorted_workloads in
      if compatible = [] then Inr s
      else rbind (py_min_by (\<lambda>q. count_of s (wl_model_id (fst q))) compatible) (\<lambda>(wl, tp_size).
        use_node p (wl_model_id wl) tp_size (\<lambda>replicas. replicas) s))"

datatype placement_meta =
    NoWorkloads string
  | MaximizeMeta "int pydict" pyfloat
  | BalancedMeta "pyfloat pydict" "pyfloat pydict" "int pydict" pyfloat
  | SearchMeta pyfloat "(nat \<times> pyfloat \<times> pyfloat \<times> (string \<times> string \<times> int \<times> int) list) list"

definition maximize_place ::
  "(string \<Rightarrow> model_params res) \<Rightarrow> pyfloat \<Rightarrow> physical_node list \<Rightarrow> workload_config list \<Rightarrow>
   (node_config list \<times> placement_meta) res" where
  "maximize_place from_pretrained memory_threshold physical_nodes workloads =
     (if workloads = [] then Inr ([], NoWorkloads ''maximize_replicas'')
      else rbind (sort_nodes False (flatten_nodes physical_nodes)) (\<lambda>individual_nodes.
        let sorted_workloads = sort_key (\<lambda>w. - estimate_model_memory from_pretrained (wl_model_id w)) workloads in
        rbind (for_res (maximize_step from_pretrained memory_threshold sorted_workloads) individual_nodes
            (start_state workloads)) (\<lambda>s.
          Inr (ps_node_configs s, MaximizeMeta (ps_counts s) (ps_cost s)))))"

section \<open>Balance by load\<close>

definition get_mean_from_dist :: "dist \<Rightarrow> pyfloat res" where
  "get_mean_from_dist d =
     (let (dist_type, params) = d in
      if dist_type = ''Poisson'' then py_nth params 0
      else if dist_type = ''Normal'' then py_nth params 0
      else if dist_type = ''Uniform'' then
        rbind (py_nth params 0) (\<lambda>a. rbind (py_nth params 1) (\<lambda>b. Inr ((a + b) / 2)))
      else if dist_type = ''Constant'' then py_nth params 0
      else Inr 100)"

definition load_score :: "workload_config \<Rightarrow> pyfloat res" where
  "load_score wl =
     rbind (get_mean_from_dist (wl_input_dist wl)) (\<lambda>avg_input.
     rbind (get_mean_from_dist (wl_output_dist wl)) (\<lambda>avg_output.
       Inr (arrival_rate (wl_arrival_process wl) * (avg_input + avg_output))))"

definition target_replicas :: "pyfloat pydict \<Rightarrow> pyfloat \<Rightarrow> nat \<Rightarrow> workload_config list \<Rightarrow> pyfloat pydict" where
  "target_replicas load_scores total_load total_nodes workloads =
     fold (\<lambda>wl. dict_set (wl_model_id wl)
       (if 0 < total_load then dict_get_default load_scores (wl_model_id wl) 0 / total_load * of_nat total_nodes
        else of_nat total_nodes / of_nat (length workloads))) workloads []"

text \<open>\<open>get_saturation_ratio\<close>: infinity, for a target of zero, is the pair with \<open>True\<close>.\<close>

definition saturation_ratio :: "pyfloat pydict \<Rightarrow> place_state \<Rightarrow> workload_config \<times> int \<Rightarrow> bool \<times> pyfloat" where
  "saturation_ratio targets s q =
     (let target = dict_get_default targets (wl_model_id (fst q)) 0
      in if target = 0 then (True, 0) else (False, of_int (count_of s (wl_model_id (fst q))) / target))"

definition balanced_step ::
  "(string \<Rightarrow> model_params res) \<Rightarrow> pyfloat \<Rightarrow> pyfloat pydict \<Rightarrow> workload_config list \<Rightarrow> physical_node \<Rightarrow> place_state \<Rightarrow>
   place_state res" where
  "balanced_step from_pretrained memory_threshold targets workloads p s =
     (let compatible = compatible_workloads from_pretrained memory_threshold p workloads in
      if compatible = [] then Inr s
      else rbind (py_min_by (saturation_ratio targets s) compatible) (\<lambda>(wl, tp_size).
        use_node p (wl_model_id wl) tp_size (\<lambda>_. 1) s))"

definition balanced_place ::
  "(string \<Rightarrow> model_params res) \<Rightarrow> pyfloat \<Rightarrow> physical_node list \<Rightarrow> workload_config list \<Rightarrow>
   (node_config list \<times> placement_meta) res" where
  "balanced_place from_pretrained memory_threshold physical_nodes workloads =
     (if workloads = [] then Inr ([], NoWorkloads ''workload_balanced'')
      else rbind (map_res load_score workloads) (\<lambda>scores.
        let load_scores = fold (\<lambda>(wl, sc). dict_set (wl_model_id wl) sc) (zip workloads scores) [];
            total_load = sum_list scores in
        rbind (sort_nodes True (flatten_nodes physical_nodes)) (\<lambda>individual_nodes.
        let targets = target_replicas load_scores total_load (length individual_nodes) workloads in
        rbind (for_res (balanced_step from_pretrained memory_threshold targets workloads) individual_nodes
            (start_state workloads)) (\<lambda>s.
          Inr (ps_node_configs s, BalancedMeta load_scores targets (ps_counts s) (ps_cost s))))))"

section \<open>Search by simulation\<close>

text \<open>\<open>generate_partitions\<close> is called with at least one bin.\<close>

function generate_partitions :: "int \<Rightarrow> nat \<Rightarrow> int list list" where
  "generate_partitions n k =
     (if k \<le> 1 then [[n]]
      else concat (map (\<lambda>i. map (Cons i) (generate_partitions (n - i) (k - 1))) [0 .. n]))"
  by pat_completeness auto
termination by (relation "measure snd") auto

declare generate_partitions.simps [simp del]

definition node_groups :: "physical_node list \<Rightarrow> int pydict" where
  "node_groups ps =
     fold (\<lambda>p d. dict_set (pn_gpu_type p) (dict_get_default d (pn_gpu_type p) 0 + pn_count p) d) ps []"

definition all_combinations :: "physical_node list \<Rightarrow> nat \<Rightarrow> int list list list" where
  "all_combinations ps k = product_lists (map (\<lambda>(gpu_type, count). generate_partitions count k) (node_groups ps))"

record assignment =
  as_gpu_type :: string
  as_count :: int
  as_gpus_per_node :: int
  as_tp_size :: int
  as_cost :: pyfloat

fun for_opt :: "('a \<Rightarrow> 's \<Rightarrow> 's option) \<Rightarrow> 'a list \<Rightarrow> 's \<Rightarrow> 's option" where
  "for_opt body [] s = Some s"
| "for_opt body (x # xs) s = (case body x s of None \<Rightarrow> None | Some s' \<Rightarrow> for_opt body xs s')"

text \<open>One bin of a partition; \<open>None\<close> is an invalid assignment.\<close>

definition assign_bin ::
  "(string \<Rightarrow> model_params res) \<Rightarrow> pyfloat \<Rightarrow> physical_node \<Rightarrow> workload_config list \<Rightarrow> nat \<times> int \<Rightarrow>
   assignment list list \<Rightarrow> assignment list list option" where
  "assign_bin from_pretrained memory_threshold p workloads bin acc =
     (let (wl_idx, count) = bin in
      if 0 < count
      then let min_tp = min_tp_for from_pretrained memory_threshold (pn_gpu_type p) (pn_gpus_per_node p) (workloads ! wl_idx)
           in if pn_gpus_per_node p < min_tp then None
              else Some (acc[wl_idx := acc ! wl_idx @ [\<lparr>as_gpu_type = pn_gpu_type p, as_count = count,
                as_gpus_per_node = pn_gpus_per_node p, as_tp_size = min_tp, as_cost = pn_cost p\<rparr>]])
      else Some acc)"

text \<open>The first physical node of a GPU type stands for all of them.\<close>

definition assign_type ::
  "(string \<Rightarrow> model_params res) \<Rightarrow> pyfloat \<Rightarrow> physical_node list \<Rightarrow> workload_config list \<Rightarrow> string \<times> int list \<Rightarrow>
   assignment list list \<Rightarrow> assignment list list option" where
  "assign_type from_pretrained memory_threshold physical_nodes workloads tp acc =
     (let (gpu_type, partition) = tp in
      case find (\<lambda>n. pn_gpu_type n = gpu_type) physical_nodes of
        None \<Rightarrow> None
      | Some p \<Rightarrow> for_opt (assign_bin from_pretrained memory_threshold p workloads) (enumerate 0 partition) acc)"

definition workload_assignments ::
  "(string \<Rightarrow> model_params res) \<Rightarrow> pyfloat \<Rightarrow> physical_node list \<Rightarrow> workload_config list \<Rightarrow> int list list \<Rightarrow>
   assignment list list option" where
  "workload_assignments from_pretrained memory_threshold physical_nodes workloads combination =
     for_opt (assign_type from_pretrained memory_threshold physical_nodes workloads)
       (zip (map fst (node_groups physical_nodes)) combination) (map (\<lambda>_. []) workloads)"

definition candidate_replicas :: "string \<Rightarrow> assignment \<Rightarrow> node_config list \<times> nat \<times> pyfloat \<Rightarrow> (node_config list \<times> nat \<times> pyfloat) res" where
  "candidate_replicas model_id a s = (case s of (nodes, node_counter, cost) \<Rightarrow>
     rbind (for_res (\<lambda>_ (nodes, node_counter).
         rbind (py_floordiv (as_gpus_per_node a) (as_tp_size a)) (\<lambda>replicas.
           Inr (nodes @ replica_nodes node_counter model_id (as_gpu_type a) (as_tp_size a) replicas,
             node_counter + nat replicas))) [0 ..< nat (as_count a)] (nodes, node_counter)) (\<lambda>(nodes', node_counter').
       Inr (nodes', node_counter', cost + of_int (as_count a) * as_cost a)))"

definition candidate_nodes ::
  "workload_config list \<Rightarrow> assignment list list \<Rightarrow> (node_config list \<times> nat \<times> pyfloat) res" where
  "candidate_nodes workloads assignments =
     for_res (\<lambda>(wl, as). for_res (candidate_replicas (wl_model_id wl)) as) (zip workloads assignments) ([], 0, 0)"

text \<open>The arrivals of the simulated candidates. A sampler gives the \<open>k\<close>-th draw of the distribution with
  the two parameters; numpy raises for some of them.\<close>

record samplers =
  smp_normal :: "nat \<Rightarrow> pyfloat \<Rightarrow> pyfloat \<Rightarrow> pyfloat res"
  smp_uniform :: "nat \<Rightarrow> pyfloat \<Rightarrow> pyfloat \<Rightarrow> pyfloat res"

definition sample_dist :: "samplers \<Rightarrow> int res \<Rightarrow> nat \<Rightarrow> dist \<Rightarrow> int res" where
  "sample_dist smp otherwise k d =
     (let (dtype, params) = d in
      if dtype = ''Normal'' then
        rbind (py_nth params 0) (\<lambda>a. rbind (py_nth params 1) (\<lambda>b. rbind (smp_normal smp k a b) (\<lambda>v. Inr (max 1 (py_int v)))))
      else if dtype = ''Uniform'' then
        rbind (py_nth params 0) (\<lambda>a. rbind (py_nth params 1) (\<lambda>b. rbind (smp_uniform smp k a b) (\<lambda>v. Inr (max 1 (py_int v)))))
      else if dtype = ''Constant'' then rbind (py_nth params 0) (\<lambda>a. Inr (py_int a))
      else otherwise)"

definition sim_arrival :: "samplers \<Rightarrow> int res \<Rightarrow> workload_config \<Rightarrow> pyfloat \<Rightarrow> cluster \<Rightarrow> cluster res" where
  "sim_arrival smp otherwise wl t c =
     (let n = cm_counter c + 1; c1 = c\<lparr>cm_counter := n\<rparr> in
      rbind (sample_dist smp otherwise (2 * cm_counter c) (wl_input_dist wl)) (\<lambda>inp.
      rbind (sample_dist smp otherwise (2 * cm_counter c + 1) (wl_output_dist wl)) (\<lambda>outp.
        schedule (arrival_event t (request_name n) (wl_model_id wl) inp outp) c1)))"

fun for_run :: "('a \<Rightarrow> 's \<Rightarrow> 's res option) \<Rightarrow> 'a list \<Rightarrow> 's \<Rightarrow> 's res option" where
  "for_run body [] s = Some (Inr s)"
| "for_run body (x # xs) s =
     (case body x s of None \<Rightarrow> None | Some (Inl e) \<Rightarrow> Some (Inl e) | Some (Inr s') \<Rightarrow> for_run body xs s')"

definition sim_workload_arrivals :: "externals \<Rightarrow> samplers \<Rightarrow> pyfloat \<Rightarrow> workload_config \<Rightarrow> cluster \<Rightarrow> cluster res option" where
  "sim_workload_arrivals x smp duration wl c =
     map_option (\<lambda>times. rbind times (\<lambda>ts. for_res (sim_arrival smp (Inr 100) wl) ts c))
       (generate_arrivals (x_draw x) (wl_arrival_process wl) (cm_start_time c) duration 0)"

definition sim_schedule_arrivals :: "externals \<Rightarrow> samplers \<Rightarrow> workload_config list \<Rightarrow> arrival_scheduler" where
  "sim_schedule_arrivals x smp workloads duration c =
     (case duration of
        None \<Rightarrow> if workloads = [] then Some (Inr (None, c)) else Some (Inl (TypeError ''unsupported operand type''))
      | Some d \<Rightarrow>
          map_option (\<lambda>r. rbind r (\<lambda>c'. Inr (None, c'))) (for_run (sim_workload_arrivals x smp d) workloads c))"

text \<open>Simulate a candidate; the result is its throughput. Every exception is caught by the caller.\<close>

definition simulate_candidate ::
  "externals \<Rightarrow> samplers \<Rightarrow> pyfloat \<Rightarrow> workload_config list \<Rightarrow> nat \<Rightarrow> node_config list \<Rightarrow> pyfloat res option" where
  "simulate_candidate x smp simulation_duration workloads i nodes =
     (case rbind (py_nth workloads 0) (\<lambda>wl.
         new_cluster x \<lparr>cc_cluster_id = ''sim_search_'' @ str_nat i, cc_nodes = nodes,
           cc_scheduler_algorithm = ''round_robin'', cc_scheduler_config = []\<rparr> (wl_arrival_process wl)) of
        Inl e \<Rightarrow> Some (Inl e)
      | Inr c \<Rightarrow>
          map_option (\<lambda>r. rbind r (\<lambda>c'. Inr (mt_throughput (cm_metrics c'))))
            (run_with (sim_schedule_arrivals x smp workloads) x (Some simulation_duration) False c))"

type_synonym search_state =
  "node_config list \<times> pyfloat \<times> (nat \<times> pyfloat \<times> pyfloat \<times> (string \<times> string \<times> int \<times> int) list) list"

definition search_step ::
  "externals \<Rightarrow> samplers \<Rightarrow> pyfloat \<Rightarrow> pyfloat \<Rightarrow> physical_node list \<Rightarrow> workload_config list \<Rightarrow> nat \<times> int list list \<Rightarrow>
   search_state \<Rightarrow> search_state res option" where
  "search_step x smp memory_threshold simulation_duration physical_nodes workloads ic st =
     (case st of (best_config, best_throughput, metadata) \<Rightarrow>
      let (i, combination) = ic in
      case workload_assignments (x_from_pretrained x True) memory_threshold physical_nodes workloads combination of
        None \<Rightarrow> Some (Inr st)
      | Some assignments \<Rightarrow>
          (case candidate_nodes workloads assignments of
             Inl e \<Rightarrow> Some (Inl e)
           | Inr (nodes, node_counter, cost) \<Rightarrow>
               if nodes = [] then Some (Inr st)
               else map_option (\<lambda>r. case r of
                   Inl e \<Rightarrow> Inr st
                 | Inr throughput \<Rightarrow>
                     let (b, bt) = (if best_throughput < throughput then (nodes, throughput) else (best_config, best_throughput))
                     in Inr (b, bt, metadata @ [(i, throughput, cost,
                          concat (map (\<lambda>(wl, as). map (\<lambda>a. (wl_model_id wl, as_gpu_type a, as_count a, as_tp_size a)) as)
                            (zip workloads assignments)))]))
                 (simulate_candidate x smp simulation_duration workloads i nodes)))"

definition search_place ::
  "externals \<Rightarrow> samplers \<Rightarrow> pyfloat \<Rightarrow> pyfloat \<Rightarrow> physical_node list \<Rightarrow> workload_config list \<Rightarrow>
   (node_config list \<times> placement_meta) res option" where
  "search_place x smp memory_threshold simulation_duration physical_nodes workloads =
     (if workloads = [] then Some (Inr ([], NoWorkloads ''simulation_search''))
      else map_option (\<lambda>r. rbind r (\<lambda>(best_config, best_throughput, metadata).
          Inr (best_config, SearchMeta best_throughput metadata)))
        (for_run (search_step x smp memory_threshold simulation_duration physical_nodes workloads)
          (enumerate 0 (all_combinations physical_nodes (length workloads))) ([], -1, [])))"

section \<open>The decision maker\<close>

datatype strategy =
    MaximizeReplicasStrategy pyfloat
  | WorkloadBalancedPlacementStrategy pyfloat
  | SimulationSearchPlacementStrategy pyfloat pyfloat

definition get_strategy :: "string \<Rightarrow> pyfloat \<Rightarrow> strategy res" where
  "get_strategy name memory_threshold =
     (if name = ''maximize_replicas'' then Inr (MaximizeReplicasStrategy memory_threshold)
      else if name = ''workload_balanced'' then Inr (WorkloadBalancedPlacementStrategy memory_threshold)
      else if name = ''simulation_search'' then Inr (SimulationSearchPlacementStrategy memory_threshold 10)
      else Inl (ValueError ''Unknown placement strategy''))"

definition strategy_place ::
  "externals \<Rightarrow> samplers \<Rightarrow> strategy \<Rightarrow> physical_node list \<Rightarrow> workload_config list \<Rightarrow>
   (node_config list \<times> placement_meta) res option" where
  "strategy_place x smp s physical_nodes workloads =
     (case s of
        MaximizeReplicasStrategy t \<Rightarrow> Some (maximize_place (x_from_pretrained x True) t physical_nodes workloads)
      | WorkloadBalancedPlacementStrategy t \<Rightarrow> Some (balanced_place (x_from_pretrained x True) t physical_nodes workloads)
      | SimulationSearchPlacementStrategy t d \<Rightarrow> search_place x smp t d physical_nodes workloads)"

section \<open>The smallest tensor-parallel size\<close>

lemma tp_candidates_mem: "0 < max_tp \<Longrightarrow> tp \<in> set (tp_candidates max_tp) \<longleftrightarrow> (\<exists>i. tp = 2 ^ i \<and> tp \<le> max_tp)"
proof -
  assume pos: "0 < max_tp"
  have iff: "i < floorlog 2 (nat max_tp) \<longleftrightarrow> (2 :: int) ^ i \<le> max_tp" for i
  proof -
    have "i < floorlog 2 (nat max_tp) \<longleftrightarrow> 2 ^ i \<le> nat max_tp"
      using floorlog_le_iff [of 2 "nat max_tp" i] by auto
    also have "\<dots> \<longleftrightarrow> (2 :: int) ^ i \<le> max_tp" using pos by (simp add: le_nat_iff)
    finally show ?thesis .
  qed
  have "set (tp_candidates max_tp) = (\<lambda>i. 2 ^ i) ` {i. i < floorlog 2 (nat max_tp)}"
    by (simp add: tp_candidates_def atLeast0LessThan lessThan_def)
  also have "{i. i < floorlog 2 (nat max_tp)} = {i. (2 :: int) ^ i \<le> max_tp}" by (simp only: iff)
  finally have set: "set (tp_candidates max_tp) = (\<lambda>i. 2 ^ i) ` {i. (2 :: int) ^ i \<le> max_tp}" .
  show ?thesis unfolding set by blast
qed

lemma tp_candidates_sorted: "sorted (tp_candidates max_tp)" "distinct (tp_candidates max_tp)"
  by (auto simp: tp_candidates_def sorted_map sorted_wrt_iff_nth_less distinct_map inj_on_def)

lemma find_least:
  assumes "sorted xs" "find P xs = Some x"
  shows "x \<in> set xs \<and> P x \<and> (\<forall>y \<in> set xs. P y \<longrightarrow> x \<le> y)"
  using assms
proof (induction xs)
  case (Cons a xs)
  then show ?case by (cases "P a") auto
qed simp

lemma find_min_tp_size_spec:
  assumes "1 \<le> max_tp"
  shows "(\<exists>i. find_min_tp_size fits max_tp = 2 ^ i \<and> fits (2 ^ i) \<and> 2 ^ i \<le> max_tp \<and>
      (\<forall>j. 2 ^ j \<le> max_tp \<longrightarrow> fits (2 ^ j) \<longrightarrow> i \<le> j)) \<or>
    find_min_tp_size fits max_tp = max_tp + 1 \<and> (\<forall>j. 2 ^ j \<le> max_tp \<longrightarrow> \<not> fits (2 ^ j))"
proof -
  let ?P = "\<lambda>tp. max_tp < tp \<or> fits tp"
  have mem: "tp \<in> set (tp_candidates max_tp) \<longleftrightarrow> (\<exists>i. tp = 2 ^ i \<and> tp \<le> max_tp)" for tp
    using tp_candidates_mem [of max_tp tp] assms by simp
  show ?thesis
  proof (cases "find ?P (tp_candidates max_tp)")
    case None
    then have "\<not> fits (2 ^ j)" if "2 ^ j \<le> max_tp" for j
      using that mem [of "2 ^ j"] by (auto simp: find_None_iff)
    then show ?thesis using None assms by (simp add: find_min_tp_size_def)
  next
    case (Some tp)
    note l = find_least [OF tp_candidates_sorted(1) Some]
    then obtain i where i: "tp = 2 ^ i" "tp \<le> max_tp" using mem by blast
    have "i \<le> j" if "2 ^ j \<le> max_tp" "fits (2 ^ j)" for j
    proof -
      have "(2 :: int) ^ i \<le> 2 ^ j" using l that mem [of "2 ^ j"] i(1) by blast
      then show ?thesis by simp
    qed
    then show ?thesis using Some i l assms by (auto simp: find_min_tp_size_def)
  qed
qed

lemma find_min_tp_size_pos: "1 \<le> find_min_tp_size fits max_tp"
proof (cases "1 \<le> max_tp")
  case True
  then show ?thesis using find_min_tp_size_spec [of max_tp fits] by (auto simp: one_le_power)
qed (simp add: find_min_tp_size_def)

section \<open>Partitions\<close>

lemma generate_partitions_one: "generate_partitions n (Suc 0) = [[n]]"
  by (simp add: generate_partitions.simps)

lemma generate_partitions_Suc:
  "generate_partitions n (Suc (Suc k)) = concat (map (\<lambda>i. map (Cons i) (generate_partitions (n - i) (Suc k))) [0 .. n])"
  by (subst generate_partitions.simps) simp

lemma generate_partitions_set:
  "set (generate_partitions n (Suc k)) =
     {xs. length xs = Suc k \<and> (0 \<le> n \<or> k = 0) \<and> (\<forall>x \<in> set xs. 0 \<le> x \<or> k = 0) \<and> sum_list xs = n}"
proof (induction k arbitrary: n)
  case 0
  show ?case by (auto simp: generate_partitions_one length_Suc_conv)
next
  case (Suc k)
  have "xs \<in> set (generate_partitions n (Suc (Suc k))) \<longleftrightarrow>
      length xs = Suc (Suc k) \<and> 0 \<le> n \<and> (\<forall>x \<in> set xs. 0 \<le> x) \<and> sum_list xs = n" for xs
  proof (cases xs)
    case (Cons i ys)
    have "sum_list ys \<ge> 0" if "\<forall>x \<in> set ys. 0 \<le> x" using that by (intro sum_list_nonneg) auto
    moreover have "0 \<le> y" if "length ys = Suc 0" "sum_list ys = n - i" "i \<le> n" "y \<in> set ys" for y
      using that by (auto simp: length_Suc_conv)
    ultimately show ?thesis
      by (auto simp: Cons generate_partitions_Suc Suc image_iff) 
  qed (auto simp: generate_partitions_Suc)
  then show ?case by auto
qed

lemma generate_partitions_distinct: "distinct (generate_partitions n (Suc k))"
proof (induction k arbitrary: n)
  case (Suc k)
  have "distinct (concat (map (\<lambda>i. map (Cons i) (generate_partitions (n - i) (Suc k))) is))"
    if "distinct is" for "is"
    using that by (induction "is") (auto simp: distinct_map Suc)
  then show ?case by (simp add: generate_partitions_Suc)
qed (simp add: generate_partitions_one)

lemma generate_partitions_length:
  "length (generate_partitions (int n) (Suc k)) = (n + k) choose k"
proof (induction k arbitrary: n)
  case (Suc k)
  have "length (generate_partitions (int n) (Suc (Suc k))) =
      sum_list (map (\<lambda>i. length (generate_partitions (int n - i) (Suc k))) [0 .. int n])"
    by (simp add: generate_partitions_Suc length_concat o_def)
  also have "\<dots> = (\<Sum>i \<in> {0 .. int n}. length (generate_partitions (int n - i) (Suc k)))"
    by (simp add: sum_list_distinct_conv_sum_set)
  also have "\<dots> = (\<Sum>j \<le> n. length (generate_partitions (int j) (Suc k)))"
    by (rule sum.reindex_bij_witness [of _ "\<lambda>j. int n - int j" "\<lambda>i. nat (int n - i)"]) auto
  also have "\<dots> = (\<Sum>j \<le> n. (k + j) choose k)" by (simp add: Suc add.commute)
  also have "\<dots> = (k + n + 1) choose (k + 1)" by (rule choose_rising_sum(1))
  finally show ?case by (simp add: add.commute)
qed (simp add: generate_partitions_one)

section \<open>The greedy strategies\<close>

text \<open>The GPUs a replica occupies.\<close>

definition node_gpus :: "node_config \<Rightarrow> int" where
  "node_gpus n = (case nc_parallel_config n of PC_Config c \<Rightarrow> tensor_parallel_size c | _ \<Rightarrow> 1)"

lemma node_gpus_replica [simp]: "node_gpus (replica_node i m g tp) = tp"
  by (simp add: node_gpus_def replica_node_def)

definition gpus_of :: "physical_node list \<Rightarrow> int" where
  "gpus_of ps = sum_list (map (\<lambda>p. max 0 (pn_gpus_per_node p)) ps)"

definition node_name :: "nat \<Rightarrow> string" where
  "node_name i = ''node_'' @ str_nat i"

lemma replica_nodes_length: "length (replica_nodes i m g tp k) = nat k"
  by (simp add: replica_nodes_def)

lemma replica_nodes_names: "map nc_node_id (replica_nodes i m g tp k) = map node_name [i ..< i + nat k]"
  by (auto simp: replica_nodes_def replica_node_def node_name_def intro!: nth_equalityI)

lemma replica_nodes_gpus: "0 \<le> k \<Longrightarrow> sum_list (map node_gpus (replica_nodes i m g tp k)) = k * tp"
  by (simp add: replica_nodes_def o_def sum_list_triv)

text \<open>Where a replica may stand: on a machine of its hardware with enough GPUs, for one of the workloads
  with the size that workload asks for.\<close>

definition well_placed ::
  "(string \<Rightarrow> int \<Rightarrow> workload_config \<Rightarrow> int) \<Rightarrow> physical_node list \<Rightarrow> workload_config list \<Rightarrow> node_config \<Rightarrow> bool" where
  "well_placed tp_for ps wls n \<longleftrightarrow> (\<exists>p \<in> set ps. \<exists>wl \<in> set wls.
     nc_hardware n = pn_gpu_type p \<and> nc_model_id n = wl_model_id wl \<and>
     node_gpus n = tp_for (pn_gpu_type p) (pn_gpus_per_node p) wl \<and> 1 \<le> node_gpus n \<and> node_gpus n \<le> pn_gpus_per_node p)"

definition placing ::
  "(string \<Rightarrow> int \<Rightarrow> workload_config \<Rightarrow> int) \<Rightarrow> physical_node list \<Rightarrow> workload_config list \<Rightarrow> place_state \<Rightarrow> bool" where
  "placing tp_for ps wls s \<longleftrightarrow> map nc_node_id (ps_node_configs s) = map node_name [0 ..< ps_counter s] \<and>
     sum_list (map node_gpus (ps_node_configs s)) \<le> gpus_of ps \<and> (\<forall>n \<in> set (ps_node_configs s). well_placed tp_for ps wls n)"

text \<open>A greedy strategy: each machine is skipped, or used for one of the workloads that fit it.\<close>

locale greedy_strategy =
  fixes step :: "physical_node \<Rightarrow> place_state \<Rightarrow> place_state res"
    and tp_for :: "string \<Rightarrow> int \<Rightarrow> workload_config \<Rightarrow> int"
    and wls :: "workload_config list"
  assumes step_cases: "step p s = Inr s \<or>
      (\<exists>wl amount. wl \<in> set wls \<and> tp_for (pn_gpu_type p) (pn_gpus_per_node p) wl \<le> pn_gpus_per_node p \<and>
        step p s = use_node p (wl_model_id wl) (tp_for (pn_gpu_type p) (pn_gpus_per_node p) wl) amount s)"
begin

lemma placing_mono:
  assumes "placing tp_for ps wls s"
  shows "placing tp_for (ps @ [p]) wls s"
  using assms by (fastforce simp: placing_def well_placed_def gpus_of_def)

lemma step_placing:
  assumes "placing tp_for ps wls s" and tp_pos: "\<And>wl g n. wl \<in> set wls \<Longrightarrow> 1 \<le> tp_for g n wl"
  shows "\<exists>s'. step p s = Inr s' \<and> placing tp_for (ps @ [p]) wls s'"
proof (cases "step p s = Inr s")
  case True
  then show ?thesis using placing_mono [OF assms(1)] by blast
next
  case False
  then obtain wl amount where wl: "wl \<in> set wls"
    and fit: "tp_for (pn_gpu_type p) (pn_gpus_per_node p) wl \<le> pn_gpus_per_node p"
    and st: "step p s = use_node p (wl_model_id wl) (tp_for (pn_gpu_type p) (pn_gpus_per_node p) wl) amount s"
    using step_cases by blast
  define tp where "tp = tp_for (pn_gpu_type p) (pn_gpus_per_node p) wl"
  define k where "k = pn_gpus_per_node p div tp"
  have tp: "1 \<le> tp" "tp \<le> pn_gpus_per_node p" using tp_pos [OF wl] fit by (simp_all add: tp_def)
  have k: "0 \<le> k" "k * tp \<le> pn_gpus_per_node p"
    using tp minus_mod_eq_div_mult [symmetric, of "pn_gpus_per_node p" tp] pos_mod_sign [of tp "pn_gpus_per_node p"]
    by (simp_all add: k_def pos_imp_zdiv_nonneg_iff)
  let ?new = "replica_nodes (ps_counter s) (wl_model_id wl) (pn_gpu_type p) tp k"
  obtain s' where s': "step p s = Inr s'" "ps_node_configs s' = ps_node_configs s @ ?new" "ps_counter s' = ps_counter s + nat k"
    using st tp by (simp add: use_node_def py_floordiv_def tp_def [symmetric] k_def)
  have "map nc_node_id (ps_node_configs s') = map node_name [0 ..< ps_counter s']"
    using assms(1) by (simp add: s' replica_nodes_names placing_def) (metis le0 map_append upt_add_eq_append plus_nat.add_0)
  moreover have "sum_list (map node_gpus (ps_node_configs s')) \<le> gpus_of (ps @ [p])"
    using assms(1) k tp by (simp add: s' replica_nodes_gpus placing_def gpus_of_def)
  moreover have "well_placed tp_for (ps @ [p]) wls n" if "n \<in> set ?new" for n
    using that wl tp unfolding well_placed_def
    by (auto simp: replica_nodes_def replica_node_def node_gpus_def tp_def intro!: bexI [of _ wl])
  moreover have "\<forall>n \<in> set (ps_node_configs s). well_placed tp_for (ps @ [p]) wls n"
    using placing_mono [OF assms(1)] by (simp add: placing_def)
  ultimately show ?thesis using s' by (auto simp: placing_def)
qed

lemma run_placing:
  assumes "placing tp_for ps wls s" and "\<And>wl g n. wl \<in> set wls \<Longrightarrow> 1 \<le> tp_for g n wl"
  shows "\<exists>s'. for_res step qs s = Inr s' \<and> placing tp_for (ps @ qs) wls s'"
  using assms(1)
proof (induction qs arbitrary: ps s)
  case (Cons q qs)
  then show ?case using step_placing [of ps s q, OF _ assms(2)] Cons.IH [of "ps @ [q]"] by fastforce
qed simp

end

definition tp_sizes_ok :: "workload_config list \<Rightarrow> bool" where
  "tp_sizes_ok wls \<longleftrightarrow> (\<forall>wl \<in> set wls. \<forall>tp. wl_tensor_parallel_size wl = Some tp \<longrightarrow> 1 \<le> tp)"

lemma min_tp_for_pos: "tp_sizes_ok wls \<Longrightarrow> wl \<in> set wls \<Longrightarrow> 1 \<le> min_tp_for fp t g n wl"
  using find_min_tp_size_pos by (auto simp: tp_sizes_ok_def min_tp_for_def split: option.split)

lemma compatible_mem:
  "(wl, tp) \<in> set (compatible_workloads fp t p wls) \<longleftrightarrow>
     wl \<in> set wls \<and> tp = min_tp_for fp t (pn_gpu_type p) (pn_gpus_per_node p) wl \<and> tp \<le> pn_gpus_per_node p"
  by (auto simp: compatible_workloads_def)

lemma greedy_choice:
  assumes "compatible_workloads fp t p wls \<noteq> []"
  shows "\<exists>wl. py_min_by key (compatible_workloads fp t p wls) =
      Inr (wl, min_tp_for fp t (pn_gpu_type p) (pn_gpus_per_node p) wl) \<and> wl \<in> set wls \<and>
      min_tp_for fp t (pn_gpu_type p) (pn_gpus_per_node p) wl \<le> pn_gpus_per_node p"
proof -
  obtain q where q: "py_min_by key (compatible_workloads fp t p wls) = Inr q"
    using py_min_by_total [OF assms, of key] by blast
  obtain wl tp where [simp]: "q = (wl, tp)" by force
  have "(wl, tp) \<in> set (compatible_workloads fp t p wls)" using py_min_by_Inr(1) [OF q] by simp
  then show ?thesis using q unfolding compatible_mem by simp
qed

interpretation maximize: greedy_strategy "maximize_step fp t wls" "min_tp_for fp t" wls for fp t wls
proof
  fix p s
  show "maximize_step fp t wls p s = Inr s \<or>
      (\<exists>wl amount. wl \<in> set wls \<and> min_tp_for fp t (pn_gpu_type p) (pn_gpus_per_node p) wl \<le> pn_gpus_per_node p \<and>
        maximize_step fp t wls p s =
          use_node p (wl_model_id wl) (min_tp_for fp t (pn_gpu_type p) (pn_gpus_per_node p) wl) amount s)"
  proof (cases "compatible_workloads fp t p wls = []")
    case False
    from greedy_choice [OF this, of "\<lambda>q. count_of s (wl_model_id (fst q))"] show ?thesis
      using False unfolding maximize_step_def Let_def by fastforce
  qed (simp add: maximize_step_def)
qed

interpretation balanced: greedy_strategy "balanced_step fp t targets wls" "min_tp_for fp t" wls for fp t targets wls
proof
  fix p s
  show "balanced_step fp t targets wls p s = Inr s \<or>
      (\<exists>wl amount. wl \<in> set wls \<and> min_tp_for fp t (pn_gpu_type p) (pn_gpus_per_node p) wl \<le> pn_gpus_per_node p \<and>
        balanced_step fp t targets wls p s =
          use_node p (wl_model_id wl) (min_tp_for fp t (pn_gpu_type p) (pn_gpus_per_node p) wl) amount s)"
  proof (cases "compatible_workloads fp t p wls = []")
    case False
    from greedy_choice [OF this, of "saturation_ratio targets s"] show ?thesis
      using False unfolding balanced_step_def Let_def by fastforce
  qed (simp add: balanced_step_def)
qed

text \<open>Sorting and flattening lose no machine.\<close>

lemma sort_nodes_spec:
  assumes "\<forall>p \<in> set ps. dict_has hardware_params (pn_gpu_type p)"
  shows "\<exists>qs. sort_nodes d ps = Inr qs \<and> mset qs = mset ps"
proof -
  have "\<exists>ks. map_res vmemory_key ps = Inr ks"
    using assms by (induction ps) (auto simp: vmemory_key_def dict_get_def)
  then obtain ks where ks: "map_res vmemory_key ps = Inr ks" by blast
  then have "length ks = length ps" by (auto simp: map_res_Inr dest: list_all2_lengthD)
  then have "mset (map snd (sort_key f (zip ks ps))) = mset ps" for f
    by (metis map_snd_zip mset_map mset_sort)
  then show ?thesis using ks by (simp add: sort_nodes_def)
qed

lemma gpus_of_sum_mset: "gpus_of xs = sum_mset (image_mset (\<lambda>p. max 0 (pn_gpus_per_node p)) (mset xs))"
  by (simp add: gpus_of_def sum_mset_sum_list [symmetric])

lemma gpus_of_mset: "mset qs = mset ps \<Longrightarrow> gpus_of qs = gpus_of ps"
  by (simp add: gpus_of_sum_mset)

lemma gpus_of_flatten:
  "gpus_of (flatten_nodes ps) = sum_list (map (\<lambda>p. max 0 (pn_count p) * max 0 (pn_gpus_per_node p)) ps)"
  by (induction ps) (auto simp: gpus_of_def flatten_nodes_def sum_list_replicate)

lemma well_placed_cong:
  assumes "well_placed tp_for qs wls' n" "mset qs = mset (flatten_nodes ps)" "set wls' = set wls"
  shows "well_placed tp_for ps wls n"
proof -
  have "\<exists>p' \<in> set ps. pn_gpu_type p' = pn_gpu_type p \<and> pn_gpus_per_node p' = pn_gpus_per_node p" if "p \<in> set qs" for p
  proof -
    have "p \<in> set (flatten_nodes ps)" using that assms(2) by (metis set_mset_mset)
    then show ?thesis by (fastforce simp: flatten_nodes_def)
  qed
  then show ?thesis using assms(1,3) unfolding well_placed_def by metis
qed

section \<open>Properties\<close>

text \<open>The tensor-parallel size chosen for a machine is minimal: for a machine with at least one GPU it is
  the smallest power of two up to the number of GPUs for which the model fits, and one more than the
  number of GPUs, which every caller treats as a failure, exactly when none fits.\<close>

theorem find_min_tp_size_minimal:
  assumes "1 \<le> max_tp"
  shows "(\<exists>i. find_min_tp_size fits max_tp = 2 ^ i \<and> fits (2 ^ i) \<and> 2 ^ i \<le> max_tp \<and>
      (\<forall>j. 2 ^ j \<le> max_tp \<longrightarrow> fits (2 ^ j) \<longrightarrow> i \<le> j)) \<or>
    find_min_tp_size fits max_tp = max_tp + 1 \<and> (\<forall>j. 2 ^ j \<le> max_tp \<longrightarrow> \<not> fits (2 ^ j))"
  using assms by (rule find_min_tp_size_spec)

theorem find_min_tp_size_minimal_witness: "find_min_tp_size (\<lambda>tp. 3 \<le> tp) 8 = 4"
proof -
  from find_min_tp_size_minimal [of 8 "\<lambda>tp. 3 \<le> tp"]
  obtain i where i: "find_min_tp_size (\<lambda>tp. 3 \<le> tp) 8 = 2 ^ i" "(3 :: int) \<le> 2 ^ i"
    "\<forall>j. (2 :: int) ^ j \<le> 8 \<longrightarrow> 3 \<le> (2 :: int) ^ j \<longrightarrow> i \<le> j"
    by (auto dest: spec [of _ 3])
  have "i \<le> 2" using i(3) by (auto dest: spec [of _ 2])
  moreover have "i \<noteq> 0" "i \<noteq> 1" using i(2) by (auto intro: ccontr)
  ultimately have "i = 2" by linarith
  then show ?thesis using i(1) by simp
qed

text \<open>C37: The search enumerates every split exactly once: for a non-negative number of machines and at least
  one workload the partitions are pairwise different and are exactly the lists of non-negative counts, one
  per workload, that sum to the number of machines; there are as many as stars and bars predicts.\<close>

theorem generate_partitions_exact:
  assumes "1 \<le> k"
  shows "distinct (generate_partitions (int n) k) \<and>
    set (generate_partitions (int n) k) = {xs. length xs = k \<and> (\<forall>x \<in> set xs. 0 \<le> x) \<and> sum_list xs = int n} \<and>
    length (generate_partitions (int n) k) = (n + k - 1) choose (k - 1)"
proof -
  obtain j where k: "k = Suc j" using assms by (cases k) auto
  have "(\<forall>x \<in> set xs. 0 \<le> x \<or> j = 0) \<longleftrightarrow> (\<forall>x \<in> set xs. 0 \<le> x)"
    if "length xs = Suc j" "sum_list xs = int n" for xs :: "int list"
    using that by (cases "j = 0") (auto simp: length_Suc_conv)
  then have "set (generate_partitions (int n) k) = {xs. length xs = k \<and> (\<forall>x \<in> set xs. 0 \<le> x) \<and> sum_list xs = int n}"
    by (auto simp: k generate_partitions_set)
  then show ?thesis by (simp add: k generate_partitions_distinct generate_partitions_length)
qed

theorem generate_partitions_exact_witness:
  "[1, 2, 0] \<in> set (generate_partitions (int 3) 3) \<and> length (generate_partitions (int 3) 3) = 10"
proof -
  have "(5 choose 2) = (10 :: nat)" by (simp add: choose_two)
  then show ?thesis using generate_partitions_exact [of 3 3] by simp
qed

text \<open>C36: The greedy strategies respect the machines. For known GPU types and positive tensor-parallel sizes,
  maximising replicas always succeeds, and so does balancing by load when it can compute the loads; the
  replicas are numbered from 0 without gaps, together they occupy no more GPUs than there are, and each
  stands on a machine of its hardware with enough GPUs, for a workload, with the size chosen for it.\<close>

theorem greedy_placement_sound:
  assumes known: "\<forall>p \<in> set ps. dict_has hardware_params (pn_gpu_type p)" and tp: "tp_sizes_ok wls" and "wls \<noteq> []"
    and loads: "map_res load_score wls = Inr scores"
    and s: "s = MaximizeReplicasStrategy t \<or> s = WorkloadBalancedPlacementStrategy t"
  shows "\<exists>nodes meta. strategy_place x smp s ps wls = Some (Inr (nodes, meta)) \<and>
    map nc_node_id nodes = map node_name [0 ..< length nodes] \<and>
    sum_list (map node_gpus nodes) \<le> sum_list (map (\<lambda>p. max 0 (pn_count p) * max 0 (pn_gpus_per_node p)) ps) \<and>
    (\<forall>n \<in> set nodes. well_placed (min_tp_for (x_from_pretrained x True) t) ps wls n)"
proof -
  let ?fp = "x_from_pretrained x True"
  let ?tp = "min_tp_for ?fp t"
  have flat: "\<forall>p \<in> set (flatten_nodes ps). dict_has hardware_params (pn_gpu_type p)"
    using known by (auto simp: flatten_nodes_def)
  have start: "placing ?tp [] w (start_state wls)" for w by (simp add: placing_def start_state_def gpus_of_def)
  have fin: "map nc_node_id (ps_node_configs s') = map node_name [0 ..< length (ps_node_configs s')] \<and>
      sum_list (map node_gpus (ps_node_configs s')) \<le> sum_list (map (\<lambda>p. max 0 (pn_count p) * max 0 (pn_gpus_per_node p)) ps) \<and>
      (\<forall>n \<in> set (ps_node_configs s'). well_placed ?tp ps wls n)"
    if p: "placing ?tp qs w s'" and m: "mset qs = mset (flatten_nodes ps)" and w: "set w = set wls" for qs w s'
  proof -
    have "length (ps_node_configs s') = ps_counter s'" using p unfolding placing_def by (metis length_map diff_zero length_upt)
    then show ?thesis using p gpus_of_mset [OF m] well_placed_cong [OF _ m w] by (auto simp: placing_def gpus_of_flatten)
  qed
  from s show ?thesis
  proof
    assume s: "s = MaximizeReplicasStrategy t"
    define w where "w = sort_key (\<lambda>w. - estimate_model_memory ?fp (wl_model_id w)) wls"
    obtain qs where qs: "sort_nodes False (flatten_nodes ps) = Inr qs" "mset qs = mset (flatten_nodes ps)"
      using sort_nodes_spec [OF flat] by blast
    have w: "set w = set wls" by (simp add: w_def)
    then have "\<And>wl g n. wl \<in> set w \<Longrightarrow> 1 \<le> ?tp g n wl" using min_tp_for_pos [OF tp] by simp
    then obtain s' where s': "for_res (maximize_step ?fp t w) qs (start_state wls) = Inr s'" "placing ?tp qs w s'"
      using maximize.run_placing [where fp = ?fp and t = t and wls = w and qs = qs, OF start] by auto
    then have "strategy_place x smp s ps wls = Some (Inr (ps_node_configs s', MaximizeMeta (ps_counts s') (ps_cost s')))"
      using qs(1) assms(3) by (simp add: strategy_place_def s maximize_place_def w_def [symmetric])
    then show ?thesis using fin [OF s'(2) qs(2) w] by blast
  next
    assume s: "s = WorkloadBalancedPlacementStrategy t"
    obtain qs where qs: "sort_nodes True (flatten_nodes ps) = Inr qs" "mset qs = mset (flatten_nodes ps)"
      using sort_nodes_spec [OF flat] by blast
    define targets where "targets = target_replicas (fold (\<lambda>(wl, sc). dict_set (wl_model_id wl) sc) (zip wls scores) [])
      (sum_list scores) (length qs) wls"
    obtain s' where s': "for_res (balanced_step ?fp t targets wls) qs (start_state wls) = Inr s'" "placing ?tp qs wls s'"
      using balanced.run_placing [where fp = ?fp and t = t and targets = targets and qs = qs, OF start min_tp_for_pos [OF tp]] by auto
    then have "\<exists>meta. strategy_place x smp s ps wls = Some (Inr (ps_node_configs s', meta))"
      using qs(1) assms(3) loads by (simp add: strategy_place_def s balanced_place_def Let_def targets_def [symmetric])
    then show ?thesis using fin [OF s'(2) qs(2) refl] by blast
  qed
qed

definition sample_workload :: workload_config where
  "sample_workload = \<lparr>wl_model_id = ''m'', wl_arrival_process = Deterministic 1, wl_duration = 10,
     wl_input_dist = (''Constant'', [100]), wl_output_dist = (''Uniform'', [10, 20]), wl_tensor_parallel_size = Some 2\<rparr>"

definition sample_machines :: "physical_node list" where
  "sample_machines = [\<lparr>pn_gpu_type = ''NVDA:A100'', pn_count = 2, pn_gpus_per_node = 5, pn_cost = 3\<rparr>]"

definition sample_samplers :: samplers where
  "sample_samplers = \<lparr>smp_normal = (\<lambda>_ a b. Inr a), smp_uniform = (\<lambda>_ a b. Inr a)\<rparr>"

theorem greedy_placement_sound_witness:
  "\<exists>nodes meta. strategy_place sample_externals sample_samplers (WorkloadBalancedPlacementStrategy (8 / 10))
      sample_machines [sample_workload] = Some (Inr (nodes, meta)) \<and> sum_list (map node_gpus nodes) \<le> 10 \<and>
      (\<forall>n \<in> set nodes. nc_model_id n = ''m'' \<and> node_gpus n = 2)"
proof -
  have "\<forall>p \<in> set sample_machines. dict_has hardware_params (pn_gpu_type p)"
    by (simp add: sample_machines_def hardware_params_def)
  moreover have "tp_sizes_ok [sample_workload]" by (simp add: tp_sizes_ok_def sample_workload_def)
  moreover have "map_res load_score [sample_workload] = Inr [115]"
    by (simp add: load_score_def sample_workload_def get_mean_from_dist_def py_nth_def arrival_rate_def)
  ultimately obtain nodes meta where
    "strategy_place sample_externals sample_samplers (WorkloadBalancedPlacementStrategy (8 / 10))
       sample_machines [sample_workload] = Some (Inr (nodes, meta))"
    "sum_list (map node_gpus nodes) \<le> sum_list (map (\<lambda>p. max 0 (pn_count p) * max 0 (pn_gpus_per_node p)) sample_machines)"
    "\<forall>n \<in> set nodes. well_placed (min_tp_for (x_from_pretrained sample_externals True) (8 / 10)) sample_machines [sample_workload] n"
    using greedy_placement_sound [of sample_machines "[sample_workload]" "[115]" "WorkloadBalancedPlacementStrategy (8 / 10)"
        "8 / 10" sample_externals sample_samplers] by auto
  then show ?thesis by (auto simp: sample_machines_def well_placed_def min_tp_for_def sample_workload_def)
qed

section \<open>What the search finds\<close>

lemma for_opt_invariant:
  assumes "for_opt body xs s = Some t" and "P s" and "\<And>x s s'. x \<in> set xs \<Longrightarrow> P s \<Longrightarrow> body x s = Some s' \<Longrightarrow> P s'"
  shows "P t"
  using assms
proof (induction xs arbitrary: s)
  case (Cons x xs)
  then obtain s' where "body x s = Some s'" "for_opt body xs s' = Some t" by (auto split: option.splits)
  then show ?case using Cons by (metis list.set_intros)
qed simp

lemma for_run_idle:
  assumes "\<And>x. x \<in> set xs \<Longrightarrow> body x s = Some (Inr s)"
  shows "for_run body xs s = Some (Inr s)"
  using assms by (induction xs) simp_all

text \<open>The assignments of a combination have the sizes the workloads ask for.\<close>

definition assignments_ok :: "nat \<Rightarrow> assignment list list \<Rightarrow> bool" where
  "assignments_ok k acc \<longleftrightarrow> length acc = k \<and> (\<forall>as \<in> set acc. \<forall>a \<in> set as. 1 \<le> as_tp_size a)"

lemma assign_bin_ok:
  assumes "assign_bin fp t p wls (i, n) acc = Some acc'" "assignments_ok (length wls) acc" "i < length wls" "tp_sizes_ok wls"
  shows "assignments_ok (length wls) acc'"
proof (cases "0 < n")
  case True
  define a where "a = \<lparr>as_gpu_type = pn_gpu_type p, as_count = n, as_gpus_per_node = pn_gpus_per_node p,
    as_tp_size = min_tp_for fp t (pn_gpu_type p) (pn_gpus_per_node p) (wls ! i), as_cost = pn_cost p\<rparr>"
  have acc': "acc' = acc[i := acc ! i @ [a]]"
    using assms(1) True by (simp add: assign_bin_def Let_def a_def split: if_splits)
  have "1 \<le> as_tp_size a" using min_tp_for_pos [OF assms(4)] assms(3) by (simp add: a_def)
  moreover have "acc ! i \<in> set acc" using assms(2,3) by (simp add: assignments_ok_def)
  ultimately show ?thesis
    using assms(2) set_update_subset_insert [of acc i "acc ! i @ [a]"] unfolding assignments_ok_def acc' by fastforce
next
  case False
  then show ?thesis using assms(1,2) by (simp add: assign_bin_def)
qed

lemma workload_assignments_ok:
  assumes "workload_assignments fp t ps wls comb = Some acc" and "tp_sizes_ok wls"
    and "\<forall>part \<in> set comb. length part = length wls"
  shows "assignments_ok (length wls) acc"
proof (rule for_opt_invariant [OF assms(1) [unfolded workload_assignments_def]])
  show "assignments_ok (length wls) (map (\<lambda>_. []) wls)" by (auto simp: assignments_ok_def)
next
  fix x s s'
  assume x: "x \<in> set (zip (map fst (node_groups ps)) comb)" and s: "assignments_ok (length wls) s"
    and st: "assign_type fp t ps wls x s = Some s'"
  obtain g part where [simp]: "x = (g, part)" by force
  have len: "length part = length wls" using x assms(3) by (auto dest: set_zip_rightD)
  obtain p where f: "for_opt (assign_bin fp t p wls) (enumerate 0 part) s = Some s'"
    using st by (auto simp: assign_type_def split: option.splits)
  show "assignments_ok (length wls) s'"
    by (rule for_opt_invariant [where P = "assignments_ok (length wls)", OF f s])
      (use assign_bin_ok [OF _ _ _ assms(2)] len in \<open>auto simp: in_set_enumerate_eq\<close>)
qed

lemma candidate_replicas_total:
  "1 \<le> as_tp_size a \<Longrightarrow> \<exists>s'. candidate_replicas m a s = Inr s'"
proof -
  assume tp: "1 \<le> as_tp_size a"
  have "\<exists>s'. for_res (\<lambda>_ (nodes, node_counter).
         rbind (py_floordiv (as_gpus_per_node a) (as_tp_size a)) (\<lambda>replicas.
           Inr (nodes @ replica_nodes node_counter m (as_gpu_type a) (as_tp_size a) replicas,
             node_counter + nat replicas))) xs z = Inr s' \<and> True" for xs :: "nat list" and z
    by (rule for_res_total) (use tp in \<open>auto simp: py_floordiv_def split: prod.splits\<close>)
  from this [of "[0 ..< nat (as_count a)]" "(fst s, fst (snd s))"] show ?thesis
    by (cases s) (auto simp: candidate_replicas_def)
qed

lemma candidate_nodes_total:
  assumes "assignments_ok k acc"
  shows "\<exists>s'. candidate_nodes wls acc = Inr s'"
proof -
  have "\<exists>s'. for_res (candidate_replicas m) as s = Inr s' \<and> True" if "as \<in> set acc" for as m s
    by (rule for_res_total) (use that assms candidate_replicas_total in \<open>auto simp: assignments_ok_def\<close>)
  then have "\<exists>s'. for_res (\<lambda>(wl, as). for_res (candidate_replicas (wl_model_id wl)) as) (zip wls acc) ([], 0, 0) = Inr s' \<and> True"
    by (intro for_res_total) (auto dest: set_zip_rightD)
  then show ?thesis by (auto simp: candidate_nodes_def)
qed

lemma combination_lengths:
  assumes "comb \<in> set (all_combinations ps (Suc k))" and "part \<in> set comb"
  shows "length part = Suc k"
proof -
  have "list_all2 (\<lambda>x ys. x \<in> set ys) comb (map (\<lambda>(g, n). generate_partitions n (Suc k)) (node_groups ps))"
    using assms(1) by (simp add: all_combinations_def product_lists_set)
  then obtain n where "part \<in> set (generate_partitions n (Suc k))"
    using assms(2) by (auto simp: list_all2_conv_all_nth in_set_conv_nth)
      (metis (no_types, lifting) length_map nth_map case_prod_beta)
  then show ?thesis by (simp add: generate_partitions_set)
qed

lemma simulate_raises: "nodes \<noteq> [] \<Longrightarrow> wls \<noteq> [] \<Longrightarrow> \<exists>e. simulate_candidate x smp d wls i nodes = Some (Inl e)"
  using new_cluster_raises [of "\<lparr>cc_cluster_id = ''sim_search_'' @ str_nat i, cc_nodes = nodes,
           cc_scheduler_algorithm = ''round_robin'', cc_scheduler_config = []\<rparr>" x "wl_arrival_process (wls ! 0)"]
  by (auto simp: simulate_candidate_def py_nth_nonneg)



end
