(* ===== verification/Sim_Cli.thy ===== *)
theory Sim_Cli
  imports Sim_Placement
begin

text \<open>
  The command line of the simulator (\<open>contrib/serving-simulator/cli/run_cluster_simulation.py\<close>): the
  YAML configuration, the cluster with several models, and a run.

  The document that the YAML library returns is a \<open>pyval\<close>. The data classes do not check their
  fields; here a field of the wrong type raises when the configuration is loaded, in the program when
  the field is first used. The order in which Python lists a set of names, numpy's generators and its
  percentile are arguments. Writing the result files is not modelled.
\<close>

section \<open>Distributions\<close>

text \<open>\<open>re.match(r"(\w+)\((.*)\)", s)\<close>: the longest word, then everything up to the last closing
  parenthesis of the line.\<close>

definition word_char :: "char \<Rightarrow> bool" where
  "word_char c =
     (let n = (of_char c :: nat) in
      48 \<le> n \<and> n \<le> 57 \<or> 65 \<le> n \<and> n \<le> 90 \<or> 97 \<le> n \<and> n \<le> 122 \<or> n = 95 \<or>
      n \<in> {170, 178, 179, 181, 185, 186, 188, 189, 190} \<or> 192 \<le> n \<and> n \<noteq> 215 \<and> n \<noteq> 247)"

definition match_call :: "string \<Rightarrow> (string \<times> string) option" where
  "match_call s =
     (let w = takeWhile word_char s; r = dropWhile word_char s;
          line = takeWhile (\<lambda>c. c \<noteq> CHR 0x0A) (tl r)
      in if w = [] \<or> r = [] \<or> hd r \<noteq> CHR ''('' \<or> CHR '')'' \<notin> set line then None
         else Some (w, rev (tl (dropWhile (\<lambda>c. c \<noteq> CHR '')'') (rev line)))))"

definition parse_distribution :: "string \<Rightarrow> dist res" where
  "parse_distribution s =
     (case match_call s of
        None \<Rightarrow> Inl (ValueError ''Invalid distribution format'')
      | Some (dist_type, args) \<Rightarrow>
          rbind (map_res (\<lambda>p. py_float_str (py_strip p)) (split_on (CHR '','') args)) (\<lambda>params.
            Inr (dist_type, params)))"

definition create_arrival_process :: "dist \<Rightarrow> arrival_process res" where
  "create_arrival_process d =
     (let (dist_type, params) = d in
      if dist_type = ''Poisson'' then
        rbind (py_nth params 0) (\<lambda>rate. rbind (new_poisson rate) (\<lambda>g. Inr (Gamma g)))
      else if dist_type = ''Gamma'' then
        rbind (py_nth params 0) (\<lambda>rate. rbind (py_nth params 1) (\<lambda>cv. rbind (new_gamma rate cv) (\<lambda>g. Inr (Gamma g))))
      else Inl (ValueError ''Unknown arrival process type''))"

definition sample_from_distribution :: "samplers \<Rightarrow> nat \<Rightarrow> dist \<Rightarrow> int res" where
  "sample_from_distribution smp = sample_dist smp (Inl (ValueError ''Unknown distribution type''))"

section \<open>Configuration\<close>

definition as_str :: "pyval \<Rightarrow> string res" where
  "as_str v = (case v of PStr s \<Rightarrow> Inr s | _ \<Rightarrow> Inl (TypeError ''expected string''))"

definition as_int :: "pyval \<Rightarrow> int res" where
  "as_int v = (case v of PInt i \<Rightarrow> Inr i | PBool b \<Rightarrow> Inr (if b then 1 else 0) | _ \<Rightarrow> Inl (TypeError ''expected integer''))"

definition load_workload :: "pyval \<Rightarrow> workload_config res" where
  "load_workload wl =
     rbind (rbind (rbind (py_item wl ''arrival_rate'') as_str) parse_distribution) (\<lambda>arrival.
     rbind (create_arrival_process arrival) (\<lambda>process.
     rbind (rbind (rbind (py_item wl ''input'') as_str) parse_distribution) (\<lambda>input_dist.
     rbind (rbind (rbind (py_item wl ''output'') as_str) parse_distribution) (\<lambda>output_dist.
     rbind (rbind (py_item wl ''model'') as_str) (\<lambda>model.
     rbind (rbind (py_item wl ''duration'') py_float_val) (\<lambda>duration.
       Inr \<lparr>wl_model_id = model, wl_arrival_process = process, wl_duration = duration,
            wl_input_dist = input_dist, wl_output_dist = output_dist, wl_tensor_parallel_size = None\<rparr>))))))"

definition load_node :: "pyval \<Rightarrow> physical_node res" where
  "load_node nd =
     rbind (rbind (py_item nd ''gpu'') as_str) (\<lambda>gpu.
     rbind (rbind (py_item nd ''count'') as_int) (\<lambda>cnt.
     rbind (rbind (py_get nd ''gpus_per_node'' (PInt 1)) as_int) (\<lambda>per_node.
     rbind (rbind (py_get nd ''cost'' (PFloat 0)) py_float_val) (\<lambda>cost.
       Inr \<lparr>pn_gpu_type = gpu, pn_count = cnt, pn_gpus_per_node = per_node, pn_cost = cost\<rparr>))))"

definition load_parts :: "pyval \<Rightarrow> (workload_config list \<times> physical_node list \<times> strategy) res" where
  "load_parts config_data =
     rbind (rbind (py_get config_data ''workload'' (PList [])) py_list_val) (\<lambda>wls.
     rbind (map_res load_workload wls) (\<lambda>workloads.
     rbind (rbind (py_get config_data ''nodes'' (PList [])) py_list_val) (\<lambda>nds.
     rbind (map_res load_node nds) (\<lambda>physical_nodes.
     rbind (py_get config_data ''placement_strategy'' (PStr ''maximize_replicas'')) (\<lambda>strategy.
     rbind (py_get config_data ''placement_config'' (PDict [])) (\<lambda>placement_config.
     rbind (py_get config_data ''memory_threshold'' (PFloat (8 / 10))) (\<lambda>top.
     rbind (rbind (py_get placement_config ''memory_threshold'' top) py_float_val) (\<lambda>threshold.
     rbind (as_str strategy) (\<lambda>name.
     rbind (get_strategy name threshold) (\<lambda>strat.
       Inr (workloads, physical_nodes, strat)))))))))))"

definition load_config ::
  "externals \<Rightarrow> samplers \<Rightarrow> pyval \<Rightarrow> (cluster_config \<times> workload_config list \<times> placement_meta) res option" where
  "load_config x smp config_data =
     (case load_parts config_data of
        Inl e \<Rightarrow> Some (Inl e)
      | Inr (workloads, physical_nodes, strat) \<Rightarrow>
          map_option (\<lambda>r. rbind r (\<lambda>(nodes, meta).
              Inr (\<lparr>cc_cluster_id = ''yaml_configured_cluster'', cc_nodes = nodes,
                    cc_scheduler_algorithm = ''random'', cc_scheduler_config = []\<rparr>, workloads, meta)))
            (strategy_place x smp strat physical_nodes workloads))"

section \<open>A cluster with several models\<close>

text \<open>\<open>_initialize_cluster\<close> gives the engines the models in turn; \<open>uniq\<close> lists a set of names.\<close>

definition assign_model :: "string list \<Rightarrow> nat \<times> string \<Rightarrow> cluster \<Rightarrow> cluster" where
  "assign_model models i_nid c =
     (let model = models ! (fst i_nid mod length models); nid = snd i_nid; cfg = cm_config c in
      c\<lparr>cm_engines := map (\<lambda>(k, e). (k, if k = nid then e\<lparr>se_model_id := model\<rparr> else e)) (cm_engines c),
        cm_config := cfg\<lparr>cc_nodes := map (\<lambda>n. if nc_node_id n = nid then n\<lparr>nc_model_id := model\<rparr> else n) (cc_nodes cfg)\<rparr>\<rparr>)"

definition assign_models :: "string list \<Rightarrow> cluster \<Rightarrow> cluster" where
  "assign_models models c =
     (if models = [] then c else fold (assign_model models) (enumerate 0 (map fst (cm_engines c))) c)"

definition new_multi_cluster ::
  "externals \<Rightarrow> (string list \<Rightarrow> string list) \<Rightarrow> cluster_config \<Rightarrow> workload_config list \<Rightarrow> cluster res" where
  "new_multi_cluster x uniq cfg workloads =
     rbind (py_nth workloads 0) (\<lambda>wl.
     rbind (new_cluster x cfg (wl_arrival_process wl)) (\<lambda>c.
       Inr (assign_models (uniq (map wl_model_id workloads)) c)))"

definition multi_arrival :: "samplers \<Rightarrow> workload_config \<Rightarrow> pyfloat \<Rightarrow> pyfloat \<times> cluster \<Rightarrow> (pyfloat \<times> cluster) res" where
  "multi_arrival smp wl t s =
     rbind (sim_arrival smp (Inl (ValueError ''Unknown distribution type'')) wl t (snd s)) (\<lambda>c.
       Inr (max (fst s) t, c))"

definition multi_workload_arrivals ::
  "externals \<Rightarrow> samplers \<Rightarrow> pyfloat option \<Rightarrow> workload_config \<Rightarrow> pyfloat \<times> cluster \<Rightarrow> (pyfloat \<times> cluster) res option" where
  "multi_workload_arrivals x smp duration wl s =
     map_option (\<lambda>ts. rbind ts (\<lambda>ts. for_res (multi_arrival smp wl) ts s))
       (generate_arrivals (x_draw x) (wl_arrival_process wl) (cm_start_time (snd s))
          (case duration of Some d \<Rightarrow> d | None \<Rightarrow> wl_duration wl) 0)"

definition multi_schedule_arrivals :: "externals \<Rightarrow> samplers \<Rightarrow> workload_config list \<Rightarrow> arrival_scheduler" where
  "multi_schedule_arrivals x smp workloads duration c =
     map_option (\<lambda>r. rbind r (\<lambda>(mx, c'). Inr (Some mx, c')))
       (for_run (multi_workload_arrivals x smp duration) workloads (0, c))"

section \<open>A run\<close>

definition finished_latencies :: "pyval pydict list \<Rightarrow> pyfloat list" where
  "finished_latencies reqs =
     concat (map (\<lambda>r. case (map_of r ''generation_finished_at'', map_of r ''arrive_at'') of
         (Some (PFloat f), Some (PFloat a)) \<Rightarrow> [f - a]
       | _ \<Rightarrow> []) reqs)"

record cli_results =
  cl_results :: cluster_results
  cl_p95_latency :: "pyfloat option"
  cl_meta :: placement_meta

definition run_single_simulation ::
  "externals \<Rightarrow> samplers \<Rightarrow> (string list \<Rightarrow> string list) \<Rightarrow> (pyfloat list \<Rightarrow> pyfloat) \<Rightarrow> pyval option \<Rightarrow> pyfloat option \<Rightarrow>
   cli_results res option" where
  "run_single_simulation x smp uniq percentile95 config duration =
     (case config of
        None \<Rightarrow> Some (Inl (ValueError ''No configuration file provided''))
      | Some config_data \<Rightarrow>
          Option.bind (load_config x smp config_data) (\<lambda>r.
            case rbind r (\<lambda>(cfg, workloads, meta). rbind (new_multi_cluster x uniq cfg workloads) (\<lambda>c.
                Inr (c, workloads, meta))) of
              Inl e \<Rightarrow> Some (Inl e)
            | Inr (c, workloads, meta) \<Rightarrow>
                map_option (\<lambda>r. rbind r (\<lambda>c'.
                    let results = fst (get_results c'); ls = finished_latencies (cr_completed results)
                    in Inr \<lparr>cl_results = results, cl_p95_latency = (if ls = [] then None else Some (percentile95 ls)),
                            cl_meta = meta\<rparr>))
                  (run_with (multi_schedule_arrivals x smp workloads) x duration False c)))"
section \<open>Arrivals of several workloads\<close>

lemma for_run_invariant:
  assumes "for_run body xs s = Some (Inr t)" and "P s"
    and "\<And>x s s'. x \<in> set xs \<Longrightarrow> P s \<Longrightarrow> body x s = Some (Inr s') \<Longrightarrow> P s'"
  shows "P t"
  using assms
proof (induction xs arbitrary: s)
  case Nil
  then show ?case by simp
next
  case (Cons x xs)
  from Cons.prems(1) obtain s' where s': "body x s = Some (Inr s')" "for_run body xs s' = Some (Inr t)"
    by (auto split: option.splits sum.splits)
  have "P s'" using Cons.prems(2,3) s'(1) by auto
  with s'(2) show ?case using Cons.IH Cons.prems(3) by auto
qed

lemma sim_arrival_named:
  assumes "sim_arrival smp otherwise wl t c = Inr c'" and "arrivals_named c"
  shows "arrivals_named c' \<and> ledger_of c' = ledger_of c"
  using assms(1) next_arrival_named [OF _ assms(2)] by (auto simp: sim_arrival_def rbind_eq_Inr Let_def)

text \<open>What the search strategy and the command line schedule satisfies the contract of a run.\<close>

interpretation search_arrivals: arrival_source "sim_schedule_arrivals x smp workloads" for x smp workloads
proof
  fix d c m c'
  assume run: "sim_schedule_arrivals x smp workloads d c = Some (Inr (m, c'))" and c: "arrivals_named c"
  show "arrivals_named c' \<and> ledger_of c' = ledger_of c"
  proof (cases d)
    case None
    then show ?thesis using run c by (auto simp: sim_schedule_arrivals_def split: if_splits)
  next
    case (Some d')
    then have f: "for_run (sim_workload_arrivals x smp d') workloads c = Some (Inr c')"
      using run by (auto simp: sim_schedule_arrivals_def rbind_eq_Inr)
    show ?thesis
    proof (rule for_run_invariant [OF f, where P = "\<lambda>c'. arrivals_named c' \<and> ledger_of c' = ledger_of c"])
      fix wl s s' assume s: "arrivals_named s \<and> ledger_of s = ledger_of c"
        and "sim_workload_arrivals x smp d' wl s = Some (Inr s')"
      then obtain ts where ts: "for_res (sim_arrival smp (Inr 100) wl) ts s = Inr s'"
        by (auto simp: sim_workload_arrivals_def rbind_eq_Inr)
      show "arrivals_named s' \<and> ledger_of s' = ledger_of c"
        by (rule for_res_invariant [OF ts]) (use s sim_arrival_named in auto)
    qed (use c in simp)
  qed
qed

lemma multi_arrival_snd:
  "multi_arrival smp wl t s = Inr s' \<Longrightarrow> \<exists>otherwise. sim_arrival smp otherwise wl t (snd s) = Inr (snd s')"
  by (auto simp: multi_arrival_def rbind_eq_Inr)

text \<open>What every arrival keeps, the whole schedule keeps.\<close>

lemma multi_schedule_keeps:
  assumes "multi_schedule_arrivals x smp workloads d c = Some (Inr (m, c'))" and "P c"
    and "\<And>otherwise wl t c c'. P c \<Longrightarrow> sim_arrival smp otherwise wl t c = Inr c' \<Longrightarrow> P c'"
  shows "P c'"
proof -
  obtain mx where f: "for_run (multi_workload_arrivals x smp d) workloads (0, c) = Some (Inr (mx, c'))"
    using assms(1) by (auto simp: multi_schedule_arrivals_def rbind_eq_Inr)
  have "P (snd (mx, c'))"
  proof (rule for_run_invariant [OF f, where P = "\<lambda>s. P (snd s)"])
    fix wl s s' assume s: "P (snd s)" and "multi_workload_arrivals x smp d wl s = Some (Inr s')"
    then obtain ts where ts: "for_res (multi_arrival smp wl) ts s = Inr s'"
      by (auto simp: multi_workload_arrivals_def rbind_eq_Inr)
    show "P (snd s')"
      by (rule for_res_invariant [OF ts, where P = "\<lambda>s. P (snd s)"])
        (use s assms(3) multi_arrival_snd in \<open>blast+\<close>)
  qed (use assms(2) in simp)
  then show ?thesis by simp
qed

interpretation multi_arrivals: arrival_source "multi_schedule_arrivals x smp workloads" for x smp workloads
proof
  fix d c m c'
  assume "multi_schedule_arrivals x smp workloads d c = Some (Inr (m, c'))" and "arrivals_named c"
  then show "arrivals_named c' \<and> ledger_of c' = ledger_of c"
    using multi_schedule_keeps [where P = "\<lambda>c'. arrivals_named c' \<and> ledger_of c' = ledger_of c"] sim_arrival_named
    by (metis (no_types, lifting))
qed

section \<open>A cluster without engines\<close>

definition no_engines :: "cluster \<Rightarrow> bool" where
  "no_engines c \<longleftrightarrow> cm_engines c = [] \<and> cm_completed c = [] \<and> el_handlers (cm_loop c) = handler_table \<and>
     (\<forall>ev \<in> set (el_queue (cm_loop c)). ev_type ev \<noteq> REQUEST_COMPLETE)"

abbreviation not_complete :: "event \<Rightarrow> bool" where
  "not_complete ev \<equiv> ev_type ev \<noteq> REQUEST_COMPLETE"

lemma sends_no_engines:
  assumes "sends not_complete c c'" and "no_engines c"
  shows "no_engines c'"
proof -
  obtain new where q: "mset (el_queue (cm_loop c')) = mset (el_queue (cm_loop c)) + mset new" "\<forall>ev \<in> set new. not_complete ev"
    using assms(1) by (auto simp: sends_def)
  have "set (el_queue (cm_loop c')) = set (el_queue (cm_loop c)) \<union> set new"
    using q(1) by (metis set_mset_mset set_mset_union)
  then show ?thesis
    using assms q(2) sends_fields [OF assms(1)] sends_evolves [OF assms(1)]
    by (auto simp: no_engines_def loop_evolves_def)
qed

lemma reject_no_engines: "reject_request x r reason c = Inr c' \<Longrightarrow> no_engines c \<Longrightarrow> no_engines c'"
  by (auto simp: reject_request_def rbind_eq_Inr Let_def add_trace_def no_engines_def)

lemma handle_no_engines:
  assumes "handle x h ev c = Inr c'" and "h \<noteq> H_request_complete" and "no_engines c"
  shows "no_engines c'"
proof (cases h)
  case H_request_arrival
  then obtain c1 ev' where s: "schedule ev' c1 = Inr c'" "not_complete ev'" "no_engines c1"
    using assms(1,3)
    by (auto simp: handle_def handle_request_arrival_def rbind_eq_Inr Let_def no_engines_def add_trace_def placement_event_def)
  show ?thesis by (rule sends_no_engines [OF schedule_sends [OF s(1), of not_complete, OF s(2)] s(3)])
next
  case H_placement_decision
  have e: "available_engines c = []" using assms(3) by (simp add: available_engines_def no_engines_def)
  have "c' = c \<or> (\<exists>r s. reject_request x r ''no_suitable_engine'' (c\<lparr>cm_scheduler := s, cm_engines := cm_engines c\<rparr>) = Inr c')"
    using assms(1) H_placement_decision unfolding handle_def handle_placement_decision_def e place_request_def
    by (auto simp: rbind_eq_Inr split: option.splits)
  moreover have "no_engines (c\<lparr>cm_scheduler := s, cm_engines := cm_engines c\<rparr>)" for s
    using assms(3) by (simp add: no_engines_def)
  ultimately show ?thesis using assms(3) reject_no_engines by blast
next
  case H_node_offline
  then show ?thesis
    using assms(1,3)
    by (auto simp: handle_def handle_node_offline_def rbind_eq_Inr rebalance_requests_def no_engines_def Let_def split: if_splits)
qed (use assms in \<open>auto simp: handle_def handle_node_online_def handle_load_balance_def handle_batch_form_def
      rebalance_requests_def rbind_eq_Inr no_engines_def Let_def split: if_splits\<close>)

lemma handler_table_complete: "handler_table ty = Some H_request_complete \<Longrightarrow> ty = REQUEST_COMPLETE"
  by (auto simp: handler_table_def register_event_handlers_def register_handler_def loop_init_def split: if_splits)
lemma step_no_engines:
  assumes "no_engines c" and "loop_step cm_loop set_loop (handle x) c = Inr (b, c')"
  shows "no_engines c'"
proof (cases "el_queue (cm_loop c) = []")
  case True
  then show ?thesis using assms by (simp add: loop_step_def)
next
  case False
  then obtain ev l where pop: "loop_pop (cm_loop c) = Inr (ev, l)"
    and rest: "(case el_handlers l (ev_type ev) of None \<Rightarrow> Inr (True, set_loop l c)
        | Some h \<Rightarrow> rbind (handle x h ev (set_loop l c)) (\<lambda>w'. Inr (True, w'))) = Inr (b, c')"
    using assms(2) by (auto simp: loop_step_def rbind_eq_Inr)
  obtain q where q: "heappop event_lt (el_queue (cm_loop c)) = Inr (ev, q)" "el_queue l = q" "el_handlers l = el_handlers (cm_loop c)"
    using pop by (auto simp: loop_pop_def rbind_eq_Inr)
  have s: "insert ev (set q) = set (el_queue (cm_loop c))" using heappop_set [OF q(1)] by simp
  then have ev: "not_complete ev" "ev_type ev \<noteq> REQUEST_COMPLETE" and "no_engines (set_loop l c)"
    using assms(1) q(2,3) by (auto simp: no_engines_def)
  then show ?thesis
  proof (cases "el_handlers l (ev_type ev)")
    case None
    then show ?thesis using rest \<open>no_engines (set_loop l c)\<close> by auto
  next
    case (Some h)
    then have "h \<noteq> H_request_complete"
      using assms(1) q(3) ev handler_table_complete by (auto simp: no_engines_def)
    moreover have "handle x h ev (set_loop l c) = Inr c'" using rest Some by (auto simp: rbind_eq_Inr)
    ultimately show ?thesis using handle_no_engines \<open>no_engines (set_loop l c)\<close> by blast
  qed
qed

lemma arrival_no_engines:
  assumes "no_engines c" and "sim_arrival smp otherwise wl t c = Inr c'"
  shows "no_engines c'"
proof -
  obtain inp outp where "schedule (arrival_event t (request_name (cm_counter c + 1)) (wl_model_id wl) inp outp)
      (c\<lparr>cm_counter := cm_counter c + 1\<rparr>) = Inr c'"
    using assms(2) by (auto simp: sim_arrival_def rbind_eq_Inr Let_def)
  then have "sends not_complete (c\<lparr>cm_counter := cm_counter c + 1\<rparr>) c'"
    by (rule schedule_sends) (simp add: arrival_event_def)
  then show ?thesis by (rule sends_no_engines) (use assms(1) in \<open>simp add: no_engines_def\<close>)
qed

lemma balancing_sends_not_complete:
  "schedule_balancing t d c = Inr c' \<Longrightarrow> sends not_complete c c'"
proof (induction t d c rule: schedule_balancing.induct)
  case (1 t d c)
  show ?case
  proof (cases "t < d")
    case True
    then obtain c1 where s: "schedule (balance_event t) c = Inr c1" "schedule_balancing (t + 10) d c1 = Inr c'"
      using "1.prems" by (subst (asm) schedule_balancing.simps) (auto simp: rbind_eq_Inr)
    have "sends not_complete c c1" using s(1) by (rule schedule_sends) (simp add: balance_event_def)
    also have "sends not_complete c1 c'" by (rule "1.IH" [OF True s])
    finally show ?thesis .
  next
    case False
    then show ?thesis using "1.prems" by (subst (asm) schedule_balancing.simps) simp
  qed
qed

lemma multi_run_no_engines:
  assumes "run_with (multi_schedule_arrivals x smp workloads) x d False c = Some (Inr c')" and "no_engines c"
  shows "no_engines c'"
proof -
  let ?c = "c\<lparr>cm_start_time := 0, cm_current_time := 0\<rparr>"
  obtain tmax c1 where p: "prepare_run (multi_schedule_arrivals x smp workloads) d False c = Some (Inr (tmax, c1))"
  proof (cases "prepare_run (multi_schedule_arrivals x smp workloads) d False c")
    case (Some y)
    then show ?thesis using assms(1) that by (cases y) (auto simp: run_with_def)
  qed (use assms(1) in \<open>simp add: run_with_def\<close>)
  obtain c2 where r: "loop_run cm_loop set_loop (handle x) (Some tmax) (Some 10000000) c1 = Some (Inr c2)"
    and c': "c' = update_metrics (c2\<lparr>cm_current_time := el_time (cm_loop c2)\<rparr>)"
    using assms(1) p by (auto simp: run_with_def run_loop_def rbind_eq_Inr)
  obtain m c0 sd where a: "multi_schedule_arrivals x smp workloads d ?c = Some (Inr (m, c0))"
    and b: "schedule_balancing 10 sd c0 = Inr c1"
    using p by (auto simp: prepare_run_def rbind_eq_Inr)
  have "no_engines ?c" using assms(2) by (simp add: no_engines_def)
  then have "no_engines c0" by (rule multi_schedule_keeps [OF a]) (rule arrival_no_engines)
  then have "no_engines c1" by (rule sends_no_engines [OF balancing_sends_not_complete [OF b]])
  then have "no_engines c2"
  proof (rule cluster_loop.run_keeps [OF r])
    fix w b w' assume "no_engines w" "loop_step cm_loop set_loop (handle x) w = Inr (b, w')"
    then show "no_engines w'" by (rule step_no_engines)
  qed (simp add: no_engines_def)
  then show ?thesis by (simp add: c' update_metrics_def no_engines_def Let_def)
qed

section \<open>Runs from the command line\<close>

lemma new_cluster_empty:
  assumes "new_cluster x cfg arrival = Inr c"
  shows "cc_nodes cfg = []" and "cm_config c = cfg" and "cm_engines c = []" and "arrivals_named c" and "no_engines c"
    and "cm_metrics c = zero_metrics"
proof -
  show n: "cc_nodes cfg = []" using new_cluster_raises [of cfg x arrival] assms by auto
  obtain s where c: "c = (empty_cluster cfg arrival s)\<lparr>cm_loop := register_event_handlers loop_init\<rparr>"
    using assms n by (auto simp: new_cluster_def initialize_cluster_def rbind_eq_Inr empty_cluster_def)
  show "cm_config c = cfg" "cm_engines c = []" "cm_metrics c = zero_metrics" by (simp_all add: c empty_cluster_def)
  have i: "cluster_inv c"
    unfolding cluster_inv_def
    by (simp add: c empty_cluster_def loop_inv_handlers handler_table_def pending_fresh_def pending_def
        ledger_inv_def ledger_of_def completed_ids_def books_ok_def engines_ok_def nodes_ok_def zero_metrics_def
        loop_init_def heap_list_def loop_inv_def)
  then show "arrivals_named c"
    by (simp add: arrivals_named_def pending_def c empty_cluster_def loop_init_def)
  show "no_engines c" using i by (simp add: no_engines_def cluster_inv_def c empty_cluster_def loop_init_def)
qed

lemma multi_cluster_empty:
  assumes "new_multi_cluster x uniq cfg workloads = Inr c"
  shows "cc_nodes cfg = [] \<and> cm_engines c = [] \<and> arrivals_named c \<and> no_engines c"
proof -
  obtain wl :: workload_config and c0 where c: "new_cluster x cfg (wl_arrival_process wl) = Inr c0" "assign_models (uniq (map wl_model_id workloads)) c0 = c"
    using assms unfolding new_multi_cluster_def rbind_eq_Inr sum.inject by blast
  note e = new_cluster_empty [OF c(1)]
  have "assign_models ms c0 = c0" for ms using e(3) by (simp add: assign_models_def)
  then have "c = c0" using c(2) by simp
  then show ?thesis using e by simp
qed

text \<open>C40: a simulation started from the command line never serves a request. Whatever the configuration,
  the externals and the random draws, when \<open>run_single_simulation\<close> returns, the placement has put no
  replica on any node, the result has no engine and no completed request and hence no latency
  percentile, and every request that arrived was rejected or is still waiting. With a placement that
  has a node the run raises when the cluster is built.
\<close>

theorem cli_serves_nothing:
  assumes "run_single_simulation x smp uniq percentile95 config duration = Some (Inr res)"
  shows "(\<exists>doc cfg workloads meta. config = Some doc \<and> load_config x smp doc = Some (Inr (cfg, workloads, meta))
      \<and> cc_nodes cfg = [] \<and> workloads \<noteq> [])
    \<and> cr_engines (cl_results res) = [] \<and> cr_completed (cl_results res) = [] \<and> cl_p95_latency res = None
    \<and> mt_completed_requests (cr_metrics (cl_results res)) = 0
    \<and> mt_rejected_requests (cr_metrics (cl_results res)) \<le> mt_total_requests (cr_metrics (cl_results res))"
proof -
  obtain doc r where doc: "config = Some doc" "load_config x smp doc = Some r"
    using assms by (auto simp: run_single_simulation_def bind_eq_Some_conv split: option.splits)
  obtain c workloads meta where
      m: "rbind r (\<lambda>(cfg, workloads, meta). rbind (new_multi_cluster x uniq cfg workloads) (\<lambda>c. Inr (c, workloads, meta)))
        = Inr (c, workloads, meta)"
      and run': "map_option (\<lambda>r. rbind r (\<lambda>c'.
            let results = fst (get_results c'); ls = finished_latencies (cr_completed results)
            in Inr \<lparr>cl_results = results, cl_p95_latency = (if ls = [] then None else Some (percentile95 ls)), cl_meta = meta\<rparr>))
          (run_with (multi_schedule_arrivals x smp workloads) x duration False c) = Some (Inr res)"
    using assms doc by (auto simp: run_single_simulation_def split: sum.splits prod.splits)
  obtain c' where run: "run_with (multi_schedule_arrivals x smp workloads) x duration False c = Some (Inr c')"
      and res: "cl_results res = fst (get_results c')"
        "cl_p95_latency res = (if finished_latencies (cr_completed (fst (get_results c'))) = [] then None
           else Some (percentile95 (finished_latencies (cr_completed (fst (get_results c'))))))"
    using run' by (auto simp: rbind_eq_Inr Let_def)
  obtain cfg where cfg: "r = Inr (cfg, workloads, meta)" "new_multi_cluster x uniq cfg workloads = Inr c"
    using m by (auto simp: rbind_eq_Inr)
  note e = multi_cluster_empty [OF cfg(2)]
  have ne: "workloads \<noteq> []" using cfg(2) by (auto simp: new_multi_cluster_def py_nth_def)
  have "no_engines c'" using multi_run_no_engines [OF run] e by blast
  then have none: "cm_engines c' = []" "cm_completed c' = []" by (simp_all add: no_engines_def)
  have acc: "mt_total_requests (cm_metrics c') =
      mt_completed_requests (cm_metrics c') + mt_rejected_requests (cm_metrics c') + length (cm_active c')"
      "mt_completed_requests (cm_metrics c') = 0"
    using multi_arrivals.run_accounts [OF run] e none(2) by auto
  have results: "cr_engines (fst (get_results c')) = []" "cr_completed (fst (get_results c')) = []"
      "cr_metrics (fst (get_results c')) = cm_metrics c'"
    using none by (simp_all add: get_results_def Let_def update_engine_timing_def)
  then show ?thesis using doc cfg(1) e ne acc by (auto simp: res finished_latencies_def)
qed

text \<open>One workload and no machine: nothing is placed, and nothing arrives in half a second.\<close>

definition sample_cli_document :: pyval where
  "sample_cli_document = PDict [(''workload'', PList [PDict [(''model'', PStr ''m''), (''arrival_rate'', PStr ''Poisson(1)''),
     (''input'', PStr ''Constant(5)''), (''output'', PStr ''Constant(5)''), (''duration'', PFloat (1 / 2))]])]"

lemma sample_distributions:
  "parse_distribution ''Poisson(1)'' = Inr (''Poisson'', [1])" "parse_distribution ''Constant(5)'' = Inr (''Constant'', [5])"
  by (simp_all add: parse_distribution_def match_call_def word_char_def py_float_str_def split_sign_def py_strip_def
      strip_by_def is_space_def is_c_space_def is_digit_def py_lower_def lower_char_def digits_of_def nat_of_digits_def
      digit_val_def pow10_def Let_def)

lemma sample_load:
  "\<exists>cfg wl meta. load_config sample_externals sample_samplers sample_cli_document = Some (Inr (cfg, [wl], meta))
     \<and> cc_nodes cfg = [] \<and> cc_scheduler_algorithm cfg = ''random'' \<and> cc_scheduler_config cfg = []
     \<and> (\<exists>g. wl_arrival_process wl = Gamma g) \<and> wl_duration wl = 1 / 2"
proof -
  obtain wl g where wl: "load_parts sample_cli_document = Inr ([wl], [], MaximizeReplicasStrategy (8 / 10))"
      "wl_arrival_process wl = Gamma g" "wl_duration wl = 1 / 2"
    by (simp add: load_parts_def sample_cli_document_def load_workload_def py_get_def py_item_def dict_get_default_def
        dict_get_def py_list_val_def as_str_def sample_distributions create_arrival_process_def py_nth_def new_poisson_def
        new_gamma_def py_float_val_def get_strategy_def)
  then show ?thesis
    by (simp add: load_config_def strategy_place_def maximize_place_def flatten_nodes_def sort_nodes_def start_state_def)
qed

lemma sample_cli_run:
  "\<exists>res. run_single_simulation sample_externals sample_samplers (\<lambda>xs. xs) (\<lambda>_. 0) (Some sample_cli_document) None
     = Some (Inr res)"
proof -
  obtain cfg wl meta g where l: "load_config sample_externals sample_samplers sample_cli_document = Some (Inr (cfg, [wl], meta))"
      "cc_nodes cfg = []" "cc_scheduler_algorithm cfg = ''random''" "cc_scheduler_config cfg = []"
      "wl_arrival_process wl = Gamma g" "wl_duration wl = 1 / 2"
    using sample_load by blast
  obtain c where c: "new_multi_cluster sample_externals (\<lambda>xs. xs) cfg [wl] = Inr c"
      "el_queue (cm_loop c) = []"
    by (simp add: new_multi_cluster_def py_nth_def new_cluster_def l(2-4) get_scheduler_def py_lower_def lower_char_def
        no_kwargs_def initialize_cluster_def empty_cluster_def assign_models_def loop_init_def)
  have none: "gamma_arrivals (x_draw sample_externals) g 0 (1 / 2) 0 = Some []"
    by (simp add: gamma_arrivals_def sample_externals_def gamma_loop.simps Let_def)
  let ?c = "c\<lparr>cm_start_time := 0, cm_current_time := 0\<rparr>"
  have "multi_schedule_arrivals sample_externals sample_samplers [wl] None ?c = Some (Inr (Some 0, ?c))"
    by (simp add: multi_schedule_arrivals_def multi_workload_arrivals_def generate_arrivals_def l(5,6) none)
  then have "prepare_run (multi_schedule_arrivals sample_externals sample_samplers [wl]) None False c = Some (Inr (3600, ?c))"
    by (simp add: prepare_run_def effective_duration_def schedule_balancing.simps)
  then have "\<exists>c'. run_with (multi_schedule_arrivals sample_externals sample_samplers [wl]) sample_externals None False c = Some (Inr c')"
    using c(2) by (simp add: run_with_def run_loop_def loop_run_def loop_while.simps)
  then show ?thesis using l(1) c(1) by (auto simp: run_single_simulation_def Let_def)
qed

theorem cli_serves_nothing_witness:
  "\<exists>res. run_single_simulation sample_externals sample_samplers (\<lambda>xs. xs) (\<lambda>_. 0) (Some sample_cli_document) None
     = Some (Inr res) \<and> cr_completed (cl_results res) = []"
proof -
  obtain res where res: "run_single_simulation sample_externals sample_samplers (\<lambda>xs. xs) (\<lambda>_. 0) (Some sample_cli_document) None
     = Some (Inr res)"
    using sample_cli_run by blast
  then show ?thesis using cli_serves_nothing [OF res] by blast
qed

end
