(* ===== verification/Io.thy ===== *)
theory Io
  imports Prelude
begin

text \<open>
  Actions of programs that call the world around them. An action maps a state to a value or an exception
  and a new state; the state survives an exception. The control structures of Python are combinators.
\<close>

section \<open>Actions\<close>

type_synonym ('s, 'a) io = "'s \<Rightarrow> 'a res \<times> 's"

definition io_return :: "'a \<Rightarrow> ('s, 'a) io" where
  "io_return x s = (Inr x, s)"

definition io_raise :: "py_exn \<Rightarrow> ('s, 'a) io" where
  "io_raise e s = (Inl e, s)"

definition io_bind :: "('s, 'a) io \<Rightarrow> ('a \<Rightarrow> ('s, 'b) io) \<Rightarrow> ('s, 'b) io" where
  "io_bind m f s = (case m s of (Inl e, s') \<Rightarrow> (Inl e, s') | (Inr x, s') \<Rightarrow> f x s')"

definition io_res :: "'a res \<Rightarrow> ('s, 'a) io" where
  "io_res r s = (r, s)"

text \<open>\<open>try: m  except Exception as e: h e\<close>, and \<open>try: m  finally: f\<close>.\<close>

definition io_catch :: "('s, 'a) io \<Rightarrow> (py_exn \<Rightarrow> ('s, 'a) io) \<Rightarrow> ('s, 'a) io" where
  "io_catch m h s = (case m s of (Inl e, s') \<Rightarrow> h e s' | (Inr x, s') \<Rightarrow> (Inr x, s'))"

definition io_finally :: "('s, 'a) io \<Rightarrow> ('s, unit) io \<Rightarrow> ('s, 'a) io" where
  "io_finally m f s =
     (case m s of (r, s') \<Rightarrow> (case f s' of (Inl e, s'') \<Rightarrow> (Inl e, s'') | (Inr _, s'') \<Rightarrow> (r, s'')))"

fun io_for :: "('a \<Rightarrow> ('s, 'b) io) \<Rightarrow> 'a list \<Rightarrow> ('s, 'b list) io" where
  "io_for f [] = io_return []"
| "io_for f (x # xs) = io_bind (f x) (\<lambda>y. io_bind (io_for f xs) (\<lambda>ys. io_return (y # ys)))"

text \<open>Waiting: check, and pause while the check has no result; at most \<open>polls\<close> rounds.\<close>

definition no_more_polls :: py_exn where
  "no_more_polls = OtherException ''no more polls''"

fun wait_loop :: "('s, 'a option) io \<Rightarrow> ('s, unit) io \<Rightarrow> nat \<Rightarrow> ('s, 'a) io" where
  "wait_loop check nap 0 = io_raise no_more_polls"
| "wait_loop check nap (Suc polls) =
     io_bind check (\<lambda>r. case r of Some x \<Rightarrow> io_return x | None \<Rightarrow> io_bind nap (\<lambda>_. wait_loop check nap polls))"

section \<open>Invariants of actions\<close>

text \<open>
  \<open>io_keeps I m\<close>: \<open>I\<close> relates the states before and after \<open>m\<close>, knowing which exception ended it, if
  any. An action is built from smaller ones, and so is the proof that it keeps a relation: the locale
  asks that the relation allows doing nothing and that it can be composed.
\<close>

definition exn_of :: "'a res \<Rightarrow> py_exn option" where
  "exn_of r = (case r of Inl e \<Rightarrow> Some e | Inr _ \<Rightarrow> None)"

definition io_keeps :: "('s \<Rightarrow> py_exn option \<Rightarrow> 's \<Rightarrow> bool) \<Rightarrow> ('s, 'a) io \<Rightarrow> bool" where
  "io_keeps I m \<longleftrightarrow> (\<forall>s r s'. m s = (r, s') \<longrightarrow> I s (exn_of r) s')"

lemma io_keepsD: "io_keeps I m \<Longrightarrow> m s = (r, s') \<Longrightarrow> I s (exn_of r) s'"
  by (simp add: io_keeps_def)

lemma exn_of_simps [simp]: "exn_of (Inl e) = Some e" "exn_of (Inr x) = None"
  by (simp_all add: exn_of_def)

lemma io_bind_eq:
  "io_bind m f s = (r, s'') \<longleftrightarrow>
     (\<exists>e. m s = (Inl e, s'') \<and> r = Inl e) \<or> (\<exists>x s'. m s = (Inr x, s') \<and> f x s' = (r, s''))"
  by (auto simp: io_bind_def split: prod.splits sum.splits)

lemma io_return_eq [simp]: "io_return x s = (r, s') \<longleftrightarrow> r = Inr x \<and> s' = s"
  by (auto simp: io_return_def)

lemma io_raise_eq [simp]: "io_raise e s = (r, s') \<longleftrightarrow> r = Inl e \<and> s' = s"
  by (auto simp: io_raise_def)

lemma io_res_eq [simp]: "io_res x s = (r, s') \<longleftrightarrow> r = x \<and> s' = s"
  by (auto simp: io_res_def)

locale io_invariant =
  fixes I :: "'s \<Rightarrow> py_exn option \<Rightarrow> 's \<Rightarrow> bool"
  assumes stay: "I s e s"
    and seq: "I s None s' \<Longrightarrow> I s' e s'' \<Longrightarrow> I s e s''"
begin

lemma keeps_return: "io_keeps I (io_return x)"
  by (simp add: io_keeps_def stay)

lemma keeps_raise: "io_keeps I (io_raise e)"
  by (simp add: io_keeps_def stay)

lemma keeps_res: "io_keeps I (io_res r)"
  by (simp add: io_keeps_def stay)

lemma keeps_bind:
  assumes "io_keeps I m" and "\<And>x. io_keeps I (f x)"
  shows "io_keeps I (io_bind m f)"
  unfolding io_keeps_def io_bind_eq
proof (intro allI impI, elim disjE exE conjE)
  fix s r s'' x s' assume m: "m s = (Inr x, s')" and f: "f x s' = (r, s'')"
  show "I s (exn_of r) s''" using seq io_keepsD [OF assms(1) m] io_keepsD [OF assms(2) f] by simp
next
  fix s r s'' e assume m: "m s = (Inl e, s'')" and "r = Inl e"
  then show "I s (exn_of r) s''" using io_keepsD [OF assms(1) m] by simp
qed

lemma keeps_if: "io_keeps I m \<Longrightarrow> io_keeps I m' \<Longrightarrow> io_keeps I (if b then m else m')"
  by simp

lemma keeps_for: "(\<And>x. io_keeps I (f x)) \<Longrightarrow> io_keeps I (io_for f xs)"
  by (induction xs) (simp_all add: keeps_return keeps_bind)

lemmas keeps = keeps_return keeps_raise keeps_res keeps_bind keeps_if keeps_for

end

section \<open>Actions that return\<close>

text \<open>\<open>yields m Q\<close>: from every state the action returns, with a value that satisfies \<open>Q\<close>.\<close>

definition yields :: "('s, 'a) io \<Rightarrow> ('a \<Rightarrow> bool) \<Rightarrow> bool" where
  "yields m Q \<longleftrightarrow> (\<forall>s. \<exists>x s'. m s = (Inr x, s') \<and> Q x)"

lemma yieldsD: "yields m Q \<Longrightarrow> \<exists>x s'. m s = (Inr x, s') \<and> Q x"
  by (simp add: yields_def)

lemma yields_return: "Q x \<Longrightarrow> yields (io_return x) Q"
  by (simp add: yields_def)

lemma yields_res: "r = Inr x \<Longrightarrow> Q x \<Longrightarrow> yields (io_res r) Q"
  by (simp add: yields_def)

lemma yields_bind: "yields m Q \<Longrightarrow> (\<And>x. Q x \<Longrightarrow> yields (f x) R) \<Longrightarrow> yields (io_bind m f) R"
  unfolding yields_def io_bind_eq by metis

lemma yields_for: "(\<And>x. x \<in> set xs \<Longrightarrow> yields (f x) (P x)) \<Longrightarrow> yields (io_for f xs) (list_all2 P xs)"
proof (induction xs)
  case (Cons x xs)
  then show ?case by (auto intro!: yields_bind [of "f x"] yields_bind [of "io_for f xs"] yields_return)
qed (simp add: yields_return)

lemma yields_weaken: "yields m Q \<Longrightarrow> (\<And>x. Q x \<Longrightarrow> R x) \<Longrightarrow> yields m R"
  unfolding yields_def by blast

section \<open>Waiting ends\<close>

text \<open>Two actions with the same first part agree when their continuations do.\<close>

lemma io_bind_cong: "(\<And>x s'. m s = (Inr x, s') \<Longrightarrow> f x s' = g x s') \<Longrightarrow> io_bind m f s = io_bind m g s"
  by (auto simp: io_bind_def split: prod.splits sum.splits)

text \<open>A check that has no result took place before the deadline, so the rounds are bounded if a pause lasts.\<close>

definition due :: "('s \<Rightarrow> real) \<Rightarrow> real \<Rightarrow> ('s, 'a option) io \<Rightarrow> bool" where
  "due now deadline check \<longleftrightarrow> (\<forall>s s'. check s = (Inr None, s') \<longrightarrow> now s \<le> deadline \<and> now s \<le> now s')"

lemma wait_loop_ends:
  assumes "\<And>s r s'. nap s = (r, s') \<Longrightarrow> now s + pause \<le> now s'" and "due now deadline check"
  shows "deadline - now s < pause * real k \<Longrightarrow> k < n \<Longrightarrow> k < n' \<Longrightarrow> wait_loop check nap n s = wait_loop check nap n' s"
proof (induction k arbitrary: n n' s)
  case 0
  then obtain p p' where n: "n = Suc p" "n' = Suc p'" by (cases n; cases n') auto
  have "check s \<noteq> (Inr None, s')" for s' using 0(1) assms(2) unfolding due_def by fastforce
  then show ?case unfolding n wait_loop.simps by (intro io_bind_cong) (auto split: option.split)
next
  case (Suc k)
  obtain p p' where n: "n = Suc p" "n' = Suc p'" "k < p" "k < p'" using Suc.prems(2,3) by (cases n; cases n') auto
  have "wait_loop check nap p s2 = wait_loop check nap p' s2"
    if "check s = (Inr None, s1)" "nap s1 = (Inr u, s2)" for s1 s2 u
  proof (rule Suc.IH [OF _ n(3,4)])
    have "now s \<le> now s1" using assms(2) that(1) unfolding due_def by blast
    then show "deadline - now s2 < pause * real k" using assms(1) [OF that(2)] Suc.prems(1) by (simp add: algebra_simps)
  qed
  then show ?case unfolding n wait_loop.simps by (intro io_bind_cong) (auto intro!: io_bind_cong split: option.split)
qed

text \<open>A loop whose bound is large enough does not run into it.\<close>

lemma wait_loop_bounded:
  assumes "\<And>s r s'. nap s = (r, s') \<Longrightarrow> now s + pause \<le> now s'" and "due now deadline check"
    and "\<And>s s'. check s \<noteq> (Inl no_more_polls, s')" and "\<And>s s'. nap s \<noteq> (Inl no_more_polls, s')"
  shows "deadline - now s < pause * real k \<Longrightarrow> k < n \<Longrightarrow> wait_loop check nap n s \<noteq> (Inl no_more_polls, s')"
proof (induction k arbitrary: n s)
  case 0
  then obtain p where n: "n = Suc p" by (cases n) auto
  have "check s \<noteq> (Inr None, s')" for s' using 0(1) assms(2) unfolding due_def by fastforce
  then show ?case using assms(3) unfolding n wait_loop.simps by (auto simp: io_bind_eq split: option.splits)
next
  case (Suc k)
  obtain p where n: "n = Suc p" "k < p" using Suc.prems(2) by (cases n) auto
  have "wait_loop check nap p s2 \<noteq> (Inl no_more_polls, s')"
    if "check s = (Inr None, s1)" "nap s1 = (Inr u, s2)" for s1 s2 u
  proof (rule Suc.IH [OF _ n(2)])
    have "now s \<le> now s1" using assms(2) that(1) unfolding due_def by blast
    then show "deadline - now s2 < pause * real k" using assms(1) [OF that(2)] Suc.prems(1) by (simp add: algebra_simps)
  qed
  then show ?case using assms(3,4) unfolding n wait_loop.simps by (auto simp: io_bind_eq split: option.splits)
qed

end
