(* ===== verification/Real_Spinup.thy ===== *)
theory Real_Spinup
  imports Sim_Cli Io
begin

text \<open>
  Starting real servers for a placement, \<open>contrib/benchmark/cli\<close> (and its copy
  \<open>simulator/real\<close>): \<open>spinup.py\<close> places replicas, submits a Slurm job for each and waits until the
  nodes have joined the network; \<open>spinup_workload.py\<close> submits the jobs of a given placement;
  \<open>cancel_all.py\<close> cancels everything. All three open the same kind of SSH session.

  paramiko and the SSH configuration are an argument, the template engine is the argument \<open>render\<close>, the
  answers of the node table are a list. Writing the local script and logging are left out.
\<close>

section \<open>SSH sessions\<close>

record ssh_args =
  sa_hostname :: string
  sa_username :: "string option"
  sa_port :: int
  sa_key_filename :: "string option"

record 's ssh_api =
  ssh_load_keys :: "nat \<Rightarrow> ('s, unit) io"
  ssh_lookup :: "string \<Rightarrow> ('s, string pydict) io"
  ssh_connect :: "nat \<Rightarrow> ssh_args \<Rightarrow> bool \<Rightarrow> ('s, unit) io"
  ssh_channel :: "string \<Rightarrow> int \<Rightarrow> ('s, unit) io"
  ssh_put :: "string \<Rightarrow> ('s, unit) io"
  ssh_exec :: "string \<Rightarrow> ('s, int) io"
  ssh_close :: "nat \<Rightarrow> ('s, unit) io"

text \<open>Client 0 is the connection to the cluster, client 1 the one to the jump host.\<close>

definition ssh_connect_args :: "string \<Rightarrow> string pydict \<Rightarrow> ssh_args res" where
  "ssh_connect_args host cfg =
     rbind (case map_of cfg ''port'' of None \<Rightarrow> Inr 22 | Some p \<Rightarrow> py_int_str p) (\<lambda>port.
       Inr \<lparr>sa_hostname = dict_get_default cfg ''hostname'' host, sa_username = map_of cfg ''user'', sa_port = port,
            sa_key_filename = map_of cfg ''identityfile''\<rparr>)"

definition proxy_jump :: "string pydict \<Rightarrow> string option" where
  "proxy_jump cfg = (case map_of cfg ''proxyjump'' of Some (c # cs) \<Rightarrow> Some (c # cs) | _ \<Rightarrow> None)"

definition prepare_session :: "'s ssh_api \<Rightarrow> string \<Rightarrow> ('s, ssh_args \<times> (string \<times> string pydict) option) io" where
  "prepare_session api cluster =
     io_bind (ssh_load_keys api 0) (\<lambda>_.
     io_bind (ssh_lookup api cluster) (\<lambda>cfg.
     io_bind (io_res (ssh_connect_args cluster cfg)) (\<lambda>args.
       case proxy_jump cfg of
         None \<Rightarrow> io_return (args, None)
       | Some host \<Rightarrow> io_bind (ssh_lookup api host) (\<lambda>jump_cfg. io_return (args, Some (host, jump_cfg))))))"

definition open_session :: "'s ssh_api \<Rightarrow> ssh_args \<Rightarrow> (string \<times> string pydict) option \<Rightarrow> ('s, unit) io" where
  "open_session api args jump =
     (case jump of
        None \<Rightarrow> ssh_connect api 0 args False
      | Some (host, cfg) \<Rightarrow>
          io_bind (ssh_load_keys api 1) (\<lambda>_.
          io_bind (io_res (ssh_connect_args host cfg)) (\<lambda>jump_args.
          io_bind (ssh_connect api 1 jump_args False) (\<lambda>_.
          io_bind (ssh_channel api (sa_hostname args) (sa_port args)) (\<lambda>_.
            ssh_connect api 0 args True)))))"

text \<open>\<open>try: ... except Exception: log  finally: close\<close>; the jump client is closed when there is one.\<close>

definition io_attempt :: "('s, 'a) io \<Rightarrow> ('s, 'a res) io" where
  "io_attempt m s = (case m s of (r, s') \<Rightarrow> (Inr r, s'))"

definition remote_session :: "'s ssh_api \<Rightarrow> string \<Rightarrow> ('s, 'a) io \<Rightarrow> ('s, unit) io" where
  "remote_session api cluster work =
     io_bind (io_attempt (prepare_session api cluster)) (\<lambda>r.
       case r of
         Inl e \<Rightarrow> ssh_close api 0
       | Inr (args, jump) \<Rightarrow>
           io_bind (io_attempt (io_bind (open_session api args jump) (\<lambda>_. work))) (\<lambda>_.
           io_bind (ssh_close api 0) (\<lambda>_. if jump = None then io_return () else ssh_close api 1)))"

definition submit_script :: "'s ssh_api \<Rightarrow> string \<Rightarrow> string \<Rightarrow> ('s, unit) io" where
  "submit_script api cluster path =
     remote_session api cluster (io_bind (ssh_put api path) (\<lambda>_. ssh_exec api (''sbatch '' @ path)))"

definition submit_job :: "'s ssh_api \<Rightarrow> string \<Rightarrow> nat \<Rightarrow> ('s, unit) io" where
  "submit_job api cluster job_index =
     submit_script api cluster (''spinup_script_'' @ cluster @ ''_'' @ str_nat job_index @ ''.sh'')"

definition workload_submit_job :: "'s ssh_api \<Rightarrow> string \<Rightarrow> nat \<Rightarrow> ('s, unit) io" where
  "workload_submit_job api cluster job_index =
     submit_script api cluster (''spinup_workload_'' @ cluster @ ''_'' @ str_nat job_index @ ''.sh'')"

definition cancel_all_jobs :: "'s ssh_api \<Rightarrow> ('s, unit) io" where
  "cancel_all_jobs api =
     io_bind (io_for (\<lambda>cluster. remote_session api cluster (ssh_exec api ''scancel -u $USER'')) [''bristen'', ''clariden''])
       (\<lambda>_. io_return ())"

section \<open>Configuration\<close>

definition cluster_mapping :: "string pydict" where
  "cluster_mapping = [(''NVDA:A100_80G:SXM'', ''bristen''), (''NVDA:GH200'', ''clariden'')]"

definition dnt_gpu_mapping :: "string pydict" where
  "dnt_gpu_mapping = [(''NVDA:A100_80G:SXM'', ''NVIDIA A100-SXM4-80GB''), (''NVDA:GH200'', ''NVIDIA GH200 120GB'')]"

definition spin_node :: "pyval \<Rightarrow> physical_node res" where
  "spin_node nd =
     rbind (rbind (py_item nd ''gpu'') as_str) (\<lambda>gpu.
     rbind (rbind (py_item nd ''count'') as_int) (\<lambda>cnt.
     rbind (rbind (py_item nd ''gpus_per_node'') as_int) (\<lambda>per_node.
     rbind (rbind (py_get nd ''cost'' (PFloat 0)) py_float_val) (\<lambda>cost.
       Inr \<lparr>pn_gpu_type = gpu, pn_count = cnt, pn_gpus_per_node = per_node, pn_cost = cost\<rparr>))))"

definition parse_dist_tuple :: "string \<Rightarrow> dist res" where
  "parse_dist_tuple s =
     rbind (py_nth (split_on CHR ''('' s) 1) (\<lambda>rest.
     rbind (map_res (\<lambda>x. py_float_str (py_strip x)) (split_on CHR '','' (strip_by (\<lambda>c. c = CHR '')'') rest))) (\<lambda>params.
       Inr (hd (split_on CHR ''('' s), params)))"

definition spin_arrival :: "dist \<Rightarrow> arrival_process res" where
  "spin_arrival d =
     (case d of (name, params) \<Rightarrow>
        if name = ''Poisson'' \<or> name = ''Gamma'' then create_arrival_process d
        else if name = ''Deterministic'' then rbind (py_nth params 0) (\<lambda>r. Inr (Deterministic r))
        else Inl (ValueError ''Unknown distribution''))"

definition spin_workload :: "pyval \<Rightarrow> workload_config res" where
  "spin_workload wl =
     rbind (rbind (rbind (py_item wl ''arrival_rate'') as_str) parse_dist_tuple) (\<lambda>arrival.
     rbind (spin_arrival arrival) (\<lambda>process.
     rbind (rbind (rbind (py_item wl ''input'') as_str) parse_dist_tuple) (\<lambda>input_dist.
     rbind (rbind (rbind (py_item wl ''output'') as_str) parse_dist_tuple) (\<lambda>output_dist.
     rbind (rbind (py_item wl ''model'') as_str) (\<lambda>model.
     rbind (rbind (py_item wl ''duration'') py_float_val) (\<lambda>duration.
     rbind (rbind (py_get wl ''tensor-parallel-size'' PNone) (\<lambda>v. if v = PNone then Inr None else rbind (as_int v) (\<lambda>i. Inr (Some i)))) (\<lambda>tp.
       Inr \<lparr>wl_model_id = model, wl_arrival_process = process, wl_duration = duration,
            wl_input_dist = input_dist, wl_output_dist = output_dist, wl_tensor_parallel_size = tp\<rparr>)))))))"

record spinup_manager =
  sm_physical_nodes :: "physical_node list"
  sm_workloads :: "workload_config list"
  sm_placement_strategy :: string
  sm_placement_config :: pyval

definition new_spinup_manager :: "pyval \<Rightarrow> spinup_manager res" where
  "new_spinup_manager config_data =
     rbind (rbind (rbind (py_get config_data ''nodes'' (PList [])) py_list_val) (map_res spin_node)) (\<lambda>nodes.
     rbind (rbind (rbind (py_get config_data ''workload'' (PList [])) py_list_val) (map_res spin_workload)) (\<lambda>workloads.
     rbind (rbind (py_get config_data ''placement_strategy'' (PStr ''maximize_replicas'')) as_str) (\<lambda>strategy.
     rbind (py_get config_data ''placement_config'' (PDict [])) (\<lambda>placement_config.
       Inr \<lparr>sm_physical_nodes = nodes, sm_workloads = workloads, sm_placement_strategy = strategy,
            sm_placement_config = placement_config\<rparr>))))"

section \<open>Jobs\<close>

definition bootstrap_addr :: string where
  "bootstrap_addr = ''/ip4/148.187.108.173/tcp/43905/p2p/QmSxh8s3UqmSXBa9SLLREKGAQ6DYCmaeCHeBDdzpJDgn45''"

definition ocf_paths :: "string \<Rightarrow> string \<times> string" where
  "ocf_paths cluster =
     (if py_in ''clariden'' cluster
      then (''/ocfbin/ocf-arm'', ''/capstor/store/cscs/swissai/infra02/xyao/envs/vllm-clariden.toml'')
      else (''/ocfbin/ocf-amd64'', ''/capstor/store/cscs/swissai/infra02/xyao/envs/vllm-bristen.toml''))"

definition generate_slurm_script :: "(pyval pydict \<Rightarrow> string) \<Rightarrow> string \<Rightarrow> string \<Rightarrow> int \<Rightarrow> nat \<Rightarrow> string" where
  "generate_slurm_script render cluster model tp job_index =
     render [(''job_name'', PStr (''llm-sim-'' @ cluster @ ''-'' @ str_nat job_index)), (''total_nodes'', PInt 1),
             (''time'', PStr ''12:00:00''), (''model'', PStr model), (''tp_size'', PInt tp),
             (''ocf_binary'', PStr (fst (ocf_paths cluster))), (''bootstrap_addr'', PStr bootstrap_addr),
             (''env_file'', PStr (snd (ocf_paths cluster)))]"

definition config_tp :: "node_config \<Rightarrow> int res" where
  "config_tp n =
     (case nc_parallel_config n of PC_Config c \<Rightarrow> Inr (tensor_parallel_size c) | _ \<Rightarrow> Inl (AttributeError ''tensor_parallel_size''))"

text \<open>The kind of a node: model and hardware.\<close>

type_synonym node_kind = "string \<times> string"

section \<open>Waiting for the nodes\<close>

definition kind_bump :: "node_kind \<Rightarrow> (node_kind \<times> nat) list \<Rightarrow> (node_kind \<times> nat) list" where
  "kind_bump k d = AList.update k (case map_of d k of None \<Rightarrow> 1 | Some n \<Rightarrow> n + 1) d"

definition required_counts :: "node_kind list \<Rightarrow> (node_kind \<times> nat) list" where
  "required_counts expected = foldl (\<lambda>d k. kind_bump k d) [] expected"

text \<open>\<open>next((x for x in xs if p(x)), None)\<close> where the test may raise.\<close>

fun find_res :: "('a \<Rightarrow> bool res) \<Rightarrow> 'a list \<Rightarrow> 'a option res" where
  "find_res p [] = Inr None"
| "find_res p (x # xs) = rbind (p x) (\<lambda>b. if b then Inr (Some x) else find_res p xs)"

definition has_prefix :: "string \<Rightarrow> pyval \<Rightarrow> bool res" where
  "has_prefix pre v = (case v of PStr s \<Rightarrow> Inr (py_startswith s pre) | _ \<Rightarrow> Inl (AttributeError ''startswith''))"

definition llm_service :: "pyval \<Rightarrow> pyval option res" where
  "llm_service node_data =
     rbind (py_get node_data ''service'' (PList [])) (\<lambda>services.
       if \<not> py_truthy services then Inr None
       else
         rbind (rbind (py_list_val services) (find_res (\<lambda>s. rbind (py_get s ''name'' PNone) (\<lambda>n. Inr (n = PStr ''llm''))))) (\<lambda>llm.
           case llm of
             None \<Rightarrow> Inr None
           | Some s \<Rightarrow>
               if \<not> py_truthy s then Inr None
               else rbind (py_get s ''status'' PNone) (\<lambda>st. Inr (if st = PStr ''connected'' then Some s else None))))"

definition service_model :: "pyval \<Rightarrow> string option res" where
  "service_model s =
     rbind (rbind (rbind (py_get s ''identity_group'' (PList [])) py_list_val) (find_res (has_prefix ''model=''))) (\<lambda>i.
       case i of
         Some (PStr identity) \<Rightarrow> rbind (py_nth (split_on CHR ''='' identity) 1) (\<lambda>m. Inr (Some m))
       | _ \<Rightarrow> Inr None)"

definition config_hardware :: "pyval \<Rightarrow> string option res" where
  "config_hardware node_data =
     rbind (rbind (py_get node_data ''hardware'' (PDict [])) (\<lambda>hw. py_get hw ''gpus'' (PList []))) (\<lambda>gpus.
       if \<not> py_truthy gpus then Inr None
       else
         rbind (rbind (py_first gpus) (\<lambda>g. py_get g ''name'' PNone)) (\<lambda>gpu_name.
           Inr (map_option fst (List.find (\<lambda>(k, v). PStr v = gpu_name) dnt_gpu_mapping))))"

definition kind_of_node :: "pyval \<Rightarrow> node_kind option res" where
  "kind_of_node node_data =
     rbind (llm_service node_data) (\<lambda>s.
       case s of
         None \<Rightarrow> Inr None
       | Some svc \<Rightarrow>
           rbind (service_model svc) (\<lambda>m.
             case m of
               None \<Rightarrow> Inr None
             | Some model \<Rightarrow>
                 rbind (config_hardware node_data) (\<lambda>hw. Inr (map_option (Pair model) hw))))"

type_synonym found = "(node_kind \<times> nat) list \<times> nat"

definition count_kind :: "(node_kind \<times> nat) list \<Rightarrow> node_kind option \<Rightarrow> found \<Rightarrow> found" where
  "count_kind required kind st =
     (case kind of
        None \<Rightarrow> st
      | Some k \<Rightarrow>
          (case map_of required k of
             None \<Rightarrow> st
           | Some needed \<Rightarrow>
               if (case map_of (fst st) k of None \<Rightarrow> 0 | Some n \<Rightarrow> n) < needed
               then (kind_bump k (fst st), snd st + 1) else st))"

definition found_matching :: "(node_kind \<times> nat) list \<Rightarrow> pyval \<Rightarrow> nat res" where
  "found_matching required data =
     rbind (py_items data) (\<lambda>items.
     rbind (for_res (\<lambda>kv st. rbind (kind_of_node (snd kv)) (\<lambda>k. Inr (count_kind required k st))) items ([], 0))
       (\<lambda>st. Inr (snd st)))"

text \<open>An answer of the table; every exception leads to another round.\<close>

datatype table_reply = NoAnswer | HttpStatus int | Table pyval

definition nodes_ready :: "node_kind list \<Rightarrow> table_reply \<Rightarrow> bool" where
  "nodes_ready expected reply =
     (case reply of
        Table data \<Rightarrow>
          (case found_matching (required_counts expected) data of Inr n \<Rightarrow> length expected \<le> n | Inl _ \<Rightarrow> False)
      | _ \<Rightarrow> False)"

text \<open>The number of rounds, or \<open>None\<close> while the loop is still waiting after all answers.\<close>

fun wait_for_nodes :: "node_kind list \<Rightarrow> table_reply list \<Rightarrow> nat option" where
  "wait_for_nodes expected [] = None"
| "wait_for_nodes expected (r # rs) =
     (if nodes_ready expected r then Some 1 else map_option Suc (wait_for_nodes expected rs))"


section \<open>Spinning up\<close>

fun present :: "'a option list \<Rightarrow> 'a list" where
  "present [] = []"
| "present (None # xs) = present xs"
| "present (Some x # xs) = x # present xs"

text \<open>One logical node: skipped when its hardware has no cluster, else expected and submitted.\<close>

definition spin_one ::
  "(pyval pydict \<Rightarrow> string) \<Rightarrow> 's ssh_api \<Rightarrow> bool \<Rightarrow> nat \<times> node_config \<Rightarrow> ('s, (node_kind \<times> string) option) io" where
  "spin_one render api dry_run i_nd =
     (case i_nd of (i, nd) \<Rightarrow>
        io_bind (io_res (config_tp nd)) (\<lambda>tp.
          case map_of cluster_mapping (nc_hardware nd) of
            None \<Rightarrow> io_return None
          | Some cluster \<Rightarrow>
              let job = Some ((nc_model_id nd, nc_hardware nd), generate_slurm_script render cluster (nc_model_id nd) tp i) in
              if dry_run then io_return job else io_bind (submit_job api cluster i) (\<lambda>_. io_return job)))"

definition spin_nodes ::
  "(pyval pydict \<Rightarrow> string) \<Rightarrow> 's ssh_api \<Rightarrow> bool \<Rightarrow> table_reply list \<Rightarrow> node_config list \<Rightarrow>
     ('s, (node_kind \<times> string) list \<times> nat option) io" where
  "spin_nodes render api dry_run replies nodes =
     io_bind (io_for (spin_one render api dry_run) (enumerate 0 nodes)) (\<lambda>jobs.
       let jobs = present jobs in
       io_return (jobs, if dry_run then Some 0 else wait_for_nodes (map fst jobs) replies))"

definition spinup_run ::
  "externals \<Rightarrow> samplers \<Rightarrow> (pyval pydict \<Rightarrow> string) \<Rightarrow> 's ssh_api \<Rightarrow> bool \<Rightarrow> table_reply list \<Rightarrow> spinup_manager \<Rightarrow> 's \<Rightarrow>
     (((node_kind \<times> string) list \<times> nat option) res \<times> 's) option" where
  "spinup_run x smp render api dry_run replies mgr s =
     (case rbind (rbind (py_get (sm_placement_config mgr) ''memory_threshold'' (PFloat (8 / 10))) py_float_val)
             (get_strategy (sm_placement_strategy mgr)) of
        Inl e \<Rightarrow> Some (Inl e, s)
      | Inr strat \<Rightarrow>
          map_option (\<lambda>placed. case placed of
              Inl e \<Rightarrow> (Inl e, s)
            | Inr (nodes, meta) \<Rightarrow> spin_nodes render api dry_run replies nodes s)
            (strategy_place x smp strat (sm_physical_nodes mgr) (sm_workloads mgr)))"

text \<open>\<open>spinup_workload.py\<close>: the placement is given.\<close>

definition workload_script ::
  "(pyval pydict \<Rightarrow> string) \<Rightarrow> string \<Rightarrow> string \<Rightarrow> pyval \<Rightarrow> int \<Rightarrow> pyval \<Rightarrow> nat \<Rightarrow> string" where
  "workload_script render cluster model tp replicas utilization job_index =
     render [(''job_name'', PStr (''llm-sim-'' @ cluster @ ''-'' @ str_nat job_index)), (''total_nodes'', PInt replicas),
             (''time'', PStr ''12:00:00''), (''model'', PStr model), (''tp_size'', tp), (''count'', PInt replicas),
             (''tasks_per_node'', PInt 1), (''ocf_binary'', PStr (fst (ocf_paths cluster))),
             (''bootstrap_addr'', PStr bootstrap_addr), (''env_file'', PStr (snd (ocf_paths cluster))),
             (''gpu_memory_utilization'', utilization)]"

definition workload_one ::
  "(pyval pydict \<Rightarrow> string) \<Rightarrow> 's ssh_api \<Rightarrow> bool \<Rightarrow> nat \<times> pyval \<Rightarrow> ('s, string option) io" where
  "workload_one render api dry_run i_p =
     (case i_p of (i, p) \<Rightarrow>
        io_bind (io_res (rbind (py_item p ''model'') as_str)) (\<lambda>model.
        io_bind (io_res (py_item p ''tensor-parallel-size'')) (\<lambda>tp.
        io_bind (io_res (rbind (py_item p ''gpus'') as_str)) (\<lambda>gpu.
        io_bind (io_res (rbind (py_item p ''count'') as_int)) (\<lambda>replicas.
        io_bind (io_res (py_get p ''gpu-memory-utilization'' PNone)) (\<lambda>utilization.
          case map_of cluster_mapping gpu of
            None \<Rightarrow> io_return None
          | Some cluster \<Rightarrow>
              let script = workload_script render cluster model tp replicas utilization i in
              if dry_run then io_return (Some script)
              else io_bind (workload_submit_job api cluster i) (\<lambda>_. io_return (Some script))))))))"

definition workload_run :: "(pyval pydict \<Rightarrow> string) \<Rightarrow> 's ssh_api \<Rightarrow> bool \<Rightarrow> pyval \<Rightarrow> ('s, string list) io" where
  "workload_run render api dry_run config =
     io_bind (io_res (rbind (py_get config ''placement'' (PList [])) py_list_val)) (\<lambda>placements.
     io_bind (io_for (workload_one render api dry_run) (enumerate 0 placements)) (\<lambda>scripts.
       io_return (present scripts)))"

section \<open>What the wait waits for\<close>

definition have_count :: "(node_kind \<times> nat) list \<Rightarrow> node_kind \<Rightarrow> nat" where
  "have_count d k = (case map_of d k of None \<Rightarrow> 0 | Some n \<Rightarrow> n)"

lemma have_count_Nil [simp]: "have_count [] k = 0"
  by (simp add: have_count_def)

lemma have_count_bump [simp]: "have_count (kind_bump k d) k' = have_count d k' + (if k' = k then 1 else 0)"
  by (simp add: have_count_def kind_bump_def update_conv' split: option.split)

lemma have_required: "have_count (required_counts expected) k = count_list expected k"
proof -
  have "have_count (foldl (\<lambda>d k. kind_bump k d) d expected) k = have_count d k + count_list expected k" for d
    by (induction expected arbitrary: d) auto
  then show ?thesis by (simp add: required_counts_def)
qed

lemma count_kind_Some:
  "count_kind required (Some k) st =
     (if have_count (fst st) k < have_count required k then (kind_bump k (fst st), snd st + 1) else st)"
  by (simp add: count_kind_def have_count_def split: option.split)

text \<open>The count after going through the kinds of nodes in a table.\<close>

lemma fold_count_kind:
  assumes "finite K" "\<And>k. 0 < have_count required k \<Longrightarrow> k \<in> K"
    and "\<And>k. have_count (fst st) k \<le> have_count required k" and "snd st = (\<Sum>k \<in> K. have_count (fst st) k)"
  shows "snd (fold (count_kind required) kinds st) =
    (\<Sum>k \<in> K. min (have_count required k) (have_count (fst st) k + count_list (present kinds) k))"
  using assms(3,4)
proof (induction kinds arbitrary: st)
  case Nil
  have "(\<Sum>k \<in> K. have_count (fst st) k) = (\<Sum>k \<in> K. min (have_count required k) (have_count (fst st) k))"
    by (rule sum.cong) (use Nil(1) in \<open>simp_all add: min_absorb2\<close>)
  then show ?case using Nil(2) by simp
next
  case (Cons k0 ks)
  show ?case
  proof (cases k0)
    case None
    then show ?thesis using Cons by (simp add: count_kind_def)
  next
    case (Some k)
    let ?st = "count_kind required (Some k) st"
    have le: "have_count (fst ?st) k' \<le> have_count required k'" for k'
      using Cons.prems(1) [of k'] by (auto simp: count_kind_Some)
    have "snd ?st = (\<Sum>k \<in> K. have_count (fst ?st) k)"
    proof (cases "have_count (fst st) k < have_count required k")
      case True
      then have "k \<in> K" using assms(2) [of k] by simp
      then show ?thesis using True Cons.prems(2) assms(1) by (simp add: count_kind_Some sum.distrib)
    qed (use Cons.prems(2) in \<open>simp add: count_kind_Some\<close>)
    from Cons.IH [OF le this] have "snd (fold (count_kind required) (k0 # ks) st) =
        (\<Sum>k \<in> K. min (have_count required k) (have_count (fst ?st) k + count_list (present ks) k))"
      by (simp add: Some)
    also have "\<dots> = (\<Sum>k \<in> K. min (have_count required k) (have_count (fst st) k + count_list (present (k0 # ks)) k))"
      by (rule sum.cong) (auto simp: Some count_kind_Some)
    finally show ?thesis .
  qed
qed

lemma sum_min_ge:
  fixes f g :: "'a \<Rightarrow> nat"
  assumes "finite K"
  shows "(\<Sum>k \<in> K. f k) \<le> (\<Sum>k \<in> K. min (f k) (g k)) \<longleftrightarrow> (\<forall>k \<in> K. f k \<le> g k)"
proof
  assume le: "(\<Sum>k \<in> K. f k) \<le> (\<Sum>k \<in> K. min (f k) (g k))"
  show "\<forall>k \<in> K. f k \<le> g k"
  proof (rule ccontr)
    assume "\<not> (\<forall>k \<in> K. f k \<le> g k)"
    then obtain k where "k \<in> K" "min (f k) (g k) < f k" by auto
    then have "(\<Sum>k \<in> K. min (f k) (g k)) < (\<Sum>k \<in> K. f k)" using assms by (intro sum_strict_mono_ex1) auto
    then show False using le by simp
  qed
next
  assume "\<forall>k \<in> K. f k \<le> g k"
  then have "(\<Sum>k \<in> K. min (f k) (g k)) = (\<Sum>k \<in> K. f k)" by (intro sum.cong) (simp_all add: min_absorb1)
  then show "(\<Sum>k \<in> K. f k) \<le> (\<Sum>k \<in> K. min (f k) (g k))" by simp
qed

lemma for_res_kinds:
  "for_res (\<lambda>kv st. rbind (kind_of_node (snd kv)) (\<lambda>k. Inr (count_kind required k st))) items st =
     rbind (map_res kind_of_node (map snd items)) (\<lambda>kinds. Inr (fold (count_kind required) kinds st))"
proof (induction items arbitrary: st)
  case (Cons kv items)
  then show ?case by (cases "kind_of_node (snd kv)") (simp_all add: rbind_assoc)
qed simp

text \<open>A table offers what is expected: every node can be read, and every kind is there often enough.\<close>

definition offers :: "node_kind list \<Rightarrow> table_reply \<Rightarrow> bool" where
  "offers expected reply \<longleftrightarrow>
     (\<exists>items kinds. reply = Table (PDict items) \<and> map_res kind_of_node (map snd items) = Inr kinds
        \<and> (\<forall>k. count_list expected k \<le> count_list (present kinds) k))"

lemma nodes_ready_iff: "nodes_ready expected reply \<longleftrightarrow> offers expected reply"
proof (cases "\<exists>items kinds. reply = Table (PDict items) \<and> map_res kind_of_node (map snd items) = Inr kinds")
  case True
  then obtain items kinds where r: "reply = Table (PDict items)" and k: "map_res kind_of_node (map snd items) = Inr kinds" by blast
  let ?K = "set expected"
  have pos: "0 < count_list expected k \<Longrightarrow> k \<in> ?K" for k by (metis count_notin less_irrefl)
  have "found_matching (required_counts expected) (PDict items) =
      Inr (\<Sum>k \<in> ?K. min (count_list expected k) (count_list (present kinds) k))"
    using fold_count_kind [of ?K "required_counts expected" "([], 0)" kinds] pos
    by (simp add: found_matching_def py_items_def for_res_kinds k have_required)
  moreover have "length expected = (\<Sum>k \<in> ?K. count_list expected k)" by (simp add: sum_count_set)
  ultimately have "nodes_ready expected reply \<longleftrightarrow> (\<forall>k \<in> ?K. count_list expected k \<le> count_list (present kinds) k)"
    by (simp add: nodes_ready_def r sum_min_ge)
  also have "\<dots> \<longleftrightarrow> (\<forall>k. count_list expected k \<le> count_list (present kinds) k)"
    by (metis count_notin le0)
  finally show ?thesis by (simp add: offers_def r k)
next
  case False
  then have "\<not> nodes_ready expected reply"
    by (auto simp: nodes_ready_def found_matching_def py_items_def for_res_kinds res_simps
        split: table_reply.splits pyval.splits sum.splits)
  then show ?thesis using False by (auto simp: offers_def)
qed

lemma wait_for_nodes_iff:
  "wait_for_nodes expected replies = Some n \<longleftrightarrow>
     (\<exists>m < length replies. n = Suc m \<and> offers expected (replies ! m) \<and> (\<forall>i < m. \<not> offers expected (replies ! i)))"
proof (induction replies arbitrary: n)
  case (Cons r rs)
  have "wait_for_nodes expected (r # rs) = Some n \<longleftrightarrow>
      (if offers expected r then n = 1 else (\<exists>m. n = Suc m \<and> wait_for_nodes expected rs = Some m))"
    by (auto simp: nodes_ready_iff)
  also have "\<dots> \<longleftrightarrow> (\<exists>m < length (r # rs). n = Suc m \<and> offers expected ((r # rs) ! m)
      \<and> (\<forall>i < m. \<not> offers expected ((r # rs) ! i)))"
    by (cases "offers expected r") (auto simp: Cons.IH Ex_less_Suc2 All_less_Suc2)
  finally show ?case .
qed simp

text \<open>Sessions: what raises inside is swallowed.\<close>

lemma remote_session_returns:
  assumes "\<And>i s. fst (ssh_close api i s) = Inr ()"
  shows "\<exists>s'. remote_session api cluster work s = (Inr (), s')"
proof -
  have close: "\<exists>s'. ssh_close api i s = (Inr (), s')" for i s using assms [of i s] by (metis prod.collapse)
  have attempt: "\<exists>r s'. io_attempt m s = (Inr r, s')" for m :: "('a, 'c) io" and s
    by (simp add: io_attempt_def split: prod.split)
  have ends: "\<exists>s'. io_bind (ssh_close api 0) (\<lambda>_. if jump = None then io_return () else ssh_close api 1) s = (Inr (), s')"
    for jump :: "(string \<times> string pydict) option" and s
  proof -
    obtain s1 where s1: "ssh_close api 0 s = (Inr (), s1)" using close by blast
    show ?thesis using s1 close [of 1 s1] by (cases jump) (simp_all add: io_bind_def io_return_def)
  qed
  have tail: "\<exists>s'. io_bind (io_attempt m) (\<lambda>_. io_bind (ssh_close api 0)
      (\<lambda>_. if jump = None then io_return () else ssh_close api 1)) s = (Inr (), s')"
    for m :: "('a, 'b) io" and jump :: "(string \<times> string pydict) option" and s
  proof -
    obtain r s1 where "io_attempt m s = (Inr r, s1)" using attempt [of m s] by blast
    then have "io_bind (io_attempt m) f s = f r s1" for f :: "'b res \<Rightarrow> ('a, unit) io" by (simp add: io_bind_def)
    then show ?thesis using ends by simp
  qed
  obtain r s1 where r: "io_attempt (prepare_session api cluster) s = (Inr r, s1)"
    using attempt by blast
  show ?thesis
  proof (cases r)
    case (Inl e)
    then show ?thesis using r close [of 0 s1] by (simp add: remote_session_def io_bind_def)
  next
    case (Inr a)
    obtain args jump where a: "a = (args, jump)" by (cases a)
    have "remote_session api cluster work s = io_bind (io_attempt (io_bind (open_session api args jump) (\<lambda>_. work)))
        (\<lambda>_. io_bind (ssh_close api 0) (\<lambda>_. if jump = None then io_return () else ssh_close api 1)) s1"
      using r unfolding remote_session_def Inr a by (subst io_bind_def) simp
    then show ?thesis using tail by metis
  qed
qed

lemma spin_one_returns:
  assumes "\<And>i s. fst (ssh_close api i s) = Inr ()" and "nc_parallel_config nd = PC_Config c"
  shows "\<exists>job s'. spin_one render api False (i, nd) s = (Inr job, s')
    \<and> map_option fst job = (if dict_has cluster_mapping (nc_hardware nd) then Some (nc_model_id nd, nc_hardware nd) else None)"
proof (cases "map_of cluster_mapping (nc_hardware nd)")
  case None
  then show ?thesis using assms(2) by (simp add: spin_one_def config_tp_def io_bind_def io_res_def io_return_def)
next
  case (Some cluster)
  obtain s' where "submit_job api cluster i s = (Inr (), s')"
    using remote_session_returns [OF assms(1)] unfolding submit_job_def submit_script_def by blast
  then show ?thesis using assms(2) Some
    by (simp add: spin_one_def config_tp_def io_bind_def io_res_def io_return_def Let_def)
qed

lemma spin_all_return:
  assumes "\<And>i s. fst (ssh_close api i s) = Inr ()" and "\<forall>nd \<in> set nodes. \<exists>c. nc_parallel_config nd = PC_Config c"
  shows "\<exists>jobs s'. io_for (spin_one render api False) (enumerate i nodes) s = (Inr jobs, s')
    \<and> map fst (present jobs) =
        map (\<lambda>nd. (nc_model_id nd, nc_hardware nd)) (filter (\<lambda>nd. dict_has cluster_mapping (nc_hardware nd)) nodes)"
  using assms(2)
proof (induction nodes arbitrary: i s)
  case (Cons nd nodes)
  obtain c where c: "nc_parallel_config nd = PC_Config c" using Cons.prems by auto
  obtain job s1 where job: "spin_one render api False (i, nd) s = (Inr job, s1)"
      "map_option fst job = (if dict_has cluster_mapping (nc_hardware nd) then Some (nc_model_id nd, nc_hardware nd) else None)"
    using spin_one_returns [OF assms(1) c] by blast
  obtain jobs s2 where jobs: "io_for (spin_one render api False) (enumerate (Suc i) nodes) s1 = (Inr jobs, s2)"
      "map fst (present jobs) =
        map (\<lambda>nd. (nc_model_id nd, nc_hardware nd)) (filter (\<lambda>nd. dict_has cluster_mapping (nc_hardware nd)) nodes)"
    using Cons.IH [of "Suc i" s1] Cons.prems by auto
  have "io_for (spin_one render api False) (enumerate i (nd # nodes)) s = (Inr (job # jobs), s2)"
    using job(1) jobs(1) by (simp add: io_bind_def io_return_def)
  moreover have "map fst (present (job # jobs)) = map (\<lambda>nd. (nc_model_id nd, nc_hardware nd))
      (filter (\<lambda>nd. dict_has cluster_mapping (nc_hardware nd)) (nd # nodes))"
    using job(2) jobs(2) by (cases job) (auto split: if_splits)
  ultimately show ?case by blast
qed (simp add: io_return_def)


text \<open>
  A session in which everything fails but closing, a replica on known hardware, and a table without
  nodes: the wait does not end.
\<close>

definition dead_api :: "unit ssh_api" where
  "dead_api = \<lparr>ssh_load_keys = (\<lambda>_. io_raise ZeroDivisionError), ssh_lookup = (\<lambda>_. io_raise ZeroDivisionError),
     ssh_connect = (\<lambda>_ _ _. io_raise ZeroDivisionError), ssh_channel = (\<lambda>_ _. io_raise ZeroDivisionError),
     ssh_put = (\<lambda>_. io_raise ZeroDivisionError), ssh_exec = (\<lambda>_. io_raise ZeroDivisionError), ssh_close = (\<lambda>_. io_return ())\<rparr>"

definition sample_replica :: node_config where
  "sample_replica = replica_node 0 ''m'' ''NVDA:GH200'' 1"

lemma empty_offers_nothing: "expected \<noteq> [] \<Longrightarrow> \<not> offers expected (Table (PDict []))"
  by (cases expected) (auto simp: offers_def)


end
