(* ===== verification/Place_Router.thy ===== *)
theory Place_Router
  imports Real_Spinup "HOL-Library.List_Lexorder" "HOL-Library.Char_ord"
begin

text \<open>
  The request router of the placement experiments, \<open>tools/bench_placement/api_server.py\<close>: it reads the
  table of nodes, keeps the nodes that serve a model, and sends each request to one of them, chosen at
  random with the weights of the configuration. Random draws and the answers of the servers are arguments.
  Endpoints run in one event loop and do not wait between choosing a node and counting the request, so a
  request is one step. Logging is left out.
\<close>

section \<open>State\<close>

record backend =
  bk_model :: string
  bk_hardware :: string
  bk_address :: pyval
  bk_port :: pyval
  bk_node_id :: string

record router_stats =
  rs_total :: nat
  rs_by_model :: "nat pydict"
  rs_by_hardware :: "nat pydict"
  rs_by_instance :: "nat pydict"

record router_state =
  rt_backends :: "backend list"
  rt_weights :: "(node_kind \<times> real) list"
  rt_dnt_data :: pyval
  rt_stats :: router_stats

definition new_router :: router_state where
  "new_router = \<lparr>rt_backends = [], rt_weights = [], rt_dnt_data = PDict [],
     rt_stats = \<lparr>rs_total = 0, rs_by_model = [], rs_by_hardware = [], rs_by_instance = []\<rparr>\<rparr>"

section \<open>Weights\<close>

text \<open>An item that raises ends the loading; the weights read before it stay. Models and hardware names are
  strings, as in the configuration files.\<close>

definition weight_item :: "pyval \<Rightarrow> (node_kind \<times> real) list \<Rightarrow> (node_kind \<times> real) list res" where
  "weight_item item ws =
     rbind (rbind (py_item item ''model'') as_str) (\<lambda>model.
     rbind (rbind (py_item item ''gpus'') as_str) (\<lambda>gpus.
     rbind (rbind (py_get item ''weight'' (PFloat 1)) py_float_val) (\<lambda>w.
       Inr (AList.update (model, gpus) w ws))))"

fun weight_items :: "pyval list \<Rightarrow> (node_kind \<times> real) list \<Rightarrow> (node_kind \<times> real) list" where
  "weight_items [] ws = ws"
| "weight_items (x # xs) ws = (case weight_item x ws of Inr ws' \<Rightarrow> weight_items xs ws' | Inl _ \<Rightarrow> ws)"

definition load_weights :: "pyval res \<Rightarrow> router_state \<Rightarrow> router_state" where
  "load_weights config st =
     (case rbind config (\<lambda>c. rbind (py_get c ''placement'' (PList [])) py_list_val) of
        Inl _ \<Rightarrow> st
      | Inr items \<Rightarrow> st\<lparr>rt_weights := weight_items items (rt_weights st)\<rparr>)"

section \<open>Backends\<close>

definition gpu_to_config :: "string pydict" where
  "gpu_to_config = [(''NVIDIA A100-SXM4-80GB'', ''NVDA:A100_80G:SXM''), (''NVIDIA GH200 120GB'', ''NVDA:GH200'')]"

definition router_hardware :: "pyval \<Rightarrow> string option res" where
  "router_hardware node_data =
     rbind (rbind (py_get node_data ''hardware'' (PDict [])) (\<lambda>hw. py_get hw ''gpus'' (PList []))) (\<lambda>gpus.
       if \<not> py_truthy gpus then Inr None
       else
         rbind (rbind (py_first gpus) (\<lambda>g. py_get g ''name'' PNone)) (\<lambda>gpu_name.
           if \<not> hashable gpu_name then Inl (TypeError ''unhashable type'')
           else Inr (case gpu_name of PStr s \<Rightarrow> map_of gpu_to_config s | _ \<Rightarrow> None)))"

definition backend_of :: "string \<Rightarrow> pyval \<Rightarrow> backend option res" where
  "backend_of node_id node_data =
     rbind (llm_service node_data) (\<lambda>svc.
       case svc of
         None \<Rightarrow> Inr None
       | Some s \<Rightarrow>
           rbind (service_model s) (\<lambda>m.
             case m of
               None \<Rightarrow> Inr None
             | Some model \<Rightarrow>
                 rbind (router_hardware node_data) (\<lambda>hw.
                   case hw of
                     None \<Rightarrow> Inr None
                   | Some hardware \<Rightarrow>
                       rbind (py_get s ''port'' PNone) (\<lambda>port.
                       rbind (py_get node_data ''public_address'' PNone) (\<lambda>address.
                         Inr (Some \<lparr>bk_model = model, bk_hardware = hardware, bk_address = address, bk_port = port,
                                    bk_node_id = node_id\<rparr>))))))"

definition parse_backends :: "pyval \<Rightarrow> backend list res" where
  "parse_backends data =
     rbind (py_items data) (\<lambda>items.
     rbind (map_res (\<lambda>(node_id, node_data). backend_of node_id node_data) items) (\<lambda>bs.
       Inr (sort_key bk_node_id (present bs))))"

text \<open>\<open>fetch_dnt_table\<close>: the document is stored before it is read, and an exception leaves the old backends.\<close>

definition fetch_dnt_table :: "table_reply \<Rightarrow> router_state \<Rightarrow> router_state" where
  "fetch_dnt_table reply st =
     (case reply of
        Table data \<Rightarrow>
          let st1 = st\<lparr>rt_dnt_data := data\<rparr> in
          (case parse_backends data of Inl _ \<Rightarrow> st1 | Inr bs \<Rightarrow> st1\<lparr>rt_backends := bs\<rparr>)
      | _ \<Rightarrow> st)"

section \<open>Choosing a backend\<close>

text \<open>\<open>pick n\<close> is an index below \<open>n\<close>, \<open>uniform t\<close> a number from zero to \<open>t\<close>.\<close>

record router_draw =
  rd_pick :: "nat \<Rightarrow> nat"
  rd_uniform :: "real \<Rightarrow> real"

definition weight_of :: "router_state \<Rightarrow> backend \<Rightarrow> real" where
  "weight_of st b = (case map_of (rt_weights st) (bk_model b, bk_hardware b) of Some w \<Rightarrow> w | None \<Rightarrow> 1)"

fun weighted_pick :: "real \<Rightarrow> real \<Rightarrow> (backend \<times> real) list \<Rightarrow> backend option" where
  "weighted_pick r acc [] = None"
| "weighted_pick r acc ((c, w) # cws) = (if acc + w \<ge> r then Some c else weighted_pick r (acc + w) cws)"

definition select_backend :: "router_draw \<Rightarrow> pyval \<Rightarrow> router_state \<Rightarrow> backend option" where
  "select_backend draw model st =
     (let candidates = filter (\<lambda>b. PStr (bk_model b) = model) (rt_backends st);
          cws = map (\<lambda>c. (c, weight_of st c)) candidates;
          total_weight = sum_list (map snd cws)
      in if candidates = [] then None
         else if total_weight \<le> 0 then Some (candidates ! rd_pick draw (length candidates))
         else (case weighted_pick (rd_uniform draw total_weight) 0 cws of
                 Some c \<Rightarrow> Some c
               | None \<Rightarrow> Some (last candidates)))"

section \<open>Requests\<close>

datatype endpoint = ChatCompletions | Completions

definition endpoint_path :: "endpoint \<Rightarrow> string" where
  "endpoint_path e = (case e of ChatCompletions \<Rightarrow> ''chat/completions'' | Completions \<Rightarrow> ''completions'')"

definition proxy_base_url :: string where
  "proxy_base_url = ''http://148.187.108.173:8092/v1/p2p''"

definition target_url :: "endpoint \<Rightarrow> backend \<Rightarrow> string" where
  "target_url e b = proxy_base_url @ bk_node_id b @ ''/v1/_service/llm/v1/'' @ endpoint_path e"

definition count_request :: "backend \<Rightarrow> router_stats \<Rightarrow> router_stats" where
  "count_request b s =
     \<lparr>rs_total = rs_total s + 1, rs_by_model = dict_bump (bk_model b) (rs_by_model s),
      rs_by_hardware = dict_bump (bk_hardware b) (rs_by_hardware s), rs_by_instance = dict_bump (bk_node_id b) (rs_by_instance s)\<rparr>"

text \<open>
  \<open>chat_completions\<close> and \<open>completions\<close>: \<open>upstream stream url\<close> is the status and the content that the
  server gives, streamed or read as a whole, or its failure.
\<close>

datatype answer = Refused int | Forwarded string backend "(int \<times> pyval) res"

definition route_request ::
  "endpoint \<Rightarrow> router_draw \<Rightarrow> (bool \<Rightarrow> string \<Rightarrow> (int \<times> pyval) res) \<Rightarrow> pyval \<Rightarrow> router_state \<Rightarrow> answer res \<times> router_state" where
  "route_request e draw upstream body st =
     (case py_get body ''model'' PNone of
        Inl x \<Rightarrow> (Inl x, st)
      | Inr model \<Rightarrow>
          if \<not> py_truthy model then (Inr (Refused 400), st)
          else
            (case select_backend draw model st of
               None \<Rightarrow> (Inr (Refused 404), st)
             | Some b \<Rightarrow>
                 (Inr (Forwarded (target_url e b) b
                    (case rbind (py_get body ''stream'' PNone) (\<lambda>stream. upstream (py_truthy stream) (target_url e b)) of
                       Inl _ \<Rightarrow> Inl (HTTPException 502 ''Upstream error'')
                     | Inr r \<Rightarrow> Inr r)),
                  st\<lparr>rt_stats := count_request b (rt_stats st)\<rparr>)))"

definition list_models :: "router_state \<Rightarrow> string list" where
  "list_models st = remdups (map bk_model (rt_backends st))"

datatype router_event =
    Fetched table_reply
  | Requested endpoint router_draw "bool \<Rightarrow> string \<Rightarrow> (int \<times> pyval) res" pyval

fun router_step :: "router_event \<Rightarrow> answer res list \<times> router_state \<Rightarrow> answer res list \<times> router_state" where
  "router_step (Fetched reply) (as, st) = (as, fetch_dnt_table reply st)"
| "router_step (Requested e draw upstream body) (as, st) =
     (case route_request e draw upstream body st of (a, st') \<Rightarrow> (as @ [a], st'))"

definition router_run :: "pyval res \<Rightarrow> router_event list \<Rightarrow> answer res list \<times> router_state" where
  "router_run config events = fold router_step events ([], load_weights config new_router)"

section \<open>The choice\<close>

lemma weighted_pick_bracket:
  assumes "weighted_pick r acc cws = Some c" "acc < r"
  shows "\<exists>pre w post. cws = pre @ (c, w) # post \<and> acc + sum_list (map snd pre) < r \<and> r \<le> acc + sum_list (map snd pre) + w"
  using assms
proof (induction r acc cws rule: weighted_pick.induct)
  case (2 r acc c0 w0 cws)
  show ?case
  proof (cases "acc + w0 \<ge> r")
    case True
    then show ?thesis using 2(2,3) by (intro exI [of _ "[]"] exI [of _ w0] exI [of _ cws]) simp
  next
    case False
    then obtain pre w post where "cws = pre @ (c, w) # post" "acc + w0 + sum_list (map snd pre) < r"
        "r \<le> acc + w0 + sum_list (map snd pre) + w"
      using 2 by auto
    then show ?thesis by (intro exI [of _ "(c0, w0) # pre"] exI [of _ w] exI [of _ post]) (simp add: add.assoc)
  qed
qed simp

lemma weighted_pick_some: "r \<le> acc + sum_list (map snd cws) \<Longrightarrow> cws \<noteq> [] \<Longrightarrow> \<exists>c. weighted_pick r acc cws = Some c"
proof (induction r acc cws rule: weighted_pick.induct)
  case (2 r acc c0 w0 cws)
  then show ?case by (cases "cws = []") (auto simp: add.assoc)
qed simp

lemma weighted_pick_in: "weighted_pick r acc cws = Some c \<Longrightarrow> c \<in> set (map fst cws)"
  by (induction r acc cws rule: weighted_pick.induct) (auto split: if_splits)

text \<open>The backend chosen serves the model; there is none exactly when no backend does.\<close>

lemma select_backend_serves:
  assumes "\<And>n. 0 < n \<Longrightarrow> rd_pick draw n < n"
  shows "case select_backend draw model st of
      None \<Rightarrow> \<forall>b \<in> set (rt_backends st). PStr (bk_model b) \<noteq> model
    | Some b \<Rightarrow> b \<in> set (rt_backends st) \<and> PStr (bk_model b) = model"
proof -
  let ?cs = "filter (\<lambda>b. PStr (bk_model b) = model) (rt_backends st)"
  show ?thesis
  proof (cases "?cs = []")
    case True
    then show ?thesis by (simp add: select_backend_def filter_empty_conv)
  next
    case False
    have "select_backend draw model st \<noteq> None"
      using False by (simp add: select_backend_def Let_def split: option.split)
    then obtain b where b: "select_backend draw model st = Some b" by blast
    have "b \<in> set ?cs"
      using b False assms nth_mem [of "rd_pick draw (length ?cs)" ?cs] last_in_set [OF False]
      by (auto simp: select_backend_def Let_def comp_def split: if_splits option.splits dest!: weighted_pick_in)
    then show ?thesis by (simp add: b)
  qed
qed

text \<open>For a draw inside the range, a backend is chosen exactly on an interval as long as its weight.\<close>

lemma select_backend_weighted:
  assumes "candidates = filter (\<lambda>b. PStr (bk_model b) = model) (rt_backends st)" "candidates \<noteq> []"
    and "tw = sum_list (map (weight_of st) candidates)" "0 < rd_uniform draw tw" "rd_uniform draw tw \<le> tw"
  shows "\<exists>pre b post. candidates = pre @ b # post \<and> select_backend draw model st = Some b
    \<and> sum_list (map (weight_of st) pre) < rd_uniform draw tw
    \<and> rd_uniform draw tw \<le> sum_list (map (weight_of st) pre) + weight_of st b"
proof -
  let ?cws = "map (\<lambda>c. (c, weight_of st c)) candidates"
  have sums: "sum_list (map snd ?cws) = tw" by (simp add: assms(3) comp_def)
  obtain b where b: "weighted_pick (rd_uniform draw tw) 0 ?cws = Some b"
    using weighted_pick_some [of "rd_uniform draw tw" 0 ?cws] sums assms(2,5) by auto
  obtain pre w post where p: "?cws = pre @ (b, w) # post" "sum_list (map snd pre) < rd_uniform draw tw"
      "rd_uniform draw tw \<le> sum_list (map snd pre) + w"
    using weighted_pick_bracket [OF b assms(4)] by auto
  obtain xs y ys where c: "candidates = xs @ y # ys" "map (\<lambda>c. (c, weight_of st c)) xs = pre" "(y, weight_of st y) = (b, w)"
    using p(1) by (auto simp: map_eq_append_conv Cons_eq_map_conv)
  have pre: "map snd pre = map (weight_of st) xs" by (simp add: c(2) [symmetric] comp_def)
  have "\<not> tw \<le> 0" using assms(4,5) by simp
  then have "select_backend draw model st = Some b"
    using b assms(1,2) sums by (simp add: select_backend_def Let_def)
  then show ?thesis using c p(2,3) pre by (intro exI [of _ xs] exI [of _ y] exI [of _ ys]) auto
qed
section \<open>A run of the router\<close>

definition is_forwarded :: "answer res \<Rightarrow> bool" where
  "is_forwarded a = (case a of Inr (Forwarded _ _ _) \<Rightarrow> True | _ \<Rightarrow> False)"

definition draws_ok :: "router_event \<Rightarrow> bool" where
  "draws_ok ev = (case ev of Requested e draw u b \<Rightarrow> \<forall>n > 0. rd_pick draw n < n | _ \<Rightarrow> True)"

definition listed :: "router_event list \<Rightarrow> backend \<Rightarrow> bool" where
  "listed events b \<longleftrightarrow> (\<exists>data bs. Fetched (Table data) \<in> set events \<and> parse_backends data = Inr bs \<and> b \<in> set bs)"

definition stats_ok :: "nat \<Rightarrow> router_stats \<Rightarrow> bool" where
  "stats_ok n s \<longleftrightarrow> rs_total s = n
     \<and> (\<forall>d \<in> {rs_by_model s, rs_by_hardware s, rs_by_instance s}. distinct (map fst d) \<and> sum_list (map snd d) = n)"

lemma stats_ok_count: "stats_ok n s \<Longrightarrow> stats_ok (Suc n) (count_request b s)"
  unfolding stats_ok_def count_request_def by (auto simp: sum_list_dict_bump distinct_dict_bump)

lemma fetch_stats: "rt_stats (fetch_dnt_table reply st) = rt_stats st"
  by (simp add: fetch_dnt_table_def Let_def split: table_reply.split sum.split)

lemma fetch_backends:
  "b \<in> set (rt_backends (fetch_dnt_table reply st)) \<Longrightarrow> b \<in> set (rt_backends st) \<or> listed [Fetched reply] b"
  by (auto simp: fetch_dnt_table_def listed_def Let_def split: table_reply.splits sum.splits)

lemma route_request_cases:
  assumes "route_request e draw upstream body st = (a, st')" "\<forall>n > 0. rd_pick draw n < n"
  shows "(\<not> is_forwarded a \<and> st' = st) \<or>
    (\<exists>b r. a = Inr (Forwarded (target_url e b) b r) \<and> b \<in> set (rt_backends st) \<and> py_get body ''model'' PNone = Inr (PStr (bk_model b))
       \<and> st' = st\<lparr>rt_stats := count_request b (rt_stats st)\<rparr>)"
proof (cases "py_get body ''model'' PNone")
  case (Inl x)
  then show ?thesis using assms(1) by (auto simp: route_request_def is_forwarded_def)
next
  case (Inr model)
  show ?thesis
  proof (cases "select_backend draw model st")
    case None
    then show ?thesis using assms(1) Inr by (auto simp: route_request_def is_forwarded_def split: if_splits)
  next
    case (Some b)
    have "b \<in> set (rt_backends st) \<and> PStr (bk_model b) = model"
      using select_backend_serves [where draw = draw and model = model and st = st] assms(2) by (simp add: Some)
    then show ?thesis using assms(1) Inr Some by (auto simp: route_request_def is_forwarded_def split: if_splits)
  qed
qed

definition asked :: "router_event list \<Rightarrow> string \<Rightarrow> backend \<Rightarrow> bool" where
  "asked events url b \<longleftrightarrow> (\<exists>e draw upstream body. Requested e draw upstream body \<in> set events \<and> url = target_url e b
     \<and> py_get body ''model'' PNone = Inr (PStr (bk_model b)))"

lemma asked_more: "asked evs url b \<Longrightarrow> asked (evs @ evs') url b"
  by (auto simp: asked_def)

lemma asked_last:
  "py_get body ''model'' PNone = Inr (PStr (bk_model b)) \<Longrightarrow> asked (evs @ [Requested e draw upstream body]) (target_url e b) b"
  unfolding asked_def by (intro exI [of _ e] exI [of _ draw] exI [of _ upstream] exI [of _ body]) simp

lemma listed_more: "listed evs b \<Longrightarrow> listed (evs @ evs') b" "listed evs' b \<Longrightarrow> listed (evs @ evs') b"
  by (auto simp: listed_def)

text \<open>C32: the router counts every request it forwards, and forwards only to nodes it was told of. In every sequence
  of table updates and requests, the total and the sums of the counts per model, per hardware and per node
  are all the number of requests forwarded; and a request is forwarded to a node that some fetched table
  lists with a connected service for the model asked for.\<close>

theorem router_accounts:
  assumes "\<forall>ev \<in> set events. draws_ok ev" and "router_run config events = (answers, st)"
  shows "stats_ok (length (filter is_forwarded answers)) (rt_stats st)
    \<and> (\<forall>url b r. Inr (Forwarded url b r) \<in> set answers \<longrightarrow> listed events b \<and> asked events url b)"
proof -
  have "(\<forall>b \<in> set (rt_backends st). listed events b) \<and> stats_ok (length (filter is_forwarded answers)) (rt_stats st)
    \<and> (\<forall>url b r. Inr (Forwarded url b r) \<in> set answers \<longrightarrow> listed events b \<and> asked events url b)"
    using assms
  proof (induction events arbitrary: answers st rule: rev_induct)
    case Nil
    then show ?case
      by (auto simp: router_run_def load_weights_def new_router_def stats_ok_def split: sum.splits)
  next
    case (snoc ev evs)
    obtain as s where run: "router_run config evs = (as, s)" by (cases "router_run config evs")
    have step: "router_step ev (as, s) = (answers, st)" using snoc.prems(2) run by (simp add: router_run_def)
    have "\<forall>ev \<in> set evs. draws_ok ev" using snoc.prems(1) by simp
    note all = snoc.IH [OF this run]
    have ih: "\<forall>b \<in> set (rt_backends s). listed evs b" "stats_ok (length (filter is_forwarded as)) (rt_stats s)"
        and sent: "\<forall>url b r. Inr (Forwarded url b r) \<in> set as \<longrightarrow> listed evs b \<and> asked evs url b"
      using all by simp_all
    have sent': "\<forall>url b r. Inr (Forwarded url b r) \<in> set as \<longrightarrow> listed (evs @ [ev]) b \<and> asked (evs @ [ev]) url b"
      and known: "\<forall>b \<in> set (rt_backends s). listed (evs @ [ev]) b"
      using sent ih(1) listed_more(1) asked_more by blast+
    show ?case
    proof (cases ev)
      case (Fetched reply)
      then have st: "answers = as" "st = fetch_dnt_table reply s" using step by simp_all
      have "\<forall>b \<in> set (rt_backends st). listed (evs @ [ev]) b"
        using ih(1) fetch_backends listed_more Fetched unfolding st(2) by blast
      then show ?thesis using ih(2) sent' by (simp add: st fetch_stats)
    next
      case (Requested e draw upstream body)
      obtain a where a: "route_request e draw upstream body s = (a, st)" "answers = as @ [a]"
        using step Requested by (auto split: prod.splits)
      have pick: "\<forall>n > 0. rd_pick draw n < n" using snoc.prems(1) Requested by (simp add: draws_ok_def)
      from route_request_cases [OF a(1) pick] show ?thesis
      proof (elim disjE conjE exE)
        assume "\<not> is_forwarded a" "st = s"
        moreover have "a \<noteq> Inr (Forwarded url b r)" for url b r using calculation(1) by (auto simp: is_forwarded_def)
        moreover have "filter is_forwarded answers = filter is_forwarded as" using a(2) calculation(1) by simp
        moreover have "\<forall>url b r. Inr (Forwarded url b r) \<in> set answers \<longrightarrow> Inr (Forwarded url b r) \<in> set as"
          using a(2) calculation(3) by auto
        ultimately show ?thesis using ih(2) known sent' by (intro conjI allI impI) (simp, simp, blast, blast)
      next
        fix b r assume f: "a = Inr (Forwarded (target_url e b) b r)" "b \<in> set (rt_backends s)"
          "py_get body ''model'' PNone = Inr (PStr (bk_model b))" "st = s\<lparr>rt_stats := count_request b (rt_stats s)\<rparr>"
        have "is_forwarded a" by (simp add: f(1) is_forwarded_def)
        then have "stats_ok (length (filter is_forwarded answers)) (rt_stats st)"
          using stats_ok_count [OF ih(2)] a(2) f(4) by simp
        moreover have "listed (evs @ [ev]) b" using known f(2) by blast
        moreover have "asked (evs @ [ev]) (target_url e b) b" unfolding Requested by (rule asked_last [OF f(3)])
        ultimately show ?thesis using known sent' f(1,4) a(2) by auto
      qed
    qed
  qed
  then show ?thesis by blast
qed

text \<open>A table with one connected node, and a request for its model.\<close>

definition router_table :: pyval where
  "router_table = PDict [(''/p'', PDict
     [(''service'', PList [PDict [(''name'', PStr ''llm''), (''status'', PStr ''connected''),
         (''identity_group'', PList [PStr ''model=m''])]]),
      (''hardware'', PDict [(''gpus'', PList [PDict [(''name'', PStr ''NVIDIA GH200 120GB'')]])])])]"

definition sample_draw :: router_draw where
  "sample_draw = \<lparr>rd_pick = (\<lambda>_. 0), rd_uniform = (\<lambda>t. t)\<rparr>"

theorem router_accounts_witness:
  "stats_ok (length (filter is_forwarded (fst (router_run (Inr (PDict []))
      [Fetched (Table router_table), Requested Completions sample_draw (\<lambda>_ _. Inr (200, PNone)) (PDict [(''model'', PStr ''m'')])]))))
     (rt_stats (snd (router_run (Inr (PDict []))
      [Fetched (Table router_table), Requested Completions sample_draw (\<lambda>_ _. Inr (200, PNone)) (PDict [(''model'', PStr ''m'')])])))"
proof -
  let ?evs = "[Fetched (Table router_table), Requested Completions sample_draw (\<lambda>_ _. Inr (200, PNone)) (PDict [(''model'', PStr ''m'')])]"
  have ok: "\<forall>ev \<in> set ?evs. draws_ok ev" by (simp add: draws_ok_def sample_draw_def)
  obtain as st where run: "router_run (Inr (PDict [])) ?evs = (as, st)" by (cases "router_run (Inr (PDict [])) ?evs")
  show ?thesis using router_accounts [OF ok run] unfolding run by simp
qed

end
