(* ===== verification/Load_Gen.thy ===== *)
theory Load_Gen
  imports Json
begin

text \<open>
  The HTTP load generator of the simulator's calibration
  (\<open>contrib/serving-simulator/simulator/utils/engine.py\<close>): the measurement of one streamed
  completion, its statistics over several runs, and the throughput of a batch of requests.

  What the server sends is an argument: the lines of the response body, each with the clock reading
  that the code takes after parsing it. Text is ASCII. Floats are reals, so a result that is zero here
  is zero up to rounding in the program. A document that \<open>json.loads\<close> rejects is skipped; the
  model's own limits (non-finite numbers, characters above \<open>U+00FF\<close>) raise.
\<close>

section \<open>Prompts\<close>

definition build_token_like_prompt :: "int \<Rightarrow> string" where
  "build_token_like_prompt token_count =
     (if token_count \<le> 0 then [] else join_with '' '' (replicate (nat token_count) ''a''))"

definition generate_prompt :: "int \<Rightarrow> string" where
  "generate_prompt target_length =
     py_strip (concat (map (\<lambda>i. ''The quick brown fox jumps over the lazy dog. Sentence '' @ str_nat (Suc i) @ '': '')
       [0..<nat (max 1 (target_length div 9))]))"

section \<open>Values of a chunk\<close>

text \<open>Numbers.\<close>

definition as_number :: "pyval \<Rightarrow> pyval res" where
  "as_number v =
     (case v of
        PBool b \<Rightarrow> Inr (PInt (if b then 1 else 0))
      | PInt i \<Rightarrow> Inr (PInt i)
      | PFloat x \<Rightarrow> Inr (PFloat x)
      | _ \<Rightarrow> Inl (TypeError ''unsupported operand''))"

definition num_real :: "pyval \<Rightarrow> real" where
  "num_real v = (case v of PBool b \<Rightarrow> (if b then 1 else 0) | PInt i \<Rightarrow> of_int i | PFloat x \<Rightarrow> x | _ \<Rightarrow> 0)"

definition num_add :: "pyval \<Rightarrow> pyval \<Rightarrow> pyval" where
  "num_add a b = (case (a, b) of (PInt i, PInt j) \<Rightarrow> PInt (i + j) | _ \<Rightarrow> PFloat (num_real a + num_real b))"

section \<open>One streamed completion\<close>

record stream_state =
  ss_first :: "real option"
  ss_last :: "real option"
  ss_completion :: pyval

definition init_stream :: stream_state where
  "init_stream = \<lparr>ss_first = None, ss_last = None, ss_completion = PNone\<rparr>"

text \<open>The effect of one parsed chunk that arrived at \<open>ts\<close>.\<close>

definition stream_chunk :: "real \<Rightarrow> pyval \<Rightarrow> stream_state \<Rightarrow> stream_state res" where
  "stream_chunk ts chunk s =
     (let s1 = s\<lparr>ss_last := Some ts\<rparr> in
      rbind (py_get chunk ''choices'' (PList [])) (\<lambda>choices.
      rbind (if py_truthy choices then
               rbind (py_first choices) (\<lambda>delta.
               rbind (py_get delta ''content'' PNone) (\<lambda>content.
               rbind (if py_truthy content then Inr content else py_get delta ''text'' PNone) (\<lambda>piece.
                 Inr (if py_truthy piece \<and> ss_first s1 = None then s1\<lparr>ss_first := Some ts\<rparr> else s1))))
             else Inr s1) (\<lambda>s2.
      rbind (py_get chunk ''usage'' PNone) (\<lambda>usage.
        if py_truthy usage then
          rbind (py_contains ''completion_tokens'' usage) (\<lambda>b.
            if b then rbind (py_item usage ''completion_tokens'') (\<lambda>n. Inr (s2\<lparr>ss_completion := n\<rparr>))
            else Inr s2)
        else Inr s2))))"

definition is_done :: "string \<Rightarrow> bool" where
  "is_done data \<longleftrightarrow> strip_by is_c_space data = ''[DONE]''"

fun stream_lines :: "(string \<times> real) list \<Rightarrow> stream_state \<Rightarrow> stream_state res" where
  "stream_lines [] s = Inr s"
| "stream_lines ((line, ts) # rest) s =
     (if \<not> py_startswith line ''data: '' then stream_lines rest s
      else if is_done (drop 6 line) then Inr s
      else
        (case json_loads (drop 6 line) of
           Inl e \<Rightarrow> if e = json_error then stream_lines rest s else Inl e
         | Inr chunk \<Rightarrow> rbind (stream_chunk ts chunk s) (stream_lines rest)))"

record bench_result =
  br_latency :: real
  br_ttft :: real
  br_decode_time_per_token :: real
  br_completion_tokens :: pyval
  br_avg_tbt :: real
  br_input_len :: int
  br_output_len :: int

definition bench_metrics :: "int \<Rightarrow> int \<Rightarrow> real \<Rightarrow> real \<Rightarrow> stream_state \<Rightarrow> bench_result res" where
  "bench_metrics input_len output_len start_ts now s =
     (case ss_first s of
        None \<Rightarrow> Inl (RuntimeError ''Did not receive any completion tokens from the server.'')
      | Some first_ts \<Rightarrow>
          rbind (if ss_completion s = PNone then Inr (PInt 1)
                 else rbind (as_number (ss_completion s)) (\<lambda>n. Inr (if num_real n \<le> 0 then PInt 1 else n))) (\<lambda>n.
            let last_ts = (case ss_last s of Some t \<Rightarrow> t | None \<Rightarrow> now);
                decode = max 0 (last_ts - first_ts)
            in Inr \<lparr>br_latency = last_ts - start_ts, br_ttft = first_ts - start_ts,
                    br_decode_time_per_token = decode / max 1 (num_real n), br_completion_tokens = n,
                    br_avg_tbt = (if num_real n > 1 then decode / (num_real n - 1) else 0),
                    br_input_len = input_len, br_output_len = output_len\<rparr>))"

text \<open>
  \<open>benchmark_openai_compatible_server\<close>: \<open>api_key\<close> and the environment's key, the clock before the
  request, the response (an error of the connection, an HTTP error, or the lines of the body) and the
  clock after it.
\<close>

datatype response =
    ConnectionFailed py_exn
  | HttpStatus int string
  | Body "(string \<times> real) list"

definition benchmark_openai_compatible_server ::
  "int \<Rightarrow> int \<Rightarrow> string \<Rightarrow> string \<Rightarrow> real \<Rightarrow> response \<Rightarrow> real \<Rightarrow> bench_result res" where
  "benchmark_openai_compatible_server input_len output_len api_key env_key start_ts resp now =
     (if input_len < 0 then Inl (ValueError ''input_prompt_len must be non-negative'')
      else if output_len \<le> 0 then Inl (ValueError ''output_len must be positive'')
      else if api_key = [] \<and> env_key = [] then Inl (RuntimeError ''Missing API key'')
      else
        (case resp of
           ConnectionFailed e \<Rightarrow> Inl e
         | HttpStatus code body \<Rightarrow> Inl (RuntimeError (''Remote server error: '' @ take 500 body))
         | Body ls \<Rightarrow> rbind (stream_lines ls init_stream) (bench_metrics input_len output_len start_ts now)))"

section \<open>Statistics over several runs\<close>

record sample_summary =
  sa_mean :: real
  sa_std :: real
  sa_min :: real
  sa_max :: real
  sa_cv :: real
  sa_all :: "real list"

record bench_stats =
  bs_completed :: nat
  bs_prefill :: sample_summary
  bs_decode :: sample_summary
  bs_tokens_per_second :: real
  bs_detailed :: "bench_result list"

definition mean :: "real list \<Rightarrow> real" where
  "mean xs = sum_list xs / real (length xs)"

definition list_min :: "real list \<Rightarrow> real" where
  "list_min xs = (case xs of [] \<Rightarrow> 0 | x # ys \<Rightarrow> fold min ys x)"

definition list_max :: "real list \<Rightarrow> real" where
  "list_max xs = (case xs of [] \<Rightarrow> 0 | x # ys \<Rightarrow> fold max ys x)"

text \<open>The code squares the sum of the deviations of the prefill times, and sums the squares for decode.\<close>

definition prefill_std :: "real list \<Rightarrow> real" where
  "prefill_std xs = sqrt ((sum_list (map (\<lambda>t. t - mean xs) xs))\<^sup>2 / real (length xs))"

definition decode_std :: "real list \<Rightarrow> real" where
  "decode_std xs = sqrt (sum_list (map (\<lambda>t. (t - mean xs)\<^sup>2) xs) / real (length xs))"

definition sample_stats :: "real \<Rightarrow> real list \<Rightarrow> sample_summary" where
  "sample_stats std xs =
     \<lparr>sa_mean = mean xs, sa_std = std, sa_min = list_min xs, sa_max = list_max xs,
      sa_cv = (if mean xs > 0 then std / mean xs else 0), sa_all = xs\<rparr>"

definition completed_runs :: "int \<Rightarrow> int \<Rightarrow> (int \<Rightarrow> bench_result res) \<Rightarrow> bench_result list" where
  "completed_runs iterations warmup runs =
     concat (map (\<lambda>i. case runs i of Inr r \<Rightarrow> if warmup \<le> i then [r] else [] | Inl _ \<Rightarrow> []) [0..iterations - 1])"

definition benchmark_with_stats :: "int \<Rightarrow> int \<Rightarrow> (int \<Rightarrow> bench_result res) \<Rightarrow> bench_stats res" where
  "benchmark_with_stats iterations warmup runs =
     (if iterations < 1 then Inl (ValueError ''iterations must be at least 1'')
      else if warmup < 0 then Inl (ValueError ''warmup_iterations must be non-negative'')
      else if iterations \<le> warmup then Inl (ValueError ''warmup_iterations must be less than total iterations'')
      else
        let rs = completed_runs iterations warmup runs;
            prefill = map br_ttft rs;
            decode = map br_decode_time_per_token rs
        in if prefill = [] then Inl (RuntimeError ''All benchmark iterations failed'')
           else Inr \<lparr>bs_completed = length prefill, bs_prefill = sample_stats (prefill_std prefill) prefill,
                     bs_decode = sample_stats (decode_std decode) decode,
                     bs_tokens_per_second = (if mean decode > 0 then 1 / mean decode else 0), bs_detailed = rs\<rparr>)"
section \<open>One request of a batch\<close>

record token_state =
  ts_first :: "real option"
  ts_last :: "real option"
  ts_times :: "real list"
  ts_completion :: pyval
  ts_prompt :: pyval

definition init_tokens :: token_state where
  "init_tokens = \<lparr>ts_first = None, ts_last = None, ts_times = [], ts_completion = PNone, ts_prompt = PNone\<rparr>"

definition note_token :: "real \<Rightarrow> token_state \<Rightarrow> token_state" where
  "note_token now s =
     (if ts_first s = None then s\<lparr>ts_first := Some now, ts_last := Some now\<rparr>
      else s\<lparr>ts_times := ts_times s @ [now], ts_last := Some now\<rparr>)"

definition usage_item :: "string \<Rightarrow> pyval \<Rightarrow> pyval \<Rightarrow> pyval res" where
  "usage_item k usage old = rbind (py_contains k usage) (\<lambda>b. if b then py_item usage k else Inr old)"

definition token_chunk :: "real \<Rightarrow> pyval \<Rightarrow> token_state \<Rightarrow> token_state res" where
  "token_chunk now chunk s =
     rbind (py_get chunk ''choices'' (PList [])) (\<lambda>choices.
     rbind (if py_truthy choices then
              rbind (py_first choices) (\<lambda>delta.
              rbind (py_get delta ''text'' (PStr [])) (\<lambda>piece.
                Inr (if py_truthy piece then note_token now s else s)))
            else Inr s) (\<lambda>s2.
     rbind (py_get chunk ''usage'' PNone) (\<lambda>usage.
       if py_truthy usage then
         rbind (usage_item ''completion_tokens'' usage (ts_completion s2)) (\<lambda>c.
         rbind (usage_item ''prompt_tokens'' usage (ts_prompt s2)) (\<lambda>p.
           Inr (s2\<lparr>ts_completion := c, ts_prompt := p\<rparr>)))
       else Inr s2)))"

fun token_lines :: "(string \<times> real) list \<Rightarrow> token_state \<Rightarrow> token_state res" where
  "token_lines [] s = Inr s"
| "token_lines ((line, now) # rest) s =
     (let l = py_strip line in
      if \<not> py_startswith l ''data: '' then token_lines rest s
      else if drop 6 l = ''[DONE]'' then Inr s
      else
        (case json_loads (drop 6 l) of
           Inl e \<Rightarrow> if e = json_error then token_lines rest s else Inl e
         | Inr chunk \<Rightarrow> rbind (token_chunk now chunk s) (token_lines rest)))"

record req_result =
  rr_request_id :: int
  rr_success :: bool
  rr_latency :: real
  rr_error :: "string option"
  rr_prompt_tokens :: pyval
  rr_completion_tokens :: pyval
  rr_total_tokens :: pyval
  rr_time_per_completion_token :: real
  rr_time_per_total_token :: real
  rr_ttft :: real
  rr_time_between_tokens :: "real list"
  rr_avg_time_between_tokens :: real
  rr_prefill_time :: real
  rr_decode_time :: real

definition failed_request :: "int \<Rightarrow> real \<Rightarrow> string \<Rightarrow> pyval \<Rightarrow> req_result" where
  "failed_request rid latency err prompt =
     \<lparr>rr_request_id = rid, rr_success = False, rr_latency = latency, rr_error = Some err,
      rr_prompt_tokens = prompt, rr_completion_tokens = PInt 0, rr_total_tokens = prompt,
      rr_time_per_completion_token = 0, rr_time_per_total_token = 0, rr_ttft = 0, rr_time_between_tokens = [],
      rr_avg_time_between_tokens = 0, rr_prefill_time = 0, rr_decode_time = 0\<rparr>"

fun gaps :: "real list \<Rightarrow> real list" where
  "gaps (a # b # xs) = (b - a) # gaps (b # xs)"
| "gaps _ = []"

definition time_between_tokens :: "token_state \<Rightarrow> real list" where
  "time_between_tokens s =
     (if length (ts_times s) > 1 then gaps (ts_times s)
      else if length (ts_times s) = 1 then
        (case (ts_first s, ts_last s) of
           (Some f, Some l) \<Rightarrow> if f \<noteq> 0 \<and> l \<noteq> 0 then [l - f] else []
         | _ \<Rightarrow> [])
      else [])"

definition avg_or_zero :: "real list \<Rightarrow> real" where
  "avg_or_zero xs = (if xs = [] then 0 else mean xs)"

definition request_metrics :: "int \<Rightarrow> real \<Rightarrow> real \<Rightarrow> token_state \<Rightarrow> req_result res" where
  "request_metrics rid start_time end_time s =
     (case ts_first s of
        None \<Rightarrow> Inr (failed_request rid (end_time - start_time) ''No tokens generated'' (py_or (ts_prompt s) (PInt 0)))
      | Some first_time \<Rightarrow>
          rbind (as_number (py_or (ts_completion s) (PInt 0))) (\<lambda>completion.
          rbind (as_number (py_or (ts_prompt s) (PInt 0))) (\<lambda>prompt.
            let latency = end_time - start_time;
                last_time = (case ts_last s of Some t \<Rightarrow> if t \<noteq> 0 then t else first_time | None \<Rightarrow> first_time);
                total = num_add prompt completion;
                between = time_between_tokens s
            in Inr \<lparr>rr_request_id = rid, rr_success = True, rr_latency = latency, rr_error = None,
                    rr_prompt_tokens = py_or (ts_prompt s) (PInt 0), rr_completion_tokens = py_or (ts_completion s) (PInt 0),
                    rr_total_tokens = total,
                    rr_time_per_completion_token =
                      (if num_real completion > 0 then latency / num_real completion else 0),
                    rr_time_per_total_token = (if num_real total > 0 then latency / num_real total else 0),
                    rr_ttft = first_time - start_time, rr_time_between_tokens = between,
                    rr_avg_time_between_tokens = avg_or_zero between,
                    rr_prefill_time = first_time - start_time, rr_decode_time = last_time - first_time\<rparr>)))"

text \<open>
  \<open>send_single_request\<close>: every exception becomes a failed result; \<open>py_str\<close> prints it, \<open>None\<close>
  stands for \<open>asyncio.TimeoutError\<close>. The clock readings before and after the request are arguments.
\<close>

datatype reply =
    TimedOut
  | Raised py_exn
  | Status int string
  | Stream "(string \<times> real) list"

definition send_single_request :: "(py_exn \<Rightarrow> string) \<Rightarrow> int \<Rightarrow> real \<Rightarrow> reply \<Rightarrow> real \<Rightarrow> req_result" where
  "send_single_request py_str rid start_time rep end_time =
     (case rep of
        TimedOut \<Rightarrow> failed_request rid (end_time - start_time) ''Request timeout'' (PInt 0)
      | Raised e \<Rightarrow> failed_request rid (end_time - start_time) (py_str e) (PInt 0)
      | Status code body \<Rightarrow>
          failed_request rid (end_time - start_time) (''HTTP '' @ str_int code @ '': '' @ body) (PInt 0)
      | Stream ls \<Rightarrow>
          (case rbind (token_lines ls init_tokens) (request_metrics rid start_time end_time) of
             Inl e \<Rightarrow> failed_request rid (end_time - start_time) (py_str e) (PInt 0)
           | Inr r \<Rightarrow> r))"

section \<open>Throughput of a batch\<close>

record throughput_report =
  tr_total_time :: real
  tr_total :: nat
  tr_successful :: nat
  tr_failed :: nat
  tr_success_rate :: real
  tr_requests_per_second :: real
  tr_completion_tokens_per_second :: real
  tr_input_tokens_per_second :: real
  tr_total_completion_tokens :: real
  tr_total_tokens_processed :: real
  tr_avg_latency :: real
  tr_min_latency :: real
  tr_max_latency :: real
  tr_avg_time_per_completion_token :: real
  tr_min_time_per_completion_token :: real
  tr_max_time_per_completion_token :: real
  tr_avg_time_per_total_token :: real
  tr_min_time_per_total_token :: real
  tr_max_time_per_total_token :: real
  tr_avg_prefill_time :: real
  tr_avg_decode_time :: real
  tr_avg_ttft :: real
  tr_avg_time_between_tokens :: real
  tr_avg_avg_time_between_tokens :: real
  tr_ok_results :: "req_result list"
  tr_failed_results :: "req_result list"

text \<open>
  The outcome of each task of the batch: an exception of \<open>gather\<close>, whose entry has no request id
  (\<open>-1\<close> here), or a result.
\<close>

definition outcome_result :: "(py_exn \<Rightarrow> string) \<Rightarrow> py_exn + req_result \<Rightarrow> req_result" where
  "outcome_result py_str out = (case out of Inl e \<Rightarrow> failed_request (-1) 0 (py_str e) (PInt 0) | Inr r \<Rightarrow> r)"

definition positive_values :: "(req_result \<Rightarrow> real) \<Rightarrow> req_result list \<Rightarrow> real list" where
  "positive_values f rs = filter (\<lambda>x. x > 0) (map f rs)"

definition per_second :: "real \<Rightarrow> real \<Rightarrow> real" where
  "per_second x total_time = (if total_time > 0 then x / total_time else 0)"

definition bench_throughput :: "(py_exn \<Rightarrow> string) \<Rightarrow> real \<Rightarrow> real \<Rightarrow> (py_exn + req_result) list \<Rightarrow> throughput_report" where
  "bench_throughput py_str start_time end_time outcomes =
     (let rs = map (outcome_result py_str) outcomes;
          ok = filter rr_success rs;
          bad = filter (\<lambda>r. \<not> rr_success r) rs;
          total_time = end_time - start_time;
          completion = sum_list (map (\<lambda>r. num_real (rr_completion_tokens r)) ok);
          latencies = map rr_latency ok;
          tpc = positive_values rr_time_per_completion_token ok;
          tpt = positive_values rr_time_per_total_token ok
      in \<lparr>tr_total_time = total_time, tr_total = length outcomes, tr_successful = length ok, tr_failed = length bad,
          tr_success_rate = (if outcomes = [] then 0 else real (length ok) / real (length outcomes)),
          tr_requests_per_second = per_second (real (length ok)) total_time,
          tr_completion_tokens_per_second = per_second completion total_time,
          tr_input_tokens_per_second = per_second (sum_list (map (\<lambda>r. num_real (rr_prompt_tokens r)) ok)) total_time,
          tr_total_completion_tokens = completion,
          tr_total_tokens_processed = sum_list (map (\<lambda>r. num_real (rr_total_tokens r)) ok),
          tr_avg_latency = avg_or_zero latencies, tr_min_latency = list_min latencies, tr_max_latency = list_max latencies,
          tr_avg_time_per_completion_token = avg_or_zero tpc, tr_min_time_per_completion_token = list_min tpc,
          tr_max_time_per_completion_token = list_max tpc,
          tr_avg_time_per_total_token = avg_or_zero tpt, tr_min_time_per_total_token = list_min tpt,
          tr_max_time_per_total_token = list_max tpt,
          tr_avg_prefill_time = avg_or_zero (positive_values rr_prefill_time ok),
          tr_avg_decode_time = avg_or_zero (positive_values rr_decode_time ok),
          tr_avg_ttft = avg_or_zero (positive_values rr_ttft ok),
          tr_avg_time_between_tokens = avg_or_zero (concat (map rr_time_between_tokens ok)),
          tr_avg_avg_time_between_tokens = avg_or_zero (positive_values rr_avg_time_between_tokens ok),
          tr_ok_results = ok, tr_failed_results = bad\<rparr>)"

section \<open>The server process\<close>

text \<open>
  \<open>wait_for_server\<close>: what each round sees, the clock at the loop test and the status of the reply
  (\<open>None\<close> when the request raised). \<open>stop_vllm\<close>: whether the process is alive at each test, in
  order; the result is the list of signals sent to its group.
\<close>

fun wait_for_server :: "real \<Rightarrow> (real \<times> int option) list \<Rightarrow> unit res option" where
  "wait_for_server deadline [] = None"
| "wait_for_server deadline ((now, status) # rest) =
     (if now < deadline then (if status = Some 200 then Some (Inr ()) else wait_for_server deadline rest)
      else Some (Inl (OtherException ''TimeoutError'')))"

datatype unix_signal = SIGTERM | SIGKILL

fun wait_exit :: "real \<Rightarrow> (real \<times> bool) list \<Rightarrow> bool option" where
  "wait_exit deadline [] = None"
| "wait_exit deadline ((now, alive) # rest) =
     (if now < deadline then (if \<not> alive then Some True else wait_exit deadline rest) else Some False)"

definition stop_vllm ::
  "int \<Rightarrow> real \<Rightarrow> real \<Rightarrow> bool \<Rightarrow> bool \<Rightarrow> (real \<times> bool) list \<Rightarrow> bool \<Rightarrow> unix_signal list option" where
  "stop_vllm pid timeout now alive term_delivered polls alive_after =
     (if pid \<le> 0 \<or> \<not> alive then Some []
      else
        let kill = (if alive_after then [SIGTERM, SIGKILL] else [SIGTERM])
        in if term_delivered \<and> timeout > 0 then
             map_option (\<lambda>exited. if exited then [SIGTERM] else kill) (wait_exit (now + timeout) polls)
           else Some kill)"
section \<open>Statistics\<close>

lemma sum_deviations: "xs \<noteq> [] \<Longrightarrow> sum_list (map (\<lambda>t. t - mean xs) xs) = 0"
  by (simp add: sum_list_subtractf mean_def sum_list_triv)

lemma sum_list_squares_zero: "sum_list (map (\<lambda>t. (t - m)\<^sup>2) xs) = 0 \<longleftrightarrow> (\<forall>t \<in> set xs. t = (m :: real))"
  by (subst sum_list_nonneg_eq_0_iff) auto

lemma decode_std_zero: "xs \<noteq> [] \<Longrightarrow> decode_std xs = 0 \<longleftrightarrow> (\<forall>t \<in> set xs. t = mean xs)"
  by (simp add: decode_std_def sum_list_squares_zero)

lemma mean_const: "xs \<noteq> [] \<Longrightarrow> (\<forall>t \<in> set xs. t = c) \<Longrightarrow> mean xs = c"
proof -
  assume "xs \<noteq> []" "\<forall>t \<in> set xs. t = c"
  moreover from this have "xs = replicate (length xs) c" by (simp add: replicate_eqI)
  then have "sum_list xs = real (length xs) * c" by (metis sum_list_replicate)
  ultimately show ?thesis by (simp add: mean_def)
qed

lemma all_equal_mean: "xs \<noteq> [] \<Longrightarrow> (\<forall>t \<in> set xs. t = mean xs) \<longleftrightarrow> (\<forall>t \<in> set xs. \<forall>u \<in> set xs. t = u)"
  using mean_const [of xs "hd xs"] by (metis list.set_sel(1))

text \<open>The reported spread of the prefill times is always zero. Whatever the runs measured, a
  successful \<open>benchmark_openai_compatible_server_with_stats\<close> reports the standard deviation and the
  coefficient of variation of the time to first token as \<open>0\<close>, since it squares the sum of the
  deviations instead of summing their squares; the standard deviation of the decode times is \<open>0\<close>
  only when all runs agree.
\<close>

lemma prefill_std_is_zero:
  assumes "benchmark_with_stats iterations warmup runs = Inr st"
  shows "sa_std (bs_prefill st) = 0 \<and> sa_cv (bs_prefill st) = 0
    \<and> (sa_std (bs_decode st) = 0 \<longleftrightarrow>
        (\<forall>t \<in> set (sa_all (bs_decode st)). \<forall>u \<in> set (sa_all (bs_decode st)). t = u))"
proof -
  let ?rs = "completed_runs iterations warmup runs"
  have ne: "?rs \<noteq> []" and st: "bs_prefill st = sample_stats (prefill_std (map br_ttft ?rs)) (map br_ttft ?rs)"
      "bs_decode st = sample_stats (decode_std (map br_decode_time_per_token ?rs)) (map br_decode_time_per_token ?rs)"
    using assms by (auto simp: benchmark_with_stats_def Let_def split: if_splits)
  have "prefill_std (map br_ttft ?rs) = 0"
    using sum_deviations [of "map br_ttft ?rs"] ne by (simp add: prefill_std_def)
  moreover have "decode_std (map br_decode_time_per_token ?rs) = 0 \<longleftrightarrow>
      (\<forall>t \<in> set (map br_decode_time_per_token ?rs). \<forall>u \<in> set (map br_decode_time_per_token ?rs). t = u)"
    using ne by (subst decode_std_zero, simp, subst all_equal_mean) simp_all
  ultimately show ?thesis by (simp add: st sample_stats_def)
qed

definition sample_result :: "real \<Rightarrow> real \<Rightarrow> bench_result" where
  "sample_result ttft decode =
     \<lparr>br_latency = ttft + decode, br_ttft = ttft, br_decode_time_per_token = decode, br_completion_tokens = PInt 1,
      br_avg_tbt = 0, br_input_len = 1, br_output_len = 1\<rparr>"

text \<open>Two runs with first tokens after one and after three seconds.\<close>

lemma prefill_std_is_zero_witness:
  "\<exists>st. benchmark_with_stats 2 0 (\<lambda>i. Inr (sample_result (1 + 2 * of_int i) 1)) = Inr st
     \<and> sa_all (bs_prefill st) = [1, 3] \<and> sa_std (bs_prefill st) = 0"
proof -
  have "[0..(1::int)] = [0, 1]" by (simp add: upto.simps)
  then obtain st where st: "benchmark_with_stats 2 0 (\<lambda>i. Inr (sample_result (1 + 2 * of_int i) 1)) = Inr st"
      "sa_all (bs_prefill st) = [1, 3]"
    by (simp add: benchmark_with_stats_def completed_runs_def sample_result_def sample_stats_def Let_def)
  then show ?thesis using prefill_std_is_zero [OF st(1)] by blast
qed

lemma fold_min_le: "x \<in> insert b (set xs) \<Longrightarrow> fold min xs (b :: real) \<le> x"
  by (induction xs arbitrary: b x) (auto, (metis insertI1 min.cobounded1 min.cobounded2 order_trans)+)

lemma fold_max_ge: "x \<in> insert b (set xs) \<Longrightarrow> x \<le> fold max xs (b :: real)"
  by (induction xs arbitrary: b x) (auto, (metis insertI1 max.cobounded1 max.cobounded2 order_trans)+)

lemma list_min_le: "x \<in> set xs \<Longrightarrow> list_min xs \<le> x"
  using fold_min_le by (cases xs) (auto simp: list_min_def)

lemma list_max_ge: "x \<in> set xs \<Longrightarrow> x \<le> list_max xs"
  using fold_max_ge by (cases xs) (auto simp: list_max_def)

lemma sum_list_bounds:
  "(\<And>x. x \<in> set xs \<Longrightarrow> a \<le> x \<and> x \<le> (b :: real)) \<Longrightarrow> real (length xs) * a \<le> sum_list xs \<and> sum_list xs \<le> real (length xs) * b"
  by (induction xs) (auto simp: algebra_simps intro: add_mono)

lemma mean_bounds:
  assumes "xs \<noteq> []"
  shows "list_min xs \<le> mean xs \<and> mean xs \<le> list_max xs"
proof -
  have "0 < real (length xs)" using assms by simp
  moreover have "real (length xs) * list_min xs \<le> sum_list xs \<and> sum_list xs \<le> real (length xs) * list_max xs"
    by (rule sum_list_bounds) (simp add: list_min_le list_max_ge)
  ultimately show ?thesis by (simp add: mean_def field_simps)
qed
section \<open>Timing of a request\<close>

text \<open>The state after the chunks with text that arrived at \<open>arrivals\<close>.\<close>

definition saw_tokens :: "token_state \<Rightarrow> real list \<Rightarrow> bool" where
  "saw_tokens s arrivals \<longleftrightarrow>
     ts_first s = (if arrivals = [] then None else Some (hd arrivals)) \<and> ts_times s = tl arrivals \<and>
     ts_last s = (if arrivals = [] then None else Some (last arrivals))"

lemma saw_init: "saw_tokens init_tokens []"
  by (simp add: saw_tokens_def init_tokens_def)

lemma saw_note_token: "saw_tokens s arrivals \<Longrightarrow> saw_tokens (note_token now s) (arrivals @ [now])"
  by (cases arrivals) (auto simp: saw_tokens_def note_token_def)

lemma saw_usage: "saw_tokens (s\<lparr>ts_completion := c, ts_prompt := p\<rparr>) arrivals = saw_tokens s arrivals"
  by (simp add: saw_tokens_def)

lemma token_chunk_times:
  assumes "token_chunk now chunk s = Inr s'" and "saw_tokens s arrivals"
  shows "saw_tokens s' arrivals \<or> saw_tokens s' (arrivals @ [now])"
proof -
  obtain s2 where "s2 = s \<or> s2 = note_token now s" "s' = s2 \<or> (\<exists>c p. s' = s2\<lparr>ts_completion := c, ts_prompt := p\<rparr>)"
    using assms(1) by (auto simp: token_chunk_def res_simps split: if_splits)
  then show ?thesis using assms(2) saw_note_token [OF assms(2)] by (auto simp: saw_usage)
qed

lemma token_lines_Cons:
  assumes "token_lines ((line, now) # rest) s = Inr s'"
  shows "s' = s \<or> token_lines rest s = Inr s' \<or>
    (\<exists>chunk s1. token_chunk now chunk s = Inr s1 \<and> token_lines rest s1 = Inr s')"
proof (cases "py_startswith (py_strip line) ''data: '' \<and> drop 6 (py_strip line) \<noteq> ''[DONE]''")
  case True
  note a = assms [unfolded token_lines.simps Let_def if_not_P [OF conjunct2 [OF True]] not_not, simplified conjunct1 [OF True]]
  show ?thesis
  proof (cases "json_loads (drop 6 (py_strip line))")
    case (Inl e)
    then show ?thesis using a by (cases "e = json_error") simp_all
  next
    case (Inr chunk)
    then show ?thesis using a by (auto simp: rbind_eq_Inr)
  qed
next
  case False
  then show ?thesis using assms by (auto simp only: token_lines.simps Let_def sum.inject split: if_splits)
qed

lemma token_lines_times:
  "token_lines ls s = Inr s' \<Longrightarrow> saw_tokens s arrivals \<Longrightarrow>
   \<exists>new. subseq new (map snd ls) \<and> saw_tokens s' (arrivals @ new)"
proof (induction ls arbitrary: s arrivals)
  case Nil
  then show ?case by auto
next
  case (Cons x rest)
  obtain line now where x: "x = (line, now)" by (cases x)
  consider "s' = s" | "token_lines rest s = Inr s'"
    | chunk s1 where "token_chunk now chunk s = Inr s1" "token_lines rest s1 = Inr s'"
    using token_lines_Cons [of line now rest s s'] Cons.prems(1) x by blast
  then show ?case
  proof cases
    case 1
    then show ?thesis using Cons.prems(2) by (intro exI [of _ "[]"]) auto
  next
    case 2
    then show ?thesis using Cons.IH [OF 2 Cons.prems(2)] x by auto
  next
    case (3 chunk s1)
    obtain t where t: "t = [] \<or> t = [now]" "saw_tokens s1 (arrivals @ t)"
      using token_chunk_times [OF 3(1) Cons.prems(2)] by (metis append_Nil2)
    obtain new where "subseq new (map snd rest)" "saw_tokens s' ((arrivals @ t) @ new)"
      using Cons.IH [OF 3(2) t(2)] by blast
    then show ?thesis using t(1) x by (intro exI [of _ "t @ new"]) auto
  qed
qed

lemma subseq_mem: "subseq xs ys \<Longrightarrow> x \<in> set xs \<Longrightarrow> x \<in> set ys"
  by (induction rule: list_emb.induct) auto

lemma subseq_sorted: "subseq xs ys \<Longrightarrow> sorted ys \<Longrightarrow> sorted xs"
  by (induction rule: list_emb.induct) (auto dest: subseq_mem)

lemma gaps_nonneg: "sorted xs \<Longrightarrow> x \<in> set (gaps xs) \<Longrightarrow> 0 \<le> x"
  by (induction xs rule: gaps.induct) auto

lemma sum_gaps: "xs \<noteq> [] \<Longrightarrow> sum_list (gaps xs) = last xs - hd xs"
  by (induction xs rule: gaps.induct) auto

lemma saw_between:
  assumes "saw_tokens s arrivals" and "\<And>t. t \<in> set arrivals \<Longrightarrow> t \<noteq> 0"
  shows "time_between_tokens s = gaps (if length arrivals \<le> 2 then arrivals else tl arrivals)"
proof -
  consider "arrivals = []" | a where "arrivals = [a]" | a b where "arrivals = [a, b]" | a b c ds where "arrivals = a # b # c # ds"
    by (metis list.exhaust)
  then show ?thesis using assms by cases (simp_all add: saw_tokens_def time_between_tokens_def)
qed

text \<open>C39: the times reported for a request. If the clock does not go backwards, a successful request was
  measured on the arrival times of its text chunks, in order: the time to first token is that of the
  first, the decode time runs from the first to the last, both are non-negative and together at most
  the latency, and all reported gaps are non-negative. With one or two chunks the reported gaps are
  those between all chunks; with three or more the gap between the first and the second chunk is not
  among them, so that they add up to the decode time less that gap.
\<close>

theorem request_timing:
  assumes "send_single_request py_str rid start_time (Stream ls) end_time = r" and "rr_success r"
    and "0 < start_time" and "sorted (start_time # map snd ls @ [end_time])"
  shows "\<exists>arrivals. arrivals \<noteq> [] \<and> subseq arrivals (map snd ls) \<and> rr_ttft r = hd arrivals - start_time
    \<and> rr_decode_time r = last arrivals - hd arrivals
    \<and> 0 \<le> rr_ttft r \<and> 0 \<le> rr_decode_time r \<and> rr_ttft r + rr_decode_time r \<le> rr_latency r
    \<and> (\<forall>g \<in> set (rr_time_between_tokens r). 0 \<le> g)
    \<and> rr_time_between_tokens r = gaps (if length arrivals \<le> 2 then arrivals else tl arrivals)
    \<and> sum_list (rr_time_between_tokens r) =
        rr_decode_time r - (if length arrivals \<le> 2 then 0 else arrivals ! 1 - arrivals ! 0)"
proof -
  obtain s where s: "token_lines ls init_tokens = Inr s" "request_metrics rid start_time end_time s = Inr r"
    using assms(1,2) by (auto simp: send_single_request_def res_simps failed_request_def split: sum.splits)
  obtain arrivals where arrivals: "subseq arrivals (map snd ls)" "saw_tokens s arrivals"
    using token_lines_times [OF s(1) saw_init] by auto
  have ne: "arrivals \<noteq> []" using s(2) assms(2) arrivals(2)
    by (auto simp: request_metrics_def saw_tokens_def failed_request_def)
  have mem: "start_time \<le> t \<and> t \<le> end_time" if "t \<in> set arrivals" for t
    using subseq_mem [OF arrivals(1) that] assms(4) by (auto simp: sorted_append)
  have srt: "sorted arrivals" using assms(4) arrivals(1) by (auto simp: sorted_append intro: subseq_sorted)
  have nz: "t \<noteq> 0" if "t \<in> set arrivals" for t using mem [OF that] assms(3) by auto
  have r: "rr_ttft r = hd arrivals - start_time" "rr_decode_time r = last arrivals - hd arrivals"
      "rr_latency r = end_time - start_time" "rr_time_between_tokens r = time_between_tokens s"
    using s(2) arrivals(2) ne nz [of "last arrivals"]
    by (auto simp: request_metrics_def saw_tokens_def res_simps Let_def)
  have b: "rr_time_between_tokens r = gaps (if length arrivals \<le> 2 then arrivals else tl arrivals)"
    using r(4) saw_between [OF arrivals(2) nz] by simp
  have "hd arrivals \<le> last arrivals" using srt ne by (cases arrivals) auto
  moreover have "sorted (if length arrivals \<le> 2 then arrivals else tl arrivals)" using srt by (simp add: sorted_tl)
  then have "0 \<le> g" if "g \<in> set (rr_time_between_tokens r)" for g using gaps_nonneg that unfolding b by blast
  moreover have "sum_list (rr_time_between_tokens r) =
      rr_decode_time r - (if length arrivals \<le> 2 then 0 else arrivals ! 1 - arrivals ! 0)"
  proof (cases "length arrivals \<le> 2")
    case True
    then show ?thesis using sum_gaps [OF ne] by (simp add: b r(2))
  next
    case False
    then obtain x y zs where "arrivals = x # y # zs" by (metis (no_types) le0 length_Cons list.exhaust list.size(3) Suc_le_mono numeral_2_eq_2)
    then show ?thesis using False sum_gaps [of "y # zs"] by (simp add: b r(2))
  qed
  ultimately show ?thesis
    using ne arrivals(1) r(1-3) b mem [of "hd arrivals"] mem [of "last arrivals"] by (intro exI [of _ arrivals]) auto
qed
text \<open>Three chunks with one character each, at \<open>3\<close>, \<open>4\<close> and \<open>6\<close> seconds; the gap of one second is not reported.\<close>

definition sample_lines :: "(string \<times> real) list" where
  "sample_lines = map (\<lambda>t. (''data: '' @ json_dumps (\<lambda>_. []) '','' '':''
     (PDict [(''choices'', PList [PDict [(''text'', PStr ''a'')]])]), t)) [3, 4, 6]"

lemma sample_chunk_line:
  "py_strip (''data: '' @ json_dumps (\<lambda>_. []) '','' '':'' (PDict [(''choices'', PList [PDict [(''text'', PStr ''a'')]])])) =
     ''data: '' @ json_dumps (\<lambda>_. []) '','' '':'' (PDict [(''choices'', PList [PDict [(''text'', PStr ''a'')]])])"
  by (simp add: py_strip_def strip_by_def is_space_def)

lemma sample_chunk:
  assumes "l = json_dumps (\<lambda>_. []) '','' '':'' (PDict [(''choices'', PList [PDict [(''text'', PStr ''a'')]])])"
  shows "token_lines ((''data: '' @ l, now) # rest) s = token_lines rest (note_token now s)"
proof -
  have "json_loads l = Inr (PDict [(''choices'', PList [PDict [(''text'', PStr ''a'')]])])"
    unfolding assms
    using json_roundtrip [of "PDict [(''choices'', PList [PDict [(''text'', PStr ''a'')]])]" "[]" "[]" "\<lambda>_. []"]
    by (simp del: json_dumps.simps)
  moreover have "l \<noteq> ''[DONE]''" by (simp add: assms)
  moreover have "py_strip (''data: '' @ l) = ''data: '' @ l" unfolding assms by (rule sample_chunk_line)
  moreover have "drop 6 (''data: '' @ l) = l" by simp
  ultimately show ?thesis
    unfolding token_lines.simps Let_def
    by (simp add: token_chunk_def py_get_def dict_get_default_def py_truthy_def py_first_def del: append_Cons)
qed

theorem request_timing_witness:
  "\<exists>r. send_single_request (\<lambda>_. []) 7 1 (Stream sample_lines) 9 = r \<and> rr_success r
     \<and> rr_time_between_tokens r = [2] \<and> rr_ttft r + rr_decode_time r \<le> rr_latency r"
proof -
  let ?r = "send_single_request (\<lambda>_. []) 7 1 (Stream sample_lines) 9"
  have "token_lines sample_lines init_tokens = Inr (note_token 6 (note_token 4 (note_token 3 init_tokens)))"
    unfolding sample_lines_def list.map sample_chunk [OF refl] by simp
  then have r: "rr_success ?r" "rr_time_between_tokens ?r = [2]"
    by (simp_all add: send_single_request_def request_metrics_def note_token_def init_tokens_def py_or_def py_truthy_def
        as_number_def time_between_tokens_def Let_def)
  have "sorted (1 # map snd sample_lines @ [9])" by (simp add: sample_lines_def)
  from request_timing [OF refl r(1) _ this] have "rr_ttft ?r + rr_decode_time ?r \<le> rr_latency ?r" by auto
  then show ?thesis using r by blast
qed
section \<open>The batch\<close>

lemma length_partition: "length (filter P xs) + length (filter (\<lambda>x. \<not> P x) xs) = length xs"
  by (simp add: sum_length_filter_compl)

lemma positive_values_pos: "x \<in> set (positive_values f rs) \<Longrightarrow> 0 < x"
  by (simp add: positive_values_def)

lemma avg_or_zero_bounds: "list_min xs \<le> avg_or_zero xs \<and> avg_or_zero xs \<le> list_max xs"
  using mean_bounds [of xs] by (auto simp: avg_or_zero_def list_min_def list_max_def)

lemma mean_nonneg: "(\<And>x. x \<in> set xs \<Longrightarrow> 0 \<le> x) \<Longrightarrow> 0 \<le> mean xs"
  by (simp add: mean_def sum_list_nonneg)

text \<open>The report of a batch accounts for every request. Each of the requests is counted once, as
  successful or as failed, and is listed under its kind; the success rate lies between 0 and 1;
  latency and the times per token lie between their reported minimum and maximum; and no average of
  positive samples is negative.
\<close>

theorem batch_report_accounts:
  "let rep = bench_throughput py_str start_time end_time outcomes in
    tr_successful rep + tr_failed rep = tr_total rep \<and> tr_total rep = length outcomes
    \<and> mset (tr_ok_results rep) + mset (tr_failed_results rep) = mset (map (outcome_result py_str) outcomes)
    \<and> filter rr_success (tr_failed_results rep) = []
    \<and> 0 \<le> tr_success_rate rep \<and> tr_success_rate rep \<le> 1
    \<and> tr_min_latency rep \<le> tr_avg_latency rep \<and> tr_avg_latency rep \<le> tr_max_latency rep
    \<and> tr_min_time_per_completion_token rep \<le> tr_avg_time_per_completion_token rep
    \<and> tr_avg_time_per_completion_token rep \<le> tr_max_time_per_completion_token rep
    \<and> 0 \<le> tr_avg_ttft rep \<and> 0 \<le> tr_avg_decode_time rep"
proof -
  let ?rs = "map (outcome_result py_str) outcomes"
  define rep where "rep = bench_throughput py_str start_time end_time outcomes"
  have pos: "0 \<le> avg_or_zero (positive_values f rs)" for f rs
    using mean_nonneg [of "positive_values f rs"] positive_values_pos [of _ f rs] by (force simp: avg_or_zero_def)
  have "length (filter rr_success ?rs) \<le> length outcomes" by (metis length_filter_le length_map)
  then have rate: "0 \<le> tr_success_rate rep" "tr_success_rate rep \<le> 1"
    by (simp_all add: rep_def bench_throughput_def Let_def)
  have parts: "tr_successful rep + tr_failed rep = tr_total rep" "tr_total rep = length outcomes"
      "mset (tr_ok_results rep) + mset (tr_failed_results rep) = mset ?rs"
      "filter rr_success (tr_failed_results rep) = []"
    using length_partition [of rr_success ?rs]
    by (simp_all add: rep_def bench_throughput_def Let_def mset_filter multiset_partition [symmetric] del: mset_map)
  have bounds: "tr_min_latency rep \<le> tr_avg_latency rep" "tr_avg_latency rep \<le> tr_max_latency rep"
      "tr_min_time_per_completion_token rep \<le> tr_avg_time_per_completion_token rep"
      "tr_avg_time_per_completion_token rep \<le> tr_max_time_per_completion_token rep"
      "0 \<le> tr_avg_ttft rep" "0 \<le> tr_avg_decode_time rep"
    by (simp_all add: rep_def bench_throughput_def Let_def avg_or_zero_bounds pos)
  show ?thesis unfolding Let_def rep_def [symmetric] using rate parts bounds by blast
qed

section \<open>Waiting for the server\<close>

text \<open>The waits end once the clock passes the deadline; a server that answers in time is never missed.\<close>

lemma wait_for_server_returns: "\<exists>(now, status) \<in> set rounds. deadline \<le> now \<Longrightarrow> wait_for_server deadline rounds \<noteq> None"
  by (induction deadline rounds rule: wait_for_server.induct) auto

lemma wait_for_server_ready:
  "\<forall>(now, status) \<in> set rounds. now < deadline \<Longrightarrow> (now, Some 200) \<in> set rounds \<Longrightarrow> wait_for_server deadline rounds = Some (Inr ())"
  by (induction deadline rounds rule: wait_for_server.induct) auto

lemma wait_exit_returns: "\<exists>(now, alive) \<in> set polls. deadline \<le> now \<Longrightarrow> wait_exit deadline polls \<noteq> None"
  by (induction deadline polls rule: wait_exit.induct) auto

text \<open>\<open>SIGKILL\<close> is never the first signal, and a process that exits in time does not receive it.\<close>

lemma stop_vllm_signals:
  "stop_vllm pid timeout now alive delivered polls alive_after = Some sigs \<Longrightarrow>
   sigs \<in> {[], [SIGTERM], [SIGTERM, SIGKILL]} \<and> (SIGKILL \<in> set sigs \<longrightarrow> alive_after)"
  by (auto simp: stop_vllm_def Let_def split: if_splits)

end
