(* ===== verification/Real_Runs.thy ===== *)
theory Real_Runs
  imports Real_Spinup Load_Gen
begin

text \<open>
  Running workloads against real servers, \<open>contrib/benchmark/cli\<close> (and its copy \<open>simulator/real\<close>):
  \<open>run_recovery.py\<close> sends a prepared list of requests with retries and counts tokens, statuses and
  failures while nodes come and go; \<open>run_workloads.py\<close> measures each request.

  Random draws, the tokenizer and the answers of the servers are arguments. Requests run as tasks of
  one event loop, which may switch between two accesses to the network; so the counters are changed by
  an interleaving of the updates of the tasks. Pauses and logging are left out.
\<close>

section \<open>Recovery: configuration\<close>

record recovery_workload =
  rw_model :: string
  rw_arrival_rate :: pyfloat
  rw_duration :: pyfloat
  rw_input_dist :: dist
  rw_output_dist :: dist
  rw_arrival_process :: string

definition recovery_distribution :: "string \<Rightarrow> dist res" where
  "recovery_distribution s =
     (case match_call s of
        None \<Rightarrow> rbind (py_float_str s) (\<lambda>x. Inr (''Constant'', [x]))
      | Some _ \<Rightarrow> parse_distribution s)"

definition recovery_rate :: "dist \<Rightarrow> pyfloat res" where
  "recovery_rate d = (case d of (name, params) \<Rightarrow> if name = ''Poisson'' \<or> name = ''Constant'' then py_nth params 0 else Inr 1)"

definition load_recovery_workload :: "(pyval \<Rightarrow> string) \<Rightarrow> pyval \<Rightarrow> recovery_workload res" where
  "load_recovery_workload other w =
     rbind (rbind (rbind (py_item w ''arrival_rate'') as_str) recovery_distribution) (\<lambda>arr.
     rbind (recovery_rate arr) (\<lambda>rate.
     rbind (rbind (py_item w ''input'') (\<lambda>v. recovery_distribution (py_str_val other v))) (\<lambda>input_dist.
     rbind (rbind (py_item w ''output'') (\<lambda>v. recovery_distribution (py_str_val other v))) (\<lambda>output_dist.
     rbind (rbind (py_item w ''model'') as_str) (\<lambda>model.
     rbind (rbind (py_item w ''duration'') py_float_val) (\<lambda>duration.
       Inr \<lparr>rw_model = model, rw_arrival_rate = rate, rw_duration = duration, rw_input_dist = input_dist,
            rw_output_dist = output_dist, rw_arrival_process = fst arr\<rparr>))))))"

definition load_recovery :: "(pyval \<Rightarrow> string) \<Rightarrow> pyval \<Rightarrow> recovery_workload list res" where
  "load_recovery other config =
     rbind (rbind (py_get config ''workload'' (PList [])) py_list_val) (map_res (load_recovery_workload other))"

definition recovery_process :: "recovery_workload \<Rightarrow> arrival_process res" where
  "recovery_process w =
     (if rw_arrival_process w = ''Deterministic'' then Inr (Deterministic (rw_arrival_rate w))
      else rbind (new_poisson (rw_arrival_rate w)) (\<lambda>g. Inr (Gamma g)))"

section \<open>Recovery: requests\<close>

text \<open>
  \<open>_sample_distribution\<close>: \<open>rnd\<close> returns the array that numpy draws for the named distribution.
\<close>

definition sample_array :: "(string \<Rightarrow> pyfloat list \<Rightarrow> nat \<Rightarrow> pyfloat list) \<Rightarrow> dist \<Rightarrow> nat \<Rightarrow> int list res" where
  "sample_array rnd d n =
     (case d of (name, params) \<Rightarrow>
        rbind (py_nth params 0) (\<lambda>a.
        rbind (if name = ''Normal'' then rbind (py_nth params 1) (\<lambda>b. Inr (rnd name [a, b] n))
               else if name = ''Poisson'' then Inr (rnd name [a] n)
               else Inr (replicate n a)) (\<lambda>vals.
          Inr (map (\<lambda>v. max 1 (py_int v)) vals))))"

text \<open>A tokenizer encodes a text and decodes a list of tokens; without one, words are repeated.\<close>

record tokenizer =
  tk_encode :: "string \<Rightarrow> int list"
  tk_decode :: "int list \<Rightarrow> string"

definition base_tokens :: "tokenizer \<Rightarrow> int \<Rightarrow> int list" where
  "base_tokens tk max_len =
     (let text = concat (replicate (nat (max_len * 2)) ''word ''); toks = tk_encode tk text
      in if int (length toks) < max_len then tk_encode tk (text @ text) else toks)"

definition make_prompt :: "tokenizer option \<Rightarrow> int \<Rightarrow> int \<Rightarrow> string" where
  "make_prompt tk max_len len =
     (case tk of
        Some t \<Rightarrow> tk_decode t (py_take (base_tokens t max_len) len)
      | None \<Rightarrow> join_with '' '' (replicate (nat len) ''word''))"

type_synonym prepared = "pyfloat \<times> recovery_workload \<times> string \<times> int"

text \<open>The requests of one workload are built in chunks of 10,000.\<close>

function prepare_chunks ::
  "(int \<Rightarrow> string) \<Rightarrow> recovery_workload \<Rightarrow> nat \<Rightarrow> pyfloat list \<Rightarrow> int list \<Rightarrow> int list \<Rightarrow> prepared list" where
  "prepare_chunks prompt w k arrs ins outs =
     (if arrs = [] \<or> k = 0 then []
      else map (\<lambda>(t, p, out). (t, w, p, out)) (zip (take k arrs) (zip (map prompt (take k ins)) (take k outs)))
           @ prepare_chunks prompt w k (drop k arrs) (drop k ins) (drop k outs))"
  by pat_completeness auto
termination
  by (relation "measure (\<lambda>(_, _, _, arrs, _, _). length arrs)") auto

declare prepare_chunks.simps [simp del]

definition prepare_workload ::
  "gamma_draw \<Rightarrow> int \<Rightarrow> (string \<Rightarrow> pyfloat list \<Rightarrow> nat \<Rightarrow> pyfloat list) \<Rightarrow> (string \<Rightarrow> tokenizer option) \<Rightarrow> pyfloat option \<Rightarrow>
     recovery_workload \<Rightarrow> prepared list res option" where
  "prepare_workload draw seed rnd tokenizers override w =
     (case recovery_process w of
        Inl e \<Rightarrow> Some (Inl e)
      | Inr process \<Rightarrow>
          map_option (\<lambda>arrivals. rbind arrivals (\<lambda>arrs.
              if arrs = [] then Inr []
              else
                rbind (sample_array rnd (rw_input_dist w) (length arrs)) (\<lambda>ins0.
                rbind (sample_array rnd (rw_output_dist w) (length arrs)) (\<lambda>outs.
                  let ins = map (max 5) ins0
                  in Inr (prepare_chunks (make_prompt (tokenizers (rw_model w)) (Max (set ins))) w 10000 arrs ins outs)))))
            (generate_arrivals draw process 0
               (case override of Some d \<Rightarrow> if d = 0 then rw_duration w else d | None \<Rightarrow> rw_duration w) seed))"

text \<open>All workloads, sorted by time; \<open>None\<close> when an arrival loop does not return.\<close>

fun prepare_all ::
  "(recovery_workload \<Rightarrow> prepared list res option) \<Rightarrow> recovery_workload list \<Rightarrow> prepared list res option" where
  "prepare_all prep [] = Some (Inr [])"
| "prepare_all prep (w # ws) =
     (case prep w of
        None \<Rightarrow> None
      | Some (Inl e) \<Rightarrow> Some (Inl e)
      | Some (Inr reqs) \<Rightarrow> map_option (\<lambda>r. rbind r (\<lambda>rest. Inr (reqs @ rest))) (prepare_all prep ws))"

definition prepare_workloads ::
  "(recovery_workload \<Rightarrow> prepared list res option) \<Rightarrow> recovery_workload list \<Rightarrow> prepared list res option" where
  "prepare_workloads prep ws = map_option (\<lambda>r. rbind r (\<lambda>reqs. Inr (sort_key fst reqs))) (prepare_all prep ws)"

section \<open>Recovery: sending\<close>

text \<open>The counters, and the changes that the tasks make to them.\<close>

record recovery_counts =
  rc_completed :: nat
  rc_tokens :: nat
  rc_2xx :: nat
  rc_4xx :: nat
  rc_5xx :: nat
  rc_persistent :: nat

datatype rc_update = Seen2xx | Seen4xx | Seen5xx | Token | Completed | Persistent

fun apply_update :: "rc_update \<Rightarrow> recovery_counts \<Rightarrow> recovery_counts" where
  "apply_update Seen2xx c = c\<lparr>rc_2xx := rc_2xx c + 1\<rparr>"
| "apply_update Seen4xx c = c\<lparr>rc_4xx := rc_4xx c + 1\<rparr>"
| "apply_update Seen5xx c = c\<lparr>rc_5xx := rc_5xx c + 1\<rparr>"
| "apply_update Token c = c\<lparr>rc_tokens := rc_tokens c + 1\<rparr>"
| "apply_update Completed c = c\<lparr>rc_completed := rc_completed c + 1\<rparr>"
| "apply_update Persistent c = c\<lparr>rc_persistent := rc_persistent c + 1\<rparr>"

definition no_counts :: recovery_counts where
  "no_counts = \<lparr>rc_completed = 0, rc_tokens = 0, rc_2xx = 0, rc_4xx = 0, rc_5xx = 0, rc_persistent = 0\<rparr>"

text \<open>
  What an attempt meets: no answer, or a status and a body that may break off. \<open>stream_updates\<close> are the
  tokens of a body and whether it was read without an exception.
\<close>

datatype attempt = NoReply | Reply int "string list" bool

definition status_updates :: "int \<Rightarrow> rc_update list" where
  "status_updates status =
     (if 200 \<le> status \<and> status < 300 then [Seen2xx]
      else if 400 \<le> status \<and> status < 500 then [Seen4xx]
      else if 500 \<le> status \<and> status < 600 then [Seen5xx] else [])"

definition chunk_updates :: "pyval \<Rightarrow> rc_update list res" where
  "chunk_updates chunk =
     rbind (py_get chunk ''choices'' (PList [])) (\<lambda>choices.
       if py_truthy choices then
         rbind (py_first choices) (\<lambda>delta.
         rbind (py_get delta ''text'' (PStr [])) (\<lambda>piece. Inr (if py_truthy piece then [Token] else [])))
       else Inr [])"

fun stream_updates :: "string list \<Rightarrow> bool \<Rightarrow> rc_update list \<times> bool" where
  "stream_updates [] broken = ([], \<not> broken)"
| "stream_updates (line # rest) broken =
     (let l = py_strip line in
      if line = [] \<or> \<not> py_startswith l ''data: '' then stream_updates rest broken
      else if drop 6 l = ''[DONE]'' then ([], True)
      else
        (case json_loads (drop 6 l) of
           Inl e \<Rightarrow> if e = json_error then stream_updates rest broken else ([], False)
         | Inr chunk \<Rightarrow>
             (case chunk_updates chunk of
                Inl e \<Rightarrow> ([], False)
              | Inr us \<Rightarrow> (case stream_updates rest broken of (vs, ok) \<Rightarrow> (us @ vs, ok)))))"

definition attempt_updates :: "attempt \<Rightarrow> rc_update list \<times> bool" where
  "attempt_updates a =
     (case a of
        NoReply \<Rightarrow> ([], False)
      | Reply status lines broken \<Rightarrow>
          if status \<noteq> 200 then (status_updates status, False)
          else (case stream_updates lines broken of (us, ok) \<Rightarrow> (status_updates status @ us, ok)))"

text \<open>\<open>for attempt in range(max_retries + 1)\<close>: a failure is counted in the last attempt only.\<close>

fun attempts_from :: "(nat \<Rightarrow> attempt) \<Rightarrow> nat list \<Rightarrow> rc_update list" where
  "attempts_from reply [] = []"
| "attempts_from reply (a # as) =
     (case attempt_updates (reply a) of (us, ok) \<Rightarrow>
        us @ (if ok then [Completed] else if a < 3 then attempts_from reply as else [Persistent]))"

definition handle_request :: "(nat \<Rightarrow> attempt) \<Rightarrow> rc_update list" where
  "handle_request reply = attempts_from reply [0 ..< 4]"

text \<open>The updates of all tasks in some order that keeps the order of each.\<close>

inductive woven :: "'a list list \<Rightarrow> 'a list \<Rightarrow> bool" where
  woven_done: "\<forall>t \<in> set ts. t = [] \<Longrightarrow> woven ts []"
| woven_step: "i < length ts \<Longrightarrow> ts ! i = u # us \<Longrightarrow> woven (ts[i := us]) vs \<Longrightarrow> woven ts (u # vs)"

inductive_cases woven_ConsE: "woven ts (u # vs)"

definition recovery_run :: "(nat \<Rightarrow> attempt) list \<Rightarrow> rc_update list \<Rightarrow> recovery_counts \<Rightarrow> bool" where
  "recovery_run requests us c \<longleftrightarrow> woven (map handle_request requests) us \<and> c = fold apply_update us no_counts"

text \<open>\<open>_monitor_throughput\<close>: one metric per sample of the clock and the counters.\<close>

record rec_metric =
  rm_timestamp :: real
  rm_instances :: nat
  rm_throughput :: real
  rm_status_codes :: "nat \<times> nat \<times> nat"
  rm_persistent_errors :: nat

fun monitor_throughput :: "real \<Rightarrow> nat \<Rightarrow> (real \<times> nat \<times> recovery_counts) list \<Rightarrow> rec_metric list" where
  "monitor_throughput last_time last_tokens [] = []"
| "monitor_throughput last_time last_tokens ((now, instances, c) # samples) =
     \<lparr>rm_timestamp = now, rm_instances = instances,
      rm_throughput = (if now - last_time > 0 then (of_nat (rc_tokens c) - of_nat last_tokens) / (now - last_time) else 0),
      rm_status_codes = (rc_2xx c, rc_4xx c, rc_5xx c), rm_persistent_errors = rc_persistent c\<rparr>
     # monitor_throughput now (rc_tokens c) samples"

text \<open>\<open>_monitor_instances\<close>: nodes with a connected service named \<open>llm\<close>; an exception keeps the old number.\<close>

definition online_node :: "pyval \<Rightarrow> bool res" where
  "online_node node_data =
     rbind (rbind (rbind (py_get node_data ''service'' (PList [])) py_list_val)
             (find_res (\<lambda>s. rbind (py_get s ''name'' PNone) (\<lambda>n. Inr (n = PStr ''llm''))))) (\<lambda>s.
       case s of
         None \<Rightarrow> Inr False
       | Some svc \<Rightarrow>
           if py_truthy svc then rbind (py_get svc ''status'' PNone) (\<lambda>st. Inr (st = PStr ''connected'')) else Inr False)"

definition monitor_instances :: "table_reply \<Rightarrow> nat \<Rightarrow> nat" where
  "monitor_instances reply current =
     (case reply of
        Table data \<Rightarrow>
          (case rbind (py_items data) (\<lambda>items. map_res (\<lambda>kv. online_node (snd kv)) items) of
             Inr flags \<Rightarrow> length (filter id flags)
           | Inl _ \<Rightarrow> current)
      | _ \<Rightarrow> current)"

section \<open>Measured workloads\<close>

text \<open>
  \<open>run_workloads.py\<close>: lengths are sampled, every request is sent by \<open>send_single_request\<close>, and the
  results are summarised. An exchange is the times before and after a request and the answer. A sample
  takes the next random draw.
\<close>

definition workload_sample :: "samplers \<Rightarrow> nat \<Rightarrow> dist \<Rightarrow> int \<Rightarrow> int res" where
  "workload_sample smp k d min_val =
     (case d of (name, params) \<Rightarrow>
        rbind (if name = ''Normal'' then
                 rbind (py_nth params 0) (\<lambda>a. rbind (py_nth params 1) (\<lambda>b. smp_normal smp k a b))
               else if name = ''Uniform'' then
                 rbind (py_nth params 0) (\<lambda>a. rbind (py_nth params 1) (\<lambda>b. smp_uniform smp k a b))
               else if name = ''Constant'' then py_nth params 0
               else Inr 100) (\<lambda>val. Inr (max min_val (py_int val))))"

definition workload_lengths :: "samplers \<Rightarrow> workload_config \<Rightarrow> nat \<Rightarrow> (int \<times> int) list res" where
  "workload_lengths smp wl n =
     map_res (\<lambda>i. rbind (workload_sample smp (2 * i) (wl_input_dist wl) 1) (\<lambda>inp.
                  rbind (workload_sample smp (2 * i + 1) (wl_output_dist wl) 5) (\<lambda>out. Inr (inp, out)))) [0 ..< n]"

type_synonym exchange = "real \<times> reply \<times> real"

definition run_single_workload ::
  "gamma_draw \<Rightarrow> int \<Rightarrow> samplers \<Rightarrow> (py_exn \<Rightarrow> string) \<Rightarrow> (nat \<Rightarrow> string \<Rightarrow> int \<Rightarrow> exchange) \<Rightarrow> workload_config \<Rightarrow>
     req_result list res option" where
  "run_single_workload draw seed smp py_str exch wl =
     map_option (\<lambda>arrivals. rbind arrivals (\<lambda>arrs.
         rbind (workload_lengths smp wl (length arrs)) (\<lambda>lens.
           Inr (map (\<lambda>(i, inp, out).
                  case exch i (build_token_like_prompt inp) out of (t0, rep, t1) \<Rightarrow>
                    send_single_request py_str (int i) t0 rep t1) (enumerate 0 lens)))))
       (generate_arrivals draw (wl_arrival_process wl) 0 (wl_duration wl) seed)"

record global_info =
  gi_throughput_rps :: real
  gi_average_latency :: real
  gi_average_ttft :: real
  gi_average_tbt :: real
  gi_model :: string
  gi_total_requests :: nat
  gi_successful_requests :: nat

definition mean_of :: "(req_result \<Rightarrow> real) \<Rightarrow> req_result list \<Rightarrow> real" where
  "mean_of f rs = (if rs = [] then 0 else sum_list (map f rs) / of_nat (length rs))"

definition workload_summary :: "string \<Rightarrow> real \<Rightarrow> req_result list \<Rightarrow> global_info" where
  "workload_summary model duration results =
     (let successful = filter rr_success results in
      \<lparr>gi_throughput_rps = (if duration > 0 then of_nat (length successful) / duration else 0),
       gi_average_latency = mean_of rr_latency successful, gi_average_ttft = mean_of rr_ttft successful,
       gi_average_tbt = mean_of rr_avg_time_between_tokens successful, gi_model = model,
       gi_total_requests = length results, gi_successful_requests = length successful\<rparr>)"

record request_stat =
  st_input_length :: pyval
  st_output_length :: pyval
  st_e2e_latency :: real
  st_ttft :: real
  st_avg_time_between_tokens :: real
  st_success :: bool
  st_error :: "string option"

definition stat_of :: "req_result \<Rightarrow> request_stat" where
  "stat_of r =
     \<lparr>st_input_length = rr_prompt_tokens r, st_output_length = rr_completion_tokens r, st_e2e_latency = rr_latency r,
      st_ttft = rr_ttft r, st_avg_time_between_tokens = rr_avg_time_between_tokens r, st_success = rr_success r,
      st_error = rr_error r\<rparr>"

text \<open>The lines appended for one workload: nothing when there is no result or something raised.\<close>

definition workload_lines ::
  "string \<Rightarrow> real \<Rightarrow> req_result list res \<Rightarrow> (global_info \<times> request_stat list) option" where
  "workload_lines model duration results =
     (case results of
        Inl _ \<Rightarrow> None
      | Inr [] \<Rightarrow> None
      | Inr rs \<Rightarrow> Some (workload_summary model duration rs, map stat_of rs))"

section \<open>Chunks\<close>

lemma prepare_chunks_whole:
  assumes "0 < k" "length ins = length arrs" "length outs = length arrs"
  shows "prepare_chunks prompt w k arrs ins outs =
    map (\<lambda>(t, p, out). (t, w, p, out)) (zip arrs (zip (map prompt ins) outs))"
  using assms(2,3)
proof (induction "length arrs" arbitrary: arrs ins outs rule: less_induct)
  case less
  show ?case
  proof (cases "arrs = []")
    case True
    then show ?thesis by (simp add: prepare_chunks.simps)
  next
    case False
    let ?f = "\<lambda>(t, p, out). (t, w, p, out)" and ?z = "zip arrs (zip (map prompt ins) outs)"
    have "prepare_chunks prompt w k (drop k arrs) (drop k ins) (drop k outs) = map ?f (drop k ?z)"
      using less(1) [of "drop k arrs" "drop k ins" "drop k outs"] False assms(1) less(2,3) by (simp add: drop_zip drop_map)
    moreover have "zip (take k arrs) (zip (map prompt (take k ins)) (take k outs)) = take k ?z"
      by (simp add: take_zip take_map)
    ultimately have "prepare_chunks prompt w k arrs ins outs = map ?f (take k ?z) @ map ?f (drop k ?z)"
      using False assms(1) by (subst prepare_chunks.simps) simp
    then show ?thesis by (simp flip: map_append)
  qed
qed

section \<open>Every request is settled once\<close>

lemma fold_updates:
  "rc_completed (fold apply_update us c) = rc_completed c + count_list us Completed"
  "rc_persistent (fold apply_update us c) = rc_persistent c + count_list us Persistent"
  "rc_2xx (fold apply_update us c) = rc_2xx c + count_list us Seen2xx"
  "rc_4xx (fold apply_update us c) = rc_4xx c + count_list us Seen4xx"
  "rc_5xx (fold apply_update us c) = rc_5xx c + count_list us Seen5xx"
  "rc_tokens (fold apply_update us c) = rc_tokens c + count_list us Token"
proof (induction us arbitrary: c)
  case (Cons u us)
  { case 1 show ?case using Cons(1) by (cases u) simp_all next
    case 2 show ?case using Cons(2) by (cases u) simp_all next
    case 3 show ?case using Cons(3) by (cases u) simp_all next
    case 4 show ?case using Cons(4) by (cases u) simp_all next
    case 5 show ?case using Cons(5) by (cases u) simp_all next
    case 6 show ?case using Cons(6) by (cases u) simp_all }
qed simp_all

abbreviation statuses :: "rc_update list \<Rightarrow> nat" where
  "statuses us \<equiv> count_list us Seen2xx + count_list us Seen4xx + count_list us Seen5xx"

lemma stream_only_tokens: "set (fst (stream_updates lines broken)) \<subseteq> {Token}"
proof (induction lines)
  case (Cons line rest)
  have chunk: "set us \<subseteq> {Token}" if "chunk_updates c = Inr us" for c us
    using that by (auto simp: chunk_updates_def res_simps split: if_splits)
  show ?case
  proof (cases "json_loads (drop 6 (py_strip line))")
    case (Inl e)
    then show ?thesis using Cons by (simp add: Let_def)
  next
    case (Inr c)
    show ?thesis
    proof (cases "chunk_updates c")
      case (Inr us)
      then show ?thesis using Cons chunk [OF Inr] \<open>json_loads _ = Inr c\<close> by (simp add: Let_def case_prod_unfold)
    qed (use Cons \<open>json_loads _ = Inr c\<close> in \<open>simp add: Let_def\<close>)
  qed
qed simp

lemma attempt_updates_facts:
  assumes "attempt_updates a = (us, ok)"
  shows "Completed \<notin> set us \<and> Persistent \<notin> set us \<and> (ok \<longrightarrow> Seen2xx \<in> set us) \<and> statuses us \<le> 1"
proof (cases a)
  case (Reply status lines broken)
  obtain vs ok' where vs: "stream_updates lines broken = (vs, ok')" by (cases "stream_updates lines broken")
  have "set vs \<subseteq> {Token}" using stream_only_tokens [of lines broken] vs by simp
  then have "Completed \<notin> set vs" "Persistent \<notin> set vs" "Seen2xx \<notin> set vs" "Seen4xx \<notin> set vs" "Seen5xx \<notin> set vs" by auto
  then show ?thesis using assms by (auto simp: Reply attempt_updates_def vs status_updates_def split: if_splits)
qed (use assms in \<open>simp add: attempt_updates_def\<close>)

text \<open>A task: updates that settle nothing, and then one that does.\<close>

definition settles :: "rc_update list \<Rightarrow> nat \<Rightarrow> bool" where
  "settles us n \<longleftrightarrow> (\<exists>vs x. us = vs @ [x] \<and> x \<in> {Completed, Persistent} \<and> Completed \<notin> set vs \<and> Persistent \<notin> set vs
     \<and> (x = Completed \<longrightarrow> Seen2xx \<in> set vs) \<and> statuses vs \<le> n)"

lemma settles_append:
  assumes "settles vs n" "Completed \<notin> set us" "Persistent \<notin> set us" "statuses us \<le> 1"
  shows "settles (us @ vs) (Suc n)"
proof -
  obtain ws x where vs: "vs = ws @ [x]" "x \<in> {Completed, Persistent}" "Completed \<notin> set ws" "Persistent \<notin> set ws"
      "x = Completed \<longrightarrow> Seen2xx \<in> set ws" "statuses ws \<le> n"
    using assms(1) unfolding settles_def by blast
  show ?thesis unfolding settles_def
    by (rule exI [of _ "us @ ws"], rule exI [of _ x]) (use vs assms(2-4) in auto)
qed

lemma attempts_settle: "a \<le> 3 \<Longrightarrow> settles (attempts_from reply [a ..< 4]) (4 - a)"
proof (induction "3 - a" arbitrary: a)
  case (0 a)
  then have a: "[a ..< 4] = [3]" "a = 3" by (simp_all add: upt_conv_Cons)
  obtain us ok where u: "attempt_updates (reply 3) = (us, ok)" by (cases "attempt_updates (reply 3)")
  show ?case using attempt_updates_facts [OF u] unfolding a settles_def
    by (intro exI [of _ us] exI [of _ "if ok then Completed else Persistent"]) (simp add: u)
next
  case (Suc d a)
  then have a: "a < 3" "[a ..< 4] = a # [Suc a ..< 4]" by (simp_all add: upt_conv_Cons)
  obtain us ok where u: "attempt_updates (reply a) = (us, ok)" by (cases "attempt_updates (reply a)")
  note f = attempt_updates_facts [OF u]
  show ?case
  proof (cases ok)
    case True
    have "statuses us \<le> 4 - a" using f a(1) by linarith
    then show ?thesis using f a True unfolding settles_def
      by (intro exI [of _ us] exI [of _ Completed]) (simp add: u)
  next
    case False
    have "settles (attempts_from reply [Suc a ..< 4]) (4 - Suc a)" by (rule Suc.hyps(1)) (use Suc.hyps(2) a(1) in simp_all)
    then have "settles (us @ attempts_from reply [Suc a ..< 4]) (Suc (4 - Suc a))"
      using settles_append f by blast
    moreover have "Suc (4 - Suc a) = 4 - a" using a(1) by simp
    ultimately show ?thesis using False a by (simp add: u)
  qed
qed

lemma handle_request_settles: "settles (handle_request reply) 4"
  using attempts_settle [of 0 reply] by (simp add: handle_request_def)

text \<open>What has happened at some moment of a run: a prefix of the updates of every task.\<close>

lemma count_concat_update:
  assumes "i < length ts"
  shows "count_list (concat (ts[i := us])) x + count_list (ts ! i) x = count_list (concat ts) x + count_list us x"
proof -
  have "concat ts = concat (take i ts) @ ts ! i @ concat (drop (Suc i) ts)"
    by (metis assms concat.simps(2) concat_append id_take_nth_drop)
  moreover have "concat (ts[i := us]) = concat (take i ts) @ us @ concat (drop (Suc i) ts)"
    using assms by (simp add: upd_conv_take_nth_drop)
  ultimately show ?thesis by simp
qed

lemma woven_prefixes:
  "woven ts (us @ vs) \<Longrightarrow>
     \<exists>ps. list_all2 prefix ps ts \<and> (\<forall>x. count_list us x = count_list (concat ps) x) \<and> (vs = [] \<longrightarrow> ps = ts)"
proof (induction us arbitrary: ts)
  case Nil
  have "ts = replicate (length ts) []" if "vs = []"
    using Nil that by (auto elim: woven.cases intro!: replicate_eqI)
  then show ?case by (intro exI [of _ "replicate (length ts) []"]) (auto simp: list_all2_conv_all_nth)
next
  case (Cons u us)
  obtain i us' where i: "i < length ts" "ts ! i = u # us'" "woven (ts[i := us']) (us @ vs)"
    using woven_ConsE [OF Cons.prems [unfolded append_Cons]] by metis
  obtain ps where ps: "list_all2 prefix ps (ts[i := us'])" "\<forall>x. count_list us x = count_list (concat ps) x"
      "vs = [] \<longrightarrow> ps = ts[i := us']"
    using Cons.IH [OF i(3)] by blast
  have len: "length ps = length ts" using list_all2_lengthD [OF ps(1)] by simp
  let ?qs = "ps[i := u # ps ! i]"
  have "prefix (ps ! i) us'" using list_all2_nthD [OF ps(1), of i] i(1) len by simp
  then have "list_all2 prefix ?qs (ts[i := us', i := u # us'])"
    using ps(1) by (intro list_all2_update_cong) simp_all
  then have "list_all2 prefix ?qs ts" using i(1,2) by (metis list_update_id list_update_overwrite)
  moreover have "count_list (u # us) x = count_list (concat ?qs) x" for x
    using count_concat_update [of i ps "u # ps ! i" x] ps(2) i(1) len by (cases "u = x") simp_all
  moreover have "?qs = ts" if "vs = []"
    using that ps(3) i(1,2) by (metis list_update_id list_update_overwrite nth_list_update_eq)
  ultimately show ?case by blast
qed

lemma prefix_of_settled:
  assumes "settles us n" "prefix p us"
  shows "count_list p Completed + count_list p Persistent \<le> 1 \<and> count_list p Completed \<le> count_list p Seen2xx
    \<and> statuses p \<le> n"
proof -
  obtain vs x where us: "us = vs @ [x]" "x \<in> {Completed, Persistent}" "Completed \<notin> set vs" "Persistent \<notin> set vs"
      "x = Completed \<longrightarrow> Seen2xx \<in> set vs" "statuses vs \<le> n"
    using assms(1) unfolding settles_def by blast
  consider "p = us" | "prefix p vs" using assms(2) us(1) by (auto simp: prefix_snoc)
  then show ?thesis
  proof cases
    case 1
    have "x = Completed \<Longrightarrow> 1 \<le> count_list vs Seen2xx" using us(5) by (metis count_list_0_iff less_one not_le)
    then show ?thesis using 1 us by auto
  next
    case 2
    then obtain q where vs: "vs = p @ q" by (auto simp: prefix_def)
    then have "Completed \<notin> set p" "Persistent \<notin> set p" using us(3,4) by simp_all
    then show ?thesis using us(6) vs by simp
  qed
qed

lemma settled_count: "settles us n \<Longrightarrow> count_list us Completed + count_list us Persistent = 1"
  by (auto simp: settles_def)

lemma concat_prefixes:
  assumes "list_all2 prefix ps (map handle_request requests)"
  shows "count_list (concat ps) Completed + count_list (concat ps) Persistent \<le> length requests
    \<and> count_list (concat ps) Completed \<le> count_list (concat ps) Seen2xx \<and> statuses (concat ps) \<le> 4 * length requests"
  using assms
proof (induction requests arbitrary: ps)
  case (Cons r rs)
  then obtain p ps' where ps: "ps = p # ps'" "prefix p (handle_request r)" "list_all2 prefix ps' (map handle_request rs)"
    by (auto simp: list_all2_Cons2)
  show ?case using Cons.IH [OF ps(3)] prefix_of_settled [OF handle_request_settles ps(2)] by (simp add: ps(1))
qed simp

lemma concat_settled:
  "count_list (concat (map handle_request requests)) Completed + count_list (concat (map handle_request requests)) Persistent
     = length requests"
proof (induction requests)
  case (Cons r rs)
  then show ?case using settled_count [OF handle_request_settles [of r]] by simp
qed simp

text \<open>C27: under every interleaving of the request tasks, every request of a recovery run is settled exactly once. At
  any moment at most as many requests are completed or given up as were sent, every completion has an
  answer with a status of 200 to 299 behind it, and the answers counted are at most four per request, the number of
  attempts; when all tasks have ended, completed and failed requests together are the requests sent.\<close>

theorem recovery_settles:
  assumes "woven (map handle_request requests) (us @ vs)" and "c = fold apply_update us no_counts"
  shows "rc_completed c + rc_persistent c \<le> length requests \<and> rc_completed c \<le> rc_2xx c
    \<and> rc_2xx c + rc_4xx c + rc_5xx c \<le> 4 * length requests
    \<and> (vs = [] \<longrightarrow> rc_completed c + rc_persistent c = length requests)"
proof -
  obtain ps where ps: "list_all2 prefix ps (map handle_request requests)" "\<forall>x. count_list us x = count_list (concat ps) x"
      "vs = [] \<longrightarrow> ps = map handle_request requests"
    using woven_prefixes [OF assms(1)] by blast
  have z: "rc_completed no_counts = 0" "rc_persistent no_counts = 0" "rc_2xx no_counts = 0" "rc_4xx no_counts = 0"
      "rc_5xx no_counts = 0"
    by (simp_all add: no_counts_def)
  show ?thesis
    using concat_prefixes [OF ps(1)] concat_settled [of requests] ps(2,3) unfolding assms(2) fold_updates z by simp
qed

theorem recovery_settles_witness:
  "woven (map handle_request [\<lambda>_. NoReply, \<lambda>_. Reply 200 [] False]) ([Seen2xx, Persistent] @ [Completed])
     \<and> rc_completed (fold apply_update [Seen2xx, Persistent] no_counts) + rc_persistent (fold apply_update [Seen2xx, Persistent] no_counts) \<le> 2"
proof -
  have h: "map handle_request [\<lambda>_. NoReply, \<lambda>_. Reply 200 [] False] = [[Persistent], [Seen2xx, Completed]]"
    by (simp add: handle_request_def upt_rec attempt_updates_def status_updates_def)
  have "woven [[Persistent], [Seen2xx, Completed]] [Seen2xx, Persistent, Completed]"
    by (rule woven_step [of 1 _ _ "[Completed]"], simp, simp, rule woven_step [of 0 _ _ "[]"], simp, simp,
        rule woven_step [of 1 _ _ "[]"], simp, simp, rule woven_done) simp
  then have w: "woven (map handle_request [\<lambda>_. NoReply, \<lambda>_. Reply 200 [] False]) ([Seen2xx, Persistent] @ [Completed])"
    unfolding h by simp
  show ?thesis using w recovery_settles [OF w refl] by simp
qed

text \<open>
  A body that breaks off is counted, and so is the body of the attempt after it: the tokens of a request
  that needs a second attempt are counted twice.
\<close>

lemma retried_tokens_counted_again:
  assumes "stream_updates l1 b1 = (us, False)" "stream_updates l2 False = (ws, True)"
  shows "handle_request (\<lambda>a. if a = 0 then Reply 200 l1 b1 else Reply 200 l2 False) =
    Seen2xx # us @ Seen2xx # ws @ [Completed]"
  using assms by (simp add: handle_request_def upt_rec attempt_updates_def status_updates_def)

text \<open>The throughputs of the monitor, weighted with the time they cover, add up to the tokens.\<close>

lemma monitor_throughput_sum:
  assumes "sorted_wrt (<) (t0 # map fst samples)"
  shows "sum_list (map (\<lambda>(d, m). d * rm_throughput m)
      (zip (map (\<lambda>(a, b). b - a) (zip (t0 # map fst samples) (map fst samples))) (monitor_throughput t0 n samples)))
    = of_nat (last (n # map (\<lambda>(_, _, c). rc_tokens c) samples)) - of_nat n"
  using assms
proof (induction samples arbitrary: t0 n)
  case (Cons s samples)
  obtain t i c where s: "s = (t, i, c)" by (cases s)
  have "t0 < t" "sorted_wrt (<) (t # map fst samples)" using Cons.prems by (auto simp: s)
  then show ?case using Cons.IH [of t "rc_tokens c"] by (simp add: s)
qed simp

text \<open>A workload that is reported has one line per request, numbered from zero, and its summary counts them.\<close>

lemma failed_request_fields [simp]: "rr_request_id (failed_request i l e p) = i" "\<not> rr_success (failed_request i l e p)"
  by (simp_all add: failed_request_def)

lemma request_id_kept: "rr_request_id (send_single_request py_str i t0 rep t1) = i"
proof (cases rep)
  case (Stream ls)
  have "rr_request_id r = i" if "request_metrics i t0 t1 s = Inr r" for s r
    using that by (auto simp: request_metrics_def res_simps Let_def split: option.splits)
  then show ?thesis by (auto simp: send_single_request_def Stream res_simps split: sum.split)
qed (simp_all add: send_single_request_def)

lemma workload_reports_all:
  assumes "run_single_workload draw seed smp py_str exch wl = Some (Inr rs)" "rs \<noteq> []"
  shows "\<exists>info lines. workload_lines model duration (Inr rs) = Some (info, lines)
    \<and> length lines = gi_total_requests info \<and> map rr_request_id rs = map int [0 ..< gi_total_requests info]
    \<and> gi_successful_requests info = length (filter st_success lines)"
proof -
  obtain r rs' where r: "rs = r # rs'" using assms(2) by (cases rs) auto
  have "map rr_request_id rs = map int [0 ..< length rs]"
    using assms(1) by (auto simp: run_single_workload_def res_simps request_id_kept case_prod_unfold enumerate_eq_zip
        intro!: nth_equalityI)
  moreover have "filter st_success (map stat_of rs) = map stat_of (filter rr_success rs)"
    by (simp add: filter_map o_def stat_of_def)
  moreover have "workload_lines model duration (Inr rs) = Some (workload_summary model duration rs, map stat_of rs)"
    by (simp add: workload_lines_def r)
  ultimately show ?thesis by (simp add: workload_summary_def Let_def)
qed

end
