(* ===== verification/Over_Client.thy ===== *)
theory Over_Client
  imports Json
begin

text \<open>
  The client of the overhead benchmark (\<open>contrib/benchmark_overhead/benchmark_overhead\<close>): the parser
  of timing headers (\<open>parse.py\<close>), prompts and arrival times (\<open>workload.py\<close>), and the request
  driver (\<open>client.py\<close>).

  An exchange holds what a request meets: the clock before and after, the status, the headers and the
  chunks of the body with the time each was received. Random gaps are a sequence. A number that is not
  finite counts as malformed.
\<close>

section \<open>Timing headers\<close>

definition dur_of :: "string \<Rightarrow> real" where
  "dur_of v = (case py_float_str v of Inr x \<Rightarrow> x | Inl _ \<Rightarrow> 0)"

fun find_dur :: "string list \<Rightarrow> real" where
  "find_dur [] = 0"
| "find_dur (p # ps) = (if py_startswith (py_strip p) ''dur='' then dur_of (drop 4 (py_strip p)) else find_dur ps)"

definition parse_entry :: "string \<Rightarrow> (string \<times> real) option" where
  "parse_entry raw =
     (let e = py_strip raw; parts = split_on CHR '';'' e
      in if e = [] then None else Some (py_strip (hd parts), find_dur (tl parts)))"

definition parse_server_timing :: "string option \<Rightarrow> real pydict" where
  "parse_server_timing header =
     (case header of
        None \<Rightarrow> []
      | Some h \<Rightarrow>
          if h = [] then []
          else fold (\<lambda>raw d. case parse_entry raw of None \<Rightarrow> d | Some (k, x) \<Rightarrow> dict_set k x d) (split_on CHR '','' h) [])"

section \<open>Workloads\<close>

record prompt =
  pm_id :: string
  pm_prompt :: string
  pm_max_output_tokens :: int

text \<open>\<open>load_sharegpt\<close>: the first message of every conversation, if a human wrote it and it fits.\<close>

definition first_message :: "pyval \<Rightarrow> string option res" where
  "first_message entry =
     rbind (py_get entry ''conversations'' PNone) (\<lambda>convs.
       if \<not> py_truthy convs then Inr None
       else
         rbind (py_first convs) (\<lambda>msg.
         rbind (py_get msg ''from'' PNone) (\<lambda>author.
           if author \<noteq> PStr ''human'' then Inr None
           else rbind (py_get msg ''value'' (PStr [])) (\<lambda>text.
             case text of PStr s \<Rightarrow> Inr (Some s) | PNone \<Rightarrow> Inr None | _ \<Rightarrow> Inl (TypeError ''text'')))))"

definition add_prompt :: "(pyval \<Rightarrow> string) \<Rightarrow> int \<Rightarrow> int \<Rightarrow> pyval \<Rightarrow> prompt list \<Rightarrow> prompt list res" where
  "add_prompt other max_input_tokens max_output_tokens entry out =
     rbind (first_message entry) (\<lambda>m.
       case m of
         None \<Rightarrow> Inr out
       | Some text \<Rightarrow>
           if text = [] \<or> int (length text) > max_input_tokens * 4 then Inr out
           else rbind (py_get entry ''id'' (PInt (int (length out)))) (\<lambda>i.
             Inr (out @ [\<lparr>pm_id = py_str_val other i, pm_prompt = text, pm_max_output_tokens = max_output_tokens\<rparr>])))"

definition load_sharegpt :: "(pyval \<Rightarrow> string) \<Rightarrow> int \<Rightarrow> int \<Rightarrow> pyval \<Rightarrow> prompt list res" where
  "load_sharegpt other max_input_tokens max_output_tokens data =
     rbind (py_list_val data) (\<lambda>entries. for_res (add_prompt other max_input_tokens max_output_tokens) entries [])"

definition fixed_prompt :: "int \<Rightarrow> int \<Rightarrow> prompt list" where
  "fixed_prompt input_tokens output_tokens =
     (let n = nat (max 1 (input_tokens * 4)); seed = ''the cat sat on the mat. '';
          body = take n (concat (replicate (n div length seed + 1) seed))
      in [\<lparr>pm_id = ''fixed'', pm_prompt = ''Continue this story:'' @ [CHR 0x0A] @ body, pm_max_output_tokens = output_tokens\<rparr>])"

text \<open>\<open>poisson_schedule\<close>; \<open>gap j\<close> is the j-th draw.\<close>

partial_function (option) poisson_loop :: "(nat \<Rightarrow> real) \<Rightarrow> real \<Rightarrow> nat \<Rightarrow> real \<Rightarrow> real list \<Rightarrow> real list option" where
  "poisson_loop gap duration j t arrivals =
     (if t + gap j \<ge> duration then Some arrivals
      else poisson_loop gap duration (Suc j) (t + gap j) (arrivals @ [t + gap j]))"

definition poisson_schedule :: "(nat \<Rightarrow> real) \<Rightarrow> real \<Rightarrow> real \<Rightarrow> real list option" where
  "poisson_schedule gap rps duration = (if rps \<le> 0 then Some [] else poisson_loop gap duration 0 0 [])"

section \<open>One request\<close>

record request_record =
  rq_request_id :: string
  rq_ts_unix :: real
  rq_status :: int
  rq_ttft_ms :: "real option"
  rq_total_ms :: real
  rq_output_tokens :: nat
  rq_stages :: "real pydict"
  rq_raw_server_timing :: string
  rq_error :: string
  rq_chunk_ts_ms :: "real list"
  rq_chunk_token_counts :: "nat list"

record fire_state =
  fr_ttft_ms :: "real option"
  fr_output_tokens :: nat
  fr_stages :: "real pydict"
  fr_chunk_ts_ms :: "real list"
  fr_chunk_token_counts :: "nat list"

definition head_marker :: string where
  "head_marker = '': otela-head-first-byte=''"

text \<open>The tokens of a line, and the stages after it; \<open>bytes.strip\<close> removes ASCII white space only.\<close>

definition sse_line :: "string \<Rightarrow> nat \<times> real pydict \<Rightarrow> nat \<times> real pydict" where
  "sse_line raw acc =
     (case acc of (n, stages) \<Rightarrow>
        let line = strip_by is_c_space raw in
        if line = [] then (n, stages)
        else if py_startswith line head_marker then
          (case py_float_str (drop (length head_marker) line) of
             Inr x \<Rightarrow> (n, dict_set ''head_first_byte_sent'' x stages)
           | Inl _ \<Rightarrow> (n, stages))
        else if \<not> py_startswith line ''data: '' then (n, stages)
        else if line = ''data: [DONE]'' then (n, stages)
        else (n + 1, stages))"

definition fire_chunk :: "real \<Rightarrow> string \<times> real \<Rightarrow> fire_state \<Rightarrow> fire_state" where
  "fire_chunk started chunk s =
     (case chunk of (bytes, now) \<Rightarrow>
        if bytes = [] then s
        else
          let now_ms = (now - started) * 1000;
              s1 = (if fr_ttft_ms s = None then s\<lparr>fr_ttft_ms := Some now_ms\<rparr> else s);
              (n, stages) = fold sse_line (split_on CHR 0x0A bytes) (0, fr_stages s1);
              s2 = s1\<lparr>fr_stages := stages\<rparr>
          in if n > 0
             then s2\<lparr>fr_chunk_ts_ms := fr_chunk_ts_ms s2 @ [now_ms],
                     fr_chunk_token_counts := fr_chunk_token_counts s2 @ [n],
                     fr_output_tokens := fr_output_tokens s2 + n\<rparr>
             else s2)"

datatype over_reply =
    ConnectFailed string
  | Streamed int "string option" "string option" "(string \<times> real) list" "string option"

record http_exchange =
  ox_started :: real
  ox_unix :: real
  ox_reply :: over_reply
  ox_ended :: real

definition header_or :: "string option \<Rightarrow> string option \<Rightarrow> string" where
  "header_or a b = (case a of Some (c # cs) \<Rightarrow> c # cs | _ \<Rightarrow> (case b of Some s \<Rightarrow> s | None \<Rightarrow> []))"

definition finish_record :: "string \<Rightarrow> http_exchange \<Rightarrow> int \<Rightarrow> string \<Rightarrow> string \<Rightarrow> fire_state \<Rightarrow> request_record" where
  "finish_record rid ex status raw err s =
     \<lparr>rq_request_id = rid, rq_ts_unix = ox_unix ex, rq_status = status, rq_ttft_ms = fr_ttft_ms s,
      rq_total_ms = (ox_ended ex - ox_started ex) * 1000, rq_output_tokens = fr_output_tokens s,
      rq_stages = fr_stages s, rq_raw_server_timing = raw, rq_error = err,
      rq_chunk_ts_ms = fr_chunk_ts_ms s, rq_chunk_token_counts = fr_chunk_token_counts s\<rparr>"

definition fresh_state :: "real pydict \<Rightarrow> fire_state" where
  "fresh_state stages =
     \<lparr>fr_ttft_ms = None, fr_output_tokens = 0, fr_stages = stages, fr_chunk_ts_ms = [], fr_chunk_token_counts = []\<rparr>"

definition fire_request :: "string \<Rightarrow> http_exchange \<Rightarrow> request_record" where
  "fire_request rid ex =
     (case ox_reply ex of
        ConnectFailed e \<Rightarrow> finish_record rid ex 0 [] e (fresh_state [])
      | Streamed status timing worker_timing chunks broken \<Rightarrow>
          let raw = header_or timing worker_timing;
              s = fold (fire_chunk (ox_started ex)) chunks (fresh_state (parse_server_timing (Some raw)))
          in (case broken of
                None \<Rightarrow> finish_record rid ex status raw [] s
              | Some e \<Rightarrow> finish_record rid ex 0 raw e s))"

text \<open>\<open>_fire_and_record\<close>: the line written for a request; \<open>round3\<close> rounds to three decimals.\<close>

definition round3 :: "real \<Rightarrow> real" where
  "round3 x = of_int (round_half_even (x * 1000)) / 1000"

definition request_row :: "pyval pydict \<Rightarrow> request_record \<Rightarrow> pyval" where
  "request_row cell_meta r =
     PDict [(''ts_unix'', PFloat (rq_ts_unix r)), (''request_id'', PStr (rq_request_id r)), (''cell'', PDict cell_meta),
            (''client'', PDict
               [(''ttft_ms'', case rq_ttft_ms r of None \<Rightarrow> PNone | Some x \<Rightarrow> PFloat x), (''total_ms'', PFloat (rq_total_ms r)),
                (''output_tokens'', PInt (int (rq_output_tokens r))), (''status'', PInt (rq_status r)),
                (''error'', PStr (rq_error r)), (''chunk_ts_ms'', PList (map (\<lambda>t. PFloat (round3 t)) (rq_chunk_ts_ms r))),
                (''chunk_token_counts'', PList (map (\<lambda>n. PInt (int n)) (rq_chunk_token_counts r)))]),
            (''stages_ms'', PDict (map (\<lambda>(k, x). (k, PFloat x)) (rq_stages r))),
            (''raw_server_timing'', PStr (rq_raw_server_timing r))]"

definition request_payload :: "string \<Rightarrow> prompt \<Rightarrow> pyval" where
  "request_payload model p =
     PDict [(''model'', PStr model), (''stream'', PBool True),
            (''messages'', PList [PDict [(''role'', PStr ''user''), (''content'', PStr (pm_prompt p))]]),
            (''max_tokens'', PInt (pm_max_output_tokens p)), (''min_tokens'', PInt (pm_max_output_tokens p)),
            (''ignore_eos'', PBool True)]"

definition bench_request_id :: "(pyval \<Rightarrow> string) \<Rightarrow> pyval pydict \<Rightarrow> string \<Rightarrow> nat \<Rightarrow> string res" where
  "bench_request_id other cell_meta hex i =
     rbind (dict_get cell_meta ''cell_key'') (\<lambda>key.
       Inr (''bench-'' @ py_str_val other key @ ''-'' @ take 8 hex @ ''-'' @ str_nat i))"

text \<open>What the i-th request of a run draws and meets: the index of its prompt, the hexadecimal digits of its
  identifier, and how the server answers a payload under an identifier.\<close>

record bench_draw =
  bd_pick :: "nat \<Rightarrow> nat"
  bd_hex :: string
  bd_answer :: "string \<Rightarrow> pyval \<Rightarrow> http_exchange"

definition choose_prompt :: "prompt list \<Rightarrow> bench_draw \<Rightarrow> prompt res" where
  "choose_prompt prompts d = (if prompts = [] then Inl (ValueError ''high <= 0'') else Inr (prompts ! (bd_pick d (length prompts))))"

definition fire_and_record :: "(pyval \<Rightarrow> string) \<Rightarrow> string \<Rightarrow> pyval pydict \<Rightarrow> prompt list \<Rightarrow> nat \<Rightarrow> bench_draw \<Rightarrow> pyval res" where
  "fire_and_record other model cell_meta prompts i d =
     rbind (choose_prompt prompts d) (\<lambda>p.
     rbind (bench_request_id other cell_meta (bd_hex d) i) (\<lambda>rid.
       Inr (request_row cell_meta (fire_request rid (bd_answer d rid (request_payload model p))))))"

text \<open>\<open>fire_closed_loop\<close>: one request after the other; the rows written and the number of requests.\<close>

definition fire_closed_loop ::
  "(pyval \<Rightarrow> string) \<Rightarrow> string \<Rightarrow> pyval pydict \<Rightarrow> prompt list \<Rightarrow> (nat \<Rightarrow> bench_draw) \<Rightarrow> int \<Rightarrow> (pyval list \<times> int) res" where
  "fire_closed_loop other model cell_meta prompts draws n_requests =
     (if n_requests \<le> 0 then Inr ([], 0)
      else rbind (for_res (\<lambda>i rows.
               rbind (fire_and_record other model cell_meta prompts i (draws i)) (\<lambda>row. Inr (rows @ [row])))
             [0 ..< nat n_requests] [])
           (\<lambda>rows. Inr (rows, n_requests)))"

text \<open>\<open>fire_open_loop\<close>: the time at which each arrival is sent. A wait ends at the arrival time or later
  by \<open>late i\<close>; preparing the request takes \<open>work i\<close>.\<close>

fun send_times :: "(nat \<Rightarrow> real) \<Rightarrow> (nat \<Rightarrow> real) \<Rightarrow> nat \<Rightarrow> real \<Rightarrow> real list \<Rightarrow> real list" where
  "send_times late work i now [] = []"
| "send_times late work i now (t # ts) =
     (let sent = (if t - now > 0 then t + late i else now)
      in sent # send_times late work (Suc i) (sent + work i) ts)"

text \<open>The rows of the requests, in the order of the arrivals, and their number; the requests run as tasks, so
  the file holds these rows in the order in which the requests end.\<close>

definition fire_open_loop ::
  "(pyval \<Rightarrow> string) \<Rightarrow> string \<Rightarrow> pyval pydict \<Rightarrow> prompt list \<Rightarrow> (nat \<Rightarrow> bench_draw) \<Rightarrow> real list \<Rightarrow> (pyval list \<times> int) res" where
  "fire_open_loop other model cell_meta prompts draws arrivals =
     rbind (for_res (\<lambda>i rows.
               rbind (fire_and_record other model cell_meta prompts i (draws i)) (\<lambda>row. Inr (rows @ [row])))
             [0 ..< length arrivals] [])
           (\<lambda>rows. Inr (rows, int (length arrivals)))"

text \<open>The times of the requests of an open loop: in order, and none before its arrival.\<close>

lemma send_times_after:
  assumes "\<forall>i. 0 \<le> late i" "\<forall>i. 0 \<le> work i" "sorted arrivals"
  shows "list_all2 (\<le>) arrivals (send_times late work i now arrivals) \<and> sorted (now # send_times late work i now arrivals)"
  using assms(3)
proof (induction arrivals arbitrary: i now)
  case (Cons t ts)
  define sent where "sent = (if t - now > 0 then t + late i else now)"
  have sent: "t \<le> sent" "now \<le> sent" using assms(1) by (auto simp: sent_def add_increasing2 less_imp_le)
  have step: "sent \<le> sent + work i" using assms(2) by simp
  have eq: "send_times late work i now (t # ts) = sent # send_times late work (Suc i) (sent + work i) ts"
    by (simp add: sent_def Let_def)
  have "list_all2 (\<le>) ts (send_times late work (Suc i) (sent + work i) ts)"
      and sorted: "sorted ((sent + work i) # send_times late work (Suc i) (sent + work i) ts)"
    using Cons.IH [of "Suc i" "sent + work i"] Cons.prems by simp_all
  moreover have "\<forall>u \<in> set (send_times late work (Suc i) (sent + work i) ts). sent \<le> u"
    using sorted step by (auto intro: order_trans)
  ultimately show ?case unfolding eq using sent by (auto intro: order_trans)
qed simp

text \<open>An event whose bytes arrive in two pieces is counted in neither.\<close>

lemma split_event_lost:
  shows "fr_output_tokens (fire_chunk 0 (''data: x'', u) (fresh_state [])) = 1"
    and "fr_output_tokens (fold (fire_chunk 0) [(''dat'', t), (''a: x'', u)] (fresh_state [])) = 0"
  by (simp_all add: fire_chunk_def fresh_state_def sse_line_def strip_by_def is_c_space_def head_marker_def Let_def)

section \<open>Timing headers are read back\<close>

text \<open>A header as the node prints it: entries \<open>name;dur=value\<close>, separated by a comma and a blank.\<close>

definition stage_entry :: "(real \<Rightarrow> string) \<Rightarrow> string \<times> real \<Rightarrow> string" where
  "stage_entry fmt kx = fst kx @ '';dur='' @ fmt (snd kx)"

definition stage_header :: "(real \<Rightarrow> string) \<Rightarrow> real pydict \<Rightarrow> string" where
  "stage_header fmt stages = join_with '', '' (map (stage_entry fmt) stages)"

definition plain :: "string \<Rightarrow> bool" where
  "plain s \<longleftrightarrow> s \<noteq> [] \<and> CHR '','' \<notin> set s \<and> CHR '';'' \<notin> set s \<and> \<not> is_space (hd s) \<and> \<not> is_space (last s)"

lemma strip_clean: "s \<noteq> [] \<Longrightarrow> \<not> is_space (hd s) \<Longrightarrow> \<not> is_space (last s) \<Longrightarrow> py_strip s = s"
proof -
  assume s: "s \<noteq> []" "\<not> is_space (hd s)" "\<not> is_space (last s)"
  have "dropWhile is_space s = s" using s(1,2) by (cases s) simp_all
  moreover have "dropWhile is_space (rev s) = rev s" using s(1,3) by (cases s rule: rev_cases) simp_all
  ultimately show ?thesis by (simp add: py_strip_def strip_by_def)
qed

lemma strip_blank: "py_strip (CHR '' '' # s) = py_strip s"
  by (simp add: py_strip_def strip_by_def is_space_def)

lemma parse_stage_entry:
  assumes "plain k" "plain (fmt x)" "py_float_str (fmt x) = Inr x"
  shows "parse_entry (stage_entry fmt (k, x)) = Some (k, x)" "parse_entry (CHR '' '' # stage_entry fmt (k, x)) = Some (k, x)"
proof -
  let ?e = "stage_entry fmt (k, x)"
  have e: "py_strip ?e = ?e"
    using assms(1,2) by (intro strip_clean) (simp_all add: stage_entry_def plain_def)
  have "CHR '';'' \<notin> set (''dur='' @ fmt x)" using assms(2) by (simp add: plain_def)
  then have parts: "split_on CHR '';'' ?e = [k, ''dur='' @ fmt x]"
    using split_on_append [of "CHR '';''" k "''dur='' @ fmt x"] split_on_no_sep assms(1) by (simp add: stage_entry_def plain_def)
  have strip: "py_strip k = k" "py_strip (''dur='' @ fmt x) = ''dur='' @ fmt x"
    using assms(1,2) by (auto intro!: strip_clean simp: plain_def is_space_def)
  have dur: "find_dur [''dur='' @ fmt x] = x"
    using strip(2) assms(3) by (simp add: dur_of_def)
  show "parse_entry ?e = Some (k, x)" unfolding parse_entry_def Let_def e parts using strip(1) dur by (simp add: stage_entry_def)
  show "parse_entry (CHR '' '' # ?e) = Some (k, x)"
    unfolding parse_entry_def Let_def strip_blank e parts using strip(1) dur by (simp add: stage_entry_def)
qed

lemma split_header:
  assumes "xs \<noteq> []" "\<forall>e \<in> set xs. CHR '','' \<notin> set e"
  shows "split_on CHR '','' (join_with '', '' xs) = hd xs # map ((#) CHR '' '') (tl xs)"
  using assms
proof (induction xs rule: induct_list012)
  case (3 x y zs)
  have "split_on CHR '','' (CHR '' '' # join_with '', '' (y # zs)) =
      (CHR '' '' # y) # map ((#) CHR '' '') zs"
    using 3(2) 3(4) by simp
  then show ?case using 3(4) split_on_append [of "CHR '',''" x "CHR '' '' # join_with '', '' (y # zs)"] by simp
qed (simp_all add: split_on_no_sep)

lemma server_timing_roundtrip:
  assumes "distinct (map fst stages)" "\<forall>(k, x) \<in> set stages. plain k \<and> plain (fmt x) \<and> py_float_str (fmt x) = Inr x"
  shows "parse_server_timing (Some (stage_header fmt stages)) = stages"
proof (cases stages)
  case Nil
  then show ?thesis by (simp add: parse_server_timing_def stage_header_def)
next
  case (Cons s ss)
  let ?step = "\<lambda>raw d. case parse_entry raw of None \<Rightarrow> d | Some (k, x) \<Rightarrow> dict_set k x d"
  have ok: "parse_entry (stage_entry fmt kx) = Some kx" "parse_entry (CHR '' '' # stage_entry fmt kx) = Some kx"
    if "kx \<in> set stages" for kx
  proof -
    have "plain (fst kx)" "plain (fmt (snd kx))" "py_float_str (fmt (snd kx)) = Inr (snd kx)"
      using that assms(2) by (auto simp: case_prod_unfold)
    note p = parse_stage_entry [where k = "fst kx" and x = "snd kx" and fmt = fmt, OF this, unfolded prod.collapse]
    show "parse_entry (stage_entry fmt kx) = Some kx" "parse_entry (CHR '' '' # stage_entry fmt kx) = Some kx" by (rule p)+
  qed
  have comma: "\<forall>e \<in> set (map (stage_entry fmt) stages). CHR '','' \<notin> set e"
  proof
    fix e assume "e \<in> set (map (stage_entry fmt) stages)"
    then obtain kx where kx: "kx \<in> set stages" "e = stage_entry fmt kx" by auto
    have "plain (fst kx)" "plain (fmt (snd kx))" using assms(2) kx(1) by (auto simp: case_prod_unfold)
    then show "CHR '','' \<notin> set e" by (simp add: kx(2) stage_entry_def plain_def)
  qed
  have fold: "fold ?step (map (\<lambda>kx. CHR '' '' # stage_entry fmt kx) ts) d = d @ ts"
    if "set ts \<subseteq> set stages" "distinct (map fst (d @ ts))" for ts d
    using that
  proof (induction ts arbitrary: d)
    case (Cons kx ts)
    obtain k x where kx: "kx = (k, x)" by (cases kx)
    have "k \<notin> fst ` set d" using Cons.prems(2) by (auto simp: kx)
    then have "dict_set k x d = d @ [(k, x)]" by (rule dict_set_fresh)
    then show ?case using Cons ok(2) [of kx] by (simp add: kx)
  qed simp
  have "stage_header fmt stages \<noteq> []"
    by (cases ss) (simp_all add: Cons stage_header_def stage_entry_def)
  moreover have "split_on CHR '','' (stage_header fmt stages) =
      stage_entry fmt s # map (\<lambda>kx. CHR '' '' # stage_entry fmt kx) ss"
    using split_header [OF _ comma] by (simp add: Cons stage_header_def)
  moreover have "?step (stage_entry fmt s) [] = [s]" using ok(1) [of s] by (cases s) (simp add: Cons)
  moreover have "set ss \<subseteq> set stages" by (auto simp: Cons)
  ultimately show ?thesis
    using fold [of ss "[s]"] assms(1) by (simp add: parse_server_timing_def Cons)
qed

section \<open>Arrival times\<close>

definition arrival_sum :: "(nat \<Rightarrow> real) \<Rightarrow> nat \<Rightarrow> real" where
  "arrival_sum gap j = (\<Sum>i \<le> j. gap i)"

lemma poisson_loop_run:
  assumes "j \<le> n" "t = (\<Sum>i < j. gap i)" "\<And>i. j \<le> i \<Longrightarrow> i < n \<Longrightarrow> arrival_sum gap i < duration" "duration \<le> arrival_sum gap n"
  shows "poisson_loop gap duration j t acc = Some (acc @ map (arrival_sum gap) [j ..< n])"
  using assms(1-3)
proof (induction "n - j" arbitrary: j t acc)
  case 0
  then have "j = n" by simp
  then have "duration \<le> t + gap j" using assms(4) 0(3) by (simp add: arrival_sum_def lessThan_Suc_atMost [symmetric])
  then show ?case using \<open>j = n\<close> by (subst poisson_loop.simps) simp
next
  case (Suc d)
  then have j: "j < n" by simp
  have t: "t + gap j = arrival_sum gap j" using Suc.prems(2) by (simp add: arrival_sum_def lessThan_Suc_atMost [symmetric])
  have lt: "\<not> duration \<le> t + gap j" using Suc.prems(3) [of j] j t by simp
  have "poisson_loop gap duration (Suc j) (t + gap j) (acc @ [t + gap j]) =
      Some ((acc @ [t + gap j]) @ map (arrival_sum gap) [Suc j ..< n])"
    by (rule Suc.hyps(1)) (use Suc.hyps(2) j Suc.prems in \<open>simp_all\<close>)
  then show ?case using lt j t by (subst poisson_loop.simps) (simp add: upt_conv_Cons)
qed

text \<open>The schedule ends once the gaps reach the duration, and is strictly increasing and inside the interval.\<close>

lemma poisson_schedule_exact:
  assumes "0 < rps" "\<forall>i. 0 < gap i" "\<exists>n. duration \<le> arrival_sum gap n"
  shows "\<exists>n. poisson_schedule gap rps duration = Some (map (arrival_sum gap) [0 ..< n])
    \<and> (\<forall>i < n. 0 < arrival_sum gap i \<and> arrival_sum gap i < duration) \<and> duration \<le> arrival_sum gap n
    \<and> sorted_wrt (<) (map (arrival_sum gap) [0 ..< n])"
proof -
  define n where "n = (LEAST n. duration \<le> arrival_sum gap n)"
  have hit: "duration \<le> arrival_sum gap n" unfolding n_def using assms(3) by (rule LeastI_ex)
  have below: "arrival_sum gap i < duration" if "i < n" for i
    using not_less_Least [OF that [unfolded n_def]] by simp
  have mono: "strict_mono (arrival_sum gap)"
    unfolding strict_mono_Suc_iff using assms(2) by (simp add: arrival_sum_def)
  have pos: "0 < arrival_sum gap i" for i
    unfolding arrival_sum_def using assms(2) by (intro sum_pos) simp_all
  have "poisson_schedule gap rps duration = Some (map (arrival_sum gap) [0 ..< n])"
    using poisson_loop_run [of 0 n 0 gap duration "[]"] below hit assms(1) by (simp add: poisson_schedule_def)
  moreover have "sorted_wrt (<) (map (arrival_sum gap) [0 ..< n])"
    using mono by (auto simp: sorted_wrt_iff_nth_less strict_mono_less)
  ultimately show ?thesis using below hit pos by blast
qed

section \<open>Tokens and times of a request\<close>

definition fire_ok :: "real \<Rightarrow> real \<Rightarrow> fire_state \<Rightarrow> bool" where
  "fire_ok started now s \<longleftrightarrow>
     sum_list (fr_chunk_token_counts s) = fr_output_tokens s \<and> length (fr_chunk_ts_ms s) = length (fr_chunk_token_counts s)
     \<and> (\<forall>n \<in> set (fr_chunk_token_counts s). 0 < n) \<and> sorted (fr_chunk_ts_ms s)
     \<and> (\<forall>t \<in> set (fr_chunk_ts_ms s). t \<le> (now - started) * 1000)
     \<and> (case fr_ttft_ms s of
          None \<Rightarrow> fr_chunk_ts_ms s = []
        | Some f \<Rightarrow> 0 \<le> f \<and> f \<le> (now - started) * 1000 \<and> (\<forall>t \<in> set (fr_chunk_ts_ms s). f \<le> t))"

lemma fire_ok_later: "fire_ok started t s \<Longrightarrow> t \<le> now \<Longrightarrow> fire_ok started now s"
proof -
  assume ok: "fire_ok started t s" and "t \<le> now"
  then have le: "(t - started) * 1000 \<le> (now - started) * 1000" by simp
  have chunks: "\<forall>u \<in> set (fr_chunk_ts_ms s). u \<le> (now - started) * 1000"
    using ok le unfolding fire_ok_def by (meson order_trans)
  show ?thesis
  proof (cases "fr_ttft_ms s")
    case None
    then have "fr_chunk_ts_ms s = []" using ok unfolding fire_ok_def by simp
    moreover from this have "fr_chunk_token_counts s = []" "fr_output_tokens s = 0"
      using ok unfolding fire_ok_def by auto
    ultimately show ?thesis using None unfolding fire_ok_def by simp
  next
    case (Some f)
    then have "f \<le> (t - started) * 1000" using ok unfolding fire_ok_def by simp
    then have "f \<le> (now - started) * 1000" using le by (rule order_trans)
    then show ?thesis using ok chunks Some unfolding fire_ok_def by simp
  qed
qed

lemma fire_chunk_ok:
  assumes "fire_ok started t s" "started \<le> t" "t \<le> now"
  shows "fire_ok started now (fire_chunk started (bytes, now) s)"
proof (cases "bytes = []")
  case True
  then show ?thesis using fire_ok_later [OF assms(1,3)] by (simp add: fire_chunk_def)
next
  case False
  let ?ms = "(now - started) * 1000"
  have ok: "fire_ok started now s" by (rule fire_ok_later [OF assms(1,3)])
  define s1 where "s1 = (if fr_ttft_ms s = None then s\<lparr>fr_ttft_ms := Some ?ms\<rparr> else s)"
  have nonneg: "0 \<le> ?ms" using assms(2,3) by simp
  have ok1: "fire_ok started now s1" using ok nonneg by (auto simp: s1_def fire_ok_def)
  obtain f where f: "fr_ttft_ms s1 = Some f" by (cases "fr_ttft_ms s") (auto simp: s1_def)
  obtain n stages where n: "fold sse_line (split_on CHR 0x0A bytes) (0, fr_stages s1) = (n, stages)"
    by (cases "fold sse_line (split_on CHR 0x0A bytes) (0, fr_stages s1)")
  have eq: "fire_chunk started (bytes, now) s =
      (if n > 0 then s1\<lparr>fr_stages := stages, fr_chunk_ts_ms := fr_chunk_ts_ms s1 @ [?ms],
         fr_chunk_token_counts := fr_chunk_token_counts s1 @ [n], fr_output_tokens := fr_output_tokens s1 + n\<rparr>
       else s1\<lparr>fr_stages := stages\<rparr>)"
    using False n unfolding fire_chunk_def prod.case Let_def s1_def [symmetric] by simp
  show ?thesis using ok1 f unfolding eq fire_ok_def by (simp add: sorted_append)
qed

lemma fire_chunks_ok:
  assumes "fire_ok started t s" "started \<le> t" "sorted (t # map snd chunks @ [now])"
  shows "fire_ok started now (fold (fire_chunk started) chunks s)"
  using assms
proof (induction chunks arbitrary: t s)
  case Nil
  then show ?case using fire_ok_later by simp
next
  case (Cons c cs)
  obtain bytes u where c: "c = (bytes, u)" by (cases c)
  have "fire_ok started u (fire_chunk started c s)" "started \<le> u"
    using fire_chunk_ok [OF Cons.prems(1,2)] Cons.prems(2,3) by (auto simp: c)
  then show ?case using Cons.IH [of u] Cons.prems(3) by (simp add: c)
qed

definition reply_times :: "over_reply \<Rightarrow> real list" where
  "reply_times r = (case r of ConnectFailed _ \<Rightarrow> [] | Streamed _ _ _ chunks _ \<Rightarrow> map snd chunks)"

text \<open>C29: the record of a request accounts for its tokens and times, whether the response ended, broke off or
  never came. If the clock does not go back, the token counts of the chunks are positive and add up to the
  tokens reported, there is one time per count, the times are in order, and they lie between the
  time to the first byte and the total time; a request without a first byte has no token; and a
  request that failed reports status zero.\<close>

theorem request_record_accounts:
  assumes "sorted (ox_started ex # reply_times (ox_reply ex) @ [ox_ended ex])" and "r = fire_request rid ex"
  shows "sum_list (rq_chunk_token_counts r) = rq_output_tokens r \<and> (\<forall>n \<in> set (rq_chunk_token_counts r). 0 < n)
    \<and> length (rq_chunk_ts_ms r) = length (rq_chunk_token_counts r) \<and> sorted (rq_chunk_ts_ms r)
    \<and> (case rq_ttft_ms r of
         None \<Rightarrow> rq_output_tokens r = 0
       | Some f \<Rightarrow> 0 \<le> f \<and> f \<le> rq_total_ms r \<and> (\<forall>t \<in> set (rq_chunk_ts_ms r). f \<le> t \<and> t \<le> rq_total_ms r))
    \<and> ((\<exists>e. ox_reply ex = ConnectFailed e) \<or> (\<exists>st a b cs e. ox_reply ex = Streamed st a b cs (Some e)) \<longrightarrow> rq_status r = 0)"
proof -
  have start: "fire_ok (ox_started ex) (ox_started ex) (fresh_state stages)" for stages
    by (simp add: fire_ok_def fresh_state_def)
  have "\<exists>s status raw err. r = finish_record rid ex status raw err s \<and> fire_ok (ox_started ex) (ox_ended ex) s
      \<and> ((\<exists>e. ox_reply ex = ConnectFailed e) \<or> (\<exists>st a b cs e. ox_reply ex = Streamed st a b cs (Some e)) \<longrightarrow> status = 0)"
  proof (cases "ox_reply ex")
    case (ConnectFailed e)
    then show ?thesis using assms start [of "[]"] fire_ok_later by (fastforce simp: fire_request_def reply_times_def)
  next
    case (Streamed st a b cs brk)
    have ok: "fire_ok (ox_started ex) (ox_ended ex) (fold (fire_chunk (ox_started ex)) cs
        (fresh_state (parse_server_timing (Some (header_or a b)))))"
      using fire_chunks_ok [OF start order_refl] assms(1) by (simp add: Streamed reply_times_def)
    show ?thesis using ok assms(2) by (cases brk) (auto simp: fire_request_def Streamed Let_def)
  qed
  then obtain s status raw err where s: "r = finish_record rid ex status raw err s" "fire_ok (ox_started ex) (ox_ended ex) s"
      "(\<exists>e. ox_reply ex = ConnectFailed e) \<or> (\<exists>st a b cs e. ox_reply ex = Streamed st a b cs (Some e)) \<longrightarrow> status = 0"
    by blast
  show ?thesis using s(2,3) unfolding s(1) fire_ok_def by (cases "fr_ttft_ms s") (auto simp: finish_record_def)
qed

theorem request_record_accounts_witness:
  "sum_list (rq_chunk_token_counts (fire_request ''r'' \<lparr>ox_started = 0, ox_unix = 0,
      ox_reply = Streamed 200 None None [(''data: x'', 1), (''data: y'', 2)] None, ox_ended = 3\<rparr>)) =
   rq_output_tokens (fire_request ''r'' \<lparr>ox_started = 0, ox_unix = 0,
      ox_reply = Streamed 200 None None [(''data: x'', 1), (''data: y'', 2)] None, ox_ended = 3\<rparr>)"
  using request_record_accounts [of "\<lparr>ox_started = 0, ox_unix = 0,
      ox_reply = Streamed 200 None None [(''data: x'', 1), (''data: y'', 2)] None, ox_ended = 3\<rparr>", OF _ refl, of "''r''"]
  by (simp add: reply_times_def)

end
