(* ===== verification/Over_Sweep.thy ===== *)
theory Over_Sweep
  imports Over_Client Io "HOL-Library.List_Lexorder" "HOL-Library.Char_ord"
begin

text \<open>
  The sweep of the overhead benchmark: \<open>deploy.py\<close> starts a worker for a model and waits until it
  serves, \<open>probe_net.py\<close> measures the way to a server, and \<open>run.py\<close> measures every cell of the
  grid of models, rates, paths and repetitions, and skips cells that a previous run has measured.

  Files, Slurm, HTTP and the clock are an argument, and so are numpy's statistics. The file of rows is a
  list of lines. A run in which a Poisson schedule does not end is an exception of its own. Messages,
  directories, \<open>config.yaml\<close> and \<open>meta.json\<close> are left out, but for the workers listed in the latter.
\<close>

section \<open>Workers\<close>

record worker_state =
  ws_node :: string
  ws_sglang_port :: int
  ws_otela_port :: int
  ws_job_id :: string
  ws_model :: string
  ws_run_id :: string

definition str_item :: "pyval \<Rightarrow> string \<Rightarrow> string res" where
  "str_item v k = rbind (py_item v k) (\<lambda>x. case x of PStr s \<Rightarrow> Inr s | _ \<Rightarrow> Inl (TypeError k))"

definition parse_worker_state :: "(pyval \<Rightarrow> string) \<Rightarrow> string \<Rightarrow> worker_state res" where
  "parse_worker_state other text =
     rbind (json_loads text) (\<lambda>data.
     rbind (str_item data ''node'') (\<lambda>node.
     rbind (rbind (py_item data ''sglang_port'') py_int_val) (\<lambda>sglang_port.
     rbind (rbind (py_item data ''otela_port'') py_int_val) (\<lambda>otela_port.
     rbind (py_item data ''job_id'') (\<lambda>job_id.
     rbind (str_item data ''model'') (\<lambda>model.
     rbind (str_item data ''run_id'') (\<lambda>run_id.
       Inr \<lparr>ws_node = node, ws_sglang_port = sglang_port, ws_otela_port = otela_port, ws_job_id = py_str_val other job_id,
            ws_model = model, ws_run_id = run_id\<rparr>)))))))"

text \<open>\<open>for x in xs: if p(x): return True\<close> where the test may raise, and \<open>v.get(k) or []\<close>.\<close>

fun any_res :: "('a \<Rightarrow> bool res) \<Rightarrow> 'a list \<Rightarrow> bool res" where
  "any_res p [] = Inr False"
| "any_res p (x # xs) = rbind (p x) (\<lambda>b. if b then Inr True else any_res p xs)"

definition list_or_empty :: "pyval \<Rightarrow> string \<Rightarrow> pyval list res" where
  "list_or_empty v k = rbind (py_get v k PNone) (\<lambda>x. if py_truthy x then py_list_val x else Inr [])"

definition offers_identity :: "string \<Rightarrow> string \<Rightarrow> pyval \<Rightarrow> bool res" where
  "offers_identity key needle v =
     rbind (list_or_empty v ''service'') (any_res (\<lambda>svc.
       rbind (list_or_empty svc key) (any_res (\<lambda>ig. Inr (ig = PStr needle)))))"

definition is_model_ready_in_dnt :: "pyval \<Rightarrow> string \<Rightarrow> bool res" where
  "is_model_ready_in_dnt table model =
     (let needle = ''model='' @ model in
      rbind (py_items table) (\<lambda>items.
      rbind (any_res (\<lambda>kv. case snd kv of PDict d \<Rightarrow> offers_identity ''identity_group'' needle (PDict d) | _ \<Rightarrow> Inr False) items) (\<lambda>found.
        if found then Inr True
        else rbind (list_or_empty table ''providers'') (any_res (offers_identity ''identityGroup'' needle)))))"

text \<open>A GET request that failed, or its status and text.\<close>

datatype got = GetFailed | Got int string

record 's deploy_api =
  da_read :: "string \<Rightarrow> ('s, string option) io"
  da_sbatch :: "string list \<Rightarrow> ('s, string) io"
  da_get :: "string \<Rightarrow> ('s, got) io"
  da_clock :: "('s, real) io"
  da_nap :: "('s, unit) io"
  da_scancel :: "string \<Rightarrow> ('s, unit) io"

definition safe_name :: "string \<Rightarrow> string" where
  "safe_name model = map (\<lambda>c. if c = CHR ''/'' then CHR ''_'' else c) model"

definition state_path :: "string \<Rightarrow> string \<Rightarrow> string \<Rightarrow> string" where
  "state_path state_dir run_id model = state_dir @ ''/'' @ run_id @ ''/'' @ safe_name model @ ''.json''"

definition rstrip_slash :: "string \<Rightarrow> string" where
  "rstrip_slash s = rev (dropWhile (\<lambda>c. c = CHR ''/'') (rev s))"

definition item_text :: "(pyval \<Rightarrow> string) \<Rightarrow> pyval \<Rightarrow> string \<Rightarrow> string \<Rightarrow> string res" where
  "item_text other cfg part k = rbind (rbind (py_item cfg part) (\<lambda>d. py_item d k)) (\<lambda>v. Inr (py_str_val other v))"

definition worker_command :: "(pyval \<Rightarrow> string) \<Rightarrow> string \<Rightarrow> string \<Rightarrow> pyval \<Rightarrow> pyval \<Rightarrow> string \<Rightarrow> string list res" where
  "worker_command other script state_dir cfg model_cfg run_id =
     rbind (item_text other cfg ''otela'' ''binary_path'') (\<lambda>bin.
     rbind (rbind (py_item model_cfg ''name'') (\<lambda>v. Inr (py_str_val other v))) (\<lambda>model.
     rbind (py_get model_cfg ''tp_size'' (PInt 1)) (\<lambda>tp.
     rbind (item_text other cfg ''otela'' ''bootstrap_url'') (\<lambda>boot.
     rbind (item_text other cfg ''slurm'' ''env_file'') (\<lambda>env_file.
     rbind (item_text other cfg ''slurm'' ''partition'') (\<lambda>partition.
     rbind (item_text other cfg ''slurm'' ''account'') (\<lambda>account.
     rbind (rbind (py_item model_cfg ''gres'') (\<lambda>v. Inr (py_str_val other v))) (\<lambda>gres.
     rbind (item_text other cfg ''slurm'' ''time_limit'') (\<lambda>time_limit.
       Inr [''sbatch'', ''--partition='' @ partition, ''--account='' @ account, ''--gres='' @ gres, ''--time='' @ time_limit,
            ''--environment='' @ env_file,
            ''--export='' @ join_with '','' [''OTELA_BIN='' @ bin, ''MODEL='' @ model, ''TP_SIZE='' @ py_str_val other tp,
              ''RUN_ID='' @ run_id, ''BENCH_STATE_DIR='' @ state_dir, ''BOOTSTRAP_ADDR='' @ boot, ''ENV_FILE='' @ env_file],
            script])))))))))"

text \<open>\<open>out.split()[-1]\<close>\<close>

definition submitted_job :: "string \<Rightarrow> string res" where
  "submitted_job out = py_nth (py_words out) (-1)"

definition timed_poll :: "'s deploy_api \<Rightarrow> real \<Rightarrow> ('s, 'a option) io \<Rightarrow> ('s, 'a option) io" where
  "timed_poll api deadline check =
     io_bind (da_clock api) (\<lambda>now. if now < deadline then check else io_raise (OtherException ''TimeoutError''))"

definition wait_until :: "nat \<Rightarrow> 's deploy_api \<Rightarrow> real \<Rightarrow> ('s, 'a option) io \<Rightarrow> ('s, 'a) io" where
  "wait_until polls api timeout_s check =
     io_bind (da_clock api) (\<lambda>start. wait_loop (timed_poll api (start + timeout_s) check) (da_nap api) polls)"

definition read_worker_state :: "(pyval \<Rightarrow> string) \<Rightarrow> 's deploy_api \<Rightarrow> string \<Rightarrow> ('s, worker_state option) io" where
  "read_worker_state other api path =
     io_bind (da_read api path) (\<lambda>text.
       case text of
         None \<Rightarrow> io_return None
       | Some t \<Rightarrow> io_bind (io_res (parse_worker_state other t)) (\<lambda>s. io_return (Some s)))"

definition direct_ready :: "'s deploy_api \<Rightarrow> string \<Rightarrow> int \<Rightarrow> ('s, unit option) io" where
  "direct_ready api host port =
     io_bind (da_get api (''http://'' @ host @ '':'' @ str_int port @ ''/v1/models'')) (\<lambda>r.
       io_return (case r of Got st _ \<Rightarrow> if st = 200 then Some () else None | GetFailed \<Rightarrow> None))"

text \<open>A failed request, a status of 400 or more and a text that is not JSON are caught.\<close>

definition dnt_ready :: "'s deploy_api \<Rightarrow> string \<Rightarrow> string \<Rightarrow> ('s, unit option) io" where
  "dnt_ready api head_url model =
     io_bind (da_get api (rstrip_slash head_url @ ''/v1/dnt/table'')) (\<lambda>r.
       case r of
         GetFailed \<Rightarrow> io_return None
       | Got st body \<Rightarrow>
           if st \<ge> 400 then io_return None
           else
             (case rbind (json_loads body) (\<lambda>table. is_model_ready_in_dnt table model) of
                Inr b \<Rightarrow> io_return (if b then Some () else None)
              | Inl (ValueError _) \<Rightarrow> io_return None
              | Inl e \<Rightarrow> io_raise e))"

definition ensure_worker ::
  "nat \<Rightarrow> (pyval \<Rightarrow> string) \<Rightarrow> 's deploy_api \<Rightarrow> string \<Rightarrow> string \<Rightarrow> string \<Rightarrow> pyval \<Rightarrow> pyval \<Rightarrow> string \<Rightarrow> string \<Rightarrow> ('s, worker_state) io" where
  "ensure_worker polls other api script state_dir head_url cfg model_cfg model run_id =
     (let path = state_path state_dir run_id model in
      io_bind (read_worker_state other api path) (\<lambda>present.
      io_bind (case present of
                 Some s \<Rightarrow> io_return s
               | None \<Rightarrow>
                   io_bind (io_res (worker_command other script state_dir cfg model_cfg run_id)) (\<lambda>cmd.
                   io_bind (da_sbatch api cmd) (\<lambda>out.
                   io_bind (io_res (submitted_job out)) (\<lambda>_.
                     wait_until polls api 600 (read_worker_state other api path))))) (\<lambda>st.
      io_bind (wait_until polls api 1800 (direct_ready api (ws_node st) (ws_sglang_port st))) (\<lambda>_.
      io_bind (wait_until polls api 600 (dnt_ready api head_url model)) (\<lambda>_.
        io_return st)))))"

definition run_deploy ::
  "nat \<Rightarrow> (pyval \<Rightarrow> string) \<Rightarrow> 's deploy_api \<Rightarrow> string \<Rightarrow> string \<Rightarrow> string \<Rightarrow> pyval \<Rightarrow> string \<Rightarrow> (string \<times> pyval) list \<Rightarrow> ('s, worker_state list) io" where
  "run_deploy polls other api script state_dir head_url cfg run_id models =
     io_for (\<lambda>(model, model_cfg). ensure_worker polls other api script state_dir head_url cfg model_cfg model run_id) models"

text \<open>\<open>run_teardown\<close>: the files under the directory are an argument.\<close>

definition run_teardown :: "(pyval \<Rightarrow> string) \<Rightarrow> 's deploy_api \<Rightarrow> (string \<Rightarrow> ('s, unit) io) \<Rightarrow> string list \<Rightarrow> ('s, unit) io" where
  "run_teardown other api unlink files =
     io_bind (io_for (\<lambda>f.
        io_bind (read_worker_state other api f) (\<lambda>r.
          case r of
            None \<Rightarrow> io_return ()
          | Some s \<Rightarrow> io_bind (da_scancel api (ws_job_id s)) (\<lambda>_. unlink f))) files) (\<lambda>_. io_return ())"

section \<open>The network probe\<close>

text \<open>The samples of a probe: the clock before, the answer and the clock after; \<open>None\<close> for a failure.\<close>

record net_probe =
  np_url :: string
  np_n_ok :: nat
  np_p50 :: "real option"
  np_p95 :: "real option"
  np_mean :: "real option"
  np_std :: "real option"

record np_stats =
  st_percentile :: "real list \<Rightarrow> real \<Rightarrow> real"
  st_mean :: "real list \<Rightarrow> real"
  st_std :: "real list \<Rightarrow> real"

definition probe_url_for :: "string \<Rightarrow> string \<Rightarrow> string" where
  "probe_url_for origin path =
     (if py_in ''/v1/service/'' path then origin @ ''/v1/dnt/bootstraps'' else origin @ ''/health'')"

definition net_samples :: "(real \<times> int option \<times> real) list \<Rightarrow> real list" where
  "net_samples xs = map (\<lambda>(t0, _, t1). (t1 - t0) * 1000) (filter (\<lambda>(_, st, _). st = Some 200) xs)"

definition measure_net_rtt :: "np_stats \<Rightarrow> string \<Rightarrow> string \<Rightarrow> (real \<times> int option \<times> real) list \<Rightarrow> net_probe" where
  "measure_net_rtt np origin path xs =
     (let samples = net_samples xs; ok = (\<lambda>x. if samples = [] then None else Some x) in
      \<lparr>np_url = probe_url_for origin path, np_n_ok = length samples, np_p50 = ok (st_percentile np samples 50),
       np_p95 = ok (st_percentile np samples 95), np_mean = ok (st_mean np samples), np_std = ok (st_std np samples)\<rparr>)"
section \<open>Rows of a cell\<close>

text \<open>A line of the file: blank and malformed lines are skipped.\<close>

definition row_of_line :: "string \<Rightarrow> pyval option res" where
  "row_of_line line =
     (let l = py_strip line in
      if l = [] then Inr None
      else (case json_loads l of
              Inr v \<Rightarrow> Inr (Some v)
            | Inl e \<Rightarrow> if e = json_error then Inr None else Inl e))"

definition add_cell_key :: "string \<Rightarrow> pyval list \<Rightarrow> pyval list res" where
  "add_cell_key line keys =
     rbind (row_of_line line) (\<lambda>row.
       case row of
         None \<Rightarrow> Inr keys
       | Some r \<Rightarrow>
           rbind (py_get r ''cell'' (PDict [])) (\<lambda>cell.
           rbind (py_get cell ''phase'' PNone) (\<lambda>phase.
             if phase \<noteq> PStr ''measure'' then Inr keys
             else rbind (py_get cell ''cell_key'' PNone) (\<lambda>key.
               if \<not> py_truthy key then Inr keys
               else if \<not> hashable key then Inl (TypeError ''unhashable type'')
               else Inr (List.insert key keys)))))"

definition existing_cell_keys :: "string list \<Rightarrow> pyval list res" where
  "existing_cell_keys raw = for_res add_cell_key raw []"

definition cell_row :: "string \<Rightarrow> string \<Rightarrow> pyval option res" where
  "cell_row key line =
     rbind (row_of_line line) (\<lambda>row.
       case row of
         None \<Rightarrow> Inr None
       | Some r \<Rightarrow>
           rbind (py_get r ''cell'' (PDict [])) (\<lambda>cell.
           rbind (py_get cell ''cell_key'' PNone) (\<lambda>k.
             if k \<noteq> PStr key then Inr None
             else rbind (py_get cell ''phase'' PNone) (\<lambda>phase.
               Inr (if phase = PStr ''measure'' then Some r else None)))))"

definition read_cell_rows :: "string list \<Rightarrow> string \<Rightarrow> pyval list res" where
  "read_cell_rows raw key = rbind (map_res (cell_row key) raw) (\<lambda>rs. Inr (List.map_filter id rs))"

section \<open>The summary of a cell\<close>

definition client_item :: "string \<Rightarrow> pyval \<Rightarrow> pyval res" where
  "client_item k r = rbind (py_item r ''client'') (\<lambda>c. py_item c k)"

definition pct :: "np_stats \<Rightarrow> real list \<Rightarrow> real \<Rightarrow> pyval" where
  "pct np xs q = (if xs = [] then PNone else PFloat (st_percentile np xs q))"

definition row_succeeded :: "pyval \<Rightarrow> bool res" where
  "row_succeeded r = rbind (client_item ''status'' r) (\<lambda>s. Inr (s = PInt 200))"

definition stages_of :: "pyval \<Rightarrow> pyval pydict res" where
  "stages_of r = rbind (py_get r ''stages_ms'' (PDict [])) py_items"

definition stage_mean :: "np_stats \<Rightarrow> pyval pydict list \<Rightarrow> string \<Rightarrow> (string \<times> pyval) res" where
  "stage_mean np stages k =
     rbind (map_res py_num (map (\<lambda>d. dict_get_default d k (PFloat 0)) (filter (\<lambda>d. dict_has d k) stages))) (\<lambda>vals.
       Inr (k @ ''_mean_ms'', PFloat (st_mean np vals)))"

text \<open>Later entries of a dictionary display replace earlier ones.\<close>

definition dict_join :: "pyval pydict \<Rightarrow> pyval pydict \<Rightarrow> pyval pydict" where
  "dict_join d e = foldl (\<lambda>acc (k, v). dict_set k v acc) d e"

definition summarize_cell :: "np_stats \<Rightarrow> pyval list \<Rightarrow> pyval pydict \<Rightarrow> pyval pydict res" where
  "summarize_cell np rows cell_meta =
     rbind (map_res (\<lambda>r. rbind (row_succeeded r) (\<lambda>b. Inr (b, r))) rows) (\<lambda>tagged.
       let ok = map snd (filter fst tagged); n_total = length rows; n_ok = length ok in
       rbind (map_res (client_item ''ttft_ms'') ok) (\<lambda>tv.
       rbind (map_res py_num (filter (\<lambda>v. v \<noteq> PNone) tv)) (\<lambda>ttfts.
       rbind (map_res (\<lambda>r. rbind (client_item ''total_ms'' r) py_num) ok) (\<lambda>totals.
       rbind (map_res stages_of ok) (\<lambda>stages.
       rbind (map_res (stage_mean np stages) (remdups (concat (map (map fst) stages)))) (\<lambda>means.
         Inr (dict_join (dict_join cell_meta
           [(''n_total'', PInt (int n_total)), (''n_ok'', PInt (int n_ok)),
            (''error_rate'', PFloat (if n_total = 0 then 0 else of_nat (n_total - n_ok) / of_nat n_total)),
            (''ttft_p50_ms'', pct np ttfts 50), (''ttft_p95_ms'', pct np ttfts 95), (''ttft_p99_ms'', pct np ttfts 99),
            (''total_p50_ms'', pct np totals 50), (''total_p95_ms'', pct np totals 95), (''total_p99_ms'', pct np totals 99)])
           means)))))))"

text \<open>\<open>_write_cells_csv\<close>: the columns, sorted, and the rows; nothing without rows.\<close>

definition cells_csv :: "pyval pydict list \<Rightarrow> (string list \<times> pyval pydict list) option" where
  "cells_csv rows = (if rows = [] then None else Some (sort (remdups (concat (map (map fst) rows))), rows))"

section \<open>Measuring a cell\<close>

definition url_for_path :: "string \<Rightarrow> string \<Rightarrow> worker_state \<Rightarrow> string res" where
  "url_for_path path head_url st =
     (if path = ''otela'' then Inr (rstrip_slash head_url @ ''/v1/service/llm/v1/chat/completions'')
      else if path = ''direct'' then Inr (''http://'' @ ws_node st @ '':'' @ str_int (ws_sglang_port st) @ ''/v1/chat/completions'')
      else Inl (ValueError ''unknown path''))"

text \<open>What the requests of a cell draw and meet, and the order in which the requests of an open loop end.\<close>

record cell_env =
  ce_warm :: "nat \<Rightarrow> bench_draw"
  ce_draws :: "nat \<Rightarrow> bench_draw"
  ce_warm_gap :: "nat \<Rightarrow> real"
  ce_gap :: "nat \<Rightarrow> real"
  ce_order :: "pyval list \<Rightarrow> pyval list"
  ce_samples :: "(real \<times> int option \<times> real) list"
  ce_origin :: "string \<times> string"

definition never_ends :: py_exn where
  "never_ends = OtherException ''schedule does not end''"

definition bench_schedule :: "(nat \<Rightarrow> real) \<Rightarrow> real \<Rightarrow> real \<Rightarrow> real list res" where
  "bench_schedule gap rps duration = (case poisson_schedule gap rps duration of None \<Rightarrow> Inl never_ends | Some ts \<Rightarrow> Inr ts)"

definition with_phase :: "pyval pydict \<Rightarrow> string \<Rightarrow> pyval pydict" where
  "with_phase meta phase = dict_set ''phase'' (PStr phase) meta"

text \<open>\<open>_run_cell\<close>: the rows it appends; the rows of the warm-up are deleted.\<close>

definition run_cell ::
  "(pyval \<Rightarrow> string) \<Rightarrow> string \<Rightarrow> prompt list \<Rightarrow> real \<Rightarrow> real \<Rightarrow> int \<Rightarrow> pyval \<Rightarrow> pyval pydict \<Rightarrow> cell_env \<Rightarrow> pyval list res" where
  "run_cell other model prompts warmup_s duration_s closed_n rps meta env =
     rbind (py_num rps) (\<lambda>r.
       if r = 0 then
         rbind (fire_closed_loop other model (with_phase meta ''warmup'') prompts (ce_warm env) 10) (\<lambda>_.
         rbind (fire_closed_loop other model (with_phase meta ''measure'') prompts (ce_draws env) closed_n) (\<lambda>(rows, _). Inr rows))
       else
         rbind (bench_schedule (ce_warm_gap env) r warmup_s) (\<lambda>warm.
         rbind (fire_open_loop other model (with_phase meta ''warmup'') prompts (ce_warm env) warm) (\<lambda>_.
         rbind (bench_schedule (ce_gap env) r duration_s) (\<lambda>arrivals.
         rbind (fire_open_loop other model (with_phase meta ''measure'') prompts (ce_draws env) arrivals) (\<lambda>(rows, _).
           Inr (ce_order env rows))))))"

section \<open>The sweep\<close>

record 'w over_state =
  os_raw :: "string list"
  os_cells :: "pyval pydict list"
  os_workers :: "worker_state list"
  os_world :: 'w

definition on_deploy :: "('w, 'a) io \<Rightarrow> ('w over_state, 'a) io" where
  "on_deploy m s = (case m (os_world s) of (r, w) \<Rightarrow> (r, s\<lparr>os_world := w\<rparr>))"

definition append_rows :: "(real \<Rightarrow> string) \<Rightarrow> pyval list \<Rightarrow> ('w over_state, unit) io" where
  "append_rows fl rows s = (Inr (), s\<lparr>os_raw := os_raw s @ map (json_dumps fl '', '' '': '') rows\<rparr>)"

definition summarize_into :: "np_stats \<Rightarrow> string \<Rightarrow> pyval pydict \<Rightarrow> ('w over_state, unit) io" where
  "summarize_into np key meta s =
     (case rbind (read_cell_rows (os_raw s) key) (\<lambda>rows. summarize_cell np rows meta) of
        Inl e \<Rightarrow> (Inl e, s)
      | Inr c \<Rightarrow> (Inr (), s\<lparr>os_cells := os_cells s @ [c]\<rparr>))"

definition note_worker :: "worker_state \<Rightarrow> ('w over_state, unit) io" where
  "note_worker st s = (Inr (), s\<lparr>os_workers := os_workers s @ [st]\<rparr>)"

type_synonym grid_point = "pyval \<times> string \<times> int"

definition cell_key :: "(pyval \<Rightarrow> string) \<Rightarrow> string \<Rightarrow> grid_point \<Rightarrow> string" where
  "cell_key other model g =
     (case g of (rps, path, rep) \<Rightarrow> safe_name model @ ''-rps'' @ py_str_val other rps @ ''-'' @ path @ ''-rep'' @ str_int rep)"

definition cell_meta :: "(pyval \<Rightarrow> string) \<Rightarrow> string \<Rightarrow> grid_point \<Rightarrow> pyval pydict" where
  "cell_meta other model g =
     (case g of (rps, path, rep) \<Rightarrow>
        [(''model'', PStr model), (''rps'', rps), (''path'', PStr path), (''rep'', PInt rep), (''cell_key'', PStr (cell_key other model g))])"

text \<open>The points of the grid, in the order of the loops, and the prompts that the configuration asks for.\<close>

definition grid_points :: "pyval list \<Rightarrow> string list \<Rightarrow> int \<Rightarrow> grid_point list" where
  "grid_points rates paths repetitions = List.product rates (List.product paths [1 .. repetitions])"

definition load_prompts :: "(pyval \<Rightarrow> string) \<Rightarrow> pyval \<Rightarrow> pyval \<Rightarrow> prompt list res" where
  "load_prompts other sharegpt cfg =
     rbind (py_get cfg ''workload'' PNone) (\<lambda>w0.
       let w = py_or w0 (PDict []) in
       rbind (py_get w ''kind'' PNone) (\<lambda>kind.
         if kind = PStr ''fixed'' then
           rbind (rbind (py_get w ''input_tokens'' (PInt 256)) py_int_val) (\<lambda>i.
           rbind (rbind (py_get w ''output_tokens'' (PInt 128)) py_int_val) (\<lambda>n. Inr (fixed_prompt i n)))
         else
           rbind (load_sharegpt other 512 128 sharegpt) (\<lambda>ps.
             if ps = [] then Inl (RuntimeError ''no prompts loaded'') else Inr ps)))"

text \<open>The statistics of a probe in the cell; \<open>nan\<close> is the value that is not a number.\<close>

definition probe_meta :: "pyval \<Rightarrow> net_probe \<Rightarrow> pyval pydict" where
  "probe_meta nan p =
     (let val = (\<lambda>x. case x of None \<Rightarrow> nan | Some r \<Rightarrow> PFloat r) in
      [(''client_net_p50_ms'', val (np_p50 p)), (''client_net_p95_ms'', val (np_p95 p)), (''client_net_mean_ms'', val (np_mean p)),
       (''client_net_std_ms'', val (np_std p)), (''client_net_n_ok'', PInt (int (np_n_ok p))), (''client_net_probe_url'', PStr (np_url p))])"

record 's over_setup =
  ov_polls :: nat
  ov_other :: "pyval \<Rightarrow> string"
  ov_fl :: "real \<Rightarrow> string"
  ov_nan :: pyval
  ov_np :: np_stats
  ov_api :: "'s deploy_api"
  ov_env :: "string \<Rightarrow> cell_env"
  ov_script :: string
  ov_state_dir :: string
  ov_head_url :: string
  ov_run_id :: string
  ov_cfg :: pyval
  ov_prompts :: "prompt list"
  ov_grid :: "grid_point list"
  ov_warmup_s :: real
  ov_duration_s :: real
  ov_closed_n :: int

definition sweep_cell :: "'w over_setup \<Rightarrow> pyval list \<Rightarrow> string \<Rightarrow> worker_state \<Rightarrow> grid_point \<Rightarrow> ('w over_state, unit) io" where
  "sweep_cell ov done_keys model st g =
     (let key = cell_key (ov_other ov) model g; meta = cell_meta (ov_other ov) model g; env = ov_env ov key in
      io_bind (io_res (url_for_path (fst (snd g)) (ov_head_url ov) st)) (\<lambda>url.
        if PStr key \<in> set done_keys then summarize_into (ov_np ov) key meta
        else
          let probe = measure_net_rtt (ov_np ov) (fst (ce_origin env)) (snd (ce_origin env)) (ce_samples env);
              meta' = dict_join meta (probe_meta (ov_nan ov) probe)
          in io_bind (io_res (run_cell (ov_other ov) model (ov_prompts ov) (ov_warmup_s ov) (ov_duration_s ov) (ov_closed_n ov)
                        (fst g) meta' env)) (\<lambda>rows.
             io_bind (append_rows (ov_fl ov) rows) (\<lambda>_. summarize_into (ov_np ov) key meta'))))"

definition sweep_model :: "'w over_setup \<Rightarrow> pyval list \<Rightarrow> nat \<Rightarrow> nat \<times> string \<times> pyval \<Rightarrow> ('w over_state, unit) io" where
  "sweep_model ov done_keys n_models im =
     (case im of (i, model, model_cfg) \<Rightarrow>
        if list_all (\<lambda>g. PStr (cell_key (ov_other ov) model g) \<in> set done_keys) (ov_grid ov) then io_return ()
        else
          io_bind (on_deploy (ensure_worker (ov_polls ov) (ov_other ov) (ov_api ov) (ov_script ov) (ov_state_dir ov) (ov_head_url ov)
                     (ov_cfg ov) model_cfg model (ov_run_id ov))) (\<lambda>st.
          io_bind (note_worker st) (\<lambda>_.
          io_bind (io_for (sweep_cell ov done_keys model st) (ov_grid ov)) (\<lambda>_.
            if i + 1 < n_models then on_deploy (da_scancel (ov_api ov) (ws_job_id st)) else io_return ()))))"

text \<open>The whole sweep: the table it writes.\<close>

definition run_sweep :: "'w over_setup \<Rightarrow> (string \<times> pyval) list \<Rightarrow> ('w over_state, (string list \<times> pyval pydict list) option) io" where
  "run_sweep ov models s =
     io_bind (io_res (existing_cell_keys (os_raw s))) (\<lambda>done_keys.
     io_bind (io_for (sweep_model ov done_keys (length models)) (enumerate 0 models)) (\<lambda>_.
       (\<lambda>s'. (Inr (cells_csv (os_cells s')), s')))) s"
section \<open>A sweep measures what is missing\<close>

definition row_key :: "pyval \<Rightarrow> pyval" where
  "row_key r =
     (case rbind (py_get r ''cell'' (PDict [])) (\<lambda>c. py_get c ''cell_key'' PNone) of Inr v \<Rightarrow> v | Inl _ \<Rightarrow> PNone)"

definition key_of :: "pyval pydict \<Rightarrow> pyval" where
  "key_of d = dict_get_default d ''cell_key'' PNone"

lemma row_key_request: "row_key (request_row meta r) = key_of meta"
  by (simp add: row_key_def request_row_def key_of_def dict_get_default_def)

lemma key_of_set [simp]: "key_of (AList.update k v d) = (if k = ''cell_key'' then v else key_of d)"
  by (simp add: key_of_def dict_get_default_def update_conv')

lemma fired_rows:
  assumes "for_res (\<lambda>i rows. rbind (fire_and_record other model meta prompts i (draws i)) (\<lambda>row. Inr (rows @ [row]))) is [] = Inr rows"
  shows "\<forall>r \<in> set rows. row_key r = key_of meta"
  by (rule for_res_invariant [OF assms]) (auto simp: fire_and_record_def res_simps row_key_request)

lemma closed_rows: "fire_closed_loop other model meta prompts draws n = Inr (rows, k) \<Longrightarrow> \<forall>r \<in> set rows. row_key r = key_of meta"
  by (auto simp: fire_closed_loop_def res_simps split: if_splits dest: fired_rows)

lemma open_rows: "fire_open_loop other model meta prompts draws ts = Inr (rows, k) \<Longrightarrow> \<forall>r \<in> set rows. row_key r = key_of meta"
  by (auto simp: fire_open_loop_def res_simps dest: fired_rows)

lemma run_cell_rows:
  assumes "run_cell other model prompts warmup_s duration_s closed_n rps meta env = Inr rows" "\<And>xs. set (ce_order env xs) = set xs"
  shows "\<forall>r \<in> set rows. row_key r = key_of meta"
proof -
  obtain r where r: "py_num rps = Inr r" using assms(1) by (auto simp: run_cell_def res_simps)
  show ?thesis
  proof (cases "r = 0")
    case True
    then obtain k where "fire_closed_loop other model (with_phase meta ''measure'') prompts (ce_draws env) closed_n = Inr (rows, k)"
      using assms(1) r by (auto simp: run_cell_def res_simps)
    from closed_rows [OF this] show ?thesis by (simp add: with_phase_def)
  next
    case False
    then obtain ts rows0 k where "fire_open_loop other model (with_phase meta ''measure'') prompts (ce_draws env) ts = Inr (rows0, k)"
        "rows = ce_order env rows0"
      using assms(1) r by (auto simp: run_cell_def res_simps)
    with open_rows [OF this(1)] show ?thesis by (simp add: with_phase_def assms(2))
  qed
qed

lemma key_of_join: "\<forall>kv \<in> set e. fst kv \<noteq> ''cell_key'' \<Longrightarrow> key_of (dict_join d e) = key_of d"
  unfolding dict_join_def by (induction e arbitrary: d) auto

lemma key_of_meta: "key_of (cell_meta other model g) = PStr (cell_key other model g)"
  by (simp add: key_of_def cell_meta_def dict_get_default_def split: prod.split)

lemma key_of_probe: "key_of (dict_join d (probe_meta nan p)) = key_of d"
  by (rule key_of_join) (simp add: probe_meta_def Let_def)

lemma mean_key: "k @ ''_mean_ms'' \<noteq> ''cell_key''"
proof
  assume "k @ ''_mean_ms'' = ''cell_key''"
  then have "last (k @ ''_mean_ms'') = last ''cell_key''" by simp
  then show False by simp
qed

lemma key_of_summary:
  assumes "summarize_cell np rows meta = Inr c"
  shows "key_of c = key_of meta"
proof -
  obtain stats means stages ks where c: "c = dict_join (dict_join meta stats) means"
      "\<forall>kv \<in> set stats. fst kv \<noteq> ''cell_key''" "map_res (stage_mean np stages) ks = Inr means"
    using assms unfolding summarize_cell_def by (fastforce simp: res_simps Let_def)
  have "\<forall>kv \<in> set means. fst kv \<noteq> ''cell_key''"
  proof
    fix kv assume "kv \<in> set means"
    then obtain k where "stage_mean np stages k = Inr kv"
      using c(3) by (induction ks arbitrary: means) (auto simp: res_simps)
    then show "fst kv \<noteq> ''cell_key''" using mean_key by (auto simp: stage_mean_def res_simps)
  qed
  then show ?thesis unfolding c(1) using c(2) by (simp add: key_of_join)
qed

lemma summarize_into_keys:
  assumes "summarize_into np key meta s = (Inr (), s')"
  shows "os_raw s' = os_raw s \<and> (\<exists>c. os_cells s' = os_cells s @ [c] \<and> key_of c = key_of meta)"
  using assms key_of_summary by (auto simp: summarize_into_def res_simps split: sum.splits)

text \<open>One cell: it appends rows of its own, and none if it was measured before; and one summary.\<close>

definition adds :: "'w over_setup \<Rightarrow> 'w over_state \<Rightarrow> 'w over_state \<Rightarrow> pyval list \<Rightarrow> pyval list \<Rightarrow> bool" where
  "adds ov s s' rows keys \<longleftrightarrow>
     os_raw s' = os_raw s @ map (json_dumps (ov_fl ov) '', '' '': '') rows \<and> map key_of (os_cells s') = map key_of (os_cells s) @ keys"

lemma adds_trans: "adds ov s s' rows keys \<Longrightarrow> adds ov s' s'' rows' keys' \<Longrightarrow> adds ov s s'' (rows @ rows') (keys @ keys')"
  by (simp add: adds_def)

lemma adds_refl: "adds ov s s [] []"
  by (simp add: adds_def)

lemma sweep_cell_adds:
  assumes "sweep_cell ov done_keys model st g s = (Inr (), s')" "\<And>key xs. set (ce_order (ov_env ov key) xs) = set xs"
  shows "\<exists>rows. adds ov s s' rows [PStr (cell_key (ov_other ov) model g)]
    \<and> (\<forall>r \<in> set rows. row_key r = PStr (cell_key (ov_other ov) model g) \<and> row_key r \<notin> set done_keys)"
proof -
  let ?key = "cell_key (ov_other ov) model g" and ?meta = "cell_meta (ov_other ov) model g"
  show ?thesis
  proof (cases "PStr ?key \<in> set done_keys")
    case True
    then have "summarize_into (ov_np ov) ?key ?meta s = (Inr (), s')"
      using assms(1) by (auto simp: sweep_cell_def io_bind_eq Let_def)
    from summarize_into_keys [OF this] show ?thesis
      by (intro exI [of _ "[]"]) (auto simp: adds_def key_of_meta)
  next
    case False
    define meta where "meta = dict_join ?meta (probe_meta (ov_nan ov) (measure_net_rtt (ov_np ov)
        (fst (ce_origin (ov_env ov ?key))) (snd (ce_origin (ov_env ov ?key))) (ce_samples (ov_env ov ?key))))"
    have key: "key_of meta = PStr ?key" by (simp add: meta_def key_of_probe key_of_meta)
    obtain rows s1 where "Inr rows =
          run_cell (ov_other ov) model (ov_prompts ov) (ov_warmup_s ov) (ov_duration_s ov) (ov_closed_n ov) (fst g) meta (ov_env ov ?key)"
        "append_rows (ov_fl ov) rows s = (Inr (), s1)" "summarize_into (ov_np ov) ?key meta s1 = (Inr (), s')"
      using assms(1) False unfolding sweep_cell_def Let_def meta_def [symmetric] by (auto simp: io_bind_eq)
    note m = key this(1) [symmetric] this(2,3)
    have rows: "\<forall>r \<in> set rows. row_key r = PStr ?key" using run_cell_rows [OF m(2) assms(2)] m(1) by simp
    have "adds ov s s' rows [PStr ?key]"
      using summarize_into_keys [OF m(4)] m(1,3) by (auto simp: adds_def append_rows_def)
    then show ?thesis using rows False by auto
  qed
qed

lemma sweep_grid_adds:
  assumes "io_for (sweep_cell ov done_keys model st) gs s = (Inr us, s')" "\<And>key xs. set (ce_order (ov_env ov key) xs) = set xs"
  shows "\<exists>rows. adds ov s s' rows (map (\<lambda>g. PStr (cell_key (ov_other ov) model g)) gs)
    \<and> (\<forall>r \<in> set rows. (\<exists>g \<in> set gs. row_key r = PStr (cell_key (ov_other ov) model g)) \<and> row_key r \<notin> set done_keys)"
  using assms(1)
proof (induction gs arbitrary: s us)
  case Nil
  then show ?case by (intro exI [of _ "[]"]) (simp add: adds_refl)
next
  case (Cons g gs)
  then obtain s1 us' where s1: "sweep_cell ov done_keys model st g s = (Inr (), s1)" "io_for (sweep_cell ov done_keys model st) gs s1 = (Inr us', s')"
    by (auto simp: io_bind_eq)
  obtain rows where r: "adds ov s s1 rows [PStr (cell_key (ov_other ov) model g)]"
      "\<forall>r \<in> set rows. row_key r = PStr (cell_key (ov_other ov) model g) \<and> row_key r \<notin> set done_keys"
    using sweep_cell_adds [OF s1(1) assms(2)] by blast
  obtain rows' where r': "adds ov s1 s' rows' (map (\<lambda>g. PStr (cell_key (ov_other ov) model g)) gs)"
      "\<forall>r \<in> set rows'. (\<exists>g \<in> set gs. row_key r = PStr (cell_key (ov_other ov) model g)) \<and> row_key r \<notin> set done_keys"
    using Cons.IH [OF s1(2)] by blast
  show ?case using adds_trans [OF r(1) r'(1)] r(2) r'(2) by (intro exI [of _ "rows @ rows'"]) auto
qed
definition measured :: "'w over_setup \<Rightarrow> pyval list \<Rightarrow> string \<Rightarrow> bool" where
  "measured ov done_keys model \<longleftrightarrow> (\<forall>g \<in> set (ov_grid ov). PStr (cell_key (ov_other ov) model g) \<in> set done_keys)"

definition model_keys :: "'w over_setup \<Rightarrow> string \<Rightarrow> pyval list" where
  "model_keys ov model = map (\<lambda>g. PStr (cell_key (ov_other ov) model g)) (ov_grid ov)"

lemma on_deploy_adds: "on_deploy m s = (r, s') \<Longrightarrow> adds ov s s' [] []"
  by (auto simp: on_deploy_def adds_def split: prod.splits)

lemma sweep_model_adds:
  assumes "sweep_model ov done_keys n (i, model, mc) s = (Inr u, s')" "\<And>key xs. set (ce_order (ov_env ov key) xs) = set xs"
  shows "\<exists>rows. adds ov s s' rows (if measured ov done_keys model then [] else model_keys ov model)
    \<and> (\<forall>r \<in> set rows. row_key r \<in> set (model_keys ov model) \<and> row_key r \<notin> set done_keys)"
proof (cases "measured ov done_keys model")
  case True
  then have "s' = s" using assms(1) by (simp add: sweep_model_def measured_def list_all_iff)
  then show ?thesis using True by (intro exI [of _ "[]"]) (simp add: adds_refl)
next
  case False
  define ew where "ew = on_deploy (ensure_worker (ov_polls ov) (ov_other ov) (ov_api ov) (ov_script ov) (ov_state_dir ov) (ov_head_url ov)
      (ov_cfg ov) mc model (ov_run_id ov))"
  obtain st s1 s2 s3 us where w: "ew s = (Inr st, s1)" "note_worker st s1 = (Inr (), s2)"
      "io_for (sweep_cell ov done_keys model st) (ov_grid ov) s2 = (Inr us, s3)"
      "(if i + 1 < n then on_deploy (da_scancel (ov_api ov) (ws_job_id st)) else io_return ()) s3 = (Inr u, s')"
  proof -
    have "\<not> list_all (\<lambda>g. PStr (cell_key (ov_other ov) model g) \<in> set done_keys) (ov_grid ov)"
      using False by (simp add: measured_def list_all_iff)
    then have "io_bind ew (\<lambda>st. io_bind (note_worker st) (\<lambda>_. io_bind (io_for (sweep_cell ov done_keys model st) (ov_grid ov)) (\<lambda>_.
        if i + 1 < n then on_deploy (da_scancel (ov_api ov) (ws_job_id st)) else io_return ()))) s = (Inr u, s')"
      using assms(1) unfolding sweep_model_def prod.case ew_def by simp
    then show ?thesis using that by (auto simp: io_bind_eq)
  qed
  have a1: "adds ov s s1 [] []" using w(1) on_deploy_adds unfolding ew_def by blast
  have a2: "adds ov s1 s2 [] []" using w(2) by (auto simp: note_worker_def adds_def)
  obtain rows where r: "adds ov s2 s3 rows (model_keys ov model)"
      "\<forall>r \<in> set rows. (\<exists>g \<in> set (ov_grid ov). row_key r = PStr (cell_key (ov_other ov) model g)) \<and> row_key r \<notin> set done_keys"
    using sweep_grid_adds [OF w(3) assms(2)] unfolding model_keys_def by blast
  have a3: "adds ov s3 s' [] []" using w(4) on_deploy_adds by (auto simp: adds_refl split: if_splits)
  have "adds ov s s' rows (model_keys ov model)"
    using adds_trans [OF adds_trans [OF adds_trans [OF a1 a2] r(1)] a3] by simp
  moreover have "\<forall>r \<in> set rows. row_key r \<in> set (model_keys ov model) \<and> row_key r \<notin> set done_keys"
    using r(2) by (auto simp: model_keys_def)
  ultimately show ?thesis using False by auto
qed

lemma sweep_models_add:
  assumes "io_for (sweep_model ov done_keys n) (enumerate k models) s = (Inr us, s')" "\<And>key xs. set (ce_order (ov_env ov key) xs) = set xs"
  shows "\<exists>rows. adds ov s s' rows (concat (map (model_keys ov) (filter (\<lambda>m. \<not> measured ov done_keys m) (map fst models))))
    \<and> (\<forall>r \<in> set rows. (\<exists>m \<in> set (map fst models). row_key r \<in> set (model_keys ov m)) \<and> row_key r \<notin> set done_keys)"
  using assms(1)
proof (induction models arbitrary: k s us)
  case Nil
  then show ?case by (intro exI [of _ "[]"]) (simp add: adds_refl)
next
  case (Cons m ms)
  obtain model mc where m: "m = (model, mc)" by (cases m)
  obtain s1 u us' where s1: "sweep_model ov done_keys n (k, model, mc) s = (Inr u, s1)"
      "io_for (sweep_model ov done_keys n) (enumerate (Suc k) ms) s1 = (Inr us', s')"
    using Cons.prems by (auto simp: io_bind_eq m)
  obtain rows where r: "adds ov s s1 rows (if measured ov done_keys model then [] else model_keys ov model)"
      "\<forall>r \<in> set rows. row_key r \<in> set (model_keys ov model) \<and> row_key r \<notin> set done_keys"
    using sweep_model_adds [OF s1(1) assms(2)] by blast
  obtain rows' where r': "adds ov s1 s' rows' (concat (map (model_keys ov) (filter (\<lambda>m. \<not> measured ov done_keys m) (map fst ms))))"
      "\<forall>r \<in> set rows'. (\<exists>m \<in> set (map fst ms). row_key r \<in> set (model_keys ov m)) \<and> row_key r \<notin> set done_keys"
    using Cons.IH [OF s1(2)] by blast
  show ?case using adds_trans [OF r(1) r'(1)] r(2) r'(2) by (intro exI [of _ "rows @ rows'"]) (auto simp: m)
qed


text \<open>A sweep that is started again after everything was measured writes no table.\<close>

lemma measured_models_unsummarised:
  assumes "existing_cell_keys (os_raw s) = Inr done_keys" "\<forall>m \<in> set (map fst models). measured ov done_keys m" "os_cells s = []"
  shows "run_sweep ov models s = (Inr None, s)"
proof -
  have one: "sweep_model ov done_keys n (i, m) = io_return ()" if "m \<in> set models" for n i m
    using assms(2) that by (cases m) (auto simp: sweep_model_def measured_def list_all_iff)
  have "\<exists>us. io_for (sweep_model ov done_keys n) (enumerate k ms) s = (Inr us, s)" if "set ms \<subseteq> set models" for n k ms
    using that
  proof (induction ms arbitrary: k)
    case (Cons m ms)
    then obtain us where us: "io_for (sweep_model ov done_keys n) (enumerate (Suc k) ms) s = (Inr us, s)" by auto
    have "sweep_model ov done_keys n (k, m) = io_return ()" using one Cons.prems by simp
    then have "io_for (sweep_model ov done_keys n) (enumerate k (m # ms)) s = (Inr (() # us), s)"
      using us by (simp add: io_bind_def io_return_def)
    then show ?case by blast
  qed (simp add: io_return_def)
  then show ?thesis using assms(1,3) by (auto simp: run_sweep_def io_bind_eq cells_csv_def)
qed
text \<open>
  A sweep of one cell from scratch: the worker is up, and no requests are asked for after the warm-up.
\<close>

lemma closed_loop_returns:
  assumes "prompts \<noteq> []" "dict_get meta ''cell_key'' = Inr k"
  shows "\<exists>rows. fire_closed_loop other model meta prompts draws n = Inr (rows, if n \<le> 0 then 0 else n)"
proof -
  have "\<exists>rows. for_res (\<lambda>i rows. rbind (fire_and_record other model meta prompts i (draws i)) (\<lambda>row. Inr (rows @ [row])))
      [0 ..< nat n] [] = Inr rows \<and> True"
    by (rule for_res_total) (simp_all add: fire_and_record_def choose_prompt_def bench_request_id_def assms)
  then show ?thesis by (auto simp: fire_closed_loop_def)
qed

definition toy_doc :: pyval where
  "toy_doc = PDict [(''node'', PStr ''h''), (''sglang_port'', PInt 1), (''otela_port'', PInt 2), (''job_id'', PStr ''3''),
     (''model'', PStr ''m''), (''run_id'', PStr ''r''),
     (''peer'', PDict [(''service'', PList [PDict [(''identity_group'', PList [PStr ''model=m''])]])])]"

definition toy_text :: string where
  "toy_text = json_dumps (\<lambda>_. []) '','' '':'' toy_doc"

lemma toy_loads: "json_loads toy_text = Inr toy_doc"
  unfolding toy_text_def by (rule json_roundtrip [of toy_doc "[]" "[]"]) (simp_all add: toy_doc_def)

definition toy_api :: "unit deploy_api" where
  "toy_api = \<lparr>da_read = (\<lambda>_. io_return (Some toy_text)), da_sbatch = (\<lambda>_. io_return []), da_get = (\<lambda>_. io_return (Got 200 toy_text)),
     da_clock = io_return 0, da_nap = io_return (), da_scancel = (\<lambda>_. io_return ())\<rparr>"

definition toy_setup :: "unit over_setup" where
  "toy_setup = \<lparr>ov_polls = 1, ov_other = (\<lambda>_. []), ov_fl = (\<lambda>_. []), ov_nan = PNone,
     ov_np = \<lparr>st_percentile = (\<lambda>_ _. 0), st_mean = (\<lambda>_. 0), st_std = (\<lambda>_. 0)\<rparr>, ov_api = toy_api,
     ov_env = (\<lambda>_. \<lparr>ce_warm = (\<lambda>_. \<lparr>bd_pick = (\<lambda>_. 0), bd_hex = [], bd_answer = (\<lambda>_ _.
         \<lparr>ox_started = 0, ox_unix = 0, ox_reply = ConnectFailed [], ox_ended = 1\<rparr>)\<rparr>),
       ce_draws = (\<lambda>_. \<lparr>bd_pick = (\<lambda>_. 0), bd_hex = [], bd_answer = (\<lambda>_ _.
         \<lparr>ox_started = 0, ox_unix = 0, ox_reply = ConnectFailed [], ox_ended = 1\<rparr>)\<rparr>),
       ce_warm_gap = (\<lambda>_. 1), ce_gap = (\<lambda>_. 1), ce_order = rev, ce_samples = [], ce_origin = ([], [])\<rparr>),
     ov_script = [], ov_state_dir = [], ov_head_url = [], ov_run_id = ''r'', ov_cfg = PNone,
     ov_prompts = [\<lparr>pm_id = [], pm_prompt = [], pm_max_output_tokens = 1\<rparr>], ov_grid = [(PInt 0, ''direct'', 1)],
     ov_warmup_s = 0, ov_duration_s = 0, ov_closed_n = 0\<rparr>"

lemma toy_worker:
  "ensure_worker 1 (\<lambda>_. []) toy_api [] [] [] PNone mc ''m'' ''r'' () =
     (Inr \<lparr>ws_node = ''h'', ws_sglang_port = 1, ws_otela_port = 2, ws_job_id = ''3'', ws_model = ''m'', ws_run_id = ''r''\<rparr>, ())"
proof -
  have parse: "parse_worker_state (\<lambda>_. []) toy_text =
      Inr \<lparr>ws_node = ''h'', ws_sglang_port = 1, ws_otela_port = 2, ws_job_id = ''3'', ws_model = ''m'', ws_run_id = ''r''\<rparr>"
    unfolding parse_worker_state_def toy_loads
    by (simp add: toy_doc_def str_item_def dict_get_def py_int_val_def py_str_val_def)
  have ready: "is_model_ready_in_dnt toy_doc ''m'' = Inr True"
    by (simp add: is_model_ready_in_dnt_def toy_doc_def offers_identity_def list_or_empty_def py_items_def dict_get_default_def
        py_truthy_def py_list_val_def Let_def)
  have read: "read_worker_state (\<lambda>_. []) toy_api p () = (Inr (Some
      \<lparr>ws_node = ''h'', ws_sglang_port = 1, ws_otela_port = 2, ws_job_id = ''3'', ws_model = ''m'', ws_run_id = ''r''\<rparr>), ())" for p
    by (simp add: read_worker_state_def toy_api_def io_bind_def io_return_def io_res_def parse)
  have direct: "direct_ready toy_api h p () = (Inr (Some ()), ())" for h p
    by (simp add: direct_ready_def toy_api_def io_bind_def io_return_def)
  have dnt: "dnt_ready toy_api u ''m'' () = (Inr (Some ()), ())" for u
    by (simp add: dnt_ready_def toy_api_def io_bind_def io_return_def toy_loads ready)
  have wait: "wait_until 1 toy_api t check () = (Inr x, ())" if "check () = (Inr (Some x), ())" "0 < t" for t x and check :: "(unit, 'a option) io"
    using that by (simp add: wait_until_def timed_poll_def toy_api_def io_bind_def io_return_def)
  have waits: "wait_until 1 toy_api 1800 (direct_ready toy_api h p) () = (Inr (), ())"
      "wait_until 1 toy_api 600 (dnt_ready toy_api u ''m'') () = (Inr (), ())" for h p u
    by (rule wait, rule direct, simp) (rule wait, rule dnt, simp)
  show ?thesis
    by (simp add: ensure_worker_def Let_def io_bind_def io_return_def read waits [unfolded One_nat_def])
qed

lemma toy_run: "\<exists>out s'. run_sweep toy_setup [(''m'', PNone)] \<lparr>os_raw = [], os_cells = [], os_workers = [], os_world = ()\<rparr> = (Inr out, s')"
proof -
  let ?s = "\<lparr>os_raw = [], os_cells = [], os_workers = [], os_world = ()\<rparr>"
  let ?st = "\<lparr>ws_node = ''h'', ws_sglang_port = 1, ws_otela_port = 2, ws_job_id = ''3'', ws_model = ''m'', ws_run_id = ''r''\<rparr>"
  let ?g = "(PInt 0, ''direct'', 1) :: grid_point"
  have key: "dict_get (with_phase (dict_join (cell_meta (\<lambda>_. []) ''m'' ?g) (probe_meta PNone p)) ph) ''cell_key'' =
      Inr (PStr (cell_key (\<lambda>_. []) ''m'' ?g))" for p ph
    by (simp add: with_phase_def dict_join_def cell_meta_def probe_meta_def dict_get_def update_conv' Let_def)
  have rows: "run_cell (\<lambda>_. []) ''m'' (ov_prompts toy_setup) 0 0 0 (PInt 0)
      (dict_join (cell_meta (\<lambda>_. []) ''m'' ?g) (probe_meta PNone p)) env = Inr []" for p env
    using closed_loop_returns [OF _ key, of "ov_prompts toy_setup" "\<lambda>_. []" "''m''" p "''warmup''" "ce_warm env" 10]
    by (auto simp: run_cell_def py_num_def toy_setup_def fire_closed_loop_def [where n_requests = 0])
  have sum: "summarize_cell np [] meta = Inr (dict_join (dict_join meta
      [(''n_total'', PInt 0), (''n_ok'', PInt 0), (''error_rate'', PFloat 0), (''ttft_p50_ms'', PNone), (''ttft_p95_ms'', PNone),
       (''ttft_p99_ms'', PNone), (''total_p50_ms'', PNone), (''total_p95_ms'', PNone), (''total_p99_ms'', PNone)]) [])" for np meta
    by (simp add: summarize_cell_def pct_def Let_def)
  have cell: "\<exists>s'. sweep_cell toy_setup [] ''m'' ?st ?g s = (Inr (), s')" if "os_raw s = []" for s
    using that rows by (simp add: sweep_cell_def toy_setup_def url_for_path_def io_bind_def io_res_def append_rows_def summarize_into_def
        read_cell_rows_def sum Let_def)
  have worker: "on_deploy (ensure_worker 1 (\<lambda>_. []) toy_api [] [] [] PNone PNone ''m'' ''r'') ?s = (Inr ?st, ?s)"
    using toy_worker [of PNone] by (simp add: on_deploy_def)
  obtain s' where s': "sweep_cell toy_setup [] ''m'' ?st ?g (?s\<lparr>os_workers := [?st]\<rparr>) = (Inr (), s')" using cell [of "?s\<lparr>os_workers := [?st]\<rparr>"] by auto
  have fields: "ov_grid toy_setup = [?g]" "ov_polls toy_setup = 1" "ov_other toy_setup = (\<lambda>_. [])" "ov_api toy_setup = toy_api"
      "ov_script toy_setup = []" "ov_state_dir toy_setup = []" "ov_head_url toy_setup = []" "ov_cfg toy_setup = PNone" "ov_run_id toy_setup = ''r''"
    by (simp_all add: toy_setup_def)
  have "sweep_model toy_setup [] 1 (0, ''m'', PNone) ?s = (Inr (), s')"
    using worker s' by (simp add: sweep_model_def fields io_bind_def io_return_def note_worker_def)
  then show ?thesis by (simp add: run_sweep_def existing_cell_keys_def io_bind_def io_res_def io_return_def)
qed


end
