(* ===== verification/Conv_Channel.thy ===== *)
theory Conv_Channel
  imports Json
begin

text \<open>
  The control channel of the convergence benchmark
  (\<open>contrib/benchmark_convergence/benchmark_convergence/protocol.py\<close>): one JSON document per line.

  A stream is the text that has been written to it. \<open>read_messages\<close> is a generator: its model
  gives the documents it yields and the exception that ends it, if any. A frame with bytes outside
  \<open>1..127\<close>, whose encoding \<open>json.loads\<close> would have to guess, gives \<open>OtherException\<close>;
  \<open>write_message\<close> never produces one.
\<close>

section \<open>Framing\<close>

abbreviation newline :: char where
  "newline \<equiv> CHR 0x0A"

definition write_message :: "(real \<Rightarrow> string) \<Rightarrow> pyval \<Rightarrow> string" where
  "write_message fl msg = json_dumps fl '','' '':'' msg @ [newline]"

text \<open>\<open>stream.readline()\<close>: the text up to the first newline, if there is one, and the rest.\<close>

definition read_line :: "string \<Rightarrow> (string \<times> string) option" where
  "read_line s =
     (case dropWhile (\<lambda>c. c \<noteq> newline) s of
        [] \<Rightarrow> None
      | _ # rest \<Rightarrow> Some (takeWhile (\<lambda>c. c \<noteq> newline) s, rest))"

text \<open>A complete line: nothing for a blank one, otherwise its document.\<close>

definition read_frame :: "string \<Rightarrow> pyval option res" where
  "read_frame line =
     (let l = strip_by is_c_space line
      in if l = [] then Inr None
         else if list_all (\<lambda>c. 0 < (of_char c :: nat) \<and> (of_char c :: nat) < 128) l
         then rbind (json_loads l) (\<lambda>v. Inr (Some v))
         else Inl (OtherException ''encoding of the frame''))"

lemma read_line_shorter: "read_line s = Some (l, r) \<Longrightarrow> length r < length s"
  using length_dropWhile_le [of "\<lambda>c. c \<noteq> newline" s]
  by (auto simp: read_line_def split: list.splits)

function read_messages :: "string \<Rightarrow> pyval list \<times> py_exn option" where
  "read_messages s =
     (case read_line s of
        None \<Rightarrow> ([], None)
      | Some (line, rest) \<Rightarrow>
          (case read_frame line of
             Inl e \<Rightarrow> ([], Some e)
           | Inr None \<Rightarrow> read_messages rest
           | Inr (Some v) \<Rightarrow> (let (vs, e) = read_messages rest in (v # vs, e))))"
  by pat_completeness auto
termination
  by (relation "measure length") (auto dest: read_line_shorter)

declare read_messages.simps [simp del]

section \<open>Printed documents fit in a frame\<close>

definition printable_char :: "char \<Rightarrow> bool" where
  "printable_char c \<longleftrightarrow> 32 \<le> (of_char c :: nat) \<and> (of_char c :: nat) \<le> 126"

lemma hex_char_printable: "d < 16 \<Longrightarrow> printable_char (hex_char d)"
  by (auto simp: printable_char_def hex_char_def)

lemma json_escape_printable: "x \<in> set (json_escape c) \<Longrightarrow> printable_char x"
proof -
  assume x: "x \<in> set (json_escape c)"
  define n where "n = (of_char c :: nat)"
  have "n < 256" by (simp add: n_def)
  then have h: "printable_char (hex_char (n div 16))" "printable_char (hex_char (n mod 16))"
    by (auto intro: hex_char_printable)
  have lit: "printable_char CHR 0x5C" "printable_char CHR 0x22" "printable_char CHR ''n''" "printable_char CHR ''r''"
    "printable_char CHR ''t''" "printable_char CHR ''b''" "printable_char CHR ''f''" "printable_char CHR ''u''" "printable_char CHR ''0''"
    by (simp_all add: printable_char_def)
  show ?thesis
  proof (cases "32 \<le> n \<and> n \<le> 126 \<and> c \<noteq> CHR 0x22 \<and> c \<noteq> CHR 0x5C")
    case True
    then have "x = c" using x by (simp add: json_escape_def n_def [symmetric] Let_def)
    then show ?thesis using True by (simp add: printable_char_def n_def)
  next
    case False
    then show ?thesis using x h lit
      by (auto simp: json_escape_def n_def [symmetric] Let_def split: if_splits)
  qed
qed

lemma json_string_printable: "x \<in> set (json_string s) \<Longrightarrow> printable_char x"
  using json_escape_printable by (auto simp: json_string_def printable_char_def)

lemma set_join_with: "set (join_with sep xs) \<subseteq> set sep \<union> (\<Union>x \<in> set xs. set x)"
  by (induction sep xs rule: join_with.induct) auto

lemma digit_printable: "is_digit c \<Longrightarrow> printable_char c"
  by (simp add: is_digit_def printable_char_def)

lemma str_int_printable: "x \<in> set (str_int i) \<Longrightarrow> printable_char x"
  using str_nat_digits digit_printable by (auto simp: str_int_def printable_char_def split: if_splits)

lemma dumps_printable:
  "jsonable v \<Longrightarrow> x \<in> set (json_dumps fl '','' '':'' v) \<Longrightarrow> printable_char x"
proof (induction v arbitrary: x rule: jsonable.induct)
  case (2 xs)
  have "set (join_with '','' (map (json_dumps fl '','' '':'') xs))
    \<subseteq> {CHR '',''} \<union> (\<Union>y \<in> set xs. set (json_dumps fl '','' '':'' y))"
    using set_join_with [of "'',''" "map (json_dumps fl '','' '':'') xs"] by auto
  then consider "x \<in> {CHR ''['', CHR '','', CHR '']''}"
    | y where "y \<in> set xs" "x \<in> set (json_dumps fl '','' '':'' y)" using 2(3) by fastforce
  then show ?case using 2(1,2) by cases (auto simp: printable_char_def)
next
  case (3 d)
  let ?m = "\<lambda>kv. json_string (fst kv) @ CHR '':'' # json_dumps fl '','' '':'' (snd kv)"
  have "set (join_with '','' (map ?m d)) \<subseteq> {CHR '',''} \<union> (\<Union>kv \<in> set d. set (?m kv))"
    using set_join_with [of "'',''" "map ?m d"] by auto
  then consider "x \<in> {CHR ''{'', CHR '','', CHR '':'', CHR ''}''}"
    | kv where "kv \<in> set d" "x \<in> set (json_string (fst kv))"
    | kv where "kv \<in> set d" "x \<in> set (json_dumps fl '','' '':'' (snd kv))" using 3(3) by fastforce
  then show ?case using 3(1,2) json_string_printable by cases (auto simp: printable_char_def)
qed (auto dest: json_string_printable str_int_printable simp: printable_char_def split: if_splits)
section \<open>Round trip\<close>

text \<open>The messages of the protocol are JSON objects.\<close>

definition is_message :: "pyval \<Rightarrow> bool" where
  "is_message v \<longleftrightarrow> jsonable v \<and> (case v of PDict d \<Rightarrow> True | _ \<Rightarrow> False)"

lemma strip_by_outer:
  assumes "\<not> p c" and "\<not> p d"
  shows "strip_by p (c # s @ [d]) = c # s @ [d]"
  using assms by (simp add: strip_by_def)

lemma message_text:
  assumes "is_message v"
  shows "\<exists>s. json_dumps fl '','' '':'' v = CHR ''{'' # s @ [CHR ''}'']"
  using assms by (cases v) (auto simp: is_message_def)

lemma read_frame_dumps:
  assumes "is_message v"
  shows "read_frame (json_dumps fl '','' '':'' v) = Inr (Some v)"
proof -
  obtain s where s: "json_dumps fl '','' '':'' v = CHR ''{'' # s @ [CHR ''}'']"
    using message_text [OF assms] by blast
  have j: "jsonable v" using assms by (simp add: is_message_def)
  have strip: "strip_by is_c_space (json_dumps fl '','' '':'' v) = json_dumps fl '','' '':'' v"
    unfolding s by (rule strip_by_outer) (simp_all add: is_c_space_def)
  have "list_all (\<lambda>c. 0 < (of_char c :: nat) \<and> (of_char c :: nat) < 128) (json_dumps fl '','' '':'' v)"
    using dumps_printable [OF j] by (force simp: list_all_iff printable_char_def)
  moreover have "json_loads (json_dumps fl '','' '':'' v) = Inr v"
    using json_roundtrip [OF j, of "[]" "[]"] by simp
  moreover have "json_dumps fl '','' '':'' v \<noteq> []" by (simp add: s)
  ultimately show ?thesis unfolding read_frame_def Let_def strip by simp
qed

lemma read_line_write:
  assumes "is_message v"
  shows "read_line (write_message fl v @ r) = Some (json_dumps fl '','' '':'' v, r)"
proof -
  have n: "\<And>x. x \<in> set (json_dumps fl '','' '':'' v) \<Longrightarrow> x \<noteq> newline"
    using dumps_printable assms unfolding is_message_def by (force simp: printable_char_def)
  then have "dropWhile (\<lambda>c. c \<noteq> newline) (json_dumps fl '','' '':'' v @ newline # r) = newline # r"
    and "takeWhile (\<lambda>c. c \<noteq> newline) (json_dumps fl '','' '':'' v @ newline # r) = json_dumps fl '','' '':'' v"
    by simp_all
  then show ?thesis by (simp add: read_line_def write_message_def)
qed

lemma read_messages_write:
  assumes "is_message v"
  shows "read_messages (write_message fl v @ r) = (v # fst (read_messages r), snd (read_messages r))"
  using assms
  by (subst read_messages.simps) (simp add: read_line_write read_frame_dumps case_prod_unfold Let_def)

lemma read_messages_partial: "newline \<notin> set r \<Longrightarrow> read_messages r = ([], None)"
proof -
  assume "newline \<notin> set r"
  then have "dropWhile (\<lambda>c. c \<noteq> newline) r = []" by (auto simp: dropWhile_eq_Nil_conv)
  then have "read_line r = None" by (simp only: read_line_def list.case)
  then show ?thesis by (subst read_messages.simps) simp
qed



end
