(* ===== verification/Conv_Bench.thy ===== *)
theory Conv_Bench
  imports Conv_Channel
begin

text \<open>
  The convergence benchmark (\<open>contrib/benchmark_convergence/benchmark_convergence\<close>): the observers of
  \<open>observer.py\<close>, the state of the coordinator and the threads that feed it (\<open>coordinator.py\<close>), and
  the system they form.

  Every task polls the node table of its local server and reports the first time it sees a service;
  the coordinator collects these times. The replies of the servers and the clock readings are
  arguments. A thread that an exception ends is marked as ended. The polled tables and the messages
  are documents of unknown shape; a service name or a host that is not a string, which Python would
  accept as a dictionary key, ends the thread in the model.
\<close>

section \<open>Clock offset\<close>

text \<open>
  \<open>_chrony_offset_ns\<close>: the output of \<open>chronyc tracking\<close>, \<open>None\<close> when it cannot be run.
\<close>

definition offset_of_line :: "string \<Rightarrow> int" where
  "offset_of_line line =
     (case rbind (py_nth (py_words line) 3) py_float_str of
        Inl _ \<Rightarrow> 0
      | Inr secs \<Rightarrow> (if py_in ''fast'' (py_lower line) then 1 else -1) * py_int (secs * 1000000000))"

definition chrony_offset_ns :: "string list option \<Rightarrow> int" where
  "chrony_offset_ns out =
     (case out of
        None \<Rightarrow> 0
      | Some lines \<Rightarrow>
          (case find (\<lambda>l. py_startswith (py_lower l) ''system time'') lines of
             None \<Rightarrow> 0
           | Some l \<Rightarrow> offset_of_line l))"

section \<open>Names in a node table\<close>

text \<open>
  The service names of a table in the order the loops visit them, up to the first entry that makes
  the loop raise.
\<close>

fun service_names :: "pyval list \<Rightarrow> string list \<times> py_exn option" where
  "service_names [] = ([], None)"
| "service_names (svc # svcs) =
     (case py_get svc ''name'' (PStr '''') of
        Inl e \<Rightarrow> ([], Some e)
      | Inr (PStr s) \<Rightarrow> (let (ns, e) = service_names svcs in (s # ns, e))
      | Inr _ \<Rightarrow> ([], Some (AttributeError ''startswith'')))"

definition peer_names :: "pyval \<Rightarrow> string list \<times> py_exn option" where
  "peer_names peer =
     (case rbind (py_get peer ''service'' PNone) (\<lambda>v. if py_truthy v then py_list_val v else Inr []) of
        Inl e \<Rightarrow> ([], Some e)
      | Inr svcs \<Rightarrow> service_names svcs)"

fun peers_names :: "(string \<times> pyval) list \<Rightarrow> string list \<times> py_exn option" where
  "peers_names [] = ([], None)"
| "peers_names ((_, peer) # peers) =
     (case peer_names peer of
        (ns, Some e) \<Rightarrow> (ns, Some e)
      | (ns, None) \<Rightarrow> (let (ms, e) = peers_names peers in (ns @ ms, e)))"

definition table_names :: "pyval \<Rightarrow> string list \<times> py_exn option" where
  "table_names data = (case py_items data of Inl e \<Rightarrow> ([], Some e) | Inr peers \<Rightarrow> peers_names peers)"

definition bench_name :: "string \<Rightarrow> bool" where
  "bench_name s \<longleftrightarrow> py_startswith s ''convbench-w''"

text \<open>The names that a poll sees for the first time, with the extended set of seen names.\<close>

fun note_names :: "string list \<Rightarrow> string list \<Rightarrow> string list \<times> string list" where
  "note_names [] seen = (seen, [])"
| "note_names (n # ns) seen =
     (if bench_name n \<and> n \<notin> set seen
      then (let (seen', new) = note_names ns (n # seen) in (seen', n # new))
      else note_names ns seen)"

section \<open>Observer\<close>

record observer_state =
  os_connected :: bool
  os_seen :: "string list"
  os_polling :: bool
  os_stop :: bool
  os_finished :: bool
  os_out :: string
  os_in :: string

definition seen_message :: "int \<Rightarrow> int \<Rightarrow> string list \<Rightarrow> pyval" where
  "seen_message task_id t0 new =
     PDict [(''type'', PStr ''seen''), (''task_id'', PInt task_id),
            (''events'', PList (map (\<lambda>n. PDict [(''name'', PStr n), (''seen_ns'', PInt t0)]) new))]"

text \<open>
  One round of \<open>_poll_dnt_loop\<close>: the clock is read, the table requested (\<open>Inl\<close> when the request
  raises, which the loop ignores) and the new names are reported.
\<close>

definition poll_dnt :: "(real \<Rightarrow> string) \<Rightarrow> int \<Rightarrow> int \<Rightarrow> pyval res \<Rightarrow> observer_state \<Rightarrow> observer_state" where
  "poll_dnt fl task_id t0 reply ob =
     (case reply of
        Inl _ \<Rightarrow> ob
      | Inr data \<Rightarrow>
          (case table_names data of
             (names, Some e) \<Rightarrow> ob\<lparr>os_polling := False\<rparr>
           | (names, None) \<Rightarrow>
               (let (seen', new) = note_names names (os_seen ob)
                in ob\<lparr>os_seen := seen',
                      os_out := os_out ob @ (if new = [] then [] else write_message fl (seen_message task_id t0 new))\<rparr>)))"

text \<open>
  \<open>_handle_writes\<close> for one message; \<open>reply\<close> is the document that the local server returns for the
  registration, \<open>repr\<close> prints an exception. \<open>Inl\<close> is an exception that ends the loop.
\<close>

definition handle_message ::
  "(real \<Rightarrow> string) \<Rightarrow> (py_exn \<Rightarrow> string) \<Rightarrow> int \<Rightarrow> pyval res \<Rightarrow> pyval \<Rightarrow> observer_state \<Rightarrow> observer_state res" where
  "handle_message fl py_repr task_id reply msg ob =
     rbind (py_get msg ''type'' PNone) (\<lambda>t.
       if t = PStr ''stop'' then Inr (ob\<lparr>os_stop := True\<rparr>)
       else if t = PStr ''write'' then
         rbind (py_item msg ''service_name'') (\<lambda>name.
         rbind (rbind (py_item msg ''seq'') py_int_val) (\<lambda>seq.
           let answer =
             (case rbind (rbind reply (\<lambda>r. py_item r ''registered_at_ns'')) py_int_val of
                Inl e \<Rightarrow> PDict [(''type'', PStr ''writer_error''), (''task_id'', PInt task_id),
                                (''seq'', PInt seq), (''error'', PStr (py_repr e))]
              | Inr t_write \<Rightarrow> PDict [(''type'', PStr ''writer_done''), (''task_id'', PInt task_id),
                                (''seq'', PInt seq), (''service_name'', name), (''t_write_ns'', PInt t_write)])
           in Inr (ob\<lparr>os_out := os_out ob @ write_message fl answer\<rparr>)))
       else Inr ob)"

text \<open>The messages of \<open>main\<close> before and after the loop.\<close>

definition hello_message :: "int \<Rightarrow> string \<Rightarrow> pyval" where
  "hello_message task_id host =
     PDict [(''type'', PStr ''hello''), (''task_id'', PInt task_id), (''host'', PStr host)]"

definition chrony_message :: "string \<Rightarrow> int \<Rightarrow> int \<Rightarrow> pyval" where
  "chrony_message kind task_id off =
     PDict [(''type'', PStr kind), (''task_id'', PInt task_id), (''offset_ns'', PInt off)]"

definition observer_start :: "(real \<Rightarrow> string) \<Rightarrow> int \<Rightarrow> string \<Rightarrow> int \<Rightarrow> observer_state \<Rightarrow> observer_state" where
  "observer_start fl task_id host off ob =
     ob\<lparr>os_connected := True, os_polling := True,
        os_out := write_message fl (hello_message task_id host)
                  @ write_message fl (chrony_message ''chrony_start'' task_id off)\<rparr>"

definition observer_finish :: "(real \<Rightarrow> string) \<Rightarrow> int \<Rightarrow> int \<Rightarrow> observer_state \<Rightarrow> observer_state" where
  "observer_finish fl task_id off ob =
     ob\<lparr>os_finished := True, os_polling := False,
        os_out := os_out ob @ write_message fl (chrony_message ''chrony_end'' task_id off)
                  @ write_message fl (PDict [(''type'', PStr ''bye''), (''task_id'', PInt task_id)])\<rparr>"
section \<open>Coordinator\<close>

record conv_state =
  cv_observers :: "(int \<times> string) list"
  cv_chrony_start :: "int pydict"
  cv_chrony_end :: "int pydict"
  cv_seen :: "(string \<times> (int \<times> int) list) list"
  cv_writer_done :: "((int \<times> int) \<times> int) list"
  cv_writer_error :: "((int \<times> int) \<times> pyval) list"

definition init_conv_state :: conv_state where
  "init_conv_state =
     \<lparr>cv_observers = [], cv_chrony_start = [], cv_chrony_end = [], cv_seen = [], cv_writer_done = [],
      cv_writer_error = []\<rparr>"

text \<open>\<open>state.seen.get(name, {})\<close> and \<open>state.seen.setdefault(name, {})[task] = t\<close>\<close>

definition seen_of :: "conv_state \<Rightarrow> string \<Rightarrow> (int \<times> int) list" where
  "seen_of st name = (case map_of (cv_seen st) name of None \<Rightarrow> [] | Some m \<Rightarrow> m)"

definition set_seen :: "int \<Rightarrow> string \<times> int \<Rightarrow> conv_state \<Rightarrow> conv_state" where
  "set_seen task ev st =
     st\<lparr>cv_seen := AList.update (fst ev) (AList.update task (snd ev) (seen_of st (fst ev))) (cv_seen st)\<rparr>"

definition str_key :: "pyval \<Rightarrow> string res" where
  "str_key v = (case v of PStr s \<Rightarrow> Inr s | _ \<Rightarrow> Inl (TypeError ''key is not a string''))"

text \<open>\<open>_accept_loop\<close> for one connection: its first message, or \<open>None\<close> when the stream ended.\<close>

definition accept_observer :: "pyval option \<Rightarrow> conv_state \<Rightarrow> (conv_state \<times> (int \<times> string) option) res" where
  "accept_observer first st =
     (case first of
        None \<Rightarrow> Inr (st, None)
      | Some msg \<Rightarrow>
          if \<not> py_truthy msg then Inr (st, None)
          else
            rbind (py_get msg ''type'' PNone) (\<lambda>t.
              if t \<noteq> PStr ''hello'' then Inr (st, None)
              else
                rbind (rbind (py_item msg ''task_id'') py_int_val) (\<lambda>task.
                rbind (rbind (py_get msg ''host'' (PStr '''')) str_key) (\<lambda>host.
                  Inr (st\<lparr>cv_observers := AList.update task host (cv_observers st)\<rparr>, Some (task, host))))))"

text \<open>\<open>_drain_observer\<close> for one message; what was stored before an exception stays.\<close>

fun drain_events :: "int \<Rightarrow> pyval list \<Rightarrow> conv_state \<Rightarrow> conv_state \<times> py_exn option" where
  "drain_events task [] st = (st, None)"
| "drain_events task (ev # evs) st =
     (case rbind (rbind (py_item ev ''seen_ns'') py_int_val) (\<lambda>t.
             rbind (rbind (py_item ev ''name'') str_key) (\<lambda>n. Inr (n, t))) of
        Inl e \<Rightarrow> (st, Some e)
      | Inr sighting \<Rightarrow> drain_events task evs (set_seen task sighting st))"

definition keep_on :: "(conv_state \<Rightarrow> conv_state) res \<Rightarrow> conv_state \<Rightarrow> conv_state \<times> py_exn option" where
  "keep_on r st = (case r of Inl e \<Rightarrow> (st, Some e) | Inr f \<Rightarrow> (f st, None))"

definition drain_message :: "int \<Rightarrow> string \<Rightarrow> pyval \<Rightarrow> conv_state \<Rightarrow> conv_state \<times> py_exn option" where
  "drain_message task host msg st =
     (case py_get msg ''type'' PNone of
        Inl e \<Rightarrow> (st, Some e)
      | Inr t \<Rightarrow>
          if t = PStr ''chrony_start'' then
            keep_on (rbind (rbind (py_item msg ''offset_ns'') py_int_val) (\<lambda>off.
              Inr (\<lambda>s. s\<lparr>cv_chrony_start := dict_set host off (cv_chrony_start s)\<rparr>))) st
          else if t = PStr ''chrony_end'' then
            keep_on (rbind (rbind (py_item msg ''offset_ns'') py_int_val) (\<lambda>off.
              Inr (\<lambda>s. s\<lparr>cv_chrony_end := dict_set host off (cv_chrony_end s)\<rparr>))) st
          else if t = PStr ''seen'' then
            (case rbind (py_get msg ''events'' (PList [])) py_list_val of
               Inl e \<Rightarrow> (st, Some e)
             | Inr evs \<Rightarrow> drain_events task evs st)
          else if t = PStr ''writer_done'' then
            keep_on (rbind (rbind (py_item msg ''t_write_ns'') py_int_val) (\<lambda>t_write.
                     rbind (rbind (py_item msg ''seq'') py_int_val) (\<lambda>seq.
              Inr (\<lambda>s. s\<lparr>cv_writer_done := AList.update (task, seq) t_write (cv_writer_done s)\<rparr>)))) st
          else if t = PStr ''writer_error'' then
            keep_on (rbind (py_get msg ''error'' (PStr '''')) (\<lambda>err.
                     rbind (rbind (py_item msg ''seq'') py_int_val) (\<lambda>seq.
              Inr (\<lambda>s. s\<lparr>cv_writer_error := AList.update (task, seq) err (cv_writer_error s)\<rparr>)))) st
          else (st, None))"

text \<open>
  One round of \<open>_self_poll_loop\<close>, with the names seen so far and whether the thread goes on: the
  coordinator is task \<open>0\<close> and stores what it sees at once.
\<close>

definition self_poll :: "int \<Rightarrow> pyval res \<Rightarrow> string list \<times> conv_state \<Rightarrow> (string list \<times> conv_state) \<times> bool" where
  "self_poll t0 reply s =
     (case reply of
        Inl _ \<Rightarrow> (s, True)
      | Inr data \<Rightarrow>
          (let (names, e) = table_names data;
               (seen', new) = note_names names (fst s)
           in ((seen', fold (\<lambda>n. set_seen 0 (n, t0)) new (snd s)), e = None)))"

definition write_command :: "int \<Rightarrow> string \<Rightarrow> pyval" where
  "write_command seq name =
     PDict [(''type'', PStr ''write''), (''seq'', PInt seq), (''service_name'', PStr name)]"

definition stop_command :: pyval where
  "stop_command = PDict [(''type'', PStr ''stop'')]"

section \<open>The system\<close>

text \<open>
  The coordinator and the observers \<open>1\<close> to \<open>n - 1\<close>, with their streams. \<open>cw_log\<close> records every
  poll that examined a whole table: the task, the clock reading before the request and the names. It
  is not part of the program: no step depends on it.
\<close>

record conv_world =
  cw_coord :: conv_state
  cw_self_seen :: "string list"
  cw_self_polling :: bool
  cw_obs :: "int \<Rightarrow> observer_state"
  cw_accepted :: "int \<Rightarrow> (int \<times> string) option"
  cw_draining :: "int \<Rightarrow> bool"
  cw_log :: "(int \<times> int \<times> string list) list"

definition idle_observer :: observer_state where
  "idle_observer =
     \<lparr>os_connected = False, os_seen = [], os_polling = False, os_stop = False, os_finished = False,
      os_out = [], os_in = []\<rparr>"

definition init_world :: conv_world where
  "init_world =
     \<lparr>cw_coord = init_conv_state, cw_self_seen = [], cw_self_polling = True, cw_obs = (\<lambda>_. idle_observer),
      cw_accepted = (\<lambda>_. None), cw_draining = (\<lambda>_. False), cw_log = []\<rparr>"

definition log_poll :: "int \<Rightarrow> int \<Rightarrow> pyval res \<Rightarrow> (int \<times> int \<times> string list) list" where
  "log_poll task t0 reply =
     (case reply of
        Inl _ \<Rightarrow> []
      | Inr data \<Rightarrow> (case table_names data of (names, None) \<Rightarrow> [(task, t0, names)] | _ \<Rightarrow> []))"

definition self_log :: "int \<Rightarrow> pyval res \<Rightarrow> (int \<times> int \<times> string list) list" where
  "self_log t0 reply = (case reply of Inl _ \<Rightarrow> [] | Inr data \<Rightarrow> [(0, t0, fst (table_names data))])"

inductive conv_step :: "(real \<Rightarrow> string) \<Rightarrow> (py_exn \<Rightarrow> string) \<Rightarrow> (int \<Rightarrow> string) \<Rightarrow> int \<Rightarrow> conv_world \<Rightarrow> conv_world \<Rightarrow> bool"
  for fl :: "real \<Rightarrow> string" and py_repr :: "py_exn \<Rightarrow> string" and hosts :: "int \<Rightarrow> string" and n :: int where
  connect: "0 < i \<Longrightarrow> i < n \<Longrightarrow> \<not> os_connected (cw_obs w i) \<Longrightarrow>
    conv_step fl py_repr hosts n w
      (w\<lparr>cw_obs := (cw_obs w)(i := observer_start fl i (hosts i) off (cw_obs w i))\<rparr>)"
| accept: "cw_accepted w i = None \<Longrightarrow> read_line (os_out (cw_obs w i)) = Some (line, rest) \<Longrightarrow>
    read_frame line = Inr (Some first) \<Longrightarrow> accept_observer (Some first) (cw_coord w) = Inr (st, Some conn) \<Longrightarrow>
    conv_step fl py_repr hosts n w
      (w\<lparr>cw_coord := st, cw_obs := (cw_obs w)(i := (cw_obs w i)\<lparr>os_out := rest\<rparr>),
         cw_accepted := (cw_accepted w)(i := Some conn), cw_draining := (cw_draining w)(i := True)\<rparr>)"
| drain: "cw_draining w i \<Longrightarrow> cw_accepted w i = Some (task, host) \<Longrightarrow>
    read_line (os_out (cw_obs w i)) = Some (line, rest) \<Longrightarrow> read_frame line = Inr (Some msg) \<Longrightarrow>
    drain_message task host msg (cw_coord w) = (st, e) \<Longrightarrow>
    conv_step fl py_repr hosts n w
      (w\<lparr>cw_coord := st, cw_obs := (cw_obs w)(i := (cw_obs w i)\<lparr>os_out := rest\<rparr>),
         cw_draining := (cw_draining w)(i := (e = None))\<rparr>)"
| drain_bad: "cw_draining w i \<Longrightarrow> read_line (os_out (cw_obs w i)) = Some (line, rest) \<Longrightarrow>
    read_frame line = Inl e \<Longrightarrow>
    conv_step fl py_repr hosts n w
      (w\<lparr>cw_obs := (cw_obs w)(i := (cw_obs w i)\<lparr>os_out := rest\<rparr>), cw_draining := (cw_draining w)(i := False)\<rparr>)"
| poll: "os_polling (cw_obs w i) \<Longrightarrow>
    conv_step fl py_repr hosts n w
      (w\<lparr>cw_obs := (cw_obs w)(i := poll_dnt fl i t0 reply (cw_obs w i)), cw_log := cw_log w @ log_poll i t0 reply\<rparr>)"
| self_poll: "cw_self_polling w \<Longrightarrow>
    self_poll t0 reply (cw_self_seen w, cw_coord w) = ((seen, st), alive) \<Longrightarrow>
    conv_step fl py_repr hosts n w
      (w\<lparr>cw_coord := st, cw_self_seen := seen, cw_self_polling := alive, cw_log := cw_log w @ self_log t0 reply\<rparr>)"
| clock_start: "conv_step fl py_repr hosts n w
    (w\<lparr>cw_coord := (cw_coord w)\<lparr>cv_chrony_start := dict_set (hosts 0) off (cv_chrony_start (cw_coord w))\<rparr>\<rparr>)"
| clock_end: "conv_step fl py_repr hosts n w
    (w\<lparr>cw_coord := (cw_coord w)\<lparr>cv_chrony_end := dict_set (hosts 0) off (cv_chrony_end (cw_coord w))\<rparr>\<rparr>)"
| command: "cmd = stop_command \<or> cmd = write_command seq name \<Longrightarrow>
    conv_step fl py_repr hosts n w
      (w\<lparr>cw_obs := (cw_obs w)(i := (cw_obs w i)\<lparr>os_in := os_in (cw_obs w i) @ write_message fl cmd\<rparr>)\<rparr>)"
| handle: "os_connected (cw_obs w i) \<Longrightarrow> \<not> os_stop (cw_obs w i) \<Longrightarrow>
    read_line (os_in (cw_obs w i)) = Some (line, rest) \<Longrightarrow> read_frame line = Inr (Some msg) \<Longrightarrow>
    handle_message fl py_repr i reply msg ((cw_obs w i)\<lparr>os_in := rest\<rparr>) = Inr ob \<Longrightarrow>
    conv_step fl py_repr hosts n w (w\<lparr>cw_obs := (cw_obs w)(i := ob)\<rparr>)"
| finish: "os_stop (cw_obs w i) \<Longrightarrow> os_connected (cw_obs w i) \<Longrightarrow> \<not> os_finished (cw_obs w i) \<Longrightarrow>
    conv_step fl py_repr hosts n w
      (w\<lparr>cw_obs := (cw_obs w)(i := observer_finish fl i off (cw_obs w i))\<rparr>)"

inductive conv_reach :: "(real \<Rightarrow> string) \<Rightarrow> (py_exn \<Rightarrow> string) \<Rightarrow> (int \<Rightarrow> string) \<Rightarrow> int \<Rightarrow> conv_world \<Rightarrow> bool"
  for fl :: "real \<Rightarrow> string" and py_repr :: "py_exn \<Rightarrow> string" and hosts :: "int \<Rightarrow> string" and n :: int where
  start: "conv_reach fl py_repr hosts n init_world"
| step: "conv_reach fl py_repr hosts n w \<Longrightarrow> conv_step fl py_repr hosts n w w' \<Longrightarrow> conv_reach fl py_repr hosts n w'"
section \<open>What the polls saw\<close>

text \<open>The first poll of a task that saw a name, and the list of first sightings of a task.\<close>

definition first_seen :: "(int \<times> int \<times> string list) list \<Rightarrow> int \<Rightarrow> string \<Rightarrow> int option" where
  "first_seen polls i name = map_option (\<lambda>(_, t, _). t) (find (\<lambda>(j, _, names). j = i \<and> name \<in> set names) polls)"

definition add_sightings :: "int \<Rightarrow> int \<times> int \<times> string list \<Rightarrow> (string \<times> int) list \<Rightarrow> (string \<times> int) list" where
  "add_sightings i entry acc =
     (case entry of (j, t, names) \<Rightarrow>
        if j = i then acc @ map (\<lambda>n. (n, t)) (snd (note_names names (rev (map fst acc)))) else acc)"

definition sightings :: "(int \<times> int \<times> string list) list \<Rightarrow> int \<Rightarrow> (string \<times> int) list" where
  "sightings polls i = fold (add_sightings i) polls []"

lemma note_names_props:
  "fst (note_names names seen) = rev (snd (note_names names seen)) @ seen
   \<and> distinct (snd (note_names names seen))
   \<and> set (snd (note_names names seen)) = {x \<in> set names. bench_name x \<and> x \<notin> set seen}"
  by (induction names arbitrary: seen) (auto simp: case_prod_unfold Let_def)

lemmas note_names_fst = note_names_props [THEN conjunct1]
lemmas note_names_distinct = note_names_props [THEN conjunct2, THEN conjunct1]
lemmas note_names_set = note_names_props [THEN conjunct2, THEN conjunct2]

lemma sightings_snoc: "sightings (polls @ [e]) i = add_sightings i e (sightings polls i)"
  by (simp add: sightings_def)

lemma sightings_other: "j \<noteq> i \<Longrightarrow> sightings (polls @ [(j, t, names)]) i = sightings polls i"
  by (simp add: sightings_snoc add_sightings_def)

lemma map_of_times: "map_of (map (\<lambda>n. (n, t)) ns) name = (if name \<in> set ns then Some t else None)"
  by (induction ns) auto

lemma distinct_sightings: "distinct (map fst (sightings polls i))"
proof (induction polls rule: rev_induct)
  case Nil
  then show ?case by (simp add: sightings_def)
next
  case (snoc e polls)
  then show ?case
    by (auto simp: sightings_snoc add_sightings_def note_names_distinct note_names_set comp_def split: prod.splits)
qed

lemma map_of_append_distinct:
  assumes "distinct (map fst (xs @ ys))" and "map_of xs k = Some v"
  shows "map_of (xs @ ys) k = Some v"
proof -
  have "k \<in> fst ` set xs" using map_of_SomeD [OF assms(2)] by (rule rev_image_eqI) simp
  then have "k \<notin> fst ` set ys" using assms(1) by auto
  then show ?thesis using assms(2) by (simp add: map_add_def map_of_eq_None_iff [THEN iffD2])
qed

lemma find_snoc: "find P (xs @ [x]) = (case find P xs of Some y \<Rightarrow> Some y | None \<Rightarrow> if P x then Some x else None)"
  by (induction xs) auto

lemma sightings_first_seen:
  "map_of (sightings polls i) name = (if bench_name name then first_seen polls i name else None)"
proof (induction polls rule: rev_induct)
  case Nil
  then show ?case by (simp add: sightings_def first_seen_def)
next
  case (snoc e polls)
  obtain j t names where e: "e = (j, t, names)" by (cases e)
  have f: "first_seen (polls @ [e]) i name =
      (case first_seen polls i name of Some x \<Rightarrow> Some x | None \<Rightarrow> if j = i \<and> name \<in> set names then Some t else None)"
    by (auto simp: first_seen_def e find_snoc split: option.splits)
  have m: "name \<in> fst ` set (sightings polls i) \<longleftrightarrow> map_of (sightings polls i) name \<noteq> None"
    by (simp add: map_of_eq_None_iff)
  show ?case
  proof (cases "j = i")
    case True
    have "map_of (sightings (polls @ [e]) i) name =
        (case map_of (sightings polls i) name of Some x \<Rightarrow> Some x
         | None \<Rightarrow> if name \<in> set names \<and> bench_name name \<and> name \<notin> fst ` set (sightings polls i) then Some t else None)"
      using True
      by (auto simp: e sightings_snoc add_sightings_def map_of_times note_names_set map_add_def split: option.splits)
    then show ?thesis unfolding f m using snoc True by (auto split: option.splits)
  next
    case False
    then show ?thesis unfolding f using snoc by (auto simp: e sightings_other split: option.splits)
  qed
qed

section \<open>The messages of an observer\<close>

datatype obs_msg =
    ChronyStart int
  | ChronyEnd int
  | Seen int "string list"
  | WriterDone int string int
  | WriterError int string
  | Bye

fun encode :: "int \<Rightarrow> obs_msg \<Rightarrow> pyval" where
  "encode i (ChronyStart off) = chrony_message ''chrony_start'' i off"
| "encode i (ChronyEnd off) = chrony_message ''chrony_end'' i off"
| "encode i (Seen t new) = seen_message i t new"
| "encode i (WriterDone seq name t) =
     PDict [(''type'', PStr ''writer_done''), (''task_id'', PInt i), (''seq'', PInt seq),
            (''service_name'', PStr name), (''t_write_ns'', PInt t)]"
| "encode i (WriterError seq err) =
     PDict [(''type'', PStr ''writer_error''), (''task_id'', PInt i), (''seq'', PInt seq), (''error'', PStr err)]"
| "encode i Bye = PDict [(''type'', PStr ''bye''), (''task_id'', PInt i)]"

fun events :: "obs_msg \<Rightarrow> (string \<times> int) list" where
  "events (Seen t new) = map (\<lambda>n. (n, t)) new"
| "events _ = []"

lemma encode_message [simp]: "is_message (encode i m)"
  by (cases m) (auto simp: is_message_def chrony_message_def seen_message_def)

lemma hello_is_message [simp]: "is_message (hello_message i h)"
  by (simp add: is_message_def hello_message_def)

lemma drain_seen:
  "drain_events task (map (\<lambda>n. PDict [(''name'', PStr n), (''seen_ns'', PInt t)]) ns) st =
     (fold (\<lambda>n. set_seen task (n, t)) ns st, None)"
  by (induction ns arbitrary: st) (simp_all add: py_item_def dict_get_def py_int_val_def str_key_def)

lemma drain_encode_no_error: "snd (drain_message task h (encode i m) st) = None"
  by (cases m)
    (simp_all add: drain_message_def py_get_def dict_get_default_def py_item_def dict_get_def py_int_val_def
      py_list_val_def keep_on_def chrony_message_def seen_message_def drain_seen)

lemma seen_of_set_seen:
  "map_of (seen_of (set_seen task ev st) name) k =
     (if name = fst ev \<and> k = task then Some (snd ev) else map_of (seen_of st name) k)"
  by (auto simp: seen_of_def set_seen_def update_conv' split: option.splits)

lemma seen_of_fold_set_seen:
  "map_of (seen_of (fold (\<lambda>n. set_seen task (n, t)) ns st) name) k =
     (if name \<in> set ns \<and> k = task then Some t else map_of (seen_of st name) k)"
  by (induction ns arbitrary: st) (auto simp: seen_of_set_seen)

lemma drain_encode_seen:
  "map_of (seen_of (fst (drain_message task h (encode i m) st)) name) k =
     (if k = task \<and> map_of (events m) name \<noteq> None then map_of (events m) name
      else map_of (seen_of st name) k)"
  by (cases m)
    (simp_all add: drain_message_def py_get_def dict_get_default_def py_item_def dict_get_def py_int_val_def
      py_list_val_def keep_on_def chrony_message_def seen_message_def drain_seen seen_of_fold_set_seen
      map_of_times, simp_all add: seen_of_def)
section \<open>Invariant of the system\<close>

text \<open>
  The stream of observer \<open>i\<close> holds the frames of some messages \<open>ms\<close>; what the coordinator has
  stored for it (\<open>dn\<close>) and what is still in these messages are together the first sightings of the
  observer, in order.
\<close>

definition frames :: "(real \<Rightarrow> string) \<Rightarrow> pyval list \<Rightarrow> string" where
  "frames fl ms = concat (map (write_message fl) ms)"

definition link_inv ::
  "(real \<Rightarrow> string) \<Rightarrow> (int \<Rightarrow> string) \<Rightarrow> int \<Rightarrow> observer_state \<Rightarrow> (int \<times> string) option \<Rightarrow> bool \<Rightarrow>
   (string \<times> int) list \<Rightarrow> (string \<times> int) list \<Rightarrow> obs_msg list \<Rightarrow> bool" where
  "link_inv fl hosts i ob acc draining all dn ms \<longleftrightarrow>
     all = dn @ concat (map events ms) \<and>
     os_seen ob = rev (map fst all) \<and>
     os_out ob = frames fl ((if os_connected ob \<and> acc = None then [hello_message i (hosts i)] else [])
                            @ map (encode i) ms) \<and>
     (acc = None \<longrightarrow> dn = [] \<and> \<not> draining) \<and>
     (acc \<noteq> None \<longrightarrow> acc = Some (i, hosts i) \<and> draining \<and> os_connected ob) \<and>
     (\<not> os_connected ob \<longrightarrow> ms = [] \<and> \<not> os_polling ob)"

definition command_inv :: "(real \<Rightarrow> string) \<Rightarrow> observer_state \<Rightarrow> bool" where
  "command_inv fl ob \<longleftrightarrow>
     (\<exists>cs. os_in ob = frames fl cs \<and> (\<forall>c \<in> set cs. c = stop_command \<or> (\<exists>seq name. c = write_command seq name)))"

definition obs_inv :: "(real \<Rightarrow> string) \<Rightarrow> (int \<Rightarrow> string) \<Rightarrow> int \<Rightarrow> conv_world \<Rightarrow> int \<Rightarrow> bool" where
  "obs_inv fl hosts n w i \<longleftrightarrow>
     command_inv fl (cw_obs w i) \<and> (os_connected (cw_obs w i) \<longrightarrow> 0 < i \<and> i < n) \<and>
     (i \<noteq> 0 \<longrightarrow> (\<exists>dn ms. link_inv fl hosts i (cw_obs w i) (cw_accepted w i) (cw_draining w i) (sightings (cw_log w) i) dn ms
        \<and> (\<forall>name. map_of (seen_of (cw_coord w) name) i = map_of dn name))) \<and>
     (i = 0 \<longrightarrow> os_out (cw_obs w i) = [] \<and> \<not> os_polling (cw_obs w i))"

definition self_inv :: "conv_world \<Rightarrow> bool" where
  "self_inv w \<longleftrightarrow>
     cw_self_seen w = rev (map fst (sightings (cw_log w) 0)) \<and>
     (\<forall>name. map_of (seen_of (cw_coord w) name) 0 = map_of (sightings (cw_log w) 0) name)"

definition world_inv :: "(real \<Rightarrow> string) \<Rightarrow> (int \<Rightarrow> string) \<Rightarrow> int \<Rightarrow> conv_world \<Rightarrow> bool" where
  "world_inv fl hosts n w \<longleftrightarrow> self_inv w \<and> (\<forall>i. obs_inv fl hosts n w i)"

lemma frames_simps [simp]:
  "frames fl [] = []" "frames fl (m # ms) = write_message fl m @ frames fl ms"
  "frames fl (ms @ ms') = frames fl ms @ frames fl ms'"
  by (simp_all add: frames_def)

text \<open>A reader of framed messages gets the first of them.\<close>

lemma read_line_frames:
  assumes "list_all is_message ms" and "read_line (frames fl ms) = Some (line, rest)"
  shows "\<exists>m ms'. ms = m # ms' \<and> rest = frames fl ms' \<and> read_frame line = Inr (Some m)"
proof (cases ms)
  case Nil
  then show ?thesis using assms(2) by (simp add: read_line_def)
next
  case (Cons m ms')
  then have "is_message m" using assms(1) by simp
  then show ?thesis using Cons assms(2) by (auto simp: read_line_write read_frame_dumps)
qed

lemma world_init: "world_inv fl hosts n init_world"
  by (auto simp: world_inv_def self_inv_def obs_inv_def link_inv_def command_inv_def init_world_def
      idle_observer_def sightings_def seen_of_def init_conv_state_def intro!: exI [of _ "[]"])

text \<open>A change of one observer that leaves the coordinator's table and the polls alone.\<close>

lemma obs_inv_other:
  assumes "obs_inv fl hosts n w j"
    and "cw_obs w' j = cw_obs w j" "cw_accepted w' j = cw_accepted w j" "cw_draining w' j = cw_draining w j"
    and "sightings (cw_log w') j = sightings (cw_log w) j"
    and "\<And>name. map_of (seen_of (cw_coord w') name) j = map_of (seen_of (cw_coord w) name) j"
  shows "obs_inv fl hosts n w' j"
  using assms(1) unfolding obs_inv_def assms(2-6) .

lemma world_inv_local:
  assumes "world_inv fl hosts n w"
    and "\<And>j. j \<noteq> i \<Longrightarrow> cw_obs w' j = cw_obs w j \<and> cw_accepted w' j = cw_accepted w j \<and> cw_draining w' j = cw_draining w j
           \<and> sightings (cw_log w') j = sightings (cw_log w) j
           \<and> (\<forall>name. map_of (seen_of (cw_coord w') name) j = map_of (seen_of (cw_coord w) name) j)"
    and "cw_self_seen w' = cw_self_seen w" and "obs_inv fl hosts n w' i"
    and "i = 0 \<Longrightarrow> self_inv w'"
  shows "world_inv fl hosts n w'"
proof -
  have "self_inv w'"
  proof (cases "i = 0")
    case False
    then show ?thesis using assms(1,3) assms(2) [of 0] by (simp add: world_inv_def self_inv_def)
  qed (use assms(5) in simp)
  moreover have "obs_inv fl hosts n w' j" for j
  proof (cases "j = i")
    case False
    show ?thesis
      by (rule obs_inv_other [of fl hosts n w])
        (use assms(1) assms(2) [OF False] in \<open>simp_all add: world_inv_def\<close>)
  qed (use assms(4) in simp)
  ultimately show ?thesis by (simp add: world_inv_def)
qed

lemma link_connect:
  assumes "link_inv fl hosts i ob acc draining all dn ms" and "\<not> os_connected ob"
  shows "link_inv fl hosts i (observer_start fl i (hosts i) off ob) acc draining all dn [ChronyStart off]"
  using assms by (auto simp: link_inv_def observer_start_def)

lemma link_send:
  assumes "link_inv fl hosts i ob acc draining all dn ms" and "os_connected ob" and "events m = []"
  shows "link_inv fl hosts i (ob\<lparr>os_out := os_out ob @ write_message fl (encode i m)\<rparr>) acc draining all dn (ms @ [m])"
  using assms by (simp add: link_inv_def)

lemma link_poll:
  assumes "link_inv fl hosts i ob acc draining all dn ms" and "os_polling ob"
    and "table_names data = (names, None)"
  shows "\<exists>ms'. link_inv fl hosts i (poll_dnt fl i t0 (Inr data) ob) acc draining (add_sightings i (i, t0, names) all) dn ms'"
proof -
  define new where "new = snd (note_names names (os_seen ob))"
  have c: "os_connected ob" and s: "os_seen ob = rev (map fst all)" using assms(1,2) by (auto simp: link_inv_def)
  have p: "poll_dnt fl i t0 (Inr data) ob = ob\<lparr>os_seen := rev new @ os_seen ob,
      os_out := os_out ob @ (if new = [] then [] else write_message fl (seen_message i t0 new))\<rparr>"
    by (simp add: poll_dnt_def assms(3) new_def note_names_fst case_prod_unfold Let_def)
  have a: "add_sightings i (i, t0, names) all = all @ map (\<lambda>n. (n, t0)) new"
    by (simp add: add_sightings_def new_def s)
  show ?thesis
  proof (cases "new = []")
    case True
    then show ?thesis unfolding p a using assms(1) by auto
  next
    case False
    have "link_inv fl hosts i (poll_dnt fl i t0 (Inr data) ob) acc draining (all @ map (\<lambda>n. (n, t0)) new) dn (ms @ [Seen t0 new])"
      unfolding p using assms(1) c False by (simp add: link_inv_def comp_def rev_map)
    then show ?thesis unfolding a by blast
  qed
qed

lemma link_read:
  assumes "link_inv fl hosts i ob acc draining all dn ms" and "acc \<noteq> None"
    and "read_line (os_out ob) = Some (line, rest)"
  shows "\<exists>m ms'. read_frame line = Inr (Some (encode i m)) \<and>
    link_inv fl hosts i (ob\<lparr>os_out := rest\<rparr>) acc draining all (dn @ events m) ms'"
proof -
  have "os_out ob = frames fl (map (encode i) ms)" using assms(1,2) by (auto simp: link_inv_def)
  then obtain m ms' where m: "ms = m # ms'" "rest = frames fl (map (encode i) ms')" "read_frame line = Inr (Some (encode i m))"
    using read_line_frames [of "map (encode i) ms" fl line rest] assms(3)
    by (auto simp: map_eq_Cons_conv list_all_iff)
  then have "link_inv fl hosts i (ob\<lparr>os_out := rest\<rparr>) acc draining all (dn @ events m) ms'"
    using assms(1,2) by (auto simp: link_inv_def)
  then show ?thesis using m(3) by blast
qed

lemma link_accept:
  assumes "link_inv fl hosts i ob None draining all dn ms" and "read_line (os_out ob) = Some (line, rest)"
  shows "read_frame line = Inr (Some (hello_message i (hosts i))) \<and>
    link_inv fl hosts i (ob\<lparr>os_out := rest\<rparr>) (Some (i, hosts i)) True all dn ms"
proof -
  let ?ms = "(if os_connected ob then [hello_message i (hosts i)] else []) @ map (encode i) ms"
  have o: "os_out ob = frames fl ?ms" and c: "\<not> os_connected ob \<longrightarrow> ms = []" using assms(1) by (auto simp: link_inv_def)
  obtain m ms' where m: "?ms = m # ms'" "rest = frames fl ms'" "read_frame line = Inr (Some m)"
    using read_line_frames [of ?ms fl line rest] assms(2) o by (auto simp: list_all_iff split: if_splits)
  then have "os_connected ob" using c by (auto split: if_splits)
  then show ?thesis using m assms(1) by (auto simp: link_inv_def)
qed

lemma accept_hello:
  "accept_observer (Some (hello_message i h)) st =
     Inr (st\<lparr>cv_observers := AList.update i h (cv_observers st)\<rparr>, Some (i, h))"
  by (simp add: accept_observer_def hello_message_def py_truthy_def py_get_def py_item_def dict_get_default_def
      dict_get_def py_int_val_def str_key_def)

lemma py_int_val_int: "py_int_val (PInt i) = Inr i"
  by (simp add: py_int_val_def)

lemma handle_command:
  assumes "msg = stop_command \<or> (\<exists>seq name. msg = write_command seq name)"
    and "handle_message fl py_repr i reply msg ob = Inr ob'"
  shows "ob' = ob\<lparr>os_stop := True\<rparr> \<or>
    (\<exists>m. events m = [] \<and> ob' = ob\<lparr>os_out := os_out ob @ write_message fl (encode i m)\<rparr>)"
proof (cases "msg = stop_command")
  case True
  then show ?thesis
    using assms(2) by (simp add: stop_command_def handle_message_def py_get_def dict_get_default_def)
next
  case False
  then obtain seq name where msg: "msg = write_command seq name" using assms(1) by blast
  let ?r = "rbind (rbind reply (\<lambda>r. py_item r ''registered_at_ns'')) py_int_val"
  let ?m = "case ?r of Inl e \<Rightarrow> WriterError seq (py_repr e) | Inr t \<Rightarrow> WriterDone seq name t"
  have "ob' = ob\<lparr>os_out := os_out ob @ write_message fl (encode i ?m)\<rparr>"
    using assms(2) unfolding msg
    by (cases ?r) (simp_all add: write_command_def handle_message_def py_get_dict py_item_dict dict_get_default_def
        dict_get_def py_int_val_int Let_def)
  moreover have "events ?m = []" by (simp split: sum.splits)
  ultimately show ?thesis by blast
qed

text \<open>Each kind of step keeps the invariant.\<close>

lemma world_obsD: "world_inv fl hosts n w \<Longrightarrow> obs_inv fl hosts n w i"
  by (simp add: world_inv_def)

lemma obs_link:
  assumes "obs_inv fl hosts n w i" and "i \<noteq> 0"
  obtains dn ms where
    "link_inv fl hosts i (cw_obs w i) (cw_accepted w i) (cw_draining w i) (sightings (cw_log w) i) dn ms"
    "\<And>name. map_of (seen_of (cw_coord w) name) i = map_of dn name"
  using assms by (auto simp: obs_inv_def)

lemma obs_invI:
  assumes "command_inv fl (cw_obs w i)" and "0 < i" and "i < n"
    and "link_inv fl hosts i (cw_obs w i) (cw_accepted w i) (cw_draining w i) (sightings (cw_log w) i) dn ms"
    and "\<And>name. map_of (seen_of (cw_coord w) name) i = map_of dn name"
  shows "obs_inv fl hosts n w i"
  using assms by (auto simp: obs_inv_def)

text \<open>A step that changes observer \<open>i\<close> only.\<close>

lemma world_inv_observer:
  assumes "world_inv fl hosts n w" and "0 < i" and "i < n"
    and "command_inv fl ob"
    and "\<And>dn ms. link_inv fl hosts i (cw_obs w i) (cw_accepted w i) (cw_draining w i) (sightings (cw_log w) i) dn ms \<Longrightarrow>
      \<exists>ms'. link_inv fl hosts i ob (cw_accepted w i) (cw_draining w i) (sightings (cw_log w @ l) i) dn ms'"
    and "\<And>j. j \<noteq> i \<Longrightarrow> sightings (cw_log w @ l) j = sightings (cw_log w) j"
  shows "world_inv fl hosts n (w\<lparr>cw_obs := (cw_obs w)(i := ob), cw_log := cw_log w @ l\<rparr>)"
proof -
  let ?w = "w\<lparr>cw_obs := (cw_obs w)(i := ob), cw_log := cw_log w @ l\<rparr>"
  have i0: "i \<noteq> 0" using assms(2) by simp
  obtain dn ms where l: "link_inv fl hosts i (cw_obs w i) (cw_accepted w i) (cw_draining w i) (sightings (cw_log w) i) dn ms"
      "\<And>name. map_of (seen_of (cw_coord w) name) i = map_of dn name"
    using obs_link [OF world_obsD [OF assms(1)] i0] by blast
  obtain ms' where "link_inv fl hosts i ob (cw_accepted w i) (cw_draining w i) (sightings (cw_log w @ l) i) dn ms'"
    using assms(5) [OF l(1)] by blast
  then have "obs_inv fl hosts n ?w i" by (intro obs_invI [where dn = dn and ms = ms']) (use assms(2-4) l(2) in simp_all)
  then show ?thesis
    by (rule world_inv_local [OF assms(1), rotated 2]) (use assms(2,6) in simp_all)
qed

lemma world_inv_observer_only:
  assumes "world_inv fl hosts n w" and "0 < i" and "i < n" and "command_inv fl ob"
    and "\<And>acc dr all dn ms. link_inv fl hosts i (cw_obs w i) acc dr all dn ms \<Longrightarrow> \<exists>ms'. link_inv fl hosts i ob acc dr all dn ms'"
  shows "world_inv fl hosts n (w\<lparr>cw_obs := (cw_obs w)(i := ob)\<rparr>)"
  using world_inv_observer [OF assms(1-4), of "[]"] assms(5) by simp

lemma step_connect:
  assumes "world_inv fl hosts n w" and "0 < i" "i < n" "\<not> os_connected (cw_obs w i)"
  shows "world_inv fl hosts n (w\<lparr>cw_obs := (cw_obs w)(i := observer_start fl i (hosts i) off (cw_obs w i))\<rparr>)"
proof -
  have "command_inv fl (observer_start fl i (hosts i) off (cw_obs w i))"
    using world_obsD [OF assms(1), of i] by (simp add: obs_inv_def command_inv_def observer_start_def)
  then show ?thesis
    by (rule world_inv_observer_only [OF assms(1-3)]) (rule exI, rule link_connect [OF _ assms(4)])
qed

lemma step_poll:
  assumes "world_inv fl hosts n w" and "os_polling (cw_obs w i)"
  shows "world_inv fl hosts n
    (w\<lparr>cw_obs := (cw_obs w)(i := poll_dnt fl i t0 reply (cw_obs w i)), cw_log := cw_log w @ log_poll i t0 reply\<rparr>)"
proof -
  have i0: "i \<noteq> 0" using world_obsD [OF assms(1), of i] assms(2) by (auto simp: obs_inv_def)
  obtain dn ms where "link_inv fl hosts i (cw_obs w i) (cw_accepted w i) (cw_draining w i) (sightings (cw_log w) i) dn ms"
    using obs_link [OF world_obsD [OF assms(1), of i] i0] by blast
  then have "os_connected (cw_obs w i)" using assms(2) by (auto simp: link_inv_def)
  then have i: "0 < i" "i < n" using world_obsD [OF assms(1), of i] by (auto simp: obs_inv_def)
  have c: "command_inv fl (poll_dnt fl i t0 reply (cw_obs w i))"
    using world_obsD [OF assms(1), of i]
    by (auto simp: obs_inv_def command_inv_def poll_dnt_def Let_def split: sum.splits prod.splits option.splits)
  show ?thesis
  proof (rule world_inv_observer [OF assms(1) i c])
    fix dn ms
    assume l: "link_inv fl hosts i (cw_obs w i) (cw_accepted w i) (cw_draining w i) (sightings (cw_log w) i) dn ms"
    consider e where "reply = Inl e" | data names e where "reply = Inr data" "table_names data = (names, Some e)"
      | data names where "reply = Inr data" "table_names data = (names, None)"
      by (metis old.sum.exhaust surj_pair option.exhaust)
    then show "\<exists>ms'. link_inv fl hosts i (poll_dnt fl i t0 reply (cw_obs w i)) (cw_accepted w i) (cw_draining w i)
        (sightings (cw_log w @ log_poll i t0 reply) i) dn ms'"
    proof cases
      case 1
      then show ?thesis using l by (auto simp: poll_dnt_def log_poll_def)
    next
      case 2
      then show ?thesis using l by (auto simp: poll_dnt_def log_poll_def link_inv_def)
    next
      case 3
      then show ?thesis using link_poll [OF l assms(2) 3(2)] by (simp add: log_poll_def sightings_snoc)
    qed
  next
    fix j assume "j \<noteq> i"
    then show "sightings (cw_log w @ log_poll i t0 reply) j = sightings (cw_log w) j"
      by (auto simp: log_poll_def sightings_other split: sum.splits prod.splits option.splits)
  qed
qed

lemma step_finish:
  assumes "world_inv fl hosts n w" and "os_connected (cw_obs w i)"
  shows "world_inv fl hosts n (w\<lparr>cw_obs := (cw_obs w)(i := observer_finish fl i off (cw_obs w i))\<rparr>)"
proof -
  have i: "0 < i" "i < n" and c: "command_inv fl (observer_finish fl i off (cw_obs w i))"
    using world_obsD [OF assms(1), of i] assms(2) by (auto simp: obs_inv_def command_inv_def observer_finish_def)
  have "\<exists>ms'. link_inv fl hosts i (observer_finish fl i off (cw_obs w i)) acc dr all dn ms'"
    if l: "link_inv fl hosts i (cw_obs w i) acc dr all dn ms" for acc dr all dn ms
    using l assms(2)
    by (auto simp: link_inv_def observer_finish_def intro!: exI [of _ "ms @ [ChronyEnd off, Bye]"])
  then show ?thesis by (rule world_inv_observer_only [OF assms(1) i c])
qed

lemma command_is_message: "c = stop_command \<or> (\<exists>seq name. c = write_command seq name) \<Longrightarrow> is_message c"
  by (auto simp: is_message_def stop_command_def write_command_def)

lemma command_inv_read:
  assumes "command_inv fl ob" and "read_line (os_in ob) = Some (line, rest)" and "read_frame line = Inr (Some msg)"
  shows "(msg = stop_command \<or> (\<exists>seq name. msg = write_command seq name)) \<and> command_inv fl (ob\<lparr>os_in := rest\<rparr>)"
proof -
  obtain cs where cs: "os_in ob = frames fl cs" "\<forall>c \<in> set cs. c = stop_command \<or> (\<exists>seq name. c = write_command seq name)"
    using assms(1) by (auto simp: command_inv_def)
  have "list_all is_message cs" unfolding list_all_iff using cs(2) command_is_message by blast
  then obtain m ms where "cs = m # ms" "rest = frames fl ms" "read_frame line = Inr (Some m)"
    using read_line_frames [of cs fl line rest] assms(2) cs(1) by auto
  then show ?thesis using cs(2) assms(3) by (auto simp: command_inv_def)
qed

lemma step_handle:
  assumes "world_inv fl hosts n w" and "os_connected (cw_obs w i)"
    and "read_line (os_in (cw_obs w i)) = Some (line, rest)" and "read_frame line = Inr (Some msg)"
    and "handle_message fl py_repr i reply msg ((cw_obs w i)\<lparr>os_in := rest\<rparr>) = Inr ob"
  shows "world_inv fl hosts n (w\<lparr>cw_obs := (cw_obs w)(i := ob)\<rparr>)"
proof -
  let ?ob = "(cw_obs w i)\<lparr>os_in := rest\<rparr>"
  have i: "0 < i" "i < n" and c: "command_inv fl (cw_obs w i)"
    using world_obsD [OF assms(1), of i] assms(2) by (auto simp: obs_inv_def)
  from command_inv_read [OF c assms(3,4)]
  have m: "msg = stop_command \<or> (\<exists>seq name. msg = write_command seq name)" and c': "command_inv fl ?ob" by auto
  have ob: "ob = ?ob\<lparr>os_stop := True\<rparr> \<or>
      (\<exists>m. events m = [] \<and> ob = ?ob\<lparr>os_out := os_out ?ob @ write_message fl (encode i m)\<rparr>)"
    by (rule handle_command [OF m assms(5)])
  then have "command_inv fl ob" using c' by (auto simp: command_inv_def)
  then show ?thesis
  proof (rule world_inv_observer_only [OF assms(1) i])
    fix acc dr all dn ms assume l: "link_inv fl hosts i (cw_obs w i) acc dr all dn ms"
    then have l': "link_inv fl hosts i ?ob acc dr all dn ms" by (simp add: link_inv_def)
    show "\<exists>ms'. link_inv fl hosts i ob acc dr all dn ms'"
    proof (cases "ob = ?ob\<lparr>os_stop := True\<rparr>")
      case True
      then show ?thesis using l by (auto simp: link_inv_def)
    next
      case False
      then obtain m where "events m = []" "ob = ?ob\<lparr>os_out := os_out ?ob @ write_message fl (encode i m)\<rparr>"
        using ob by blast
      then show ?thesis using link_send [OF l', of m] assms(2) by auto
    qed
  qed
qed

lemma step_command:
  assumes "world_inv fl hosts n w" and "cmd = stop_command \<or> cmd = write_command seq name"
  shows "world_inv fl hosts n
    (w\<lparr>cw_obs := (cw_obs w)(i := (cw_obs w i)\<lparr>os_in := os_in (cw_obs w i) @ write_message fl cmd\<rparr>)\<rparr>)"
    (is "world_inv fl hosts n ?w")
proof -
  obtain cs where cs: "os_in (cw_obs w i) = frames fl cs"
      "\<forall>c \<in> set cs. c = stop_command \<or> (\<exists>seq name. c = write_command seq name)"
    using world_obsD [OF assms(1), of i] by (auto simp: obs_inv_def command_inv_def)
  have "command_inv fl (cw_obs ?w i)"
    unfolding command_inv_def using cs assms(2) by (intro exI [of _ "cs @ [cmd]"]) auto
  then have "obs_inv fl hosts n ?w i"
    using world_obsD [OF assms(1), of i] by (auto simp: obs_inv_def link_inv_def)
  then show ?thesis
    by (rule world_inv_local [OF assms(1), rotated 2]) (use assms(1) in \<open>simp_all add: world_inv_def self_inv_def\<close>)
qed

lemma step_accept:
  assumes "world_inv fl hosts n w" and "cw_accepted w i = None"
    and "read_line (os_out (cw_obs w i)) = Some (line, rest)" and "read_frame line = Inr (Some first)"
    and "accept_observer (Some first) (cw_coord w) = Inr (st, Some conn)"
  shows "world_inv fl hosts n
    (w\<lparr>cw_coord := st, cw_obs := (cw_obs w)(i := (cw_obs w i)\<lparr>os_out := rest\<rparr>),
       cw_accepted := (cw_accepted w)(i := Some conn), cw_draining := (cw_draining w)(i := True)\<rparr>)"
    (is "world_inv fl hosts n ?w")
proof -
  note o = world_obsD [OF assms(1), of i]
  have i0: "i \<noteq> 0" using o assms(3) by (auto simp: obs_inv_def read_line_def)
  obtain dn ms where l: "link_inv fl hosts i (cw_obs w i) None (cw_draining w i) (sightings (cw_log w) i) dn ms"
      "\<And>name. map_of (seen_of (cw_coord w) name) i = map_of dn name"
    using obs_link [OF o i0] assms(2) by metis
  from link_accept [OF l(1) assms(3)]
  have f: "first = hello_message i (hosts i)"
    and l': "link_inv fl hosts i ((cw_obs w i)\<lparr>os_out := rest\<rparr>) (Some (i, hosts i)) True (sightings (cw_log w) i) dn ms"
    using assms(4) by auto
  have st: "conn = (i, hosts i)" "st = (cw_coord w)\<lparr>cv_observers := AList.update i (hosts i) (cv_observers (cw_coord w))\<rparr>"
    using assms(5) unfolding f accept_hello by auto
  then have seen: "seen_of st name = seen_of (cw_coord w) name" for name by (simp add: seen_of_def)
  have "os_connected ((cw_obs w i)\<lparr>os_out := rest\<rparr>)" using l' by (auto simp: link_inv_def)
  then have i: "0 < i" "i < n" using o by (auto simp: obs_inv_def)
  have "command_inv fl (cw_obs ?w i)" using o by (simp add: obs_inv_def command_inv_def)
  then have "obs_inv fl hosts n ?w i"
    by (rule obs_invI [OF _ i, where dn = dn and ms = ms]) (use l' l(2) st(1) seen in simp_all)
  then show ?thesis
    by (rule world_inv_local [OF assms(1), rotated 2]) (use i0 seen in simp_all)
qed

lemma step_drain:
  assumes "world_inv fl hosts n w" and "cw_draining w i" and "cw_accepted w i = Some (task, host)"
    and "read_line (os_out (cw_obs w i)) = Some (line, rest)" and "read_frame line = Inr (Some msg)"
    and "drain_message task host msg (cw_coord w) = (st, e)"
  shows "world_inv fl hosts n
    (w\<lparr>cw_coord := st, cw_obs := (cw_obs w)(i := (cw_obs w i)\<lparr>os_out := rest\<rparr>),
       cw_draining := (cw_draining w)(i := (e = None))\<rparr>)"
    (is "world_inv fl hosts n ?w")
proof -
  note o = world_obsD [OF assms(1), of i]
  have i0: "i \<noteq> 0" using o assms(4) by (auto simp: obs_inv_def read_line_def)
  obtain dn ms where l: "link_inv fl hosts i (cw_obs w i) (cw_accepted w i) (cw_draining w i) (sightings (cw_log w) i) dn ms"
      "\<And>name. map_of (seen_of (cw_coord w) name) i = map_of dn name"
    using obs_link [OF o i0] by blast
  have t: "task = i" "os_connected (cw_obs w i)" using l(1) assms(3) by (auto simp: link_inv_def)
  have i: "0 < i" "i < n" using o t(2) by (auto simp: obs_inv_def)
  obtain m ms' where m: "msg = encode i m"
      "link_inv fl hosts i ((cw_obs w i)\<lparr>os_out := rest\<rparr>) (cw_accepted w i) (cw_draining w i) (sightings (cw_log w) i) (dn @ events m) ms'"
    using link_read [OF l(1) _ assms(4)] assms(3,5) by auto
  have e: "e = None" using drain_encode_no_error [of i host i m "cw_coord w"] assms(6) m(1) t(1) by simp
  have seen: "map_of (seen_of st name) k =
      (if k = i \<and> map_of (events m) name \<noteq> None then map_of (events m) name else map_of (seen_of (cw_coord w) name) k)" for name k
    using drain_encode_seen [of i host i m "cw_coord w"] assms(6) m(1) t(1) by simp
  have "distinct (map fst (dn @ events m))"
    using distinct_sightings [of "cw_log w" i] m(2) by (auto simp: link_inv_def)
  then have "map_of (dn @ events m) name = (if map_of (events m) name \<noteq> None then map_of (events m) name else map_of dn name)" for name
    by (auto simp: map_add_def split: option.splits dest!: map_of_SomeD) force
  then have s: "map_of (seen_of st name) i = map_of (dn @ events m) name" for name by (simp add: seen l(2))
  have "command_inv fl (cw_obs ?w i)" using o by (simp add: obs_inv_def command_inv_def)
  then have "obs_inv fl hosts n ?w i"
    by (rule obs_invI [OF _ i, where dn = "dn @ events m" and ms = ms']) (use m(2) s e assms(2) in simp_all)
  then show ?thesis
    by (rule world_inv_local [OF assms(1), rotated 2]) (use i0 seen in simp_all)
qed

lemma step_drain_bad:
  assumes "world_inv fl hosts n w" and "cw_draining w i"
    and "read_line (os_out (cw_obs w i)) = Some (line, rest)" and "read_frame line = Inl e"
  shows False
proof -
  note o = world_obsD [OF assms(1), of i]
  have i0: "i \<noteq> 0" using o assms(3) by (auto simp: obs_inv_def read_line_def)
  obtain dn ms where l: "link_inv fl hosts i (cw_obs w i) (cw_accepted w i) (cw_draining w i) (sightings (cw_log w) i) dn ms"
    using obs_link [OF o i0] by blast
  then have "cw_accepted w i \<noteq> None" using assms(2) by (auto simp: link_inv_def)
  then show False using link_read [OF l _ assms(3)] assms(4) by auto
qed

lemma self_poll_inv:
  assumes "self_inv w" and "self_poll t0 reply (cw_self_seen w, cw_coord w) = ((seen, st), alive)"
  shows "seen = rev (map fst (sightings (cw_log w @ self_log t0 reply) 0))
    \<and> map_of (seen_of st name) 0 = map_of (sightings (cw_log w @ self_log t0 reply) 0) name
    \<and> (k \<noteq> 0 \<longrightarrow> map_of (seen_of st name) k = map_of (seen_of (cw_coord w) name) k)"
proof (cases reply)
  case (Inl e)
  then show ?thesis using assms by (simp add: self_poll_def self_log_def self_inv_def)
next
  case (Inr data)
  define names where "names = fst (table_names data)"
  define new where "new = snd (note_names names (cw_self_seen w))"
  have s: "cw_self_seen w = rev (map fst (sightings (cw_log w) 0))" using assms(1) by (simp add: self_inv_def)
  have r: "seen = rev new @ cw_self_seen w" "st = fold (\<lambda>n. set_seen 0 (n, t0)) new (cw_coord w)"
    using assms(2) Inr by (auto simp: self_poll_def case_prod_unfold Let_def new_def names_def note_names_fst)
  have a: "sightings (cw_log w @ self_log t0 reply) 0 = sightings (cw_log w) 0 @ map (\<lambda>n. (n, t0)) new"
    by (simp add: Inr self_log_def sightings_snoc add_sightings_def new_def s names_def)
  have n: "name \<in> set new \<Longrightarrow> map_of (sightings (cw_log w) 0) name = None"
    by (auto simp: new_def note_names_set s map_of_eq_None_iff)
  have "map_of (seen_of st name) 0 = map_of (sightings (cw_log w @ self_log t0 reply) 0) name"
    using assms(1) n
    by (auto simp: a r(2) seen_of_fold_set_seen map_of_times map_add_def self_inv_def split: option.splits)
  then show ?thesis unfolding a by (simp add: r s seen_of_fold_set_seen comp_def rev_map)
qed

lemma step_self_poll:
  assumes "world_inv fl hosts n w"
    and "self_poll t0 reply (cw_self_seen w, cw_coord w) = ((seen, st), alive)"
  shows "world_inv fl hosts n
    (w\<lparr>cw_coord := st, cw_self_seen := seen, cw_self_polling := alive, cw_log := cw_log w @ self_log t0 reply\<rparr>)"
    (is "world_inv fl hosts n ?w")
proof -
  have "self_inv w" using assms(1) by (simp add: world_inv_def)
  note p = self_poll_inv [OF this assms(2)]
  have si: "self_inv ?w" using p by (simp add: self_inv_def)
  have other: "sightings (cw_log w @ self_log t0 reply) j = sightings (cw_log w) j" if "j \<noteq> 0" for j
    using that by (auto simp: self_log_def sightings_other split: sum.splits)
  have "obs_inv fl hosts n ?w j" for j
  proof (cases "j = 0")
    case True
    then show ?thesis using world_obsD [OF assms(1), of 0] by (simp add: obs_inv_def)
  next
    case False
    show ?thesis by (rule obs_inv_other [OF world_obsD [OF assms(1)]]) (use False p other in auto)
  qed
  then show ?thesis using si by (simp add: world_inv_def)
qed

lemma step_clock:
  assumes "world_inv fl hosts n w" and "\<And>name. seen_of st name = seen_of (cw_coord w) name"
  shows "world_inv fl hosts n (w\<lparr>cw_coord := st\<rparr>)"
  using assms by (simp add: world_inv_def obs_inv_def self_inv_def)

lemma conv_step_inv: "conv_step fl py_repr hosts n w w' \<Longrightarrow> world_inv fl hosts n w \<Longrightarrow> world_inv fl hosts n w'"
proof (induction rule: conv_step.induct)
  case (drain_bad w i line rest e)
  then show ?case using step_drain_bad by blast
next
  case (clock_start w off)
  then show ?case by (rule step_clock) (simp add: seen_of_def)
next
  case (clock_end w off)
  then show ?case by (rule step_clock) (simp add: seen_of_def)
qed (assumption | rule step_connect step_accept step_drain step_poll step_self_poll step_command step_handle step_finish)+

lemma conv_reach_inv: "conv_reach fl py_repr hosts n w \<Longrightarrow> world_inv fl hosts n w"
  by (induction rule: conv_reach.induct) (auto intro: world_init conv_step_inv)

text \<open>C10: the coordinator's table holds first sightings and nothing else, and it loses none. In every
  reachable state of the system of one coordinator and \<open>n - 1\<close> observers, whatever the order in which
  connections, polls, commands and deliveries happen: a time stored for a service and a task is the
  clock reading of that task's first poll whose table contained the service; once the stream of an
  accepted observer is empty, every first sighting of a benchmark service by that observer is stored;
  and the coordinator's own sightings are stored at once.
\<close>

theorem seen_times_exact:
  assumes "conv_reach fl py_repr hosts n w"
  shows "(\<forall>i name t. map_of (seen_of (cw_coord w) name) i = Some t \<longrightarrow> first_seen (cw_log w) i name = Some t)
    \<and> (\<forall>i name. i \<noteq> 0 \<longrightarrow> cw_accepted w i \<noteq> None \<longrightarrow> os_out (cw_obs w i) = [] \<longrightarrow> bench_name name \<longrightarrow>
         map_of (seen_of (cw_coord w) name) i = first_seen (cw_log w) i name)
    \<and> (\<forall>name. bench_name name \<longrightarrow> map_of (seen_of (cw_coord w) name) 0 = first_seen (cw_log w) 0 name)"
proof -
  note inv = conv_reach_inv [OF assms]
  have self: "map_of (seen_of (cw_coord w) name) 0 = map_of (sightings (cw_log w) 0) name" for name
    using inv by (simp add: world_inv_def self_inv_def)
  have sound: "first_seen (cw_log w) i name = Some t" if t: "map_of (seen_of (cw_coord w) name) i = Some t" for i name t
  proof -
    have "map_of (sightings (cw_log w) i) name = Some t"
    proof (cases "i = 0")
      case False
      obtain dn ms where
          "link_inv fl hosts i (cw_obs w i) (cw_accepted w i) (cw_draining w i) (sightings (cw_log w) i) dn ms"
          "map_of (seen_of (cw_coord w) name) i = map_of dn name"
        using obs_link [OF world_obsD [OF inv] False] by metis
      then show ?thesis using t distinct_sightings [of "cw_log w" i] by (auto simp: link_inv_def map_of_append_distinct)
    qed (use t self in simp)
    then show ?thesis by (simp add: sightings_first_seen split: if_splits)
  qed
  have complete: "map_of (seen_of (cw_coord w) name) i = first_seen (cw_log w) i name"
    if i: "i \<noteq> 0" "cw_accepted w i \<noteq> None" "os_out (cw_obs w i) = []" "bench_name name" for i name
  proof -
    obtain dn ms where l:
        "link_inv fl hosts i (cw_obs w i) (cw_accepted w i) (cw_draining w i) (sightings (cw_log w) i) dn ms"
        "map_of (seen_of (cw_coord w) name) i = map_of dn name"
      using obs_link [OF world_obsD [OF inv] i(1)] by metis
    then have "ms = []" using i(2,3) by (cases ms) (auto simp: link_inv_def write_message_def)
    then show ?thesis using l i(4) sightings_first_seen [of "cw_log w" i name] by (simp add: link_inv_def)
  qed
  have own: "map_of (seen_of (cw_coord w) name) 0 = first_seen (cw_log w) 0 name" if "bench_name name" for name
    using self [of name] sightings_first_seen [of "cw_log w" 0 name] that by simp
  show ?thesis by (intro conjI allI impI) (fact sound complete own)+
qed

text \<open>One observer connects, is accepted, polls a table with one benchmark service, and reports it.\<close>

definition sample_table :: pyval where
  "sample_table = PDict [(''peer'', PDict [(''service'', PList [PDict [(''name'', PStr ''convbench-w-1'')]])])]"

lemma sample_names: "table_names sample_table = ([''convbench-w-1''], None)"
  by (simp add: sample_table_def table_names_def py_items_def peer_names_def py_get_def dict_get_default_def
      py_truthy_def py_list_val_def)

lemma reach_drain:
  assumes "conv_reach fl py_repr hosts n w" and "cw_accepted w i = Some (i, h)" and "cw_draining w i"
    and "os_out (cw_obs w i) = write_message fl (encode i m) @ rest"
  shows "conv_reach fl py_repr hosts n
    (w\<lparr>cw_coord := fst (drain_message i h (encode i m) (cw_coord w)),
       cw_obs := (cw_obs w)(i := (cw_obs w i)\<lparr>os_out := rest\<rparr>),
       cw_draining := (cw_draining w)(i := True)\<rparr>)"
proof -
  have d: "drain_message i h (encode i m) (cw_coord w) = (fst (drain_message i h (encode i m) (cw_coord w)), None)"
    by (rule prod_eqI) (simp_all add: drain_encode_no_error)
  from conv_reach.step [OF assms(1) conv_step.drain [OF assms(3,2) _ _ d]] show ?thesis
    using assms(4) by (simp add: read_line_write read_frame_dumps)
qed

lemma sample_run:
  "\<exists>w. conv_reach (\<lambda>_. []) (\<lambda>_. []) (\<lambda>_. ''h'') 2 w
     \<and> map_of (seen_of (cw_coord w) ''convbench-w-1'') 1 = Some 5"
proof -
  let ?R = "conv_reach (\<lambda>_. []) (\<lambda>_. []) (\<lambda>_. ''h'') 2"
  let ?W = "write_message (\<lambda>_. [])"
  let ?ob = "observer_start (\<lambda>_. []) 1 ''h'' 0 idle_observer"
  have out: "os_out ?ob = ?W (hello_message 1 ''h'') @ ?W (encode 1 (ChronyStart 0))" and pol: "os_polling ?ob"
    and sn: "os_seen ?ob = []"
    by (simp_all add: observer_start_def idle_observer_def)
  obtain w1 where w1: "?R w1" "cw_accepted w1 1 = None" "cw_obs w1 1 = ?ob"
    using conv_reach.step [OF conv_reach.start conv_step.connect [of 1 2 init_world _ _ _ 0]]
    by (force simp: init_world_def idle_observer_def)
  obtain w2 where w2: "?R w2" "cw_accepted w2 1 = Some (1, ''h'')" "cw_draining w2 1"
      "cw_obs w2 1 = ?ob\<lparr>os_out := ?W (encode 1 (ChronyStart 0))\<rparr>"
    using conv_reach.step [OF w1(1) conv_step.accept [OF w1(2) _ _ accept_hello]]
    by (force simp: w1(3) out read_line_write read_frame_dumps simp del: encode.simps)
  obtain w3 where w3: "?R w3" "cw_accepted w3 1 = Some (1, ''h'')" "cw_draining w3 1" "cw_obs w3 1 = ?ob\<lparr>os_out := []\<rparr>"
    using reach_drain [OF w2(1-3), of "ChronyStart 0" "[]"] by (force simp: w2(2,4) simp del: encode.simps)
  obtain w4 where w4: "?R w4" "cw_accepted w4 1 = Some (1, ''h'')" "cw_draining w4 1"
      "os_out (cw_obs w4 1) = ?W (encode 1 (Seen 5 [''convbench-w-1'']))"
    using conv_reach.step [OF w3(1) conv_step.poll [of w3 1 _ _ _ _ 5 "Inr sample_table"]]
    by (force simp: w3(2-4) pol sn poll_dnt_def sample_names bench_name_def)
  let ?st = "fst (drain_message 1 ''h'' (encode 1 (Seen 5 [''convbench-w-1''])) (cw_coord w4))"
  have "map_of (seen_of ?st ''convbench-w-1'') 1 = Some 5" by (simp add: drain_encode_seen del: encode.simps)
  then show ?thesis
    using reach_drain [OF w4(1-3), of "Seen 5 [''convbench-w-1'']" "[]"] w4(4) by force
qed

theorem seen_times_exact_witness:
  "\<exists>w. conv_reach (\<lambda>_. []) (\<lambda>_. []) (\<lambda>_. ''h'') 2 w
     \<and> map_of (seen_of (cw_coord w) ''convbench-w-1'') 1 = Some 5
     \<and> first_seen (cw_log w) 1 ''convbench-w-1'' = Some 5"
proof -
  obtain w where w: "conv_reach (\<lambda>_. []) (\<lambda>_. []) (\<lambda>_. ''h'') 2 w"
      "map_of (seen_of (cw_coord w) ''convbench-w-1'') 1 = Some 5"
    using sample_run by blast
  from seen_times_exact [OF w(1)] w(2) have "first_seen (cw_log w) 1 ''convbench-w-1'' = Some 5" by blast
  then show ?thesis using w by blast
qed

end
