(* ===== verification/Conv_Results.thy ===== *)
theory Conv_Results
  imports Conv_Bench
begin

text \<open>
  The measurement of the convergence benchmark: the loop of \<open>coordinator.main\<close> that writes services
  and waits for the tasks to see them, the results document, and its conversion into rows
  (\<open>aggregate.py\<close>).

  A waiting loop reads the clock and then takes a copy of the state under the lock. The pairs it
  reads, in order, are an argument; with a list that ends before the loop does, the model gives
  \<open>None\<close>. Deadlines are clock readings plus the timeout, also arguments. Python visits the small
  non-negative task ids of a set in ascending order.
\<close>

section \<open>Waiting\<close>

type_synonym observation = "real \<times> conv_state"

fun wait_ack :: "int \<times> int \<Rightarrow> real \<Rightarrow> observation list \<Rightarrow> int option option" where
  "wait_ack key deadline [] = None"
| "wait_ack key deadline ((now, st) # rest) =
     (if now < deadline then
        (case map_of (cv_writer_done st) key of
           Some t \<Rightarrow> Some (Some t)
         | None \<Rightarrow> wait_ack key deadline rest)
      else Some None)"

definition missing_tasks :: "(int \<times> int) list \<Rightarrow> int list \<Rightarrow> int list" where
  "missing_tasks seen expected = filter (\<lambda>t. map_of seen t = None) expected"

fun wait_seen_by_all :: "string \<Rightarrow> int list \<Rightarrow> real \<Rightarrow> observation list \<Rightarrow> ((int \<times> int) list \<times> int list) option" where
  "wait_seen_by_all name expected deadline [] = None"
| "wait_seen_by_all name expected deadline ((now, st) # rest) =
     (if now < deadline then
        (if missing_tasks (seen_of st name) expected = [] then Some (seen_of st name, [])
         else wait_seen_by_all name expected deadline rest)
      else Some (seen_of st name, missing_tasks (seen_of st name) expected))"

text \<open>\<open>_stabilize\<close>: the warm-up write must be seen by every observer before the deadline.\<close>

definition stabilize :: "string \<Rightarrow> int res \<Rightarrow> (int \<times> string) list \<Rightarrow> real \<Rightarrow> observation list \<Rightarrow> int \<Rightarrow> pyval res option" where
  "stabilize name warmup observers deadline obs stable_at =
     (case warmup of
        Inl e \<Rightarrow> Some (Inl e)
      | Inr t_warmup \<Rightarrow>
          map_option (\<lambda>(_, missing).
              Inr (PDict [(''warmup_at_ns'', PInt t_warmup), (''stable_at_ns'', PInt stable_at),
                          (''missing'', PList (map PInt (sort missing)))]))
            (wait_seen_by_all name (map fst observers) deadline obs))"

section \<open>The write loop\<close>

record write_env =
  we_self_write :: "int res"
  we_ack_deadline :: real
  we_acks :: "observation list"
  we_deadline :: real
  we_sightings :: "observation list"

definition service_name :: "string \<Rightarrow> nat \<Rightarrow> int \<Rightarrow> string" where
  "service_name run_id seq writer = ''convbench-w-'' @ run_id @ ''-s'' @ str_nat seq @ ''-'' @ str_int writer"

definition write_record :: "nat \<Rightarrow> int \<Rightarrow> string \<Rightarrow> pyval \<Rightarrow> pyval pydict \<Rightarrow> pyval pydict \<Rightarrow> pyval" where
  "write_record seq writer name t_write seen extra =
     PDict ([(''seq'', PInt (int seq)), (''writer_task_id'', PInt writer), (''service_name'', PStr name),
             (''t_write_ns'', t_write), (''seen'', PDict seen)] @ extra)"

definition seen_out :: "(int \<times> int) list \<Rightarrow> int list \<Rightarrow> pyval pydict" where
  "seen_out seen missing =
     foldl (\<lambda>d m. dict_set (str_int m) (PStr ''TIMEOUT'') d)
       (foldl (\<lambda>d (k, v). dict_set (str_int k) (PInt v) d) [] seen) missing"

definition record_sightings :: "int \<Rightarrow> nat \<Rightarrow> int \<Rightarrow> string \<Rightarrow> int \<Rightarrow> write_env \<Rightarrow> pyval res option" where
  "record_sightings n seq writer name t_write env =
     map_option (\<lambda>(seen, missing). Inr (write_record seq writer name (PInt t_write) (seen_out seen missing) []))
       (wait_seen_by_all name (filter (\<lambda>t. t \<noteq> writer) [0..n - 1]) (we_deadline env) (we_sightings env))"

definition failed_write :: "nat \<Rightarrow> int \<Rightarrow> string \<Rightarrow> string \<Rightarrow> pyval" where
  "failed_write seq writer name err = write_record seq writer name PNone [] [(''error'', PStr err)]"

definition write_one ::
  "(py_exn \<Rightarrow> string) \<Rightarrow> int \<Rightarrow> string \<Rightarrow> (int \<times> string) list \<Rightarrow> nat \<Rightarrow> int \<Rightarrow> write_env \<Rightarrow> pyval res option" where
  "write_one py_repr n run_id observers seq writer env =
     (let name = service_name run_id seq writer in
      if writer = 0 then
        (case we_self_write env of
           Inl e \<Rightarrow> Some (Inr (failed_write seq writer name (py_repr e)))
         | Inr t_write \<Rightarrow> record_sightings n seq writer name t_write env)
      else if map_of observers writer = None then Some (Inl (KeyError (str_int writer)))
      else
        (case wait_ack (writer, int seq) (we_ack_deadline env) (we_acks env) of
           None \<Rightarrow> None
         | Some None \<Rightarrow> Some (Inr (failed_write seq writer name ''writer_no_ack''))
         | Some (Some t_write) \<Rightarrow> record_sightings n seq writer name t_write env))"

fun write_loop ::
  "(py_exn \<Rightarrow> string) \<Rightarrow> int \<Rightarrow> string \<Rightarrow> (int \<times> string) list \<Rightarrow> nat \<Rightarrow> (int \<times> write_env) list \<Rightarrow> pyval list res option" where
  "write_loop py_repr n run_id observers seq [] = Some (Inr [])"
| "write_loop py_repr n run_id observers seq ((writer, env) # ws) =
     (case write_one py_repr n run_id observers seq writer env of
        None \<Rightarrow> None
      | Some (Inl e) \<Rightarrow> Some (Inl e)
      | Some (Inr r) \<Rightarrow>
          (case write_loop py_repr n run_id observers (Suc seq) ws of
             None \<Rightarrow> None
           | Some (Inl e) \<Rightarrow> Some (Inl e)
           | Some (Inr rs) \<Rightarrow> Some (Inr (r # rs))))"

section \<open>The results document\<close>

definition clock_flags :: "int pydict \<Rightarrow> int pydict \<Rightarrow> string list" where
  "clock_flags start finish =
     (if \<exists>(host, o_start) \<in> set start.
           (case map_of finish host of Some o_end \<Rightarrow> \<bar>o_end - o_start\<bar> > 5000000 | None \<Rightarrow> False)
      then [''clock_drift''] else [])"

definition node_entry :: "int \<Rightarrow> string \<Rightarrow> string \<Rightarrow> pyval" where
  "node_entry task host role =
     PDict [(''task_id'', PInt task), (''host'', PStr host), (''peer_id'', PStr []), (''role'', PStr role)]"

definition node_list :: "string \<Rightarrow> (int \<times> string) list \<Rightarrow> pyval list" where
  "node_list host observers =
     node_entry 0 host ''coordinator'' # map (\<lambda>(t, h). node_entry t h ''observer'') (sort_key fst observers)"

definition cell_results ::
  "string \<Rightarrow> int \<Rightarrow> int \<Rightarrow> string \<Rightarrow> string \<times> string \<times> string \<Rightarrow> conv_state \<Rightarrow> pyval \<Rightarrow> pyval list \<Rightarrow> pyval" where
  "cell_results run_id n rep host stamps st stab writes =
     (case stamps of (job_id, started, finished) \<Rightarrow>
        PDict [(''run_id'', PStr run_id), (''N'', PInt n), (''rep'', PInt rep), (''job_id'', PStr job_id),
               (''started_at'', PStr started), (''finished_at'', PStr finished),
               (''nodes'', PList (node_list host (cv_observers st))),
               (''clock_offsets_ns'',
                  PDict [(''start'', PDict (map (\<lambda>(h, v). (h, PInt v)) (cv_chrony_start st))),
                         (''end'', PDict (map (\<lambda>(h, v). (h, PInt v)) (cv_chrony_end st)))]),
               (''stabilization'', stab), (''writes'', PList writes),
               (''flags'', PList (map PStr (clock_flags (cv_chrony_start st) (cv_chrony_end st))))])"

text \<open>
  \<open>coordinator.main\<close>: no cell without all its observers or without a warm-up that every observer
  saw. The accept loop has ended by then, so the observers are those of the final state \<open>st\<close>.
\<close>

definition coordinator_main ::
  "(py_exn \<Rightarrow> string) \<Rightarrow> bool \<Rightarrow> string \<Rightarrow> int \<Rightarrow> int \<Rightarrow> string \<Rightarrow> string \<times> string \<times> string \<Rightarrow>
     string \<times> int res \<times> real \<times> observation list \<times> int \<Rightarrow> (int \<times> write_env) list \<Rightarrow> conv_state \<Rightarrow> pyval res option" where
  "coordinator_main py_repr ready run_id n rep host stamps warmup ws st =
     (if \<not> ready then Some (Inl (RuntimeError ''observers missing''))
      else
        (case warmup of (hex6, t_warmup, deadline, obs, stable_at) \<Rightarrow>
        (case stabilize (''convbench-warmup-'' @ run_id @ ''-'' @ hex6) t_warmup (cv_observers st) deadline obs stable_at of
           None \<Rightarrow> None
         | Some (Inl e) \<Rightarrow> Some (Inl e)
         | Some (Inr stab) \<Rightarrow>
             if py_item stab ''missing'' \<noteq> Inr (PList []) then Some (Inl (RuntimeError ''failed_stabilization''))
             else
               (case write_loop py_repr n run_id (cv_observers st) 0 ws of
                  None \<Rightarrow> None
                | Some (Inl e) \<Rightarrow> Some (Inl e)
                | Some (Inr recs) \<Rightarrow> Some (Inr (cell_results run_id n rep host stamps st stab recs))))))"

section \<open>Aggregation\<close>

record conv_row =
  cr_run_id :: pyval
  cr_N :: int
  cr_rep :: int
  cr_seq :: int
  cr_writer :: int
  cr_observer :: int
  cr_writer_host :: pyval
  cr_observer_host :: pyval
  cr_t_write :: int
  cr_t_seen :: "int option"
  cr_offset_writer :: int
  cr_offset_observer :: int
  cr_latency :: "int option"
  cr_status :: string
  cr_flags :: "pyval list"

definition item_int :: "pyval \<Rightarrow> string \<Rightarrow> int res" where
  "item_int v k = rbind (py_item v k) py_int_val"

fun host_for_task :: "pyval list \<Rightarrow> int \<Rightarrow> pyval res" where
  "host_for_task [] task = Inl (KeyError ''task_id not in nodes manifest'')"
| "host_for_task (nd # nds) task =
     rbind (item_int nd ''task_id'') (\<lambda>t. if t = task then py_item nd ''host'' else host_for_task nds task)"

definition offset_of_host :: "pyval \<Rightarrow> pyval \<Rightarrow> int res" where
  "offset_of_host offsets host =
     (case host of PStr h \<Rightarrow> item_int offsets h | _ \<Rightarrow> Inl (KeyError ''host''))"

definition sighting_row ::
  "pyval \<Rightarrow> pyval list \<Rightarrow> pyval \<Rightarrow> pyval list \<Rightarrow> pyval \<Rightarrow> int \<Rightarrow> pyval \<Rightarrow> string \<times> pyval \<Rightarrow> conv_row list res" where
  "sighting_row raw nodes offsets flags w writer writer_host entry =
     rbind (py_int_str (fst entry)) (\<lambda>obs.
       if obs = writer then Inr []
       else
         rbind (host_for_task nodes obs) (\<lambda>obs_host.
         rbind (offset_of_host offsets writer_host) (\<lambda>o_writer.
         rbind (offset_of_host offsets obs_host) (\<lambda>o_obs.
         rbind (if snd entry = PStr ''TIMEOUT'' then Inr (''timeout'', None, None)
                else rbind (py_int_val (snd entry)) (\<lambda>t_seen.
                     rbind (item_int w ''t_write_ns'') (\<lambda>t_write.
                       Inr (''ok'', Some t_seen, Some (t_seen - t_write - (o_obs - o_writer))))))
           (\<lambda>(status, t_seen, latency).
         rbind (py_item raw ''run_id'') (\<lambda>run_id.
         rbind (item_int raw ''N'') (\<lambda>n.
         rbind (item_int raw ''rep'') (\<lambda>rep.
         rbind (item_int w ''seq'') (\<lambda>seq.
         rbind (item_int w ''t_write_ns'') (\<lambda>t_write.
           Inr [\<lparr>cr_run_id = run_id, cr_N = n, cr_rep = rep, cr_seq = seq, cr_writer = writer,
                 cr_observer = obs, cr_writer_host = writer_host, cr_observer_host = obs_host,
                 cr_t_write = t_write, cr_t_seen = t_seen, cr_offset_writer = o_writer,
                 cr_offset_observer = o_obs, cr_latency = latency, cr_status = status,
                 cr_flags = flags\<rparr>]))))))))))"

definition concat_res :: "'a list list res \<Rightarrow> 'a list res" where
  "concat_res r = rbind r (\<lambda>xss. Inr (concat xss))"

definition write_rows :: "pyval \<Rightarrow> pyval list \<Rightarrow> pyval \<Rightarrow> pyval list \<Rightarrow> pyval \<Rightarrow> conv_row list res" where
  "write_rows raw nodes offsets flags w =
     rbind (item_int w ''writer_task_id'') (\<lambda>writer.
     rbind (host_for_task nodes writer) (\<lambda>writer_host.
     rbind (rbind (py_item w ''seen'') py_items) (\<lambda>seen.
       concat_res (map_res (sighting_row raw nodes offsets flags w writer writer_host) seen))))"

definition aggregate_cell :: "pyval \<Rightarrow> conv_row list res" where
  "aggregate_cell raw =
     rbind (rbind (py_item raw ''nodes'') py_list_val) (\<lambda>nodes.
     rbind (rbind (py_get raw ''flags'' (PList [])) py_list_val) (\<lambda>flags.
     rbind (rbind (py_item raw ''clock_offsets_ns'') (\<lambda>c. py_item c ''start'')) (\<lambda>offsets.
     rbind (rbind (py_item raw ''writes'') py_list_val) (\<lambda>writes.
       concat_res (map_res (write_rows raw nodes offsets flags) writes)))))"

text \<open>\<open>aggregate_run\<close> over the documents of a run, in the order of their paths.\<close>

definition aggregate_run :: "pyval list \<Rightarrow> conv_row list res" where
  "aggregate_run cells =
     (if cells = [] then Inl (FileNotFoundError ''no results.json'')
      else concat_res (map_res aggregate_cell cells))"

section \<open>Waiting ends, and reports what it saw\<close>

lemma wait_seen_by_all_result:
  "wait_seen_by_all name expected deadline obs = Some (seen, missing) \<Longrightarrow>
   (\<exists>now st. (now, st) \<in> set obs \<and> seen = seen_of st name) \<and> missing = missing_tasks seen expected"
  by (induction name expected deadline obs rule: wait_seen_by_all.induct) (auto split: if_splits)

text \<open>A loop whose clock reaches the deadline returns.\<close>

lemma wait_seen_by_all_returns:
  "\<exists>(now, st) \<in> set obs. deadline \<le> now \<Longrightarrow> wait_seen_by_all name expected deadline obs \<noteq> None"
  by (induction name expected deadline obs rule: wait_seen_by_all.induct) auto

lemma wait_ack_returns:
  "\<exists>(now, st) \<in> set obs. deadline \<le> now \<Longrightarrow> wait_ack key deadline obs \<noteq> None"
  by (induction key deadline obs rule: wait_ack.induct) (auto split: option.splits)

section \<open>Keys of the sightings\<close>

definition keys_distinct :: "conv_state \<Rightarrow> bool" where
  "keys_distinct st \<longleftrightarrow> (\<forall>name. distinct (map fst (seen_of st name)))"

lemma keys_distinct_cong: "cv_seen st' = cv_seen st \<Longrightarrow> keys_distinct st \<Longrightarrow> keys_distinct st'"
  by (simp add: keys_distinct_def seen_of_def)

lemma keys_distinct_set_seen: "keys_distinct st \<Longrightarrow> keys_distinct (set_seen task ev st)"
proof -
  assume d: "keys_distinct st"
  have "seen_of (set_seen task ev st) name =
      (if name = fst ev then AList.update task (snd ev) (seen_of st name) else seen_of st name)" for name
    by (auto simp: seen_of_def set_seen_def update_conv' split: option.splits)
  then show ?thesis using d by (simp add: keys_distinct_def distinct_update)
qed

lemma keys_distinct_fold: "keys_distinct st \<Longrightarrow> keys_distinct (fold (\<lambda>n. set_seen task (n, t)) ns st)"
  by (induction ns arbitrary: st) (simp_all add: keys_distinct_set_seen)

lemma keys_distinct_events: "keys_distinct st \<Longrightarrow> keys_distinct (fst (drain_events task evs st))"
  by (induction task evs st rule: drain_events.induct) (auto simp: keys_distinct_set_seen split: sum.splits)

lemma keep_on_simps [simp]:
  "keep_on (rbind m h) st = (case m of Inl e \<Rightarrow> (st, Some e) | Inr x \<Rightarrow> keep_on (h x) st)"
  "keep_on (Inr f) st = (f st, None)"
  by (simp_all add: keep_on_def split: sum.splits)

lemma keys_distinct_fields [simp]:
  "keys_distinct (st\<lparr>cv_chrony_start := a\<rparr>) = keys_distinct st" "keys_distinct (st\<lparr>cv_chrony_end := b\<rparr>) = keys_distinct st"
  "keys_distinct (st\<lparr>cv_writer_done := c\<rparr>) = keys_distinct st" "keys_distinct (st\<lparr>cv_writer_error := d\<rparr>) = keys_distinct st"
  by (simp_all add: keys_distinct_def seen_of_def)

lemma keys_distinct_drain: "keys_distinct st \<Longrightarrow> keys_distinct (fst (drain_message task host msg st))"
  by (simp add: drain_message_def keys_distinct_events split: sum.split)

lemma keys_distinct_accept: "accept_observer first st = Inr (st', c) \<Longrightarrow> cv_seen st' = cv_seen st"
  by (auto simp: accept_observer_def res_simps split: option.splits if_splits)

lemma keys_distinct_step: "conv_step fl py_repr hosts n w w' \<Longrightarrow> keys_distinct (cw_coord w) \<Longrightarrow> keys_distinct (cw_coord w')"
proof (induction rule: conv_step.induct)
  case (accept w i line rest first st conn)
  then show ?case using keys_distinct_cong [OF keys_distinct_accept] by simp
next
  case (drain w i task host line rest msg st e)
  then show ?case using keys_distinct_drain [of "cw_coord w" task host msg] by simp
next
  case (self_poll w t0 reply seen st alive)
  then have "keys_distinct st"
    by (auto simp: self_poll_def case_prod_unfold Let_def keys_distinct_fold split: sum.splits)
  then show ?case by simp
qed (auto intro: keys_distinct_cong)

lemma seen_keys:
  assumes "conv_reach fl py_repr hosts n w"
  shows "distinct (map fst (seen_of (cw_coord w) name))"
    and "k \<in> fst ` set (seen_of (cw_coord w) name) \<Longrightarrow> 0 \<le> k \<and> (k = 0 \<or> k < n)"
proof -
  have "keys_distinct (cw_coord w)"
    using assms
  proof (induction rule: conv_reach.induct)
    case start
    show ?case by (simp add: init_world_def init_conv_state_def keys_distinct_def seen_of_def)
  next
    case (step w w')
    then show ?case using keys_distinct_step by blast
  qed
  then show "distinct (map fst (seen_of (cw_coord w) name))" by (simp add: keys_distinct_def)
  assume k: "k \<in> fst ` set (seen_of (cw_coord w) name)"
  then have m: "map_of (seen_of (cw_coord w) name) k \<noteq> None" by (simp add: map_of_eq_None_iff)
  show "0 \<le> k \<and> (k = 0 \<or> k < n)"
  proof (cases "k = 0")
    case False
    have o: "obs_inv fl hosts n w k" by (rule world_obsD [OF conv_reach_inv [OF assms]])
    then obtain dn ms where "link_inv fl hosts k (cw_obs w k) (cw_accepted w k) (cw_draining w k) (sightings (cw_log w) k) dn ms"
        "map_of (seen_of (cw_coord w) name) k = map_of dn name"
      using obs_link [OF _ False] by metis
    then have "os_connected (cw_obs w k)" using m by (auto simp: link_inv_def)
    then show ?thesis using o by (auto simp: obs_inv_def)
  qed simp
qed

section \<open>Rows of a write\<close>

lemma py_int_str_str_int: "py_int_str (str_int k) = Inr k"
proof (cases "k < 0")
  case True
  let ?s = "str_nat (nat (- k))"
  have d: "\<And>c. c \<in> set ?s \<Longrightarrow> is_digit c" by (rule str_nat_digits)
  have "strip_by is_c_space (CHR ''-'' # ?s) = CHR ''-'' # ?s"
  proof (rule strip_by_none)
    fix c assume "c \<in> set (CHR ''-'' # ?s)"
    then consider "c = CHR ''-''" | "is_digit c" using d by auto
    then show "\<not> is_c_space c" by cases (simp add: is_c_space_def, rule is_digit_not_space)
  qed
  moreover have "filter (\<lambda>c. c \<noteq> CHR ''_'') ?s = ?s"
    by (rule filter_True) (metis d not_digit_punctuation(1))
  moreover have "digits_ok ?s" by (rule digits_ok_all) (auto intro: d)
  ultimately show ?thesis using True by (simp add: str_int_def py_int_str_def Let_def)
next
  case False
  then show ?thesis by (simp add: str_int_def py_int_str_str_nat)
qed

lemma str_int_inj: "str_int a = str_int b \<longleftrightarrow> a = b"
  by (metis py_int_str_str_int sum.inject(2))

lemma seen_out_eq:
  assumes "distinct (map fst seen @ missing)"
  shows "seen_out seen missing =
    map (\<lambda>(k, v). (str_int k, PInt v)) seen @ map (\<lambda>m. (str_int m, PStr ''TIMEOUT'')) missing"
proof -
  let ?a = "map (\<lambda>(k, v). (str_int k, PInt v)) seen" and ?b = "map (\<lambda>m. (str_int m, PStr ''TIMEOUT'')) missing"
  have "seen_out seen missing = foldl (\<lambda>m (k, v). dict_set k v m) (foldl (\<lambda>m (k, v). dict_set k v m) [] ?a) ?b"
    by (simp add: seen_out_def foldl_map case_prod_unfold)
  moreover have "distinct (map fst (?a @ ?b))"
  proof -
    have "map fst (?a @ ?b) = map str_int (map fst seen @ missing)" by (simp add: case_prod_unfold comp_def)
    then show ?thesis using assms by (simp add: distinct_map inj_on_def str_int_inj del: map_append)
  qed
  ultimately show ?thesis
    using foldl_dict_set [of "[]" ?a] foldl_dict_set [of ?a ?b] by simp
qed

text \<open>Hosts and offsets of the tasks, as the results document has them.\<close>

definition host_of :: "string \<Rightarrow> (int \<times> string) list \<Rightarrow> int \<Rightarrow> string" where
  "host_of host observers t = (if t = 0 then host else the (map_of observers t))"

definition offsets_ok :: "int \<Rightarrow> string \<Rightarrow> conv_state \<Rightarrow> (int \<Rightarrow> int) \<Rightarrow> bool" where
  "offsets_ok n host st off \<longleftrightarrow>
     distinct (map fst (cv_observers st)) \<and> fst ` set (cv_observers st) = {1..<n} \<and>
     (\<forall>t \<in> {0..<n}. map_of (cv_chrony_start st) (host_of host (cv_observers st) t) = Some (off t))"

lemma host_for_task_entries:
  "map_of xs t = Some h \<Longrightarrow> host_for_task (map (\<lambda>(t, h). node_entry t h role) xs) t = Inr (PStr h)"
  by (induction xs) (auto simp: node_entry_def item_int_def py_item_def dict_get_def py_int_val_def)

lemma host_for_task_nodes:
  assumes "offsets_ok n host st off" and "0 \<le> t" and "t < n"
  shows "host_for_task (node_list host (cv_observers st)) t = Inr (PStr (host_of host (cv_observers st) t))"
proof (cases "t = 0")
  case True
  then show ?thesis
    by (simp add: node_list_def node_entry_def item_int_def py_item_def dict_get_def py_int_val_def host_of_def)
next
  case False
  have d: "distinct (map fst (cv_observers st))" and t: "t \<in> fst ` set (cv_observers st)"
    using assms False by (auto simp: offsets_ok_def)
  have "distinct (map fst (sort_key fst (cv_observers st)))"
    using d by (metis distinct_sort distinct_map set_sort)
  then have "map_of (sort_key fst (cv_observers st)) = map_of (cv_observers st)"
    using d by (subst map_of_inject_set) simp_all
  moreover obtain h where "map_of (cv_observers st) t = Some h" using t by (metis map_of_eq_None_iff not_None_eq)
  ultimately have "host_for_task (map (\<lambda>(t, h). node_entry t h ''observer'') (sort_key fst (cv_observers st))) t = Inr (PStr h)"
    by (intro host_for_task_entries) simp
  then show ?thesis using False \<open>map_of (cv_observers st) t = Some h\<close>
    by (simp add: node_list_def node_entry_def item_int_def py_item_def dict_get_def py_int_val_def host_of_def)
qed

lemma offset_of_host_start:
  assumes "offsets_ok n host st off" and "0 \<le> t" and "t < n"
  shows "offset_of_host (PDict (map (\<lambda>(h, v). (h, PInt v)) (cv_chrony_start st))) (PStr (host_of host (cv_observers st) t)) = Inr (off t)"
proof -
  have "map_of (map (\<lambda>(h, v). (h, PInt v)) xs) k = map_option PInt (map_of xs k)" for xs and k :: string
    by (induction xs) auto
  then show ?thesis
    using assms by (simp add: offsets_ok_def offset_of_host_def item_int_def py_item_def dict_get_def py_int_val_def)
qed

definition measured_row ::
  "string \<Rightarrow> int \<Rightarrow> int \<Rightarrow> pyval list \<Rightarrow> (int \<Rightarrow> string) \<Rightarrow> (int \<Rightarrow> int) \<Rightarrow> nat \<Rightarrow> int \<Rightarrow> int \<Rightarrow> int \<Rightarrow> int option \<Rightarrow> conv_row" where
  "measured_row run_id n rep flags hosts off seq writer t_write j t_seen =
     \<lparr>cr_run_id = PStr run_id, cr_N = n, cr_rep = rep, cr_seq = int seq, cr_writer = writer, cr_observer = j,
      cr_writer_host = PStr (hosts writer), cr_observer_host = PStr (hosts j), cr_t_write = t_write,
      cr_t_seen = t_seen, cr_offset_writer = off writer, cr_offset_observer = off j,
      cr_latency = map_option (\<lambda>t. t - t_write - (off j - off writer)) t_seen,
      cr_status = (if t_seen = None then ''timeout'' else ''ok''), cr_flags = flags\<rparr>"

lemma map_res_map_Inr: "(\<And>x. x \<in> set xs \<Longrightarrow> f x = Inr (g x)) \<Longrightarrow> map_res f xs = Inr (map g xs)"
  by (induction xs) auto
text \<open>The items of the results document and of a record that the aggregation reads.\<close>

lemma cell_results_items:
  "py_item (cell_results run_id n rep host stamps st stab writes) ''run_id'' = Inr (PStr run_id)"
  "item_int (cell_results run_id n rep host stamps st stab writes) ''N'' = Inr n"
  "item_int (cell_results run_id n rep host stamps st stab writes) ''rep'' = Inr rep"
  "py_item (cell_results run_id n rep host stamps st stab writes) ''nodes'' = Inr (PList (node_list host (cv_observers st)))"
  "py_item (cell_results run_id n rep host stamps st stab writes) ''writes'' = Inr (PList writes)"
  "py_get (cell_results run_id n rep host stamps st stab writes) ''flags'' (PList []) =
     Inr (PList (map PStr (clock_flags (cv_chrony_start st) (cv_chrony_end st))))"
  "rbind (py_item (cell_results run_id n rep host stamps st stab writes) ''clock_offsets_ns'') (\<lambda>c. py_item c ''start'') =
     Inr (PDict (map (\<lambda>(h, v). (h, PInt v)) (cv_chrony_start st)))"
  by (simp_all add: cell_results_def py_item_def item_int_def py_get_def dict_get_def dict_get_default_def py_int_val_def
      split: prod.split)

lemma write_record_items:
  "item_int (write_record seq writer name tw seen extra) ''seq'' = Inr (int seq)"
  "item_int (write_record seq writer name tw seen extra) ''writer_task_id'' = Inr writer"
  "py_item (write_record seq writer name tw seen extra) ''t_write_ns'' = Inr tw"
  "item_int (write_record seq writer name (PInt t) seen extra) ''t_write_ns'' = Inr t"
  "rbind (py_item (write_record seq writer name tw seen extra) ''seen'') py_items = Inr seen"
  by (simp_all add: write_record_def py_item_def item_int_def dict_get_def py_int_val_def py_items_def)

lemma sighting_row_eq:
  fixes st :: conv_state and seq :: nat and writer t_write :: int and name :: string and seen :: "pyval pydict"
  defines "w \<equiv> write_record seq writer name (PInt t_write) seen []"
  assumes "offsets_ok n host st off" and "0 \<le> writer" "writer < n" and "0 \<le> j" "j < n" and "j \<noteq> writer"
    and "v = (case t_seen of Some t \<Rightarrow> PInt t | None \<Rightarrow> PStr ''TIMEOUT'')"
  shows "sighting_row (cell_results run_id n rep host stamps st stab writes) (node_list host (cv_observers st))
      (PDict (map (\<lambda>(h, v). (h, PInt v)) (cv_chrony_start st))) flags w writer
      (PStr (host_of host (cv_observers st) writer)) (str_int j, v)
    = Inr [measured_row run_id n rep flags (host_of host (cv_observers st)) off seq writer t_write j t_seen]"
proof (cases t_seen)
  case None
  then show ?thesis
    using assms(3-8)
    by (simp add: sighting_row_def w_def py_int_str_str_int host_for_task_nodes [OF assms(2)]
        offset_of_host_start [OF assms(2)] cell_results_items write_record_items measured_row_def)
next
  case (Some t)
  then show ?thesis
    using assms(3-8)
    by (simp add: sighting_row_def w_def py_int_str_str_int host_for_task_nodes [OF assms(2)]
        offset_of_host_start [OF assms(2)] cell_results_items write_record_items measured_row_def py_int_val_def)
qed

text \<open>Rows of a measured write: one for each task of the table or of the missing ones, but the writer.\<close>

lemma write_rows_measured:
  fixes st :: conv_state and seq :: nat
  assumes "offsets_ok n host st off" and "0 \<le> writer" "writer < n"
    and "distinct (map fst seen @ missing)" and "set (map fst seen @ missing) \<subseteq> {0..<n}"
  shows "write_rows (cell_results run_id n rep host stamps st stab writes) (node_list host (cv_observers st))
      (PDict (map (\<lambda>(h, v). (h, PInt v)) (cv_chrony_start st))) flags
      (write_record seq writer name (PInt t_write) (seen_out seen missing) [])
    = Inr (map (\<lambda>j. measured_row run_id n rep flags (host_of host (cv_observers st)) off seq writer t_write j (map_of seen j))
        (filter (\<lambda>j. j \<noteq> writer) (map fst seen @ missing)))"
proof -
  let ?w = "write_record seq writer name (PInt t_write) (seen_out seen missing) []"
  let ?row = "\<lambda>j. measured_row run_id n rep flags (host_of host (cv_observers st)) off seq writer t_write j (map_of seen j)"
  let ?sr = "sighting_row (cell_results run_id n rep host stamps st stab writes) (node_list host (cv_observers st))
      (PDict (map (\<lambda>(h, v). (h, PInt v)) (cv_chrony_start st))) flags ?w writer (PStr (host_of host (cv_observers st) writer))"
  have row: "?sr (str_int j, case map_of seen j of Some t \<Rightarrow> PInt t | None \<Rightarrow> PStr ''TIMEOUT'') =
      Inr (if j = writer then [] else [?row j])" if "j \<in> set (map fst seen @ missing)" for j
  proof (cases "j = writer")
    case True
    then show ?thesis by (simp add: sighting_row_def py_int_str_str_int)
  next
    case False
    moreover have "0 \<le> j" "j < n" using that assms(5) by auto
    ultimately show ?thesis by (simp add: sighting_row_eq [OF assms(1-3)])
  qed
  have "map_of seen (fst kv) = Some (snd kv)" if "kv \<in> set seen" for kv
    using assms(4) that by (cases kv) simp
  moreover have "map_of seen m = None" if "m \<in> set missing" for m
    using assms(4) that by (auto simp: map_of_eq_None_iff)
  ultimately have out: "seen_out seen missing =
      map (\<lambda>j. (str_int j, case map_of seen j of Some t \<Rightarrow> PInt t | None \<Rightarrow> PStr ''TIMEOUT'')) (map fst seen @ missing)"
    unfolding seen_out_eq [OF assms(4)] by (auto simp: case_prod_unfold)
  have "map_res ?sr (seen_out seen missing) = Inr (map (\<lambda>j. if j = writer then [] else [?row j]) (map fst seen @ missing))"
  proof -
    have "map_res ?sr (map (\<lambda>j. (str_int j, case map_of seen j of Some t \<Rightarrow> PInt t | None \<Rightarrow> PStr ''TIMEOUT'')) js)
        = Inr (map (\<lambda>j. if j = writer then [] else [?row j]) js)"
      if "set js \<subseteq> set (map fst seen @ missing)" for js
      using that row by (induction js) auto
    from this [of "map fst seen @ missing"] show ?thesis unfolding out by simp
  qed
  moreover have "concat (map (\<lambda>j. if j = writer then [] else [?row j]) js) = map ?row (filter (\<lambda>j. j \<noteq> writer) js)" for js
    by (induction js) auto
  ultimately show ?thesis
    by (simp add: write_rows_def write_record_items host_for_task_nodes [OF assms(1-3)] concat_res_def del: map_append)
qed

section \<open>The rows of a cell\<close>

text \<open>The write was acknowledged: its record has a time.\<close>

definition acked :: "pyval \<Rightarrow> bool" where
  "acked r \<longleftrightarrow> py_item r ''t_write_ns'' \<noteq> Inr PNone"

definition row_ok :: "(int \<Rightarrow> int) \<Rightarrow> conv_row \<Rightarrow> bool" where
  "row_ok off r =
     (case cr_t_seen r of
        None \<Rightarrow> cr_status r = ''timeout'' \<and> cr_latency r = None
      | Some t \<Rightarrow> cr_status r = ''ok'' \<and>
          cr_latency r = Some ((t - off (cr_observer r)) - (cr_t_write r - off (cr_writer r))))"

text \<open>Every table the loop looks at is a state of the coordinator in some run.\<close>

definition sampled :: "(real \<Rightarrow> string) \<Rightarrow> (py_exn \<Rightarrow> string) \<Rightarrow> (int \<Rightarrow> string) \<Rightarrow> int \<Rightarrow> write_env \<Rightarrow> bool" where
  "sampled fl py_repr hosts n env \<longleftrightarrow>
     (\<forall>(now, s) \<in> set (we_sightings env). \<exists>w. conv_reach fl py_repr hosts n w \<and> cw_coord w = s)"

lemma write_one_cases:
  assumes "write_one py_repr n run_id observers seq writer env = Some (Inr r)"
  shows "(\<exists>err. r = failed_write seq writer (service_name run_id seq writer) err) \<or>
    (\<exists>t_write seen missing. r = write_record seq writer (service_name run_id seq writer) (PInt t_write) (seen_out seen missing) []
       \<and> wait_seen_by_all (service_name run_id seq writer) (filter (\<lambda>t. t \<noteq> writer) [0..n - 1]) (we_deadline env) (we_sightings env)
           = Some (seen, missing))"
  using assms
  by (auto simp: write_one_def record_sightings_def Let_def split: if_splits sum.splits option.splits)

lemma sampled_tasks:
  assumes "sampled fl py_repr hosts n env" and "0 \<le> writer" "writer < n"
    and "wait_seen_by_all name (filter (\<lambda>t. t \<noteq> writer) [0..n - 1]) deadline (we_sightings env) = Some (seen, missing)"
  shows "distinct (map fst seen @ missing)" and "set (map fst seen @ missing) \<subseteq> {0..<n}"
    and "set (filter (\<lambda>j. j \<noteq> writer) (map fst seen @ missing)) = {0..<n} - {writer}"
proof -
  let ?e = "filter (\<lambda>t. t \<noteq> writer) [0..n - 1]"
  obtain now s where s: "(now, s) \<in> set (we_sightings env)" "seen = seen_of s name" and m: "missing = missing_tasks seen ?e"
    using wait_seen_by_all_result [OF assms(4)] by blast
  obtain w where w: "conv_reach fl py_repr hosts n w" "cw_coord w = s" using assms(1) s(1) by (auto simp: sampled_def)
  have d: "distinct (map fst seen)" and k: "\<And>k. k \<in> fst ` set seen \<Longrightarrow> 0 \<le> k \<and> k < n"
    using seen_keys [OF w(1), where name = name] assms(2,3) by (force simp: s(2) w(2))+
  have ms: "set missing = {t. 0 \<le> t \<and> t < n \<and> t \<noteq> writer \<and> t \<notin> fst ` set seen}"
    by (auto simp: m missing_tasks_def map_of_eq_None_iff)
  have "distinct missing" by (simp add: m missing_tasks_def)
  then show "distinct (map fst seen @ missing)" using d ms by auto
  have ks: "\<forall>t \<in> fst ` set seen. 0 \<le> t \<and> t < n" using k by blast
  show "set (map fst seen @ missing) \<subseteq> {0..<n}"
    unfolding set_append set_map ms subset_iff Un_iff atLeastLessThan_iff mem_Collect_eq using ks by blast
  show "set (filter (\<lambda>j. j \<noteq> writer) (map fst seen @ missing)) = {0..<n} - {writer}"
    unfolding set_filter set_append set_map ms set_eq_iff Un_iff Diff_iff atLeastLessThan_iff mem_Collect_eq singleton_iff
    using ks by blast
qed

lemma write_one_rows:
  fixes st :: conv_state
  assumes "write_one py_repr n run_id (cv_observers st) seq writer env = Some (Inr r)"
    and "offsets_ok n host st off" and "0 \<le> writer" "writer < n" and "sampled fl py_repr hosts n env"
  shows "\<exists>rows. write_rows (cell_results run_id n rep host stamps st stab writes) (node_list host (cv_observers st))
      (PDict (map (\<lambda>(h, v). (h, PInt v)) (cv_chrony_start st))) flags r = Inr rows
    \<and> (\<forall>x \<in> set rows. cr_seq x = int seq \<and> cr_writer x = writer \<and> row_ok off x)
    \<and> distinct (map cr_observer rows)
    \<and> set (map cr_observer rows) = (if acked r then {0..<n} - {writer} else {})"
  using write_one_cases [OF assms(1)]
proof (elim disjE exE conjE)
  fix err assume r: "r = failed_write seq writer (service_name run_id seq writer) err"
  show ?thesis
    by (simp add: r failed_write_def acked_def write_rows_def write_record_items host_for_task_nodes [OF assms(2-4)] concat_res_def)
next
  fix t_write seen missing
  assume r: "r = write_record seq writer (service_name run_id seq writer) (PInt t_write) (seen_out seen missing) []"
    and wait: "wait_seen_by_all (service_name run_id seq writer) (filter (\<lambda>t. t \<noteq> writer) [0..n - 1]) (we_deadline env)
      (we_sightings env) = Some (seen, missing)"
  note tasks = sampled_tasks [OF assms(5,3,4) wait]
  let ?row = "\<lambda>j. measured_row run_id n rep flags (host_of host (cv_observers st)) off seq writer t_write j (map_of seen j)"
  let ?js = "filter (\<lambda>j. j \<noteq> writer) (map fst seen @ missing)"
  have obs: "map cr_observer (map ?row js) = js" for js by (simp add: measured_row_def comp_def)
  have row: "cr_seq (?row j) = int seq \<and> cr_writer (?row j) = writer \<and> row_ok off (?row j)" for j
    by (simp add: row_ok_def measured_row_def split: option.splits)
  have a: "acked r" by (simp add: r acked_def write_record_items)
  show ?thesis
  proof (intro exI [of _ "map ?row ?js"] conjI)
    show "\<forall>x \<in> set (map ?row ?js). cr_seq x = int seq \<and> cr_writer x = writer \<and> row_ok off x"
      using row by (auto simp del: filter_append)
    show "distinct (map cr_observer (map ?row ?js))" unfolding obs using tasks(1) by (rule distinct_filter)
    show "set (map cr_observer (map ?row ?js)) = (if acked r then {0..<n} - {writer} else {})"
      unfolding obs using tasks(3) a by simp
  qed (simp only: r write_rows_measured [OF assms(2-4) tasks(1,2)])
qed

lemma write_loop_nth:
  "write_loop py_repr n run_id observers seq ws = Some (Inr recs) \<Longrightarrow>
   length recs = length ws \<and>
   (\<forall>k < length ws. write_one py_repr n run_id observers (seq + k) (fst (ws ! k)) (snd (ws ! k)) = Some (Inr (recs ! k)))"
proof (induction ws arbitrary: seq recs)
  case Nil
  then show ?case by simp
next
  case (Cons wr ws)
  obtain writer env where wr: "wr = (writer, env)" by (cases wr)
  obtain r rs where r: "write_one py_repr n run_id observers seq writer env = Some (Inr r)"
      "write_loop py_repr n run_id observers (Suc seq) ws = Some (Inr rs)" "recs = r # rs"
    using Cons.prems by (auto simp: wr split: option.splits sum.splits)
  then show ?case using Cons.IH [OF r(2)] by (auto simp: wr less_Suc_eq_0_disj)
qed

text \<open>Results of the single writes, put together.\<close>

lemma map_res_nth:
  assumes "\<And>k. k < length xs \<Longrightarrow> f (xs ! k) = Inr (ys ! k)" and "length ys = length xs"
  shows "map_res f xs = Inr ys"
  using assms by (simp add: map_res_Inr list_all2_conv_all_nth)

lemma distinct_concat_tagged:
  assumes "\<And>k. k < length xss \<Longrightarrow> distinct (map g (xss ! k))"
    and "\<And>k x. k < length xss \<Longrightarrow> x \<in> set (xss ! k) \<Longrightarrow> f x = int (s + k)"
  shows "distinct (map (\<lambda>x. (f x, g x)) (concat xss))"
  using assms
proof (induction xss arbitrary: s)
  case Nil
  then show ?case by simp
next
  case (Cons xs xss)
  have h: "f x = int s" if "x \<in> set xs" for x using Cons.prems(2) [of 0 x] that by simp
  have t: "f x = int (Suc s + k)" if "k < length xss" "x \<in> set (xss ! k)" for k x
    using Cons.prems(2) [of "Suc k" x] that by simp
  have "distinct (map g xs)" using Cons.prems(1) [of 0] by simp
  then have "distinct (map (\<lambda>x. (f x, g x)) xs)" by (auto simp: distinct_map inj_on_def)
  moreover have "distinct (map g (xss ! k))" if "k < length xss" for k using Cons.prems(1) [of "Suc k"] that by simp
  then have "distinct (map (\<lambda>x. (f x, g x)) (concat xss))" using t by (rule Cons.IH)
  moreover have "f y \<noteq> int s" if "y \<in> set (concat xss)" for y
  proof -
    obtain k where "k < length xss" "y \<in> set (xss ! k)" using \<open>y \<in> set (concat xss)\<close> by (auto simp: in_set_conv_nth [of _ xss])
    then show ?thesis using t by force
  qed
  ultimately show ?case using h by fastforce
qed

lemma cell_rows:
  fixes st :: conv_state
  assumes loop: "write_loop py_repr n run_id (cv_observers st) 0 ws = Some (Inr recs)"
    and "offsets_ok n host st off"
    and "\<forall>(writer, env) \<in> set ws. 0 \<le> writer \<and> writer < n \<and> sampled fl py_repr hosts n env"
  shows "\<exists>rows. aggregate_cell (cell_results run_id n rep host stamps st stab recs) = Inr rows
    \<and> distinct (map (\<lambda>r. (cr_seq r, cr_observer r)) rows)
    \<and> (\<forall>k < length ws. {cr_observer r |r. r \<in> set rows \<and> cr_seq r = int k}
         = (if acked (recs ! k) then {0..<n} - {fst (ws ! k)} else {}))
    \<and> (\<forall>r \<in> set rows. row_ok off r \<and> (\<exists>k < length ws. cr_seq r = int k \<and> cr_writer r = fst (ws ! k)))"
proof -
  let ?raw = "cell_results run_id n rep host stamps st stab recs"
  let ?flags = "map PStr (clock_flags (cv_chrony_start st) (cv_chrony_end st))"
  let ?f = "write_rows ?raw (node_list host (cv_observers st)) (PDict (map (\<lambda>(h, v). (h, PInt v)) (cv_chrony_start st))) ?flags"
  have len: "length recs = length ws"
    and one: "\<And>k. k < length ws \<Longrightarrow> write_one py_repr n run_id (cv_observers st) k (fst (ws ! k)) (snd (ws ! k)) = Some (Inr (recs ! k))"
    using write_loop_nth [OF loop] by auto
  define P where "P k rows \<longleftrightarrow>
      ?f (recs ! k) = Inr rows \<and> (\<forall>x \<in> set rows. cr_seq x = int k \<and> cr_writer x = fst (ws ! k) \<and> row_ok off x)
      \<and> distinct (map cr_observer rows) \<and> set (map cr_observer rows) = (if acked (recs ! k) then {0..<n} - {fst (ws ! k)} else {})"
    for k rows
  have "\<exists>rows. P k rows" if k: "k < length ws" for k
  proof -
    have "ws ! k \<in> set ws" using k by simp
    then have "0 \<le> fst (ws ! k)" "fst (ws ! k) < n" "sampled fl py_repr hosts n (snd (ws ! k))"
      using assms(3) by (auto simp: case_prod_unfold)
    then show ?thesis unfolding P_def by (rule write_one_rows [OF one [OF k] assms(2)])
  qed
  then obtain R where P: "\<And>k. k < length ws \<Longrightarrow> P k (R k)" by metis
  then have R: "\<And>k. k < length ws \<Longrightarrow> ?f (recs ! k) = Inr (R k)"
      "\<And>k x. k < length ws \<Longrightarrow> x \<in> set (R k) \<Longrightarrow> cr_seq x = int k \<and> cr_writer x = fst (ws ! k) \<and> row_ok off x"
      "\<And>k. k < length ws \<Longrightarrow> distinct (map cr_observer (R k))"
      "\<And>k. k < length ws \<Longrightarrow> set (map cr_observer (R k)) = (if acked (recs ! k) then {0..<n} - {fst (ws ! k)} else {})"
    unfolding P_def by blast+
  define rss where "rss = map R [0..<length ws]"
  have nth: "rss ! k = R k" if "k < length ws" for k using that by (simp add: rss_def)
  have rlen: "length rss = length ws" by (simp add: rss_def)
  have "map_res ?f recs = Inr rss" by (rule map_res_nth) (use R(1) nth len rlen in auto)
  then have agg: "aggregate_cell ?raw = Inr (concat rss)"
    unfolding aggregate_cell_def cell_results_items by (simp add: py_list_val_def concat_res_def)
  have mem: "r \<in> set (concat rss) \<longleftrightarrow> (\<exists>k < length ws. r \<in> set (R k))" for r
    by (auto simp: rss_def)
  have "distinct (map (\<lambda>r. (cr_seq r, cr_observer r)) (concat rss))"
    by (rule distinct_concat_tagged [where s = 0]) (use R(2,3) nth rlen in auto)
  moreover have "{cr_observer r |r. r \<in> set (concat rss) \<and> cr_seq r = int k} = set (map cr_observer (R k))"
    if "k < length ws" for k
    using that R(2) unfolding mem by force
  moreover have "\<forall>r \<in> set (concat rss). row_ok off r \<and> (\<exists>k < length ws. cr_seq r = int k \<and> cr_writer r = fst (ws ! k))"
    unfolding mem [THEN eq_reflection] Ball_def using R(2) mem by blast
  ultimately show ?thesis using agg R(4) by (intro exI [of _ "concat rss"]) simp
qed

text \<open>C11: the table of latencies is complete and corrected for clock skew. Suppose the coordinator writes
  its results document, the observers \<open>1\<close> to \<open>n - 1\<close> have registered, the offset of every task's
  host is known, and every state the loop looked at occurs in a run of the benchmark. Then the document
  has one record per write, and its aggregation does not raise. Every write that was acknowledged has
  exactly one row for each task but the writer, a write that was not has none, and no pair of a write
  and an observer occurs twice. A row with a sighting has status \<open>ok\<close>, and its latency is the
  difference of the two clock readings, each corrected by the offset of its host; any other row is a
  timeout.\<close>

theorem cell_rows_complete:
  fixes st :: conv_state
  assumes "coordinator_main py_repr ready run_id n rep host stamps warmup ws st = Some (Inr doc)"
    and "offsets_ok n host st off"
    and "\<forall>(writer, env) \<in> set ws. 0 \<le> writer \<and> writer < n \<and> sampled fl py_repr hosts n env"
  shows "\<exists>recs rows. py_item doc ''writes'' = Inr (PList recs) \<and> length recs = length ws
    \<and> aggregate_cell doc = Inr rows
    \<and> distinct (map (\<lambda>r. (cr_seq r, cr_observer r)) rows)
    \<and> (\<forall>k < length ws. {cr_observer r |r. r \<in> set rows \<and> cr_seq r = int k}
         = (if acked (recs ! k) then {0..<n} - {fst (ws ! k)} else {}))
    \<and> (\<forall>r \<in> set rows. row_ok off r \<and> (\<exists>k < length ws. cr_seq r = int k \<and> cr_writer r = fst (ws ! k)))"
proof -
  obtain stab recs where loop: "write_loop py_repr n run_id (cv_observers st) 0 ws = Some (Inr recs)"
      and doc: "doc = cell_results run_id n rep host stamps st stab recs"
    using assms(1) by (auto simp: coordinator_main_def split: if_splits prod.splits option.splits sum.splits)
  have "length recs = length ws" using write_loop_nth [OF loop] by simp
  moreover have "py_item doc ''writes'' = Inr (PList recs)" by (simp only: doc cell_results_items)
  ultimately show ?thesis
    using cell_rows [OF loop assms(2,3), of rep stamps stab] unfolding doc by blast
qed

definition sample_state :: conv_state where
  "sample_state = init_conv_state\<lparr>cv_observers := [(1, ''h'')], cv_chrony_start := [(''h'', 3)]\<rparr>"

definition sample_env :: write_env where
  "sample_env = \<lparr>we_self_write = Inr 10, we_ack_deadline = 0, we_acks = [(0, init_conv_state)], we_deadline = 0,
     we_sightings = [(0, init_conv_state)]\<rparr>"

definition warm_state :: conv_state where
  "warm_state = init_conv_state\<lparr>cv_seen := [(''convbench-warmup-r-a'', [(1, 7)])]\<rparr>"

text \<open>Task \<open>0\<close> writes and task \<open>1\<close> sees nothing in time; then task \<open>1\<close> does not acknowledge.\<close>

theorem cell_rows_complete_witness:
  "\<exists>doc rows. coordinator_main (\<lambda>_. []) True ''r'' 2 0 ''h'' ([], [], []) (''a'', Inr 5, 1, [(0, warm_state)], 6)
         [(0, sample_env), (1, sample_env)] sample_state = Some (Inr doc)
     \<and> aggregate_cell doc = Inr rows
     \<and> {cr_observer r |r. r \<in> set rows \<and> cr_seq r = 0} = {1}
     \<and> {cr_observer r |r. r \<in> set rows \<and> cr_seq r = 1} = {}"
proof -
  let ?ws = "[(0 :: int, sample_env), (1, sample_env)]"
  let ?main = "coordinator_main (\<lambda>_. []) True ''r'' 2 0 ''h'' ([], [], []) (''a'', Inr 5, 1, [(0, warm_state)], 6) ?ws sample_state"
  have "\<exists>r0. write_one (\<lambda>_. []) 2 ''r'' (cv_observers sample_state) 0 0 sample_env = Some (Inr r0) \<and> acked r0"
    by (simp add: sample_env_def write_one_def record_sightings_def acked_def write_record_items Let_def)
  moreover have "\<exists>r1. write_one (\<lambda>_. []) 2 ''r'' (cv_observers sample_state) 1 1 sample_env = Some (Inr r1) \<and> \<not> acked r1"
    by (simp add: sample_env_def sample_state_def write_one_def failed_write_def acked_def write_record_items Let_def)
  ultimately obtain r0 r1 where
      r: "write_loop (\<lambda>_. []) 2 ''r'' (cv_observers sample_state) 0 ?ws = Some (Inr [r0, r1])" "acked r0" "\<not> acked r1"
    by (auto simp: One_nat_def)
  have "stabilize ''convbench-warmup-r-a'' (Inr 5) (cv_observers sample_state) 1 [(0, warm_state)] 6
      = Some (Inr (PDict [(''warmup_at_ns'', PInt 5), (''stable_at_ns'', PInt 6), (''missing'', PList [])]))"
    by (simp add: stabilize_def missing_tasks_def seen_of_def warm_state_def sample_state_def)
  then obtain stab where stab: "py_item stab ''missing'' = Inr (PList [])"
      "stabilize ''convbench-warmup-r-a'' (Inr 5) (cv_observers sample_state) 1 [(0, warm_state)] 6 = Some (Inr stab)"
    by (intro that) (simp_all add: dict_get_def)
  then have main: "?main = Some (Inr (cell_results ''r'' 2 0 ''h'' ([], [], []) sample_state stab [r0, r1]))"
    by (simp add: coordinator_main_def r(1) del: write_loop.simps)
  have "offsets_ok 2 ''h'' sample_state (\<lambda>_. 3)"
    by (auto simp: offsets_ok_def sample_state_def host_of_def init_conv_state_def)
  moreover have "sampled (\<lambda>_. []) (\<lambda>_. []) (\<lambda>_. []) 2 sample_env"
    using conv_reach.start by (force simp: sampled_def sample_env_def init_world_def)
  ultimately obtain recs rows where rows:
      "py_item (cell_results ''r'' 2 0 ''h'' ([], [], []) sample_state stab [r0, r1]) ''writes'' = Inr (PList recs)"
      "aggregate_cell (cell_results ''r'' 2 0 ''h'' ([], [], []) sample_state stab [r0, r1]) = Inr rows"
      "\<forall>k < length ?ws. {cr_observer r |r. r \<in> set rows \<and> cr_seq r = int k}
         = (if acked (recs ! k) then {0..<2} - {fst (?ws ! k)} else {})"
    using cell_rows_complete [OF main, of "\<lambda>_. 3" "\<lambda>_. []" "\<lambda>_. []"] by auto
  have "recs = [r0, r1]" using rows(1) by (simp only: cell_results_items sum.inject pyval.inject)
  moreover have "{0..<2 :: int} - {0} = {1}" by auto
  ultimately show ?thesis
    using r main rows(2) rows(3) [rule_format, of 0] rows(3) [rule_format, of 1] by auto
qed

end
