(* ===== verification/Conv_Sweep.thy ===== *)
theory Conv_Sweep
  imports Io
begin

text \<open>
  The sweep of the convergence benchmark: \<open>run.py\<close> goes through the cells of a sweep, \<open>submit.py\<close>
  runs one cell as a Slurm job and records how it ended. A cell is a size and a repetition; its directory
  holds a status, the address of the coordinator and the results. How the jobs end is an argument:
  \<open>job i c\<close> is the outcome of the i-th submission, for cell \<open>c\<close>. Messages are left out; the
  environment of \<open>expandvars\<close> is an argument, and paths are joined with a slash.
\<close>

section \<open>Files and jobs\<close>

type_synonym cell = "int \<times> int"

record cell_dir =
  cd_status :: "string option"
  cd_bootstrap :: bool
  cd_results :: bool

datatype job_result = JobRaised py_exn | JobExit int bool bool

record sweep_world =
  sw_dirs :: "cell \<Rightarrow> cell_dir"
  sw_jobs :: "(cell \<times> string list) list"
  sw_pauses :: nat
  sw_incidents :: "(cell \<times> py_exn) list"

text \<open>\<open>os.path.expandvars\<close>: \<open>$name\<close> and \<open>${name}\<close> are replaced when the variable is set.\<close>

definition is_word_char :: "char \<Rightarrow> bool" where
  "is_word_char c \<longleftrightarrow> (let n = (of_char c :: nat) in 48 \<le> n \<and> n \<le> 57 \<or> 65 \<le> n \<and> n \<le> 90 \<or> 97 \<le> n \<and> n \<le> 122 \<or> n = 95)"

lemma dropWhile_rest_less: "dropWhile p xs = y # ys \<Longrightarrow> length ys \<le> Suc (length xs)"
  using length_dropWhile_le [of p xs] by simp

function (sequential) expandvars :: "string pydict \<Rightarrow> string \<Rightarrow> string" where
  "expandvars vars [] = []"
| "expandvars vars (c # cs) =
     (if c \<noteq> CHR ''$'' then c # expandvars vars cs
      else
        (case cs of
           [] \<Rightarrow> [c]
         | d # ds \<Rightarrow>
             if d = CHR ''{'' then
               (case dropWhile (\<lambda>x. x \<noteq> CHR ''}'') ds of
                  [] \<Rightarrow> c # expandvars vars cs
                | _ # rest \<Rightarrow>
                    let name = takeWhile (\<lambda>x. x \<noteq> CHR ''}'') ds in
                    (case map_of vars name of
                       Some v \<Rightarrow> v @ expandvars vars rest
                     | None \<Rightarrow> c # d # name @ CHR ''}'' # expandvars vars rest))
             else
               let name = takeWhile is_word_char cs; rest = dropWhile is_word_char cs in
               if name = [] then c # expandvars vars cs
               else (case map_of vars name of
                       Some v \<Rightarrow> v @ expandvars vars rest
                     | None \<Rightarrow> c # name @ expandvars vars rest)))"
  by pat_completeness auto
termination
  by (relation "measure (\<lambda>(_, s). length s)")
     (auto simp: less_Suc_eq_le length_dropWhile_le le_SucI dest: dropWhile_rest_less)

definition conv_run_dir :: "string pydict \<Rightarrow> pyval \<Rightarrow> string \<Rightarrow> string res" where
  "conv_run_dir vars cfg run_id =
     rbind (rbind (py_item cfg ''paths'') (\<lambda>p. py_item p ''run_root'')) (\<lambda>root.
       case root of PStr s \<Rightarrow> Inr (expandvars vars s @ ''/'' @ run_id) | _ \<Rightarrow> Inl (TypeError ''run_root''))"

section \<open>One cell\<close>

definition conv_sbatch_command ::
  "(pyval \<Rightarrow> string) \<Rightarrow> pyval \<Rightarrow> string \<Rightarrow> string \<Rightarrow> string \<Rightarrow> string \<Rightarrow> bool \<Rightarrow> cell \<Rightarrow> string list res" where
  "conv_sbatch_command other cfg run_dir run_id config script wait c =
     (case c of (n, rep) \<Rightarrow>
        rbind (rbind (py_item cfg ''slurm'') (\<lambda>s. py_get s ''account'' (PStr []))) (\<lambda>account.
          Inr ([''sbatch'', ''--nodes='' @ str_int n,
                ''--export=ALL,RUN_ID='' @ run_id @ '',N='' @ str_int n @ '',REP='' @ str_int rep
                  @ '',RUN_DIR='' @ run_dir @ '',CONFIG_PATH='' @ config]
               @ (if py_truthy account then [''--account='' @ py_str_val other account] else [])
               @ (if wait then [''--wait''] else []) @ [script])))"

definition on_cell :: "cell \<Rightarrow> (cell_dir \<Rightarrow> cell_dir) \<Rightarrow> (sweep_world, unit) io" where
  "on_cell c f w = (Inr (), w\<lparr>sw_dirs := (sw_dirs w)(c := f (sw_dirs w c))\<rparr>)"

definition read_cell :: "cell \<Rightarrow> (sweep_world, cell_dir) io" where
  "read_cell c w = (Inr (sw_dirs w c), w)"

definition run_job :: "(nat \<Rightarrow> cell \<Rightarrow> job_result) \<Rightarrow> cell \<Rightarrow> string list \<Rightarrow> (sweep_world, int) io" where
  "run_job job c cmd w =
     (let w1 = w\<lparr>sw_jobs := sw_jobs w @ [(c, cmd)]\<rparr> in
      case job (length (sw_jobs w)) c of
        JobRaised e \<Rightarrow> (Inl e, w1)
      | JobExit rc boot results \<Rightarrow>
          (Inr rc, w1\<lparr>sw_dirs := (sw_dirs w1)(c := (sw_dirs w1 c)\<lparr>cd_bootstrap := boot, cd_results := results\<rparr>)\<rparr>))"

text \<open>\<open>submit_cell\<close>: old results are removed, and the status says how the job ended.\<close>

definition submit_cell ::
  "(nat \<Rightarrow> cell \<Rightarrow> job_result) \<Rightarrow> string res \<Rightarrow> (string \<Rightarrow> cell \<Rightarrow> string list res) \<Rightarrow> cell \<Rightarrow> (sweep_world, int) io" where
  "submit_cell job run_dir command c =
     io_bind (io_res run_dir) (\<lambda>dir.
     io_bind (on_cell c (\<lambda>d. d\<lparr>cd_bootstrap := False, cd_results := False, cd_status := Some ''running''\<rparr>)) (\<lambda>_.
     io_bind (io_res (command dir c)) (\<lambda>cmd.
     io_bind (run_job job c cmd) (\<lambda>rc.
       if rc \<noteq> 0 then
         io_bind (on_cell c (\<lambda>d. d\<lparr>cd_status := Some ''failed''\<rparr>)) (\<lambda>_. io_raise (RuntimeError ''sbatch failed''))
       else
         io_bind (read_cell c) (\<lambda>d.
           if \<not> cd_results d then io_bind (on_cell c (\<lambda>d. d\<lparr>cd_status := Some ''failed''\<rparr>)) (\<lambda>_. io_return rc)
           else io_bind (on_cell c (\<lambda>d. d\<lparr>cd_status := Some ''complete''\<rparr>)) (\<lambda>_. io_return 0))))))"

section \<open>The sweep\<close>

definition cell_status :: "cell_dir \<Rightarrow> string" where
  "cell_status d = (case cd_status d of None \<Rightarrow> ''pending'' | Some s \<Rightarrow> py_strip s)"

definition skipped :: "bool \<Rightarrow> bool \<Rightarrow> cell_dir \<Rightarrow> bool" where
  "skipped resume retry_failed d \<longleftrightarrow>
     cell_status d = ''complete'' \<and> resume \<or> cell_status d = ''failed'' \<and> \<not> retry_failed"

definition inter_cell_pause :: "(sweep_world, unit) io" where
  "inter_cell_pause w = (Inr (), w\<lparr>sw_pauses := sw_pauses w + 1\<rparr>)"

definition log_incident :: "cell \<Rightarrow> py_exn \<Rightarrow> (sweep_world, unit) io" where
  "log_incident c e w = (Inr (), w\<lparr>sw_incidents := sw_incidents w @ [(c, e)]\<rparr>)"

fun sweep_cells :: "(cell \<Rightarrow> (sweep_world, int) io) \<Rightarrow> bool \<Rightarrow> bool \<Rightarrow> bool \<Rightarrow> cell list \<Rightarrow> (sweep_world, unit) io" where
  "sweep_cells submit resume retry_failed first [] = io_return ()"
| "sweep_cells submit resume retry_failed first (c # cs) =
     io_bind (read_cell c) (\<lambda>d.
       if skipped resume retry_failed d then sweep_cells submit resume retry_failed first cs
       else
         io_bind (if first then io_return () else inter_cell_pause) (\<lambda>_.
         io_bind (io_catch (io_bind (submit c) (\<lambda>_. io_return ())) (log_incident c)) (\<lambda>_.
           sweep_cells submit resume retry_failed False cs)))"

text \<open>The cells in the order of the loops; the sizes are integers.\<close>

definition sweep_grid :: "pyval \<Rightarrow> cell list res" where
  "sweep_grid cfg =
     rbind (rbind (rbind (py_item cfg ''sweep'') (\<lambda>s. py_item s ''sizes'')) py_list_val) (\<lambda>sizes.
     rbind (map_res (\<lambda>v. case v of PInt n \<Rightarrow> Inr n | _ \<Rightarrow> Inl (TypeError ''sizes'')) sizes) (\<lambda>ns.
     rbind (rbind (rbind (py_item cfg ''sweep'') (\<lambda>s. py_item s ''reps'')) py_int_val) (\<lambda>reps.
       Inr (List.product ns [0 .. reps - 1]))))"

definition conv_sweep ::
  "(pyval \<Rightarrow> string) \<Rightarrow> (nat \<Rightarrow> cell \<Rightarrow> job_result) \<Rightarrow> string pydict \<Rightarrow> pyval \<Rightarrow> string \<Rightarrow> string \<Rightarrow> string \<Rightarrow> bool \<Rightarrow> bool \<Rightarrow>
     (sweep_world, unit) io" where
  "conv_sweep other job vars cfg run_id config script resume retry_failed =
     io_bind (io_res (conv_run_dir vars cfg run_id)) (\<lambda>_.
     io_bind (io_res (sweep_grid cfg)) (\<lambda>cells.
       sweep_cells (submit_cell job (conv_run_dir vars cfg run_id)
           (\<lambda>dir. conv_sbatch_command other cfg dir run_id config script True))
         resume retry_failed True cells))"

section \<open>What a sweep submits\<close>

text \<open>How a cell is left by a job.\<close>

definition after_job :: "cell_dir \<Rightarrow> job_result \<Rightarrow> cell_dir" where
  "after_job d r =
     (case r of
        JobRaised e \<Rightarrow> d\<lparr>cd_bootstrap := False, cd_results := False, cd_status := Some ''running''\<rparr>
      | JobExit rc boot results \<Rightarrow>
          d\<lparr>cd_bootstrap := boot, cd_results := results,
            cd_status := Some (if rc = 0 \<and> results then ''complete'' else ''failed'')\<rparr>)"

lemma submit_cell_run:
  assumes "run_dir = Inr dir" "command dir c = Inr cmd"
  shows "\<exists>r. submit_cell job run_dir command c w =
    (r, w\<lparr>sw_jobs := sw_jobs w @ [(c, cmd)],
          sw_dirs := (sw_dirs w)(c := after_job (sw_dirs w c) (job (length (sw_jobs w)) c))\<rparr>)"
  by (cases "job (length (sw_jobs w)) c")
     (auto simp: submit_cell_def assms io_bind_def io_res_def on_cell_def run_job_def read_cell_def io_raise_def
        io_return_def after_job_def Let_def)

text \<open>The cells of a list that are due are the ones submitted, each once, in order.\<close>

lemma sweep_cells_run:
  assumes "run_dir = Inr dir" "\<forall>c \<in> set cells. command dir c = Inr (cmd c)" "distinct cells"
    and "due_cells = filter (\<lambda>c. \<not> skipped resume retry (sw_dirs w c)) cells"
  shows "\<exists>w'. sweep_cells (submit_cell job run_dir command) resume retry first cells w = (Inr (), w')
    \<and> sw_jobs w' = sw_jobs w @ map (\<lambda>c. (c, cmd c)) due_cells
    \<and> sw_pauses w' = sw_pauses w + (length due_cells - (if first then 1 else 0))
    \<and> (\<forall>c. c \<notin> set due_cells \<longrightarrow> sw_dirs w' c = sw_dirs w c)
    \<and> (\<forall>i < length due_cells. sw_dirs w' (due_cells ! i) =
         after_job (sw_dirs w (due_cells ! i)) (job (length (sw_jobs w) + i) (due_cells ! i)))"
  using assms(2-4)
proof (induction cells arbitrary: w first due_cells)
  case Nil
  then show ?case by (simp add: io_return_def)
next
  case (Cons c cs)
  show ?case
  proof (cases "skipped resume retry (sw_dirs w c)")
    case True
    then have "due_cells = filter (\<lambda>c. \<not> skipped resume retry (sw_dirs w c)) cs" using Cons.prems(3) by simp
    from Cons.IH [OF _ _ this] Cons.prems(1,2) show ?thesis
      using True by (simp add: io_bind_def read_cell_def)
  next
    case False
    define w1 where "w1 = w\<lparr>sw_pauses := sw_pauses w + (if first then 0 else 1)\<rparr>"
    have cmd: "command dir c = Inr (cmd c)" using Cons.prems(1) by simp
    obtain r where r: "submit_cell job run_dir command c w1 =
        (r, w1\<lparr>sw_jobs := sw_jobs w1 @ [(c, cmd c)],
              sw_dirs := (sw_dirs w1)(c := after_job (sw_dirs w1 c) (job (length (sw_jobs w1)) c))\<rparr>)"
      using submit_cell_run [where command = command and c = c and cmd = "cmd c" and job = job and w = w1, OF assms(1) cmd] by blast
    define w2 where "w2 = snd (io_catch (io_bind (submit_cell job run_dir command c) (\<lambda>_. io_return ())) (log_incident c) w1)"
    have w2: "io_catch (io_bind (submit_cell job run_dir command c) (\<lambda>_. io_return ())) (log_incident c) w1 = (Inr (), w2)"
        "sw_jobs w2 = sw_jobs w @ [(c, cmd c)]" "sw_pauses w2 = sw_pauses w1"
        "sw_dirs w2 = (sw_dirs w)(c := after_job (sw_dirs w c) (job (length (sw_jobs w)) c))"
      using r by (auto simp: w2_def io_catch_def io_bind_def io_return_def log_incident_def w1_def split: sum.splits)
    let ?due = "filter (\<lambda>c. \<not> skipped resume retry (sw_dirs w2 c)) cs"
    have fresh: "c \<notin> set cs" using Cons.prems(2) by simp
    have same: "?due = filter (\<lambda>c. \<not> skipped resume retry (sw_dirs w c)) cs"
      by (rule filter_cong) (use fresh w2(4) in auto)
    have due: "due_cells = c # ?due" using False Cons.prems(3) same by simp
    obtain w' where w': "sweep_cells (submit_cell job run_dir command) resume retry False cs w2 = (Inr (), w')"
        "sw_jobs w' = sw_jobs w2 @ map (\<lambda>c. (c, cmd c)) ?due" "sw_pauses w' = sw_pauses w2 + length ?due"
        "\<forall>c. c \<notin> set ?due \<longrightarrow> sw_dirs w' c = sw_dirs w2 c"
        "\<forall>i < length ?due. sw_dirs w' (?due ! i) = after_job (sw_dirs w2 (?due ! i)) (job (length (sw_jobs w2) + i) (?due ! i))"
      using Cons.IH [of ?due w2 False] Cons.prems(1,2) by auto
    have run: "sweep_cells (submit_cell job run_dir command) resume retry first (c # cs) w = (Inr (), w')"
      using False w2(1) w'(1) by (simp add: io_bind_def read_cell_def inter_cell_pause_def io_return_def w1_def split: if_splits)
    have cnotin: "c \<notin> set ?due" using fresh by simp
    have dirs: "sw_dirs w' (due_cells ! i) = after_job (sw_dirs w (due_cells ! i)) (job (length (sw_jobs w) + i) (due_cells ! i))"
      if "i < length due_cells" for i
    proof (cases i)
      case 0
      have "sw_dirs w' c = sw_dirs w2 c" using w'(4) cnotin by blast
      then show ?thesis using 0 w2(4) due by simp
    next
      case (Suc k)
      then have k: "k < length ?due" using that due by simp
      then have "?due ! k \<noteq> c" using cnotin nth_mem by metis
      then show ?thesis using w'(5) k w2(2,4) due Suc by simp
    qed
    have "sw_pauses w' = sw_pauses w + (length due_cells - (if first then 1 else 0))"
      using w'(3) w2(3) due by (simp add: w1_def)
    moreover have "\<forall>x. x \<notin> set due_cells \<longrightarrow> sw_dirs w' x = sw_dirs w x"
      using w'(4) w2(4) due by auto
    moreover have "sw_jobs w' = sw_jobs w @ map (\<lambda>c. (c, cmd c)) due_cells" using w'(2) w2(2) due by simp
    ultimately show ?thesis using run dirs by blast
  qed
qed
lemma status_words: "py_strip ''complete'' = ''complete''" "py_strip ''failed'' = ''failed''" "py_strip ''running'' = ''running''"
  by (simp_all add: py_strip_def strip_by_def is_space_def)

lemma after_job_status:
  "cell_status (after_job d r) =
     (case r of JobRaised e \<Rightarrow> ''running'' | JobExit rc boot results \<Rightarrow> if rc = 0 \<and> results then ''complete'' else ''failed'')"
  by (cases r) (simp_all add: after_job_def cell_status_def status_words)

lemma after_job_skipped: "skipped True False (after_job d r) \<longleftrightarrow> (\<forall>e. r \<noteq> JobRaised e)"
  by (cases r) (simp_all add: skipped_def after_job_status)

text \<open>The cells a sweep over a grid would submit.\<close>

definition due_now :: "bool \<Rightarrow> bool \<Rightarrow> sweep_world \<Rightarrow> cell list \<Rightarrow> cell list" where
  "due_now resume retry w cells = filter (\<lambda>c. \<not> skipped resume retry (sw_dirs w c)) cells"

text \<open>C30: a sweep of the convergence benchmark can be resumed. Over a grid without repeated cells it submits
  exactly the cells that are not skipped, each once and in order, with a pause between two submissions,
  and touches no other cell; afterwards a submitted cell is complete exactly when its job succeeded and left
  results. Another sweep with \<open>--resume\<close> submits exactly the cells whose \<open>sbatch\<close> could
  not be started, and nothing if there were none.\<close>

theorem sweep_resumes:
  assumes "conv_run_dir vars cfg run_id = Inr dir" and "sweep_grid cfg = Inr cells" and "distinct cells"
    and "\<forall>c \<in> set cells. conv_sbatch_command other cfg dir run_id config script True c = Inr (cmd c)"
    and "subs = due_now resume retry w cells" and "outcome = (\<lambda>i. job (length (sw_jobs w) + i) (subs ! i))"
  shows "\<exists>w'. conv_sweep other job vars cfg run_id config script resume retry w = (Inr (), w')
    \<and> sw_jobs w' = sw_jobs w @ map (\<lambda>c. (c, cmd c)) subs \<and> sw_pauses w' = sw_pauses w + (length subs - 1)
    \<and> (\<forall>c. c \<notin> set subs \<longrightarrow> sw_dirs w' c = sw_dirs w c)
    \<and> (\<forall>i < length subs. cell_status (sw_dirs w' (subs ! i)) = ''complete'' \<longleftrightarrow>
         (\<exists>boot. outcome i = JobExit 0 boot True))
    \<and> (resume \<and> \<not> retry \<longrightarrow>
         (\<forall>i < length subs. subs ! i \<in> set (due_now True False w' cells) \<longleftrightarrow> (\<exists>e. outcome i = JobRaised e))
         \<and> set (due_now True False w' cells) \<subseteq> set subs)"
proof -
  obtain w' where run: "sweep_cells (submit_cell job (Inr dir) (\<lambda>dir. conv_sbatch_command other cfg dir run_id config script True))
        resume retry True cells w = (Inr (), w')"
      and jobs: "sw_jobs w' = sw_jobs w @ map (\<lambda>c. (c, cmd c)) subs" and pauses: "sw_pauses w' = sw_pauses w + (length subs - 1)"
      and others: "\<forall>c. c \<notin> set subs \<longrightarrow> sw_dirs w' c = sw_dirs w c"
      and dirs: "\<forall>i < length subs. sw_dirs w' (subs ! i) = after_job (sw_dirs w (subs ! i)) (outcome i)"
    using sweep_cells_run [where command = "\<lambda>dir. conv_sbatch_command other cfg dir run_id config script True" and dir = dir
        and cmd = cmd and due_cells = subs and resume = resume and retry = retry and w = w and job = job and first = True,
        OF refl assms(4,3)] assms(5,6) unfolding due_now_def by auto
  have sweep: "conv_sweep other job vars cfg run_id config script resume retry w = (Inr (), w')"
    using run by (simp add: conv_sweep_def io_bind_def io_res_def assms(1,2))
  have complete: "cell_status (sw_dirs w' (subs ! i)) = ''complete'' \<longleftrightarrow> (\<exists>boot. outcome i = JobExit 0 boot True)"
    if "i < length subs" for i
    using dirs that by (cases "outcome i") (auto simp: after_job_status)
  have again: "subs ! i \<in> set (due_now True False w' cells) \<longleftrightarrow> (\<exists>e. outcome i = JobRaised e)" if "i < length subs" for i
  proof -
    have "subs ! i \<in> set cells" using nth_mem [OF that] assms(5) by (auto simp: due_now_def)
    then show ?thesis using dirs that by (auto simp: due_now_def after_job_skipped)
  qed
  have "set (due_now True False w' cells) \<subseteq> set subs" if "resume \<and> \<not> retry"
    using others that assms(5) by (auto simp: due_now_def)
  then show ?thesis using sweep jobs pauses others complete again by blast
qed

text \<open>A job that ends without results leaves its cell failed, but it is not an incident.\<close>

lemma missing_results_unreported:
  assumes "run_dir = Inr dir" "command dir c = Inr cmd" "job (length (sw_jobs w)) c = JobExit 0 boot False"
  shows "fst (submit_cell job run_dir command c w) = Inr 0"
    and "cell_status (sw_dirs (snd (submit_cell job run_dir command c w)) c) = ''failed''"
  using assms by (simp_all add: submit_cell_def io_bind_def io_res_def on_cell_def run_job_def read_cell_def
      io_return_def cell_status_def status_words Let_def)

definition sample_sweep :: pyval where
  "sample_sweep = PDict [(''paths'', PDict [(''run_root'', PStr ''/r'')]), (''slurm'', PDict []),
     (''sweep'', PDict [(''sizes'', PList [PInt 2, PInt 4]), (''reps'', PInt 1)])]"

definition fresh_sweep :: sweep_world where
  "fresh_sweep = \<lparr>sw_dirs = (\<lambda>_. \<lparr>cd_status = None, cd_bootstrap = False, cd_results = False\<rparr>), sw_jobs = [], sw_pauses = 0,
     sw_incidents = []\<rparr>"

text \<open>Two cells, the second of which leaves no results.\<close>

theorem sweep_resumes_witness:
  "\<exists>w'. conv_sweep (\<lambda>_. []) (\<lambda>i c. JobExit 0 True (i = 0)) [] sample_sweep ''x'' ''c'' ''s'' True False fresh_sweep = (Inr (), w')
     \<and> map fst (sw_jobs w') = [(2, 0), (4, 0)] \<and> sw_pauses w' = 1 \<and> cell_status (sw_dirs w' (2, 0)) = ''complete''"
proof -
  let ?cells = "[(2, 0), (4, 0)] :: cell list"
  have dir: "conv_run_dir [] sample_sweep ''x'' = Inr ''/r/x''"
    by (simp add: conv_run_dir_def sample_sweep_def py_item_def dict_get_def)
  have grid: "sweep_grid sample_sweep = Inr ?cells"
    by (simp add: sweep_grid_def sample_sweep_def py_item_def dict_get_def py_list_val_def py_int_val_def)
  have "\<forall>c. \<exists>x. conv_sbatch_command (\<lambda>_. []) sample_sweep ''/r/x'' ''x'' ''c'' ''s'' True c = Inr x"
    by (simp add: conv_sbatch_command_def sample_sweep_def py_item_def py_get_def dict_get_def dict_get_default_def split: prod.split)
  then obtain cmd where cmd: "conv_sbatch_command (\<lambda>_. []) sample_sweep ''/r/x'' ''x'' ''c'' ''s'' True c = Inr (cmd c)" for c
    by metis
  have due: "?cells = due_now True False fresh_sweep ?cells"
    by (simp add: due_now_def skipped_def cell_status_def fresh_sweep_def)
  have dist: "distinct ?cells" by simp
  have cmds: "\<forall>c \<in> set ?cells. conv_sbatch_command (\<lambda>_. []) sample_sweep ''/r/x'' ''x'' ''c'' ''s'' True c = Inr (cmd c)"
    using cmd by blast
  obtain w' where "conv_sweep (\<lambda>_. []) (\<lambda>i c. JobExit 0 True (i = 0)) [] sample_sweep ''x'' ''c'' ''s'' True False fresh_sweep = (Inr (), w')"
      "sw_jobs w' = sw_jobs fresh_sweep @ map (\<lambda>c. (c, cmd c)) ?cells" "sw_pauses w' = sw_pauses fresh_sweep + (length ?cells - 1)"
      "\<forall>i < length ?cells. cell_status (sw_dirs w' (?cells ! i)) = ''complete'' \<longleftrightarrow>
         (\<exists>boot. JobExit 0 True (length (sw_jobs fresh_sweep) + i = 0) = JobExit 0 boot True)"
    using sweep_resumes [where job = "\<lambda>i c. JobExit 0 True (i = 0)", OF dir grid dist cmds due refl]
    by (elim exE conjE) (rule that; assumption)
  then show ?thesis by (auto simp: fresh_sweep_def)
qed

end
