(* ===== verification/Conv_Task.thy ===== *)
theory Conv_Task
  imports Conv_Sweep
begin

text \<open>
  The processes of one cell of the convergence benchmark: \<open>task_entry.py\<close> starts a node on its machine
  and then acts as coordinator or observer; \<open>ssh_driver.py\<close> starts the tasks over SSH where there is no
  Slurm. Processes, sockets, files, HTTP and the clock are arguments; coordinator and observer are the
  programs of \<open>Conv_Bench\<close>, here arguments too. Messages are left out. A waiting loop takes a bound on its
  rounds.
\<close>

section \<open>Ports\<close>

definition env_int :: "string pydict \<Rightarrow> string \<Rightarrow> string \<Rightarrow> int res" where
  "env_int env k dflt = py_int_str (dict_get_default env k dflt)"

definition port_candidates :: "int \<Rightarrow> int \<Rightarrow> int list" where
  "port_candidates job_id procid =
     (let start = 40000 + (job_id + procid * 31) mod 10000
      in map (\<lambda>k. 40000 + (start - 40000 + k) mod 10000) [0..9999])"

text \<open>\<open>bind\<close> says whether a port could be bound.\<close>

fun first_free :: "(int \<Rightarrow> ('s, bool) io) \<Rightarrow> int list \<Rightarrow> ('s, int) io" where
  "first_free bind [] = io_raise (RuntimeError ''no free libp2p port in 40000-49999'')"
| "first_free bind (p # ps) = io_bind (bind p) (\<lambda>ok. if ok then io_return p else first_free bind ps)"

definition find_free_libp2p_port :: "string pydict \<Rightarrow> (int \<Rightarrow> ('s, bool) io) \<Rightarrow> ('s, int) io" where
  "find_free_libp2p_port env bind =
     io_bind (io_res (env_int env ''SLURM_JOB_ID'' ''0'')) (\<lambda>job_id.
     io_bind (io_res (env_int env ''SLURM_PROCID'' ''0'')) (\<lambda>procid.
       first_free bind (port_candidates job_id procid)))"

section \<open>Addresses\<close>

definition multiaddr :: "string \<Rightarrow> int \<Rightarrow> string \<Rightarrow> string" where
  "multiaddr ip port peer_id = ''/ip4/'' @ ip @ ''/tcp/'' @ str_int port @ ''/p2p/'' @ peer_id"

definition coord_ip_from_multiaddr :: "string \<Rightarrow> string res" where
  "coord_ip_from_multiaddr addr =
     (case split_on CHR ''/'' addr of
        _ # kind # ip # _ \<Rightarrow> if kind = ''ip4'' \<or> kind = ''ip6'' then Inr ip else Inl (ValueError ''cannot parse coord IP'')
      | _ \<Rightarrow> Inl (ValueError ''cannot parse coord IP''))"

section \<open>The node of a task\<close>

record coordinator_ctx =
  cc_host :: string
  cc_n :: int
  cc_listen_port :: int
  cc_http_port :: int
  cc_admin_port :: int
  cc_writes_per_rep :: int
  cc_stabilization_timeout_s :: int
  cc_per_write_timeout_s :: int
  cc_inter_write_gap_ms :: int
  cc_poll_interval_ms :: int
  cc_run_id :: string
  cc_cell_dir :: string
  cc_rep :: int

record observer_ctx =
  oc_task_id :: int
  oc_host :: string
  oc_coord_addr :: "string \<times> int"
  oc_http_port :: int
  oc_admin_port :: int
  oc_poll_interval_ms :: int
  oc_run_id :: string

text \<open>\<open>ta_launch\<close> starts a command with a port in its environment and returns the process;
  \<open>ta_get\<close> is the status of a request, or nothing if it raised; \<open>ta_wait\<close> says whether the
  process ended in time.\<close>

record 's task_api =
  ta_bind :: "int \<Rightarrow> ('s, bool) io"
  ta_launch :: "string list \<Rightarrow> int \<Rightarrow> ('s, nat) io"
  ta_get :: "string \<Rightarrow> ('s, int option) io"
  ta_self :: "string \<Rightarrow> ('s, pyval) io"
  ta_ipv4 :: "('s, string) io"
  ta_clock :: "('s, real) io"
  ta_nap :: "('s, unit) io"
  ta_publish :: "string \<Rightarrow> string \<Rightarrow> ('s, unit) io"
  ta_read :: "string \<Rightarrow> ('s, string option) io"
  ta_coordinator :: "coordinator_ctx \<Rightarrow> ('s, unit) io"
  ta_observer :: "observer_ctx \<Rightarrow> ('s, unit) io"
  ta_terminate :: "nat \<Rightarrow> ('s, unit) io"
  ta_wait :: "nat \<Rightarrow> int \<Rightarrow> ('s, bool) io"
  ta_kill :: "nat \<Rightarrow> ('s, unit) io"

definition otela_command :: "string \<Rightarrow> string \<Rightarrow> int \<Rightarrow> int \<Rightarrow> string \<Rightarrow> string option \<Rightarrow> string list" where
  "otela_command bin config_dir libp2p_port admin_port service bootstrap =
     [bin, ''start'', ''--config-dir'', config_dir, ''--tcpport'', str_int libp2p_port, ''--admin.enabled'',
      ''--admin.port'', str_int admin_port, ''--service.name'', service, ''--service.port'', ''65000'']
     @ (case bootstrap of
          Some (c # cs) \<Rightarrow> [''--bootstrap.addr'', c # cs]
        | _ \<Rightarrow> [''--mode'', ''standalone''])"

definition health_poll :: "'s task_api \<Rightarrow> string \<Rightarrow> real \<Rightarrow> ('s, unit option) io" where
  "health_poll api url deadline =
     io_bind (ta_clock api) (\<lambda>now.
       if now < deadline then
         io_bind (ta_get api url) (\<lambda>r.
           io_return (case r of Some st \<Rightarrow> (if st < 500 then Some () else None) | None \<Rightarrow> None))
       else io_raise (RuntimeError (''timeout waiting for '' @ url)))"

definition wait_for :: "nat \<Rightarrow> 's task_api \<Rightarrow> string \<Rightarrow> ('s, unit) io" where
  "wait_for polls api url =
     io_bind (ta_clock api) (\<lambda>now. wait_loop (health_poll api url (now + 240)) (ta_nap api) polls)"

definition read_my_multiaddr :: "'s task_api \<Rightarrow> int \<Rightarrow> int \<Rightarrow> ('s, string) io" where
  "read_my_multiaddr api http_port libp2p_port =
     io_bind (ta_self api (''http://127.0.0.1:'' @ str_int http_port @ ''/v1/self'')) (\<lambda>doc.
     io_bind (io_res (py_item doc ''id'')) (\<lambda>v.
     io_bind (io_res (case v of PStr s \<Rightarrow> Inr s | _ \<Rightarrow> Inl (TypeError ''id''))) (\<lambda>peer_id.
     io_bind (ta_ipv4 api) (\<lambda>ip. io_return (multiaddr ip libp2p_port peer_id)))))"

text \<open>\<open>_stop_otela\<close>: terminate, and kill what is left after ten seconds.\<close>

definition stop_otela :: "'s task_api \<Rightarrow> nat \<Rightarrow> ('s, unit) io" where
  "stop_otela api proc =
     io_bind (ta_terminate api proc) (\<lambda>_.
     io_bind (ta_wait api proc 10) (\<lambda>ended.
       if ended then io_return ()
       else io_bind (ta_kill api proc) (\<lambda>_. io_bind (ta_wait api proc 5) (\<lambda>_. io_return ()))))"

section \<open>A task\<close>

record task_env =
  te_procid :: int
  te_run_id :: string
  te_n :: int
  te_rep :: int
  te_run_dir :: string
  te_host :: string
  te_vars :: "string pydict"

record task_net =
  tn_http_port :: int
  tn_admin_port :: int
  tn_coord_port :: int
  tn_otela_bin :: string
  tn_config_root :: string
  tn_sweep :: pyval

text \<open>The configuration that a task reads.\<close>

definition cfg_int :: "pyval \<Rightarrow> string \<Rightarrow> int res" where
  "cfg_int v k = rbind (py_item v k) py_int_val"

definition cfg_path :: "string pydict \<Rightarrow> pyval \<Rightarrow> string \<Rightarrow> string res" where
  "cfg_path vars v k =
     rbind (py_item v k) (\<lambda>p. case p of PStr s \<Rightarrow> Inr (expandvars vars s) | _ \<Rightarrow> Inl (TypeError k))"

definition load_task_net :: "string pydict \<Rightarrow> pyval \<Rightarrow> task_net res" where
  "load_task_net vars cfg =
     rbind (py_item cfg ''network'') (\<lambda>net.
     rbind (py_item cfg ''sweep'') (\<lambda>swp.
     rbind (cfg_int net ''otela_http_port'') (\<lambda>http_port.
     rbind (cfg_int net ''otela_admin_port'') (\<lambda>admin_port.
     rbind (cfg_int net ''coordinator_tcp_port'') (\<lambda>coord_port.
     rbind (py_item cfg ''paths'') (\<lambda>paths.
     rbind (cfg_path vars paths ''otela_bin'') (\<lambda>bin.
     rbind (cfg_path vars paths ''config_root_in_task'') (\<lambda>root.
       Inr \<lparr>tn_http_port = http_port, tn_admin_port = admin_port, tn_coord_port = coord_port, tn_otela_bin = bin,
            tn_config_root = root, tn_sweep = swp\<rparr>))))))))"

definition task_cell_dir :: "task_env \<Rightarrow> string" where
  "task_cell_dir te = te_run_dir te @ ''/N='' @ str_int (te_n te) @ ''/rep='' @ str_int (te_rep te)"

definition start_node :: "nat \<Rightarrow> 's task_api \<Rightarrow> task_env \<Rightarrow> task_net \<Rightarrow> int \<Rightarrow> string option \<Rightarrow> ('s, nat) io" where
  "start_node polls api te net libp2p_port bootstrap =
     io_bind (ta_launch api (otela_command (tn_otela_bin net)
                (tn_config_root net @ ''/'' @ te_run_id te @ ''/task-'' @ str_int (te_procid te)) libp2p_port
                (tn_admin_port net) (''convbench-node-'' @ str_int (te_procid te)) bootstrap) (tn_http_port net)) (\<lambda>proc.
     io_bind (wait_for polls api (''http://127.0.0.1:'' @ str_int (tn_http_port net) @ ''/v1/health'')) (\<lambda>_.
       io_return proc))"

definition coordinator_context :: "task_env \<Rightarrow> task_net \<Rightarrow> int \<Rightarrow> coordinator_ctx res" where
  "coordinator_context te net poll_ms =
     rbind (cfg_int (tn_sweep net) ''writes_per_rep'') (\<lambda>writes.
     rbind (cfg_int (tn_sweep net) ''stabilization_timeout_s'') (\<lambda>stab.
     rbind (cfg_int (tn_sweep net) ''per_write_timeout_s'') (\<lambda>per_write.
     rbind (cfg_int (tn_sweep net) ''inter_write_gap_ms'') (\<lambda>gap.
       Inr \<lparr>cc_host = te_host te, cc_n = te_n te, cc_listen_port = tn_coord_port net, cc_http_port = tn_http_port net,
            cc_admin_port = tn_admin_port net, cc_writes_per_rep = writes, cc_stabilization_timeout_s = stab,
            cc_per_write_timeout_s = per_write, cc_inter_write_gap_ms = gap, cc_poll_interval_ms = poll_ms,
            cc_run_id = te_run_id te, cc_cell_dir = task_cell_dir te, cc_rep = te_rep te\<rparr>))))"

definition coordinator_task :: "nat \<Rightarrow> 's task_api \<Rightarrow> task_env \<Rightarrow> task_net \<Rightarrow> int \<Rightarrow> int \<Rightarrow> ('s, unit) io" where
  "coordinator_task polls api te net libp2p_port poll_ms =
     io_bind (start_node polls api te net libp2p_port None) (\<lambda>proc.
     io_bind (read_my_multiaddr api (tn_http_port net) libp2p_port) (\<lambda>addr.
     io_bind (ta_publish api (task_cell_dir te @ ''/bootstrap.txt'') addr) (\<lambda>_.
     io_bind (io_res (coordinator_context te net poll_ms)) (\<lambda>ctx.
     io_bind (ta_coordinator api ctx) (\<lambda>_. stop_otela api proc)))))"

text \<open>An observer takes the address from its environment, or waits for the file.\<close>

definition bootstrap_poll :: "'s task_api \<Rightarrow> string \<Rightarrow> real \<Rightarrow> ('s, string option) io" where
  "bootstrap_poll api path deadline =
     io_bind (ta_read api path) (\<lambda>r.
       case r of
         Some text \<Rightarrow> io_return (Some (py_strip text))
       | None \<Rightarrow>
           io_bind (ta_clock api) (\<lambda>now.
             if now < deadline then io_return None else io_raise (OtherException ''SystemExit 1'')))"

definition find_bootstrap :: "nat \<Rightarrow> 's task_api \<Rightarrow> task_env \<Rightarrow> ('s, string) io" where
  "find_bootstrap polls api te =
     (let addr = py_strip (dict_get_default (te_vars te) ''BOOTSTRAP_ADDR'' []) in
      if addr \<noteq> [] then io_return addr
      else io_bind (ta_clock api) (\<lambda>now.
             wait_loop (bootstrap_poll api (task_cell_dir te @ ''/bootstrap.txt'') (now + 300)) (ta_nap api) polls))"

definition observer_task :: "nat \<Rightarrow> 's task_api \<Rightarrow> task_env \<Rightarrow> task_net \<Rightarrow> int \<Rightarrow> int \<Rightarrow> ('s, unit) io" where
  "observer_task polls api te net libp2p_port poll_ms =
     io_bind (find_bootstrap polls api te) (\<lambda>addr.
     io_bind (start_node polls api te net libp2p_port (Some addr)) (\<lambda>proc.
     io_bind (io_res (coord_ip_from_multiaddr addr)) (\<lambda>ip.
     io_bind (ta_observer api \<lparr>oc_task_id = te_procid te, oc_host = te_host te, oc_coord_addr = (ip, tn_coord_port net),
         oc_http_port = tn_http_port net, oc_admin_port = tn_admin_port net, oc_poll_interval_ms = poll_ms,
         oc_run_id = te_run_id te\<rparr>) (\<lambda>_. stop_otela api proc))))"

definition task_main :: "nat \<Rightarrow> 's task_api \<Rightarrow> task_env \<Rightarrow> pyval \<Rightarrow> ('s, unit) io" where
  "task_main polls api te cfg =
     io_bind (io_res (load_task_net (te_vars te) cfg)) (\<lambda>net.
     io_bind (find_free_libp2p_port (te_vars te) (ta_bind api)) (\<lambda>libp2p_port.
     io_bind (io_res (cfg_int (tn_sweep net) ''poll_interval_ms'')) (\<lambda>poll_ms.
       if te_procid te = 0 then coordinator_task polls api te net libp2p_port poll_ms
       else observer_task polls api te net libp2p_port poll_ms)))"

section \<open>Properties of a task\<close>

text \<open>The scan covers the whole range, so a free port is found if there is one.\<close>

lemma set_port_candidates: "set (port_candidates job_id procid) = {40000..49999}"
proof -
  let ?a = "(job_id + procid * 31) mod 10000"
  have "p \<in> (\<lambda>k. 40000 + (?a + k) mod 10000) ` {0..9999}" if "p \<in> {40000..49999}" for p
  proof (rule image_eqI)
    let ?k = "(p - 40000 - ?a) mod 10000"
    have "(?a + ?k) mod 10000 = (p - 40000) mod 10000" by (simp add: mod_simps)
    also have "\<dots> = p - 40000" using that by (intro mod_pos_pos_trivial) auto
    finally show "p = 40000 + (?a + ?k) mod 10000" by simp
    show "?k \<in> {0..9999}" using pos_mod_bound [of 10000 "p - 40000 - ?a"] by simp
  qed
  moreover have "40000 + (?a + k) mod 10000 \<in> {40000..49999}" for k
    using pos_mod_bound [of 10000 "?a + k"] by simp
  ultimately show ?thesis unfolding port_candidates_def Let_def by (auto simp: image_iff)
qed

lemma first_free_scan:
  assumes "\<And>p s. bind p s = (Inr (p \<in> free), s)"
  shows "first_free bind ps s =
    (case List.find (\<lambda>p. p \<in> free) ps of
       Some p \<Rightarrow> (Inr p, s) | None \<Rightarrow> (Inl (RuntimeError ''no free libp2p port in 40000-49999''), s))"
  by (induction ps) (simp_all add: io_bind_def io_raise_def io_return_def assms)

lemma free_port_found:
  assumes "\<And>p s. bind p s = (Inr (p \<in> free), s)"
    and "env_int env ''SLURM_JOB_ID'' ''0'' = Inr job_id" "env_int env ''SLURM_PROCID'' ''0'' = Inr procid"
  shows "(\<exists>p. find_free_libp2p_port env bind s = (Inr p, s) \<and> p \<in> free \<and> 40000 \<le> p \<and> p \<le> 49999)
    \<longleftrightarrow> free \<inter> {40000..49999} \<noteq> {}"
proof -
  have "find_free_libp2p_port env bind s = first_free bind (port_candidates job_id procid) s"
    by (simp add: find_free_libp2p_port_def io_bind_def io_res_def assms(2,3))
  note run = this [unfolded first_free_scan [OF assms(1)]]
  show ?thesis
  proof (cases "List.find (\<lambda>p. p \<in> free) (port_candidates job_id procid)")
    case None
    then have "free \<inter> {40000..49999} = {}"
      using set_port_candidates [of job_id procid] by (auto simp: find_None_iff)
    then show ?thesis by auto
  next
    case (Some p)
    then have p: "p \<in> free" "p \<in> set (port_candidates job_id procid)" by (auto simp: find_Some_iff)
    then have range: "40000 \<le> p" "p \<le> 49999" unfolding set_port_candidates by simp_all
    have "find_free_libp2p_port env bind s = (Inr p, s)" using run Some by simp
    moreover have "p \<in> free \<inter> {40000..49999}" using p(1) range by simp
    ultimately show ?thesis using p(1) range by blast
  qed
qed

lemma multiaddr_roundtrip: "CHR ''/'' \<notin> set ip \<Longrightarrow> coord_ip_from_multiaddr (multiaddr ip port peer_id) = Inr ip"
  using split_on_append [of "CHR ''/''" "''ip4''"] split_on_append [of "CHR ''/''" ip]
  by (simp add: coord_ip_from_multiaddr_def multiaddr_def)
text \<open>
  Waiting for a node ends: if the clock does not go back and a pause of half a second lasts half a second,
  a bound of 482 rounds is never reached.
\<close>

lemma wait_for_ends:
  assumes "\<And>s t s'. ta_clock api s = (Inr t, s') \<Longrightarrow> now s \<le> t \<and> t \<le> now s'"
    and "\<And>s r s'. ta_nap api s = (r, s') \<Longrightarrow> r = Inr () \<and> now s + 1 / 2 \<le> now s'"
    and "\<And>u s r s'. ta_get api u s = (r, s') \<Longrightarrow> r \<noteq> Inl no_more_polls \<and> now s \<le> now s'"
    and "\<And>s s'. ta_clock api s \<noteq> (Inl no_more_polls, s')" and "482 \<le> polls"
  shows "wait_for polls api url s \<noteq> (Inl no_more_polls, s')"
proof -
  have due: "due now deadline (health_poll api url deadline)" for deadline
    unfolding due_def health_poll_def
    by (auto simp: io_bind_eq split: if_splits dest!: assms(1,3))
  have check: "health_poll api url deadline s \<noteq> (Inl no_more_polls, s')" for deadline s s'
    using assms(3,4) by (auto simp: health_poll_def io_bind_eq no_more_polls_def split: if_splits)
  have nap: "ta_nap api s \<noteq> (Inl no_more_polls, s')" for s s' using assms(2) by fastforce
  have "wait_loop (health_poll api url (t + 240)) (ta_nap api) polls s1 \<noteq> (Inl no_more_polls, s')"
    if "ta_clock api s = (Inr t, s1)" for t s1
  proof (rule wait_loop_bounded [where now = now and pause = "1 / 2" and deadline = "t + 240" and k = 481])
    show "t + 240 - now s1 < 1 / 2 * real 481" using assms(1) [OF that] by simp
  qed (use due check nap assms(2,5) in auto)
  then show ?thesis using assms(4) by (auto simp: wait_for_def io_bind_eq)
qed

text \<open>If the coordinator raises, the node that was started for it is not stopped.\<close>

lemma failed_coordinator_unstopped:
  assumes "start_node polls api te net port None s = (Inr proc, s1)" "read_my_multiaddr api (tn_http_port net) port s1 = (Inr addr, s2)"
    and "ta_publish api (task_cell_dir te @ ''/bootstrap.txt'') addr s2 = (Inr (), s3)"
    and "coordinator_context te net poll_ms = Inr ctx" "ta_coordinator api ctx s3 = (Inl e, s4)"
  shows "coordinator_task polls api te net port poll_ms s = (Inl e, s4)"
  by (simp add: coordinator_task_def io_bind_def io_res_def assms)

section \<open>Tasks over SSH\<close>

definition remote_dir :: string where
  "remote_dir = ''~/.opentela-bench''"

text \<open>\<open>sd_run\<close> is the exit status of a command with its standard input; \<open>sd_poll\<close> that of a process,
  if it ended; \<open>sd_wait\<close> waits, with a limit in seconds or none, and says whether the process ended.\<close>

record 's ssh_driver_api =
  sd_run :: "string list \<Rightarrow> string option \<Rightarrow> ('s, int) io"
  sd_spawn :: "string list \<Rightarrow> bool \<Rightarrow> ('s, nat) io"
  sd_poll :: "nat \<Rightarrow> ('s, int option) io"
  sd_readline :: "nat \<Rightarrow> ('s, string) io"
  sd_clock :: "('s, real) io"
  sd_wait :: "nat \<Rightarrow> int option \<Rightarrow> ('s, bool) io"
  sd_terminate :: "nat \<Rightarrow> ('s, unit) io"
  sd_exists :: "string \<Rightarrow> ('s, bool) io"

definition run_checked :: "'s ssh_driver_api \<Rightarrow> string list \<Rightarrow> string option \<Rightarrow> ('s, unit) io" where
  "run_checked api cmd stdin =
     io_bind (sd_run api cmd stdin) (\<lambda>rc.
       if rc = 0 then io_return () else io_raise (OtherException ''CalledProcessError''))"

definition ssh_command :: "string \<Rightarrow> string \<Rightarrow> string list" where
  "ssh_command host cmd = [''ssh'', ''-o'', ''BatchMode=yes'', host, cmd]"

definition setup_node :: "'s ssh_driver_api \<Rightarrow> string \<Rightarrow> string \<Rightarrow> string \<Rightarrow> ('s, unit) io" where
  "setup_node api project_root host otela_bin =
     io_bind (run_checked api (ssh_command host (''mkdir -p '' @ remote_dir @ ''/runs'')) None) (\<lambda>_.
     io_bind (run_checked api [''scp'', ''-q'', otela_bin, host @ '':'' @ remote_dir @ ''/otela''] None) (\<lambda>_.
     io_bind (run_checked api (ssh_command host (''chmod +x '' @ remote_dir @ ''/otela'')) None) (\<lambda>_.
     io_bind (run_checked api [''rsync'', ''-az'', ''--delete'', ''--exclude'', ''__pycache__'', ''--exclude'', ''.venv'',
                ''--exclude'', ''uv.lock'', ''--exclude'', ''.pytest_cache'', ''--exclude'', ''runs'',
                project_root @ ''/'', host @ '':'' @ remote_dir @ ''/benchmark_convergence/''] None) (\<lambda>_.
     io_bind (sd_run api (ssh_command host ''pip3 install --user --quiet httpx pyyaml'') None) (\<lambda>rc.
     io_bind (if rc \<noteq> 0 then sd_run api (ssh_command host ''pip install --user --quiet httpx pyyaml'') None else io_return rc) (\<lambda>rc.
       if rc \<noteq> 0 then io_raise (RuntimeError (host @ '': failed to install httpx + pyyaml'')) else io_return ()))))))"

record ssh_options =
  so_http_port :: int
  so_admin_port :: int
  so_libp2p_port :: int
  so_coord_port :: int
  so_writes :: int
  so_poll_ms :: int
  so_stab_to :: int
  so_write_to :: int
  so_gap_ms :: int

definition config_line :: "string \<Rightarrow> string \<Rightarrow> string" where
  "config_line k v = ''  '' @ k @ '': '' @ v @ [CHR 0x0A]"

definition dquote :: "string \<Rightarrow> string" where
  "dquote s = [CHR 0x22] @ s @ [CHR 0x22]"

definition remote_config :: "ssh_options \<Rightarrow> string" where
  "remote_config o' =
     ''slurm:'' @ [CHR 0x0A] @ config_line ''account'' (dquote []) @ ''paths:'' @ [CHR 0x0A]
     @ config_line ''otela_bin'' (dquote (remote_dir @ ''/otela'')) @ config_line ''run_root'' ('' '' @ dquote (remote_dir @ ''/runs''))
     @ config_line ''config_root_in_task'' (dquote ''/tmp/convbench'') @ ''network:'' @ [CHR 0x0A]
     @ config_line ''otela_http_port'' (str_int (so_http_port o')) @ config_line ''otela_admin_port'' (str_int (so_admin_port o'))
     @ config_line ''otela_libp2p_port'' (str_int (so_libp2p_port o'))
     @ config_line ''coordinator_tcp_port'' (str_int (so_coord_port o')) @ ''sweep:'' @ [CHR 0x0A]
     @ config_line ''sizes'' ''[0]'' @ config_line ''reps'' ''1'' @ config_line ''writes_per_rep'' (str_int (so_writes o'))
     @ config_line ''stabilization_timeout_s'' (str_int (so_stab_to o'))
     @ config_line ''per_write_timeout_s'' (str_int (so_write_to o')) @ config_line ''poll_interval_ms'' (str_int (so_poll_ms o'))
     @ config_line ''inter_write_gap_ms'' (str_int (so_gap_ms o'))"

definition remote_config_path :: string where
  "remote_config_path = remote_dir @ ''/benchmark_convergence/benchmark_convergence/config/ssh.yaml''"

definition write_remote_config :: "'s ssh_driver_api \<Rightarrow> ssh_options \<Rightarrow> string \<Rightarrow> ('s, unit) io" where
  "write_remote_config api opts host =
     run_checked api (ssh_command host (''cat > '' @ remote_config_path)) (Some (remote_config opts))"

text \<open>\<open>shlex.quote\<close>\<close>

definition shell_safe :: "char \<Rightarrow> bool" where
  "shell_safe c \<longleftrightarrow> is_word_char c \<or> c \<in> set ''@%+=:,./-''"

definition shlex_quote :: "string \<Rightarrow> string" where
  "shlex_quote s =
     (if s = [] then [CHR 0x27, CHR 0x27]
      else if list_all shell_safe s then s
      else [CHR 0x27] @ concat (map (\<lambda>c. if c = CHR 0x27 then [CHR 0x27, CHR 0x22, CHR 0x27, CHR 0x22, CHR 0x27] else [c]) s) @ [CHR 0x27])"

definition spawn_task_entry :: "'s ssh_driver_api \<Rightarrow> string \<Rightarrow> int \<Rightarrow> int \<Rightarrow> string \<Rightarrow> string option \<Rightarrow> bool \<Rightarrow> ('s, nat) io" where
  "spawn_task_entry api host procid n run_id bootstrap capture =
     (let env_parts =
        [''SLURM_PROCID='' @ str_int procid, ''RUN_ID='' @ shlex_quote run_id, ''N='' @ str_int n, ''REP=0'',
         ''RUN_DIR='' @ remote_dir @ ''/runs/'' @ run_id, ''CONFIG_PATH='' @ remote_config_path,
         ''PYTHONPATH='' @ remote_dir @ ''/benchmark_convergence'']
        @ (case bootstrap of Some (c # cs) \<Rightarrow> [''BOOTSTRAP_ADDR='' @ shlex_quote (c # cs)] | _ \<Rightarrow> [])
      in sd_spawn api (ssh_command host (''cd '' @ remote_dir @ ''/benchmark_convergence && '' @ join_with '' '' env_parts
             @ '' python3 -m benchmark_convergence.task_entry'')) capture)"

definition marker_poll :: "'s ssh_driver_api \<Rightarrow> nat \<Rightarrow> string \<Rightarrow> real \<Rightarrow> ('s, string option) io" where
  "marker_poll api proc marker deadline =
     io_bind (sd_clock api) (\<lambda>now.
       if now < deadline then
         io_bind (sd_poll api proc) (\<lambda>rc.
           if rc \<noteq> None then io_raise (RuntimeError ''coordinator exited before emitting the marker'')
           else io_bind (sd_readline api proc) (\<lambda>line.
                  io_return (if py_startswith line marker then Some (py_strip line) else None)))
       else io_raise (OtherException ''TimeoutError''))"

definition read_until :: "nat \<Rightarrow> 's ssh_driver_api \<Rightarrow> nat \<Rightarrow> string \<Rightarrow> ('s, string) io" where
  "read_until polls api proc marker =
     io_bind (sd_clock api) (\<lambda>now. wait_loop (marker_poll api proc marker (now + 180)) (io_return ()) polls)"

definition run_ssh ::
  "nat \<Rightarrow> 's ssh_driver_api \<Rightarrow> ssh_options \<Rightarrow> string \<Rightarrow> string list \<Rightarrow> string \<Rightarrow> string \<Rightarrow> string \<Rightarrow> ('s, string) io" where
  "run_ssh polls api opts project_root nodes otela_bin run_id output_dir =
     (if length nodes < 2 then io_raise (ValueError ''need at least 2 nodes'')
      else
        let n = int (length nodes); coord = hd nodes in
        io_bind (io_for (\<lambda>node. io_bind (setup_node api project_root node otela_bin) (\<lambda>_. write_remote_config api opts node)) nodes) (\<lambda>_.
        io_bind (spawn_task_entry api coord 0 n run_id None True) (\<lambda>coord_proc.
        io_bind (read_until polls api coord_proc ''BOOTSTRAP_ADDR='') (\<lambda>line.
        io_bind (io_for (\<lambda>(k, host). spawn_task_entry api host (int k) n run_id
                    (Some (drop (length ''BOOTSTRAP_ADDR='') line)) False) (enumerate 1 (tl nodes))) (\<lambda>procs.
        io_bind (sd_wait api coord_proc None) (\<lambda>_.
        io_bind (io_for (\<lambda>p. io_bind (sd_wait api p (Some 30)) (\<lambda>ended. if ended then io_return () else sd_terminate api p)) procs) (\<lambda>_.
        io_bind (sd_run api [''scp'', ''-rq'', coord @ '':'' @ remote_dir @ ''/runs/'' @ run_id, output_dir] None) (\<lambda>rc.
          if rc \<noteq> 0 then io_raise (RuntimeError ''scp results failed'')
          else
            let results = output_dir @ ''/'' @ run_id @ ''/N='' @ str_int n @ ''/rep=0/results.json'' in
            io_bind (sd_exists api results) (\<lambda>ok.
              if ok then io_return results else io_raise (RuntimeError ''results.json missing''))))))))))"

text \<open>The path of the binary in the configuration that the driver writes is used as it stands: a task expands
  variables, not the tilde.\<close>

lemma expandvars_plain: "CHR ''$'' \<notin> set s \<Longrightarrow> expandvars vars s = s"
  by (induction vars s rule: expandvars.induct) auto

lemma remote_binary_unexpanded:
  assumes "load_task_net vars cfg = Inr net" "py_item cfg ''paths'' = Inr paths" "py_item paths ''otela_bin'' = Inr (PStr (remote_dir @ ''/otela''))"
  shows "hd (otela_command (tn_otela_bin net) config_dir libp2p_port admin_port service bootstrap) = ''~/.opentela-bench/otela''"
proof -
  have "expandvars vars (remote_dir @ ''/otela'') = remote_dir @ ''/otela''"
    by (rule expandvars_plain) (simp add: remote_dir_def)
  then have "tn_otela_bin net = remote_dir @ ''/otela''"
    using assms by (auto simp: load_task_net_def cfg_path_def res_simps)
  then show ?thesis by (simp add: otela_command_def remote_dir_def)
qed

end
