(* ===== verification/Auth_Server.thy ===== *)
theory Auth_Server
  imports Prelude
begin

text \<open>
  The API-key service of \<open>contrib/auth\<close>: the tables of \<open>models.py\<close>, the endpoints of
  \<open>server.py\<close>, and the challenge the client of \<open>cli.py\<close> signs.

  The database is a record of two tables, each a list of rows in insertion order; the uniqueness
  constraints of the schema are checked by every insertion. An endpoint maps the request, the
  clock readings and the random strings it draws to a response and a new database, or raises and
  leaves the database alone (the session is rolled back on every exception). Base58, Ed25519 and
  SHA-256 are the fields of a record argument, about which nothing is assumed.

  The endpoint that creates keys is run by a pool of threads. Its reading part and its writing
  transaction are therefore separate steps of the relation \<open>auth_step\<close>, whose runs contain every
  interleaving of creations and revocations; \<open>serve\<close> is the special case of requests handled one
  after the other.
\<close>

section \<open>Tables and requests\<close>

record used_challenge =
  uc_challenge :: string
  uc_expires_at :: real

record api_key =
  ak_key_id :: string
  ak_token_hash :: string
  ak_wallet :: string
  ak_label :: string
  ak_created_at :: real
  ak_revoked :: bool

record auth_db =
  used_challenges :: "used_challenge list"
  api_keys :: "api_key list"

record create_key_request =
  cr_wallet :: string
  cr_signature :: string
  cr_challenge :: string
  cr_label :: string

record create_key_response =
  resp_key_id :: string
  resp_token :: string
  resp_wallet :: string
  resp_label :: string
  resp_created_at :: real

record key_info =
  info_key_id :: string
  info_wallet :: string
  info_label :: string
  info_created_at :: real
  info_revoked :: bool

text \<open>Libraries: a failing decoding is \<open>None\<close>; verification answers whether no exception is raised.\<close>

record crypto =
  b58decode :: "string \<Rightarrow> string option"
  ed25519_verify :: "string \<Rightarrow> string \<Rightarrow> string \<Rightarrow> bool"
  sha256_hex :: "string \<Rightarrow> string"

text \<open>What one creation reads of its surroundings: the clock (three times) and fresh random strings.\<close>

record create_env =
  at_validate :: real
  at_now :: real
  at_purge :: real
  rnd_token :: string
  rnd_key :: string

definition generate_key_id :: "string \<Rightarrow> string" where
  "generate_key_id hex = ''okey_'' @ hex"

definition generate_token :: "string \<Rightarrow> string" where
  "generate_token rnd = ''otela_'' @ rnd"

definition hash_token :: "crypto \<Rightarrow> string \<Rightarrow> string" where
  "hash_token cr token = sha256_hex cr token"

section \<open>Challenges and signatures\<close>

definition CHALLENGE_TTL_SECONDS :: int where
  "CHALLENGE_TTL_SECONDS = 300"

definition bad_format :: py_exn where
  "bad_format = HTTPException 400
     (''Challenge must be in the format '' @ CHR 0x22 # ''otela-auth:<wallet>:<unix_ts>'' @ [CHR 0x22])"

definition validate_challenge :: "real \<Rightarrow> string \<Rightarrow> string \<Rightarrow> unit res" where
  "validate_challenge time challenge wallet =
     (case split_on CHR '':'' challenge of
        [p, ch_wallet, ts_str] \<Rightarrow>
          if p \<noteq> ''otela-auth''
          then Inl bad_format
          else if ch_wallet \<noteq> wallet
          then Inl (HTTPException 400 ''Challenge wallet does not match the request wallet'')
          else (case py_int_str ts_str of
                  Inl e \<Rightarrow> Inl (HTTPException 400 ''Challenge timestamp must be a valid integer'')
                | Inr ts \<Rightarrow>
                    let now_ts = py_int time in
                    if ts > now_ts + 60
                    then Inl (HTTPException 400 ''Challenge timestamp is too far in the future'')
                    else if now_ts - ts > CHALLENGE_TTL_SECONDS
                    then Inl (HTTPException 400 ''Challenge has expired'')
                    else Inr ())
      | _ \<Rightarrow> Inl bad_format)"

definition verify_wallet_signature :: "crypto \<Rightarrow> string \<Rightarrow> string \<Rightarrow> string \<Rightarrow> bool" where
  "verify_wallet_signature cr wallet signature message =
     (case b58decode cr wallet of
        None \<Rightarrow> False
      | Some pub_bytes \<Rightarrow>
          (case b58decode cr signature of
             None \<Rightarrow> False
           | Some sig_bytes \<Rightarrow> ed25519_verify cr pub_bytes message sig_bytes))"

section \<open>Creating a key\<close>

text \<open>The checks that do not touch the database.\<close>

definition create_admit :: "crypto \<Rightarrow> create_env \<Rightarrow> create_key_request \<Rightarrow> unit res" where
  "create_admit cr env req =
     rbind (validate_challenge (at_validate env) (cr_challenge req) (cr_wallet req)) (\<lambda>_.
       if \<not> verify_wallet_signature cr (cr_wallet req) (cr_signature req) (cr_challenge req)
       then Inl (HTTPException 403 ''Invalid wallet signature'')
       else Inr ())"

text \<open>The query for an earlier use of the challenge.\<close>

definition create_lookup :: "create_key_request \<Rightarrow> auth_db \<Rightarrow> unit res" where
  "create_lookup req db =
     (if List.find (\<lambda>u. uc_challenge u = cr_challenge req) (used_challenges db) \<noteq> None
      then Inl (HTTPException 400 ''Challenge has already been used'') else Inr ())"

definition key_row :: "crypto \<Rightarrow> create_env \<Rightarrow> create_key_request \<Rightarrow> api_key" where
  "key_row cr env req =
     \<lparr>ak_key_id = generate_key_id (rnd_key env),
      ak_token_hash = hash_token cr (generate_token (rnd_token env)),
      ak_wallet = cr_wallet req, ak_label = cr_label req,
      ak_created_at = at_now env, ak_revoked = False\<rparr>"

definition purge :: "create_env \<Rightarrow> used_challenge list \<Rightarrow> used_challenge list" where
  "purge env us =
     (if py_int (at_purge env) mod 10 = 0 then filter (\<lambda>u. \<not> uc_expires_at u < at_now env) us else us)"

definition insert_challenge :: "used_challenge \<Rightarrow> used_challenge list \<Rightarrow> used_challenge list res" where
  "insert_challenge u us =
     (if uc_challenge u \<in> uc_challenge ` set us
      then Inl (IntegrityError ''UNIQUE constraint failed: used_challenges'') else Inr (us @ [u]))"

definition insert_api_key :: "api_key \<Rightarrow> api_key list \<Rightarrow> api_key list res" where
  "insert_api_key k ks =
     (if ak_key_id k \<in> ak_key_id ` set ks \<or> ak_token_hash k \<in> ak_token_hash ` set ks
      then Inl (IntegrityError ''UNIQUE constraint failed: api_keys'') else Inr (ks @ [k]))"

text \<open>The writing transaction and the response.\<close>

definition create_commit ::
  "crypto \<Rightarrow> create_env \<Rightarrow> create_key_request \<Rightarrow> auth_db \<Rightarrow> (create_key_response \<times> auth_db) res" where
  "create_commit cr env req db =
     rbind (insert_challenge
              \<lparr>uc_challenge = cr_challenge req, uc_expires_at = at_now env + of_int CHALLENGE_TTL_SECONDS\<rparr>
              (purge env (used_challenges db))) (\<lambda>us.
     rbind (insert_api_key (key_row cr env req) (api_keys db)) (\<lambda>ks.
       Inr (\<lparr>resp_key_id = generate_key_id (rnd_key env), resp_token = generate_token (rnd_token env),
             resp_wallet = cr_wallet req, resp_label = cr_label req, resp_created_at = at_now env\<rparr>,
            \<lparr>used_challenges = us, api_keys = ks\<rparr>)))"

definition create_key ::
  "crypto \<Rightarrow> create_env \<Rightarrow> create_key_request \<Rightarrow> auth_db \<Rightarrow> (create_key_response \<times> auth_db) res" where
  "create_key cr env req db =
     rbind (create_admit cr env req) (\<lambda>_.
     rbind (create_lookup req db) (\<lambda>_.
       create_commit cr env req db))"

section \<open>The other endpoints\<close>

definition list_keys :: "string \<Rightarrow> auth_db \<Rightarrow> key_info list" where
  "list_keys wallet db =
     map (\<lambda>r. \<lparr>info_key_id = ak_key_id r, info_wallet = ak_wallet r, info_label = ak_label r,
               info_created_at = ak_created_at r, info_revoked = ak_revoked r\<rparr>)
       (filter (\<lambda>r. ak_wallet r = wallet) (api_keys db))"

definition revoke_key :: "string \<Rightarrow> string \<Rightarrow> auth_db \<Rightarrow> auth_db res" where
  "revoke_key key_id wallet db =
     (case List.find (\<lambda>r. ak_key_id r = key_id) (api_keys db) of
        None \<Rightarrow> Inl (HTTPException 404 ''Key not found'')
      | Some row \<Rightarrow>
          if ak_wallet row \<noteq> wallet then Inl (HTTPException 403 ''Wallet mismatch'')
          else Inr (db\<lparr>api_keys :=
                        map (\<lambda>r. if ak_key_id r = key_id then r\<lparr>ak_revoked := True\<rparr> else r) (api_keys db)\<rparr>))"

definition verify_token :: "crypto \<Rightarrow> string \<Rightarrow> auth_db \<Rightarrow> (string \<times> string) res" where
  "verify_token cr token db =
     (case List.find (\<lambda>r. ak_token_hash r = hash_token cr token) (api_keys db) of
        None \<Rightarrow> Inl (HTTPException 401 ''Invalid token'')
      | Some row \<Rightarrow>
          if ak_revoked row then Inl (HTTPException 401 ''Token has been revoked'')
          else Inr (ak_wallet row, ak_key_id row))"

text \<open>The challenge the command-line client signs at a given time.\<close>

definition cli_challenge :: "string \<Rightarrow> real \<Rightarrow> string" where
  "cli_challenge wallet time = ''otela-auth:'' @ wallet @ '':'' @ str_int (py_int time)"

section \<open>Interleaved requests\<close>

datatype create_stage =
    Admitted create_env create_key_request
  | Checked create_env create_key_request

text \<open>The state of the service: its database, the creations under way, and, for the statements, the
  creations that were granted, latest first.\<close>

record auth_state =
  db :: auth_db
  under_way :: "create_stage list"
  grants :: "(create_env \<times> create_key_request) list"

definition empty_db :: auth_db where
  "empty_db = \<lparr>used_challenges = [], api_keys = []\<rparr>"

definition auth_init :: auth_state where
  "auth_init = \<lparr>db = empty_db, under_way = [], grants = []\<rparr>"

inductive auth_step :: "crypto \<Rightarrow> auth_state \<Rightarrow> auth_state \<Rightarrow> bool" for cr where
  admit: "create_admit cr env req = Inr () \<Longrightarrow>
    auth_step cr s (s\<lparr>under_way := Admitted env req # under_way s\<rparr>)"
| lookup: "under_way s = ps @ Admitted env req # qs \<Longrightarrow> create_lookup req (db s) = Inr () \<Longrightarrow>
    auth_step cr s (s\<lparr>under_way := ps @ Checked env req # qs\<rparr>)"
| reject: "under_way s = ps @ Admitted env req # qs \<Longrightarrow> create_lookup req (db s) = Inl e \<Longrightarrow>
    auth_step cr s (s\<lparr>under_way := ps @ qs\<rparr>)"
| commit: "under_way s = ps @ Checked env req # qs \<Longrightarrow>
    create_commit cr env req (db s) = Inr (resp, db') \<Longrightarrow>
    auth_step cr s (s\<lparr>db := db', under_way := ps @ qs, grants := (env, req) # grants s\<rparr>)"
| rollback: "under_way s = ps @ Checked env req # qs \<Longrightarrow>
    create_commit cr env req (db s) = Inl e \<Longrightarrow>
    auth_step cr s (s\<lparr>under_way := ps @ qs\<rparr>)"
| revoke: "revoke_key kid w (db s) = Inr db' \<Longrightarrow> auth_step cr s (s\<lparr>db := db'\<rparr>)"

abbreviation auth_reachable :: "crypto \<Rightarrow> auth_state \<Rightarrow> bool" where
  "auth_reachable cr \<equiv> (auth_step cr)\<^sup>*\<^sup>* auth_init"

section \<open>Requests one after the other\<close>

datatype auth_request =
    ReqCreate create_env create_key_request
  | ReqRevoke string string

fun serve :: "crypto \<Rightarrow> auth_request list \<Rightarrow> auth_db \<times> (create_env \<times> create_key_request) list
    \<Rightarrow> auth_db \<times> (create_env \<times> create_key_request) list" where
  "serve cr [] s = s"
| "serve cr (ReqCreate env req # rs) (d, gs) =
     serve cr rs (case create_key cr env req d of Inl e \<Rightarrow> (d, gs) | Inr (resp, d') \<Rightarrow> (d', (env, req) # gs))"
| "serve cr (ReqRevoke kid w # rs) (d, gs) =
     serve cr rs (case revoke_key kid w d of Inl e \<Rightarrow> (d, gs) | Inr d' \<Rightarrow> (d', gs))"

text \<open>The clock never goes back, within a request and from one to the next.\<close>

fun chronological :: "real \<Rightarrow> auth_request list \<Rightarrow> bool" where
  "chronological t [] = True"
| "chronological t (ReqCreate env req # rs) =
     (t \<le> at_validate env \<and> at_validate env \<le> at_now env \<and> at_now env \<le> at_purge env
      \<and> chronological (at_purge env) rs)"
| "chronological t (ReqRevoke kid w # rs) = chronological t rs"

text \<open>The time stamp of a challenge.\<close>

definition challenge_ts :: "string \<Rightarrow> int" where
  "challenge_ts c = (case py_int_str (last (split_on CHR '':'' c)) of Inr ts \<Rightarrow> ts | Inl e \<Rightarrow> 0)"
section \<open>Lemmas on the endpoints\<close>

lemma validate_challenge_ok:
  "validate_challenge t c w = Inr () \<longleftrightarrow>
     (\<exists>ts_str ts. split_on CHR '':'' c = [''otela-auth'', w, ts_str] \<and> py_int_str ts_str = Inr ts
        \<and> ts \<le> py_int t + 60 \<and> py_int t - ts \<le> 300)"
  by (auto simp: validate_challenge_def CHALLENGE_TTL_SECONDS_def Let_def
      split: list.splits sum.splits if_splits)

lemma create_admit_ok:
  "create_admit cr env req = Inr () \<longleftrightarrow>
     validate_challenge (at_validate env) (cr_challenge req) (cr_wallet req) = Inr ()
     \<and> verify_wallet_signature cr (cr_wallet req) (cr_signature req) (cr_challenge req)"
  by (auto simp: create_admit_def res_simps)

lemma challenge_shape:
  assumes "split_on CHR '':'' c = [''otela-auth'', w, ts_str]"
  shows "c = ''otela-auth:'' @ w @ '':'' @ ts_str"
  using join_split [of "CHR '':''" c] unfolding assms by simp

lemma challenge_ts_eq:
  assumes "split_on CHR '':'' c = [p, w, ts_str]" and "py_int_str ts_str = Inr ts"
  shows "challenge_ts c = ts"
  using assms by (simp add: challenge_ts_def)

lemma create_lookup_ok: "create_lookup req d = Inr () \<longleftrightarrow> cr_challenge req \<notin> uc_challenge ` set (used_challenges d)"
  by (auto simp: create_lookup_def find_None_iff2 find_None_iff split: if_splits) (metis imageI)

lemma used_challenge_rejected:
  "cr_challenge req \<in> uc_challenge ` set (used_challenges d) \<Longrightarrow>
     create_lookup req d = Inl (HTTPException 400 ''Challenge has already been used'')"
  by (auto simp: create_lookup_def find_None_iff)

lemma create_commit_ok:
  assumes "create_commit cr env req d = Inr (resp, d')"
  shows "cr_challenge req \<notin> uc_challenge ` set (purge env (used_challenges d))"
    and "used_challenges d' = purge env (used_challenges d)
           @ [\<lparr>uc_challenge = cr_challenge req, uc_expires_at = at_now env + 300\<rparr>]"
    and "ak_key_id (key_row cr env req) \<notin> ak_key_id ` set (api_keys d)"
    and "ak_token_hash (key_row cr env req) \<notin> ak_token_hash ` set (api_keys d)"
    and "api_keys d' = api_keys d @ [key_row cr env req]"
  using assms
  by (auto simp: create_commit_def insert_challenge_def insert_api_key_def CHALLENGE_TTL_SECONDS_def
      res_simps split: if_splits)

lemma create_key_ok:
  "create_key cr env req d = Inr (resp, d') \<longleftrightarrow>
     create_admit cr env req = Inr () \<and> create_lookup req d = Inr () \<and> create_commit cr env req d = Inr (resp, d')"
  by (simp add: create_key_def res_simps)

lemma set_purge: "set (purge env us) \<subseteq> set us"
  by (auto simp: purge_def)

lemma revoke_key_ok:
  assumes "revoke_key kid w d = Inr d'"
  shows "\<exists>row \<in> set (api_keys d). ak_key_id row = kid \<and> ak_wallet row = w"
    and "used_challenges d' = used_challenges d"
    and "api_keys d' = map (\<lambda>r. if ak_key_id r = kid then r\<lparr>ak_revoked := True\<rparr> else r) (api_keys d)"
  using assms by (auto simp: revoke_key_def find_Some_iff split: option.splits if_splits)

lemma find_unique:
  assumes "distinct (map f xs)" and "x \<in> set xs"
  shows "List.find (\<lambda>y. f y = f x) xs = Some x"
  using assms by (induction xs) (auto simp: image_iff)

lemma verify_token_ok:
  "verify_token cr tok d = Inr (w, kid) \<Longrightarrow>
     \<exists>row \<in> set (api_keys d). ak_token_hash row = hash_token cr tok \<and> \<not> ak_revoked row
       \<and> ak_wallet row = w \<and> ak_key_id row = kid"
  by (auto simp: verify_token_def find_Some_iff split: option.splits if_splits)

lemma verify_token_row:
  assumes "distinct (map ak_token_hash (api_keys d))" and "row \<in> set (api_keys d)"
    and "ak_token_hash row = hash_token cr tok"
  shows "verify_token cr tok d =
    (if ak_revoked row then Inl (HTTPException 401 ''Token has been revoked'') else Inr (ak_wallet row, ak_key_id row))"
  using find_unique [OF assms(1,2)] assms(3) by (simp add: verify_token_def)

section \<open>Invariant of the service\<close>

text \<open>
  The keys are exactly the granted creations, apart from the revocation mark; keys, token hashes and
  recorded challenges are unique; every creation under way or granted passed the checks.
\<close>

fun stage_admitted :: "crypto \<Rightarrow> create_stage \<Rightarrow> bool" where
  "stage_admitted cr (Admitted env req) = (create_admit cr env req = Inr ())"
| "stage_admitted cr (Checked env req) = (create_admit cr env req = Inr ())"

definition db_ok :: "auth_db \<Rightarrow> bool" where
  "db_ok d \<longleftrightarrow> distinct (map ak_key_id (api_keys d)) \<and> distinct (map ak_token_hash (api_keys d))
     \<and> distinct (map uc_challenge (used_challenges d))"

definition unmarked :: "api_key \<Rightarrow> api_key" where
  "unmarked k = k\<lparr>ak_revoked := False\<rparr>"

definition auth_inv :: "crypto \<Rightarrow> auth_state \<Rightarrow> bool" where
  "auth_inv cr s \<longleftrightarrow>
     db_ok (db s)
     \<and> map unmarked (api_keys (db s)) = rev (map (\<lambda>(env, req). key_row cr env req) (grants s))
     \<and> (\<forall>(env, req) \<in> set (grants s). create_admit cr env req = Inr ())
     \<and> (\<forall>st \<in> set (under_way s). stage_admitted cr st)"

lemma unmarked_simps [simp]:
  "unmarked (key_row cr env req) = key_row cr env req"
  "unmarked (k\<lparr>ak_revoked := b\<rparr>) = unmarked k"
  "ak_key_id (unmarked k) = ak_key_id k" "ak_token_hash (unmarked k) = ak_token_hash k"
  "ak_wallet (unmarked k) = ak_wallet k"
  by (simp_all add: unmarked_def key_row_def)

lemma distinct_map_purge: "distinct (map f us) \<Longrightarrow> distinct (map f (purge env us))"
  by (simp add: purge_def distinct_map_filter)

lemma commit_db_ok:
  assumes "db_ok d" and c: "create_commit cr env req d = Inr (resp, d')"
  shows "db_ok d'"
  using assms(1) create_commit_ok [OF c]
  by (simp add: db_ok_def distinct_map_purge)

lemma revoke_db_ok:
  assumes "db_ok d" and "revoke_key kid w d = Inr d'"
  shows "db_ok d'" and "map unmarked (api_keys d') = map unmarked (api_keys d)"
proof -
  let ?f = "\<lambda>r. if ak_key_id r = kid then r\<lparr>ak_revoked := True\<rparr> else r"
  have "map ak_key_id (api_keys d') = map ak_key_id (api_keys d)"
    "map ak_token_hash (api_keys d') = map ak_token_hash (api_keys d)"
    "map unmarked (api_keys d') = map unmarked (api_keys d)"
    unfolding revoke_key_ok(3) [OF assms(2)] map_map by (auto intro!: map_cong)
  then show "db_ok d'" "map unmarked (api_keys d') = map unmarked (api_keys d)"
    using assms(1) by (simp_all add: db_ok_def revoke_key_ok(2) [OF assms(2)])
qed

lemma auth_inv_init: "auth_inv cr auth_init"
  by (simp add: auth_inv_def auth_init_def empty_db_def db_ok_def)

lemma auth_inv_step:
  assumes "auth_step cr s t" and "auth_inv cr s"
  shows "auth_inv cr t"
  using assms
proof (cases rule: auth_step.cases)
  case (commit ps env req qs resp db')
  note c = create_commit_ok [OF commit(3)]
  have "db_ok db'" using assms(2) commit(3) by (auto simp: auth_inv_def intro: commit_db_ok)
  moreover have "create_admit cr env req = Inr ()" using assms(2) commit(2) by (auto simp: auth_inv_def)
  ultimately show ?thesis using assms(2) c(5) commit(1,2) by (auto simp: auth_inv_def)
next
  case (revoke kid w db')
  then show ?thesis using assms(2) revoke_db_ok [of "db s" kid w db'] by (auto simp: auth_inv_def)
qed (auto simp: auth_inv_def)

lemma auth_inv_steps: "(auth_step cr)\<^sup>*\<^sup>* s t \<Longrightarrow> auth_inv cr s \<Longrightarrow> auth_inv cr t"
  by (induction rule: rtranclp_induct) (auto intro: auth_inv_step)

lemmas auth_inv_reachable = auth_inv_steps [OF _ auth_inv_init]

lemma key_of_grant:
  assumes "auth_inv cr s" and "(env, req) \<in> set (grants s)"
  shows "\<exists>row \<in> set (api_keys (db s)). unmarked row = key_row cr env req"
proof -
  have "key_row cr env req \<in> set (map unmarked (api_keys (db s)))"
    using assms by (force simp: auth_inv_def)
  then show ?thesis by auto
qed

lemma grant_of_key:
  assumes "auth_inv cr s" and "row \<in> set (api_keys (db s))"
  shows "\<exists>env req. (env, req) \<in> set (grants s) \<and> unmarked row = key_row cr env req"
proof -
  have "unmarked row \<in> set (rev (map (\<lambda>(env, req). key_row cr env req) (grants s)))"
    using assms unfolding auth_inv_def by (metis image_eqI list.set_map)
  then show ?thesis by auto
qed

lemma grant_hashes:
  assumes "auth_inv cr s"
  shows "map (\<lambda>g. hash_token cr (generate_token (rnd_token (fst g)))) (grants s)
    = rev (map ak_token_hash (api_keys (db s)))"
proof -
  have "map ak_token_hash (map unmarked (api_keys (db s)))
      = map ak_token_hash (rev (map (\<lambda>(env, req). key_row cr env req) (grants s)))"
    using assms by (simp add: auth_inv_def)
  then show ?thesis by (simp add: rev_map [symmetric] comp_def case_prod_unfold key_row_def rev_swap)
qed

lemma find_snoc_other: "\<not> p x \<Longrightarrow> List.find p (xs @ [x]) = List.find p xs"
  by (induction xs) simp_all

lemma commit_fresh:
  assumes "cr_challenge req \<notin> uc_challenge ` set (used_challenges d)"
    and "generate_key_id (rnd_key env) \<notin> ak_key_id ` set (api_keys d)"
    and "hash_token cr (generate_token (rnd_token env)) \<notin> ak_token_hash ` set (api_keys d)"
  shows "\<exists>resp d'. create_commit cr env req d = Inr (resp, d') \<and> resp_token resp = generate_token (rnd_token env)
    \<and> resp_key_id resp = generate_key_id (rnd_key env)"
proof -
  have "cr_challenge req \<notin> uc_challenge ` set (purge env (used_challenges d))"
    using assms(1) set_purge by blast
  then show ?thesis
    using assms(2,3) by (simp add: create_commit_def insert_challenge_def insert_api_key_def key_row_def)
qed

lemma cli_challenge_valid:
  assumes "CHR '':'' \<notin> set w" and "0 \<le> t"
  shows "validate_challenge now (cli_challenge w t) w = Inr () \<longleftrightarrow>
    py_int t \<le> py_int now + 60 \<and> py_int now - py_int t \<le> 300"
proof -
  have "0 \<le> py_int t" using assms(2) by (rule py_int_nonneg)
  then have s: "str_int (py_int t) = str_nat (nat (py_int t))" "py_int_str (str_nat (nat (py_int t))) = Inr (py_int t)"
    by (simp_all add: str_int_def py_int_str_str_nat)
  have n: "CHR '':'' \<notin> set (str_nat (nat (py_int t)))"
    by (metis not_digit_punctuation(4) str_nat_digits)
  have "split_on CHR '':'' (cli_challenge w t) = [''otela-auth'', w, str_nat (nat (py_int t))]"
    using split_on_append [OF assms(1)] split_on_no_sep [OF n] by (simp add: cli_challenge_def s)
  then show ?thesis by (auto simp: validate_challenge_ok s)
qed

text \<open>A marked key stays marked.\<close>

definition marked :: "string \<Rightarrow> auth_db \<Rightarrow> bool" where
  "marked h d \<longleftrightarrow> (\<exists>row \<in> set (api_keys d). ak_token_hash row = h \<and> ak_revoked row)"

lemma marked_step: "auth_step cr s t \<Longrightarrow> marked h (db s) \<Longrightarrow> marked h (db t)"
  by (erule auth_step.cases) (auto simp: marked_def create_commit_ok(5) revoke_key_ok(3) bex_Un)

lemma marked_steps: "(auth_step cr)\<^sup>*\<^sup>* s t \<Longrightarrow> marked h (db s) \<Longrightarrow> marked h (db t)"
  by (induction rule: rtranclp_induct) (auto intro: marked_step)
section \<open>Replays\<close>

text \<open>
  What the service remembers of a granted creation at time \<open>t\<close>: its challenge is recorded until
  five minutes after the grant, or the record was purged and that time is over.
\<close>

definition remembered :: "real \<Rightarrow> auth_db \<Rightarrow> create_env \<times> create_key_request \<Rightarrow> bool" where
  "remembered t d g \<longleftrightarrow>
     (\<exists>u \<in> set (used_challenges d). uc_challenge u = cr_challenge (snd g) \<and> uc_expires_at u = at_now (fst g) + 300)
     \<or> at_now (fst g) + 300 < t"

text \<open>A challenge used at least a full second after its time stamp.\<close>

definition settled :: "create_env \<times> create_key_request \<Rightarrow> bool" where
  "settled g \<longleftrightarrow> of_int (challenge_ts (cr_challenge (snd g))) + 1 \<le> at_now (fst g)"

lemma py_int_gt: "x < of_int (py_int x) + 1" if "0 \<le> x"
  using that by (simp add: py_int_def)

lemma remembered_mono: "remembered t d g \<Longrightarrow> t \<le> t' \<Longrightarrow> remembered t' d g"
  by (auto simp: remembered_def)

lemma remembered_commit:
  assumes "remembered t d g" and "t \<le> at_now env" and "create_commit cr env req d = Inr (resp, d')"
  shows "remembered (at_now env) d' g"
  using assms create_commit_ok(2) [OF assms(3)]
  by (cases "at_now (fst g) + 300 < at_now env") (auto simp: remembered_def purge_def)

lemma remembered_new:
  assumes "create_commit cr env req d = Inr (resp, d')"
  shows "remembered t d' (env, req)"
  using create_commit_ok(2) [OF assms] by (simp add: remembered_def)

lemma remembered_revoke: "revoke_key kid w d = Inr d' \<Longrightarrow> remembered t d' g = remembered t d g"
  by (simp add: remembered_def revoke_key_ok(2))

lemma replay_rejected:
  assumes "remembered t d g" and "settled g" and "0 \<le> t" and "t \<le> at_validate env"
    and "cr_challenge req = cr_challenge (snd g)"
  shows "create_key cr env req d \<noteq> Inr (resp, d')"
proof
  assume c: "create_key cr env req d = Inr (resp, d')"
  then have "cr_challenge (snd g) \<notin> uc_challenge ` set (used_challenges d)"
    using assms(5) by (simp add: create_key_ok create_lookup_ok)
  then have late: "at_now (fst g) + 300 < at_validate env"
    using assms(1,4) unfolding remembered_def by (metis imageI less_le_trans)
  obtain ts where ts: "challenge_ts (cr_challenge req) = ts" "py_int (at_validate env) - ts \<le> 300"
    using c challenge_ts_eq by (force simp: create_key_ok create_admit_ok validate_challenge_ok)
  have "at_validate env < of_int (py_int (at_validate env)) + 1"
    using assms(3,4) by (intro py_int_gt) simp
  also have "\<dots> \<le> of_int (ts + 300) + 1" using ts(2) by linarith
  also have "\<dots> \<le> at_now (fst g) + 300" using assms(2,5) ts(1) by (simp add: settled_def)
  finally show False using late by simp
qed

abbreviation not_replayed :: "create_env \<times> create_key_request \<Rightarrow> create_env \<times> create_key_request \<Rightarrow> bool" where
  "not_replayed late early \<equiv> settled early \<longrightarrow> cr_challenge (snd late) \<noteq> cr_challenge (snd early)"

lemma serve_no_replay:
  assumes "chronological t rs" and "0 \<le> t" and "\<forall>g \<in> set gs. remembered t d g"
    and "sorted_wrt not_replayed gs"
  shows "sorted_wrt not_replayed (snd (serve cr rs (d, gs)))"
  using assms
proof (induction cr rs "(d, gs)" arbitrary: t d gs rule: serve.induct)
  case (2 cr env req rs d gs)
  have time: "t \<le> at_validate env" "at_validate env \<le> at_now env" "at_now env \<le> at_purge env"
    "chronological (at_purge env) rs" using 2(2) by simp_all
  have pos: "0 \<le> at_purge env" using time 2(3) by linarith
  show ?case
  proof (cases "create_key cr env req d")
    case (Inl e)
    have "\<forall>g \<in> set gs. remembered (at_purge env) d g"
      using 2(4) time by (meson order_trans remembered_mono)
    then show ?thesis using 2(1) [of d gs "at_purge env"] 2(5) Inl time(4) pos by simp
  next
    case (Inr r)
    obtain resp d' where r: "r = (resp, d')" by force
    note c = Inr [unfolded r]
    have cc: "create_commit cr env req d = Inr (resp, d')" using c by (simp add: create_key_ok)
    have "remembered (at_purge env) d' g" if "g \<in> set gs" for g
    proof (rule remembered_mono)
      show "remembered (at_now env) d' g"
        using 2(4) that time by (intro remembered_commit [OF _ _ cc, of t]) auto
    qed (rule time)
    moreover have "not_replayed (env, req) g" if "g \<in> set gs" for g
      using replay_rejected [of t d g env req cr resp d'] 2(3,4) that time(1) c by auto
    ultimately show ?thesis
      using 2(1) [of d' "(env, req) # gs" "at_purge env"] 2(5) c r time(4) pos remembered_new [OF cc]
      by simp
  qed
next
  case (3 cr kid w rs d gs)
  then show ?case by (cases "revoke_key kid w d") (auto simp: remembered_revoke)
qed simp_all
section \<open>Properties\<close>

lemma verified_token_facts:
  assumes "auth_reachable cr s" and "verify_token cr tok (db s) = Inr (w, kid)"
  shows "\<exists>!g. g \<in> set (grants s) \<and> hash_token cr (generate_token (rnd_token (fst g))) = hash_token cr tok"
    and "\<exists>env req ts_str ts. (env, req) \<in> set (grants s)
      \<and> hash_token cr (generate_token (rnd_token env)) = hash_token cr tok
      \<and> kid = generate_key_id (rnd_key env) \<and> cr_wallet req = w
      \<and> cr_challenge req = ''otela-auth:'' @ w @ '':'' @ ts_str \<and> py_int_str ts_str = Inr ts
      \<and> py_int (at_validate env) - 300 \<le> ts \<and> ts \<le> py_int (at_validate env) + 60
      \<and> verify_wallet_signature cr w (cr_signature req) (cr_challenge req)"
    and "\<exists>info \<in> set (list_keys w (db s)). info_key_id info = kid \<and> \<not> info_revoked info"
proof -
  have inv: "auth_inv cr s" using assms(1) by (rule auth_inv_reachable)
  obtain row where row: "row \<in> set (api_keys (db s))" "ak_token_hash row = hash_token cr tok"
    "\<not> ak_revoked row" "ak_wallet row = w" "ak_key_id row = kid"
    using verify_token_ok [OF assms(2)] by blast
  obtain env req where g: "(env, req) \<in> set (grants s)" "unmarked row = key_row cr env req"
    using grant_of_key [OF inv row(1)] by blast
  have fields: "hash_token cr (generate_token (rnd_token env)) = hash_token cr tok"
    "kid = generate_key_id (rnd_key env)" "cr_wallet req = w"
    using row(2,4,5) arg_cong [OF g(2), of ak_token_hash] arg_cong [OF g(2), of ak_key_id]
      arg_cong [OF g(2), of ak_wallet] by (simp_all add: key_row_def)
  have adm: "create_admit cr env req = Inr ()" using inv g(1) by (auto simp: auth_inv_def)
  then obtain ts_str ts where
    "split_on CHR '':'' (cr_challenge req) = [''otela-auth'', w, ts_str]" "py_int_str ts_str = Inr ts"
    "ts \<le> py_int (at_validate env) + 60" "py_int (at_validate env) - ts \<le> 300"
    using fields(3) by (auto simp: create_admit_ok validate_challenge_ok)
  moreover have "verify_wallet_signature cr w (cr_signature req) (cr_challenge req)"
    using adm fields(3) by (simp add: create_admit_ok)
  ultimately show "\<exists>env req ts_str ts. (env, req) \<in> set (grants s)
      \<and> hash_token cr (generate_token (rnd_token env)) = hash_token cr tok
      \<and> kid = generate_key_id (rnd_key env) \<and> cr_wallet req = w
      \<and> cr_challenge req = ''otela-auth:'' @ w @ '':'' @ ts_str \<and> py_int_str ts_str = Inr ts
      \<and> py_int (at_validate env) - 300 \<le> ts \<and> ts \<le> py_int (at_validate env) + 60
      \<and> verify_wallet_signature cr w (cr_signature req) (cr_challenge req)"
    using g(1) fields challenge_shape
    by (intro exI [of _ env] exI [of _ req] exI [of _ ts_str] exI [of _ ts]) auto
  show "\<exists>info \<in> set (list_keys w (db s)). info_key_id info = kid \<and> \<not> info_revoked info"
    using row by (auto simp: list_keys_def)
  have d: "distinct (map (\<lambda>g. hash_token cr (generate_token (rnd_token (fst g)))) (grants s))"
    using inv grant_hashes [OF inv] by (simp add: auth_inv_def db_ok_def)
  show "\<exists>!g. g \<in> set (grants s) \<and> hash_token cr (generate_token (rnd_token (fst g))) = hash_token cr tok"
    using g(1) fields(1) inj_onD [OF distinct_map [THEN iffD1, OF d, THEN conjunct2]] by (metis fst_conv)
qed

text \<open>C7: Whatever the interleaving of creations and revocations, a token that verifies belongs to exactly
  one granted creation. The wallet the service reports is the wallet of that creation, which presented
  a challenge naming that same wallet, no more than five minutes old and no more than one minute ahead
  of the clock, with a signature that verifies under that wallet. The key is listed for the wallet
  and is not revoked.\<close>

theorem verified_token_owner:
  assumes "auth_reachable cr s" and "verify_token cr tok (db s) = Inr (w, kid)"
  shows "(\<exists>!g. g \<in> set (grants s) \<and> hash_token cr (generate_token (rnd_token (fst g))) = hash_token cr tok)
    \<and> (\<exists>env req ts_str ts. (env, req) \<in> set (grants s)
      \<and> hash_token cr (generate_token (rnd_token env)) = hash_token cr tok
      \<and> kid = generate_key_id (rnd_key env) \<and> cr_wallet req = w
      \<and> cr_challenge req = ''otela-auth:'' @ w @ '':'' @ ts_str \<and> py_int_str ts_str = Inr ts
      \<and> py_int (at_validate env) - 300 \<le> ts \<and> ts \<le> py_int (at_validate env) + 60
      \<and> verify_wallet_signature cr w (cr_signature req) (cr_challenge req))
    \<and> (\<exists>info \<in> set (list_keys w (db s)). info_key_id info = kid \<and> \<not> info_revoked info)"
  by (intro conjI verified_token_facts [OF assms])
text \<open>A concrete instance of the libraries: the identity as encoding and hash, the key itself before the
  message as signature.\<close>

definition toy_crypto :: crypto where
  "toy_crypto = \<lparr>b58decode = Some, ed25519_verify = (\<lambda>pub msg sig. sig = pub @ msg), sha256_hex = id\<rparr>"

definition toy_env :: "real \<Rightarrow> string \<Rightarrow> create_env" where
  "toy_env t rnd = \<lparr>at_validate = t, at_now = t, at_purge = t, rnd_token = rnd, rnd_key = rnd\<rparr>"

definition toy_request :: "string \<Rightarrow> create_key_request" where
  "toy_request ch = \<lparr>cr_wallet = ''W'', cr_signature = ''W'' @ ch, cr_challenge = ch, cr_label = []\<rparr>"

lemmas toy_defs = toy_crypto_def toy_env_def toy_request_def

lemmas parse_defs = py_int_str_def strip_by_def is_c_space_def is_digit_def nat_of_digits_def digit_val_def

lemma toy_ts: "py_int_str ''1000'' = Inr 1000" "py_int_str ''1290'' = Inr 1290"
  by (simp_all add: parse_defs Let_def)

lemma toy_admit:
  assumes "0 \<le> t" "940 \<le> t" "t \<le> 1300"
  shows "create_admit toy_crypto (toy_env t rnd) (toy_request ''otela-auth:W:1000'') = Inr ()"
proof -
  have "940 \<le> py_int t" "py_int t \<le> 1300" using assms by (auto simp: py_int_def le_floor_iff floor_le_iff)
  then show ?thesis
    using toy_ts by (simp add: create_admit_ok validate_challenge_ok verify_wallet_signature_def toy_defs)
qed

lemma toy_commit:
  "create_commit toy_crypto (toy_env 1001 ''a'') (toy_request ''otela-auth:W:1000'') empty_db =
     Inr (\<lparr>resp_key_id = ''okey_a'', resp_token = ''otela_a'', resp_wallet = ''W'', resp_label = [],
           resp_created_at = 1001\<rparr>,
          \<lparr>used_challenges = [\<lparr>uc_challenge = ''otela-auth:W:1000'', uc_expires_at = 1301\<rparr>],
           api_keys = [key_row toy_crypto (toy_env 1001 ''a'') (toy_request ''otela-auth:W:1000'')]\<rparr>)"
  by (simp add: create_commit_def insert_challenge_def insert_api_key_def purge_def empty_db_def
      CHALLENGE_TTL_SECONDS_def generate_key_id_def generate_token_def toy_defs)

definition toy_state :: auth_state where
  "toy_state =
     \<lparr>db = \<lparr>used_challenges = [\<lparr>uc_challenge = ''otela-auth:W:1000'', uc_expires_at = 1301\<rparr>],
            api_keys = [key_row toy_crypto (toy_env 1001 ''a'') (toy_request ''otela-auth:W:1000'')]\<rparr>,
      under_way = [], grants = [(toy_env 1001 ''a'', toy_request ''otela-auth:W:1000'')]\<rparr>"

lemma toy_reachable: "auth_reachable toy_crypto toy_state"
proof -
  let ?e = "toy_env 1001 ''a''" and ?r = "toy_request ''otela-auth:W:1000''"
  let ?s1 = "auth_init\<lparr>under_way := [Admitted ?e ?r]\<rparr>" and ?s2 = "auth_init\<lparr>under_way := [Checked ?e ?r]\<rparr>"
  have "auth_step toy_crypto auth_init ?s1"
    using auth_step.admit [OF toy_admit [of 1001 "''a''"], of auth_init] by (simp add: auth_init_def)
  moreover have "auth_step toy_crypto ?s1 ?s2"
    using auth_step.lookup [of ?s1 "[]" ?e ?r "[]" toy_crypto]
    by (simp add: create_lookup_ok auth_init_def empty_db_def)
  moreover have "auth_step toy_crypto ?s2 toy_state"
    using auth_step.commit [of ?s2 "[]" ?e ?r "[]" toy_crypto, unfolded auth_init_def, simplified, OF toy_commit]
    by (simp add: toy_state_def auth_init_def)
  ultimately show ?thesis by (meson converse_rtranclp_into_rtranclp rtranclp.rtrancl_refl)
qed

lemma toy_verify: "verify_token toy_crypto ''otela_a'' (db toy_state) = Inr (''W'', ''okey_a'')"
  by (simp add: verify_token_def toy_state_def key_row_def hash_token_def generate_token_def
      generate_key_id_def toy_defs)

theorem verified_token_owner_witness:
  "\<exists>info \<in> set (list_keys ''W'' (db toy_state)). info_key_id info = ''okey_a'' \<and> \<not> info_revoked info"
  using verified_token_owner [OF toy_reachable toy_verify] by blast

lemma revoked_facts:
  assumes "auth_reachable cr s" and "(env, req) \<in> set (grants s)"
    and "revoke_key (generate_key_id (rnd_key env)) w (db s) = Inr d'"
    and "(auth_step cr)\<^sup>*\<^sup>* (s\<lparr>db := d'\<rparr>) t"
  shows "verify_token cr (generate_token (rnd_token env)) (db t) = Inl (HTTPException 401 ''Token has been revoked'')"
    and "w = cr_wallet req"
proof -
  have inv: "auth_inv cr s" using assms(1) by (rule auth_inv_reachable)
  have step: "auth_step cr s (s\<lparr>db := d'\<rparr>)" using assms(3) by (rule auth_step.revoke)
  have inv': "auth_inv cr t" using assms(4) auth_inv_step [OF step inv] by (rule auth_inv_steps)
  obtain row where row: "row \<in> set (api_keys (db s))" "unmarked row = key_row cr env req"
    using key_of_grant [OF inv assms(2)] by blast
  have fields: "ak_key_id row = generate_key_id (rnd_key env)" "ak_wallet row = cr_wallet req"
    "ak_token_hash row = hash_token cr (generate_token (rnd_token env))"
    using arg_cong [OF row(2), of ak_key_id] arg_cong [OF row(2), of ak_wallet]
      arg_cong [OF row(2), of ak_token_hash] by (simp_all add: key_row_def)
  have "marked (hash_token cr (generate_token (rnd_token env))) d'"
    using row(1) fields(1,3) unfolding marked_def revoke_key_ok(3) [OF assms(3)]
    by (intro bexI [of _ "row\<lparr>ak_revoked := True\<rparr>"]) (auto simp: image_iff intro: bexI [of _ row])
  then have "marked (hash_token cr (generate_token (rnd_token env))) (db t)"
    using marked_steps [OF assms(4)] by simp
  then show "verify_token cr (generate_token (rnd_token env)) (db t)
      = Inl (HTTPException 401 ''Token has been revoked'')"
    using inv' verify_token_row [of "db t" _ cr] by (auto simp: marked_def auth_inv_def db_ok_def)
  obtain row' where "row' \<in> set (api_keys (db s))" "ak_key_id row' = generate_key_id (rnd_key env)" "ak_wallet row' = w"
    using revoke_key_ok(1) [OF assms(3)] by blast
  moreover have "inj_on ak_key_id (set (api_keys (db s)))"
    using inv by (simp add: auth_inv_def db_ok_def distinct_map)
  ultimately show "w = cr_wallet req" using row(1) fields(1,2) by (metis inj_onD)
qed

text \<open>C8: Revocation is final: once a key is revoked, the token of the creation that made it is answered
  with status 401 in every later state, whatever creations and revocations are interleaved; and only
  the wallet that owns the key passes the check.\<close>

theorem revoked_for_ever:
  assumes "auth_reachable cr s" and "(env, req) \<in> set (grants s)"
    and "revoke_key (generate_key_id (rnd_key env)) w (db s) = Inr d'"
    and "(auth_step cr)\<^sup>*\<^sup>* (s\<lparr>db := d'\<rparr>) t"
  shows "verify_token cr (generate_token (rnd_token env)) (db t) = Inl (HTTPException 401 ''Token has been revoked'')
    \<and> w = cr_wallet req"
  by (intro conjI revoked_facts [OF assms])

theorem revoked_for_ever_witness:
  "\<exists>d'. revoke_key ''okey_a'' ''W'' (db toy_state) = Inr d'
     \<and> verify_token toy_crypto ''otela_a'' d' = Inl (HTTPException 401 ''Token has been revoked'')"
proof -
  have g: "(toy_env 1001 ''a'', toy_request ''otela-auth:W:1000'') \<in> set (grants toy_state)"
    by (simp add: toy_state_def)
  have tok: "generate_token (rnd_token (toy_env 1001 ''a'')) = ''otela_a''"
    "generate_key_id (rnd_key (toy_env 1001 ''a'')) = ''okey_a''"
    by (simp_all add: generate_token_def generate_key_id_def toy_env_def)
  obtain d' where d': "revoke_key ''okey_a'' ''W'' (db toy_state) = Inr d'"
    by (simp add: revoke_key_def toy_state_def key_row_def generate_key_id_def toy_defs)
  then show ?thesis
    using revoked_for_ever [OF toy_reachable g, unfolded tok, OF d' rtranclp.rtrancl_refl] by simp
qed
text \<open>C16: A challenge is accepted once: when requests are handled one after the other on a clock that never
  goes back, no request is granted with the challenge of an earlier grant, provided the earlier one
  was made at least a full second after the time stamp of its challenge. (Grants are listed latest
  first.)\<close>

theorem challenge_accepted_once:
  assumes "chronological 0 rs" and "gs = snd (serve cr rs (empty_db, []))"
    and "i < j" and "j < length gs"
    and "of_int (challenge_ts (cr_challenge (snd (gs ! j)))) + 1 \<le> at_now (fst (gs ! j))"
  shows "cr_challenge (snd (gs ! i)) \<noteq> cr_challenge (snd (gs ! j))"
proof -
  have "sorted_wrt not_replayed gs" unfolding assms(2) by (rule serve_no_replay [OF assms(1)]) simp_all
  then show ?thesis using assms(3-5) by (simp add: sorted_wrt_iff_nth_less settled_def)
qed
lemma toy_sel [simp]:
  "at_validate (toy_env t rnd) = t" "at_now (toy_env t rnd) = t" "at_purge (toy_env t rnd) = t"
  "rnd_token (toy_env t rnd) = rnd" "rnd_key (toy_env t rnd) = rnd" "sha256_hex toy_crypto = id"
  "cr_wallet (toy_request ch) = ''W''" "cr_challenge (toy_request ch) = ch" "cr_label (toy_request ch) = []"
  by (simp_all add: toy_defs)

lemma toy_admit_1290:
  assumes "0 \<le> t" "1230 \<le> t" "t \<le> 1590"
  shows "create_admit toy_crypto (toy_env t rnd) (toy_request ''otela-auth:W:1290'') = Inr ()"
proof -
  have "1230 \<le> py_int t" "py_int t \<le> 1590" using assms by (auto simp: py_int_def le_floor_iff floor_le_iff)
  then show ?thesis
    using toy_ts by (simp add: create_admit_ok validate_challenge_ok verify_wallet_signature_def toy_defs)
qed

lemma toy_admit_1000_half: "create_admit toy_crypto (toy_env (2601 / 2) rnd) (toy_request ''otela-auth:W:1000'') = Inr ()"
  using toy_ts
  by (simp add: create_admit_ok validate_challenge_ok verify_wallet_signature_def toy_defs py_int_def)

lemmas create_eval = create_key_def create_lookup_def create_commit_def insert_challenge_def insert_api_key_def
  purge_def empty_db_def CHALLENGE_TTL_SECONDS_def generate_key_id_def generate_token_def hash_token_def
  key_row_def toy_admit toy_admit_1290 toy_admit_1000_half py_int_def

theorem challenge_accepted_once_witness:
  "\<exists>gs. gs = snd (serve toy_crypto
      [ReqCreate (toy_env 1001 ''a'') (toy_request ''otela-auth:W:1000''),
       ReqCreate (toy_env 1300 ''b'') (toy_request ''otela-auth:W:1000''),
       ReqCreate (toy_env 1300 ''c'') (toy_request ''otela-auth:W:1290'')] (empty_db, []))
     \<and> length gs = 2 \<and> cr_challenge (snd (gs ! 0)) \<noteq> cr_challenge (snd (gs ! 1))"
proof -
  let ?rs = "[ReqCreate (toy_env 1001 ''a'') (toy_request ''otela-auth:W:1000''),
    ReqCreate (toy_env 1300 ''b'') (toy_request ''otela-auth:W:1000''),
    ReqCreate (toy_env 1300 ''c'') (toy_request ''otela-auth:W:1290'')]"
  let ?gs = "[(toy_env 1300 ''c'', toy_request ''otela-auth:W:1290''),
    (toy_env 1001 ''a'', toy_request ''otela-auth:W:1000'')]"
  have gs: "?gs = snd (serve toy_crypto ?rs (empty_db, []))"
    by (simp add: create_eval)
  have "chronological 0 ?rs" by simp
  have "cr_challenge (snd (?gs ! 0)) \<noteq> cr_challenge (snd (?gs ! 1))"
    by (rule challenge_accepted_once [OF \<open>chronological 0 ?rs\<close> gs]) (simp_all add: challenge_ts_def toy_ts)
  then show ?thesis by (intro exI [of _ ?gs] conjI gs) simp_all
qed

text \<open>The second matters: a challenge used within the second of its time stamp can be used again, at the
  end of its five minutes, when another request has purged the record in between.\<close>

lemma challenge_replayed:
  "map (cr_challenge \<circ> snd) (snd (serve toy_crypto
     [ReqCreate (toy_env (5001 / 5) ''a'') (toy_request ''otela-auth:W:1000''),
      ReqCreate (toy_env (13003 / 10) ''b'') (toy_request ''otela-auth:W:1290''),
      ReqCreate (toy_env (2601 / 2) ''c'') (toy_request ''otela-auth:W:1000'')] (empty_db, [])))
   = [''otela-auth:W:1000'', ''otela-auth:W:1290'', ''otela-auth:W:1000'']"
  by (simp add: create_eval)



end
