(* ===== verification/Fleet_Config.thy ===== *)
theory Fleet_Config
  imports Prelude
begin

text \<open>
  Cluster descriptions of the fleet manager (\<open>contrib/fleet_manager\<close>, first half of
  \<open>cluster.py\<close>): the data classes, the validation of a YAML document and its conversion.

  A document is a \<open>pyval\<close> whose mappings have string keys; it is what the YAML library returns for
  a path, an argument of the model. The data classes do not check the types of their fields, so the
  fields that are copied from the document are \<open>pyval\<close> too. The texts of exceptions are abbreviated
  where the code prints a value.
\<close>

section \<open>Data classes\<close>

record preset =
  ps_partition :: pyval
  ps_account :: pyval
  ps_time :: pyval
  ps_gpus :: pyval
  ps_nodes :: pyval
  ps_cpus_per_task :: pyval
  ps_extra_sbatch :: pyval

record proxy_chains =
  pc_enabled :: bool
  pc_ssh_key :: pyval
  pc_proxy_target :: pyval
  pc_socks_port :: int
  pc_skip_partitions :: "pyval list"

definition default_proxy_chains :: proxy_chains where
  "default_proxy_chains =
     \<lparr>pc_enabled = False, pc_ssh_key = PStr [], pc_proxy_target = PStr [], pc_socks_port = 1080,
      pc_skip_partitions = []\<rparr>"

record fleet_cluster_config =
  cfg_name :: pyval
  ssh_host :: pyval
  ssh_host_any :: pyval
  cfg_arch :: pyval
  binary_local_path :: pyval
  binary_remote_path :: pyval
  relay_seed :: pyval
  relay_peer_id :: pyval
  relay_host_ip :: pyval
  relay_port :: pyval
  relay_tcp_port :: pyval
  relay_udp_port :: pyval
  relay_home_override :: pyval
  relay_bootstrap :: pyval
  relay_skip :: pyval
  worker_seed :: pyval
  worker_port :: pyval
  worker_service_port :: pyval
  cfg_presets :: "preset pydict"
  cfg_modules :: pyval
  container_runtime :: pyval
  container_image :: pyval
  container_edf_template :: pyval
  container_edf_remote_path :: pyval
  container_sif_path :: pyval
  container_pull_if_missing :: pyval
  container_hf_cache :: pyval
  container_mounts :: pyval
  container_env :: pyval
  container_env_from_host :: pyval
  container_apptainer_flags :: pyval
  cfg_proxychains :: proxy_chains
  require_signed_binary :: pyval
  skip_verification :: pyval

section \<open>Parsing\<close>

definition parse_preset :: "pyval \<Rightarrow> preset res" where
  "parse_preset values =
     rbind (py_item values ''partition'') (\<lambda>partition.
     rbind (py_item values ''account'') (\<lambda>account.
     rbind (py_item values ''time'') (\<lambda>time.
     rbind (py_item values ''gpus'') (\<lambda>gpus.
     rbind (py_get values ''nodes'' (PInt 1)) (\<lambda>nodes.
     rbind (py_get values ''cpus_per_task'' PNone) (\<lambda>cpus.
     rbind (py_get values ''extra_sbatch'' (PList [])) (\<lambda>extra.
       Inr \<lparr>ps_partition = partition, ps_account = account, ps_time = time, ps_gpus = gpus,
            ps_nodes = nodes, ps_cpus_per_task = cpus, ps_extra_sbatch = extra\<rparr>)))))))"

definition parse_presets :: "pyval \<Rightarrow> preset pydict res" where
  "parse_presets raw_presets =
     rbind (py_items raw_presets)
       (map_res (\<lambda>(name, values). rbind (parse_preset values) (\<lambda>p. Inr (name, p))))"

definition parse_proxychains :: "pyval \<Rightarrow> proxy_chains res" where
  "parse_proxychains raw =
     (if \<not> py_truthy raw then Inr default_proxy_chains
      else
        rbind (py_get raw ''enabled'' (PBool False)) (\<lambda>enabled.
        rbind (py_get raw ''ssh_key'' (PStr [])) (\<lambda>ssh_key.
        rbind (py_get raw ''proxy_target'' (PStr [])) (\<lambda>proxy_target.
        rbind (rbind (py_get raw ''socks_port'' (PInt 1080)) py_int_val) (\<lambda>socks_port.
        rbind (rbind (py_get raw ''skip_partitions'' (PList [])) py_list_val) (\<lambda>skip.
          Inr \<lparr>pc_enabled = py_truthy enabled, pc_ssh_key = ssh_key, pc_proxy_target = proxy_target,
               pc_socks_port = socks_port, pc_skip_partitions = skip\<rparr>))))))"

section \<open>Validation\<close>

text \<open>One loop \<open>for key in keys: if key not in v: raise\<close>, and one check that \<open>v.get(key)\<close> is true.\<close>

definition require_keys :: "string \<Rightarrow> string list \<Rightarrow> pyval \<Rightarrow> unit res" where
  "require_keys pre keys v =
     for_res (\<lambda>key _. rbind (py_contains key v) (\<lambda>b.
       if b then Inr () else Inl (ValueError (''missing required field '' @ pre @ key)))) keys ()"

definition require_truthy :: "string \<Rightarrow> string list \<Rightarrow> pyval \<Rightarrow> unit res" where
  "require_truthy msg keys v =
     for_res (\<lambda>key _. rbind (py_get v key PNone) (\<lambda>x.
       if py_truthy x then Inr () else Inl (ValueError (msg @ key)))) keys ()"

definition validate_container :: "pyval \<Rightarrow> unit res" where
  "validate_container raw =
     rbind (py_contains ''container'' raw) (\<lambda>present.
     rbind (if present
            then rbind (py_get raw ''container'' (PDict [])) (\<lambda>c. py_contains ''runtime'' c)
            else Inr False) (\<lambda>b.
     if \<not> b then Inl (ValueError ''missing required field container.runtime'')
     else
       rbind (rbind (py_get raw ''container'' (PDict [])) (py_contains ''image'')) (\<lambda>b.
       if \<not> b then Inl (ValueError ''missing required field container.image'')
       else
         rbind (py_item raw ''container'') (\<lambda>container.
         rbind (py_item container ''runtime'') (\<lambda>runtime.
           if runtime = PStr ''enroot''
           then require_truthy ''enroot runtime requires container.'' [''edf_template'', ''edf_remote_path''] container
           else if runtime = PStr ''apptainer''
           then require_truthy ''apptainer runtime requires container.'' [''sif_path''] container
           else Inr ())))))"

definition validate_raw :: "pyval \<Rightarrow> unit res" where
  "validate_raw raw =
     rbind (require_keys [] [''name'', ''ssh'', ''arch'', ''binary'', ''relay'', ''worker'', ''presets''] raw) (\<lambda>_.
     rbind (py_item raw ''arch'') (\<lambda>arch.
     if arch \<notin> {PStr ''amd64'', PStr ''arm64''} then Inl (ValueError ''arch must be amd64 or arm64'')
     else
       rbind (rbind (py_item raw ''ssh'') (require_keys ''ssh.'' [''host''])) (\<lambda>_.
       rbind (rbind (py_item raw ''binary'') (require_keys ''binary.'' [''local_path'', ''remote_path''])) (\<lambda>_.
       rbind (rbind (py_item raw ''relay'') (require_keys ''relay.''
               [''seed'', ''peer_id'', ''host_ip'', ''port'', ''tcp_port'', ''udp_port'', ''home_override'', ''bootstrap''])) (\<lambda>_.
       rbind (rbind (py_item raw ''worker'') (require_keys ''worker.'' [''seed'', ''port'', ''service_port''])) (\<lambda>_.
       rbind (validate_container raw) (\<lambda>_.
       rbind (py_get raw ''proxychains'' PNone) (\<lambda>pc.
       if \<not> py_truthy pc then Inr ()
       else
         rbind (py_get pc ''enabled'' PNone) (\<lambda>enabled.
           if py_truthy enabled
           then require_truthy ''proxychains.enabled requires proxychains.'' [''ssh_key'', ''proxy_target''] pc
           else Inr ())))))))))"

text \<open>The construction of the configuration, one field after the other in the order of the code.\<close>

definition build_config :: "pyval \<Rightarrow> fleet_cluster_config res" where
  "build_config raw =
     rbind (py_item raw ''ssh'') (\<lambda>ssh.
     rbind (py_item raw ''relay'') (\<lambda>relay.
     rbind (py_item raw ''worker'') (\<lambda>worker.
     rbind (py_get raw ''container'' (PDict [])) (\<lambda>container.
     rbind (py_item raw ''name'') (\<lambda>f_name.
     rbind (py_item ssh ''host'') (\<lambda>f_host.
     rbind (py_get ssh ''host_any'' f_host) (\<lambda>f_host_any.
     rbind (py_item raw ''arch'') (\<lambda>f_arch.
     rbind (rbind (py_item raw ''binary'') (\<lambda>b. py_item b ''local_path'')) (\<lambda>f_local.
     rbind (rbind (py_item raw ''binary'') (\<lambda>b. py_item b ''remote_path'')) (\<lambda>f_remote.
     rbind (map_res (py_item relay)
              [''seed'', ''peer_id'', ''host_ip'', ''port'', ''tcp_port'', ''udp_port'', ''home_override'', ''bootstrap'']) (\<lambda>r.
     rbind (py_get relay ''skip'' (PBool False)) (\<lambda>f_skip.
     rbind (map_res (py_item worker) [''seed'', ''port'', ''service_port'']) (\<lambda>wk.
     rbind (rbind (py_item raw ''presets'') parse_presets) (\<lambda>f_presets.
     rbind (py_get raw ''modules'' (PList [])) (\<lambda>f_modules.
     rbind (map_res (\<lambda>(k, x). py_get container k x)
              [(''runtime'', PStr ''apptainer''), (''image'', PStr []), (''edf_template'', PNone),
               (''edf_remote_path'', PNone), (''sif_path'', PNone), (''pull_if_missing'', PBool True),
               (''hf_cache'', PStr []), (''mounts'', PList []), (''env'', PDict []),
               (''env_from_host'', PList []), (''apptainer_flags'', PList [])]) (\<lambda>c.
     rbind (rbind (py_get raw ''proxychains'' PNone) parse_proxychains) (\<lambda>f_pc.
     rbind (rbind (py_get raw ''security'' (PDict [])) (\<lambda>s. py_get s ''require_signed_binary'' (PBool False))) (\<lambda>f_signed.
     rbind (rbind (py_get raw ''solana'' (PDict [])) (\<lambda>s. py_get s ''skip_verification'' (PBool True))) (\<lambda>f_skip_ver.
       Inr \<lparr>cfg_name = f_name, ssh_host = f_host, ssh_host_any = f_host_any, cfg_arch = f_arch,
            binary_local_path = f_local, binary_remote_path = f_remote,
            relay_seed = r ! 0, relay_peer_id = r ! 1, relay_host_ip = r ! 2, relay_port = r ! 3,
            relay_tcp_port = r ! 4, relay_udp_port = r ! 5, relay_home_override = r ! 6, relay_bootstrap = r ! 7,
            relay_skip = f_skip, worker_seed = wk ! 0, worker_port = wk ! 1, worker_service_port = wk ! 2,
            cfg_presets = f_presets, cfg_modules = f_modules,
            container_runtime = c ! 0, container_image = c ! 1, container_edf_template = c ! 2,
            container_edf_remote_path = c ! 3, container_sif_path = c ! 4, container_pull_if_missing = c ! 5,
            container_hf_cache = c ! 6, container_mounts = c ! 7, container_env = c ! 8,
            container_env_from_host = c ! 9, container_apptainer_flags = c ! 10,
            cfg_proxychains = f_pc, require_signed_binary = f_signed, skip_verification = f_skip_ver\<rparr>)))))))))))))))))))"

text \<open>\<open>files\<close> maps the name of a cluster to the document of its file, if there is one.\<close>

definition load_cluster :: "(string \<Rightarrow> pyval res option) \<Rightarrow> string \<Rightarrow> fleet_cluster_config res" where
  "load_cluster files name =
     (case files name of
        None \<Rightarrow> Inl (FileNotFoundError name)
      | Some doc \<Rightarrow> rbind doc (\<lambda>raw. rbind (validate_raw raw) (\<lambda>_. build_config raw)))"

definition job_identity :: "(string \<Rightarrow> string) \<Rightarrow> string \<Rightarrow> string \<Rightarrow> string \<Rightarrow> string" where
  "job_identity sha256_hex backend cmd preset_name =
     ''opentela-'' @ backend @ ''-'' @ take 8 (sha256_hex (cmd @ preset_name))"
section \<open>Lemmas on documents\<close>

lemma py_item_Inr [res_simps]: "py_item v k = Inr x \<longleftrightarrow> (\<exists>d. v = PDict d \<and> map_of d k = Some x)"
  by (cases v) (auto simp: py_item_def dict_get_eq)

lemma py_get_Inr [res_simps]: "py_get v k y = Inr x \<longleftrightarrow> (\<exists>d. v = PDict d \<and> x = dict_get_default d k y)"
  by (cases v) (auto simp: py_get_def)

lemma py_items_Inr [res_simps]: "py_items v = Inr d \<longleftrightarrow> v = PDict d"
  by (cases v) (auto simp: py_items_def)

lemma for_res_unit_Inr [res_simps]:
  "for_res (\<lambda>x (_::unit). f x) xs u = Inr v \<longleftrightarrow> (\<forall>x \<in> set xs. f x = Inr ())"
  by (induction xs arbitrary: u) (auto simp: res_simps)

lemma require_keys_dict [res_simps]: "require_keys pre keys (PDict d) = Inr u \<longleftrightarrow> (\<forall>k \<in> set keys. dict_has d k)"
  by (auto simp: require_keys_def py_contains_def for_res_unit_Inr)

lemma require_truthy_dict [res_simps]:
  "require_truthy msg keys (PDict d) = Inr u \<longleftrightarrow> (\<forall>k \<in> set keys. py_truthy (dict_get_default d k PNone))"
  by (auto simp: require_truthy_def py_get_def for_res_unit_Inr)

lemma dict_get_default_Some [simp]: "map_of d k = Some x \<Longrightarrow> dict_get_default d k y = x"
  by (simp add: dict_get_default_def)

lemma truthy_default: "py_truthy (dict_get_default d k PNone) \<Longrightarrow> \<exists>x. map_of d k = Some x \<and> py_truthy x"
  by (auto simp: dict_get_default_def py_truthy_def split: option.splits)

section \<open>What a loaded configuration satisfies\<close>

definition config_typed :: "fleet_cluster_config \<Rightarrow> bool" where
  "config_typed cfg \<longleftrightarrow>
     cfg_arch cfg \<in> {PStr ''amd64'', PStr ''arm64''}
     \<and> (container_runtime cfg = PStr ''enroot'' \<longrightarrow>
          py_truthy (container_edf_template cfg) \<and> py_truthy (container_edf_remote_path cfg))
     \<and> (container_runtime cfg = PStr ''apptainer'' \<longrightarrow> py_truthy (container_sif_path cfg))
     \<and> (pc_enabled (cfg_proxychains cfg) \<longrightarrow>
          py_truthy (pc_ssh_key (cfg_proxychains cfg)) \<and> py_truthy (pc_proxy_target (cfg_proxychains cfg)))"

lemma validate_container_dict:
  "validate_container (PDict raw) = Inr u \<longleftrightarrow>
     (\<exists>c runtime. map_of raw ''container'' = Some (PDict c) \<and> map_of c ''runtime'' = Some runtime \<and> dict_has c ''image''
       \<and> (runtime = PStr ''enroot'' \<longrightarrow> py_truthy (dict_get_default c ''edf_template'' PNone)
            \<and> py_truthy (dict_get_default c ''edf_remote_path'' PNone))
       \<and> (runtime = PStr ''apptainer'' \<longrightarrow> py_truthy (dict_get_default c ''sif_path'' PNone)))"
proof (cases "map_of raw ''container''")
  case None
  then show ?thesis by (simp add: validate_container_def)
next
  case (Some v)
  show ?thesis
  proof (cases v)
    case (PDict c)
    then show ?thesis
      using Some by (cases "map_of c ''runtime''")
        (auto simp: validate_container_def dict_get_def require_truthy_dict)
  qed (use Some in \<open>auto simp: validate_container_def py_contains_def py_item_def dict_get_def\<close>)
qed
lemma validate_raw_Inr:
  assumes "validate_raw raw = Inr u"
  obtains d where "raw = PDict d" and "map_of d ''arch'' \<in> {Some (PStr ''amd64''), Some (PStr ''arm64'')}"
    and "validate_container (PDict d) = Inr ()"
    and "py_truthy (dict_get_default d ''proxychains'' PNone) \<Longrightarrow>
      \<exists>p. dict_get_default d ''proxychains'' PNone = PDict p
        \<and> (py_truthy (dict_get_default p ''enabled'' PNone) \<longrightarrow>
            py_truthy (dict_get_default p ''ssh_key'' PNone) \<and> py_truthy (dict_get_default p ''proxy_target'' PNone))"
proof -
  obtain d where d: "raw = PDict d"
    using assms unfolding validate_raw_def rbind_eq_Inr py_item_Inr by blast
  have arch: "map_of d ''arch'' \<in> {Some (PStr ''amd64''), Some (PStr ''arm64'')}"
    using assms unfolding validate_raw_def d by (auto simp: rbind_eq_Inr dict_get_eq split: if_splits)
  have c: "validate_container (PDict d) = Inr ()"
    using assms unfolding validate_raw_def d by (auto simp: rbind_eq_Inr split: if_splits)
  have "\<exists>p. dict_get_default d ''proxychains'' PNone = PDict p
      \<and> (py_truthy (dict_get_default p ''enabled'' PNone) \<longrightarrow>
          py_truthy (dict_get_default p ''ssh_key'' PNone) \<and> py_truthy (dict_get_default p ''proxy_target'' PNone))"
    if "py_truthy (dict_get_default d ''proxychains'' PNone)"
    using assms that unfolding validate_raw_def d
    by (auto simp: rbind_eq_Inr py_get_Inr require_truthy_dict split: if_splits)
  from that [OF d arch c this] show ?thesis .
qed

lemma rbindE: "rbind m f = Inr y \<Longrightarrow> (\<And>x. m = Inr x \<Longrightarrow> f x = Inr y \<Longrightarrow> P) \<Longrightarrow> P"
  by (cases m) simp_all

lemma Inr_eqE: "Inr x = Inr y \<Longrightarrow> (y = x \<Longrightarrow> P) \<Longrightarrow> P"
  by simp

lemma map_res_get:
  assumes "map_res (\<lambda>(k, x). py_get v k x) (kx # ks) = Inr ys"
  shows "\<exists>d. v = PDict d \<and> ys = map (\<lambda>(k, x). dict_get_default d k x) (kx # ks)"
proof -
  obtain d where d: "v = PDict d"
    using assms by (auto simp: rbind_eq_Inr py_get_Inr split: prod.splits)
  have "map_res (\<lambda>(k, x). Inr (dict_get_default d k x)) xs = Inr (map (\<lambda>(k, x). dict_get_default d k x) xs)" for xs
    by (induction xs) (auto split: prod.splits)
  from this [of "kx # ks"] show ?thesis using assms unfolding d py_get_dict by (intro exI [of _ d]) simp
qed

lemma build_config_Inr:
  assumes "build_config (PDict d) = Inr cfg"
  shows "map_of d ''arch'' = Some (cfg_arch cfg)"
    and "parse_proxychains (dict_get_default d ''proxychains'' PNone) = Inr (cfg_proxychains cfg)"
    and "\<exists>p. map_of d ''presets'' = Some p \<and> parse_presets p = Inr (cfg_presets cfg)"
    and "\<exists>c. dict_get_default d ''container'' (PDict []) = PDict c
      \<and> container_runtime cfg = dict_get_default c ''runtime'' (PStr ''apptainer'')
      \<and> container_edf_template cfg = dict_get_default c ''edf_template'' PNone
      \<and> container_edf_remote_path cfg = dict_get_default c ''edf_remote_path'' PNone
      \<and> container_sif_path cfg = dict_get_default c ''sif_path'' PNone"
proof -
  note peel = sum.inject py_item_dict py_get_dict dict_get_eq fleet_cluster_config.select_convs
  show "map_of d ''arch'' = Some (cfg_arch cfg)"
    using assms unfolding build_config_def
    by (elim rbindE) (erule Inr_eqE, simp only: peel)
  show "parse_proxychains (dict_get_default d ''proxychains'' PNone) = Inr (cfg_proxychains cfg)"
    using assms unfolding build_config_def
    by (elim rbindE) (erule Inr_eqE, simp only: peel)
  show "\<exists>p. map_of d ''presets'' = Some p \<and> parse_presets p = Inr (cfg_presets cfg)"
    using assms unfolding build_config_def
    by (elim rbindE) (erule Inr_eqE, simp only: peel, (intro exI conjI; (assumption | rule refl)))
  have "\<exists>container c. dict_get_default d ''container'' (PDict []) = container \<and>
     map_res (\<lambda>(k, x). py_get container k x)
       [(''runtime'', PStr ''apptainer''), (''image'', PStr []), (''edf_template'', PNone),
        (''edf_remote_path'', PNone), (''sif_path'', PNone), (''pull_if_missing'', PBool True),
        (''hf_cache'', PStr []), (''mounts'', PList []), (''env'', PDict []),
        (''env_from_host'', PList []), (''apptainer_flags'', PList [])] = Inr c
     \<and> container_runtime cfg = c ! 0 \<and> container_edf_template cfg = c ! 2
     \<and> container_edf_remote_path cfg = c ! 3 \<and> container_sif_path cfg = c ! 4"
    using assms unfolding build_config_def
    by (elim rbindE) (erule Inr_eqE, simp only: peel, (intro exI conjI; (assumption | rule refl)))
  then obtain container c where c: "dict_get_default d ''container'' (PDict []) = container"
    "map_res (\<lambda>(k, x). py_get container k x)
       [(''runtime'', PStr ''apptainer''), (''image'', PStr []), (''edf_template'', PNone),
        (''edf_remote_path'', PNone), (''sif_path'', PNone), (''pull_if_missing'', PBool True),
        (''hf_cache'', PStr []), (''mounts'', PList []), (''env'', PDict []),
        (''env_from_host'', PList []), (''apptainer_flags'', PList [])] = Inr c"
    "container_runtime cfg = c ! 0" "container_edf_template cfg = c ! 2"
    "container_edf_remote_path cfg = c ! 3" "container_sif_path cfg = c ! 4" by blast
  from map_res_get [OF c(2)] obtain e where e: "container = PDict e"
    "c = map (\<lambda>(k, x). dict_get_default e k x)
       [(''runtime'', PStr ''apptainer''), (''image'', PStr []), (''edf_template'', PNone),
        (''edf_remote_path'', PNone), (''sif_path'', PNone), (''pull_if_missing'', PBool True),
        (''hf_cache'', PStr []), (''mounts'', PList []), (''env'', PDict []),
        (''env_from_host'', PList []), (''apptainer_flags'', PList [])]" by blast
  show "\<exists>c. dict_get_default d ''container'' (PDict []) = PDict c
      \<and> container_runtime cfg = dict_get_default c ''runtime'' (PStr ''apptainer'')
      \<and> container_edf_template cfg = dict_get_default c ''edf_template'' PNone
      \<and> container_edf_remote_path cfg = dict_get_default c ''edf_remote_path'' PNone
      \<and> container_sif_path cfg = dict_get_default c ''sif_path'' PNone"
    unfolding c(1,3-6) e by (intro exI [of _ e]) simp
qed
lemma parse_preset_Inr:
  "parse_preset v = Inr p \<Longrightarrow>
     \<exists>e. v = PDict e \<and> map_of e ''partition'' = Some (ps_partition p) \<and> map_of e ''account'' = Some (ps_account p)
       \<and> map_of e ''time'' = Some (ps_time p) \<and> map_of e ''gpus'' = Some (ps_gpus p)
       \<and> ps_nodes p = dict_get_default e ''nodes'' (PInt 1)"
  by (auto simp: parse_preset_def rbind_eq_Inr py_item_Inr)

lemma parse_presets_Inr:
  assumes "parse_presets v = Inr ps"
  shows "\<exists>d. v = PDict d \<and> list_all2 (\<lambda>(n, e) (n', p). n' = n \<and> parse_preset e = Inr p) d ps"
proof -
  obtain d where d: "v = PDict d"
    and m: "map_res (\<lambda>(name, values). rbind (parse_preset values) (\<lambda>p. Inr (name, p))) d = Inr ps"
    using assms by (auto simp: parse_presets_def rbind_eq_Inr py_items_Inr)
  show ?thesis
    using m unfolding d map_res_Inr
    by (auto elim!: list_all2_mono simp: rbind_eq_Inr split: prod.splits)
qed

lemma parse_proxychains_typed:
  assumes "parse_proxychains raw = Inr pc" and "pc_enabled pc"
    and "py_truthy raw \<Longrightarrow> \<exists>p. raw = PDict p \<and> (py_truthy (dict_get_default p ''enabled'' PNone) \<longrightarrow>
      py_truthy (dict_get_default p ''ssh_key'' PNone) \<and> py_truthy (dict_get_default p ''proxy_target'' PNone))"
  shows "py_truthy (pc_ssh_key pc) \<and> py_truthy (pc_proxy_target pc)"
proof (cases "py_truthy raw")
  case False
  then show ?thesis using assms(1,2) by (auto simp: parse_proxychains_def default_proxy_chains_def)
next
  case True
  then obtain p where p: "raw = PDict p" "py_truthy (dict_get_default p ''enabled'' PNone) \<Longrightarrow>
      py_truthy (dict_get_default p ''ssh_key'' PNone) \<and> py_truthy (dict_get_default p ''proxy_target'' PNone)"
    using assms(3) by blast
  have pc: "pc_enabled pc = py_truthy (dict_get_default p ''enabled'' (PBool False))"
    "pc_ssh_key pc = dict_get_default p ''ssh_key'' (PStr [])"
    "pc_proxy_target pc = dict_get_default p ''proxy_target'' (PStr [])"
    using assms(1) True unfolding p(1) by (auto simp: parse_proxychains_def rbind_eq_Inr)
  have "py_truthy (dict_get_default p ''enabled'' PNone)"
    using assms(2) pc(1) by (auto simp: dict_get_default_def py_truthy_def split: option.splits)
  from p(2) [OF this] show ?thesis
    unfolding pc by (auto dest!: truthy_default)
qed

text \<open>A document that follows the schema.\<close>

definition section_ok :: "pyval pydict \<Rightarrow> string \<Rightarrow> string list \<Rightarrow> bool" where
  "section_ok d k keys = (case map_of d k of Some (PDict e) \<Rightarrow> list_all (dict_has e) keys | _ \<Rightarrow> False)"

definition optional_section :: "pyval pydict \<Rightarrow> string \<Rightarrow> bool" where
  "optional_section d k = (case map_of d k of None \<Rightarrow> True | Some (PDict e) \<Rightarrow> True | _ \<Rightarrow> False)"

definition presets_ok :: "pyval pydict \<Rightarrow> bool" where
  "presets_ok d =
     (case map_of d ''presets'' of
        Some (PDict ps) \<Rightarrow>
          list_all (\<lambda>(n, v). case v of PDict e \<Rightarrow> list_all (dict_has e) [''partition'', ''account'', ''time'', ''gpus''] | _ \<Rightarrow> False) ps
      | _ \<Rightarrow> False)"

definition proxychains_ok :: "pyval pydict \<Rightarrow> bool" where
  "proxychains_ok d =
     (case map_of d ''proxychains'' of
        None \<Rightarrow> True
      | Some (PDict p) \<Rightarrow>
          (py_truthy (dict_get_default p ''enabled'' PNone) \<longrightarrow>
             py_truthy (dict_get_default p ''ssh_key'' PNone) \<and> py_truthy (dict_get_default p ''proxy_target'' PNone))
          \<and> (case map_of p ''socks_port'' of None \<Rightarrow> True | Some (PInt i) \<Rightarrow> True | _ \<Rightarrow> False)
          \<and> (case map_of p ''skip_partitions'' of None \<Rightarrow> True | Some (PList xs) \<Rightarrow> True | _ \<Rightarrow> False)
      | _ \<Rightarrow> False)"

definition schema_ok :: "pyval pydict \<Rightarrow> bool" where
  "schema_ok d \<longleftrightarrow>
     dict_has d ''name'' \<and> map_of d ''arch'' \<in> {Some (PStr ''amd64''), Some (PStr ''arm64'')}
     \<and> section_ok d ''ssh'' [''host''] \<and> section_ok d ''binary'' [''local_path'', ''remote_path'']
     \<and> section_ok d ''relay'' [''seed'', ''peer_id'', ''host_ip'', ''port'', ''tcp_port'', ''udp_port'', ''home_override'', ''bootstrap'']
     \<and> section_ok d ''worker'' [''seed'', ''port'', ''service_port''] \<and> validate_container (PDict d) = Inr ()
     \<and> presets_ok d \<and> optional_section d ''security'' \<and> optional_section d ''solana''
     \<and> proxychains_ok d"

lemma section_okD: "section_ok d k keys \<Longrightarrow> \<exists>e. map_of d k = Some (PDict e) \<and> (\<forall>x \<in> set keys. dict_has e x)"
  by (auto simp: section_ok_def list_all_iff split: option.splits pyval.splits)

lemma optional_sectionD: "optional_section d k \<Longrightarrow> \<exists>e. dict_get_default d k (PDict []) = PDict e"
  by (auto simp: optional_section_def dict_get_default_def split: option.splits pyval.splits)

lemma presets_okD: "presets_ok d \<Longrightarrow> \<exists>p ps. map_of d ''presets'' = Some p \<and> parse_presets p = Inr ps"
proof -
  assume "presets_ok d"
  then obtain ps where ps: "map_of d ''presets'' = Some (PDict ps)"
    "\<And>n v. (n, v) \<in> set ps \<Longrightarrow> \<exists>e. v = PDict e \<and> (\<forall>k \<in> {''partition'', ''account'', ''time'', ''gpus''}. dict_has e k)"
    by (fastforce simp: presets_ok_def list_all_iff split: option.splits pyval.splits)
  have "\<exists>ys. map_res (\<lambda>(name, values). rbind (parse_preset values) (\<lambda>p. Inr (name, p))) xs = Inr ys"
    if "set xs \<subseteq> set ps" for xs
    using that
  proof (induction xs)
    case (Cons x xs)
    obtain n v where x: "x = (n, v)" by (cases x)
    obtain e where "v = PDict e" "\<forall>k \<in> {''partition'', ''account'', ''time'', ''gpus''}. dict_has e k"
      using ps(2) [of n v] Cons.prems x by auto
    then have "\<exists>p. parse_preset v = Inr p" by (auto simp: parse_preset_def dict_get_def)
    then show ?case using Cons x by auto
  qed simp
  from this [of ps] show ?thesis using ps(1) by (simp add: parse_presets_def py_items_def)
qed

lemma rbind_ex:
  "\<exists>x. m = Inr x \<Longrightarrow> (\<And>x. m = Inr x \<Longrightarrow> \<exists>y. f x = Inr y) \<Longrightarrow> \<exists>y. rbind m f = Inr y"
  by auto

lemma map_res_items:
  "\<forall>k \<in> set ks. dict_has e k \<Longrightarrow> \<exists>ys. map_res (py_item (PDict e)) ks = Inr ys"
  by (induction ks) (auto simp: dict_get_def)

lemma map_res_gets: "\<exists>ys. map_res (\<lambda>(k, x). Inr (dict_get_default e k x)) ks = Inr ys"
  by (induction ks) auto

lemma proxychains_okD:
  assumes "proxychains_ok d"
  shows "\<exists>pc. parse_proxychains (dict_get_default d ''proxychains'' PNone) = Inr pc"
    and "py_truthy (dict_get_default d ''proxychains'' PNone) \<Longrightarrow>
      \<exists>p. dict_get_default d ''proxychains'' PNone = PDict p \<and> (py_truthy (dict_get_default p ''enabled'' PNone) \<longrightarrow>
        py_truthy (dict_get_default p ''ssh_key'' PNone) \<and> py_truthy (dict_get_default p ''proxy_target'' PNone))"
proof -
  consider "map_of d ''proxychains'' = None"
    | p where "map_of d ''proxychains'' = Some (PDict p)"
    using assms by (auto simp: proxychains_ok_def split: option.splits pyval.splits)
  then have "(\<exists>pc. parse_proxychains (dict_get_default d ''proxychains'' PNone) = Inr pc)
    \<and> (py_truthy (dict_get_default d ''proxychains'' PNone) \<longrightarrow>
      (\<exists>p. dict_get_default d ''proxychains'' PNone = PDict p \<and> (py_truthy (dict_get_default p ''enabled'' PNone) \<longrightarrow>
        py_truthy (dict_get_default p ''ssh_key'' PNone) \<and> py_truthy (dict_get_default p ''proxy_target'' PNone))))"
  proof cases
    case 1
    then show ?thesis by (simp add: dict_get_default_def parse_proxychains_def py_truthy_def)
  next
    case (2 p)
    have ok: "py_truthy (dict_get_default p ''enabled'' PNone) \<longrightarrow>
        py_truthy (dict_get_default p ''ssh_key'' PNone) \<and> py_truthy (dict_get_default p ''proxy_target'' PNone)"
      "case map_of p ''socks_port'' of None \<Rightarrow> True | Some (PInt i) \<Rightarrow> True | _ \<Rightarrow> False"
      "case map_of p ''skip_partitions'' of None \<Rightarrow> True | Some (PList xs) \<Rightarrow> True | _ \<Rightarrow> False"
      using assms 2 by (simp_all add: proxychains_ok_def)
    have "\<exists>i. py_int_val (dict_get_default p ''socks_port'' (PInt 1080)) = Inr i"
      using ok(2) by (auto simp: dict_get_default_def py_int_val_def split: option.splits pyval.splits)
    moreover have "\<exists>xs. py_list_val (dict_get_default p ''skip_partitions'' (PList [])) = Inr xs"
      using ok(3) by (auto simp: dict_get_default_def py_list_val_def split: option.splits pyval.splits)
    ultimately show ?thesis using 2 ok(1) by (auto simp: parse_proxychains_def)
  qed
  then show "\<exists>pc. parse_proxychains (dict_get_default d ''proxychains'' PNone) = Inr pc"
    "py_truthy (dict_get_default d ''proxychains'' PNone) \<Longrightarrow>
      \<exists>p. dict_get_default d ''proxychains'' PNone = PDict p \<and> (py_truthy (dict_get_default p ''enabled'' PNone) \<longrightarrow>
        py_truthy (dict_get_default p ''ssh_key'' PNone) \<and> py_truthy (dict_get_default p ''proxy_target'' PNone))"
    by blast+
qed

lemma schema_validates:
  assumes "schema_ok d"
  shows "validate_raw (PDict d) = Inr ()"
proof -
  note s = assms [unfolded schema_ok_def]
  obtain ssh bin relay worker where sec: "map_of d ''ssh'' = Some (PDict ssh)" "dict_has ssh ''host''"
    "map_of d ''binary'' = Some (PDict bin)" "\<forall>k \<in> set [''local_path'', ''remote_path'']. dict_has bin k"
    "map_of d ''relay'' = Some (PDict relay)" "\<forall>k \<in> set [''seed'', ''peer_id'', ''host_ip'', ''port'', ''tcp_port'', ''udp_port'', ''home_override'', ''bootstrap'']. dict_has relay k"
    "map_of d ''worker'' = Some (PDict worker)" "\<forall>k \<in> set [''seed'', ''port'', ''service_port'']. dict_has worker k"
    using s by (auto dest!: section_okD)
  obtain arch where arch: "map_of d ''arch'' = Some arch" "arch \<in> {PStr ''amd64'', PStr ''arm64''}" using s by blast
  have "require_keys [] [''name'', ''ssh'', ''arch'', ''binary'', ''relay'', ''worker'', ''presets''] (PDict d) = Inr ()"
    using s sec arch by (auto simp: require_keys_dict presets_ok_def split: option.splits)
  moreover have "require_keys ''ssh.'' [''host''] (PDict ssh) = Inr ()"
    "require_keys ''binary.'' [''local_path'', ''remote_path''] (PDict bin) = Inr ()"
    "require_keys ''relay.'' [''seed'', ''peer_id'', ''host_ip'', ''port'', ''tcp_port'', ''udp_port'', ''home_override'', ''bootstrap''] (PDict relay) = Inr ()"
    "require_keys ''worker.'' [''seed'', ''port'', ''service_port''] (PDict worker) = Inr ()"
    using sec by (simp_all only: require_keys_dict) simp
  moreover have "validate_container (PDict d) = Inr ()" using s by simp
  moreover have "(if \<not> py_truthy (dict_get_default d ''proxychains'' PNone) then Inr ()
       else rbind (py_get (dict_get_default d ''proxychains'' PNone) ''enabled'' PNone) (\<lambda>enabled.
           if py_truthy enabled
           then require_truthy ''proxychains.enabled requires proxychains.'' [''ssh_key'', ''proxy_target'']
             (dict_get_default d ''proxychains'' PNone)
           else Inr ())) = Inr ()"
    using proxychains_okD(2) [of d] s by (auto simp: require_truthy_dict)
  ultimately show ?thesis
    unfolding validate_raw_def py_item_dict py_get_dict dict_get_def sec(1,3,5,7) arch(1) option.case rbind_Inr
    using arch(2) by simp
qed
lemma schema_builds:
  assumes "schema_ok d"
  shows "\<exists>cfg. build_config (PDict d) = Inr cfg"
proof -
  note s = assms [unfolded schema_ok_def]
  obtain ssh bin relay worker where sec: "map_of d ''ssh'' = Some (PDict ssh)" "dict_has ssh ''host''"
    "map_of d ''binary'' = Some (PDict bin)" "\<forall>k \<in> set [''local_path'', ''remote_path'']. dict_has bin k"
    "map_of d ''relay'' = Some (PDict relay)" "\<forall>k \<in> set [''seed'', ''peer_id'', ''host_ip'', ''port'', ''tcp_port'', ''udp_port'', ''home_override'', ''bootstrap'']. dict_has relay k"
    "map_of d ''worker'' = Some (PDict worker)" "\<forall>k \<in> set [''seed'', ''port'', ''service_port'']. dict_has worker k"
    using s by (auto dest!: section_okD)
  obtain host loc rem arch name where v: "map_of ssh ''host'' = Some host" "map_of bin ''local_path'' = Some loc"
    "map_of bin ''remote_path'' = Some rem" "map_of d ''arch'' = Some arch" "map_of d ''name'' = Some name"
    using s sec(2,4) by auto
  obtain c where c: "map_of d ''container'' = Some (PDict c)" using s validate_container_dict [of d "()"] by blast
  obtain p ps where ps: "map_of d ''presets'' = Some p" "parse_presets p = Inr ps" using s presets_okD [of d] by blast
  obtain pc where pc: "parse_proxychains (dict_get_default d ''proxychains'' PNone) = Inr pc"
    using s proxychains_okD(1) [of d] by blast
  obtain sec' sol where o: "dict_get_default d ''security'' (PDict []) = PDict sec'"
    "dict_get_default d ''solana'' (PDict []) = PDict sol"
    using s optional_sectionD by meson
  obtain r where r: "map_res (py_item (PDict relay))
      [''seed'', ''peer_id'', ''host_ip'', ''port'', ''tcp_port'', ''udp_port'', ''home_override'', ''bootstrap''] = Inr r"
    using map_res_items [OF sec(6)] by blast
  obtain wk where wk: "map_res (py_item (PDict worker)) [''seed'', ''port'', ''service_port''] = Inr wk"
    using map_res_items [OF sec(8)] by blast
  note eval = py_item_dict py_get_dict dict_get_def sec(1,3,5,7) v c dict_get_default_Some [OF c] ps pc o r wk
    option.case rbind_Inr
  show ?thesis unfolding build_config_def eval
    by (rule rbind_ex, rule map_res_gets) (rule exI, rule refl)
qed

section \<open>Property\<close>

lemma load_cluster_facts:
  shows "load_cluster files name = Inr cfg \<Longrightarrow>
      config_typed cfg \<and> (\<exists>d ps. files name = Some (Inr (PDict d)) \<and> map_of d ''presets'' = Some (PDict ps)
        \<and> list_all2 (\<lambda>(n, v) (n', p). n' = n \<and> (\<exists>e. v = PDict e
            \<and> map_of e ''partition'' = Some (ps_partition p) \<and> map_of e ''account'' = Some (ps_account p)
            \<and> map_of e ''time'' = Some (ps_time p) \<and> map_of e ''gpus'' = Some (ps_gpus p)
            \<and> ps_nodes p = dict_get_default e ''nodes'' (PInt 1))) ps (cfg_presets cfg))"
    and "files name = Some (Inr (PDict d)) \<Longrightarrow> schema_ok d \<Longrightarrow> \<exists>cfg. load_cluster files name = Inr cfg"
proof -
  assume load: "load_cluster files name = Inr cfg"
  then obtain raw where raw: "files name = Some (Inr raw)" "validate_raw raw = Inr ()" "build_config raw = Inr cfg"
    by (auto simp: load_cluster_def rbind_eq_Inr split: option.splits)
  obtain d where d: "raw = PDict d" "map_of d ''arch'' \<in> {Some (PStr ''amd64''), Some (PStr ''arm64'')}"
    "validate_container (PDict d) = Inr ()"
    "py_truthy (dict_get_default d ''proxychains'' PNone) \<Longrightarrow>
      \<exists>p. dict_get_default d ''proxychains'' PNone = PDict p
        \<and> (py_truthy (dict_get_default p ''enabled'' PNone) \<longrightarrow>
            py_truthy (dict_get_default p ''ssh_key'' PNone) \<and> py_truthy (dict_get_default p ''proxy_target'' PNone))"
    using validate_raw_Inr [OF raw(2)] by blast
  note b = build_config_Inr [OF raw(3) [unfolded d(1)]]
  obtain c runtime where c: "map_of d ''container'' = Some (PDict c)" "map_of c ''runtime'' = Some runtime"
    "runtime = PStr ''enroot'' \<longrightarrow> py_truthy (dict_get_default c ''edf_template'' PNone)
            \<and> py_truthy (dict_get_default c ''edf_remote_path'' PNone)"
    "runtime = PStr ''apptainer'' \<longrightarrow> py_truthy (dict_get_default c ''sif_path'' PNone)"
    using d(3) unfolding validate_container_dict by blast
  obtain p ps where ps: "map_of d ''presets'' = Some p" "p = PDict ps"
    "list_all2 (\<lambda>(n, e) (n', p). n' = n \<and> parse_preset e = Inr p) ps (cfg_presets cfg)"
    using b(3) parse_presets_Inr by blast
  have "config_typed cfg"
    using b(1,4) c d(2) parse_proxychains_typed [OF b(2) _ d(4)] by (auto simp: config_typed_def)
  moreover have "list_all2 (\<lambda>(n, v) (n', p). n' = n \<and> (\<exists>e. v = PDict e
            \<and> map_of e ''partition'' = Some (ps_partition p) \<and> map_of e ''account'' = Some (ps_account p)
            \<and> map_of e ''time'' = Some (ps_time p) \<and> map_of e ''gpus'' = Some (ps_gpus p)
            \<and> ps_nodes p = dict_get_default e ''nodes'' (PInt 1))) ps (cfg_presets cfg)"
    using ps(3) by (rule list_all2_mono) (auto dest: parse_preset_Inr)
  ultimately show "config_typed cfg \<and> (\<exists>d ps. files name = Some (Inr (PDict d)) \<and> map_of d ''presets'' = Some (PDict ps)
        \<and> list_all2 (\<lambda>(n, v) (n', p). n' = n \<and> (\<exists>e. v = PDict e
            \<and> map_of e ''partition'' = Some (ps_partition p) \<and> map_of e ''account'' = Some (ps_account p)
            \<and> map_of e ''time'' = Some (ps_time p) \<and> map_of e ''gpus'' = Some (ps_gpus p)
            \<and> ps_nodes p = dict_get_default e ''nodes'' (PInt 1))) ps (cfg_presets cfg))"
    using raw(1) d(1) ps(1,2) by blast
next
  assume "files name = Some (Inr (PDict d))" and "schema_ok d"
  then show "\<exists>cfg. load_cluster files name = Inr cfg"
    using schema_validates [of d] schema_builds [of d] by (simp add: load_cluster_def)
qed

text \<open>C15: A configuration that loads is well-typed: its architecture is one of the two supported ones, the
  fields its container runtime needs are set, an enabled proxy has its key and target, and its presets
  are exactly those of the document, in its order, each with the four mandatory values of its entry.
  Conversely every document that follows the schema loads.\<close>

theorem load_cluster_typed:
  shows "(load_cluster files name = Inr cfg \<longrightarrow>
      config_typed cfg \<and> (\<exists>d ps. files name = Some (Inr (PDict d)) \<and> map_of d ''presets'' = Some (PDict ps)
        \<and> list_all2 (\<lambda>(n, v) (n', p). n' = n \<and> (\<exists>e. v = PDict e
            \<and> map_of e ''partition'' = Some (ps_partition p) \<and> map_of e ''account'' = Some (ps_account p)
            \<and> map_of e ''time'' = Some (ps_time p) \<and> map_of e ''gpus'' = Some (ps_gpus p)
            \<and> ps_nodes p = dict_get_default e ''nodes'' (PInt 1))) ps (cfg_presets cfg)))
    \<and> (files name = Some (Inr (PDict d)) \<longrightarrow> schema_ok d \<longrightarrow> (\<exists>cfg. load_cluster files name = Inr cfg))"
  using load_cluster_facts by blast
text \<open>A document in the schema, with one preset and an enabled proxy.\<close>

definition sample_document :: "pyval pydict" where
  "sample_document =
     [(''name'', PStr ''jsc''), (''arch'', PStr ''amd64''), (''ssh'', PDict [(''host'', PStr ''h'')]),
      (''binary'', PDict [(''local_path'', PStr ''a''), (''remote_path'', PStr ''b'')]),
      (''relay'', PDict [(''seed'', PStr ''1''), (''peer_id'', PStr ''p''), (''host_ip'', PStr ''ip''), (''port'', PStr ''8092''),
         (''tcp_port'', PStr ''43905''), (''udp_port'', PStr ''59820''), (''home_override'', PStr ''o''), (''bootstrap'', PList [])]),
      (''worker'', PDict [(''seed'', PStr ''2''), (''port'', PStr ''8092''), (''service_port'', PStr ''8080'')]),
      (''container'', PDict [(''runtime'', PStr ''apptainer''), (''image'', PStr ''i''), (''sif_path'', PStr ''s'')]),
      (''proxychains'', PDict [(''enabled'', PBool True), (''ssh_key'', PStr ''k''), (''proxy_target'', PStr ''t'')]),
      (''presets'', PDict [(''A100_4'', PDict [(''partition'', PStr ''booster''), (''account'', PStr ''acc''),
         (''time'', PStr ''01:00:00''), (''gpus'', PInt 4)])])]"

lemma sample_schema: "schema_ok sample_document"
  unfolding schema_ok_def
proof (intro conjI)
  show "validate_container (PDict sample_document) = Inr ()"
    unfolding validate_container_dict by (simp add: sample_document_def py_truthy_def dict_get_default_def)
qed (simp_all add: sample_document_def section_ok_def optional_section_def presets_ok_def proxychains_ok_def
    py_truthy_def dict_get_default_def)

theorem load_cluster_typed_witness:
  "\<exists>cfg. load_cluster (\<lambda>_. Some (Inr (PDict sample_document))) ''jsc'' = Inr cfg \<and> config_typed cfg"
proof -
  let ?files = "\<lambda>_ :: string. Some (Inr (PDict sample_document) :: pyval res)"
  obtain cfg where "load_cluster ?files ''jsc'' = Inr cfg"
    using load_cluster_typed [of ?files "''jsc''" _ sample_document] sample_schema by blast
  then show ?thesis using load_cluster_typed [of ?files "''jsc''" cfg] by blast
qed
text \<open>The entries of the presets are not validated: a missing value surfaces as a bare \<open>KeyError\<close>.\<close>

lemma unchecked_preset_raises:
  assumes "map_of e ''partition'' = None"
  shows "parse_presets (PDict [(n, PDict e)]) = Inl (KeyError ''partition'')"
  using assms by (simp add: parse_presets_def py_items_def parse_preset_def dict_get_def)

end
