(* ===== verification/Fleet_Remote.thy ===== *)
theory Fleet_Remote
  imports Fleet_Config Io
begin

text \<open>
  The remote side of the fleet manager: connections to a cluster (second half of \<open>cluster.py\<close>),
  Slurm jobs (\<open>worker.py\<close>), the relay (\<open>relay.py\<close>) and the deployment of a backend
  (\<open>deploy.py\<close>).

  The programs and libraries the code calls (\<open>ssh\<close>, \<open>scp\<close>, paramiko, Jinja, the file
  system) are the fields of a record argument, actions on a world of which nothing is known. Waiting
  and printing are left out.
\<close>

section \<open>What the code calls\<close>

record 'w remote_tools =
  str_other :: "pyval \<Rightarrow> string"
  sha256_text :: "string \<Rightarrow> string"
  jinja_render :: "string \<Rightarrow> pyval pydict \<Rightarrow> ('w, string) io"
  ssh_check :: "string \<Rightarrow> ('w, int) io"
  ssh_exec :: "string \<Rightarrow> string \<Rightarrow> ('w, string \<times> string \<times> int) io"
  scp :: "string \<Rightarrow> string \<Rightarrow> ('w, unit) io"
  write_temp :: "string \<Rightarrow> ('w, string) io"
  unlink :: "string \<Rightarrow> ('w, unit) io"
  ssh_config_lookup :: "string \<Rightarrow> ('w, string pydict) io"
  client_connect :: "string \<Rightarrow> string option \<Rightarrow> string option \<Rightarrow> ('w, unit) io"
  client_exec :: "string \<Rightarrow> string \<Rightarrow> ('w, string \<times> string \<times> int) io"
  sftp_put :: "string \<Rightarrow> string \<Rightarrow> string \<Rightarrow> ('w, unit) io"
  sftp_write :: "string \<Rightarrow> string \<Rightarrow> string \<Rightarrow> ('w, unit) io"
  client_close :: "string \<Rightarrow> ('w, unit) io"
  file_sha256 :: "string \<Rightarrow> ('w, string) io"
  getenv :: "string \<Rightarrow> string option"

text \<open>\<open>str(v)\<close>; the text of floats, lists and mappings is left to the argument.\<close>

definition py_str :: "'w remote_tools \<Rightarrow> pyval \<Rightarrow> string" where
  "py_str ext v =
     (case v of
        PStr s \<Rightarrow> s
      | PInt i \<Rightarrow> str_int i
      | PBool b \<Rightarrow> (if b then ''True'' else ''False'')
      | PNone \<Rightarrow> ''None''
      | _ \<Rightarrow> str_other ext v)"

text \<open>\<open>s.replace(c, t)\<close> for a single character.\<close>

definition py_replace_char :: "char \<Rightarrow> string \<Rightarrow> string \<Rightarrow> string" where
  "py_replace_char c t s = concat (map (\<lambda>d. if d = c then t else [d]) s)"

section \<open>Connections\<close>

record connection =
  conn_config :: fleet_cluster_config
  conn_clients :: "string list"
  conn_use_subprocess :: "bool pydict"

definition new_connection :: "fleet_cluster_config \<Rightarrow> connection" where
  "new_connection cfg = \<lparr>conn_config = cfg, conn_clients = [], conn_use_subprocess = []\<rparr>"

text \<open>The methods of a connection act on the world and on the connection.\<close>

type_synonym ('w, 'a) cio = "('w \<times> connection, 'a) io"

definition on_world :: "('w, 'a) io \<Rightarrow> ('w, 'a) cio" where
  "on_world m s = (case m (fst s) of (r, w) \<Rightarrow> (r, (w, snd s)))"

definition get_conn :: "('w, connection) cio" where
  "get_conn s = (Inr (snd s), s)"

definition modify_conn :: "(connection \<Rightarrow> connection) \<Rightarrow> ('w, unit) cio" where
  "modify_conn f s = (Inr (), (fst s, f (snd s)))"

definition has_control_master :: "'w remote_tools \<Rightarrow> string \<Rightarrow> ('w, bool) io" where
  "has_control_master ext host = io_bind (ssh_check ext host) (\<lambda>code. io_return (code = 0))"

definition should_use_subprocess :: "'w remote_tools \<Rightarrow> string \<Rightarrow> ('w, bool) cio" where
  "should_use_subprocess ext host =
     io_bind get_conn (\<lambda>conn.
       case map_of (conn_use_subprocess conn) host of
         Some b \<Rightarrow> io_return b
       | None \<Rightarrow>
           io_bind (on_world (has_control_master ext host)) (\<lambda>b.
           io_bind (modify_conn (\<lambda>c. c\<lparr>conn_use_subprocess := dict_set host b (conn_use_subprocess c)\<rparr>)) (\<lambda>_.
             io_return b)))"

definition get_host :: "'w remote_tools \<Rightarrow> fleet_cluster_config \<Rightarrow> string \<Rightarrow> string" where
  "get_host ext cfg target = py_str ext (if target = ''relay'' then ssh_host cfg else ssh_host_any cfg)"

text \<open>The name, user and proxy command for a host, from the user's SSH configuration.\<close>

definition connect_args :: "'w remote_tools \<Rightarrow> string \<Rightarrow> ('w, string \<times> string option \<times> string option) io" where
  "connect_args ext host =
     io_bind (ssh_config_lookup ext host) (\<lambda>host_cfg.
       let actual_host = dict_get_default host_cfg ''hostname'' host;
           username = (case map_of host_cfg ''user'' of Some u \<Rightarrow> Some u | None \<Rightarrow> getenv ext ''USER'')
       in case map_of host_cfg ''proxycommand'' of
            Some p \<Rightarrow> io_return (actual_host, username, Some p)
          | None \<Rightarrow>
              (case map_of host_cfg ''proxyjump'' of
                 None \<Rightarrow> io_return (actual_host, username, None)
               | Some proxy_host \<Rightarrow>
                   io_bind (ssh_config_lookup ext proxy_host) (\<lambda>proxy_cfg.
                     let proxy_hostname = dict_get_default proxy_cfg ''hostname'' proxy_host;
                         proxy_user = (case map_of proxy_cfg ''user'' of
                           Some u \<Rightarrow> u | None \<Rightarrow> (case username of Some u \<Rightarrow> u | None \<Rightarrow> ''None''))
                     in io_return (actual_host, username,
                          Some (''ssh -W '' @ actual_host @ '':22 '' @ proxy_user @ ''@'' @ proxy_hostname)))))"

text \<open>Clients are cached by target; the first connection attempt may fail once.\<close>

definition get_client :: "'w remote_tools \<Rightarrow> string \<Rightarrow> ('w, unit) cio" where
  "get_client ext target =
     io_bind get_conn (\<lambda>conn.
       if target \<in> set (conn_clients conn) then io_return ()
       else
         io_bind (on_world (connect_args ext (get_host ext (conn_config conn) target))) (\<lambda>(host, user, sock).
         io_bind (on_world (io_catch (client_connect ext host user sock) (\<lambda>_. client_connect ext host user sock))) (\<lambda>_.
           modify_conn (\<lambda>c. c\<lparr>conn_clients := conn_clients c @ [target]\<rparr>))))"

definition conn_run :: "'w remote_tools \<Rightarrow> string \<Rightarrow> string \<Rightarrow> ('w, string \<times> string \<times> int) cio" where
  "conn_run ext cmd target =
     io_bind get_conn (\<lambda>conn.
       let host = get_host ext (conn_config conn) target in
       io_bind (should_use_subprocess ext host) (\<lambda>sub.
         if sub then on_world (ssh_exec ext host cmd)
         else io_bind (get_client ext target) (\<lambda>_. on_world (client_exec ext target cmd))))"

definition resolve_remote_path :: "'w remote_tools \<Rightarrow> string \<Rightarrow> string \<Rightarrow> ('w, string) cio" where
  "resolve_remote_path ext remote_path target =
     (if CHR ''~'' \<in> set remote_path
      then io_bind (conn_run ext ''echo $HOME'' target) (\<lambda>(out, _, _).
             io_return (py_replace_char CHR ''~'' (py_strip out) remote_path))
      else io_return remote_path)"

definition conn_put :: "'w remote_tools \<Rightarrow> string \<Rightarrow> string \<Rightarrow> string \<Rightarrow> ('w, unit) cio" where
  "conn_put ext local_path remote_path target =
     io_bind get_conn (\<lambda>conn.
       let host = get_host ext (conn_config conn) target in
       io_bind (should_use_subprocess ext host) (\<lambda>sub.
         if sub
         then io_bind (resolve_remote_path ext remote_path target) (\<lambda>resolved.
                on_world (scp ext local_path (host @ '':'' @ resolved)))
         else
           io_bind (get_client ext target) (\<lambda>_.
           io_bind (resolve_remote_path ext remote_path target) (\<lambda>resolved.
             on_world (sftp_put ext target local_path resolved)))))"

definition conn_put_string :: "'w remote_tools \<Rightarrow> string \<Rightarrow> string \<Rightarrow> string \<Rightarrow> ('w, unit) cio" where
  "conn_put_string ext content remote_path target =
     io_bind get_conn (\<lambda>conn.
       let host = get_host ext (conn_config conn) target in
       io_bind (should_use_subprocess ext host) (\<lambda>sub.
         if sub
         then
           io_bind (resolve_remote_path ext remote_path target) (\<lambda>resolved.
           io_bind (on_world (write_temp ext content)) (\<lambda>tmp.
             on_world (io_finally (scp ext tmp (host @ '':'' @ resolved)) (unlink ext tmp))))
         else
           io_bind (get_client ext target) (\<lambda>_.
           io_bind (resolve_remote_path ext remote_path target) (\<lambda>resolved.
             on_world (sftp_write ext target content resolved)))))"

definition conn_close :: "'w remote_tools \<Rightarrow> ('w, unit) cio" where
  "conn_close ext =
     io_bind get_conn (\<lambda>conn.
     io_bind (io_for (\<lambda>t. on_world (client_close ext t)) (conn_clients conn)) (\<lambda>_.
       modify_conn (\<lambda>c. c\<lparr>conn_clients := []\<rparr>)))"

end
