(* ===== verification/Fleet_Worker.thy ===== *)
theory Fleet_Worker
  imports Fleet_Remote
begin

text \<open>
  Slurm jobs (\<open>worker.py\<close>), the relay (\<open>relay.py\<close>) and the deployment of a backend on
  one cluster (\<open>deploy.py\<close>), as actions on a connection. The commands sent to the cluster are the
  strings of the code; the templates are rendered by the Jinja argument.
\<close>

section \<open>Jobs\<close>

record job =
  job_id :: string
  job_name :: string
  job_state :: string
  job_elapsed :: string
  job_time_limit :: string
  job_node :: string

definition py_gt_one :: "pyval \<Rightarrow> bool res" where
  "py_gt_one v =
     (case v of
        PInt i \<Rightarrow> Inr (i > 1)
      | PFloat x \<Rightarrow> Inr (x > 1)
      | PBool b \<Rightarrow> Inr False
      | _ \<Rightarrow> Inl (TypeError ''> not supported''))"

definition select_template :: "pyval \<Rightarrow> pyval \<Rightarrow> string res" where
  "select_template runtime nodes =
     (if runtime = PStr ''apptainer''
      then rbind (py_gt_one nodes) (\<lambda>multi.
             Inr (if multi then ''apptainer_multi.sh.j2'' else ''apptainer_single.sh.j2''))
      else if runtime = PStr ''enroot'' then Inr ''enroot_single.sh.j2''
      else Inl (ValueError ''Unsupported container runtime''))"

definition quoted :: "string \<Rightarrow> string" where
  "quoted s = CHR 0x22 # s @ [CHR 0x22]"

definition build_exec_prefix :: "'w remote_tools \<Rightarrow> fleet_cluster_config \<Rightarrow> string res" where
  "build_exec_prefix ext cfg =
     (if container_runtime cfg = PStr ''enroot''
      then Inr (''srun --environment='' @ py_str ext (container_edf_remote_path cfg))
      else
        rbind (py_list_val (container_apptainer_flags cfg)) (\<lambda>flags.
        rbind (py_list_val (container_mounts cfg)) (\<lambda>mounts.
          Inr (join_with ('' '' @ [CHR 0x5C, CHR 0x0A])
            ([''apptainer exec''] @ map (\<lambda>flag. ''    '' @ py_str ext flag) flags
             @ map (\<lambda>mount. ''    --bind '' @ quoted (py_str ext mount)) mounts
             @ [''    '' @ quoted (py_str ext (container_sif_path cfg))])))))"

definition squeue_command :: string where
  "squeue_command = ''squeue -u $USER -o '' @ quoted ''%i|%j|%T|%M|%l|%N'' @ '' --noheader''"

text \<open>One line of the listing: at least five columns, the sixth is optional; other jobs are skipped.\<close>

definition parse_job :: "string \<Rightarrow> job option" where
  "parse_job line =
     (let parts = split_on CHR ''|'' line in
      if length parts < 5 then None
      else
        let j = \<lparr>job_id = py_strip (parts ! 0), job_name = py_strip (parts ! 1), job_state = py_strip (parts ! 2),
                 job_elapsed = py_strip (parts ! 3), job_time_limit = py_strip (parts ! 4),
                 job_node = (if length parts > 5 then py_strip (parts ! 5) else [])\<rparr>
        in if py_startswith (job_name j) ''opentela-'' then Some j else None)"

definition parse_jobs :: "string \<times> string \<times> int \<Rightarrow> job list" where
  "parse_jobs result =
     (case result of (out, _, code) \<Rightarrow>
        if code \<noteq> 0 \<or> py_strip out = [] then []
        else List.map_filter parse_job (split_on CHR 0x0A (py_strip out)))"

definition worker_list :: "'w remote_tools \<Rightarrow> string \<Rightarrow> ('w, job list) cio" where
  "worker_list ext target =
     io_bind (conn_run ext squeue_command target) (\<lambda>result. io_return (parse_jobs result))"

definition effective_proxychains :: "fleet_cluster_config \<Rightarrow> preset \<Rightarrow> pyval" where
  "effective_proxychains cfg preset =
     (let pc = cfg_proxychains cfg;
          enabled = (pc_enabled pc \<and> ps_partition preset \<notin> set (pc_skip_partitions pc))
      in PDict [(''enabled'', PBool enabled), (''ssh_key'', pc_ssh_key pc), (''proxy_target'', pc_proxy_target pc),
                (''socks_port'', PInt (pc_socks_port pc))])"

definition template_vars ::
  "fleet_cluster_config \<Rightarrow> preset \<Rightarrow> string \<Rightarrow> string \<Rightarrow> string \<Rightarrow> pyval pydict" where
  "template_vars cfg preset name exec_prefix cmd =
     [(''job_name'', PStr name), (''partition'', ps_partition preset), (''account'', ps_account preset),
      (''time'', ps_time preset), (''gpus'', ps_gpus preset), (''nodes'', ps_nodes preset),
      (''cpus_per_task'', ps_cpus_per_task preset), (''extra_sbatch'', ps_extra_sbatch preset),
      (''log_dir'', PStr ''~/logs''), (''binary_path'', binary_remote_path cfg),
      (''worker_config'', PStr ''~/.config/opentela/cfg.yaml''), (''hf_cache'', container_hf_cache cfg),
      (''container_exec_prefix'', PStr exec_prefix), (''sif_path'', container_sif_path cfg),
      (''container_image'', container_image cfg), (''pull_if_missing'', container_pull_if_missing cfg),
      (''user_cmd'', PStr cmd), (''service_port'', worker_service_port cfg), (''startup_timeout'', PInt 300),
      (''modules'', cfg_modules cfg), (''nccl_env'', container_env cfg), (''edf_path'', container_edf_remote_path cfg),
      (''container_mounts'', container_mounts cfg), (''container_env'', container_env cfg),
      (''apptainer_flags'', container_apptainer_flags cfg), (''proxychains'', effective_proxychains cfg preset)]"

definition last_word :: "string \<Rightarrow> string res" where
  "last_word s = (let ws = py_words s in if ws = [] then Inl (IndexError ''list index out of range'') else Inr (last ws))"

definition worker_submit ::
  "'w remote_tools \<Rightarrow> fleet_cluster_config \<Rightarrow> preset \<Rightarrow> string \<Rightarrow> string \<Rightarrow> string \<Rightarrow> ('w, string) cio" where
  "worker_submit ext cfg preset preset_name backend cmd =
     (let name = job_identity (sha256_text ext) backend cmd preset_name in
      io_bind (io_res (select_template (container_runtime cfg) (ps_nodes preset))) (\<lambda>template_name.
      io_bind (io_res (build_exec_prefix ext cfg)) (\<lambda>exec_prefix.
      io_bind (on_world (jinja_render ext template_name (template_vars cfg preset name exec_prefix cmd))) (\<lambda>job_script.
      io_bind (conn_run ext ''mkdir -p ~/opentela ~/logs'' ''slurm'') (\<lambda>_.
      let remote_script = ''~/opentela/job_'' @ name @ ''.sh'' in
      io_bind (conn_put_string ext job_script remote_script ''slurm'') (\<lambda>_.
      io_bind (conn_run ext (''cd ~/opentela && sbatch '' @ remote_script) ''slurm'') (\<lambda>(out, err, code).
        if code \<noteq> 0 then io_raise (RuntimeError (''sbatch failed on '' @ py_str ext (cfg_name cfg) @ '': '' @ py_strip err))
        else io_res (last_word (py_strip out)))))))))"

definition worker_cancel :: "'w remote_tools \<Rightarrow> string \<Rightarrow> string \<Rightarrow> ('w, unit) cio" where
  "worker_cancel ext jid target =
     (if jid \<noteq> []
      then io_bind (conn_run ext (''scancel '' @ jid) target) (\<lambda>_. io_return ())
      else
        io_bind (worker_list ext target) (\<lambda>jobs.
        io_bind (io_for (\<lambda>j. conn_run ext (''scancel '' @ job_id j) target) jobs) (\<lambda>_. io_return ())))"

definition worker_logs :: "'w remote_tools \<Rightarrow> string \<Rightarrow> string \<Rightarrow> ('w, string \<times> string) cio" where
  "worker_logs ext jid target =
     io_bind (conn_run ext (''cat ~/logs/opentela_'' @ jid @ ''.out 2>/dev/null'') target) (\<lambda>(out_log, _, _).
     io_bind (conn_run ext (''cat ~/logs/opentela_'' @ jid @ ''.err 2>/dev/null'') target) (\<lambda>(err_log, _, _).
       io_return (out_log, err_log)))"

section \<open>The relay\<close>

datatype relay_state = RUNNING | STOPPED | DEGRADED

definition relay_config_remote_path :: string where
  "relay_config_remote_path = ''~/opentela/relay.cfg.yaml''"

definition relay_log_path :: string where
  "relay_log_path = ''~/opentela/relay.log''"

definition relay_multiaddr :: "'w remote_tools \<Rightarrow> fleet_cluster_config \<Rightarrow> string" where
  "relay_multiaddr ext cfg =
     ''/ip4/'' @ py_str ext (relay_host_ip cfg) @ ''/tcp/'' @ py_str ext (relay_tcp_port cfg)
     @ ''/p2p/'' @ py_str ext (relay_peer_id cfg)"

definition relay_pattern :: "'w remote_tools \<Rightarrow> fleet_cluster_config \<Rightarrow> string" where
  "relay_pattern ext cfg = py_str ext (binary_remote_path cfg) @ ''.*relay.cfg.yaml''"

definition bootstraps_url :: "'w remote_tools \<Rightarrow> fleet_cluster_config \<Rightarrow> string" where
  "bootstraps_url ext cfg = ''http://localhost:'' @ py_str ext (relay_port cfg) @ ''/v1/dnt/bootstraps''"

definition relay_status :: "'w remote_tools \<Rightarrow> fleet_cluster_config \<Rightarrow> ('w, relay_state) cio" where
  "relay_status ext cfg =
     io_bind (conn_run ext (''pgrep -f '' @ quoted (relay_pattern ext cfg)) ''relay'') (\<lambda>(_, _, code).
       if code \<noteq> 0 then io_return STOPPED
       else io_bind (conn_run ext (''curl -s --connect-timeout 3 '' @ bootstraps_url ext cfg) ''relay'') (\<lambda>(_, _, code).
         if code \<noteq> 0 then io_return DEGRADED else io_return RUNNING))"

text \<open>Polling, with the number of attempts left.\<close>

fun relay_poll :: "'w remote_tools \<Rightarrow> fleet_cluster_config \<Rightarrow> nat \<Rightarrow> ('w, bool) cio" where
  "relay_poll ext cfg 0 = io_return False"
| "relay_poll ext cfg (Suc n) =
     io_bind (conn_run ext (''curl -s --connect-timeout 2 '' @ bootstraps_url ext cfg) ''relay'') (\<lambda>(_, _, code).
       if code = 0 then io_return True else relay_poll ext cfg n)"

definition relay_vars :: "fleet_cluster_config \<Rightarrow> pyval pydict" where
  "relay_vars cfg =
     [(''cluster_name'', cfg_name cfg), (''relay_seed'', relay_seed cfg), (''relay_port'', relay_port cfg),
      (''relay_tcp_port'', relay_tcp_port cfg), (''relay_udp_port'', relay_udp_port cfg),
      (''require_signed_binary'', require_signed_binary cfg), (''skip_verification'', skip_verification cfg),
      (''bootstrap_sources'', relay_bootstrap cfg)]"

definition relay_start :: "'w remote_tools \<Rightarrow> fleet_cluster_config \<Rightarrow> ('w, unit) cio" where
  "relay_start ext cfg =
     (let home = py_str ext (relay_home_override cfg) in
      io_bind (conn_run ext ''mkdir -p ~/opentela'' ''relay'') (\<lambda>_.
      io_bind (on_world (jinja_render ext ''relay.cfg.yaml.j2'' (relay_vars cfg))) (\<lambda>relay_config.
      io_bind (conn_put_string ext relay_config relay_config_remote_path ''relay'') (\<lambda>_.
      io_bind (conn_run ext (''pkill -f '' @ quoted (relay_pattern ext cfg) @ '' 2>/dev/null || true'') ''relay'') (\<lambda>_.
      io_bind (conn_run ext (''rm -rf '' @ home @ '' && mkdir -p '' @ home) ''relay'') (\<lambda>_.
      io_bind (conn_run ext (''nohup env HOME='' @ home @ '' '' @ py_str ext (binary_remote_path cfg)
                 @ '' start --config '' @ relay_config_remote_path @ '' > '' @ relay_log_path @ '' 2>&1 &'') ''relay'') (\<lambda>_.
      io_bind (relay_poll ext cfg 30) (\<lambda>ready.
        if ready then io_return ()
        else io_bind (conn_run ext (''tail -30 '' @ relay_log_path) ''relay'') (\<lambda>(out, _, _).
          io_raise (RuntimeError (''Relay failed to start on '' @ py_str ext (cfg_name cfg) @ ''. Last logs:'' @ CHR 0x0A # out)))))))))))"

definition relay_stop :: "'w remote_tools \<Rightarrow> fleet_cluster_config \<Rightarrow> ('w, unit) cio" where
  "relay_stop ext cfg =
     io_bind (conn_run ext (''pkill -f '' @ quoted (relay_pattern ext cfg) @ '' 2>/dev/null || true'') ''relay'') (\<lambda>_.
     io_bind (conn_run ext (''rm -rf '' @ py_str ext (relay_home_override cfg)) ''relay'') (\<lambda>_. io_return ()))"

definition relay_ensure :: "'w remote_tools \<Rightarrow> fleet_cluster_config \<Rightarrow> ('w, unit) cio" where
  "relay_ensure ext cfg =
     (if py_truthy (relay_skip cfg) then io_return ()
      else io_bind (relay_status ext cfg) (\<lambda>status.
        if status = RUNNING then io_return () else relay_start ext cfg))"

section \<open>Deployment\<close>

definition sync_binary :: "'w remote_tools \<Rightarrow> string \<Rightarrow> string \<Rightarrow> string \<Rightarrow> ('w, unit) cio" where
  "sync_binary ext local_path remote_path target =
     io_bind (on_world (file_sha256 ext local_path)) (\<lambda>local_hash.
     io_bind (conn_run ext (''sha256sum '' @ remote_path @ '' 2>/dev/null'') target) (\<lambda>(out, _, code).
     io_bind (if code = 0
              then io_res (py_nth (py_words (py_strip out)) 0)
              else io_return []) (\<lambda>remote_hash.
       if code = 0 \<and> remote_hash = local_hash then io_return ()
       else
         io_bind (conn_run ext (''mkdir -p $(dirname '' @ remote_path @ '')'') target) (\<lambda>_.
         io_bind (conn_put ext local_path remote_path target) (\<lambda>_.
         io_bind (conn_run ext (''chmod +x '' @ remote_path) target) (\<lambda>_. io_return ()))))))"

definition worker_vars :: "fleet_cluster_config \<Rightarrow> pyval \<Rightarrow> pyval pydict" where
  "worker_vars cfg bootstrap_sources =
     [(''cluster_name'', cfg_name cfg), (''worker_seed'', worker_seed cfg), (''worker_port'', worker_port cfg),
      (''service_port'', worker_service_port cfg), (''require_signed_binary'', require_signed_binary cfg),
      (''skip_verification'', skip_verification cfg), (''bootstrap_sources'', bootstrap_sources)]"

definition host_env :: "'w remote_tools \<Rightarrow> pyval list \<Rightarrow> pyval pydict" where
  "host_env ext vars =
     foldl (\<lambda>d v. let x = py_str ext v in
              case getenv ext x of Some val \<Rightarrow> (if val = [] then d else dict_set x (PStr val) d) | None \<Rightarrow> d) [] vars"

definition deploy_edf :: "'w remote_tools \<Rightarrow> fleet_cluster_config \<Rightarrow> ('w, unit) cio" where
  "deploy_edf ext cfg =
     (if container_runtime cfg = PStr ''enroot'' \<and> py_truthy (container_edf_template cfg)
      then
        io_bind (io_res (py_list_val (container_env_from_host cfg))) (\<lambda>vars.
        io_bind (on_world (jinja_render ext (py_str ext (container_edf_template cfg))
            [(''container_image'', container_image cfg), (''container_mounts'', container_mounts cfg),
             (''container_env'', container_env cfg), (''host_env'', PDict (host_env ext vars))])) (\<lambda>edf_content.
          conn_put_string ext edf_content (py_str ext (container_edf_remote_path cfg)) ''slurm''))
      else io_return ())"

definition deploy ::
  "'w remote_tools \<Rightarrow> fleet_cluster_config \<Rightarrow> string \<Rightarrow> string \<Rightarrow> string \<Rightarrow> nat \<Rightarrow> ('w, string list) cio" where
  "deploy ext cfg preset_name backend cmd replicas =
     (case map_of (cfg_presets cfg) preset_name of
        None \<Rightarrow> io_raise (ValueError (''Unknown preset '' @ preset_name))
      | Some preset \<Rightarrow>
          io_bind (sync_binary ext (py_str ext (binary_local_path cfg)) (py_str ext (binary_remote_path cfg)) ''relay'') (\<lambda>_.
          io_bind (conn_run ext (''mkdir -p ~/opentela ~/.config/opentela ~/logs''
                     @ (if container_runtime cfg = PStr ''enroot'' then '' ~/.edf'' else [])) ''slurm'') (\<lambda>_.
          let bootstrap_sources = (if py_truthy (relay_skip cfg) then relay_bootstrap cfg
                                   else PList [PStr (relay_multiaddr ext cfg)]) in
          io_bind (on_world (jinja_render ext ''worker.cfg.yaml.j2'' (worker_vars cfg bootstrap_sources))) (\<lambda>worker_config.
          io_bind (conn_put_string ext worker_config ''~/.config/opentela/cfg.yaml'' ''slurm'') (\<lambda>_.
          io_bind (deploy_edf ext cfg) (\<lambda>_.
          io_bind (relay_ensure ext cfg) (\<lambda>_.
            io_for (\<lambda>_. worker_submit ext cfg preset preset_name backend cmd) [0..<replicas])))))))"
section \<open>Reading the listing back\<close>

text \<open>A field Slurm prints: no separator inside and no white space around it.\<close>

definition clean_field :: "string \<Rightarrow> bool" where
  "clean_field s \<longleftrightarrow> CHR ''|'' \<notin> set s \<and> CHR 0x0A \<notin> set s \<and> (s = [] \<or> \<not> is_space (hd s) \<and> \<not> is_space (last s))"

definition job_fields :: "job \<Rightarrow> string list" where
  "job_fields j = [job_id j, job_name j, job_state j, job_elapsed j, job_time_limit j, job_node j]"

definition squeue_line :: "job \<Rightarrow> string" where
  "squeue_line j = join_with ''|'' (job_fields j)"

definition printable :: "job \<Rightarrow> bool" where
  "printable j \<longleftrightarrow> job_id j \<noteq> [] \<and> list_all clean_field (job_fields j)"

lemma py_strip_clean: "s = [] \<or> \<not> is_space (hd s) \<and> \<not> is_space (last s) \<Longrightarrow> py_strip s = s"
proof -
  assume s: "s = [] \<or> \<not> is_space (hd s) \<and> \<not> is_space (last s)"
  have "dropWhile is_space s = s" using s by (cases s) auto
  moreover have "dropWhile is_space (rev s) = rev s" using s by (cases s rule: rev_cases) auto
  ultimately show ?thesis by (simp add: py_strip_def strip_by_def)
qed

lemma py_strip_newline:
  assumes "s \<noteq> []" and "\<not> is_space (hd s)" and "\<not> is_space (last s)"
  shows "py_strip (s @ [CHR 0x0A]) = s"
proof -
  obtain x xs where x: "s = x # xs" using assms(1) by (cases s) auto
  obtain ys y where y: "s = ys @ [y]" using assms(1) by (cases s rule: rev_cases) auto
  have "dropWhile is_space (s @ [CHR 0x0A]) = s @ [CHR 0x0A]" using assms(2) x by simp
  moreover have "is_space CHR 0x0A" by (simp add: is_space_def)
  ultimately show ?thesis using assms(3) y by (simp add: py_strip_def strip_by_def)
qed

lemma split_join:
  "ps \<noteq> [] \<Longrightarrow> (\<And>p. p \<in> set ps \<Longrightarrow> c \<notin> set p) \<Longrightarrow> split_on c (join_with [c] ps) = ps"
proof (induction ps rule: induct_list012)
  case (3 p q ps)
  then show ?case using split_on_append [of c p "join_with [c] (q # ps)"] by simp
qed (simp_all add: split_on_no_sep)

lemma join_lines: "ls \<noteq> [] \<Longrightarrow> concat (map (\<lambda>l. l @ [c]) ls) = join_with [c] ls @ [c]"
  by (induction ls rule: induct_list012) simp_all

lemma join_with_Nil [simp]: "join_with [c] (p # ps) = [] \<longleftrightarrow> p = [] \<and> ps = []"
  by (cases ps) simp_all

lemma join_with_ends:
  assumes "ps \<noteq> []"
  shows "hd ps \<noteq> [] \<Longrightarrow> hd (join_with [c] ps) = hd (hd ps) \<and> join_with [c] ps \<noteq> []"
    and "join_with [c] ps \<noteq> [] \<Longrightarrow> last (join_with [c] ps) = (if last ps = [] then c else last (last ps))"
  using assms by (induction ps rule: induct_list012) auto

lemma squeue_line_ends:
  assumes "printable j"
  shows "squeue_line j \<noteq> []" and "\<not> is_space (hd (squeue_line j))" and "\<not> is_space (last (squeue_line j))"
    and "CHR 0x0A \<notin> set (squeue_line j)"
proof -
  have "\<not> is_space CHR ''|''" by (simp add: is_space_def)
  note clean = assms [unfolded printable_def job_fields_def list.pred_inject clean_field_def]
  show 1: "squeue_line j \<noteq> []" using clean by (simp add: squeue_line_def job_fields_def)
  show "\<not> is_space (hd (squeue_line j))" using clean by (auto simp: squeue_line_def job_fields_def)
  show "\<not> is_space (last (squeue_line j))"
    using clean join_with_ends(2) [of "job_fields j" "CHR ''|''"] 1 \<open>\<not> is_space CHR ''|''\<close>
    by (auto simp: squeue_line_def job_fields_def)
  show "CHR 0x0A \<notin> set (squeue_line j)" using clean by (simp add: squeue_line_def job_fields_def)
qed

lemma parse_job_line:
  assumes "printable j"
  shows "parse_job (squeue_line j) = (if py_startswith (job_name j) ''opentela-'' then Some j else None)"
proof -
  have "split_on CHR ''|'' (squeue_line j) = job_fields j"
    unfolding squeue_line_def
    by (rule split_join) (use assms in \<open>auto simp: printable_def job_fields_def clean_field_def\<close>)
  moreover have "py_strip f = f" if "f \<in> set (job_fields j)" for f
    using assms that by (intro py_strip_clean) (auto simp: printable_def list_all_iff clean_field_def)
  ultimately show ?thesis by (simp add: parse_job_def job_fields_def Let_def)
qed

text \<open>C18: The listing is read back exactly: for jobs whose fields contain no separator and no surrounding
  white space, parsing the lines the queue prints returns the jobs of the fleet manager, in order and
  with every field, and none else.\<close>

theorem squeue_roundtrip:
  assumes "\<forall>j \<in> set js. printable j"
  shows "parse_jobs (concat (map (\<lambda>j. squeue_line j @ [CHR 0x0A]) js), err, 0)
    = filter (\<lambda>j. py_startswith (job_name j) ''opentela-'') js"
proof (cases "js = []")
  case True
  then show ?thesis by (simp add: parse_jobs_def py_strip_clean)
next
  case False
  let ?ls = "map squeue_line js"
  have ls: "?ls \<noteq> []" "\<And>l. l \<in> set ?ls \<Longrightarrow> CHR 0x0A \<notin> set l" "hd ?ls \<noteq> []" "last ?ls \<noteq> []"
    "\<not> is_space (hd (hd ?ls))" "\<not> is_space (last (last ?ls))"
    using False assms squeue_line_ends by (auto simp: hd_map last_map)
  have out: "concat (map (\<lambda>j. squeue_line j @ [CHR 0x0A]) js) = join_with [CHR 0x0A] ?ls @ [CHR 0x0A]"
    using join_lines [OF ls(1), of "CHR 0x0A"] by (simp add: comp_def)
  have "py_strip (join_with [CHR 0x0A] ?ls @ [CHR 0x0A]) = join_with [CHR 0x0A] ?ls"
    using join_with_ends [OF ls(1), of "CHR 0x0A"] ls(3-6) by (intro py_strip_newline) auto
  moreover have "split_on CHR 0x0A (join_with [CHR 0x0A] ?ls) = ?ls" using ls(1,2) by (rule split_join)
  moreover have "join_with [CHR 0x0A] ?ls \<noteq> []" using join_with_ends(1) [OF ls(1) ls(3)] by blast
  moreover have "List.map_filter parse_job ?ls = filter (\<lambda>j. py_startswith (job_name j) ''opentela-'') js"
    using assms by (induction js) (auto simp: map_filter_simps parse_job_line)
  ultimately show ?thesis unfolding out by (simp add: parse_jobs_def)
qed

theorem squeue_roundtrip_witness:
  "parse_jobs (squeue_line \<lparr>job_id = ''7'', job_name = ''opentela-vllm-0'', job_state = ''RUNNING'', job_elapsed = ''1:00'',
       job_time_limit = ''2:00'', job_node = []\<rparr> @ [CHR 0x0A], [], 0)
   = [\<lparr>job_id = ''7'', job_name = ''opentela-vllm-0'', job_state = ''RUNNING'', job_elapsed = ''1:00'',
       job_time_limit = ''2:00'', job_node = []\<rparr>]"
  using squeue_roundtrip [of "[\<lparr>job_id = ''7'', job_name = ''opentela-vllm-0'', job_state = ''RUNNING'', job_elapsed = ''1:00'',
       job_time_limit = ''2:00'', job_node = []\<rparr>]" "[]"]
  by (simp add: printable_def job_fields_def clean_field_def is_space_def)

end
