(* ===== verification/Fleet_Apply.thy ===== *)
theory Fleet_Apply
  imports Fleet_Worker "HOL-Library.List_Lexorder" "HOL-Library.Char_ord"
begin

text \<open>
  Declarative deployment (\<open>apply.py\<close>): parsing a fleet file, comparing the desired deployments with
  the running jobs, and carrying out the difference. A desired deployment is typed as the code
  annotates it: strings and an integer number of replicas.
\<close>

section \<open>Definitions\<close>

datatype action_kind = Deploy | Cancel

record action =
  act_kind :: action_kind
  act_cluster :: string
  act_backend :: string
  act_cmd :: string
  act_preset :: string
  act_job_id :: "string option"

type_synonym deployment = "string \<times> string \<times> string \<times> string \<times> int"

definition parse_deployment :: "pyval \<Rightarrow> (pyval \<times> pyval \<times> pyval \<times> pyval \<times> pyval) res" where
  "parse_deployment dep =
     rbind (py_item dep ''cluster'') (\<lambda>cluster.
     rbind (py_item dep ''backend'') (\<lambda>backend.
     rbind (py_item dep ''cmd'') (\<lambda>cmd.
     rbind (py_item dep ''preset'') (\<lambda>preset.
     rbind (py_get dep ''replicas'' (PInt 1)) (\<lambda>replicas.
       Inr (cluster, backend, cmd, preset, replicas))))))"

definition parse_fleet_file :: "pyval \<Rightarrow> (pyval \<times> pyval \<times> pyval \<times> pyval \<times> pyval) list res" where
  "parse_fleet_file data =
     rbind (rbind (py_get data ''deployments'' (PList [])) py_list_val) (map_res parse_deployment)"

text \<open>Entries with the annotated types.\<close>

definition typed_deployment :: "pyval \<times> pyval \<times> pyval \<times> pyval \<times> pyval \<Rightarrow> deployment option" where
  "typed_deployment e =
     (case e of (PStr cluster, PStr backend, PStr cmd, PStr preset, PInt replicas) \<Rightarrow>
        Some (cluster, backend, cmd, preset, replicas) | _ \<Rightarrow> None)"

text \<open>The sort key of a job: its number, or 0 when it is not a plain number.\<close>

definition job_key :: "job \<Rightarrow> int" where
  "job_key j =
     (if job_id j \<noteq> [] \<and> list_all is_digit (job_id j) then int (nat_of_digits (job_id j)) else 0)"

definition matching_jobs :: "string \<Rightarrow> job list \<Rightarrow> job list" where
  "matching_jobs name jobs = filter (\<lambda>j. job_name j = name) jobs"

text \<open>The jobs to cancel: the newest, in a stable descending order of their numbers.\<close>

definition excess_jobs :: "job list \<Rightarrow> nat \<Rightarrow> job list" where
  "excess_jobs matching n = take n (sort_key (\<lambda>j. - job_key j) matching)"

definition diff_one :: "(string \<Rightarrow> string) \<Rightarrow> job list pydict \<Rightarrow> deployment \<Rightarrow> action list" where
  "diff_one sha live_jobs dep =
     (case dep of (cluster, backend, cmd, preset, replicas) \<Rightarrow>
        let name = job_identity sha backend cmd preset;
            matching = matching_jobs name (dict_get_default live_jobs cluster []);
            current = int (length matching);
            act = (\<lambda>kind jid. \<lparr>act_kind = kind, act_cluster = cluster, act_backend = backend, act_cmd = cmd,
                               act_preset = preset, act_job_id = jid\<rparr>)
        in if current < replicas then replicate (nat (replicas - current)) (act Deploy None)
           else if current > replicas
           then map (\<lambda>j. act Cancel (Some (job_id j)))
                  (excess_jobs matching (nat (current - replicas)))
           else [])"

definition compute_diff :: "(string \<Rightarrow> string) \<Rightarrow> deployment list \<Rightarrow> job list pydict \<Rightarrow> action list" where
  "compute_diff sha desired live_jobs = concat (map (diff_one sha live_jobs) desired)"
section \<open>Carrying out the plan\<close>

record 'w fleet_run =
  fr_world :: 'w
  fr_configs :: "fleet_cluster_config pydict"
  fr_connections :: "connection pydict"
  fr_live :: "job list pydict"

text \<open>The listing of one cluster; any exception leaves it with no jobs.\<close>

definition survey_cluster ::
  "'w remote_tools \<Rightarrow> (string \<Rightarrow> pyval res option) \<Rightarrow> string \<Rightarrow> 'w fleet_run \<Rightarrow> 'w fleet_run" where
  "survey_cluster ext files name st =
     (case load_cluster files name of
        Inl e \<Rightarrow> st\<lparr>fr_live := dict_set name [] (fr_live st)\<rparr>
      | Inr cfg \<Rightarrow>
          (case worker_list ext ''slurm'' (fr_world st, new_connection cfg) of (r, w', conn') \<Rightarrow>
             \<lparr>fr_world = w', fr_configs = dict_set name cfg (fr_configs st),
              fr_connections = dict_set name conn' (fr_connections st),
              fr_live = dict_set name (case r of Inl e \<Rightarrow> [] | Inr jobs \<Rightarrow> jobs) (fr_live st)\<rparr>))"

datatype action_result = ActionOk "string option" | ActionFailed py_exn

definition action_body :: "'w remote_tools \<Rightarrow> fleet_cluster_config \<Rightarrow> action \<Rightarrow> ('w, string option) cio" where
  "action_body ext cfg a =
     (case act_kind a of
        Deploy \<Rightarrow>
          io_bind (deploy ext cfg (act_preset a) (act_backend a) (act_cmd a) 1) (\<lambda>job_ids.
          io_bind (io_res (py_nth job_ids 0)) (\<lambda>jid. io_return (Some jid)))
      | Cancel \<Rightarrow>
          io_bind (worker_cancel ext (case act_job_id a of Some jid \<Rightarrow> jid | None \<Rightarrow> []) ''slurm'') (\<lambda>_.
            io_return None))"

definition perform_action :: "'w remote_tools \<Rightarrow> action \<Rightarrow> 'w fleet_run \<Rightarrow> action_result \<times> 'w fleet_run" where
  "perform_action ext a st =
     (case map_of (fr_connections st) (act_cluster a) of
        None \<Rightarrow> (ActionFailed (KeyError (act_cluster a)), st)
      | Some conn \<Rightarrow>
          (case map_of (fr_configs st) (act_cluster a) of
             None \<Rightarrow> (ActionFailed (KeyError (act_cluster a)), st)
           | Some cfg \<Rightarrow>
               (case action_body ext cfg a (fr_world st, conn) of (r, w', conn') \<Rightarrow>
                  (case r of Inl e \<Rightarrow> ActionFailed e | Inr jid \<Rightarrow> ActionOk jid,
                   st\<lparr>fr_world := w', fr_connections := dict_set (act_cluster a) conn' (fr_connections st)\<rparr>))))"

fun perform_actions ::
  "'w remote_tools \<Rightarrow> action list \<Rightarrow> 'w fleet_run \<Rightarrow> (action \<times> action_result) list \<times> 'w fleet_run" where
  "perform_actions ext [] st = ([], st)"
| "perform_actions ext (a # as) st =
     (let (r, st') = perform_action ext a st; (rs, st'') = perform_actions ext as st' in ((a, r) # rs, st''))"

definition close_all :: "'w remote_tools \<Rightarrow> connection pydict \<Rightarrow> ('w, unit) io" where
  "close_all ext conns =
     io_bind (io_for (\<lambda>(name, conn) w. case conn_close ext (w, conn) of (r, w', _) \<Rightarrow> (r, w')) conns)
       (\<lambda>_. io_return ())"

text \<open>The planned actions and the result of each that was carried out.\<close>

definition apply_fleet ::
  "'w remote_tools \<Rightarrow> (string \<Rightarrow> pyval res option) \<Rightarrow> deployment list \<Rightarrow> bool \<Rightarrow> 'w
     \<Rightarrow> (action list \<times> (action \<times> action_result) list) res \<times> 'w" where
  "apply_fleet ext files desired dry_run w =
     (let cluster_names = sort (remdups (map fst desired));
          st = fold (survey_cluster ext files) cluster_names
                 \<lparr>fr_world = w, fr_configs = [], fr_connections = [], fr_live = []\<rparr>;
          actions = compute_diff (sha256_text ext) desired (fr_live st)
      in if actions = [] \<or> dry_run then (Inr (actions, []), fr_world st)
         else
           (case perform_actions ext actions st of (results, st') \<Rightarrow>
              io_bind (close_all ext (fr_connections st')) (\<lambda>_. io_return (actions, results)) (fr_world st')))"
section \<open>What a plan does to the jobs\<close>

text \<open>
  The meaning of the actions: a deployment adds a job of the deployment's name under an unused number
  chosen by the cluster (the argument \<open>new_id\<close>), a cancellation removes the job with the given number.
\<close>

abbreviation lookup_jobs :: "job list pydict \<Rightarrow> string \<Rightarrow> job list" where
  "lookup_jobs live c \<equiv> dict_get_default live c []"

definition jobs_of :: "job list pydict \<Rightarrow> string \<Rightarrow> string \<Rightarrow> job list" where
  "jobs_of live c n = matching_jobs n (lookup_jobs live c)"

definition plan_step ::
  "(string \<Rightarrow> string) \<Rightarrow> (string \<Rightarrow> job list \<Rightarrow> job) \<Rightarrow> action \<Rightarrow> job list pydict \<Rightarrow> job list pydict" where
  "plan_step sha new_job a live =
     (let c = act_cluster a; js = lookup_jobs live c in
      case act_kind a of
        Deploy \<Rightarrow> dict_set c (js @ [(new_job c js)\<lparr>job_name := job_identity sha (act_backend a) (act_cmd a) (act_preset a)\<rparr>]) live
      | Cancel \<Rightarrow> dict_set c (filter (\<lambda>j. act_job_id a \<noteq> Some (job_id j)) js) live)"

definition plan_run ::
  "(string \<Rightarrow> string) \<Rightarrow> (string \<Rightarrow> job list \<Rightarrow> job) \<Rightarrow> action list \<Rightarrow> job list pydict \<Rightarrow> job list pydict" where
  "plan_run sha new_job as live = fold (plan_step sha new_job) as live"

definition ids_ok :: "job list pydict \<Rightarrow> bool" where
  "ids_ok live \<longleftrightarrow> (\<forall>c. distinct (map job_id (lookup_jobs live c)))"

definition unused_ids :: "(string \<Rightarrow> job list \<Rightarrow> job) \<Rightarrow> bool" where
  "unused_ids new_job \<longleftrightarrow> (\<forall>c js. job_id (new_job c js) \<notin> job_id ` set js)"

lemma lookup_set [simp]: "lookup_jobs (dict_set c v live) c' = (if c' = c then v else lookup_jobs live c')"
  by (simp add: dict_get_default_def update_conv')

lemma matching_append [simp]: "matching_jobs n (xs @ ys) = matching_jobs n xs @ matching_jobs n ys"
  by (simp add: matching_jobs_def)

lemma set_jobs_of: "j \<in> set (jobs_of live c n) \<longleftrightarrow> j \<in> set (lookup_jobs live c) \<and> job_name j = n"
  by (auto simp: jobs_of_def matching_jobs_def)

lemma plan_deploy:
  assumes "unused_ids new_job" and "ids_ok live" and "act_kind a = Deploy"
    and "n = job_identity sha (act_backend a) (act_cmd a) (act_preset a)"
  shows "ids_ok (plan_run sha new_job (replicate k a) live)"
    and "length (jobs_of (plan_run sha new_job (replicate k a) live) (act_cluster a) n)
       = length (jobs_of live (act_cluster a) n) + k"
    and "(c, m) \<noteq> (act_cluster a, n) \<Longrightarrow> jobs_of (plan_run sha new_job (replicate k a) live) c m = jobs_of live c m"
  using assms(2)
proof (induction k arbitrary: live)
  case 0
  { case 1 then show ?case by (simp add: plan_run_def) }
  { case 2 then show ?case by (simp add: plan_run_def) }
  { case 3 then show ?case by (simp add: plan_run_def) }
next
  case (Suc k)
  let ?next = "plan_step sha new_job a"
  have ids: "ids_ok (?next live)" if "ids_ok live" for live
    using that assms(1,3) by (simp add: ids_ok_def plan_step_def unused_ids_def Let_def)
  have run: "plan_run sha new_job (replicate (Suc k) a) live = plan_run sha new_job (replicate k a) (?next live)" for live
    by (simp add: plan_run_def)
  have len: "length (jobs_of (?next live) (act_cluster a) n) = Suc (length (jobs_of live (act_cluster a) n))" for live
    using assms(3,4) by (simp add: plan_step_def jobs_of_def matching_jobs_def Let_def)
  have other: "jobs_of (?next live) c m = jobs_of live c m" if "(c, m) \<noteq> (act_cluster a, n)" for live
    using that assms(3,4) by (auto simp: plan_step_def jobs_of_def matching_jobs_def Let_def)
  { case 1 then show ?case unfolding run by (intro Suc.IH(1) ids) }
  { case 2 then show ?case unfolding run using Suc.IH(2) [OF ids] len by simp }
  { case 3 then show ?case unfolding run using Suc.IH(3) [OF _ ids] other by simp }
qed

lemma plan_cancel:
  assumes "\<And>j. act_kind (act j) = Cancel \<and> act_cluster (act j) = c \<and> act_job_id (act j) = Some (job_id j)"
  shows "lookup_jobs (plan_run sha new_job (map act js) live) c'
    = (if c' = c then filter (\<lambda>j. job_id j \<notin> job_id ` set js) (lookup_jobs live c) else lookup_jobs live c')"
proof (induction js arbitrary: live)
  case Nil
  then show ?case by (simp add: plan_run_def)
next
  case (Cons j js)
  have "plan_run sha new_job (map act (j # js)) live = plan_run sha new_job (map act js) (plan_step sha new_job (act j) live)"
    by (simp add: plan_run_def)
  then show ?case
    using assms [of j] by (auto simp: Cons.IH plan_step_def Let_def intro!: filter_cong)
qed
lemma excess_props:
  assumes "n \<le> length ms"
  shows "set (excess_jobs ms n) \<subseteq> set ms" and "length (excess_jobs ms n) = n"
    and "distinct (map job_id ms) \<Longrightarrow> distinct (map job_id (excess_jobs ms n))"
    and "x \<in> set (excess_jobs ms n) \<Longrightarrow> y \<in> set ms \<Longrightarrow> y \<notin> set (excess_jobs ms n) \<Longrightarrow> job_key y \<le> job_key x"
proof -
  let ?s = "sort_key (\<lambda>j. - job_key j) ms"
  show "set (excess_jobs ms n) \<subseteq> set ms"
    using set_take_subset [of n ?s] by (simp add: excess_jobs_def)
  show "length (excess_jobs ms n) = n" using assms by (simp add: excess_jobs_def)
  show "distinct (map job_id (excess_jobs ms n))" if "distinct (map job_id ms)"
  proof -
    have "mset (map job_id ?s) = mset (map job_id ms)" by simp
    then have "distinct (map job_id ?s)" using that by (metis mset_eq_imp_distinct_iff)
    then show ?thesis by (simp add: excess_jobs_def take_map [symmetric])
  qed
  show "job_key y \<le> job_key x" if "x \<in> set (excess_jobs ms n)" "y \<in> set ms" "y \<notin> set (excess_jobs ms n)"
  proof -
    have "sorted (map (\<lambda>j. - job_key j) (take n ?s @ drop n ?s))" by simp
    then have "sorted_wrt (\<le>) (map (\<lambda>j. - job_key j) (take n ?s) @ map (\<lambda>j. - job_key j) (drop n ?s))"
      by (simp only: map_append)
    moreover have "y \<in> set (drop n ?s)"
      using that(2,3) by (metis Un_iff append_take_drop_id excess_jobs_def set_append set_sort)
    ultimately have "- job_key x \<le> - job_key y"
      using that(1) unfolding sorted_wrt_append excess_jobs_def by auto
    then show ?thesis by simp
  qed
qed

fun deployment_key :: "(string \<Rightarrow> string) \<Rightarrow> deployment \<Rightarrow> string \<times> string" where
  "deployment_key sha (c, b, cmd, p, r) = (c, job_identity sha b cmd p)"

fun deployment_replicas :: "deployment \<Rightarrow> int" where
  "deployment_replicas (c, b, cmd, p, r) = r"

lemma diff_one_cong:
  assumes "deployment_key sha d = (c, n)" and "jobs_of live c n = jobs_of live' c n"
  shows "diff_one sha live d = diff_one sha live' d"
  using assms by (cases d) (simp add: diff_one_def jobs_of_def Let_def)

text \<open>
  One entry of the fleet file is settled: its jobs are as many as the replicas, the other jobs are as
  before, and when there were too many, those that are left are not newer than those cancelled.
\<close>

definition settled_entry :: "string \<times> string \<Rightarrow> int \<Rightarrow> job list pydict \<Rightarrow> job list pydict \<Rightarrow> bool" where
  "settled_entry cn r live live' \<longleftrightarrow>
     (case cn of (c, n) \<Rightarrow>
        int (length (jobs_of live' c n)) = r
        \<and> (\<forall>c' m. (c', m) \<noteq> (c, n) \<longrightarrow> jobs_of live' c' m = jobs_of live c' m)
        \<and> (r \<le> int (length (jobs_of live c n)) \<longrightarrow> set (jobs_of live' c n) \<subseteq> set (jobs_of live c n)
            \<and> (\<forall>x \<in> set (jobs_of live' c n). \<forall>y \<in> set (jobs_of live c n) - set (jobs_of live' c n).
                  job_key x \<le> job_key y)))"

lemma scale_up:
  assumes "unused_ids new_job" and "ids_ok live" and n: "n = job_identity sha b cmd p"
    and less: "int (length (jobs_of live c n)) < r"
  defines "live' \<equiv> plan_run sha new_job (diff_one sha live (c, b, cmd, p, r)) live"
  shows "ids_ok live' \<and> settled_entry (c, n) r live live'"
proof -
  let ?a = "\<lparr>act_kind = Deploy, act_cluster = c, act_backend = b, act_cmd = cmd, act_preset = p, act_job_id = None\<rparr>"
  have l: "live' = plan_run sha new_job (replicate (nat (r - int (length (jobs_of live c n)))) ?a) live"
    using less by (simp add: live'_def diff_one_def jobs_of_def n Let_def)
  note D = plan_deploy [OF assms(1,2), of ?a n sha, unfolded action.select_convs, OF refl n]
  show ?thesis unfolding l settled_entry_def using D less by simp
qed

lemma length_filter_ids:
  assumes "distinct (map job_id ms)" and "set xs \<subseteq> set ms" and "distinct (map job_id xs)"
  shows "length (filter (\<lambda>j. job_id j \<notin> job_id ` set xs) ms) = length ms - length xs"
proof -
  have "card (job_id ` set ms - job_id ` set xs) = length ms - length xs"
    using assms by (subst card_Diff_subset) (auto simp: card_image distinct_card [symmetric] distinct_map)
  moreover have "job_id ` set (filter (\<lambda>j. job_id j \<notin> job_id ` set xs) ms) = job_id ` set ms - job_id ` set xs" by auto
  moreover have "distinct (map job_id (filter (\<lambda>j. job_id j \<notin> job_id ` set xs) ms))"
    using assms(1) by (rule distinct_map_filter)
  ultimately show ?thesis by (metis distinct_card length_map list.set_map)
qed
lemma scale_down:
  fixes new_job :: "string \<Rightarrow> job list \<Rightarrow> job"
  assumes "ids_ok live" and n: "n = job_identity sha b cmd p"
    and le: "0 \<le> r" "r \<le> int (length (jobs_of live c n))"
  defines "live' \<equiv> plan_run sha new_job (diff_one sha live (c, b, cmd, p, r)) live"
  shows "ids_ok live' \<and> settled_entry (c, n) r live live'"
proof -
  let ?ms = "jobs_of live c n"
  let ?k = "nat (int (length ?ms) - r)"
  let ?xs = "excess_jobs ?ms ?k"
  let ?act = "\<lambda>j. \<lparr>act_kind = Cancel, act_cluster = c, act_backend = b, act_cmd = cmd, act_preset = p, act_job_id = Some (job_id j)\<rparr>"
  have l: "live' = plan_run sha new_job (map ?act ?xs) live"
    using le by (auto simp: live'_def diff_one_def jobs_of_def n Let_def excess_jobs_def)
  have look: "lookup_jobs live' c' = (if c' = c then filter (\<lambda>j. job_id j \<notin> job_id ` set ?xs) (lookup_jobs live c)
      else lookup_jobs live c')" for c'
    unfolding l by (rule plan_cancel) simp
  have jobs: "jobs_of live' c m = filter (\<lambda>j. job_id j \<notin> job_id ` set ?xs) (jobs_of live c m)" for m
    unfolding jobs_of_def matching_jobs_def look by (simp add: conj_commute)
  have dist: "distinct (map job_id (lookup_jobs live c))" using assms(1) by (simp add: ids_ok_def)
  then have dist_ms: "distinct (map job_id ?ms)" by (simp add: jobs_of_def matching_jobs_def distinct_map_filter)
  have inj: "x = y" if "x \<in> set (lookup_jobs live c)" "y \<in> set (lookup_jobs live c)" "job_id x = job_id y" for x y
    using that dist by (simp add: distinct_map inj_on_def)
  have k: "?k \<le> length ?ms" using le by simp
  note ex = excess_props [OF k]
  have sub: "x \<in> set ?xs \<Longrightarrow> x \<in> set (lookup_jobs live c) \<and> job_name x = n" for x
    using ex(1) by (auto simp: set_jobs_of)
  have id_in: "job_id y \<in> job_id ` set ?xs \<longleftrightarrow> y \<in> set ?xs" if "y \<in> set (lookup_jobs live c)" for y
  proof
    assume "job_id y \<in> job_id ` set ?xs"
    then obtain x where x: "x \<in> set ?xs" "job_id y = job_id x" by auto
    then have "y = x" using inj [OF that] sub by blast
    then show "y \<in> set ?xs" using x(1) by simp
  qed simp
  have "ids_ok live'" using assms(1) by (simp add: ids_ok_def look distinct_map_filter)
  moreover have "int (length (jobs_of live' c n)) = r"
    using le length_filter_ids [OF dist_ms ex(1) ex(3) [OF dist_ms]] ex(2) by (simp add: jobs)
  moreover have "jobs_of live' c' m = jobs_of live c' m" if "(c', m) \<noteq> (c, n)" for c' m
  proof (cases "c' = c")
    case True
    have "job_id j \<notin> job_id ` set ?xs" if "j \<in> set (jobs_of live c m)" for j
      using that id_in sub \<open>(c', m) \<noteq> (c, n)\<close> True by (auto simp: set_jobs_of)
    then show ?thesis unfolding True jobs by (simp add: filter_id_conv)
  qed (simp add: jobs_of_def look)
  moreover have "set (jobs_of live' c n) \<subseteq> set ?ms" by (auto simp: jobs)
  moreover have "job_key x \<le> job_key y" if "x \<in> set (jobs_of live' c n)" "y \<in> set ?ms - set (jobs_of live' c n)" for x y
  proof -
    have "x \<in> set ?ms" "x \<notin> set ?xs" "y \<in> set ?xs"
      using that id_in by (auto simp: jobs set_jobs_of)
    then show ?thesis using ex(4) by blast
  qed
  ultimately show ?thesis by (simp add: settled_entry_def)
qed

lemma plan_entry:
  assumes "unused_ids new_job" and "ids_ok live" and "0 \<le> deployment_replicas d"
  shows "ids_ok (plan_run sha new_job (diff_one sha live d) live)
    \<and> settled_entry (deployment_key sha d) (deployment_replicas d) live (plan_run sha new_job (diff_one sha live d) live)"
proof -
  obtain c b cmd p r where d: "d = (c, b, cmd, p, r)" by (cases d)
  show ?thesis
    using scale_up [where c = c and r = r and b = b and cmd = cmd and p = p and sha = sha, OF assms(1,2) refl]
      scale_down [where c = c and r = r and b = b and cmd = cmd and p = p and sha = sha and new_job = new_job,
        OF assms(2) refl] assms(3) d
    by (cases "int (length (jobs_of live c (job_identity sha b cmd p))) < r") simp_all
qed

lemma plan_run_append: "plan_run sha new_job (xs @ ys) live = plan_run sha new_job ys (plan_run sha new_job xs live)"
  by (simp add: plan_run_def)

text \<open>The whole fleet file, entry by entry; the plan is computed from the first listing \<open>live0\<close>.\<close>

lemma plan_fleet:
  assumes "unused_ids new_job" and "ids_ok live" and "distinct (map (deployment_key sha) desired)"
    and "\<forall>d \<in> set desired. 0 \<le> deployment_replicas d"
    and "\<forall>d \<in> set desired. case deployment_key sha d of (c, n) \<Rightarrow> jobs_of live c n = jobs_of live0 c n"
  defines "live' \<equiv> plan_run sha new_job (compute_diff sha desired live0) live"
  shows "(\<forall>c n. (c, n) \<notin> deployment_key sha ` set desired \<longrightarrow> jobs_of live' c n = jobs_of live c n)
    \<and> (\<forall>d \<in> set desired. case deployment_key sha d of (c, n) \<Rightarrow>
        int (length (jobs_of live' c n)) = deployment_replicas d
        \<and> (deployment_replicas d \<le> int (length (jobs_of live0 c n)) \<longrightarrow>
            set (jobs_of live' c n) \<subseteq> set (jobs_of live0 c n)
            \<and> (\<forall>x \<in> set (jobs_of live' c n). \<forall>y \<in> set (jobs_of live0 c n) - set (jobs_of live' c n).
                  job_key x \<le> job_key y)))"
  using assms(2-5) unfolding live'_def
proof (induction desired arbitrary: live)
  case Nil
  then show ?case by (simp add: compute_diff_def plan_run_def)
next
  case (Cons d ds)
  obtain c n where k: "deployment_key sha d = (c, n)" by force
  let ?l = "plan_run sha new_job (diff_one sha live d) live"
  have same: "diff_one sha live0 d = diff_one sha live d"
    using Cons.prems(4) k by (intro diff_one_cong [OF k]) simp
  have e: "ids_ok ?l" "settled_entry (c, n) (deployment_replicas d) live ?l"
    using plan_entry [OF assms(1) Cons.prems(1), of d sha] Cons.prems(3) k by simp_all
  have run: "plan_run sha new_job (compute_diff sha (d # ds) live0) live = plan_run sha new_job (compute_diff sha ds live0) ?l"
    by (simp add: compute_diff_def plan_run_append same)
  have fresh: "(c, n) \<notin> deployment_key sha ` set ds" using Cons.prems(2) k by simp
  have frame: "jobs_of ?l c' m = jobs_of live c' m" if "(c', m) \<noteq> (c, n)" for c' m
    using e(2) that by (simp add: settled_entry_def)
  have keep: "\<forall>d' \<in> set ds. case deployment_key sha d' of (c', m) \<Rightarrow> jobs_of ?l c' m = jobs_of live0 c' m"
  proof
    fix d' assume d': "d' \<in> set ds"
    obtain c' m where k': "deployment_key sha d' = (c', m)" by force
    have "(c', m) \<in> deployment_key sha ` set ds" using d' k' by (metis imageI)
    then have "(c', m) \<noteq> (c, n)" using fresh by blast
    then show "case deployment_key sha d' of (c', m) \<Rightarrow> jobs_of ?l c' m = jobs_of live0 c' m"
      using bspec [OF Cons.prems(4), of d'] d' k' frame [of c' m] by simp
  qed
  note IH = Cons.IH [OF e(1) _ _ keep]
  have IH1: "jobs_of (plan_run sha new_job (compute_diff sha ds live0) ?l) c' m = jobs_of ?l c' m"
    if "(c', m) \<notin> deployment_key sha ` set ds" for c' m
    using IH Cons.prems(2,3) that by simp
  have first: "jobs_of live c n = jobs_of live0 c n" using Cons.prems(4) k by simp
  show ?case unfolding run
  proof (intro conjI allI impI ballI)
    fix c' m assume "(c', m) \<notin> deployment_key sha ` set (d # ds)"
    then show "jobs_of (plan_run sha new_job (compute_diff sha ds live0) ?l) c' m = jobs_of live c' m"
      using IH1 [of c' m] frame [of c' m] k by simp
  next
    fix d' assume d': "d' \<in> set (d # ds)"
    show "case deployment_key sha d' of (c, n) \<Rightarrow>
        int (length (jobs_of (plan_run sha new_job (compute_diff sha ds live0) ?l) c n)) = deployment_replicas d'
        \<and> (deployment_replicas d' \<le> int (length (jobs_of live0 c n)) \<longrightarrow>
            set (jobs_of (plan_run sha new_job (compute_diff sha ds live0) ?l) c n) \<subseteq> set (jobs_of live0 c n)
            \<and> (\<forall>x \<in> set (jobs_of (plan_run sha new_job (compute_diff sha ds live0) ?l) c n).
                 \<forall>y \<in> set (jobs_of live0 c n) - set (jobs_of (plan_run sha new_job (compute_diff sha ds live0) ?l) c n).
                  job_key x \<le> job_key y))"
    proof (cases "d' = d")
      case True
      then show ?thesis unfolding True k prod.case IH1 [OF fresh] using e(2) first by (simp add: settled_entry_def)
    next
      case False
      then show ?thesis using IH d' Cons.prems(2,3) by simp
    qed
  qed
qed
section \<open>Properties\<close>

lemma fleet_converges_facts:
  assumes "unused_ids new_job" and "ids_ok live" and "distinct (map (deployment_key sha) desired)"
    and "\<forall>d \<in> set desired. 0 \<le> deployment_replicas d"
  defines "live' \<equiv> plan_run sha new_job (compute_diff sha desired live) live"
  shows "\<forall>d \<in> set desired. case deployment_key sha d of (c, n) \<Rightarrow>
      int (length (jobs_of live' c n)) = deployment_replicas d
      \<and> (deployment_replicas d \<le> int (length (jobs_of live c n)) \<longrightarrow>
          set (jobs_of live' c n) \<subseteq> set (jobs_of live c n)
          \<and> (\<forall>x \<in> set (jobs_of live' c n). \<forall>y \<in> set (jobs_of live c n) - set (jobs_of live' c n).
                job_key x \<le> job_key y))"
    and "(c, n) \<notin> deployment_key sha ` set desired \<Longrightarrow> jobs_of live' c n = jobs_of live c n"
    and "compute_diff sha desired live' = []"
proof -
  have same: "\<forall>d \<in> set desired. case deployment_key sha d of (c, n) \<Rightarrow> jobs_of live c n = jobs_of live c n"
    by (simp split: prod.split)
  note F = plan_fleet [OF assms(1-4) same, folded live'_def]
  from F show 1: "\<forall>d \<in> set desired. case deployment_key sha d of (c, n) \<Rightarrow>
      int (length (jobs_of live' c n)) = deployment_replicas d
      \<and> (deployment_replicas d \<le> int (length (jobs_of live c n)) \<longrightarrow>
          set (jobs_of live' c n) \<subseteq> set (jobs_of live c n)
          \<and> (\<forall>x \<in> set (jobs_of live' c n). \<forall>y \<in> set (jobs_of live c n) - set (jobs_of live' c n).
                job_key x \<le> job_key y))" by (rule conjunct2)
  show "jobs_of live' c n = jobs_of live c n" if "(c, n) \<notin> deployment_key sha ` set desired"
    using conjunct1 [OF F] that by blast
  have "diff_one sha live' d = []" if "d \<in> set desired" for d
    using bspec [OF 1 that] by (cases d) (simp add: diff_one_def jobs_of_def Let_def)
  then show "compute_diff sha desired live' = []" by (simp add: compute_diff_def)
qed


definition toy_job :: "string \<Rightarrow> string \<Rightarrow> job" where
  "toy_job i n = \<lparr>job_id = i, job_name = n, job_state = [], job_elapsed = [], job_time_limit = [], job_node = []\<rparr>"

definition toy_new_job :: "string \<Rightarrow> job list \<Rightarrow> job" where
  "toy_new_job c js = toy_job (concat (map job_id js) @ ''1'') []"

lemma toy_unused: "unused_ids toy_new_job"
proof -
  have "length (job_id j) \<le> length (concat (map job_id js))" if "j \<in> set js" for j js
    using that by (induction js) auto
  then have "job_id j \<noteq> concat (map job_id js) @ ''1''" if "j \<in> set js" for j js
    using that by fastforce
  then show ?thesis by (force simp: unused_ids_def toy_new_job_def toy_job_def)
qed

text \<open>The hash covers the command and the preset without a separator, so different deployments can share
  their jobs.\<close>

lemma job_identity_ambiguous: "job_identity sha backend (cmd @ s) preset = job_identity sha backend cmd (s @ preset)"
  by (simp add: job_identity_def)

text \<open>A failed listing counts as a cluster without jobs: every replica is deployed again.\<close>

lemma failed_listing_redeploys:
  assumes "code \<noteq> 0"
  shows "diff_one sha [(c, parse_jobs (out, err, code))] (c, b, cmd, p, r) =
    replicate (nat r) \<lparr>act_kind = Deploy, act_cluster = c, act_backend = b, act_cmd = cmd, act_preset = p, act_job_id = None\<rparr>"
  using assms by (simp add: diff_one_def parse_jobs_def matching_jobs_def dict_get_default_def excess_jobs_def)

text \<open>Two entries for the same jobs are never both satisfied: the plan alternates between one deployment and
  one cancellation.\<close>

lemma duplicate_entries_alternate:
  fixes sha c b cmd p
  defines "desired \<equiv> [(c, b, cmd, p, 1), (c, b, cmd, p, 2)]" and "n \<equiv> job_identity sha b cmd p"
  shows "map act_kind (compute_diff sha desired [(c, [toy_job ''1'' n])]) = [Deploy]"
    and "map act_kind (compute_diff sha desired [(c, [toy_job ''1'' n, toy_job ''2'' n])]) = [Cancel]"
  by (simp_all add: desired_def n_def compute_diff_def diff_one_def matching_jobs_def dict_get_default_def
      toy_job_def excess_jobs_def)

end
