(* ===== verification/Net_Profiler.thy ===== *)
theory Net_Profiler
  imports Io Json
begin

text \<open>
  The network profiler (\<open>contrib/network-profiler/network_profiler\<close>): its configuration
  (\<open>model.py\<close>, \<open>bench_config.py\<close>), the runner of remote commands (\<open>remote.py\<close>), direct
  measurements (\<open>measure.py\<close>) and the benchmark of a temporary network of nodes
  (\<open>bench.py\<close>).

  The phases are written over the runner, the clock and the pause they are given, as in the code, where
  the runner is an argument. YAML, base64, \<open>shlex\<close> and \<open>str.format\<close> are arguments too. Text is
  ASCII. The loops that wait for a node take the number of rounds as a bound; \<open>Net_Bench_Inv\<close> shows how
  many are enough when a pause of a second lasts a second.
\<close>

section \<open>Machines and configuration\<close>

record machine =
  mc_name :: string
  mc_address :: string
  mc_rcc_host :: string
  mc_http_port :: "int option"
  mc_libp2p_port :: "int option"
  mc_bootstrap_extra :: "string list"

record profiler_config =
  pf_machines :: "machine list"
  pf_remote_command :: "pyval list option"
  pf_ping_count :: int
  pf_iperf_seconds :: int
  pf_iperf_port :: int
  pf_connect_timeout :: int

text \<open>
  \<open>load_config\<close>. \<open>str\<close> of a value that is not a string, a number or a constant is an argument.
  A port is an integer or null, and the extra bootstrap addresses are strings, as the annotations of
  \<open>Machine\<close> say; the model refuses other documents.
\<close>

definition port_val :: "pyval \<Rightarrow> int option res" where
  "port_val v = (case v of PInt i \<Rightarrow> Inr (Some i) | PNone \<Rightarrow> Inr None | _ \<Rightarrow> Inl (TypeError ''port''))"

definition string_val :: "pyval \<Rightarrow> string res" where
  "string_val v = (case v of PStr s \<Rightarrow> Inr s | _ \<Rightarrow> Inl (TypeError ''string''))"

definition load_machine :: "(pyval \<Rightarrow> string) \<Rightarrow> pyval \<Rightarrow> machine res" where
  "load_machine other item =
     rbind (py_item item ''name'') (\<lambda>name.
     rbind (py_get item ''address'' name) (\<lambda>address.
     rbind (py_get item ''rcc_host'' name) (\<lambda>rcc_host.
     rbind (rbind (py_get item ''http_port'' PNone) port_val) (\<lambda>http_port.
     rbind (rbind (py_get item ''libp2p_port'' PNone) port_val) (\<lambda>libp2p_port.
     rbind (rbind (rbind (py_get item ''bootstrap_extra'' (PList [])) py_list_val) (map_res string_val)) (\<lambda>extra.
       Inr \<lparr>mc_name = py_str_val other name, mc_address = py_str_val other address,
            mc_rcc_host = py_str_val other rcc_host, mc_http_port = http_port,
            mc_libp2p_port = libp2p_port, mc_bootstrap_extra = extra\<rparr>))))))"

definition load_profile :: "(pyval \<Rightarrow> string) \<Rightarrow> pyval \<Rightarrow> profiler_config res" where
  "load_profile other raw =
     rbind (rbind (rbind (py_item raw ''machines'') py_list_val) (map_res (load_machine other))) (\<lambda>machines.
     if \<not> distinct (map mc_name machines) then Inl (ValueError ''machine names must be unique'')
     else
       rbind (py_get raw ''remote_command'' PNone) (\<lambda>rc.
       rbind (case rc of
                PNone \<Rightarrow> Inr None
              | PList parts \<Rightarrow> Inr (Some parts)
              | _ \<Rightarrow> Inl (ValueError ''remote_command must be a JSON array of command arguments'')) (\<lambda>remote_command.
       rbind (rbind (py_get raw ''ping_count'' (PInt 5)) py_int_val) (\<lambda>ping_count.
       rbind (rbind (py_get raw ''iperf_seconds'' (PInt 5)) py_int_val) (\<lambda>iperf_seconds.
       rbind (rbind (py_get raw ''iperf_port'' (PInt 5201)) py_int_val) (\<lambda>iperf_port.
       rbind (rbind (py_get raw ''connect_timeout_seconds'' (PInt 10)) py_int_val) (\<lambda>connect_timeout.
         Inr \<lparr>pf_machines = machines, pf_remote_command = remote_command, pf_ping_count = ping_count,
              pf_iperf_seconds = iperf_seconds, pf_iperf_port = iperf_port,
              pf_connect_timeout = connect_timeout\<rparr>)))))))"

text \<open>\<open>bench_config.py\<close>: the configuration of one node. \<open>x or y\<close> takes the default for a port of zero.\<close>

definition is_ipv4 :: "string \<Rightarrow> bool" where
  "is_ipv4 s =
     (let t = (if s \<noteq> [] \<and> last s = CHR 0x0A then butlast s else s);
          parts = split_on CHR ''.'' t
      in length parts = 4 \<and> list_all (\<lambda>p. p \<noteq> [] \<and> list_all is_digit p) parts)"

definition build_multiaddr :: "machine \<Rightarrow> int \<Rightarrow> string \<Rightarrow> string" where
  "build_multiaddr m libp2p_port peer_id =
     (if is_ipv4 (mc_address m) then ''/ip4/'' else ''/dns4/'')
       @ mc_address m @ ''/tcp/'' @ str_int libp2p_port @ ''/p2p/'' @ peer_id"

definition port_or :: "int option \<Rightarrow> int \<Rightarrow> int" where
  "port_or p d = (case p of Some i \<Rightarrow> if i = 0 then d else i | None \<Rightarrow> d)"

definition build_host_config ::
  "machine \<Rightarrow> machine list \<Rightarrow> string pydict \<Rightarrow> string \<Rightarrow> int \<Rightarrow> int \<Rightarrow> string list \<Rightarrow> pyval res" where
  "build_host_config self machines peer_ids run_id http_port libp2p_port extra_bootstraps =
     (let http = port_or (mc_http_port self) http_port; tcp = port_or (mc_libp2p_port self) libp2p_port in
      rbind (map_res (\<lambda>m. rbind (dict_get peer_ids (mc_name m)) (\<lambda>pid.
               Inr (build_multiaddr m (port_or (mc_libp2p_port m) libp2p_port) pid)))
             (filter (\<lambda>m. mc_name m \<noteq> mc_name self) machines)) (\<lambda>bootstrap.
        Inr (PDict
          [(''port'', PStr (str_int http)), (''tcpport'', PStr (str_int tcp)), (''udpport'', PStr (str_int (tcp + 1))),
           (''cleanslate'', PBool True), (''reachability'', PStr ''auto''),
           (''bootstrap'', PDict [(''static'', PList (map PStr (bootstrap @ extra_bootstraps @ mc_bootstrap_extra self)))]),
           (''security'', PDict [(''require_signed_binary'', PBool False)]),
           (''scalability'', PDict [(''swim_enabled'', PBool False), (''crdt_tuned'', PBool False),
                                    (''weighted_routing'', PBool False)]),
           (''billing'', PDict [(''enabled'', PBool False)]), (''bench'', PDict [(''run_id'', PStr run_id)])])))"

section \<open>Remote commands\<close>

record cmd_result =
  rc_command :: string
  rc_returncode :: int
  rc_stdout :: string
  rc_stderr :: string

type_synonym 's runner = "machine \<Rightarrow> string \<Rightarrow> int \<Rightarrow> string option \<Rightarrow> ('s, cmd_result) io"

text \<open>
  \<open>RemoteRunner\<close>. \<open>fmt\<close> is \<open>str.format\<close> with the four fields, \<open>split\<close> and \<open>join\<close> are
  those of \<open>shlex\<close>, \<open>exec\<close> is \<open>subprocess.run\<close> with decoded output.
\<close>

definition format_fields :: "machine \<Rightarrow> string \<Rightarrow> string pydict" where
  "format_fields m command =
     [(''host'', mc_rcc_host m), (''name'', mc_name m), (''address'', mc_address m), (''command'', command)]"

definition default_template :: "string list" where
  "default_template =
     [''remote-cluster-controller'', ''exec'', ''--host'', ''{host}'', ''--'', ''bash'', ''-lc'', ''{command}'']"

definition build_args ::
  "(string \<Rightarrow> string pydict \<Rightarrow> string res) \<Rightarrow> (string \<Rightarrow> string list res) \<Rightarrow> (pyval \<Rightarrow> string) \<Rightarrow> string option \<Rightarrow>
     profiler_config \<Rightarrow> machine \<Rightarrow> string \<Rightarrow> string list res" where
  "build_args fmt split other env_template cfg m command =
     rbind (case pf_remote_command cfg of
              Some parts \<Rightarrow> Inr (map (py_str_val other) parts)
            | None \<Rightarrow>
                (case env_template of
                   Some t \<Rightarrow> if t = [] then Inr default_template else split t
                 | None \<Rightarrow> Inr default_template))
       (map_res (\<lambda>part. fmt part (format_fields m command)))"

definition remote_run ::
  "(string \<Rightarrow> string pydict \<Rightarrow> string res) \<Rightarrow> (string \<Rightarrow> string list res) \<Rightarrow> (string list \<Rightarrow> string) \<Rightarrow> (pyval \<Rightarrow> string) \<Rightarrow>
     string option \<Rightarrow> (string list \<Rightarrow> int \<Rightarrow> string option \<Rightarrow> ('s, int \<times> string \<times> string) io) \<Rightarrow>
     profiler_config \<Rightarrow> bool \<Rightarrow> 's runner" where
  "remote_run fmt split join other env_template exec cfg dry_run m command timeout stdin =
     io_bind (io_res (build_args fmt split other env_template cfg m command)) (\<lambda>args.
       if dry_run then
         io_return \<lparr>rc_command = join args, rc_returncode = 0, rc_stdout = join args @ [CHR 0x0A], rc_stderr = []\<rparr>
       else
         io_bind (exec args timeout stdin) (\<lambda>(code, out, err).
           io_return \<lparr>rc_command = join args, rc_returncode = code, rc_stdout = out, rc_stderr = err\<rparr>))"

text \<open>\<open>result.stderr or result.stdout\<close>\<close>

definition error_text :: "cmd_result \<Rightarrow> string" where
  "error_text r = (if rc_stderr r \<noteq> [] then rc_stderr r else rc_stdout r)"
section \<open>Direct measurements\<close>

text \<open>\<open>PING_RE.search\<close>: the first place in the output where the summary line starts.\<close>

definition after_prefix :: "string \<Rightarrow> string \<Rightarrow> string option" where
  "after_prefix p s = (if py_startswith s p then Some (drop (length p) s) else None)"

definition number_char :: "char \<Rightarrow> bool" where
  "number_char c \<longleftrightarrow> is_digit c \<or> c = CHR ''.''"

definition number_before :: "string \<Rightarrow> string \<Rightarrow> (string \<times> string) option" where
  "number_before sep s =
     (if takeWhile number_char s = [] then None
      else map_option (Pair (takeWhile number_char s)) (after_prefix sep (dropWhile number_char s)))"

definition ping_match :: "string \<Rightarrow> (string \<times> string \<times> string \<times> string) option" where
  "ping_match s =
     Option.bind (after_prefix ''rtt min/avg/max/'' s) (\<lambda>s1.
     Option.bind (case after_prefix ''mdev = '' s1 of Some t \<Rightarrow> Some t | None \<Rightarrow> after_prefix ''stddev = '' s1) (\<lambda>s2.
     Option.bind (number_before ''/'' s2) (\<lambda>(mn, s3).
     Option.bind (number_before ''/'' s3) (\<lambda>(avg, s4).
     Option.bind (number_before ''/'' s4) (\<lambda>(mx, s5).
     Option.bind (number_before '' ms'' s5) (\<lambda>(jitter, _).
       Some (mn, avg, mx, jitter)))))))"

fun ping_search :: "string \<Rightarrow> (string \<times> string \<times> string \<times> string) option" where
  "ping_search [] = None"
| "ping_search (c # cs) = (case ping_match (c # cs) of Some m \<Rightarrow> Some m | None \<Rightarrow> ping_search cs)"

definition parse_ping :: "string \<Rightarrow> pyval option res" where
  "parse_ping out =
     (case ping_search out of
        None \<Rightarrow> Inr None
      | Some (mn, avg, mx, jitter) \<Rightarrow>
          rbind (map_res (\<lambda>(k, v). rbind (py_float_str v) (\<lambda>x. Inr (k, PFloat x)))
                  [(''min'', mn), (''avg'', avg), (''max'', mx), (''jitter'', jitter)])
            (\<lambda>d. Inr (Some (PDict d))))"

definition parse_iperf :: "string \<Rightarrow> pyval option res" where
  "parse_iperf out =
     (case json_loads out of
        Inl e \<Rightarrow> if e = json_error then Inr None else Inl e
      | Inr data \<Rightarrow>
          rbind (py_get data ''end'' (PDict [])) (\<lambda>fin.
          rbind (py_get fin ''sum_received'' PNone) (\<lambda>received.
          rbind (if py_truthy received then Inr received
                 else rbind (py_get fin ''sum'' PNone) (\<lambda>sm.
                      if py_truthy sm then Inr sm else py_get fin ''sum_sent'' PNone)) (\<lambda>summary.
            if \<not> py_truthy summary then Inr None
            else
              rbind (rbind (py_get summary ''bits_per_second'' (PFloat 0)) py_float_val) (\<lambda>bits.
              rbind (rbind (py_get summary ''seconds'' (PFloat 0)) py_float_val) (\<lambda>seconds.
              rbind (rbind (py_get summary ''bytes'' (PFloat 0)) py_float_val) (\<lambda>bytes.
                Inr (Some (PDict [(''mbps'', PFloat (bits / 1000000)), (''seconds'', PFloat seconds),
                                  (''bytes'', PFloat bytes)])))))))))"

definition measurement_record ::
  "string \<Rightarrow> string \<Rightarrow> machine \<Rightarrow> machine \<Rightarrow> bool \<Rightarrow> string \<Rightarrow> pyval option \<Rightarrow> pyval \<Rightarrow> pyval" where
  "measurement_record stamp kind source target ok command metrics err =
     PDict [(''timestamp'', PStr stamp), (''kind'', PStr kind), (''source'', PStr (mc_name source)),
            (''target'', PStr (mc_name target)), (''target_address'', PStr (mc_address target)),
            (''ok'', PBool ok), (''metrics'', case metrics of Some m \<Rightarrow> m | None \<Rightarrow> PDict []),
            (''error'', err), (''command'', PStr command)]"

definition iter_pairs :: "machine list \<Rightarrow> (machine \<times> machine) list" where
  "iter_pairs machines = concat (map (\<lambda>s. map (Pair s) (filter (\<lambda>t. s \<noteq> t) machines)) machines)"

definition stripped_error :: "cmd_result \<Rightarrow> pyval" where
  "stripped_error r = PStr (if py_strip (rc_stderr r) \<noteq> [] then py_strip (rc_stderr r) else py_strip (rc_stdout r))"

text \<open>
  The record of one command: successful when the command was and its output could be read. \<open>stamp\<close> is
  the current time as text, \<open>output\<close> appends a record to the file (\<open>append_jsonl\<close>). The records
  written are returned too.
\<close>

definition append_record :: "(pyval \<Rightarrow> ('s, unit) io) \<Rightarrow> pyval \<Rightarrow> ('s, pyval) io" where
  "append_record output record = io_bind (output record) (\<lambda>_. io_return record)"

definition result_record ::
  "('s, string) io \<Rightarrow> (pyval \<Rightarrow> ('s, unit) io) \<Rightarrow> (string \<Rightarrow> pyval option res) \<Rightarrow> string \<Rightarrow> machine \<Rightarrow> machine \<Rightarrow>
     cmd_result \<Rightarrow> ('s, pyval) io" where
  "result_record stamp output parse kind source target r =
     io_bind (io_res (parse (rc_stdout r))) (\<lambda>metrics.
     io_bind stamp (\<lambda>t.
       append_record output
         (measurement_record t kind source target (rc_returncode r = 0 \<and> metrics \<noteq> None) (rc_command r)
            metrics (if rc_returncode r = 0 then PNone else stripped_error r))))"

definition collect_pair ::
  "'s runner \<Rightarrow> ('s, string) io \<Rightarrow> (pyval \<Rightarrow> ('s, unit) io) \<Rightarrow> ('s, unit) io \<Rightarrow> (string \<Rightarrow> string) \<Rightarrow> profiler_config \<Rightarrow>
     bool \<Rightarrow> machine \<times> machine \<Rightarrow> ('s, pyval list) io" where
  "collect_pair run stamp output nap quote cfg include_iperf pair =
     (case pair of (source, target) \<Rightarrow>
        io_bind (run source (''ping -c '' @ str_int (pf_ping_count cfg) @ '' -W '' @ str_int (pf_connect_timeout cfg) @ '' ''
                   @ quote (mc_address target))
                  (pf_connect_timeout cfg * pf_ping_count cfg + 10) None) (\<lambda>ping.
        io_bind (result_record stamp output parse_ping ''ping'' source target ping) (\<lambda>ping_record.
          if \<not> include_iperf then io_return [ping_record]
          else
            io_bind (run target (''nohup iperf3 -s -1 -p '' @ str_int (pf_iperf_port cfg)
                       @ '' >/tmp/network-profiler-iperf3.log 2>&1 &'') (pf_connect_timeout cfg) None) (\<lambda>server.
              if rc_returncode server \<noteq> 0 then
                io_bind stamp (\<lambda>t.
                io_bind (append_record output (measurement_record t ''iperf3'' source target False (rc_command server) None
                           (stripped_error server))) (\<lambda>server_record.
                  io_return [ping_record, server_record]))
              else
                io_bind nap (\<lambda>_.
                io_bind (run source (''iperf3 -J -c '' @ quote (mc_address target) @ '' -p '' @ str_int (pf_iperf_port cfg)
                           @ '' -t '' @ str_int (pf_iperf_seconds cfg))
                          (pf_iperf_seconds cfg + pf_connect_timeout cfg + 10) None) (\<lambda>iperf.
                io_bind (result_record stamp output parse_iperf ''iperf3'' source target iperf) (\<lambda>iperf_record.
                  io_return [ping_record, iperf_record])))))))"

definition collect ::
  "'s runner \<Rightarrow> ('s, string) io \<Rightarrow> (pyval \<Rightarrow> ('s, unit) io) \<Rightarrow> ('s, unit) io \<Rightarrow> (string \<Rightarrow> string) \<Rightarrow> profiler_config \<Rightarrow>
     bool \<Rightarrow> ('s, pyval list) io" where
  "collect run stamp output nap quote cfg include_iperf =
     io_bind (io_for (collect_pair run stamp output nap quote cfg include_iperf) (iter_pairs (pf_machines cfg)))
       (\<lambda>rss. io_return (concat rss))"

section \<open>Phases of the benchmark\<close>

definition dict_of :: "(string \<times> 'v) list \<Rightarrow> 'v pydict" where
  "dict_of kvs = foldl (\<lambda>d (k, v). dict_set k v d) [] kvs"

definition bench_dir :: "string \<Rightarrow> string \<Rightarrow> string" where
  "bench_dir run_id host = ''/tmp/otela-bench-'' @ run_id @ ''-'' @ host"

text \<open>A command of a phase that must succeed.\<close>

definition phase_command :: "'s runner \<Rightarrow> string \<Rightarrow> machine \<Rightarrow> string \<Rightarrow> int \<Rightarrow> string option \<Rightarrow> ('s, cmd_result) io" where
  "phase_command run failure m cmd timeout stdin =
     io_bind (run m cmd timeout stdin) (\<lambda>r.
       if rc_returncode r \<noteq> 0 then io_raise (RuntimeError (failure @ mc_name m @ '': '' @ error_text r))
       else io_return r)"

definition phase_init :: "'s runner \<Rightarrow> machine list \<Rightarrow> string \<Rightarrow> ('s, string pydict) io" where
  "phase_init run machines run_id =
     io_bind (io_for (\<lambda>m. let d = bench_dir run_id (mc_name m) in
                io_bind (phase_command run ''phase_init failed on '' m
                           (''mkdir -p '' @ d @ '' && otela init --config-dir '' @ d) 60 None) (\<lambda>r.
                  io_return (mc_name m, rc_command r))) machines)
       (\<lambda>kvs. io_return (dict_of kvs))"

definition phase_discover :: "'s runner \<Rightarrow> machine list \<Rightarrow> string \<Rightarrow> ('s, string pydict) io" where
  "phase_discover run machines run_id =
     io_bind (io_for (\<lambda>m.
                io_bind (phase_command run ''phase_discover failed on '' m
                           (''otela peer-id --config-dir '' @ bench_dir run_id (mc_name m)) 30 None) (\<lambda>r.
                  if py_strip (rc_stdout r) = []
                  then io_raise (RuntimeError (''phase_discover got empty peer-id from '' @ mc_name m))
                  else io_return (mc_name m, py_strip (rc_stdout r)))) machines)
       (\<lambda>kvs. io_return (dict_of kvs))"

text \<open>\<open>encode\<close> is the base64 text of the YAML document.\<close>

definition phase_configure_and_push ::
  "(pyval \<Rightarrow> string) \<Rightarrow> 's runner \<Rightarrow> machine list \<Rightarrow> string pydict \<Rightarrow> string \<Rightarrow> int \<Rightarrow> int \<Rightarrow> string list \<Rightarrow> ('s, string pydict) io" where
  "phase_configure_and_push encode run machines peer_ids run_id http_port libp2p_port extra =
     io_bind (io_for (\<lambda>m. let d = bench_dir run_id (mc_name m); cfg_path = d @ ''/cfg.yaml'' in
                io_bind (io_res (build_host_config m machines peer_ids run_id http_port libp2p_port extra)) (\<lambda>cfg.
                io_bind (phase_command run ''phase_configure_and_push failed on '' m
                           (''mkdir -p '' @ d @ '' && base64 -d > '' @ cfg_path) 30 (Some (encode cfg))) (\<lambda>r.
                  io_return (mc_name m, cfg_path)))) machines)
       (\<lambda>kvs. io_return (dict_of kvs))"
definition health_check :: "'s runner \<Rightarrow> ('s, real) io \<Rightarrow> machine \<Rightarrow> int \<Rightarrow> real \<Rightarrow> int \<Rightarrow> ('s, unit option) io" where
  "health_check run clock m port deadline max_wait_s =
     io_bind (run m (''curl -fsS http://127.0.0.1:'' @ str_int port @ ''/v1/health'') 30 None) (\<lambda>health.
       if rc_returncode health = 0 then io_return (Some ())
       else
         io_bind clock (\<lambda>now.
           if now > deadline
           then io_raise (RuntimeError (''phase_start: '' @ mc_name m @ '' did not become healthy within ''
                  @ str_int max_wait_s @ ''s''))
           else io_return None))"

definition phase_start ::
  "nat \<Rightarrow> 's runner \<Rightarrow> ('s, real) io \<Rightarrow> ('s, unit) io \<Rightarrow> machine list \<Rightarrow> string \<Rightarrow> int \<Rightarrow> int \<Rightarrow> ('s, unit) io" where
  "phase_start polls run clock nap machines run_id http_port max_wait_s =
     io_bind (io_for (\<lambda>m. let d = bench_dir run_id (mc_name m) in
                io_bind (run m (''nohup otela start --config '' @ d @ ''/cfg.yaml --config-dir '' @ d @ '' >>'' @ d
                           @ ''/log 2>&1 &'') 30 None) (\<lambda>r.
                  if rc_returncode r \<noteq> 0
                  then io_raise (RuntimeError (''phase_start could not launch on '' @ mc_name m @ '': '' @ rc_stderr r))
                  else io_return ())) machines) (\<lambda>_.
     io_bind (io_for (\<lambda>m.
                io_bind clock (\<lambda>now.
                  wait_loop (health_check run clock m (port_or (mc_http_port m) http_port) (now + of_int max_wait_s) max_wait_s)
                    nap polls))
              machines)
       (\<lambda>_. io_return ()))"

text \<open>\<open>_extract_peer_ids\<close>: the strings in a document that look like peer identities.\<close>

function (sequential) peer_ids_in :: "pyval \<Rightarrow> string list" where
  "peer_ids_in (PDict d) = concat (map (\<lambda>kv. peer_ids_in (snd kv)) d)"
| "peer_ids_in (PList xs) = concat (map peer_ids_in xs)"
| "peer_ids_in (PStr s) = (if py_startswith s ''12D3'' \<or> py_startswith s ''Qm'' then [s] else [])"
| "peer_ids_in _ = []"
  by pat_completeness auto
termination
  by (relation "measure size") (auto simp: size_in_list size_in_dict)

definition extract_peer_ids :: "string \<Rightarrow> string list res" where
  "extract_peer_ids text =
     (case json_loads text of
        Inl e \<Rightarrow> if e = json_error then Inr [] else Inl e
      | Inr data \<Rightarrow> Inr (peer_ids_in data))"

definition table_complete :: "string pydict \<Rightarrow> machine \<Rightarrow> cmd_result \<Rightarrow> bool res" where
  "table_complete peer_ids m tbl =
     (if rc_returncode tbl \<noteq> 0 then Inr False
      else
        rbind (extract_peer_ids (rc_stdout tbl)) (\<lambda>seen.
        rbind (dict_get peer_ids (mc_name m)) (\<lambda>own.
          Inr (set (map snd peer_ids) - {own} \<subseteq> set seen))))"

definition converge_check ::
  "'s runner \<Rightarrow> ('s, real) io \<Rightarrow> string pydict \<Rightarrow> machine \<Rightarrow> int \<Rightarrow> real \<Rightarrow> ('s, bool option) io" where
  "converge_check run clock peer_ids m port deadline =
     io_bind clock (\<lambda>now.
       if now \<le> deadline then
         io_bind (run m (''curl -s http://127.0.0.1:'' @ str_int port @ ''/v1/dnt/table'') 30 None) (\<lambda>tbl.
         io_bind (io_res (table_complete peer_ids m tbl)) (\<lambda>complete.
           io_return (if complete then Some True else None)))
       else io_return (Some False))"

definition phase_converge ::
  "nat \<Rightarrow> 's runner \<Rightarrow> ('s, real) io \<Rightarrow> ('s, unit) io \<Rightarrow> machine list \<Rightarrow> string pydict \<Rightarrow> int \<Rightarrow> int \<Rightarrow> ('s, (bool \<times> real) pydict) io" where
  "phase_converge polls run clock nap machines peer_ids http_port max_wait_s =
     io_bind (io_for (\<lambda>m.
                io_bind clock (\<lambda>t0.
                io_bind clock (\<lambda>start_t.
                io_bind (wait_loop (converge_check run clock peer_ids m (port_or (mc_http_port m) http_port)
                                      (t0 + of_int max_wait_s)) nap polls) (\<lambda>complete.
                io_bind clock (\<lambda>now.
                  io_return (mc_name m, complete, py_round2 (now - start_t))))))) machines)
       (\<lambda>kvs. io_return (dict_of kvs))"

text \<open>
  \<open>phase_punch\<close>: the outcome for every ordered pair of machines. \<open>show\<close> is the text of an
  exception, \<open>fl\<close> that of a float in JSON.
\<close>

definition ordered_pairs :: "machine list \<Rightarrow> (machine \<times> machine) list" where
  "ordered_pairs machines =
     concat (map (\<lambda>s. map (Pair s) (filter (\<lambda>t. mc_name t \<noteq> mc_name s) machines)) machines)"

definition punch_entry :: "(py_exn \<Rightarrow> string) \<Rightarrow> cmd_result \<Rightarrow> pyval pydict" where
  "punch_entry show r =
     (let entry = [(''connectedness'', PStr ''Unknown''), (''attempts'', PInt 0), (''ok'', PBool False)] in
      if rc_returncode r \<noteq> 0 then dict_set ''error'' (PStr (take 200 (py_strip (error_text r)))) entry
      else
        (case rbind (json_loads (py_strip (rc_stdout r))) (\<lambda>parsed.
                rbind (py_get parsed ''connectedness'' (PStr ''Unknown'')) (\<lambda>c.
                rbind (py_get parsed ''attempts'' (PInt 0)) (\<lambda>a.
                rbind (py_get parsed ''ok'' (PBool False)) (\<lambda>ok.
                rbind (py_get parsed ''last_error'' PNone) (\<lambda>last_error.
                  Inr ([(''connectedness'', c), (''attempts'', a), (''ok'', ok)]
                       @ (if py_truthy last_error then [(''last_error'', last_error)] else []))))))) of
           Inl e \<Rightarrow> dict_set ''error'' (PStr (''parse: '' @ show e)) entry
         | Inr d \<Rightarrow> d))"

definition punch_command :: "(real \<Rightarrow> string) \<Rightarrow> int \<Rightarrow> string \<Rightarrow> int \<Rightarrow> int \<Rightarrow> int \<Rightarrow> string" where
  "punch_command fl port target attempts wait_ms timeout_ms =
     (let body = json_dumps fl '', '' '': '' (PDict [(''target'', PStr target), (''attempts'', PInt attempts),
                   (''wait_ms'', PInt wait_ms), (''timeout_ms'', PInt timeout_ms)])
      in ''curl -fsS -m '' @ str_int (timeout_ms div 1000 + 5) @ '' -H 'Content-Type: application/json' -X POST -d ''
         @ json_dumps fl '', '' '': '' (PStr body) @ '' http://127.0.0.1:'' @ str_int port @ ''/v1/probe/holepunch'')"

definition phase_punch ::
  "(py_exn \<Rightarrow> string) \<Rightarrow> (real \<Rightarrow> string) \<Rightarrow> 's runner \<Rightarrow> machine list \<Rightarrow> string pydict \<Rightarrow> int \<Rightarrow> int \<Rightarrow> int \<Rightarrow> int \<Rightarrow>
     ('s, pyval pydict pydict) io" where
  "phase_punch show fl run machines peer_ids http_port attempts wait_ms timeout_ms =
     io_bind (io_for (\<lambda>(src, dst).
                io_bind (io_res (dict_get peer_ids (mc_name dst))) (\<lambda>target.
                io_bind (run src (punch_command fl (port_or (mc_http_port src) http_port) target attempts wait_ms timeout_ms)
                           (timeout_ms div 1000 + 10) None) (\<lambda>r.
                  io_return (mc_name src @ ''->'' @ mc_name dst, punch_entry show r)))) (ordered_pairs machines))
       (\<lambda>kvs. io_return (dict_of kvs))"

text \<open>\<open>_build_record\<close>: the last line of the output is the answer of the probe.\<close>

definition line_break :: "char \<Rightarrow> bool" where
  "line_break c \<longleftrightarrow> (let n = (of_char c :: nat) in 10 \<le> n \<and> n \<le> 13 \<or> 28 \<le> n \<and> n \<le> 30)"

definition last_line :: "string \<Rightarrow> string res" where
  "last_line out =
     (let s = py_strip out
      in if s = [] then Inl (IndexError ''list index out of range'')
         else Inr (rev (takeWhile (\<lambda>c. \<not> line_break c) (rev s))))"

definition probe_answer :: "cmd_result \<Rightarrow> pyval res" where
  "probe_answer r =
     (if rc_returncode r = 0 \<and> rc_stdout r \<noteq> [] then
        rbind (last_line (rc_stdout r)) (\<lambda>line.
          case json_loads line of Inl e \<Rightarrow> if e = json_error then Inr PNone else Inl e | Inr v \<Rightarrow> Inr v)
      else Inr PNone)"

record probe_record =
  pr_run_id :: string
  pr_timestamp :: string
  pr_kind :: string
  pr_source :: string
  pr_target :: string
  pr_source_peer :: string
  pr_target_peer :: string
  pr_ok :: bool
  pr_count :: int
  pr_bytes :: "int option"
  pr_metrics :: pyval
  pr_error :: pyval
  pr_command :: string

definition build_record ::
  "string \<Rightarrow> machine \<Rightarrow> machine \<Rightarrow> string \<Rightarrow> string \<Rightarrow> string \<Rightarrow> int \<Rightarrow> int \<Rightarrow> string \<Rightarrow> cmd_result \<Rightarrow> probe_record res" where
  "build_record stamp src dst src_peer dst_peer kind cnt nbytes run_id r =
     rbind (probe_answer r) (\<lambda>parsed.
     rbind (if py_truthy parsed then rbind (py_get parsed ''ok'' PNone) (\<lambda>v. Inr (py_truthy v)) else Inr False) (\<lambda>ok.
     rbind (if ok then py_get parsed ''metrics'' (PDict []) else Inr (PDict [])) (\<lambda>metrics.
     rbind (if ok then Inr PNone
            else if py_truthy parsed then py_get parsed ''error'' PNone
            else Inr (PStr (if error_text r \<noteq> [] then error_text r else ''no output''))) (\<lambda>err.
       Inr \<lparr>pr_run_id = run_id, pr_timestamp = stamp, pr_kind = kind, pr_source = mc_name src, pr_target = mc_name dst,
            pr_source_peer = src_peer, pr_target_peer = dst_peer, pr_ok = ok, pr_count = cnt,
            pr_bytes = (if kind = ''throughput'' then Some nbytes else None), pr_metrics = metrics, pr_error = err,
            pr_command = rc_command r\<rparr>))))"

text \<open>\<open>phase_sweep\<close>: every kind of probe for every ordered pair. A record is appended to the output file as soon as it is made.\<close>

definition sweep_probe ::
  "'s runner \<Rightarrow> ('s, string) io \<Rightarrow> (probe_record \<Rightarrow> ('s, unit) io) \<Rightarrow> string pydict \<Rightarrow> string \<Rightarrow> (string \<times> int \<times> int) \<times> machine \<times> machine \<Rightarrow> ('s, probe_record) io" where
  "sweep_probe run stamp output peer_ids run_id probe =
     (case probe of ((kind, cnt, nbytes), src, dst) \<Rightarrow>
        io_bind (io_res (dict_get peer_ids (mc_name dst))) (\<lambda>dst_peer.
        io_bind (run src (''otela probe --target '' @ dst_peer @ '' --kind '' @ kind @ '' --count '' @ str_int cnt
                   @ '' --bytes '' @ str_int nbytes @ '' --config '' @ bench_dir run_id (mc_name src) @ ''/cfg.yaml'')
                  (cnt * 5 + nbytes div 1048576 + 60) None) (\<lambda>r.
        io_bind (io_res (dict_get peer_ids (mc_name src))) (\<lambda>src_peer.
        io_bind stamp (\<lambda>t.
        io_bind (io_res (build_record t src dst src_peer dst_peer kind cnt nbytes run_id r)) (\<lambda>record.
        io_bind (output record) (\<lambda>_. io_return record)))))))"

definition sweep_probes :: "(string \<times> int \<times> int) list \<Rightarrow> machine list \<Rightarrow> ((string \<times> int \<times> int) \<times> machine \<times> machine) list" where
  "sweep_probes kinds machines = concat (map (\<lambda>spec. map (Pair spec) (ordered_pairs machines)) kinds)"

definition phase_sweep ::
  "'s runner \<Rightarrow> ('s, string) io \<Rightarrow> (probe_record \<Rightarrow> ('s, unit) io) \<Rightarrow> machine list \<Rightarrow> string pydict \<Rightarrow> string \<Rightarrow>
     (string \<times> int \<times> int) list \<Rightarrow> ('s, nat \<times> nat) io" where
  "phase_sweep run stamp output machines peer_ids run_id kinds =
     io_bind (io_for (sweep_probe run stamp output peer_ids run_id) (sweep_probes kinds machines)) (\<lambda>recs.
       io_return (length (filter pr_ok recs), length (filter (\<lambda>r. \<not> pr_ok r) recs)))"

definition pkill_command :: "string \<Rightarrow> machine \<Rightarrow> string" where
  "pkill_command run_id m = ''pkill -f 'otela start --config '' @ bench_dir run_id (mc_name m) @ ''/cfg.yaml' || true''"

definition rm_command :: "string \<Rightarrow> machine \<Rightarrow> string" where
  "rm_command run_id m = ''rm -rf '' @ bench_dir run_id (mc_name m) @ '' || true''"

definition teardown_machine :: "'s runner \<Rightarrow> string \<Rightarrow> machine \<Rightarrow> ('s, cmd_result) io" where
  "teardown_machine run run_id m =
     io_bind (run m (pkill_command run_id m) 30 None) (\<lambda>_. run m (rm_command run_id m) 30 None)"

definition phase_teardown :: "'s runner \<Rightarrow> machine list \<Rightarrow> string \<Rightarrow> ('s, unit) io" where
  "phase_teardown run machines run_id = io_bind (io_for (teardown_machine run run_id) machines) (\<lambda>_. io_return ())"

section \<open>A run\<close>

text \<open>
  The world answers a command, makes it raise (a timeout, say), or interrupts the program while the
  command runs. \<open>bs_log\<close> records every command that was started and whether it was answered; no
  definition reads it. The other fields of the state are the output file and the variables that the
  nested functions of \<open>run_bench\<close> share.
\<close>

datatype run_outcome = Answered cmd_result | Failed py_exn | Interrupted

record 'w bench_env =
  be_run :: "machine \<Rightarrow> string \<Rightarrow> int \<Rightarrow> string option \<Rightarrow> 'w \<Rightarrow> run_outcome \<times> 'w"
  be_clock :: "'w \<Rightarrow> real \<times> 'w"
  be_nap :: "'w \<Rightarrow> 'w"
  be_stamp :: "'w \<Rightarrow> string \<times> 'w"
  be_encode :: "pyval \<Rightarrow> string"
  be_show :: "py_exn \<Rightarrow> string"
  be_float :: "real \<Rightarrow> string"

record 'w bench_state =
  bs_world :: 'w
  bs_log :: "(string \<times> string \<times> bool) list"
  bs_output :: "probe_record list"
  bs_timings :: "real pydict"
  bs_torn_down :: bool

record bench_options =
  bo_http_port :: int
  bo_libp2p_port :: int
  bo_latency_count :: int
  bo_throughput_count :: int
  bo_throughput_bytes :: int
  bo_keep :: bool
  bo_extra_bootstraps :: "string list"
  bo_polls :: nat

definition system_exit :: py_exn where
  "system_exit = OtherException ''SystemExit 130''"

definition answered :: "run_outcome \<Rightarrow> bool" where
  "answered r = (case r of Answered _ \<Rightarrow> True | _ \<Rightarrow> False)"

definition issue :: "'w bench_env \<Rightarrow> machine \<Rightarrow> string \<Rightarrow> int \<Rightarrow> string option \<Rightarrow> 'w bench_state \<Rightarrow> run_outcome \<times> 'w bench_state" where
  "issue env m cmd timeout stdin s =
     (case be_run env m cmd timeout stdin (bs_world s) of (r, w) \<Rightarrow>
        (r, s\<lparr>bs_world := w, bs_log := bs_log s @ [(mc_name m, cmd, answered r)]\<rparr>))"

definition read_clock :: "'w bench_env \<Rightarrow> ('w bench_state, real) io" where
  "read_clock env s = (case be_clock env (bs_world s) of (t, w) \<Rightarrow> (Inr t, s\<lparr>bs_world := w\<rparr>))"

definition take_nap :: "'w bench_env \<Rightarrow> ('w bench_state, unit) io" where
  "take_nap env s = (Inr (), s\<lparr>bs_world := be_nap env (bs_world s)\<rparr>)"

definition read_stamp :: "'w bench_env \<Rightarrow> ('w bench_state, string) io" where
  "read_stamp env s = (case be_stamp env (bs_world s) of (t, w) \<Rightarrow> (Inr t, s\<lparr>bs_world := w\<rparr>))"

definition write_record_line :: "probe_record \<Rightarrow> ('w bench_state, unit) io" where
  "write_record_line r s = (Inr (), s\<lparr>bs_output := bs_output s @ [r]\<rparr>)"

definition timed :: "'w bench_env \<Rightarrow> string \<Rightarrow> ('w bench_state, 'a) io \<Rightarrow> ('w bench_state, 'a) io" where
  "timed env key m =
     io_bind (read_clock env) (\<lambda>t0.
     io_bind m (\<lambda>x.
     io_bind (read_clock env) (\<lambda>t1 s.
       (Inr x, s\<lparr>bs_timings := dict_set key (py_round2 (t1 - t0)) (bs_timings s)\<rparr>))))"

text \<open>
  \<open>teardown\<close> runs once; \<open>except Exception\<close> does not catch \<open>SystemExit\<close>. While it runs, an
  interrupt finds it already marked as done and only leaves the program.
\<close>

definition quit_run :: "'w bench_env \<Rightarrow> 'w bench_state runner" where
  "quit_run env m cmd timeout stdin s =
     (case issue env m cmd timeout stdin s of
        (Answered r, s') \<Rightarrow> (Inr r, s')
      | (Failed e, s') \<Rightarrow> (Inl e, s')
      | (Interrupted, s') \<Rightarrow> (Inl system_exit, s'))"

definition teardown :: "'w bench_env \<Rightarrow> bool \<Rightarrow> machine list \<Rightarrow> string \<Rightarrow> ('w bench_state, unit) io" where
  "teardown env keep machines run_id s =
     (if bs_torn_down s \<or> keep then (Inr (), s)
      else
        timed env ''teardown_s''
          (io_catch (phase_teardown (quit_run env) machines run_id)
             (\<lambda>e. if e = system_exit then io_raise e else io_return ()))
          (s\<lparr>bs_torn_down := True\<rparr>))"

text \<open>The runner of the phases, with the handler \<open>on_sigint\<close>.\<close>

definition sig_run :: "'w bench_env \<Rightarrow> bool \<Rightarrow> machine list \<Rightarrow> string \<Rightarrow> 'w bench_state runner" where
  "sig_run env keep machines run_id m cmd timeout stdin s =
     (case issue env m cmd timeout stdin s of
        (Answered r, s') \<Rightarrow> (Inr r, s')
      | (Failed e, s') \<Rightarrow> (Inl e, s')
      | (Interrupted, s') \<Rightarrow> io_bind (teardown env keep machines run_id) (\<lambda>_. io_raise system_exit) s')"

type_synonym bench_results = "string pydict \<times> (bool \<times> real) pydict \<times> pyval pydict pydict \<times> nat \<times> nat"

definition sweep_kinds :: "bench_options \<Rightarrow> (string \<times> int \<times> int) list" where
  "sweep_kinds opts =
     [(''libp2p_ping'', bo_latency_count opts, 0), (''latency'', bo_latency_count opts, 0),
      (''throughput'', bo_throughput_count opts, bo_throughput_bytes opts)]"

text \<open>The six phases before the sweep, and all seven.\<close>

definition bench_setup ::
  "'w bench_env \<Rightarrow> bench_options \<Rightarrow> machine list \<Rightarrow> string \<Rightarrow>
     ('w bench_state, string pydict \<times> (bool \<times> real) pydict \<times> pyval pydict pydict) io" where
  "bench_setup env opts machines run_id =
     (let run = sig_run env (bo_keep opts) machines run_id; clock = read_clock env; nap = take_nap env in
      io_bind (timed env ''init_s'' (phase_init run machines run_id)) (\<lambda>_.
      io_bind (timed env ''discover_s'' (phase_discover run machines run_id)) (\<lambda>peer_ids.
      io_bind (timed env ''configure_s''
                (phase_configure_and_push (be_encode env) run machines peer_ids run_id (bo_http_port opts)
                   (bo_libp2p_port opts) (bo_extra_bootstraps opts))) (\<lambda>_.
      io_bind (timed env ''start_s'' (phase_start (bo_polls opts) run clock nap machines run_id (bo_http_port opts) 30)) (\<lambda>_.
      io_bind (timed env ''converge_s''
                (phase_converge (bo_polls opts) run clock nap machines peer_ids (bo_http_port opts) 60)) (\<lambda>convergence.
      io_bind (timed env ''punch_s''
                (phase_punch (be_show env) (be_float env) run machines peer_ids (bo_http_port opts) 5 2000 30000)) (\<lambda>punch.
        io_return (peer_ids, convergence, punch))))))))"

definition bench_phases ::
  "'w bench_env \<Rightarrow> bench_options \<Rightarrow> machine list \<Rightarrow> string \<Rightarrow> ('w bench_state, bench_results) io" where
  "bench_phases env opts machines run_id =
     io_bind (bench_setup env opts machines run_id) (\<lambda>(peer_ids, convergence, punch).
     io_bind (timed env ''sweep_s''
               (phase_sweep (sig_run env (bo_keep opts) machines run_id) (read_stamp env) write_record_line machines peer_ids
                  run_id (sweep_kinds opts))) (\<lambda>totals.
       io_return (peer_ids, convergence, punch, totals)))"

record bench_summary =
  su_run_id :: string
  su_started_at :: string
  su_ended_at :: string
  su_machines :: "(string \<times> string \<times> string option \<times> int \<times> int) list"
  su_convergence :: "(bool \<times> real) pydict"
  su_punch :: "pyval pydict pydict"
  su_phases :: "real pydict"
  su_totals :: "nat \<times> nat"

definition run_bench :: "'w bench_env \<Rightarrow> bench_options \<Rightarrow> machine list \<Rightarrow> string \<Rightarrow> ('w bench_state, bench_summary) io" where
  "run_bench env opts machines run_id =
     io_bind (read_stamp env) (\<lambda>started.
     io_bind (io_finally (bench_phases env opts machines run_id) (teardown env (bo_keep opts) machines run_id))
       (\<lambda>(peer_ids, convergence, punch, totals).
     io_bind (read_stamp env) (\<lambda>ended s.
       (Inr \<lparr>su_run_id = run_id, su_started_at = started, su_ended_at = ended,
             su_machines = map (\<lambda>m. (mc_name m, mc_address m, map_of peer_ids (mc_name m), bo_http_port opts,
                                      bo_libp2p_port opts)) machines,
             su_convergence = convergence, su_punch = punch, su_phases = bs_timings s, su_totals = totals\<rparr>, s))))"

definition bench_start :: "'w \<Rightarrow> 'w bench_state" where
  "bench_start w = \<lparr>bs_world = w, bs_log = [], bs_output = [], bs_timings = [], bs_torn_down = False\<rparr>"

end
