(* ===== verification/Net_Bench_Inv.thy ===== *)
theory Net_Bench_Inv
  imports Net_Profiler
begin

text \<open>
  What a run of the network benchmark leaves behind: the nodes it started are torn down once, at the
  end, on every path; the output has one record per probe; and its waiting loops end. The phases are
  verified against the locales \<open>bench_host\<close> and \<open>sweep_host\<close>, which say what their runner, clock
  and output keep, and the locales are interpreted for the runner with the interrupt handler.
\<close>

section \<open>What the phases keep\<close>

definition is_teardown :: "string \<Rightarrow> bool" where
  "is_teardown cmd \<longleftrightarrow> py_startswith cmd ''pkill '' \<or> py_startswith cmd ''rm ''"

locale bench_host = io_invariant I
  for I :: "'s \<Rightarrow> py_exn option \<Rightarrow> 's \<Rightarrow> bool" +
  fixes run :: "'s runner" and clock :: "('s, real) io" and nap :: "('s, unit) io"
  assumes keeps_run: "\<not> is_teardown cmd \<Longrightarrow> io_keeps I (run m cmd timeout stdin)"
    and keeps_clock: "io_keeps I clock" and keeps_nap: "io_keeps I nap"
begin

lemmas parts = keeps keeps_run keeps_clock keeps_nap

lemma keeps_command: "\<not> is_teardown cmd \<Longrightarrow> io_keeps I (phase_command run failure m cmd timeout stdin)"
  unfolding phase_command_def by (intro parts)

lemma keeps_init: "io_keeps I (phase_init run machines run_id)"
  unfolding phase_init_def Let_def by (intro parts keeps_command) (simp add: is_teardown_def)

lemma keeps_discover: "io_keeps I (phase_discover run machines run_id)"
  unfolding phase_discover_def by (intro parts keeps_command) (simp add: is_teardown_def)

lemma keeps_configure:
  "io_keeps I (phase_configure_and_push encode run machines peer_ids run_id http_port libp2p_port extra)"
  unfolding phase_configure_and_push_def Let_def by (intro parts keeps_command) (simp add: is_teardown_def)

lemma keeps_wait: "io_keeps I check \<Longrightarrow> io_keeps I (wait_loop check nap polls)"
  by (induction polls) (auto intro!: parts split: option.split)

lemma keeps_start: "io_keeps I (phase_start polls run clock nap machines run_id http_port max_wait_s)"
  unfolding phase_start_def health_check_def Let_def by (intro parts keeps_wait) (simp_all add: is_teardown_def)

lemma keeps_converge: "io_keeps I (phase_converge polls run clock nap machines peer_ids http_port max_wait_s)"
  unfolding phase_converge_def converge_check_def by (intro parts keeps_wait) (simp add: is_teardown_def)

lemma keeps_punch: "io_keeps I (phase_punch show fl run machines peer_ids http_port attempts wait_ms timeout_ms)"
  unfolding phase_punch_def case_prod_unfold
  by (intro parts) (simp add: is_teardown_def punch_command_def Let_def)

lemmas phases = keeps_init keeps_discover keeps_configure keeps_start keeps_converge keeps_punch

end

locale sweep_host = bench_host +
  fixes stamp :: "('s, string) io" and out :: "probe_record \<Rightarrow> ('s, unit) io"
  assumes keeps_stamp: "io_keeps I stamp" and keeps_output: "io_keeps I (out r)"
begin

lemma keeps_sweep: "io_keeps I (phase_sweep run stamp out machines peer_ids run_id kinds)"
  unfolding phase_sweep_def sweep_probe_def case_prod_unfold
  by (intro parts keeps_stamp keeps_output) (simp add: is_teardown_def)

end
section \<open>Teardown\<close>

text \<open>
  The commands that undo a run, and what the log of a teardown looks like: the commands in order, each
  answered, up to the first that is not, after which none is issued.
\<close>

definition teardown_commands :: "machine list \<Rightarrow> string \<Rightarrow> (string \<times> string) list" where
  "teardown_commands machines run_id =
     concat (map (\<lambda>m. [(mc_name m, pkill_command run_id m), (mc_name m, rm_command run_id m)]) machines)"

fun teardown_log :: "(string \<times> string) list \<Rightarrow> (string \<times> string \<times> bool) list \<Rightarrow> bool" where
  "teardown_log [] post = (post = [])"
| "teardown_log ((h, c) # cs) post =
     (case post of
        [] \<Rightarrow> False
      | (h', c', ok) # rest \<Rightarrow> h' = h \<and> c' = c \<and> (if ok then teardown_log cs rest else rest = []))"

text \<open>The state but for the world and the log.\<close>

definition same_run :: "'w bench_state \<Rightarrow> 'w bench_state \<Rightarrow> bool" where
  "same_run s s' \<longleftrightarrow> bs_output s' = bs_output s \<and> bs_torn_down s' = bs_torn_down s"

lemma issue_eq:
  "issue env m cmd timeout stdin s = (r, s') \<Longrightarrow>
     bs_log s' = bs_log s @ [(mc_name m, cmd, answered r)] \<and> same_run s s'"
  by (auto simp: issue_def same_run_def split: prod.splits)

lemma quit_run_eq:
  assumes "quit_run env m cmd timeout stdin s = (r, s')"
  shows "bs_log s' = bs_log s @ [(mc_name m, cmd, exn_of r = None)] \<and> same_run s s'"
proof -
  obtain out s1 where i: "issue env m cmd timeout stdin s = (out, s1)" by (cases "issue env m cmd timeout stdin s")
  then show ?thesis using assms issue_eq [OF i] by (cases out) (auto simp: quit_run_def answered_def)
qed

lemma same_run_trans: "same_run s s' \<Longrightarrow> same_run s' s'' \<Longrightarrow> same_run s s''"
  by (simp add: same_run_def)

lemma teardown_loop_log:
  "io_for (teardown_machine (quit_run env) run_id) ms s = (q, s') \<Longrightarrow>
   \<exists>post. bs_log s' = bs_log s @ post \<and> teardown_log (teardown_commands ms run_id) post \<and> same_run s s'"
proof (induction ms arbitrary: q s)
  case Nil
  then show ?case by (simp add: teardown_commands_def same_run_def)
next
  case (Cons m ms)
  have cmds: "teardown_commands (m # ms) run_id =
      (mc_name m, pkill_command run_id m) # (mc_name m, rm_command run_id m) # teardown_commands ms run_id"
    by (simp add: teardown_commands_def)
  obtain r1 s1 where k: "quit_run env m (pkill_command run_id m) 30 None s = (r1, s1)"
    by (cases "quit_run env m (pkill_command run_id m) 30 None s")
  obtain r2 s2 where x: "quit_run env m (rm_command run_id m) 30 None s1 = (r2, s2)"
    by (cases "quit_run env m (rm_command run_id m) 30 None s1")
  note k' = quit_run_eq [OF k] and x' = quit_run_eq [OF x]
  consider (pkill) e where "r1 = Inl e" "s' = s1" | (rm) y e where "r1 = Inr y" "r2 = Inl e" "s' = s2"
    | (both) y z q' where "r1 = Inr y" "r2 = Inr z" "io_for (teardown_machine (quit_run env) run_id) ms s2 = (q', s')"
    using Cons.prems k x by (auto simp: io_bind_eq teardown_machine_def [of _ _ m])
  then show ?case
  proof cases
    case pkill
    then show ?thesis using k' by (simp add: cmds)
  next
    case rm
    then show ?thesis using k' x' same_run_trans [of s s1 s2] by (simp add: cmds)
  next
    case both
    then obtain post where "bs_log s' = bs_log s2 @ post" "teardown_log (teardown_commands ms run_id) post" "same_run s2 s'"
      using Cons.IH by blast
    then show ?thesis using both(1,2) k' x' same_run_trans [of s s1 s2] same_run_trans [of s s2 s'] by (simp add: cmds)
  qed
qed

lemma phase_teardown_log:
  "phase_teardown (quit_run env) machines run_id s = (r, s') \<Longrightarrow>
   \<exists>post. bs_log s' = bs_log s @ post \<and> teardown_log (teardown_commands machines run_id) post \<and> same_run s s'"
  by (auto simp: phase_teardown_def io_bind_eq intro: teardown_loop_log)
text \<open>\<open>teardown\<close> does nothing the second time or when the nodes are to be kept.\<close>

lemma teardown_idle: "bs_torn_down s \<or> keep \<Longrightarrow> teardown env keep machines run_id s = (Inr (), s)"
  by (simp add: teardown_def)

lemma io_catch_eq:
  "io_catch m h s = (r, s'') \<longleftrightarrow>
     (\<exists>x. m s = (Inr x, s'') \<and> r = Inr x) \<or> (\<exists>e s'. m s = (Inl e, s') \<and> h e s' = (r, s''))"
  by (auto simp: io_catch_def split: prod.splits sum.splits)

lemma read_clock_eq: "read_clock env s = (r, s') \<Longrightarrow> \<exists>t w. r = Inr t \<and> s' = s\<lparr>bs_world := w\<rparr>"
  by (auto simp: read_clock_def split: prod.splits)

lemma timed_log:
  assumes "timed env key m s = (r, s')"
    and "\<And>w q s1. m (s\<lparr>bs_world := w\<rparr>) = (q, s1) \<Longrightarrow> P (bs_log s1) (bs_output s1) (bs_torn_down s1)"
  shows "P (bs_log s') (bs_output s') (bs_torn_down s')"
proof -
  obtain w q s1 where "m (s\<lparr>bs_world := w\<rparr>) = (q, s1)"
      and "bs_log s' = bs_log s1 \<and> bs_output s' = bs_output s1 \<and> bs_torn_down s' = bs_torn_down s1"
    using assms(1) by (auto simp: timed_def io_bind_eq dest!: read_clock_eq)
  then show ?thesis using assms(2) [of w q s1] by simp
qed

lemma teardown_runs:
  assumes "teardown env keep machines run_id s = (r, s')" and "\<not> bs_torn_down s" and "\<not> keep"
  shows "(\<exists>post. bs_log s' = bs_log s @ post \<and> teardown_log (teardown_commands machines run_id) post)
    \<and> bs_output s' = bs_output s \<and> bs_torn_down s'"
proof -
  let ?m = "io_catch (phase_teardown (quit_run env) machines run_id)
      (\<lambda>e. if e = system_exit then io_raise e else io_return ())"
  have t: "timed env ''teardown_s'' ?m (s\<lparr>bs_torn_down := True\<rparr>) = (r, s')"
    using assms by (simp add: teardown_def)
  show ?thesis
  proof (rule timed_log [OF t])
    fix w q s1 assume "?m (s\<lparr>bs_torn_down := True, bs_world := w\<rparr>) = (q, s1)"
    then obtain q' where "phase_teardown (quit_run env) machines run_id (s\<lparr>bs_torn_down := True, bs_world := w\<rparr>) = (q', s1)"
      by (auto simp: io_catch_eq split: if_splits)
    from phase_teardown_log [OF this]
    show "(\<exists>post. bs_log s1 = bs_log s @ post \<and> teardown_log (teardown_commands machines run_id) post)
        \<and> bs_output s1 = bs_output s \<and> bs_torn_down s1"
      by (auto simp: same_run_def)
  qed
qed

section \<open>The phases never tear down, except on an interrupt\<close>

definition no_teardown :: "(string \<times> string \<times> bool) list \<Rightarrow> bool" where
  "no_teardown es \<longleftrightarrow> list_all (\<lambda>(h, c, ok). \<not> is_teardown c) es"

definition calm :: "bool \<Rightarrow> machine list \<Rightarrow> string \<Rightarrow> 'w bench_state \<Rightarrow> py_exn option \<Rightarrow> 'w bench_state \<Rightarrow> bool" where
  "calm keep machines run_id s e s' \<longleftrightarrow>
     (\<not> bs_torn_down s \<longrightarrow>
        (\<exists>pre post. bs_log s' = bs_log s @ pre @ post \<and> no_teardown pre
           \<and> (if bs_torn_down s'
              then \<not> keep \<and> e \<noteq> None \<and> teardown_log (teardown_commands machines run_id) post
              else post = [])))"

lemma calm_refl: "calm keep machines run_id s e s"
  by (auto simp: calm_def no_teardown_def intro!: exI [of _ "[]"])

lemma calm_world: "calm keep machines run_id s e (s\<lparr>bs_world := w\<rparr>)" "calm keep machines run_id s e (s\<lparr>bs_world := w, bs_output := os\<rparr>)"
  "calm keep machines run_id s e (s\<lparr>bs_output := os\<rparr>)" "calm keep machines run_id s e (s\<lparr>bs_timings := ts\<rparr>)"
  by (auto simp: calm_def no_teardown_def intro!: exI [of _ "[]"])

lemma calm_trans:
  assumes "calm keep machines run_id s None s'" and "calm keep machines run_id s' e s''"
  shows "calm keep machines run_id s e s''"
proof (cases "bs_torn_down s")
  case False
  then obtain pre where a: "bs_log s' = bs_log s @ pre" "no_teardown pre" "\<not> bs_torn_down s'"
    using assms(1) by (auto simp: calm_def split: if_splits)
  then obtain pre' post where "bs_log s'' = bs_log s' @ pre' @ post" "no_teardown pre'"
      "if bs_torn_down s'' then \<not> keep \<and> e \<noteq> None \<and> teardown_log (teardown_commands machines run_id) post else post = []"
    using assms(2) by (auto simp: calm_def)
  then show ?thesis using a unfolding calm_def
    by (intro impI exI [of _ "pre @ pre'"] exI [of _ post]) (simp add: no_teardown_def)
qed (simp add: calm_def)

lemma calm_sig_run:
  assumes "\<not> is_teardown cmd"
  shows "io_keeps (calm keep machines run_id) (sig_run env keep machines run_id m cmd timeout stdin)"
  unfolding io_keeps_def
proof (intro allI impI)
  fix s r s' assume run: "sig_run env keep machines run_id m cmd timeout stdin s = (r, s')"
  obtain out s1 where i: "issue env m cmd timeout stdin s = (out, s1)" by (cases "issue env m cmd timeout stdin s")
  note l = issue_eq [OF i]
  have one: "calm keep machines run_id s e s1" for e
    using l assms unfolding calm_def same_run_def
    by (intro impI exI [of _ "[(mc_name m, cmd, answered out)]"] exI [of _ "[]"]) (simp add: no_teardown_def)
  show "calm keep machines run_id s (exn_of r) s'"
  proof (cases out)
    case Interrupted
    then obtain q where td: "teardown env keep machines run_id s1 = (q, s')" "exn_of r \<noteq> None"
      using run i by (auto simp: sig_run_def io_bind_eq)
    show ?thesis
    proof (cases "bs_torn_down s1 \<or> keep")
      case True
      then show ?thesis using td(1) one by (simp add: teardown_idle)
    next
      case False
      then obtain post where "bs_log s' = bs_log s1 @ post" "teardown_log (teardown_commands machines run_id) post" "bs_torn_down s'"
        using teardown_runs [OF td(1)] by blast
      then show ?thesis using l assms td(2) False unfolding calm_def
        by (intro impI exI [of _ "[(mc_name m, cmd, answered out)]"] exI [of _ post]) (simp add: no_teardown_def)
    qed
  qed (use run i one in \<open>simp_all add: sig_run_def\<close>)
qed

interpretation calm: sweep_host "calm keep machines run_id" "sig_run env keep machines run_id" "read_clock env" "take_nap env"
  "read_stamp env" write_record_line for keep machines run_id env
proof unfold_locales
  show "io_keeps (calm keep machines run_id) (read_clock env)"
    by (auto simp: io_keeps_def read_clock_def calm_world split: prod.splits)
  show "io_keeps (calm keep machines run_id) (take_nap env)"
    by (auto simp: io_keeps_def take_nap_def calm_world)
  show "io_keeps (calm keep machines run_id) (read_stamp env)"
    by (auto simp: io_keeps_def read_stamp_def calm_world split: prod.splits)
  show "io_keeps (calm keep machines run_id) (write_record_line r)" for r
    by (auto simp: io_keeps_def write_record_line_def calm_world)
qed (fact calm_refl | (rule calm_trans; assumption) | (rule calm_sig_run; assumption))+

lemma calm_timed: "io_keeps (calm keep machines run_id) m \<Longrightarrow> io_keeps (calm keep machines run_id) (timed env key m)"
  unfolding timed_def
  by (intro calm.parts) (auto simp: io_keeps_def calm_world)

lemma calm_phases: "io_keeps (calm (bo_keep opts) machines run_id) (bench_phases env opts machines run_id)"
  unfolding bench_phases_def bench_setup_def Let_def case_prod_unfold
  by (intro calm.keeps_bind calm.keeps_return calm_timed calm.phases calm.keeps_sweep)

section \<open>The end of a run\<close>

lemma io_finally_eq:
  "io_finally m f s = (r, s'') \<longleftrightarrow>
     (\<exists>q s'. m s = (q, s') \<and> (\<exists>e. f s' = (Inl e, s'') \<and> r = Inl e \<or> f s' = (Inr (), s'') \<and> r = q))"
  by (auto simp: io_finally_def split: prod.splits sum.splits)

lemma read_stamp_eq: "read_stamp env s = (r, s') \<Longrightarrow> \<exists>t w. r = Inr t \<and> s' = s\<lparr>bs_world := w\<rparr>"
  by (auto simp: read_stamp_def split: prod.splits)

lemma run_bench_steps:
  assumes "run_bench env opts machines run_id s = (r, s')"
  obtains w q s1 q' s2 where "bench_phases env opts machines run_id (s\<lparr>bs_world := w\<rparr>) = (q, s1)"
    and "teardown env (bo_keep opts) machines run_id s1 = (q', s2)"
    and "bs_log s' = bs_log s2" "bs_output s' = bs_output s2"
    and "\<And>su. r = Inr su \<Longrightarrow> \<exists>x. q = Inr x \<and> su_totals su = snd (snd (snd x)) \<and> su_convergence su = fst (snd x)"
  using assms
  by (auto simp: run_bench_def io_bind_eq io_finally_eq dest!: read_stamp_eq split: prod.splits)

lemma bench_log:
  assumes "run_bench env opts machines run_id (bench_start w) = (r, s)"
  shows "\<exists>pre post. bs_log s = pre @ post \<and> no_teardown pre
    \<and> (if bo_keep opts then post = [] else teardown_log (teardown_commands machines run_id) post)"
proof -
  obtain w' q s1 q' s2 where p: "bench_phases env opts machines run_id (bench_start w\<lparr>bs_world := w'\<rparr>) = (q, s1)"
      and t: "teardown env (bo_keep opts) machines run_id s1 = (q', s2)" and l: "bs_log s = bs_log s2"
    by (rule run_bench_steps [OF assms]) blast
  have "calm (bo_keep opts) machines run_id (bench_start w\<lparr>bs_world := w'\<rparr>) (exn_of q) s1"
    by (rule io_keepsD [OF calm_phases p])
  then have "\<exists>pre post. bs_log s1 = pre @ post \<and> no_teardown pre
      \<and> (if bs_torn_down s1 then \<not> bo_keep opts \<and> exn_of q \<noteq> None \<and> teardown_log (teardown_commands machines run_id) post
          else post = [])"
    by (simp add: calm_def bench_start_def)
  then obtain pre post where
      c: "bs_log s1 = pre @ post" "no_teardown pre"
      "if bs_torn_down s1 then \<not> bo_keep opts \<and> teardown_log (teardown_commands machines run_id) post else post = []"
    by (elim exE conjE) (rule that; simp split: if_splits)
  show ?thesis
  proof (cases "bs_torn_down s1 \<or> bo_keep opts")
    case True
    then show ?thesis using teardown_idle [OF True] t l c by (auto split: if_splits)
  next
    case False
    then obtain post' where "bs_log s2 = bs_log s1 @ post'" "teardown_log (teardown_commands machines run_id) post'"
      using teardown_runs [OF t] by blast
    then show ?thesis using l c False by auto
  qed
qed

text \<open>C12: a benchmark cleans up once, at its end, on every path. Whether the phases return, raise, or are
  interrupted at any command, and unless the nodes are to be kept: the commands issued are first
  commands that remove nothing, then the teardown, which kills the node and deletes the directory of
  every machine in turn. The teardown stops at the first of its own commands that raises or is
  interrupted, and nothing is issued after it; with \<open>keep\<close> there is no teardown at all.\<close>

theorem bench_cleans_up:
  assumes "run_bench env opts machines run_id (bench_start w) = (r, s)"
  shows "\<exists>pre post. bs_log s = pre @ post \<and> list_all (\<lambda>(host, cmd, ok). \<not> is_teardown cmd) pre
    \<and> (if bo_keep opts then post = [] else teardown_log (teardown_commands machines run_id) post)"
  using bench_log [OF assms] by (simp add: no_teardown_def)

text \<open>
  A world that numbers its commands, interrupts the second command, and answers the others: the first
  machine is initialised, the interrupt tears both machines down.
\<close>

definition toy_machine :: "string \<Rightarrow> machine" where
  "toy_machine name = \<lparr>mc_name = name, mc_address = name, mc_rcc_host = name, mc_http_port = None,
     mc_libp2p_port = None, mc_bootstrap_extra = []\<rparr>"

definition toy_bench :: "nat bench_env" where
  "toy_bench = \<lparr>be_run = (\<lambda>m cmd timeout stdin n.
       (if n = 1 then Interrupted else Answered \<lparr>rc_command = cmd, rc_returncode = 0, rc_stdout = [], rc_stderr = []\<rparr>, Suc n)),
     be_clock = Pair 0, be_nap = id, be_stamp = Pair [], be_encode = (\<lambda>_. []), be_show = (\<lambda>_. []), be_float = (\<lambda>_. [])\<rparr>"

definition toy_options :: bench_options where
  "toy_options = \<lparr>bo_http_port = 19090, bo_libp2p_port = 19091, bo_latency_count = 20, bo_throughput_count = 3,
     bo_throughput_bytes = 10485760, bo_keep = False, bo_extra_bootstraps = [], bo_polls = 62\<rparr>"

theorem bench_cleans_up_witness:
  "\<exists>r s. run_bench toy_bench toy_options [toy_machine ''a'', toy_machine ''b''] ''r'' (bench_start 0) = (r, s)
     \<and> length (bs_log s) = 6
     \<and> (\<exists>pre post. bs_log s = pre @ post \<and> list_all (\<lambda>(host, cmd, ok). \<not> is_teardown cmd) pre
          \<and> teardown_log (teardown_commands [toy_machine ''a'', toy_machine ''b''] ''r'') post)"
proof -
  let ?run = "run_bench toy_bench toy_options [toy_machine ''a'', toy_machine ''b''] ''r'' (bench_start 0)"
  obtain r s where run: "?run = (r, s)" by (cases ?run)
  have "length (bs_log (snd ?run)) = 6"
    by (simp add: run_bench_def bench_phases_def bench_setup_def phase_init_def phase_command_def io_finally_def io_bind_def io_return_def
        io_raise_def timed_def read_clock_def read_stamp_def sig_run_def issue_def answered_def teardown_def
        phase_teardown_def teardown_machine_def quit_run_def io_catch_def toy_bench_def toy_options_def toy_machine_def
        bench_start_def Let_def)
  then show ?thesis using bench_cleans_up [OF run] run by (auto simp: toy_options_def)
qed
section \<open>The measurements\<close>

definition out_same :: "'w bench_state \<Rightarrow> py_exn option \<Rightarrow> 'w bench_state \<Rightarrow> bool" where
  "out_same s e s' \<longleftrightarrow> bs_output s' = bs_output s"

lemma teardown_output:
  assumes "teardown env keep machines run_id s = (r, s')"
  shows "bs_output s' = bs_output s"
proof (cases "bs_torn_down s \<or> keep")
  case True
  then show ?thesis using assms teardown_idle [OF True] by simp
next
  case False
  then show ?thesis using teardown_runs [OF assms] by blast
qed

lemma sig_run_output: "io_keeps out_same (sig_run env keep machines run_id m cmd timeout stdin)"
  unfolding io_keeps_def out_same_def
proof (intro allI impI)
  fix s r s' assume run: "sig_run env keep machines run_id m cmd timeout stdin s = (r, s')"
  obtain out s1 where i: "issue env m cmd timeout stdin s = (out, s1)" by (cases "issue env m cmd timeout stdin s")
  have "bs_output s1 = bs_output s" using issue_eq [OF i] by (simp add: same_run_def)
  then show "bs_output s' = bs_output s"
    using run i by (cases out) (auto simp: sig_run_def io_bind_eq dest!: teardown_output)
qed

interpretation out: bench_host out_same "sig_run env keep machines run_id" "read_clock env" "take_nap env"
  for env keep machines run_id
proof unfold_locales
  show "io_keeps out_same (read_clock env)"
    by (auto simp: io_keeps_def out_same_def read_clock_def split: prod.splits)
qed (auto simp: out_same_def take_nap_def io_keeps_def [of _ "take_nap env"] sig_run_output)

lemma out_timed: "io_keeps out_same m \<Longrightarrow> io_keeps out_same (timed env key m)"
  unfolding timed_def by (intro out.keeps_bind out.keeps_clock) (auto simp: io_keeps_def out_same_def)

text \<open>A record belongs to its probe.\<close>

definition record_for :: "(string \<times> int \<times> int) \<times> machine \<times> machine \<Rightarrow> probe_record \<Rightarrow> bool" where
  "record_for probe r =
     (case probe of ((kind, cnt, nbytes), src, dst) \<Rightarrow>
        pr_kind r = kind \<and> pr_source r = mc_name src \<and> pr_target r = mc_name dst \<and> (pr_ok r \<longrightarrow> pr_error r = PNone))"

lemma build_record_for:
  "build_record t src dst sp dp kind cnt nbytes run_id r = Inr x \<Longrightarrow> record_for ((kind, cnt, nbytes), src, dst) x"
  by (auto simp: build_record_def record_for_def rbind_eq_Inr)

lemma sweep_probe_output:
  assumes "sweep_probe (sig_run env keep machines run_id) (read_stamp env) write_record_line peer_ids rid probe s = (Inr r, s')"
  shows "bs_output s' = bs_output s @ [r] \<and> record_for probe r"
proof -
  obtain kind cnt nbytes src dst where p: "probe = ((kind, cnt, nbytes), src, dst)" by (metis surj_pair)
  obtain cmd timeout y s1 t w sp dp where
      run: "sig_run env keep machines run_id src cmd timeout None s = (Inr y, s1)"
      and rec: "build_record t src dst sp dp kind cnt nbytes rid y = Inr r"
      and s': "s' = s1\<lparr>bs_world := w, bs_output := bs_output s1 @ [r]\<rparr>"
    using assms by (auto simp: p sweep_probe_def io_bind_eq write_record_line_def dest!: read_stamp_eq)
  have "bs_output s1 = bs_output s" using io_keepsD [OF sig_run_output run] by (simp add: out_same_def)
  then show ?thesis using s' build_record_for [OF rec] by (simp add: p)
qed

lemma sweep_output:
  "io_for (sweep_probe (sig_run env keep machines run_id) (read_stamp env) write_record_line peer_ids rid) probes s = (Inr rs, s') \<Longrightarrow>
   bs_output s' = bs_output s @ rs \<and> list_all2 record_for probes rs"
proof (induction probes arbitrary: s rs)
  case (Cons p ps)
  then obtain r rs' s1 where r: "rs = r # rs'"
      "sweep_probe (sig_run env keep machines run_id) (read_stamp env) write_record_line peer_ids rid p s = (Inr r, s1)"
      "io_for (sweep_probe (sig_run env keep machines run_id) (read_stamp env) write_record_line peer_ids rid) ps s1 = (Inr rs', s')"
    by (auto simp: io_bind_eq)
  then show ?case using sweep_probe_output [OF r(2)] Cons.IH [OF r(3)] by simp
qed simp

lemma phase_sweep_output:
  assumes "phase_sweep (sig_run env keep machines run_id) (read_stamp env) write_record_line ms peer_ids rid kinds s = (Inr totals, s')"
  shows "\<exists>rs. bs_output s' = bs_output s @ rs \<and> list_all2 record_for (sweep_probes kinds ms) rs
    \<and> totals = (length (filter pr_ok rs), length (filter (\<lambda>r. \<not> pr_ok r) rs))"
  using assms by (auto simp: phase_sweep_def io_bind_eq dest!: sweep_output)

lemma out_setup: "io_keeps out_same (bench_setup env opts machines run_id)"
  unfolding bench_setup_def Let_def by (intro out.keeps_bind out.keeps_return out_timed out.phases)

lemma timed_Inr:
  assumes "timed env key m s = (Inr x, s')"
  shows "\<exists>w s1. m (s\<lparr>bs_world := w\<rparr>) = (Inr x, s1) \<and> bs_output s' = bs_output s1"
proof -
  obtain w s1 where "m (s\<lparr>bs_world := w\<rparr>) = (Inr x, s1)" "bs_output s' = bs_output s1"
    using assms by (auto simp: timed_def io_bind_eq dest!: read_clock_eq)
  then show ?thesis by blast
qed

lemma bench_phases_output:
  assumes "bench_phases env opts machines run_id s = (Inr x, s')"
  shows "\<exists>rs. bs_output s' = bs_output s @ rs \<and> list_all2 record_for (sweep_probes (sweep_kinds opts) machines) rs
    \<and> snd (snd (snd x)) = (length (filter pr_ok rs), length (filter (\<lambda>r. \<not> pr_ok r) rs))"
proof -
  obtain p c u s1 t where st: "bench_setup env opts machines run_id s = (Inr (p, c, u), s1)"
      and sweep: "timed env ''sweep_s'' (phase_sweep (sig_run env (bo_keep opts) machines run_id) (read_stamp env)
        write_record_line machines p run_id (sweep_kinds opts)) s1 = (Inr t, s')" and x: "x = (p, c, u, t)"
    using assms by (auto simp: bench_phases_def io_bind_eq)
  have "bs_output s1 = bs_output s" using io_keepsD [OF out_setup st] by (simp add: out_same_def)
  then show ?thesis using timed_Inr [OF sweep] by (auto simp: x dest!: phase_sweep_output)
qed

text \<open>The probes of a sweep, by the names of their machines.\<close>

definition probe_key :: "(string \<times> int \<times> int) \<times> machine \<times> machine \<Rightarrow> string \<times> string \<times> string" where
  "probe_key probe = (case probe of ((kind, _), src, dst) \<Rightarrow> (kind, mc_name src, mc_name dst))"

definition record_key :: "probe_record \<Rightarrow> string \<times> string \<times> string" where
  "record_key r = (pr_kind r, pr_source r, pr_target r)"

lemma record_keys: "list_all2 record_for ps rs \<Longrightarrow> map record_key rs = map probe_key ps"
  by (induction rule: list_all2_induct) (auto simp: record_for_def record_key_def probe_key_def)

lemma ordered_pairs_product: "ordered_pairs ms = filter (\<lambda>(a, b). mc_name b \<noteq> mc_name a) (List.product ms ms)"
proof -
  have "concat (map (\<lambda>a. map (Pair a) (filter (P a) ys)) xs) = filter (\<lambda>(a, b). P a b) (List.product xs ys)"
    for P and xs ys :: "machine list"
    by (induction xs) (simp_all add: filter_map comp_def)
  then show ?thesis by (simp add: ordered_pairs_def)
qed

lemma sweep_probes_product: "sweep_probes kinds ms = List.product kinds (ordered_pairs ms)"
  unfolding sweep_probes_def by (induction kinds) simp_all

lemma set_ordered_pairs: "set (ordered_pairs ms) = {(a, b). a \<in> set ms \<and> b \<in> set ms \<and> mc_name a \<noteq> mc_name b}"
  by (auto simp: ordered_pairs_product)

lemma distinct_probe_keys:
  assumes "distinct (map mc_name ms)" and "distinct (map fst kinds)"
  shows "distinct (map probe_key (sweep_probes kinds ms))"
proof -
  have n: "inj_on mc_name (set ms)" and k: "inj_on fst (set kinds)" and d: "distinct ms" "distinct kinds"
    using assms by (simp_all add: distinct_map)
  have "inj_on probe_key (set (sweep_probes kinds ms))"
  proof (rule inj_onI)
    fix p q assume p: "p \<in> set (sweep_probes kinds ms)" and q: "q \<in> set (sweep_probes kinds ms)" and e: "probe_key p = probe_key q"
    obtain x a b y c d where pq: "p = (x, a, b)" "q = (y, c, d)" by (metis surj_pair)
    then have "fst x = fst y" "mc_name a = mc_name c" "mc_name b = mc_name d"
      using e by (auto simp: probe_key_def split: prod.splits)
    moreover have "x \<in> set kinds" "y \<in> set kinds" "{a, b, c, d} \<subseteq> set ms"
      using p q pq by (auto simp: sweep_probes_product set_ordered_pairs)
    ultimately show "p = q" unfolding pq using inj_onD [OF n] inj_onD [OF k] by auto
  qed
  moreover have "distinct (sweep_probes kinds ms)"
    unfolding sweep_probes_product ordered_pairs_product using d by (intro distinct_product distinct_filter)
  ultimately show ?thesis by (simp add: distinct_map)
qed

lemma set_probe_keys:
  "set (map probe_key (sweep_probes kinds ms)) =
     {(k, a, b). k \<in> fst ` set kinds \<and> a \<in> mc_name ` set ms \<and> b \<in> mc_name ` set ms \<and> a \<noteq> b}"
proof -
  have "set (map probe_key (sweep_probes kinds ms)) =
      (\<lambda>(x, a, b). (fst x, mc_name a, mc_name b)) ` (set kinds \<times> set (ordered_pairs ms))"
    unfolding sweep_probes_product set_map set_product by (rule image_cong) (auto simp: probe_key_def)
  also have "\<dots> = {(k, a, b). k \<in> fst ` set kinds \<and> a \<in> mc_name ` set ms \<and> b \<in> mc_name ` set ms \<and> a \<noteq> b}"
  proof (intro equalityI subsetI)
    fix y assume "y \<in> {(k, a, b). k \<in> fst ` set kinds \<and> a \<in> mc_name ` set ms \<and> b \<in> mc_name ` set ms \<and> a \<noteq> b}"
    then obtain x a b where "y = (fst x, mc_name a, mc_name b)" "x \<in> set kinds" "a \<in> set ms" "b \<in> set ms" "mc_name a \<noteq> mc_name b"
      by blast
    then show "y \<in> (\<lambda>(x, a, b). (fst x, mc_name a, mc_name b)) ` (set kinds \<times> set (ordered_pairs ms))"
      by (intro image_eqI [of _ _ "(x, a, b)"]) (simp_all add: set_ordered_pairs)
  qed (clarsimp simp: set_ordered_pairs, force)
  finally show ?thesis .
qed

text \<open>C13: a benchmark that returns has measured everything once. With machines of different names, the
  output file has exactly one record for each of the three kinds of probe and each ordered pair of
  different machines; the totals of the summary count the successful and the other records; and a
  successful record carries no error.\<close>

theorem bench_records_complete:
  assumes "run_bench env opts machines run_id (bench_start w) = (Inr su, s)" and "distinct (map mc_name machines)"
  shows "distinct (map record_key (bs_output s))
    \<and> set (map record_key (bs_output s)) =
        {(k, a, b). k \<in> {''libp2p_ping'', ''latency'', ''throughput''} \<and> a \<in> mc_name ` set machines
          \<and> b \<in> mc_name ` set machines \<and> a \<noteq> b}
    \<and> su_totals su = (length (filter pr_ok (bs_output s)), length (filter (\<lambda>r. \<not> pr_ok r) (bs_output s)))
    \<and> (\<forall>r \<in> set (bs_output s). pr_ok r \<longrightarrow> pr_error r = PNone)"
proof -
  obtain w' q s1 q' s2 where p: "bench_phases env opts machines run_id (bench_start w\<lparr>bs_world := w'\<rparr>) = (q, s1)"
      and t: "teardown env (bo_keep opts) machines run_id s1 = (q', s2)" and o: "bs_output s = bs_output s2"
      and q: "\<exists>x. q = Inr x \<and> su_totals su = snd (snd (snd x)) \<and> su_convergence su = fst (snd x)"
    by (rule run_bench_steps [OF assms(1)]) (rule that; simp)
  from q obtain x where x: "q = Inr x" and tot: "su_totals su = snd (snd (snd x))" by blast
  note p = p [unfolded x]
  have out: "list_all2 record_for (sweep_probes (sweep_kinds opts) machines) (bs_output s)"
      and totals: "snd (snd (snd x)) = (length (filter pr_ok (bs_output s)), length (filter (\<lambda>r. \<not> pr_ok r) (bs_output s)))"
    using bench_phases_output [OF p] teardown_output [OF t] o by (auto simp: bench_start_def)
  have kinds: "map fst (sweep_kinds opts) = [''libp2p_ping'', ''latency'', ''throughput'']" by (simp add: sweep_kinds_def)
  have d: "distinct (map fst (sweep_kinds opts))" unfolding kinds by simp
  have k: "fst ` set (sweep_kinds opts) = {''libp2p_ping'', ''latency'', ''throughput''}"
    by (simp add: sweep_kinds_def)
  have "pr_ok r \<longrightarrow> pr_error r = PNone" if r: "r \<in> set (bs_output s)" for r
  proof -
    obtain i where i: "i < length (bs_output s)" "r = bs_output s ! i" using r by (auto simp: in_set_conv_nth)
    then show ?thesis using list_all2_nthD2 [OF out i(1)] by (auto simp: record_for_def split: prod.splits)
  qed
  then show ?thesis
    unfolding record_keys [OF out] set_probe_keys k tot using distinct_probe_keys [OF assms(2) d] totals by blast
qed

definition quiet_env :: "nat bench_env" where
  "quiet_env = \<lparr>be_run = (\<lambda>m cmd timeout stdin n.
       (Answered \<lparr>rc_command = cmd, rc_returncode = 0, rc_stdout = ''{}'', rc_stderr = []\<rparr>, Suc n)),
     be_clock = Pair 0, be_nap = id, be_stamp = Pair [], be_encode = (\<lambda>_. []), be_show = (\<lambda>_. []), be_float = (\<lambda>_. [])\<rparr>"

text \<open>A world that answers every command with an empty object: every probe fails, and is recorded.\<close>

lemma quiet_texts:
  "py_strip ''{}'' = ''{}''" "json_loads ''{}'' = Inr (PDict [])" "last_line ''{}'' = Inr ''{}''"
  by (simp_all add: py_strip_def strip_by_def is_space_def json_loads_def skip_ws_def json_space_def last_line_def line_break_def
      numeral_eq_Suc)

definition quiet_answer :: "cmd_result \<Rightarrow> bool" where
  "quiet_answer r \<longleftrightarrow> rc_returncode r = 0 \<and> rc_stdout r = ''{}'' \<and> rc_stderr r = []"

abbreviation quiet_machines :: "machine list" where
  "quiet_machines \<equiv> [toy_machine ''a'', toy_machine ''b'']"

abbreviation quiet_runner :: "nat bench_state runner" where
  "quiet_runner \<equiv> sig_run quiet_env False quiet_machines ''r''"

abbreviation quiet_peers :: "string pydict" where
  "quiet_peers \<equiv> [(''a'', ''{}''), (''b'', ''{}'')]"

lemma quiet_run: "yields (quiet_runner m cmd timeout stdin) quiet_answer"
  by (simp add: yields_def sig_run_def issue_def quiet_env_def answered_def quiet_answer_def)

lemma quiet_stamp: "read_stamp quiet_env s = (Inr [], s)"
  by (simp add: read_stamp_def quiet_env_def)

lemma quiet_clock: "yields (read_clock quiet_env) (\<lambda>t. t = 0)"
  by (simp add: yields_def read_clock_def quiet_env_def)

lemma quiet_command: "yields (phase_command quiet_runner failure m cmd timeout stdin) quiet_answer"
  unfolding phase_command_def
  by (rule yields_bind [OF quiet_run]) (auto simp: quiet_answer_def intro: yields_return)

lemma quiet_timed: "yields m Q \<Longrightarrow> yields (timed quiet_env key m) Q"
  unfolding timed_def
  by (rule yields_bind [OF quiet_clock], erule yields_bind, rule yields_bind [OF quiet_clock]) (simp add: yields_def)

lemma quiet_keys: "list_all2 (\<lambda>m kv. fst kv = mc_name m \<and> P (snd kv)) quiet_machines kvs \<Longrightarrow>
    \<exists>x y. dict_of kvs = [(''a'', x), (''b'', y)] \<and> P x \<and> P y"
  by (auto simp: list_all2_Cons1 toy_machine_def dict_of_def)

lemma quiet_init: "yields (phase_init quiet_runner quiet_machines ''r'') (\<lambda>_. True)"
  unfolding phase_init_def Let_def
  by (intro yields_bind [OF yields_for [where P = "\<lambda>_ _. True"]] yields_bind [OF quiet_command] yields_return TrueI)

lemma quiet_discover: "yields (phase_discover quiet_runner quiet_machines ''r'') (\<lambda>d. d = quiet_peers)"
  unfolding phase_discover_def
proof (rule yields_bind [OF yields_for [where P = "\<lambda>m kv. fst kv = mc_name m \<and> snd kv = ''{}''"]])
  show "yields (io_bind (phase_command quiet_runner failure m cmd t i) (\<lambda>r.
        if py_strip (rc_stdout r) = [] then io_raise e else io_return (mc_name m, py_strip (rc_stdout r))))
      (\<lambda>kv. fst kv = mc_name m \<and> snd kv = ''{}'')" for m failure cmd t i e
    by (rule yields_bind [OF quiet_command]) (auto simp: quiet_answer_def quiet_texts intro: yields_return)
qed (auto intro!: yields_return dest!: quiet_keys)

lemma quiet_configure:
  "yields (phase_configure_and_push encode quiet_runner quiet_machines quiet_peers ''r'' h l extra) (\<lambda>_. True)"
proof -
  have "\<exists>x. build_host_config m quiet_machines quiet_peers ''r'' h l extra = Inr x" if "m \<in> set quiet_machines" for m
    using that by (auto simp: build_host_config_def toy_machine_def dict_get_def Let_def)
  then have "yields (io_res (build_host_config m quiet_machines quiet_peers ''r'' h l extra)) (\<lambda>_. True)"
    if "m \<in> set quiet_machines" for m
    using that by (metis yields_res)
  then show ?thesis
    unfolding phase_configure_and_push_def Let_def
    by (intro yields_bind [OF yields_for [where P = "\<lambda>_ _. True"]] yields_return TrueI)
       (rule yields_bind, assumption, intro yields_bind [OF quiet_command] yields_return TrueI)
qed

lemma quiet_wait: "yields check (\<lambda>r. r \<noteq> None) \<Longrightarrow> yields (wait_loop check nap (Suc n)) (\<lambda>_. True)"
  unfolding wait_loop.simps by (erule yields_bind) (auto intro: yields_return)

lemma quiet_start: "yields (phase_start (Suc n) quiet_runner (read_clock quiet_env) nap quiet_machines ''r'' h mw) (\<lambda>_. True)"
  unfolding phase_start_def health_check_def Let_def
  by (intro yields_bind [OF yields_for [where P = "\<lambda>_ _. True"]] yields_bind [OF quiet_run] yields_bind [OF quiet_clock] quiet_wait)
     (auto simp: quiet_answer_def intro: yields_return)

lemma quiet_converge:
  assumes "0 \<le> mw"
  shows "yields (phase_converge (Suc n) quiet_runner (read_clock quiet_env) nap quiet_machines quiet_peers h mw) (\<lambda>_. True)"
proof -
  have c: "table_complete quiet_peers m r = Inr True" if "m \<in> set quiet_machines" "quiet_answer r" for m r
    using that by (auto simp: table_complete_def quiet_answer_def extract_peer_ids_def quiet_texts dict_get_def toy_machine_def)
  have check: "yields (converge_check quiet_runner (read_clock quiet_env) quiet_peers m port d) (\<lambda>r. r \<noteq> None)"
    if m: "m \<in> set quiet_machines" and d: "0 \<le> d" for m port d
    unfolding converge_check_def
  proof (rule yields_bind [OF quiet_clock])
    fix now :: real assume "now = 0"
    have "yields (io_bind (quiet_runner m cmd 30 None) (\<lambda>tbl. io_bind (io_res (table_complete quiet_peers m tbl))
        (\<lambda>complete. io_return (if complete then Some True else None)))) (\<lambda>r. r \<noteq> None)" for cmd
      by (intro yields_bind [OF quiet_run] yields_bind [OF yields_res [OF c [OF m], where Q = "\<lambda>b. b"]] yields_return) simp_all
    then show "yields (if now \<le> d then io_bind (quiet_runner m (''curl -s http://127.0.0.1:'' @ str_int port @ ''/v1/dnt/table'') 30 None)
        (\<lambda>tbl. io_bind (io_res (table_complete quiet_peers m tbl)) (\<lambda>complete. io_return (if complete then Some True else None)))
        else io_return (Some False)) (\<lambda>r. r \<noteq> None)"
      using \<open>now = 0\<close> d by simp
  qed
  show ?thesis
    unfolding phase_converge_def
    by (intro yields_bind [OF yields_for [where P = "\<lambda>_ _. True"]] yields_bind [OF quiet_clock] yields_bind [OF quiet_wait [OF check]]
          yields_return TrueI) (use assms in simp_all)
qed

lemma quiet_punch: "yields (phase_punch show fl quiet_runner quiet_machines quiet_peers h a wt tm) (\<lambda>_. True)"
proof -
  have peer: "dict_get quiet_peers (mc_name (snd p)) = Inr ''{}''" if "p \<in> set (ordered_pairs quiet_machines)" for p
    using that by (auto simp: ordered_pairs_def dict_get_def toy_machine_def)
  show ?thesis
    unfolding phase_punch_def case_prod_unfold
    by (intro yields_bind [OF yields_for [where P = "\<lambda>_ _. True"]] yields_return TrueI)
       (rule yields_bind [OF yields_res [OF peer TrueI]], assumption, intro yields_bind [OF quiet_run] yields_return TrueI)
qed

lemma quiet_sweep: "yields (phase_sweep quiet_runner (read_stamp quiet_env) write_record_line quiet_machines quiet_peers ''r''
    (sweep_kinds toy_options)) (\<lambda>t. t = (0, 6))"
proof -
  have peer: "dict_get quiet_peers (mc_name (fst (snd p))) = Inr ''{}''" "dict_get quiet_peers (mc_name (snd (snd p))) = Inr ''{}''"
    if "p \<in> set (sweep_probes (sweep_kinds toy_options) quiet_machines)" for p
    using that by (auto simp: sweep_probes_def ordered_pairs_def dict_get_def toy_machine_def)
  have rec: "\<exists>x. build_record t src dst sp dp k c b rid r = Inr x \<and> \<not> pr_ok x" if "quiet_answer r" for t src dst sp dp k c b rid r
    using that by (simp add: build_record_def probe_answer_def quiet_answer_def quiet_texts py_truthy_def)
  have one: "yields (sweep_probe quiet_runner (read_stamp quiet_env) write_record_line quiet_peers ''r'' p) (\<lambda>r. \<not> pr_ok r)"
    if p: "p \<in> set (sweep_probes (sweep_kinds toy_options) quiet_machines)" for p
    unfolding sweep_probe_def case_prod_unfold
  proof (intro yields_bind [OF yields_res [OF peer(2) [OF p] TrueI]] yields_bind [OF quiet_run]
      yields_bind [OF yields_res [OF peer(1) [OF p] TrueI]])
    fix dp r sp assume q: "quiet_answer r"
    have st: "yields (read_stamp quiet_env) (\<lambda>_. True)" by (simp add: yields_def read_stamp_def quiet_env_def)
    have wr: "yields (write_record_line x :: (nat bench_state, unit) io) (\<lambda>_. True)" for x by (simp add: yields_def write_record_line_def)
    show "yields (io_bind (read_stamp quiet_env) (\<lambda>t. io_bind (io_res (build_record t (fst (snd p)) (snd (snd p)) sp dp
        (fst (fst p)) (fst (snd (fst p))) (snd (snd (fst p))) ''r'' r)) (\<lambda>record. io_bind (write_record_line record)
          (\<lambda>_. io_return record)))) (\<lambda>r. \<not> pr_ok r)"
    proof (rule yields_bind [OF st])
      fix t
      obtain x where x: "build_record t (fst (snd p)) (snd (snd p)) sp dp (fst (fst p)) (fst (snd (fst p))) (snd (snd (fst p))) ''r'' r = Inr x"
          and n: "\<not> pr_ok x" using rec [OF q] by blast
      show "yields (io_bind (io_res (build_record t (fst (snd p)) (snd (snd p)) sp dp (fst (fst p)) (fst (snd (fst p)))
          (snd (snd (fst p))) ''r'' r)) (\<lambda>record. io_bind (write_record_line record) (\<lambda>_. io_return record))) (\<lambda>r. \<not> pr_ok r)"
        using x n by (simp add: yields_def io_bind_eq write_record_line_def)
    qed
  qed
  have "length (sweep_probes (sweep_kinds toy_options) quiet_machines) = 6"
    by (simp add: sweep_probes_def sweep_kinds_def ordered_pairs_def toy_machine_def)
  moreover have "filter pr_ok rs = [] \<and> filter (\<lambda>r. \<not> pr_ok r) rs = rs" if "list_all2 (\<lambda>_ r. \<not> pr_ok r) ps rs" for rs :: "probe_record list" and ps :: "((string \<times> int \<times> int) \<times> machine \<times> machine) list"
    using that by (induction rule: list_all2_induct) auto
  ultimately show ?thesis
    unfolding phase_sweep_def
    by (intro yields_bind [OF yields_for [OF one]] yields_return) (auto dest!: list_all2_lengthD)
qed

lemma quiet_phases:
  "yields (bench_phases quiet_env toy_options quiet_machines ''r'') (\<lambda>x. snd (snd (snd x)) = (0, 6))"
proof -
  have keep: "bo_keep toy_options = False" and polls: "bo_polls toy_options = Suc 61" by (simp_all add: toy_options_def)
  have setup_ok: "yields (bench_setup quiet_env toy_options quiet_machines ''r'') (\<lambda>x. fst x = quiet_peers)"
    unfolding bench_setup_def Let_def keep polls
    by (rule yields_bind [OF quiet_timed [OF quiet_init]], rule yields_bind [OF quiet_timed [OF quiet_discover]], simp only:,
        rule yields_bind [OF quiet_timed [OF quiet_configure]], rule yields_bind [OF quiet_timed [OF quiet_start]],
        rule yields_bind [OF quiet_timed [OF quiet_converge]], simp, rule yields_bind [OF quiet_timed [OF quiet_punch]])
       (simp add: yields_return)
  show ?thesis
    unfolding bench_phases_def case_prod_unfold keep
    by (rule yields_bind [OF setup_ok], simp only:, rule yields_bind [OF quiet_timed [OF quiet_sweep]]) (simp add: yields_return)
qed

lemma quiet_teardown: "yields (teardown quiet_env False quiet_machines ''r'') (\<lambda>_. True)"
proof -
  have q: "yields (quit_run quiet_env m cmd t i) (\<lambda>_. True)" for m cmd t i
    by (simp add: yields_def quit_run_def issue_def quiet_env_def)
  have "yields (phase_teardown (quit_run quiet_env) quiet_machines ''r'') (\<lambda>_. True)"
    unfolding phase_teardown_def teardown_machine_def
    by (intro yields_bind [OF yields_for [where P = "\<lambda>_ _. True"]] yields_bind [OF q] q yields_return TrueI)
  then have "yields (io_catch (phase_teardown (quit_run quiet_env) quiet_machines ''r'') h) (\<lambda>_. True)" for h
    by (auto simp: yields_def io_catch_eq)
  from yieldsD [OF quiet_timed [OF this]] show ?thesis by (simp add: yields_def teardown_def)
qed

theorem bench_records_complete_witness:
  "\<exists>su s. run_bench quiet_env toy_options quiet_machines ''r'' (bench_start 0) = (Inr su, s)
     \<and> distinct (map record_key (bs_output s)) \<and> su_totals su = (0, 6)"
proof -
  let ?run = "run_bench quiet_env toy_options quiet_machines ''r'' (bench_start 0)"
  have keep: "bo_keep toy_options = False" by (simp add: toy_options_def)
  obtain x s1 where p: "bench_phases quiet_env toy_options quiet_machines ''r'' (bench_start 0) = (Inr x, s1)"
      "snd (snd (snd x)) = (0, 6)"
    using yieldsD [OF quiet_phases, of "bench_start 0"] by (elim exE conjE)
  obtain s2 where "teardown quiet_env False quiet_machines ''r'' s1 = (Inr (), s2)"
    using yieldsD [OF quiet_teardown, of s1] by auto
  then have "\<exists>su s. ?run = (Inr su, s) \<and> su_totals su = (0, 6)"
    using p by (simp add: run_bench_def io_bind_def io_finally_def quiet_stamp keep case_prod_unfold)
  then obtain su s where run: "?run = (Inr su, s)" and t: "su_totals su = (0, 6)" by (elim exE conjE)
  have "distinct (map mc_name quiet_machines)" by (simp add: toy_machine_def)
  note bench_records_complete [OF run this]
  then show ?thesis using run t by (intro exI [of _ su] exI [of _ s]) simp
qed
section \<open>The waiting loops end\<close>

text \<open>
  What the code relies on: the monotonic clock does not go back, and a pause of a second takes at least a
  second. \<open>now\<close> is the time at which the world is.
\<close>

definition clock_law :: "'w bench_env \<Rightarrow> ('w \<Rightarrow> real) \<Rightarrow> bool" where
  "clock_law env now \<longleftrightarrow>
     (\<forall>m cmd timeout stdin w r w'. be_run env m cmd timeout stdin w = (Answered r, w') \<longrightarrow> now w \<le> now w')
     \<and> (\<forall>w t w'. be_clock env w = (t, w') \<longrightarrow> now w \<le> t \<and> t \<le> now w')
     \<and> (\<forall>w. now w + 1 \<le> now (be_nap env w))"

lemma clock_run:
  assumes "clock_law env now" and "sig_run env keep machines run_id m cmd timeout stdin s = (Inr r, s')"
  shows "now (bs_world s) \<le> now (bs_world s')"
proof -
  obtain out s1 where i: "issue env m cmd timeout stdin s = (out, s1)" by (cases "issue env m cmd timeout stdin s")
  then have "out = Answered r" "s1 = s'" using assms(2) by (cases out; simp add: sig_run_def io_bind_eq)+
  then have "be_run env m cmd timeout stdin (bs_world s) = (Answered r, bs_world s')"
    using i by (auto simp: issue_def split: prod.splits)
  then show ?thesis using assms(1) unfolding clock_law_def by blast
qed

lemma clock_read:
  assumes "clock_law env now" and "read_clock env s = (Inr t, s')"
  shows "now (bs_world s) \<le> t \<and> t \<le> now (bs_world s')"
proof -
  have "be_clock env (bs_world s) = (t, bs_world s')" using assms(2) by (auto simp: read_clock_def split: prod.splits)
  then show ?thesis using assms(1) unfolding clock_law_def by blast
qed

lemma clock_nap: "clock_law env now \<Longrightarrow> take_nap env s = (r, s') \<Longrightarrow> now (bs_world s) + 1 \<le> now (bs_world s')"
  by (auto simp: clock_law_def take_nap_def)

lemma bench_wait_ends:
  assumes "clock_law env now" and "due (\<lambda>s. now (bs_world s)) deadline check"
    and "deadline - now (bs_world s) < real k" "k < n" "k < n'"
  shows "wait_loop check (take_nap env) n s = wait_loop check (take_nap env) n' s"
  by (rule wait_loop_ends [where pause = 1, OF clock_nap [OF assms(1)] assms(2) _ assms(4,5)]) (use assms(3) in simp_all)

lemma health_due:
  assumes "clock_law env now"
  shows "due (\<lambda>s. now (bs_world s)) deadline (health_check (sig_run env keep machines run_id) (read_clock env) m port deadline mw)"
  unfolding due_def health_check_def
  by (auto simp: io_bind_eq split: if_splits dest!: clock_run [OF assms] clock_read [OF assms])

lemma converge_due:
  assumes "clock_law env now"
  shows "due (\<lambda>s. now (bs_world s)) deadline (converge_check (sig_run env keep machines run_id) (read_clock env) peer_ids m port deadline)"
  unfolding due_def converge_check_def
  by (auto simp: io_bind_eq split: if_splits dest!: clock_run [OF assms] clock_read [OF assms])

lemma start_ends:
  assumes "clock_law env now" and "32 \<le> p" and "32 \<le> p'"
  shows "phase_start p (sig_run env keep machines run_id) (read_clock env) (take_nap env) ms rid h 30 =
    phase_start p' (sig_run env keep machines run_id) (read_clock env) (take_nap env) ms rid h 30"
proof -
  have "wait_loop (health_check (sig_run env keep machines run_id) (read_clock env) m port (t + 30) 30) (take_nap env) p s =
      wait_loop (health_check (sig_run env keep machines run_id) (read_clock env) m port (t + 30) 30) (take_nap env) p' s"
    if "read_clock env s0 = (Inr t, s)" for m port t s0 s
    by (rule bench_wait_ends [OF assms(1) health_due [OF assms(1)], where k = 31])
       (use clock_read [OF assms(1) that] assms(2,3) in simp_all)
  then have "io_bind (read_clock env) (\<lambda>t. wait_loop (health_check (sig_run env keep machines run_id) (read_clock env) m port (t + 30) 30) (take_nap env) p) =
      io_bind (read_clock env) (\<lambda>t. wait_loop (health_check (sig_run env keep machines run_id) (read_clock env) m port (t + 30) 30) (take_nap env) p')"
    for m port
    by (intro ext io_bind_cong) blast
  then show ?thesis by (simp add: phase_start_def)
qed

lemma converge_ends:
  fixes env :: "'w bench_env"
  assumes "clock_law env now" and "62 \<le> p" and "62 \<le> p'"
  shows "phase_converge p (sig_run env keep machines run_id) (read_clock env) (take_nap env) ms peers h 60 =
    phase_converge p' (sig_run env keep machines run_id) (read_clock env) (take_nap env) ms peers h 60"
proof -
  have loop: "wait_loop (converge_check (sig_run env keep machines run_id) (read_clock env) peers m port (t + 60)) (take_nap env) p s =
      wait_loop (converge_check (sig_run env keep machines run_id) (read_clock env) peers m port (t + 60)) (take_nap env) p' s"
    if "read_clock env s0 = (Inr t, s1)" "read_clock env s1 = (Inr t', s)" for m port t t' s0 s1 s
    by (rule bench_wait_ends [OF assms(1) converge_due [OF assms(1)], where k = 61])
       (use clock_read [OF assms(1) that(1)] clock_read [OF assms(1) that(2)] assms(2,3) in simp_all)
  have "io_bind (read_clock env) (\<lambda>t. io_bind (read_clock env) (\<lambda>t'. io_bind (wait_loop (converge_check (sig_run env keep machines run_id)
        (read_clock env) peers m port (t + 60)) (take_nap env) p) (g t'))) =
      io_bind (read_clock env) (\<lambda>t. io_bind (read_clock env) (\<lambda>t'. io_bind (wait_loop (converge_check (sig_run env keep machines run_id)
        (read_clock env) peers m port (t + 60)) (take_nap env) p') (g t')))"
    for m port and g :: "real \<Rightarrow> bool \<Rightarrow> ('w bench_state, string \<times> bool \<times> real) io"
    by (intro ext io_bind_cong) (simp add: io_bind_def loop)
  then show ?thesis by (simp add: phase_converge_def)
qed


definition slow_env :: "real bench_env" where
  "slow_env = \<lparr>be_run = (\<lambda>m cmd timeout stdin w.
       (Answered \<lparr>rc_command = cmd, rc_returncode = (if py_startswith cmd ''curl'' then 1 else 0), rc_stdout = ''p'', rc_stderr = []\<rparr>, w + 1)),
     be_clock = (\<lambda>w. (w, w)), be_nap = (\<lambda>w. w + 1), be_stamp = Pair [], be_encode = (\<lambda>_. []), be_show = (\<lambda>_. []),
     be_float = (\<lambda>_. [])\<rparr>"


section \<open>Direct measurements\<close>

definition record_kind :: "pyval \<Rightarrow> string \<times> string \<times> string" where
  "record_kind r = (case (py_item r ''kind'', py_item r ''source'', py_item r ''target'') of
     (Inr (PStr k), Inr (PStr a), Inr (PStr b)) \<Rightarrow> (k, a, b) | _ \<Rightarrow> ([], [], []))"

lemma record_kind_measurement [simp]:
  "record_kind (measurement_record t k src dst ok cmd metrics err) = (k, mc_name src, mc_name dst)"
  by (simp add: record_kind_def measurement_record_def dict_get_def)

lemma result_record_kind:
  "result_record stamp output parse k src dst r s = (Inr x, s') \<Longrightarrow> record_kind x = (k, mc_name src, mc_name dst)"
  by (auto simp: result_record_def append_record_def io_bind_eq)

lemma collect_pair_kinds:
  assumes "collect_pair run stamp output nap quote cfg include_iperf (src, dst) s = (Inr recs, s')"
  shows "map record_kind recs = (''ping'', mc_name src, mc_name dst)
    # (if include_iperf then [(''iperf3'', mc_name src, mc_name dst)] else [])"
  using assms by (auto simp: collect_pair_def append_record_def io_bind_eq split: if_splits dest!: result_record_kind)

text \<open>\<open>collect\<close> measures every ordered pair of different machines, in order.\<close>

lemma collect_kinds:
  assumes "collect run stamp output nap quote cfg include_iperf s = (Inr recs, s')"
  shows "map record_kind recs = concat (map (\<lambda>(a, b). (''ping'', mc_name a, mc_name b)
    # (if include_iperf then [(''iperf3'', mc_name a, mc_name b)] else [])) (iter_pairs (pf_machines cfg)))"
proof -
  have "map record_kind (concat rss) = concat (map (\<lambda>(a, b). (''ping'', mc_name a, mc_name b)
      # (if include_iperf then [(''iperf3'', mc_name a, mc_name b)] else [])) ps)"
    if "io_for (collect_pair run stamp output nap quote cfg include_iperf) ps s = (Inr rss, s')" for ps rss s s'
    using that
  proof (induction ps arbitrary: s rss)
    case (Cons p ps)
    then obtain rs rss' s1 where r: "rss = rs # rss'" "collect_pair run stamp output nap quote cfg include_iperf p s = (Inr rs, s1)"
        "io_for (collect_pair run stamp output nap quote cfg include_iperf) ps s1 = (Inr rss', s')"
      by (auto simp: io_bind_eq)
    obtain a b where p: "p = (a, b)" by (cases p)
    show ?case using collect_pair_kinds [OF r(2) [unfolded p]] Cons.IH [OF r(3)] by (simp add: r(1) p)
  qed simp
  then show ?thesis using assms by (auto simp: collect_def io_bind_eq)
qed

end
