(* ===== verification/Place_Calc.thy ===== *)
theory Place_Calc
  imports Prelude
begin

text \<open>
  The placement calculators of the simulator (\<open>tools/bench_placement\<close>): the exhaustive search for
  the allocation of GPUs that maximises the least throughput (\<open>calculator.py\<close>, of which
  \<open>baseline_calculator.py\<close> is a copy) and the one that comes closest to the memory demand
  (\<open>memory_calculator.py\<close>). Both enumerate the same splits of the machines; an update of the best
  candidate replaces it only when it is strictly better. Times and printing are left out.
\<close>

section \<open>Splits\<close>

datatype gpu = A100 | GH200

datatype llm = M13B | M34B | M70B

record instances =
  n13 :: int
  n34 :: int
  n70 :: int

type_synonym allocation = "instances \<times> instances"

fun capacity :: "gpu \<Rightarrow> int" where
  "capacity A100 = 24"
| "capacity GH200 = 32"

fun gpu_reqs :: "gpu \<Rightarrow> llm \<Rightarrow> int" where
  "gpu_reqs A100 M13B = 1"
| "gpu_reqs A100 M34B = 2"
| "gpu_reqs A100 M70B = 4"
| "gpu_reqs GH200 M13B = 1"
| "gpu_reqs GH200 M34B = 2"
| "gpu_reqs GH200 M70B = 4"

text \<open>The two nested loops over one type of GPU: the rest goes to the smallest model.\<close>

definition gpu_splits :: "gpu \<Rightarrow> instances list" where
  "gpu_splits g =
     concat (map (\<lambda>k70. let rem1 = capacity g - k70 * gpu_reqs g M70B in
       map (\<lambda>k34. let rem2 = rem1 - k34 * gpu_reqs g M34B in
              \<lparr>n13 = rem2 div gpu_reqs g M13B, n34 = k34, n70 = k70\<rparr>)
         [0..rem1 div gpu_reqs g M34B])
       [0..capacity g div gpu_reqs g M70B])"

definition candidates :: "allocation list" where
  "candidates = concat (map (\<lambda>a. map (Pair a) (gpu_splits GH200)) (gpu_splits A100))"

definition gpus_used :: "gpu \<Rightarrow> instances \<Rightarrow> int" where
  "gpus_used g x = n13 x * gpu_reqs g M13B + n34 x * gpu_reqs g M34B + n70 x * gpu_reqs g M70B"

section \<open>Throughput\<close>

fun base_times :: "gpu \<Rightarrow> llm \<Rightarrow> real" where
  "base_times A100 M13B = 6538165924 / 1000000"
| "base_times A100 M34B = 3723153667 / 100000"
| "base_times A100 M70B = 1489700265 / 100000"
| "base_times GH200 M13B = 2617779327 / 1000000"
| "base_times GH200 M34B = 1162639596 / 100000"
| "base_times GH200 M70B = 5939552729 / 1000000"

definition gpu_throughput :: "gpu \<Rightarrow> llm \<Rightarrow> int \<Rightarrow> real" where
  "gpu_throughput g m k = (if k > 0 then of_int k / base_times g m else 0)"

definition calculate_throughput :: "llm \<Rightarrow> int \<Rightarrow> int \<Rightarrow> real" where
  "calculate_throughput m n_a n_g = gpu_throughput A100 m n_a + gpu_throughput GH200 m n_g"

definition min_throughput :: "allocation \<Rightarrow> real" where
  "min_throughput al =
     (case al of (a, g) \<Rightarrow>
        min (min (calculate_throughput M13B (n13 a) (n13 g)) (calculate_throughput M34B (n34 a) (n34 g)))
            (calculate_throughput M70B (n70 a) (n70 g)))"

definition better :: "(allocation \<Rightarrow> real) \<Rightarrow> allocation \<Rightarrow> allocation option \<times> real \<Rightarrow> allocation option \<times> real" where
  "better f al best = (if f al > snd best then (Some al, f al) else best)"

definition best_throughput :: "allocation option \<times> real" where
  "best_throughput = fold (better min_throughput) candidates (None, -1)"

text \<open>
  The result: the allocation, the objective, the GPUs used, throughput and time factor of each model,
  and the share of the throughput that each type of GPU contributes. A time factor of \<open>None\<close> is
  infinity.
\<close>

record performance =
  pe_total :: real
  pe_time_factor :: "real option"
  pe_perc_a100 :: real
  pe_perc_gh200 :: real

definition model_performance :: "llm \<Rightarrow> int \<Rightarrow> int \<Rightarrow> performance" where
  "model_performance m n_a n_g =
     (let th_a = gpu_throughput A100 m n_a; th_g = gpu_throughput GH200 m n_g; total = th_a + th_g
      in \<lparr>pe_total = total, pe_time_factor = (if total > 0 then Some (1 / total) else None),
          pe_perc_a100 = (if total > 0 then th_a / total * 100 else 0),
          pe_perc_gh200 = (if total > 0 then th_g / total * 100 else 0)\<rparr>)"

definition max_time :: "real option \<Rightarrow> real option \<Rightarrow> real option" where
  "max_time a b = (case (a, b) of (Some x, Some y) \<Rightarrow> Some (max x y) | _ \<Rightarrow> None)"

record calc_result =
  ca_allocation :: allocation
  ca_a100_used :: int
  ca_gh200_used :: int
  ca_13b :: performance
  ca_34b :: performance
  ca_70b :: performance
  ca_bottleneck :: "real option"
  ca_objective :: real
  ca_iterations :: nat

definition find_best_allocation :: "calc_result res" where
  "find_best_allocation =
     (case best_throughput of
        (None, _) \<Rightarrow> Inl (OtherException ''No valid allocation found (should not happen with available resources).'')
      | (Some (a, g), best) \<Rightarrow>
          let p13 = model_performance M13B (n13 a) (n13 g); p34 = model_performance M34B (n34 a) (n34 g);
              p70 = model_performance M70B (n70 a) (n70 g)
          in Inr \<lparr>ca_allocation = (a, g), ca_a100_used = gpus_used A100 a, ca_gh200_used = gpus_used GH200 g,
                  ca_13b = p13, ca_34b = p34, ca_70b = p70,
                  ca_bottleneck = max_time (max_time (pe_time_factor p13) (pe_time_factor p34)) (pe_time_factor p70),
                  ca_objective = best, ca_iterations = length candidates\<rparr>)"

section \<open>Memory demand\<close>

fun arrival_rates :: "llm \<Rightarrow> real" where
  "arrival_rates M13B = 110"
| "arrival_rates M34B = 1855 / 10"
| "arrival_rates M70B = 221"

fun model_sizes :: "llm \<Rightarrow> real" where
  "model_sizes M13B = 13"
| "model_sizes M34B = 34"
| "model_sizes M70B = 70"

definition memory_demand :: "llm \<Rightarrow> real" where
  "memory_demand m = arrival_rates m * model_sizes m"

definition target_gpus :: "llm \<Rightarrow> real" where
  "target_gpus m =
     memory_demand m / (memory_demand M13B + memory_demand M34B + memory_demand M70B)
       * of_int (capacity A100 + capacity GH200)"

text \<open>In this file the requirements are the same for both types of GPU.\<close>

definition model_gpus :: "allocation \<Rightarrow> llm \<Rightarrow> int" where
  "model_gpus al m =
     (case al of (a, g) \<Rightarrow>
        (case m of M13B \<Rightarrow> n13 a + n13 g | M34B \<Rightarrow> n34 a + n34 g | M70B \<Rightarrow> n70 a + n70 g) * gpu_reqs A100 m)"

definition target_error :: "allocation \<Rightarrow> real" where
  "target_error al =
     \<bar>of_int (model_gpus al M13B) - target_gpus M13B\<bar> + \<bar>of_int (model_gpus al M34B) - target_gpus M34B\<bar>
       + \<bar>of_int (model_gpus al M70B) - target_gpus M70B\<bar>"

definition closer :: "allocation \<Rightarrow> (allocation \<times> real) option \<Rightarrow> (allocation \<times> real) option" where
  "closer al best =
     (case best of
        None \<Rightarrow> Some (al, target_error al)
      | Some (_, e) \<Rightarrow> if target_error al < e then Some (al, target_error al) else best)"

definition best_memory_allocation :: "(allocation \<times> real) option" where
  "best_memory_allocation = fold closer candidates None"

text \<open>The result; without a candidate both dictionaries would stay empty.\<close>

record memory_result =
  mr_allocation :: allocation
  mr_allocated :: "llm \<Rightarrow> int"
  mr_target :: "llm \<Rightarrow> real"
  mr_error :: real

definition find_memory_allocation :: "memory_result option \<times> nat" where
  "find_memory_allocation =
     (map_option (\<lambda>(al, e). \<lparr>mr_allocation = al, mr_allocated = model_gpus al, mr_target = target_gpus, mr_error = e\<rparr>)
        best_memory_allocation, length candidates)"

section \<open>The splits are the full ones\<close>

lemma gpu_reqs_pos: "0 < gpu_reqs g m"
  by (cases g; cases m) simp_all

lemma gpu_splits_iff:
  "x \<in> set (gpu_splits g) \<longleftrightarrow> 0 \<le> n13 x \<and> 0 \<le> n34 x \<and> 0 \<le> n70 x \<and> gpus_used g x = capacity g"
proof -
  obtain a b c where x: "x = \<lparr>n13 = a, n34 = b, n70 = c\<rparr>" by (cases x)
  have "x \<in> set (gpu_splits g) \<longleftrightarrow>
      0 \<le> c \<and> c \<le> capacity g div 4 \<and> 0 \<le> b \<and> b \<le> (capacity g - c * 4) div 2 \<and> a = capacity g - c * 4 - b * 2"
    by (cases g) (auto simp: gpu_splits_def x Let_def image_iff Bex_def)
  also have "\<dots> \<longleftrightarrow> 0 \<le> a \<and> 0 \<le> b \<and> 0 \<le> c \<and> a + b * 2 + c * 4 = capacity g"
    by (cases g) auto
  also have "\<dots> \<longleftrightarrow> 0 \<le> n13 x \<and> 0 \<le> n34 x \<and> 0 \<le> n70 x \<and> gpus_used g x = capacity g"
    by (cases g) (simp_all add: x gpus_used_def)
  finally show ?thesis .
qed

lemma candidates_iff: "(a, g) \<in> set candidates \<longleftrightarrow> a \<in> set (gpu_splits A100) \<and> g \<in> set (gpu_splits GH200)"
  by (auto simp: candidates_def)

text \<open>Some split gives every model an instance, so the least throughput is positive.\<close>

lemma some_candidate: "(\<lparr>n13 = 18, n34 = 1, n70 = 1\<rparr>, \<lparr>n13 = 26, n34 = 1, n70 = 1\<rparr>) \<in> set candidates"
  by (simp add: candidates_iff gpu_splits_iff gpus_used_def)

lemma candidates_nonempty: "candidates \<noteq> []"
  using some_candidate by auto

section \<open>Optimality\<close>

lemma fold_better:
  "fold (better f) xs (b, v) = (b', v') \<Longrightarrow>
   v \<le> v' \<and> (\<forall>x \<in> set xs. f x \<le> v') \<and> (b' = b \<and> v' = v \<or> (\<exists>x \<in> set xs. b' = Some x \<and> v' = f x))"
proof (induction xs arbitrary: b v)
  case (Cons x xs)
  show ?case
  proof (cases "f x > v")
    case True
    then show ?thesis using Cons.IH [of "Some x" "f x"] Cons.prems by (auto simp: better_def)
  next
    case False
    then show ?thesis using Cons.IH [of b v] Cons.prems by (auto simp: better_def)
  qed
qed simp

lemma fold_closer:
  "\<exists>al \<in> set (x # xs). fold closer xs (Some (x, target_error x)) = Some (al, target_error al)
     \<and> (\<forall>y \<in> set (x # xs). target_error al \<le> target_error y)"
proof (induction xs arbitrary: x)
  case (Cons y ys)
  show ?case
  proof (cases "target_error y < target_error x")
    case True
    then show ?thesis using Cons.IH [of y] by (fastforce simp: closer_def)
  next
    case False
    then show ?thesis using Cons.IH [of x] by (fastforce simp: closer_def)
  qed
qed simp

text \<open>Giving the idle GPUs to the smallest model lowers no throughput.\<close>

definition feasible :: "allocation \<Rightarrow> bool" where
  "feasible al \<longleftrightarrow>
     (case al of (a, g) \<Rightarrow>
        0 \<le> n13 a \<and> 0 \<le> n34 a \<and> 0 \<le> n70 a \<and> gpus_used A100 a \<le> capacity A100
        \<and> 0 \<le> n13 g \<and> 0 \<le> n34 g \<and> 0 \<le> n70 g \<and> gpus_used GH200 g \<le> capacity GH200)"

definition fill :: "gpu \<Rightarrow> instances \<Rightarrow> instances" where
  "fill g x = x\<lparr>n13 := n13 x + (capacity g - gpus_used g x)\<rparr>"

lemma fill_split:
  assumes "0 \<le> n13 x" "0 \<le> n34 x" "0 \<le> n70 x" "gpus_used g x \<le> capacity g"
  shows "fill g x \<in> set (gpu_splits g)" and "n13 x \<le> n13 (fill g x)"
  using assms by (cases g; simp add: gpu_splits_iff fill_def gpus_used_def)+

lemma base_times_pos: "0 < base_times g m"
  by (cases g; cases m) simp_all

lemma gpu_throughput_pos: "0 < k \<Longrightarrow> 0 < gpu_throughput g m k"
  using base_times_pos [of g m] by (simp add: gpu_throughput_def)

lemma gpu_throughput_mono: "k \<le> k' \<Longrightarrow> gpu_throughput g m k \<le> gpu_throughput g m k'"
  using base_times_pos [of g m] by (auto simp: gpu_throughput_def divide_right_mono)

lemma throughput_mono: "k \<le> k' \<Longrightarrow> l \<le> l' \<Longrightarrow> calculate_throughput m k l \<le> calculate_throughput m k' l'"
  unfolding calculate_throughput_def by (intro add_mono gpu_throughput_mono)

lemma feasible_dominated: "feasible al \<Longrightarrow> \<exists>al' \<in> set candidates. min_throughput al \<le> min_throughput al'"
proof -
  assume f: "feasible al"
  obtain a g where al: "al = (a, g)" by (cases al)
  have a: "fill A100 a \<in> set (gpu_splits A100)" "n13 a \<le> n13 (fill A100 a)"
    and g: "fill GH200 g \<in> set (gpu_splits GH200)" "n13 g \<le> n13 (fill GH200 g)"
    using f by (simp_all add: feasible_def al fill_split)
  have "min_throughput al \<le> min_throughput (fill A100 a, fill GH200 g)"
    using throughput_mono [OF a(2) g(2), of M13B] by (auto simp: min_throughput_def al fill_def)
  then show ?thesis using a(1) g(1) candidates_iff by blast
qed

lemma best_throughput_optimal:
  "\<exists>al \<in> set candidates. best_throughput = (Some al, min_throughput al) \<and> 0 < min_throughput al
     \<and> (\<forall>al' \<in> set candidates. min_throughput al' \<le> min_throughput al)"
proof -
  obtain b v where bv: "best_throughput = (b, v)" by (cases best_throughput)
  note f = fold_better [OF bv [unfolded best_throughput_def]]
  let ?c = "(\<lparr>n13 = 18, n34 = 1, n70 = 1\<rparr>, \<lparr>n13 = 26, n34 = 1, n70 = 1\<rparr>) :: allocation"
  have "0 < min_throughput ?c" by (simp add: min_throughput_def calculate_throughput_def gpu_throughput_pos add_pos_pos)
  also have "\<dots> \<le> v" using f some_candidate by (rule conjunct2 [THEN conjunct1, THEN bspec])
  finally have v: "0 < v" .
  then obtain x where x: "x \<in> set candidates" "b = Some x" "v = min_throughput x" using f by auto
  then show ?thesis using f v bv by (intro bexI [of _ x]) simp_all
qed

text \<open>The report of an allocation in which every model is served.\<close>

lemma model_performance_total: "pe_total (model_performance m k l) = calculate_throughput m k l"
  by (simp add: model_performance_def calculate_throughput_def Let_def)

lemma model_performance_time:
  "0 < calculate_throughput m k l \<Longrightarrow> pe_time_factor (model_performance m k l) = Some (1 / calculate_throughput m k l)"
  by (simp add: model_performance_def calculate_throughput_def Let_def)

lemma max_inverse: "0 < x \<Longrightarrow> 0 < y \<Longrightarrow> max (1 / x) (1 / y) = 1 / min x (y :: real)"
  using frac_le [of 1 1 x y] frac_le [of 1 1 y x] by (cases "x \<le> y") (auto simp: max_def min_def)

text \<open>C34: the exhaustive search finds an optimum over all allocations, although it enumerates only those that
  use every GPU. It returns an allocation that uses all 24 and 32 GPUs, serves every model, and whose
  least throughput is at least that of any allocation that fits the machines; the reported objective
  is that throughput, and the reported bottleneck is its inverse.\<close>

theorem allocation_optimal:
  "\<exists>r. find_best_allocation = Inr r \<and> feasible (ca_allocation r) \<and> ca_a100_used r = 24 \<and> ca_gh200_used r = 32
     \<and> ca_objective r = min_throughput (ca_allocation r) \<and> 0 < ca_objective r
     \<and> ca_bottleneck r = Some (1 / ca_objective r)
     \<and> (\<forall>al. feasible al \<longrightarrow> min_throughput al \<le> ca_objective r)"
proof -
  obtain a g where ag: "(a, g) \<in> set candidates" "best_throughput = (Some (a, g), min_throughput (a, g))" "0 < min_throughput (a, g)"
      and opt: "\<forall>al' \<in> set candidates. min_throughput al' \<le> min_throughput (a, g)"
    using best_throughput_optimal by auto
  have split: "a \<in> set (gpu_splits A100)" "g \<in> set (gpu_splits GH200)" using ag(1) by (simp_all add: candidates_iff)
  have th: "0 < calculate_throughput M13B (n13 a) (n13 g)" "0 < calculate_throughput M34B (n34 a) (n34 g)"
      "0 < calculate_throughput M70B (n70 a) (n70 g)"
    using ag(3) by (simp_all add: min_throughput_def)
  have feas: "feasible (a, g)" "gpus_used A100 a = 24" "gpus_used GH200 g = 32"
    using split by (simp_all add: feasible_def gpu_splits_iff)
  have "max_time (max_time (pe_time_factor (model_performance M13B (n13 a) (n13 g)))
        (pe_time_factor (model_performance M34B (n34 a) (n34 g)))) (pe_time_factor (model_performance M70B (n70 a) (n70 g)))
      = Some (1 / min_throughput (a, g))"
    using th by (simp add: model_performance_time max_time_def max_inverse min_throughput_def)
  moreover have "min_throughput al \<le> min_throughput (a, g)" if "feasible al" for al
    using feasible_dominated [OF that] opt by force
  ultimately show ?thesis
    using ag(3) feas by (simp add: find_best_allocation_def ag(2) Let_def)
qed

theorem allocation_optimal_witness:
  "\<exists>r. find_best_allocation = Inr r
     \<and> min_throughput (\<lparr>n13 = 3, n34 = 2, n70 = 4\<rparr>, \<lparr>n13 = 5, n34 = 5, n70 = 4\<rparr>) \<le> ca_objective r"
proof -
  have "feasible (\<lparr>n13 = 3, n34 = 2, n70 = 4\<rparr>, \<lparr>n13 = 5, n34 = 5, n70 = 4\<rparr>)"
    by (simp add: feasible_def gpus_used_def)
  then show ?thesis using allocation_optimal by blast
qed

text \<open>The search by memory demand: closest to the targets among the allocations that use every GPU.\<close>

lemma memory_allocation_closest:
  "\<exists>al \<in> set candidates. best_memory_allocation = Some (al, target_error al)
     \<and> (\<forall>al' \<in> set candidates. target_error al \<le> target_error al')"
proof -
  obtain x xs where c: "candidates = x # xs" using candidates_nonempty by (cases candidates) auto
  show ?thesis using fold_closer [of x xs] unfolding c best_memory_allocation_def by (simp add: closer_def)
qed

lemma find_memory_allocation_closest:
  "\<exists>r. fst find_memory_allocation = Some r \<and> feasible (mr_allocation r) \<and> mr_error r = target_error (mr_allocation r)
     \<and> mr_allocated r M13B + mr_allocated r M34B + mr_allocated r M70B = 56"
proof -
  obtain a g where ag: "(a, g) \<in> set candidates" "best_memory_allocation = Some ((a, g), target_error (a, g))"
    using memory_allocation_closest by force
  then have "gpus_used A100 a = 24" "gpus_used GH200 g = 32" "feasible (a, g)"
    by (simp_all add: candidates_iff gpu_splits_iff feasible_def)
  then show ?thesis by (simp add: find_memory_allocation_def ag(2) model_gpus_def gpus_used_def)
qed

lemma target_gpus_sum: "target_gpus M13B + target_gpus M34B + target_gpus M70B = 56"
  by (simp add: target_gpus_def memory_demand_def)

end
