(* ===== verification/Spec2Isabelle.thy ===== *)
theory Spec2Isabelle
  imports Trace_Reduce Nb_Trim Place_Router Real_Runs Over_Sweep Conv_Results Conv_Task Auth_Server Fleet_Apply Net_Bench_Inv Place_Calc
begin

text \<open>
  \<^bold>\<open>OpenTela: verification of the Python components.\<close>

  OpenTela is a decentralised serving system for language models. Its nodes are written in Go; the
  Python code of the repository holds the programs around them, of which this development models

    \<^item> the serving simulator (\<open>src/contrib/serving-simulator/simulator\<close>): a discrete-event
      simulation of a cluster of GPU nodes that serve generation requests, with its command line and
      the load generator that measures real servers for it;
    \<^item> the API-key service (\<open>src/contrib/auth\<close>): keys bound to wallets by signed challenges;
    \<^item> the fleet manager (\<open>src/contrib/fleet_manager\<close>): deployment of serving jobs on Slurm
      clusters from a description of the desired state;
    \<^item> the convergence benchmark (\<open>src/contrib/benchmark_convergence\<close>): a coordinator and
      observers that measure how fast a service registered at one node is seen at the others;
    \<^item> the network profiler (\<open>src/contrib/network-profiler\<close>): direct measurements between
      machines, and a benchmark that starts a temporary network of nodes on them and removes it;
    \<^item> the placement calculators (\<open>serving-simulator/tools/bench_placement\<close>): exhaustive searches
      for the allocation of GPUs to models, with the router that spreads requests over a placement; the
      tool that reduces an exported trace (\<open>serving-simulator/tools/reduce_trace.py\<close>) and the one that
      trims the outputs of notebooks (\<open>trace_analysis/trim_output.py\<close>);
    \<^item> the drivers for real servers (\<open>src/contrib/benchmark/cli\<close>): starting the servers of a
      placement on Slurm clusters, and running workloads against them;
    \<^item> the overhead benchmark (\<open>src/contrib/benchmark_overhead\<close>): requests sent through the network
      and directly to a worker, over a grid of models and rates.

  \<^bold>\<open>How the parts interact.\<close> In the simulator the event loop (\<open>core/events.py\<close>) holds a
  heap of events and calls the handlers of the cluster manager (\<open>core/cluster_manager.py\<close>). An
  arrival becomes a request (\<open>core/request.py\<close>) and a placement decision; a scheduler
  (\<open>core/scheduler.py\<close>) chooses the engine; the engine (\<open>core/engine.py\<close>) admits the request
  into its cache (\<open>core/memory.py\<close>), prefills and decodes it in batches with times from the roofline
  model (\<open>core/model_analyzer.py\<close>, \<open>core/roofline.py\<close>), and reports completions back as
  events. Arrivals come from \<open>core/arrival.py\<close>, traces go to \<open>core/trace.py\<close>, and
  \<open>core/placement.py\<close> decides before a run which models are given which machines. The command line
  (\<open>cli/run_cluster_simulation.py\<close>) loads a configuration, places the replicas, builds the cluster
  and runs it. In the convergence benchmark the threads of \<open>coordinator.py\<close> and \<open>observer.py\<close>
  exchange the messages of \<open>protocol.py\<close> over sockets, and \<open>aggregate.py\<close> turns the results
  document into rows. The benchmark of the network profiler (\<open>bench.py\<close>) runs its phases through the
  runner of \<open>remote.py\<close>, writes node configurations with \<open>bench_config.py\<close>, and tears
  everything down at the end or when it is interrupted. \<open>spinup.py\<close> uses the placement strategies of
  the simulator and \<open>run_workloads.py\<close> its load generator, with the arrival processes of both. The
  reduction tool reads what \<open>core/trace.py\<close> exports. A sweep of the convergence benchmark (\<open>run.py\<close>)
  submits cells (\<open>submit.py\<close>) whose tasks (\<open>task_entry.py\<close>) start a node and become coordinator or
  observer. A sweep of the overhead benchmark deploys a worker (\<open>deploy.py\<close>) and fires the requests of
  \<open>client.py\<close> at it. The API-key service, the
  fleet manager and the calculators are programs of their own.

  \<^bold>\<open>Theories.\<close>

    \<^item> \<open>Prelude\<close>: exceptions as values, dictionaries, indexing, numbers and strings of Python.
    \<^item> \<open>Json\<close>: the standard library's JSON printer and parser, with their round trip.
    \<^item> \<open>Heapq\<close>: the heap operations of the standard library on lists, proved a priority queue
      through the locales \<open>strict_weak\<close> and \<open>prio_queue\<close>.
    \<^item> \<open>Sim_Events\<close>: \<open>Event\<close> and \<open>EventLoop\<close>. The state of the object is a record;
      handlers are names called through an argument. The locale \<open>loop_host\<close> states what a host
      must keep for the loop to be chronological.
    \<^item> \<open>Sim_Config\<close>, \<open>Sim_Request\<close>: hardware table, parallelism, the Llama description, and
      the life of one request.
    \<^item> \<open>Sim_Memory\<close>: \<open>MemoryPlanner\<close>: block accounting of the key-value cache, with the pool's contract as the
      locale \<open>kv_pool\<close>.
    \<^item> \<open>Sim_Analyzer\<close>: roofline times of a model.
    \<^item> \<open>Sim_Arrival\<close>, \<open>Sim_Trace\<close>: arrival processes; the exported Chrome trace.
    \<^item> \<open>Sim_Engine\<close>, \<open>Sim_Engine_Inv\<close>: \<open>Batch\<close> and \<open>ServingEngine\<close>, and the
      invariant, safety and progress of its steps.
    \<^item> \<open>Sim_Scheduler\<close>: one definition per scheduler class of \<open>scheduler.py\<close>.
    \<^item> \<open>Sim_Cluster\<close>, \<open>Sim_Cluster_Inv\<close>: \<open>ClusterManager\<close> with all its handlers, the
      interpretation of \<open>loop_host\<close> for it, the ledger of requests it refines, and the locale
      \<open>arrival_source\<close> for the arrivals of a run.
    \<^item> \<open>Sim_Placement\<close>: the placement strategies; the two greedy ones share the locale
      \<open>greedy_strategy\<close>.
    \<^item> \<open>Sim_Cli\<close>: \<open>run_cluster_simulation.py\<close>, with two more interpretations of
      \<open>arrival_source\<close>. \<open>Load_Gen\<close>: \<open>simulator/utils/engine.py\<close>.
    \<^item> \<open>Conv_Channel\<close>: \<open>protocol.py\<close>. \<open>Conv_Bench\<close>: the threads of the benchmark, one rule
      of the relation \<open>conv_step\<close> for each thing a thread does between two locks or socket
      operations. \<open>Conv_Results\<close>: the write loop, the results document and the rows.
      \<open>Conv_Sweep\<close>: \<open>run.py\<close> and \<open>submit.py\<close>. \<open>Conv_Task\<close>: \<open>task_entry.py\<close>
      and \<open>ssh_driver.py\<close>.
    \<^item> \<open>Auth_Server\<close>: tables and endpoints of the API-key service, their interleaving as the
      step relation \<open>auth_step\<close>, and sequential service as \<open>serve\<close>.
    \<^item> \<open>Io\<close>: actions on a world (state passing with exceptions), their control structures, and
      the locale \<open>io_invariant\<close> for the relations between states that actions keep.
    \<^item> \<open>Fleet_Config\<close>: validation and loading of cluster descriptions. \<open>Fleet_Remote\<close>:
      connections. \<open>Fleet_Worker\<close>: Slurm jobs, relay, deployment. \<open>Fleet_Apply\<close>: fleet files.
    \<^item> \<open>Net_Profiler\<close>: configuration, runner, measurements and benchmark of the network profiler.
      \<open>Net_Bench_Inv\<close>: what a run issues, writes and waits for, through interpretations of
      \<open>io_invariant\<close>. \<open>Place_Calc\<close>: both calculators.
    \<^item> \<open>Trace_Reduce\<close>: the trace tool on JSON documents. \<open>Real_Spinup\<close>: \<open>spinup.py\<close>,
      \<open>spinup_workload.py\<close>, \<open>cancel_all.py\<close>. \<open>Real_Runs\<close>: \<open>run_recovery.py\<close>, whose
      tasks change shared counters in an interleaving described by the relation \<open>woven\<close>, and
      \<open>run_workloads.py\<close>. \<open>Over_Client\<close>: \<open>parse.py\<close>, \<open>workload.py\<close> and \<open>client.py\<close>
      of the overhead benchmark. \<open>Over_Sweep\<close>: \<open>deploy.py\<close>, \<open>probe_net.py\<close> and \<open>run.py\<close>.
    \<^item> \<open>Place_Router\<close>: \<open>api_server.py\<close>, a run as a sequence of table updates and requests.
      \<open>Nb_Trim\<close>: \<open>trim_output.py\<close> on the JSON documents of the notebooks.

  \<^bold>\<open>What the theorems show.\<close> For the simulator: every step of the event loop over the cluster is a
  step of an abstract ledger of requests, so that at the end of a run the requests that arrived are
  exactly those completed, rejected and still active, and none completes twice
  (\<open>Sim_Cluster_Inv\<close>); the loop is chronological and a run with a limit returns (\<open>Sim_Events\<close>);
  an engine's step keeps its invariant and the exact ownership of cache blocks, and an engine with
  enough cache serves every request completely (\<open>Sim_Engine_Inv\<close>); the planner's accounting is
  exact (\<open>Sim_Memory\<close>); schedulers optimise what they promise; the placement strategies stay within
  the machines and the enumeration of splits is complete. For the API-key service: a token that
  verifies belongs to a wallet that signed a fresh challenge, revocation is final under every
  interleaving, and a challenge is accepted once, with the exact condition under which that holds. For
  the fleet manager: a loaded configuration is well-typed, the listing of the queue is read back
  exactly, and applying a fleet file reaches the desired state and is idempotent. For the convergence
  benchmark: messages survive the channel unchanged; under every interleaving of the threads the
  coordinator's table holds exactly the first sightings; and the rows are complete, without
  duplicates and corrected for clock skew. For the load generator: the times of a request are
  consistent and a batch report accounts for every request. For the network profiler: a benchmark
  cleans up once on every path, its records are complete, and its waiting loops end. The search of the
  placement calculator is optimal. Reducing a trace conserves the decoding work and merges all it can.
  Spinning up waits for exactly the nodes of the placement, also for those whose submission failed; a
  recovery run settles every request once under every interleaving of its tasks; the record of an
  overhead request accounts for its tokens and times. The sweeps of both benchmarks can be resumed: they
  submit or measure exactly what is missing and change nothing else. The router's counters agree with what it
  forwarded, only to nodes that offer the model. Trimming a notebook brings it within the limits in one pass. Theorems whose name
  says that something raises, breaks, is zero, or finds or serves nothing record defects of the code; each defect is
  a finding of the manifest.

  \<^bold>\<open>Modelling choices.\<close>

    \<^item> Floats are real numbers; rounding of machine arithmetic is not modelled. Python's integers are
      \<open>int\<close>. Strings are lists of 8-bit characters.
    \<^item> Objects are records, methods are functions that return the new record; an exception is a value
      of the sum type \<open>'a res\<close>. Where code continues after an exception with the state it
      left, the state is returned beside the result (\<open>Io\<close>). An interrupt of the profiler's benchmark
      is an outcome of the command during which it arrives.
    \<^item> Dictionaries are association lists in insertion order. A Python set is a list; where its
      iteration order matters the order is an argument.
    \<^item> Loops that may not end are partial functions with values in \<open>option\<close>, and their
      termination is proved under the condition that makes them end. The cluster's run uses the
      limit of 10,000,000 events that the code sets; polling loops have the code's own bounds.
      A loop that waits on the clock reads it from a list of observations; it is proved to return once
      an observation reaches the deadline. The waiting loops of the profiler's benchmark have a bound of
      62 rounds, proved never to be reached when a pause of a second lasts a second; those of a convergence
      task need 482 (\<open>wait_for_ends\<close>), by the same lemma of \<open>Io\<close>. The recursion of the JSON parser is bounded by twice
      the length of its input, and the bound is proved never to be reached.
    \<^item> Libraries are arguments: random generators, MD5 and set order (simulator), base58, Ed25519,
      SHA-256, clock and random strings (API keys), \<open>ssh\<close>, \<open>scp\<close>, paramiko, Jinja and
      YAML (fleet manager and spin-up), processes, clock, YAML and base64 (network profiler), tokenizers
      (recovery runs), replies of servers with the clock readings around them (load generator, drivers,
      overhead and convergence benchmarks). Theorems hold for every value of these arguments unless a
      hypothesis is stated.

  \<^bold>\<open>Not modelled.\<close> Printing, logging and the writing of result files; files that only draw plots;
  argument parsers and preflight checks; the scripts of the simulator's experiments; the GPU-profiling
  scripts and the aggregation of traces for notebooks, which measure hardware or reshape data frames; the client \<open>otela_cli\<close>, which wraps the node's binary; the
  nodes in Go, the reward program in Rust and the web parts in TypeScript.
\<close>

end
